(* ===== verification/Prelude.thy ===== *)
theory Prelude
  imports
    Complex_Main
    "HOL-Library.AList"
    "HOL-Library.Char_ord"
    "HOL-Library.List_Lexorder"
    "HOL-Library.Multiset"
    "HOL-Library.Product_Lexorder"
    "HOL-Library.Code_Target_Numeral"
begin

text \<open>
  The vocabulary shared by every component of the model.

  \<^item> Python floats are exact rationals (\<open>flt\<close>): rounding of IEEE doubles is not modelled.  Where
    the code itself tests for NaN or infinity the component uses the type \<open>pfloat\<close> of theory
    \<open>PyValue\<close> instead.
  \<^item> A Python \<open>dict\<close> is an association list in insertion order: \<open>d[k] = v\<close> is
    \<open>AList.update k v d\<close> (in place, or appended), \<open>d.pop(k, None)\<close> is \<open>AList.delete k d\<close>,
    \<open>d.get(k)\<close> is \<open>map_of d k\<close>.
  \<^item> A raised exception is the left summand of \<open>py_error + 'a\<close>.
  \<^item> Timestamps (\<open>datetime\<close>) are integers (microseconds of one time line).
\<close>

type_synonym flt = rat
type_synonym timestamp = int
type_synonym ('k, 'v) dict = "('k \<times> 'v) list"

datatype py_error = KeyError | AttributeError | TypeError | ValueError | ZeroDivisionError | DatabaseError | AccountingError | RuntimeError | NotImplementedError | NotModelled

type_synonym 'a res = "py_error + 'a"

text \<open>
  Hint collections: \<open>dict_simps\<close> rewrites look-ups through updates and removals, \<open>model_defs\<close>
  collects the definitions that a witness unfolds.
\<close>

named_theorems dict_simps
named_theorems model_defs

section \<open>Results\<close>

fun rbind :: "'a res \<Rightarrow> ('a \<Rightarrow> 'b res) \<Rightarrow> 'b res" where
  "rbind (Inl e) f = Inl e"
| "rbind (Inr x) f = f x"

lemma rbind_Inr_iff [simp]: "rbind m f = Inr y \<longleftrightarrow> (\<exists>x. m = Inr x \<and> f x = Inr y)"
  by (cases m) auto

lemma rbind_cong [fundef_cong]:
  "m = m' \<Longrightarrow> (\<And>x. m' = Inr x \<Longrightarrow> f x = g x) \<Longrightarrow> rbind m f = rbind m' g"
  by (cases m') auto

text \<open>A computed observation of a successful result names the result.\<close>

lemma observe: "map_sum id f r = Inr v \<Longrightarrow> \<exists>y. r = Inr y \<and> f y = v"
  by (cases r) simp_all

section \<open>Dictionaries\<close>

abbreviation dset :: "('k, 'v) dict \<Rightarrow> 'k \<Rightarrow> 'v \<Rightarrow> ('k, 'v) dict" where
  "dset d k v \<equiv> AList.update k v d"

abbreviation dpop :: "('k, 'v) dict \<Rightarrow> 'k \<Rightarrow> ('k, 'v) dict" where
  "dpop d k \<equiv> AList.delete k d"

definition dget_or :: "('k, 'v) dict \<Rightarrow> 'k \<Rightarrow> 'v \<Rightarrow> 'v" where
  "dget_or d k v = (case map_of d k of None \<Rightarrow> v | Some x \<Rightarrow> x)"

definition dhas :: "('k, 'v) dict \<Rightarrow> 'k \<Rightarrow> bool" where
  "dhas d k = (map_of d k \<noteq> None)"

abbreviation dkeys :: "('k, 'v) dict \<Rightarrow> 'k list" where
  "dkeys d \<equiv> map fst d"

abbreviation dvals :: "('k, 'v) dict \<Rightarrow> 'v list" where
  "dvals d \<equiv> map snd d"

definition dict_ok :: "('k, 'v) dict \<Rightarrow> bool" where
  "dict_ok d = distinct (map fst d)"

text \<open>\<open>dict(pairs)\<close>: a later pair overwrites an earlier one and keeps its position.\<close>

definition dict_of :: "('k \<times> 'v) list \<Rightarrow> ('k, 'v) dict" where
  "dict_of ps = fold (\<lambda>(k, v) d. dset d k v) ps []"

text \<open>\<open>sorted(set(xs) | set(ys))\<close> is \<open>sorted_union xs ys\<close>.\<close>

definition sorted_union :: "'k::linorder list \<Rightarrow> 'k list \<Rightarrow> 'k list" where
  "sorted_union xs ys = sort (remdups (xs @ ys))"

lemma set_sorted_union [simp]: "set (sorted_union xs ys) = set xs \<union> set ys"
  by (simp add: sorted_union_def)

lemma distinct_sorted_union [simp]: "distinct (sorted_union xs ys)"
  by (simp add: sorted_union_def)

lemma sorted_sorted_union [simp]: "sorted (sorted_union xs ys)"
  by (simp add: sorted_union_def)

lemma map_of_dset [simp, dict_simps]: "map_of (dset d k v) = (map_of d)(k \<mapsto> v)"
  by (rule ext) (simp add: update_conv)

lemma map_of_dpop [simp, dict_simps]: "map_of (dpop d k) = (map_of d)(k := None)"
  by (rule ext) (simp add: delete_conv)

lemma dget_or_dset [dict_simps]: "dget_or (dset d k v) k' w = (if k' = k then v else dget_or d k' w)"
  by (simp add: dget_or_def)

lemma dget_or_dpop [dict_simps]: "dget_or (dpop d k) k' w = (if k' = k then w else dget_or d k' w)"
  by (simp add: dget_or_def)

lemma dget_or_Nil [simp]: "dget_or [] k v = v"
  by (simp add: dget_or_def)

lemma dict_ok_Nil [simp, intro]: "dict_ok []"
  by (simp add: dict_ok_def)

lemma dict_ok_dset [simp, intro]: "dict_ok d \<Longrightarrow> dict_ok (dset d k v)"
  by (simp add: dict_ok_def distinct_update)

lemma dict_ok_dpop [simp, intro]: "dict_ok d \<Longrightarrow> dict_ok (dpop d k)"
  by (simp add: dict_ok_def distinct_delete)

lemma dict_ok_filter [simp, intro]: "dict_ok d \<Longrightarrow> dict_ok (filter P d)"
  by (simp add: dict_ok_def distinct_map_filter)

lemma set_dkeys_dset [simp]: "set (dkeys (dset d k v)) = insert k (set (dkeys d))"
  by (simp add: dom_update)

lemma set_dkeys_dpop [simp]: "set (dkeys (dpop d k)) = set (dkeys d) - {k}"
  by (simp add: delete_keys)

text \<open>Look-up in \<open>{k: f(k, v) for k, v in d.items() if P(k, v)}\<close>.\<close>

lemma map_of_comprehension:
  assumes "dict_ok d"
  shows "map_of (map (\<lambda>(k, v). (k, f k v)) (filter (\<lambda>(k, v). P k v) d)) k =
    (case map_of d k of Some v \<Rightarrow> if P k v then Some (f k v) else None | None \<Rightarrow> None)"
  using assms
proof (induction d)
  case (Cons a d)
  obtain l v where a: "a = (l, v)" by (cases a)
  have "map_of d l = None" "dict_ok d" using Cons.prems by (auto simp: a dict_ok_def map_of_eq_None_iff)
  then show ?case using Cons.IH by (auto simp: a split: option.splits)
qed simp

lemma map_of_in_keys: "map_of d k = Some v \<Longrightarrow> k \<in> set (dkeys d)"
  by (force dest: map_of_SomeD)

lemma dict_ok_map_of_iff: "dict_ok d \<Longrightarrow> map_of d k = Some v \<longleftrightarrow> (k, v) \<in> set d"
  by (simp add: dict_ok_def)

lemma map_of_map_value [dict_simps]:
  "map_of (map (\<lambda>(k, v). (k, f k v)) d) k = map_option (f k) (map_of d k)"
  by (induction d) auto

lemma dict_ok_map_value [simp]: "dict_ok (map (\<lambda>(k, v). (k, f k v)) d) = dict_ok d"
  by (simp add: dict_ok_def case_prod_beta' comp_def)

lemma dkeys_map_value [simp]: "dkeys (map (\<lambda>(k, v). (k, f k v)) d) = dkeys d"
  by (simp add: case_prod_beta' comp_def)

section \<open>Sums over dictionaries\<close>

text \<open>Removing one key takes exactly its contribution out of a sum over the entries.\<close>

lemma sum_list_dpop:
  fixes f :: "'k \<Rightarrow> 'v \<Rightarrow> 'a::ab_group_add"
  assumes "dict_ok d"
  shows "sum_list (map (\<lambda>(k, v). f k v) (dpop d k)) =
    sum_list (map (\<lambda>(k, v). f k v) d) - (case map_of d k of None \<Rightarrow> 0 | Some v \<Rightarrow> f k v)"
  using assms
proof (induction d)
  case Nil
  then show ?case by simp
next
  case (Cons p d)
  obtain a b where p: "p = (a, b)" by (cases p)
  from Cons.prems p have ok: "dict_ok d" and na: "a \<notin> set (map fst d)"
    by (auto simp: dict_ok_def)
  show ?case
  proof (cases "a = k")
    case True
    then have "dpop d k = d" using na by (simp add: delete_idem)
    then show ?thesis using True p by simp
  next
    case False
    then show ?thesis using Cons.IH [OF ok] p by (simp add: algebra_simps)
  qed
qed

lemma sum_list_dset:
  fixes f :: "'k \<Rightarrow> 'v \<Rightarrow> 'a::ab_group_add"
  assumes "dict_ok d"
  shows "sum_list (map (\<lambda>(k, v). f k v) (dset d k v)) =
    sum_list (map (\<lambda>(k, v). f k v) d) - (case map_of d k of None \<Rightarrow> 0 | Some w \<Rightarrow> f k w) + f k v"
  using assms
proof (induction d)
  case Nil
  then show ?case by simp
next
  case (Cons p d)
  obtain a b where p: "p = (a, b)" by (cases p)
  from Cons.prems p have ok: "dict_ok d" by (auto simp: dict_ok_def)
  then show ?case using Cons.IH [OF ok] p by (auto simp: algebra_simps)
qed

lemma get_in: "dict_ok ws \<Longrightarrow> (s, w) \<in> set ws \<Longrightarrow> dget_or ws s d = w"
  by (simp add: dget_or_def dict_ok_def)

text \<open>Sums over a dictionary are sums over any set that holds its keys.\<close>

lemma sum_dict_over:
  fixes g :: "'k \<Rightarrow> flt \<Rightarrow> flt"
  assumes "dict_ok ws" and "finite S" and "set (dkeys ws) \<subseteq> S" and "\<And>s. g s 0 = 0"
  shows "sum_list (map (\<lambda>(s, w). g s w) ws) = (\<Sum>s\<in>S. g s (dget_or ws s 0))"
proof -
  have "(\<Sum>s\<in>S. g s (dget_or ws s 0)) = (\<Sum>s\<in>set (dkeys ws). g s (dget_or ws s 0))"
    by (rule sum.mono_neutral_right) (use assms in \<open>auto simp: dget_or_def split: option.splits dest: map_of_in_keys\<close>)
  also have "\<dots> = sum_list (map (\<lambda>s. g s (dget_or ws s 0)) (dkeys ws))"
    using assms(1) by (simp only: sum_list_distinct_conv_sum_set dict_ok_def)
  also have "map (\<lambda>s. g s (dget_or ws s 0)) (dkeys ws) = map (\<lambda>(s, w). g s w) ws"
    using get_in [OF assms(1)] by auto
  finally show ?thesis ..
qed

lemma sum_list_nonneg_rat:
  fixes xs :: "flt list"
  shows "(\<And>x. x \<in> set xs \<Longrightarrow> 0 \<le> x) \<Longrightarrow> 0 \<le> sum_list xs"
  by (rule sum_list_nonneg)

lemma sum_list_pos_int:
  fixes f :: "'a \<Rightarrow> int"
  shows "xs \<noteq> [] \<Longrightarrow> \<forall>x \<in> set xs. 0 < f x \<Longrightarrow> 0 < sum_list (map f xs)"
proof (induction xs)
  case (Cons x xs)
  then show ?case by (cases "xs = []") auto
qed simp

lemma sum_list_mono_map:
  fixes f g :: "'a \<Rightarrow> flt"
  shows "(\<And>x. x \<in> set xs \<Longrightarrow> f x \<le> g x) \<Longrightarrow> sum_list (map f xs) \<le> sum_list (map g xs)"
  by (rule sum_list_mono)

lemma sum_list_scale:
  fixes xs :: "'a list" and f :: "'a \<Rightarrow> flt"
  shows "sum_list (map (\<lambda>x. f x * c) xs) = sum_list (map f xs) * c"
  by (induction xs) (auto simp: algebra_simps)

lemma sum_list_sort [simp]:
  fixes xs :: "'a::{linorder, comm_monoid_add} list"
  shows "sum_list (sort xs) = sum_list xs"
proof -
  have "sum_mset (mset (sort xs)) = sum_mset (mset xs)" by simp
  then show ?thesis by (simp only: sum_mset_sum_list)
qed

section \<open>Numbers\<close>

text \<open>\<open>shares // lot\<close> truncated to an integer: floor division of a float by a positive integer.\<close>

definition floor_div :: "flt \<Rightarrow> int \<Rightarrow> int" where
  "floor_div x n = \<lfloor>x / of_int n\<rfloor>"

text \<open>Float division of Python: a zero divisor raises.\<close>

definition py_div :: "flt \<Rightarrow> flt \<Rightarrow> flt res" where
  "py_div a b = (if b = 0 then Inl ZeroDivisionError else Inr (a / b))"

text \<open>\<open>int(shares // lot_size) * lot_size\<close>, the lot rounding of the order and execution code.\<close>

definition lot_round :: "flt \<Rightarrow> int \<Rightarrow> int res" where
  "lot_round shares lot_size =
     (if lot_size = 0 then Inl ZeroDivisionError else Inr (floor_div shares lot_size * lot_size))"

lemma floor_div_mult_le:
  assumes "0 < n"
  shows "of_int (floor_div x n * n) \<le> x"
proof -
  have "of_int (floor_div x n) \<le> x / of_int n"
    by (simp add: floor_div_def)
  then show ?thesis using assms by (simp add: field_simps)
qed

lemma floor_div_gt:
  assumes "0 < n"
  shows "x < of_int ((floor_div x n + 1) * n)"
proof -
  have "x / of_int n < of_int (floor_div x n) + 1"
    unfolding floor_div_def by linarith
  then show ?thesis using assms by (simp add: field_simps)
qed

lemma floor_div_nonneg: "0 \<le> x \<Longrightarrow> 0 < n \<Longrightarrow> 0 \<le> floor_div x n"
  by (simp add: floor_div_def)

lemma lot_round_Inr:
  assumes "0 < lot_size"
  shows "lot_round x lot_size = Inr (floor_div x lot_size * lot_size)"
  using assms by (simp add: lot_round_def)

lemma lot_round_le: "0 < lot_size \<Longrightarrow> lot_round x lot_size = Inr n \<Longrightarrow> of_int n \<le> x"
  using floor_div_mult_le by (auto simp: lot_round_def)

lemma lot_round_dvd: "lot_round x lot_size = Inr n \<Longrightarrow> lot_size dvd n"
  by (auto simp: lot_round_def split: if_splits)

lemma lot_round_exact: "0 < lot_size \<Longrightarrow> lot_size dvd n \<Longrightarrow> lot_round (of_int n) lot_size = Inr n"
  by (auto simp: lot_round_def floor_div_def elim!: dvdE)

lemma lot_round_mono:
  "0 < lot_size \<Longrightarrow> lot_round x lot_size = Inr n \<Longrightarrow> lot_round y lot_size = Inr m \<Longrightarrow> x \<le> y \<Longrightarrow> n \<le> m"
  by (auto simp: lot_round_def floor_div_def intro!: mult_right_mono floor_mono divide_right_mono)

end
