(* ===== verification/PyValue.thy ===== *)
theory PyValue
  imports Prelude
begin

text \<open>
  The part of the Python language and standard library that the modelled code leans on: JSON-shaped
  dynamic values with truthiness and the coercions \<open>str()\<close>, \<open>int()\<close>, \<open>float()\<close>; the string methods
  \<open>strip\<close>, \<open>lower\<close> and \<open>in\<close>; floats with NaN and infinities for the places that test for them; and
  calendar dates with \<open>isoformat\<close> / \<open>fromisoformat\<close>.

  Strings are lists of code points below 256.  A conversion whose text depends on the shortest
  representation of a double, or on the printing of a container, is the error value \<open>NotModelled\<close>,
  so a theorem about a successful run never rests on it.
\<close>

section \<open>Characters and strings\<close>

definition code :: "char \<Rightarrow> nat" where
  "code c = of_char c"

definition is_space :: "char \<Rightarrow> bool" where
  "is_space c = (let n = code c in
     (9 \<le> n \<and> n \<le> 13) \<or> (28 \<le> n \<and> n \<le> 32) \<or> n = 133 \<or> n = 160)"

definition is_digit :: "char \<Rightarrow> bool" where
  "is_digit c = (let n = code c in 48 \<le> n \<and> n \<le> 57)"

definition lower_char :: "char \<Rightarrow> char" where
  "lower_char c = (let n = code c in
     if (65 \<le> n \<and> n \<le> 90) \<or> (192 \<le> n \<and> n \<le> 222 \<and> n \<noteq> 215) then char_of (n + 32) else c)"

definition str_lower :: "string \<Rightarrow> string" where
  "str_lower s = map lower_char s"

definition str_strip :: "string \<Rightarrow> string" where
  "str_strip s = rev (dropWhile is_space (rev (dropWhile is_space s)))"

text \<open>\<open>p in s\<close> for strings: \<open>p\<close> is a contiguous part of \<open>s\<close>.\<close>

fun str_in :: "string \<Rightarrow> string \<Rightarrow> bool" where
  "str_in p [] = (p = [])"
| "str_in p (c # s) = (take (length p) (c # s) = p \<or> str_in p s)"

lemma code_lt [simp]: "code c < 256"
  by (simp add: code_def)

lemma code_char_of [simp]: "n < 256 \<Longrightarrow> code (char_of n) = n"
  by (simp add: code_def)

lemma code_lower_char:
  "code (lower_char c) = (if (65 \<le> code c \<and> code c \<le> 90) \<or> (192 \<le> code c \<and> code c \<le> 222 \<and> code c \<noteq> 215)
     then code c + 32 else code c)"
  by (simp add: lower_char_def Let_def)

lemma code_eq_iff: "code c = code d \<longleftrightarrow> c = d"
  by (simp add: code_def)

lemma lower_char_idem [simp]: "lower_char (lower_char c) = lower_char c"
  by (subst code_eq_iff [symmetric]) (auto simp: code_lower_char)

lemma is_space_lower_char [simp]: "is_space (lower_char c) = is_space c"
  by (auto simp: is_space_def Let_def code_lower_char)

lemma str_lower_idem [simp]: "str_lower (str_lower s) = str_lower s"
  by (simp add: str_lower_def)

lemma dropWhile_map_comp: "dropWhile P (map f xs) = map f (dropWhile (\<lambda>x. P (f x)) xs)"
  by (induction xs) auto

lemma str_strip_lower: "str_strip (str_lower s) = str_lower (str_strip s)"
  by (simp add: str_strip_def str_lower_def dropWhile_map_comp rev_map)

lemma dropWhile_rev_dropWhile_rev:
  "dropWhile P (rev (dropWhile P (rev (dropWhile P xs)))) = rev (dropWhile P (rev (dropWhile P xs)))"
proof (cases "dropWhile P xs")
  case Nil
  show ?thesis unfolding Nil by simp
next
  case (Cons y ys)
  then have "\<not> P y" by (metis hd_dropWhile list.distinct(1) list.sel(1))
  then have "rev (dropWhile P (rev (y # ys))) = y # rev (dropWhile P (rev ys))"
    by (cases "\<forall>x \<in> set ys. P x") (auto simp: dropWhile_append dropWhile_eq_Nil_conv)
  then show ?thesis using \<open>\<not> P y\<close> Cons by simp
qed

lemma dropWhile_idem [simp]: "dropWhile P (dropWhile P xs) = dropWhile P xs"
  by (induction xs) auto

lemma str_strip_idem [simp]: "str_strip (str_strip s) = str_strip s"
  by (simp add: str_strip_def dropWhile_rev_dropWhile_rev)

lemma str_strip_Nil [simp]: "str_strip [] = []"
  by (simp add: str_strip_def)

lemma str_lower_Nil_iff [simp]: "str_lower s = [] \<longleftrightarrow> s = []"
  by (simp add: str_lower_def)

section \<open>Decimal text\<close>

fun nat_str :: "nat \<Rightarrow> string" where
  "nat_str n = (if n < 10 then [char_of (48 + n)] else nat_str (n div 10) @ [char_of (48 + n mod 10)])"

declare nat_str.simps [simp del]

definition int_str :: "int \<Rightarrow> string" where
  "int_str i = (if i < 0 then CHR ''-'' # nat_str (nat (- i)) else nat_str (nat i))"

definition digit_val :: "char \<Rightarrow> nat" where
  "digit_val c = code c - 48"

fun digits_val :: "nat \<Rightarrow> string \<Rightarrow> nat" where
  "digits_val a [] = a"
| "digits_val a (c # cs) = digits_val (10 * a + digit_val c) cs"

text \<open>\<open>int("1_000")\<close> takes single underscores between digits; \<open>digit_run\<close> reads such a run.\<close>

fun digit_run :: "bool \<Rightarrow> string \<Rightarrow> string option" where
  "digit_run seen [] = (if seen then Some [] else None)"
| "digit_run seen (c # cs) =
     (if is_digit c then map_option ((#) c) (digit_run True cs)
      else if c = CHR ''_'' \<and> seen then
        (case cs of [] \<Rightarrow> None | d # _ \<Rightarrow> if is_digit d then digit_run False cs else None)
      else None)"

fun split_sign :: "string \<Rightarrow> bool \<times> string" where
  "split_sign (c # cs) =
     (if c = CHR ''-'' then (True, cs) else if c = CHR ''+'' then (False, cs) else (False, c # cs))"
| "split_sign [] = (False, [])"

definition parse_int :: "string \<Rightarrow> int res" where
  "parse_int s = (case split_sign (str_strip s) of (neg, ds) \<Rightarrow>
     (case digit_run False ds of
        None \<Rightarrow> Inl ValueError
      | Some cs \<Rightarrow> Inr (if neg then - int (digits_val 0 cs) else int (digits_val 0 cs))))"

definition opt_digits :: "string \<Rightarrow> string option" where
  "opt_digits s = (if s = [] then Some [] else digit_run False s)"

definition pow10 :: "int \<Rightarrow> rat" where
  "pow10 e = (if 0 \<le> e then 10 ^ nat e else 1 / 10 ^ nat (- e))"

definition split_at :: "(char \<Rightarrow> bool) \<Rightarrow> string \<Rightarrow> string \<times> string option" where
  "split_at P s = (takeWhile (\<lambda>c. \<not> P c) s,
     (case dropWhile (\<lambda>c. \<not> P c) s of [] \<Rightarrow> None | _ # r \<Rightarrow> Some r))"

definition parse_float :: "string \<Rightarrow> flt res" where
  "parse_float s = (case split_sign (str_lower (str_strip s)) of (neg, b) \<Rightarrow>
     if b \<in> {''nan'', ''inf'', ''infinity''} then Inl NotModelled
     else case split_at (\<lambda>c. c = CHR ''e'') b of (mant, ex) \<Rightarrow>
       (case split_at (\<lambda>c. c = CHR ''.'') mant of (ip, fp) \<Rightarrow>
         (case (opt_digits ip, opt_digits (case fp of None \<Rightarrow> [] | Some f \<Rightarrow> f),
                (case ex of None \<Rightarrow> Inr 0 | Some t \<Rightarrow> if t = str_strip t then parse_int t else Inl ValueError)) of
            (Some i, Some f, Inr e) \<Rightarrow>
              (if i = [] \<and> f = [] then Inl ValueError
               else let v = rat_of_nat (digits_val 0 (i @ f)) * pow10 (e - int (length f))
                    in Inr (if neg then - v else v))
          | _ \<Rightarrow> Inl ValueError)))"

section \<open>Dynamic values\<close>

datatype json =
    JNull
  | JBool bool
  | JInt int
  | JFloat flt
  | JStr string
  | JList "json list"
  | JObj "(string \<times> json) list"

type_synonym payload = "(string, json) dict"

fun truthy :: "json \<Rightarrow> bool" where
  "truthy JNull = False"
| "truthy (JBool b) = b"
| "truthy (JInt i) = (i \<noteq> 0)"
| "truthy (JFloat x) = (x \<noteq> 0)"
| "truthy (JStr s) = (s \<noteq> [])"
| "truthy (JList xs) = (xs \<noteq> [])"
| "truthy (JObj d) = (d \<noteq> [])"

text \<open>\<open>a or b\<close>; \<open>d.get(k, dflt)\<close>; \<open>d[k]\<close>.\<close>

definition py_or :: "json \<Rightarrow> json \<Rightarrow> json" where
  "py_or a b = (if truthy a then a else b)"

definition jget :: "payload \<Rightarrow> string \<Rightarrow> json \<Rightarrow> json" where
  "jget d k dflt = dget_or d k dflt"

definition jitem :: "payload \<Rightarrow> string \<Rightarrow> json res" where
  "jitem d k = (case map_of d k of None \<Rightarrow> Inl KeyError | Some v \<Rightarrow> Inr v)"

fun py_str :: "json \<Rightarrow> string res" where
  "py_str JNull = Inr ''None''"
| "py_str (JBool b) = Inr (if b then ''True'' else ''False'')"
| "py_str (JInt i) = Inr (int_str i)"
| "py_str (JStr s) = Inr s"
| "py_str _ = Inl NotModelled"

definition trunc :: "flt \<Rightarrow> int" where
  "trunc x = (if 0 \<le> x then \<lfloor>x\<rfloor> else \<lceil>x\<rceil>)"

fun py_int :: "json \<Rightarrow> int res" where
  "py_int (JInt i) = Inr i"
| "py_int (JBool b) = Inr (if b then 1 else 0)"
| "py_int (JFloat x) = Inr (trunc x)"
| "py_int (JStr s) = parse_int s"
| "py_int _ = Inl TypeError"

fun py_float :: "json \<Rightarrow> flt res" where
  "py_float (JFloat x) = Inr x"
| "py_float (JInt i) = Inr (of_int i)"
| "py_float (JBool b) = Inr (if b then 1 else 0)"
| "py_float (JStr s) = parse_float s"
| "py_float _ = Inl TypeError"

fun as_dict :: "json \<Rightarrow> payload option" where
  "as_dict (JObj d) = Some d"
| "as_dict _ = None"

fun as_list :: "json \<Rightarrow> json list option" where
  "as_list (JList xs) = Some xs"
| "as_list _ = None"

text \<open>The frequent shapes \<open>str(d.get(k, "") or "")\<close>, \<open>int(d.get(k, 0) or 0)\<close> and
  \<open>float(d.get(k, 0.0) or 0.0)\<close>.\<close>

definition str_field :: "payload \<Rightarrow> string \<Rightarrow> string res" where
  "str_field d k = py_str (py_or (jget d k (JStr [])) (JStr []))"

definition int_field :: "payload \<Rightarrow> string \<Rightarrow> int res" where
  "int_field d k = py_int (py_or (jget d k (JInt 0)) (JInt 0))"

definition float_field :: "payload \<Rightarrow> string \<Rightarrow> flt res" where
  "float_field d k = py_float (py_or (jget d k (JFloat 0)) (JFloat 0))"

lemma str_field_JStr: "map_of d k = Some (JStr s) \<Longrightarrow> str_field d k = Inr s"
  by (simp add: str_field_def jget_def dget_or_def py_or_def)

lemma str_field_None: "map_of d k = None \<Longrightarrow> str_field d k = Inr []"
  by (simp add: str_field_def jget_def dget_or_def py_or_def)

lemma int_field_JInt: "map_of d k = Some (JInt i) \<Longrightarrow> int_field d k = Inr i"
  by (simp add: int_field_def jget_def dget_or_def py_or_def)

lemma int_field_None: "map_of d k = None \<Longrightarrow> int_field d k = Inr 0"
  by (simp add: int_field_def jget_def dget_or_def py_or_def)

lemma float_field_JFloat: "map_of d k = Some (JFloat x) \<Longrightarrow> float_field d k = Inr x"
  by (simp add: float_field_def jget_def dget_or_def py_or_def)

lemma float_field_None: "map_of d k = None \<Longrightarrow> float_field d k = Inr 0"
  by (simp add: float_field_def jget_def dget_or_def py_or_def)

lemmas field_simps_json =
  str_field_JStr str_field_None int_field_JInt int_field_None float_field_JFloat float_field_None

text \<open>\<open>sep.join(parts)\<close>.\<close>

fun join_with :: "string \<Rightarrow> string list \<Rightarrow> string" where
  "join_with sep [] = []"
| "join_with sep [x] = x"
| "join_with sep (x # xs) = x @ sep @ join_with sep xs"

text \<open>A loop over items that stops at the first exception.\<close>

fun rmap :: "('a \<Rightarrow> 'b res) \<Rightarrow> 'a list \<Rightarrow> 'b list res" where
  "rmap f [] = Inr []"
| "rmap f (x # xs) = rbind (f x) (\<lambda>y. rbind (rmap f xs) (\<lambda>ys. Inr (y # ys)))"

lemma rmap_Inr_iff: "rmap f xs = Inr ys \<longleftrightarrow> list_all2 (\<lambda>x y. f x = Inr y) xs ys"
  by (induction xs arbitrary: ys) (auto simp: list_all2_Cons1)

lemma rmap_result_from:
  "rmap f xs = Inr ys \<Longrightarrow> y \<in> set ys \<Longrightarrow> \<exists>x \<in> set xs. f x = Inr y"
  by (induction xs arbitrary: ys) auto

lemma rmap_source_to:
  "rmap f xs = Inr ys \<Longrightarrow> x \<in> set xs \<Longrightarrow> \<exists>y \<in> set ys. f x = Inr y"
  by (induction xs arbitrary: ys) fastforce+

fun rfold :: "('a \<Rightarrow> 's \<Rightarrow> 's res) \<Rightarrow> 'a list \<Rightarrow> 's \<Rightarrow> 's res" where
  "rfold f [] s = Inr s"
| "rfold f (x # xs) s = rbind (f x s) (rfold f xs)"

lemma rfold_append: "rfold f (xs @ ys) s = rbind (rfold f xs s) (rfold f ys)"
  by (induction xs arbitrary: s) (auto, case_tac "f a s", auto)

text \<open>An invariant of every step of such a loop holds of its result.\<close>

lemma rfold_invariant:
  assumes "rfold f xs s = Inr s'" and "P s"
    and "\<And>x s s'. x \<in> set xs \<Longrightarrow> P s \<Longrightarrow> f x s = Inr s' \<Longrightarrow> P s'"
  shows "P s'"
  using assms
proof (induction xs arbitrary: s)
  case Nil
  then show ?case by simp
next
  case (Cons x xs)
  then obtain s1 where "f x s = Inr s1" and "rfold f xs s1 = Inr s'" by auto
  moreover from this Cons.prems have "P s1" by (metis list.set_intros(1))
  ultimately show ?case using Cons.IH Cons.prems(3) by (metis list.set_intros(2))
qed

text \<open>\<open>try: float(x) except (TypeError, ValueError): default\<close>, and the same for \<open>int\<close>.\<close>

definition float_or :: "json \<Rightarrow> flt \<Rightarrow> flt res" where
  "float_or x dflt = (case py_float x of
     Inr v \<Rightarrow> Inr v
   | Inl e \<Rightarrow> if e = TypeError \<or> e = ValueError then Inr dflt else Inl e)"

definition int_or :: "json \<Rightarrow> int \<Rightarrow> int res" where
  "int_or x dflt = (case py_int x of
     Inr v \<Rightarrow> Inr v
   | Inl e \<Rightarrow> if e = TypeError \<or> e = ValueError then Inr dflt else Inl e)"

text \<open>\<open>list(x)\<close>: a list keeps its items, a string gives its characters, a dict its keys.\<close>

fun py_list :: "json \<Rightarrow> json list res" where
  "py_list (JList xs) = Inr xs"
| "py_list (JStr s) = Inr (map (\<lambda>c. JStr [c]) s)"
| "py_list (JObj d) = Inr (map (\<lambda>(k, v). JStr k) d)"
| "py_list _ = Inl TypeError"

text \<open>\<open>repr(s)\<close> of a string: single quotes unless only those occur in the text, with escapes.\<close>

definition hex_digit :: "nat \<Rightarrow> char" where
  "hex_digit n = (if n < 10 then char_of (48 + n) else char_of (87 + n))"

definition repr_char :: "char \<Rightarrow> char \<Rightarrow> string" where
  "repr_char q c = (let n = code c in
     if c = q \<or> n = 92 then [char_of (92::nat), c]
     else if n = 10 then [char_of (92::nat), CHR ''n'']
     else if n = 13 then [char_of (92::nat), CHR ''r'']
     else if n = 9 then [char_of (92::nat), CHR ''t'']
     else if n < 32 \<or> (127 \<le> n \<and> n \<le> 160) \<or> n = 173
       then [char_of (92::nat), CHR ''x'', hex_digit (n div 16), hex_digit (n mod 16)]
     else [c])"

definition py_repr :: "string \<Rightarrow> string" where
  "py_repr s = (let sq = char_of (39::nat); dq = char_of (34::nat);
       q = (if sq \<in> set s \<and> dq \<notin> set s then dq else sq)
     in [q] @ concat (map (repr_char q) s) @ [q])"

section \<open>Floats with NaN and infinities\<close>

datatype pfloat = Fin flt | PInf | NInf | NaN

fun is_finite :: "pfloat \<Rightarrow> bool" where
  "is_finite (Fin _) = True"
| "is_finite _ = False"

fun pf_le :: "pfloat \<Rightarrow> pfloat \<Rightarrow> bool" where
  "pf_le NaN _ = False"
| "pf_le _ NaN = False"
| "pf_le NInf _ = True"
| "pf_le _ PInf = True"
| "pf_le (Fin x) (Fin y) = (x \<le> y)"
| "pf_le _ _ = False"

fun pf_lt :: "pfloat \<Rightarrow> pfloat \<Rightarrow> bool" where
  "pf_lt NaN _ = False"
| "pf_lt _ NaN = False"
| "pf_lt NInf y = (y \<noteq> NInf)"
| "pf_lt x PInf = (x \<noteq> PInf)"
| "pf_lt (Fin x) (Fin y) = (x < y)"
| "pf_lt _ _ = False"

fun pf_abs :: "pfloat \<Rightarrow> pfloat" where
  "pf_abs (Fin x) = Fin \<bar>x\<bar>"
| "pf_abs NaN = NaN"
| "pf_abs _ = PInf"

section \<open>Dates\<close>

datatype date = Date (year: nat) (month: nat) (day: nat)

definition is_leap :: "nat \<Rightarrow> bool" where
  "is_leap y = (y mod 4 = 0 \<and> (y mod 100 \<noteq> 0 \<or> y mod 400 = 0))"

definition days_in_month :: "nat \<Rightarrow> nat \<Rightarrow> nat" where
  "days_in_month y m = (if m = 2 then (if is_leap y then 29 else 28)
     else if m \<in> {4, 6, 9, 11} then 30 else 31)"

fun valid_date :: "date \<Rightarrow> bool" where
  "valid_date (Date y m d) = (1 \<le> y \<and> y \<le> 9999 \<and> 1 \<le> m \<and> m \<le> 12 \<and> 1 \<le> d \<and> d \<le> days_in_month y m)"

definition digit_char :: "nat \<Rightarrow> char" where
  "digit_char n = char_of (48 + n mod 10)"

definition pad2 :: "nat \<Rightarrow> string" where
  "pad2 n = [digit_char (n div 10), digit_char n]"

definition pad4 :: "nat \<Rightarrow> string" where
  "pad4 n = [digit_char (n div 1000), digit_char (n div 100), digit_char (n div 10), digit_char n]"

fun isoformat :: "date \<Rightarrow> string" where
  "isoformat (Date y m d) = pad4 y @ CHR ''-'' # pad2 m @ CHR ''-'' # pad2 d"

text \<open>Spellings of a date other than \<open>YYYY-MM-DD\<close> that \<open>date.fromisoformat\<close> takes (basic and week
  formats, of 7, 8 or 10 characters) are outside the model.\<close>

definition fromisoformat :: "string \<Rightarrow> date res" where
  "fromisoformat s = (case s of
     [a, b, c, d, p, e, f, q, g, h] \<Rightarrow>
       (if p = CHR ''-'' \<and> q = CHR ''-'' \<and> list_all is_digit [a, b, c, d, e, f, g, h]
        then (let dt = Date (digits_val 0 [a, b, c, d]) (digits_val 0 [e, f]) (digits_val 0 [g, h])
              in if valid_date dt then Inr dt else Inl ValueError)
        else Inl NotModelled)
   | _ \<Rightarrow> if length s = 7 \<or> length s = 8 then Inl NotModelled else Inl ValueError)"

lemma code_digit_char [simp]: "code (digit_char n) = 48 + n mod 10"
proof -
  have "n mod 10 < 10" by simp
  then have "48 + n mod 10 < 256" by linarith
  then show ?thesis unfolding digit_char_def by (rule code_char_of)
qed

lemma is_digit_digit_char [simp]: "is_digit (digit_char n)"
proof -
  have "n mod 10 < 10" by simp
  then have "n mod 10 \<le> 9" by linarith
  then show ?thesis by (simp add: is_digit_def Let_def)
qed

lemma digit_val_digit_char [simp]: "digit_val (digit_char n) = n mod 10"
  by (simp add: digit_val_def)

lemma digits_val_pad2: "n < 100 \<Longrightarrow> digits_val 0 (pad2 n) = n"
  by (simp add: pad2_def)

lemma digits_val_pad4:
  assumes "n < 10000"
  shows "digits_val 0 (pad4 n) = n"
proof -
  define a b c where "a = n div 10" and "b = a div 10" and "c = b div 10"
  have "n div 100 = b" "n div 1000 = c"
    by (simp_all add: a_def b_def c_def div_mult2_eq [symmetric])
  moreover have "c < 10" using assms by (simp add: a_def b_def c_def)
  moreover have "n = 10 * a + n mod 10" "a = 10 * b + a mod 10" "b = 10 * c + b mod 10"
    by (simp_all add: a_def b_def c_def)
  ultimately show ?thesis by (simp add: pad4_def a_def [symmetric])
qed

lemma days_in_month_le: "days_in_month y m \<le> 31"
  by (simp add: days_in_month_def)

lemma fromisoformat_isoformat:
  assumes "valid_date d"
  shows "fromisoformat (isoformat d) = Inr d"
proof (cases d)
  case (Date y m k)
  with assms have "y < 10000" and "m < 100" and "k < 100"
    using days_in_month_le [of y m] by auto
  then have "digits_val 0 (pad4 y) = y" "digits_val 0 (pad2 m) = m" "digits_val 0 (pad2 k) = k"
    by (simp_all add: digits_val_pad2 digits_val_pad4)
  with assms Date show ?thesis
    by (simp add: fromisoformat_def pad2_def pad4_def)
qed

lemma isoformat_inj: "valid_date a \<Longrightarrow> valid_date b \<Longrightarrow> isoformat a = isoformat b \<Longrightarrow> a = b"
  by (metis fromisoformat_isoformat sum.inject(2))

lemma length_isoformat [simp]: "length (isoformat d) = 10"
  by (cases d) (simp add: pad2_def pad4_def)

end
