(* ===== verification/Order_Events.thy ===== *)
theory Order_Events
  imports PyValue
begin

text \<open>
  \<open>ez/live/events.py\<close>: the vocabulary of the live order-management system.  Event types and order
  states, the broker status vocabulary with its normalisation and its forward-only transition rule,
  the order / fill / event records, and the deterministic identifiers and event constructors.

  Timestamps are microseconds since 0001-01-01T00:00:00 UTC; \<open>iso_datetime\<close> prints them as
  \<open>datetime.isoformat()\<close> prints a UTC-aware value.  The digest of \<open>hashlib.sha1\<close> is the parameter
  \<open>sha\<close> of the functions that use it, and the clock (\<open>utcnow()\<close>) is the parameter \<open>now\<close>.
\<close>

section \<open>Event types and order states\<close>

datatype event_type =
    MARKET_SNAPSHOT | MARKET_BAR_RECORDED | BROKER_ACCOUNT_RECORDED | BROKER_RUNTIME_RECORDED
  | BROKER_EXECUTION_RECORDED | BROKER_CANCEL_REQUESTED | ORDER_SUBMITTED | ORDER_FILLED
  | ORDER_PARTIALLY_FILLED | ORDER_REJECTED | RISK_RECORDED | SNAPSHOT_SAVED | TICK_COMPLETED

fun event_type_value :: "event_type \<Rightarrow> string" where
  "event_type_value MARKET_SNAPSHOT = ''market_snapshot''"
| "event_type_value MARKET_BAR_RECORDED = ''market_bar_recorded''"
| "event_type_value BROKER_ACCOUNT_RECORDED = ''broker_account_recorded''"
| "event_type_value BROKER_RUNTIME_RECORDED = ''broker_runtime_recorded''"
| "event_type_value BROKER_EXECUTION_RECORDED = ''broker_execution_recorded''"
| "event_type_value BROKER_CANCEL_REQUESTED = ''broker_cancel_requested''"
| "event_type_value ORDER_SUBMITTED = ''order_submitted''"
| "event_type_value ORDER_FILLED = ''order_filled''"
| "event_type_value ORDER_PARTIALLY_FILLED = ''order_partially_filled''"
| "event_type_value ORDER_REJECTED = ''order_rejected''"
| "event_type_value RISK_RECORDED = ''risk_recorded''"
| "event_type_value SNAPSHOT_SAVED = ''snapshot_saved''"
| "event_type_value TICK_COMPLETED = ''tick_completed''"

definition all_event_types :: "event_type list" where
  "all_event_types = [MARKET_SNAPSHOT, MARKET_BAR_RECORDED, BROKER_ACCOUNT_RECORDED,
     BROKER_RUNTIME_RECORDED, BROKER_EXECUTION_RECORDED, BROKER_CANCEL_REQUESTED, ORDER_SUBMITTED,
     ORDER_FILLED, ORDER_PARTIALLY_FILLED, ORDER_REJECTED, RISK_RECORDED, SNAPSHOT_SAVED,
     TICK_COMPLETED]"

text \<open>\<open>EventType(value)\<close>: the member with that value, or \<open>ValueError\<close>.\<close>

definition event_type_of :: "string \<Rightarrow> event_type res" where
  "event_type_of s = (case find (\<lambda>t. event_type_value t = s) all_event_types of
     None \<Rightarrow> Inl ValueError | Some t \<Rightarrow> Inr t)"

datatype order_status = NEW | SUBMITTED | PARTIALLY_FILLED | FILLED | CANCELED | REJECTED

fun order_status_value :: "order_status \<Rightarrow> string" where
  "order_status_value NEW = ''new''"
| "order_status_value SUBMITTED = ''submitted''"
| "order_status_value PARTIALLY_FILLED = ''partially_filled''"
| "order_status_value FILLED = ''filled''"
| "order_status_value CANCELED = ''canceled''"
| "order_status_value REJECTED = ''rejected''"

section \<open>Broker statuses\<close>

definition broker_status_aliases :: "(string, string) dict" where
  "broker_status_aliases = [
     (''waiting_reporting'', ''unreported''), (''waiting_report'', ''unreported''),
     (''wait_reporting'', ''unreported''), (''submitted'', ''reported''),
     (''accepted'', ''reported''), (''active'', ''reported''), (''working'', ''reported''),
     (''queued'', ''reported''), (''partially_cancelled'', ''partially_canceled''),
     (''partial_canceled'', ''partially_canceled''), (''partial_cancelled'', ''partially_canceled''),
     (''cancelled'', ''canceled''), (''order_rejected'', ''order_error''),
     (''order_failed'', ''order_error''), (''cancel_rejected'', ''cancel_error''),
     (''cancel_failed'', ''cancel_error''), (''error'', ''order_error'')]"

definition broker_status_rank_table :: "(string, nat) dict" where
  "broker_status_rank_table = [
     (''unknown'', 0), (''cancel_error'', 5), (''unreported'', 10), (''reported'', 12),
     (''reported_cancel_pending'', 14), (''partially_filled'', 20),
     (''partially_filled_cancel_pending'', 22), (''partially_canceled'', 30), (''filled'', 30),
     (''canceled'', 30), (''junk'', 30), (''order_error'', 30)]"

definition broker_terminal_statuses :: "string list" where
  "broker_terminal_statuses =
     [''partially_canceled'', ''filled'', ''canceled'', ''junk'', ''order_error'']"

definition broker_terminal_rank :: nat where
  "broker_terminal_rank = 30"

definition broker_terminal_followups :: "(string, string list) dict" where
  "broker_terminal_followups = [(''partially_canceled'', [''canceled''])]"

text \<open>The tests made on a cleaned, alias-resolved status, in the order of the code.\<close>

definition classify_status :: "string \<Rightarrow> int \<Rightarrow> int \<Rightarrow> string" where
  "classify_status raw filled remaining =
     (if dhas broker_status_rank_table raw then raw
      else if str_in ''cancel'' raw \<and> str_in ''pending'' raw then
        (if 0 < filled \<or> 0 < remaining then ''partially_filled_cancel_pending''
         else ''reported_cancel_pending'')
      else if str_in ''partial'' raw \<and> str_in ''fill'' raw then ''partially_filled''
      else if str_in ''partial'' raw \<and> str_in ''cancel'' raw then ''partially_canceled''
      else if str_in ''fill'' raw \<and> 0 < filled then
        (if remaining \<le> 0 then ''filled'' else ''partially_filled'')
      else if raw \<in> {''reject'', ''rejected'', ''rejecting''} then ''order_error''
      else if raw \<in> {''junk'', ''discarded''} then ''junk''
      else if raw \<in> {''pending'', ''report_pending'', ''reported_pending''} then ''reported''
      else if raw \<in> {''reported'', ''report'', ''ack'', ''acknowledged'', ''submitted''} then ''reported''
      else raw)"

definition normalize_broker_order_status :: "string \<Rightarrow> int \<Rightarrow> int \<Rightarrow> string" where
  "normalize_broker_order_status status filled remaining =
     (let raw = str_lower (str_strip status) in
      if raw = [] then ''unknown''
      else classify_status (dget_or broker_status_aliases raw raw) filled remaining)"

text \<open>The call with the default keyword arguments.\<close>

abbreviation normalize_status :: "string \<Rightarrow> string" where
  "normalize_status s \<equiv> normalize_broker_order_status s 0 0"

definition table_rank :: "string \<Rightarrow> nat" where
  "table_rank s = dget_or broker_status_rank_table s 0"

definition broker_order_status_rank :: "string \<Rightarrow> nat" where
  "broker_order_status_rank s = table_rank (normalize_status s)"

definition broker_order_status_is_terminal :: "string \<Rightarrow> bool" where
  "broker_order_status_is_terminal s = (normalize_status s \<in> set broker_terminal_statuses)"

definition broker_order_status_can_transition :: "string \<Rightarrow> string \<Rightarrow> bool" where
  "broker_order_status_can_transition current incoming =
     (let cur = normalize_status current; inc = normalize_status incoming in
      if broker_terminal_rank \<le> table_rank cur
      then inc \<in> set (dget_or broker_terminal_followups cur [])
      else table_rank cur < table_rank inc)"

definition broker_order_status_to_order_status :: "string \<Rightarrow> order_status" where
  "broker_order_status_to_order_status s =
     (let n = normalize_status s in
      if n \<in> {''filled''} then FILLED
      else if n \<in> {''partially_filled'', ''partially_filled_cancel_pending''} then PARTIALLY_FILLED
      else if n \<in> {''canceled'', ''partially_canceled''} then CANCELED
      else if n \<in> {''junk'', ''order_error''} then REJECTED
      else if n \<in> {''cancel_error''} then SUBMITTED
      else SUBMITTED)"

section \<open>Records\<close>

record order =
  o_order_id :: string
  o_client_order_id :: string
  o_deployment_id :: string
  o_symbol :: string
  o_side :: string
  o_shares :: int
  o_business_date :: date
  o_requested_shares :: int
  o_remaining_shares :: int
  o_status :: order_status
  o_rejected_reason :: string
  o_rejected_message :: string
  o_rejected_details :: payload

definition order_to_dict :: "order \<Rightarrow> payload" where
  "order_to_dict o' =
     [(''order_id'', JStr (o_order_id o')), (''client_order_id'', JStr (o_client_order_id o')),
      (''deployment_id'', JStr (o_deployment_id o')), (''symbol'', JStr (o_symbol o')),
      (''side'', JStr (o_side o')), (''shares'', JInt (o_shares o')),
      (''business_date'', JStr (isoformat (o_business_date o'))),
      (''requested_shares'',
        JInt (if o_requested_shares o' = 0 then o_shares o' else o_requested_shares o')),
      (''remaining_shares'', JInt (o_remaining_shares o')),
      (''status'', JStr (order_status_value (o_status o'))),
      (''rejected_reason'', JStr (o_rejected_reason o')),
      (''rejected_message'', JStr (o_rejected_message o')),
      (''rejected_details'', JObj (o_rejected_details o'))]"

record fill =
  f_fill_id :: string
  f_order_id :: string
  f_client_order_id :: string
  f_deployment_id :: string
  f_symbol :: string
  f_side :: string
  f_shares :: int
  f_price :: flt
  f_amount :: flt
  f_commission :: flt
  f_stamp_tax :: flt
  f_cost :: flt
  f_business_date :: date
  f_requested_shares :: int
  f_remaining_shares :: int
  f_slice_index :: int
  f_total_slices :: int

definition fill_to_dict :: "fill \<Rightarrow> payload" where
  "fill_to_dict f =
     [(''fill_id'', JStr (f_fill_id f)), (''order_id'', JStr (f_order_id f)),
      (''client_order_id'', JStr (f_client_order_id f)),
      (''deployment_id'', JStr (f_deployment_id f)), (''symbol'', JStr (f_symbol f)),
      (''side'', JStr (f_side f)), (''shares'', JInt (f_shares f)), (''price'', JFloat (f_price f)),
      (''amount'', JFloat (f_amount f)), (''commission'', JFloat (f_commission f)),
      (''stamp_tax'', JFloat (f_stamp_tax f)), (''cost'', JFloat (f_cost f)),
      (''business_date'', JStr (isoformat (f_business_date f))),
      (''requested_shares'', JInt (f_requested_shares f)),
      (''remaining_shares'', JInt (f_remaining_shares f)),
      (''slice_index'', JInt (f_slice_index f)), (''total_slices'', JInt (f_total_slices f))]"

record event =
  e_event_id :: string
  e_deployment_id :: string
  e_type :: event_type
  e_ts :: timestamp
  e_client_order_id :: string
  e_payload :: payload

section \<open>Text of timestamps\<close>

text \<open>The proleptic Gregorian date of an ordinal day (1 is 0001-01-01), as \<open>datetime\<close> computes it.\<close>

fun month_day :: "nat \<Rightarrow> nat \<Rightarrow> nat \<Rightarrow> nat \<Rightarrow> nat \<times> nat" where
  "month_day 0 y m n = (m, n + 1)"
| "month_day (Suc k) y m n =
     (if n < days_in_month y m then (m, n + 1) else month_day k y (m + 1) (n - days_in_month y m))"

definition ord2ymd :: "nat \<Rightarrow> date" where
  "ord2ymd ordinal =
     (let n = ordinal - 1;
          n400 = n div 146097; n = n mod 146097;
          n100 = n div 36524; n = n mod 36524;
          n4 = n div 1461; n = n mod 1461;
          n1 = n div 365; n = n mod 365;
          y = n400 * 400 + 1 + n100 * 100 + n4 * 4 + n1
      in if n1 = 4 \<or> n100 = 4 then Date (y - 1) 12 31
         else case month_day 12 y 1 n of (m, d) \<Rightarrow> Date y m d)"

definition pad6 :: "nat \<Rightarrow> string" where
  "pad6 n = [digit_char (n div 100000), digit_char (n div 10000)] @ pad4 n"

definition iso_datetime :: "timestamp \<Rightarrow> string" where
  "iso_datetime ts =
     (let t = nat ts; us = t mod 1000000; s = t div 1000000; sec = s mod 86400 in
      isoformat (ord2ymd (s div 86400 + 1)) @ ''T'' @ pad2 (sec div 3600) @ '':''
        @ pad2 (sec div 60 mod 60) @ '':'' @ pad2 (sec mod 60)
        @ (if us = 0 then [] else ''.'' @ pad6 us) @ ''+00:00'')"

section \<open>Events as dictionaries\<close>

text \<open>The event timestamp crosses \<open>to_dict\<close> / \<open>from_dict\<close> as the datetime value; the store keeps it
  in a TIMESTAMP column, and its text form is not parsed here.\<close>

record event_dict =
  ed_event_id :: string
  ed_deployment_id :: string
  ed_event_type :: string
  ed_event_ts :: timestamp
  ed_client_order_id :: "string option"
  ed_payload :: "payload option"

definition event_to_dict :: "event \<Rightarrow> event_dict" where
  "event_to_dict e = \<lparr>ed_event_id = e_event_id e, ed_deployment_id = e_deployment_id e,
     ed_event_type = event_type_value (e_type e), ed_event_ts = e_ts e,
     ed_client_order_id = Some (e_client_order_id e), ed_payload = Some (e_payload e)\<rparr>"

definition event_from_dict :: "event_dict \<Rightarrow> event res" where
  "event_from_dict d = rbind (event_type_of (ed_event_type d)) (\<lambda>t.
     Inr \<lparr>e_event_id = ed_event_id d, e_deployment_id = ed_deployment_id d, e_type = t,
       e_ts = ed_event_ts d,
       e_client_order_id = (case ed_client_order_id d of None \<Rightarrow> [] | Some c \<Rightarrow> c),
       e_payload = (case ed_payload d of None \<Rightarrow> [] | Some p \<Rightarrow> p)\<rparr>)"

section \<open>Identifiers\<close>

definition make_client_order_id :: "string \<Rightarrow> date \<Rightarrow> string \<Rightarrow> string \<Rightarrow> string" where
  "make_client_order_id deployment_id business_date symb side =
     deployment_id @ '':'' @ isoformat business_date @ '':'' @ symb @ '':'' @ side"

definition make_order_id :: "string \<Rightarrow> string" where
  "make_order_id client_order_id = client_order_id"

definition make_fill_id :: "string \<Rightarrow> string" where
  "make_fill_id client_order_id = client_order_id @ '':fill''"

definition make_event_id :: "string \<Rightarrow> event_type \<Rightarrow> string" where
  "make_event_id client_order_id t = client_order_id @ '':'' @ event_type_value t"

definition stable_shadow_hash :: "(string \<Rightarrow> string) \<Rightarrow> string list \<Rightarrow> string" where
  "stable_shadow_hash sha parts = take 16 (sha (join_with ''|'' parts))"

definition make_shadow_broker_client_order_id ::
  "(string \<Rightarrow> string) \<Rightarrow> string \<Rightarrow> string \<Rightarrow> string \<Rightarrow> string \<Rightarrow> timestamp option \<Rightarrow> string \<Rightarrow> string \<Rightarrow> string"
  where
  "make_shadow_broker_client_order_id sha deployment_id broker_type broker_order_id report_id
     event_ts symb side =
     (if broker_order_id \<noteq> [] then
        deployment_id @ '':broker_order:'' @ broker_type @ '':'' @ broker_order_id
      else if report_id \<noteq> [] then deployment_id @ '':broker_report:'' @ report_id
      else let ts_token = (case event_ts of None \<Rightarrow> [] | Some t \<Rightarrow> iso_datetime t) in
        if broker_type \<noteq> [] then
          deployment_id @ '':broker_report:hash:''
            @ stable_shadow_hash sha [broker_type, broker_order_id, ts_token]
        else deployment_id @ '':broker_report:hash:''
            @ stable_shadow_hash sha [deployment_id, symb, side, ts_token])"

section \<open>Event constructors\<close>

definition str_or :: "string \<Rightarrow> string \<Rightarrow> string" where
  "str_or a b = (if a = [] then b else a)"

definition make_broker_execution_event ::
  "(string \<Rightarrow> string) \<Rightarrow> string \<Rightarrow> string \<Rightarrow> string \<Rightarrow> timestamp \<Rightarrow> string \<Rightarrow> string \<Rightarrow> string \<Rightarrow> string \<Rightarrow> string
    \<Rightarrow> int \<Rightarrow> int \<Rightarrow> flt \<Rightarrow> string \<Rightarrow> payload option \<Rightarrow> string \<Rightarrow> event" where
  "make_broker_execution_event sha deployment_id report_id broker_type report_ts client_order_id
     broker_order_id symb side status filled remaining avg_price message raw_payload account_id =
     \<lparr>e_event_id = deployment_id @ '':broker_report:'' @ report_id,
      e_deployment_id = deployment_id, e_type = BROKER_EXECUTION_RECORDED, e_ts = report_ts,
      e_client_order_id = str_or client_order_id
        (make_shadow_broker_client_order_id sha deployment_id broker_type broker_order_id report_id
           (Some report_ts) symb side),
      e_payload = [
        (''report_id'', JStr report_id), (''broker_type'', JStr broker_type),
        (''broker_order_id'', JStr broker_order_id), (''symbol'', JStr symb), (''side'', JStr side),
        (''status'', JStr status), (''filled_shares'', JInt filled),
        (''remaining_shares'', JInt remaining), (''avg_price'', JFloat avg_price),
        (''message'', JStr message), (''account_id'', JStr account_id),
        (''raw_payload'', case raw_payload of None \<Rightarrow> JNull | Some p \<Rightarrow> JObj p)]\<rparr>"

definition make_broker_runtime_event ::
  "string \<Rightarrow> string \<Rightarrow> string \<Rightarrow> string \<Rightarrow> timestamp \<Rightarrow> string \<Rightarrow> payload option \<Rightarrow> event" where
  "make_broker_runtime_event deployment_id runtime_event_id broker_type runtime_kind event_ts
     client_order_id pl =
     \<lparr>e_event_id = deployment_id @ '':broker_runtime:'' @ runtime_event_id,
      e_deployment_id = deployment_id, e_type = BROKER_RUNTIME_RECORDED, e_ts = event_ts,
      e_client_order_id = str_or client_order_id
        (deployment_id @ '':broker_runtime:'' @ broker_type @ '':'' @ runtime_kind),
      e_payload = [(''broker_type'', JStr broker_type), (''runtime_kind'', JStr runtime_kind),
        (''payload'', JObj (case pl of None \<Rightarrow> [] | Some p \<Rightarrow> p))]\<rparr>"

definition make_broker_account_event ::
  "string \<Rightarrow> string \<Rightarrow> timestamp \<Rightarrow> string \<Rightarrow> flt \<Rightarrow> flt \<Rightarrow> (string, int) dict \<Rightarrow> json list \<Rightarrow> int \<Rightarrow> event" where
  "make_broker_account_event deployment_id broker_type account_ts account_id csh total_asset
     positions open_orders fill_count =
     \<lparr>e_event_id = deployment_id @ '':broker_account:'' @ broker_type @ '':'' @ iso_datetime account_ts,
      e_deployment_id = deployment_id, e_type = BROKER_ACCOUNT_RECORDED, e_ts = account_ts,
      e_client_order_id = deployment_id @ '':broker_account:'' @ broker_type,
      e_payload = [(''broker_type'', JStr broker_type), (''account_id'', JStr account_id),
        (''cash'', JFloat csh), (''total_asset'', JFloat total_asset),
        (''positions'', JObj (map (\<lambda>(s, n). (s, JInt n)) positions)),
        (''open_orders'', JList open_orders), (''fill_count'', JInt fill_count)]\<rparr>"

definition make_broker_cancel_requested_event ::
  "(string \<Rightarrow> string) \<Rightarrow> string \<Rightarrow> string \<Rightarrow> timestamp \<Rightarrow> string \<Rightarrow> string \<Rightarrow> string \<Rightarrow> string \<Rightarrow> event" where
  "make_broker_cancel_requested_event sha deployment_id broker_type request_ts client_order_id
     broker_order_id symb account_id =
     (let coid = str_or client_order_id
            (make_shadow_broker_client_order_id sha deployment_id broker_type broker_order_id
               (''cancel:'' @ str_or broker_order_id client_order_id) (Some request_ts) symb [])
      in \<lparr>e_event_id = deployment_id @ '':broker_cancel:'' @ broker_type @ '':''
            @ str_or broker_order_id coid @ '':'' @ iso_datetime request_ts,
          e_deployment_id = deployment_id, e_type = BROKER_CANCEL_REQUESTED, e_ts = request_ts,
          e_client_order_id = coid,
          e_payload = [(''broker_type'', JStr broker_type),
            (''broker_order_id'', JStr broker_order_id), (''symbol'', JStr symb),
            (''account_id'', JStr account_id)]\<rparr>)"

definition opt_entry :: "string \<Rightarrow> ('a \<Rightarrow> json) \<Rightarrow> 'a option \<Rightarrow> payload" where
  "opt_entry k f x = (case x of None \<Rightarrow> [] | Some v \<Rightarrow> [(k, f v)])"

definition int_obj :: "(string, int) dict \<Rightarrow> json" where
  "int_obj d = JObj (map (\<lambda>(k, v). (k, JInt v)) d)"

definition float_obj :: "(string, flt) dict \<Rightarrow> json" where
  "float_obj d = JObj (map (\<lambda>(k, v). (k, JFloat v)) d)"

definition make_snapshot_event ::
  "string \<Rightarrow> date \<Rightarrow> flt \<Rightarrow> flt \<Rightarrow> bool \<Rightarrow> int \<Rightarrow> (string, int) dict option \<Rightarrow> (string, flt) dict option
    \<Rightarrow> (string, flt) dict option \<Rightarrow> bool \<Rightarrow> timestamp \<Rightarrow> event" where
  "make_snapshot_event deployment_id business_date equity csh rebalanced trade_count holdings weights
     prev_returns liquidation now =
     (let coid = deployment_id @ '':'' @ isoformat business_date @ '':snapshot'' in
      \<lparr>e_event_id = make_event_id coid SNAPSHOT_SAVED, e_deployment_id = deployment_id,
       e_type = SNAPSHOT_SAVED, e_ts = now, e_client_order_id = coid,
       e_payload = [(''snapshot_date'', JStr (isoformat business_date)), (''equity'', JFloat equity),
         (''cash'', JFloat csh), (''rebalanced'', JBool rebalanced),
         (''trade_count'', JInt trade_count), (''liquidation'', JBool liquidation)]
         @ opt_entry ''holdings'' int_obj holdings @ opt_entry ''weights'' float_obj weights
         @ opt_entry ''prev_returns'' float_obj prev_returns\<rparr>)"

definition make_risk_event :: "string \<Rightarrow> date \<Rightarrow> int \<Rightarrow> payload \<Rightarrow> timestamp \<Rightarrow> event" where
  "make_risk_event deployment_id business_date risk_index risk_event now =
     (let coid = deployment_id @ '':'' @ isoformat business_date @ '':risk:'' @ int_str risk_index in
      \<lparr>e_event_id = make_event_id coid RISK_RECORDED, e_deployment_id = deployment_id,
       e_type = RISK_RECORDED, e_ts = now, e_client_order_id = coid,
       e_payload = [(''business_date'', JStr (isoformat business_date)),
         (''risk_index'', JInt risk_index), (''risk_event'', JObj risk_event)]\<rparr>)"

definition make_tick_completed_event ::
  "string \<Rightarrow> date \<Rightarrow> flt \<Rightarrow> bool \<Rightarrow> int \<Rightarrow> int \<Rightarrow> flt \<Rightarrow> flt \<Rightarrow> timestamp \<Rightarrow> event" where
  "make_tick_completed_event deployment_id business_date execution_ms rebalanced trade_count
     risk_event_count equity csh now =
     (let coid = deployment_id @ '':'' @ isoformat business_date @ '':tick'' in
      \<lparr>e_event_id = make_event_id coid TICK_COMPLETED, e_deployment_id = deployment_id,
       e_type = TICK_COMPLETED, e_ts = now, e_client_order_id = coid,
       e_payload = [(''business_date'', JStr (isoformat business_date)),
         (''execution_ms'', JFloat execution_ms), (''rebalanced'', JBool rebalanced),
         (''trade_count'', JInt trade_count), (''risk_event_count'', JInt risk_event_count),
         (''equity'', JFloat equity), (''cash'', JFloat csh)]\<rparr>)"

definition make_market_snapshot_event ::
  "string \<Rightarrow> date \<Rightarrow> (string, flt) dict \<Rightarrow> string list \<Rightarrow> string \<Rightarrow> timestamp \<Rightarrow> event" where
  "make_market_snapshot_event deployment_id business_date prices has_bar_symbols source now =
     (let coid = deployment_id @ '':'' @ isoformat business_date @ '':market'' in
      \<lparr>e_event_id = make_event_id coid MARKET_SNAPSHOT, e_deployment_id = deployment_id,
       e_type = MARKET_SNAPSHOT, e_ts = now, e_client_order_id = coid,
       e_payload = [(''business_date'', JStr (isoformat business_date)),
         (''prices'', float_obj prices), (''has_bar_symbols'', JList (map JStr has_bar_symbols)),
         (''source'', JStr source)]\<rparr>)"

definition make_market_bar_event ::
  "string \<Rightarrow> date \<Rightarrow> string \<Rightarrow> flt \<Rightarrow> flt \<Rightarrow> flt \<Rightarrow> flt \<Rightarrow> flt \<Rightarrow> flt \<Rightarrow> string \<Rightarrow> timestamp \<Rightarrow> event" where
  "make_market_bar_event deployment_id business_date symb open_price high_price low_price close_price
     adj_close volume source now =
     (let coid = deployment_id @ '':'' @ isoformat business_date @ '':'' @ symb @ '':bar'' in
      \<lparr>e_event_id = make_event_id coid MARKET_BAR_RECORDED, e_deployment_id = deployment_id,
       e_type = MARKET_BAR_RECORDED, e_ts = now, e_client_order_id = coid,
       e_payload = [(''business_date'', JStr (isoformat business_date)), (''symbol'', JStr symb),
         (''open'', JFloat open_price), (''high'', JFloat high_price), (''low'', JFloat low_price),
         (''close'', JFloat close_price), (''adj_close'', JFloat adj_close),
         (''volume'', JFloat volume), (''source'', JStr source)]\<rparr>)"


section \<open>The forward-only discipline\<close>

text \<open>
  The contract behind every status guard of the live plane: an open status moves to a strictly higher
  rank only, a final status moves along an explicit allow-list only, and such a follow-up is final
  for good.  The broker statuses interpret it here, the coarse order states of the ledger do so in
  theory \<open>Ledger\<close>.
\<close>

locale forward_guard =
  fixes can_move :: "'s \<Rightarrow> 's \<Rightarrow> bool"
    and rank :: "'s \<Rightarrow> nat"
    and top :: nat
    and followup :: "'s \<Rightarrow> 's \<Rightarrow> bool"
  assumes open_move: "rank a < top \<Longrightarrow> can_move a b \<longleftrightarrow> rank a < rank b"
    and final_move: "top \<le> rank a \<Longrightarrow> can_move a b \<longleftrightarrow> followup a b"
    and followup_rank: "followup a b \<Longrightarrow> rank b = rank a"
    and followup_final: "followup a b \<Longrightarrow> \<not> followup b c"
begin

definition advance :: "'s \<Rightarrow> 's \<Rightarrow> 's" where
  "advance cur inc = (if can_move cur inc then inc else cur)"

lemma move_rank: "can_move a b \<Longrightarrow> rank a \<le> rank b"
  using open_move final_move followup_rank by (metis less_imp_le not_less order_refl)

lemma move_irrefl: "\<not> can_move a a"
  using open_move final_move followup_final by (metis less_irrefl not_less)

lemma final_closed: "top \<le> rank a \<Longrightarrow> can_move a b \<Longrightarrow> top \<le> rank b \<and> \<not> can_move b c"
  using final_move followup_rank followup_final by metis

text \<open>The weight of a status: twice its rank, plus one when no follow-up is left.  It grows with
  every move, so no status is ever visited twice.\<close>

definition weight :: "'s \<Rightarrow> nat" where
  "weight a = 2 * rank a + (if top \<le> rank a \<and> (\<forall>b. \<not> followup a b) then 1 else 0)"

lemma move_weight: "can_move a b \<Longrightarrow> weight a < weight b"
proof (cases "rank a < top")
  case True
  assume "can_move a b"
  with True have "rank a < rank b" using open_move by simp
  with True show ?thesis by (simp add: weight_def)
next
  case False
  assume "can_move a b"
  with False have f: "followup a b" using final_move by simp
  then have "rank b = rank a" and "\<forall>c. \<not> followup b c"
    using followup_rank followup_final by auto
  with f False show ?thesis by (auto simp: weight_def)
qed

lemma moves_weight: "can_move\<^sup>+\<^sup>+ a b \<Longrightarrow> weight a < weight b"
  by (induction rule: tranclp_induct) (auto dest: move_weight)

lemma acyclic: "\<not> can_move\<^sup>+\<^sup>+ a a"
  using moves_weight by blast

lemma advance_rank: "rank cur \<le> rank (advance cur inc)"
  by (simp add: advance_def move_rank)

lemma run_rank: "rank cur \<le> rank (foldl advance cur incs)"
proof (induction incs arbitrary: cur)
  case Nil
  then show ?case by simp
next
  case (Cons x xs)
  show ?case using advance_rank [of cur x] Cons.IH [of "advance cur x"] by simp
qed

lemma run_final:
  assumes "top \<le> rank cur" and "\<And>b. \<not> followup cur b"
  shows "foldl advance cur incs = cur"
proof (induction incs)
  case Nil
  then show ?case by simp
next
  case (Cons x xs)
  have "advance cur x = cur" using assms final_move by (simp add: advance_def)
  then show ?case using Cons by simp
qed

end

section \<open>Properties of the status vocabulary\<close>

lemma table_keys_fixed: "k \<in> set (dkeys broker_status_rank_table) \<Longrightarrow> normalize_status k = k"
proof -
  have "list_all (\<lambda>k. normalize_status k = k) (dkeys broker_status_rank_table)" by code_simp
  then show "k \<in> set (dkeys broker_status_rank_table) \<Longrightarrow> normalize_status k = k"
    by (simp only: list_all_iff)
qed

lemma alias_targets_in_table:
  "map_of broker_status_aliases a = Some b \<Longrightarrow> b \<in> set (dkeys broker_status_rank_table)"
proof -
  have "list_all (\<lambda>(a, b). b \<in> set (dkeys broker_status_rank_table)) broker_status_aliases"
    by code_simp
  then show "map_of broker_status_aliases a = Some b \<Longrightarrow> b \<in> set (dkeys broker_status_rank_table)"
    by (auto simp only: list_all_iff dest: map_of_SomeD)
qed

lemma dhas_iff: "dhas d k \<longleftrightarrow> k \<in> set (dkeys d)"
  by (simp add: dhas_def map_of_eq_None_iff)

definition known_statuses :: "string set" where
  "known_statuses = set (dkeys broker_status_rank_table)"

text \<open>The statuses that the heuristics of the normalisation produce are all in the rank table.\<close>

lemma known_heuristics [simp]:
  "''unknown'' \<in> known_statuses" "''partially_filled_cancel_pending'' \<in> known_statuses"
  "''reported_cancel_pending'' \<in> known_statuses" "''partially_filled'' \<in> known_statuses"
  "''partially_canceled'' \<in> known_statuses" "''filled'' \<in> known_statuses"
  "''order_error'' \<in> known_statuses" "''junk'' \<in> known_statuses" "''reported'' \<in> known_statuses"
  by (simp_all add: known_statuses_def broker_status_rank_table_def)

lemma strip_lower_fixed: "str_lower (str_strip (str_lower (str_strip s))) = str_lower (str_strip s)"
  by (simp add: str_strip_lower)

lemma classify_cases:
  "classify_status raw f r \<in> known_statuses \<or>
    (classify_status raw f r = raw \<and> classify_status raw 0 0 = raw)"
  unfolding classify_status_def by (simp add: dhas_iff known_statuses_def [symmetric])

text \<open>Either the result is a status of the rank table, or it is the cleaned input itself, which
  then fits none of the heuristics.\<close>

lemma normalize_cases:
  "normalize_broker_order_status s f r \<in> known_statuses \<or>
    (let out = normalize_broker_order_status s f r in normalize_status out = out)"
proof -
  define raw0 where "raw0 = str_lower (str_strip s)"
  define raw where "raw = dget_or broker_status_aliases raw0 raw0"
  have fixed: "str_lower (str_strip raw0) = raw0"
    by (simp add: raw0_def strip_lower_fixed)
  have out: "normalize_broker_order_status s f r =
      (if raw0 = [] then ''unknown'' else classify_status raw f r)"
    by (simp add: normalize_broker_order_status_def raw0_def raw_def Let_def)
  show ?thesis
  proof (cases "map_of broker_status_aliases raw0")
    case None
    then have rr: "raw = raw0" by (simp add: raw_def dget_or_def)
    then have "normalize_status raw0 = (if raw0 = [] then ''unknown'' else classify_status raw0 0 0)"
      using raw_def by (simp add: normalize_broker_order_status_def fixed Let_def)
    then show ?thesis using classify_cases [of raw f r] by (auto simp: out rr Let_def)
  next
    case (Some b)
    then have "raw = b" and "b \<in> known_statuses"
      using alias_targets_in_table by (simp_all add: raw_def dget_or_def known_statuses_def)
    then have "classify_status raw f r = raw"
      by (simp add: classify_status_def dhas_iff known_statuses_def)
    then show ?thesis using \<open>raw = b\<close> \<open>b \<in> known_statuses\<close> by (simp add: out)
  qed
qed

lemma normalize_idem_aux:
  "normalize_status (normalize_broker_order_status s f r) = normalize_broker_order_status s f r"
  using normalize_cases [of s f r] table_keys_fixed
  by (auto simp: known_statuses_def Let_def)

lemma table_rank_le: "table_rank s \<le> 30"
proof -
  have "list_all (\<lambda>(k, n). n \<le> 30) broker_status_rank_table" by code_simp
  then show ?thesis
    by (auto simp: table_rank_def dget_or_def list_all_iff split: option.split dest!: map_of_SomeD)
qed

lemma followup_iff:
  "b \<in> set (dget_or broker_terminal_followups a []) \<longleftrightarrow> a = ''partially_canceled'' \<and> b = ''canceled''"
  by (simp add: broker_terminal_followups_def dget_or_def)

definition broker_followup :: "string \<Rightarrow> string \<Rightarrow> bool" where
  "broker_followup a b \<longleftrightarrow>
     normalize_status a = ''partially_canceled'' \<and> normalize_status b = ''canceled''"

lemma table_rank_values:
  "table_rank ''partially_canceled'' = 30" "table_rank ''canceled'' = 30" "table_rank ''filled'' = 30"
  "table_rank ''junk'' = 30" "table_rank ''order_error'' = 30"
  by code_simp+

interpretation broker: forward_guard broker_order_status_can_transition broker_order_status_rank
  broker_terminal_rank broker_followup
proof unfold_locales
  show "broker_order_status_rank a < broker_terminal_rank \<Longrightarrow>
    broker_order_status_can_transition a b = (broker_order_status_rank a < broker_order_status_rank b)" for a b
    by (simp add: broker_order_status_can_transition_def broker_order_status_rank_def Let_def)
  show "broker_terminal_rank \<le> broker_order_status_rank a \<Longrightarrow>
    broker_order_status_can_transition a b = broker_followup a b" for a b
    by (simp add: broker_order_status_can_transition_def broker_order_status_rank_def Let_def
        followup_iff broker_followup_def)
  show "broker_followup a b \<Longrightarrow> broker_order_status_rank b = broker_order_status_rank a" for a b
    by (simp add: broker_followup_def broker_order_status_rank_def table_rank_values)
  show "broker_followup a b \<Longrightarrow> \<not> broker_followup b c" for a b c
    by (simp add: broker_followup_def)
qed

lemma table_rank_terminal: "table_rank s = 30 \<longleftrightarrow> s \<in> set broker_terminal_statuses"
proof (cases "map_of broker_status_rank_table s")
  case None
  have "list_all (\<lambda>t. dhas broker_status_rank_table t) broker_terminal_statuses" by code_simp
  with None show ?thesis by (auto simp: table_rank_def dget_or_def list_all_iff dhas_def)
next
  case (Some n)
  have "list_all (\<lambda>(k, n). (n = 30) = (k \<in> set broker_terminal_statuses)) broker_status_rank_table"
    by code_simp
  with Some show ?thesis
    by (auto simp: table_rank_def dget_or_def list_all_iff dest: map_of_SomeD)
qed

lemma is_terminal_rank: "broker_order_status_is_terminal s \<longleftrightarrow> broker_order_status_rank s = 30"
  by (simp add: broker_order_status_is_terminal_def broker_order_status_rank_def table_rank_terminal)

section \<open>Properties\<close>

text \<open>Normalising a broker status is idempotent: whatever text a broker sends, and whatever fill
  counts come with it, normalising the normalised status again (as every later rank or transition
  test does, without the counts) changes nothing.\<close>

theorem normalize_broker_order_status_idempotent:
  "normalize_broker_order_status (normalize_broker_order_status s f r) 0 0 =
    normalize_broker_order_status s f r"
  by (rule normalize_idem_aux)

text \<open>C15: The broker lifecycle is forward-only: a legal move never lowers the rank; no chain of legal
  moves returns to its start; from a terminal status the only legal move is partially-canceled to
  canceled, and nothing follows it.\<close>

theorem broker_lifecycle_forward_only:
  "(broker_order_status_can_transition a b \<longrightarrow> broker_order_status_rank a \<le> broker_order_status_rank b)
   \<and> \<not> broker_order_status_can_transition\<^sup>+\<^sup>+ a a
   \<and> (broker_order_status_is_terminal a \<longrightarrow>
        (broker_order_status_can_transition a b \<longleftrightarrow>
           normalize_broker_order_status a 0 0 = ''partially_canceled''
           \<and> normalize_broker_order_status b 0 0 = ''canceled''))"
  using broker.move_rank broker.acyclic broker.final_move
  by (auto simp: is_terminal_rank broker_terminal_rank_def broker_followup_def)

theorem broker_lifecycle_forward_only_witness:
  "broker_order_status_can_transition ''accepted'' ''partially_filled''
   \<and> broker_order_status_rank ''accepted'' \<le> broker_order_status_rank ''partially_filled''
   \<and> broker_order_status_is_terminal ''filled''
   \<and> \<not> broker_order_status_can_transition ''filled'' ''canceled''"
proof -
  have "broker_order_status_can_transition ''accepted'' ''partially_filled''"
    and t: "broker_order_status_is_terminal ''filled''"
    and n: "normalize_broker_order_status ''filled'' 0 0 \<noteq> ''partially_canceled''"
    by code_simp+
  then show ?thesis
    using broker_lifecycle_forward_only [of "''accepted''" "''partially_filled''"]
      broker_lifecycle_forward_only [of "''filled''" "''canceled''"] by blast
qed

lemma append_sep_eq:
  assumes "c \<notin> set ys" and "c \<notin> set ys'" and "xs @ c # ys = xs' @ c # ys'"
  shows "xs = xs' \<and> ys = ys'"
proof -
  from assms(3) have "rev ys @ c # rev xs = rev ys' @ c # rev xs'"
    by (metis append.assoc append_Cons append_Nil rev.simps(2) rev_append)
  then have "takeWhile (\<lambda>x. x \<noteq> c) (rev ys @ c # rev xs) = takeWhile (\<lambda>x. x \<noteq> c) (rev ys' @ c # rev xs')"
    by simp
  moreover have "takeWhile (\<lambda>x. x \<noteq> c) (rev ys @ c # rev xs) = rev ys"
    using assms(1) by (subst takeWhile_append2) auto
  moreover have "takeWhile (\<lambda>x. x \<noteq> c) (rev ys' @ c # rev xs') = rev ys'"
    using assms(2) by (subst takeWhile_append2) auto
  ultimately have "ys = ys'" by simp
  with assms(3) show ?thesis by simp
qed

text \<open>Client order ids are collision-free: two orders with the same id have the same deployment,
  business date, symbol and side, whatever text the deployment id is, as long as symbols and sides
  hold no colon.  This is what makes the event log idempotent.\<close>

theorem make_client_order_id_injective:
  assumes "make_client_order_id d t s x = make_client_order_id d' t' s' x'"
    and "valid_date t" and "valid_date t'"
    and "CHR '':'' \<notin> set s \<union> set x" and "CHR '':'' \<notin> set s' \<union> set x'"
  shows "d = d' \<and> t = t' \<and> s = s' \<and> x = x'"
proof -
  have "((d @ '':'' @ isoformat t) @ '':'' @ s) @ CHR '':'' # x =
      ((d' @ '':'' @ isoformat t') @ '':'' @ s') @ CHR '':'' # x'"
    using assms(1) by (simp add: make_client_order_id_def)
  note sep = append_sep_eq [OF _ _ this]
  have 1: "(d @ '':'' @ isoformat t) @ '':'' @ s = (d' @ '':'' @ isoformat t') @ '':'' @ s'"
    and x: "x = x'"
    using sep assms(4,5) by simp_all
  from 1 have "(d @ '':'' @ isoformat t) @ CHR '':'' # s = (d' @ '':'' @ isoformat t') @ CHR '':'' # s'"
    by simp
  note sep = append_sep_eq [OF _ _ this]
  have 2: "d @ '':'' @ isoformat t = d' @ '':'' @ isoformat t'" and s: "s = s'"
    using sep assms(4,5) by simp_all
  have len: "length ('':'' @ isoformat t) = length ('':'' @ isoformat t')" by simp
  have d: "d = d'" and "'':'' @ isoformat t = '':'' @ isoformat t'"
    using append_eq_append_conv [THEN iffD1, OF disjI2, OF len 2] by blast+
  then have "isoformat t = isoformat t'" by simp
  then have "t = t'" using isoformat_inj assms(2,3) by blast
  with d s x show ?thesis by blast
qed

theorem make_client_order_id_injective_witness:
  "make_client_order_id ''a:b'' (Date 2024 1 2) ''600000.SH'' ''buy'' =
     make_client_order_id ''a:b'' (Date 2024 1 2) ''600000.SH'' ''buy''
   \<and> ''a:b'' = ''a:b'' \<and> valid_date (Date 2024 1 2)"
proof -
  have v: "valid_date (Date 2024 1 2)" by code_simp
  have "CHR '':'' \<notin> set ''600000.SH'' \<union> set ''buy''" by simp
  with make_client_order_id_injective [OF refl v v this this, of "''a:b''"] v show ?thesis by simp
qed

lemma event_type_of_value [simp]: "event_type_of (event_type_value t) = Inr t"
proof -
  have "list_all (\<lambda>t. event_type_of (event_type_value t) = Inr t) all_event_types" by code_simp
  moreover have "t \<in> set all_event_types" by (cases t) (simp_all add: all_event_types_def)
  ultimately show ?thesis by (simp only: list_all_iff)
qed

text \<open>A deployment event survives its dictionary form: \<open>from_dict(to_dict(e))\<close> is \<open>e\<close>.\<close>

theorem event_dict_roundtrip: "event_from_dict (event_to_dict e) = Inr e"
  by (simp add: event_from_dict_def event_to_dict_def)

end
