(* ===== verification/Ledger.thy ===== *)
theory Ledger
  imports Order_Events
begin

text \<open>
  \<open>ez/live/ledger.py\<close>: the reducer that replays the append-only event log into account state.
  \<open>ledger_state\<close> is \<open>LiveLedgerState\<close>; the dictionary that the code builds per broker order has a
  fixed set of keys and is the record \<open>broker_order_state\<close>.  \<open>apply_event\<close> is \<open>_apply_event\<close>, one
  definition per event kind, and \<open>replay\<close> is the sorted, de-duplicated fold over the log.
  An exception raised by a malformed payload is the left result.
\<close>

section \<open>State\<close>

record broker_order_state =
  bo_broker_order_id :: string
  bo_client_order_id :: string
  bo_status :: string
  bo_status_rank :: nat
  bo_event_id :: string
  bo_event_ts :: timestamp
  bo_report_id :: string
  bo_filled_shares :: int
  bo_remaining_shares :: int
  bo_avg_price :: flt
  bo_message :: string
  bo_raw_payload :: "payload option"
  bo_cancel_request_event_id :: string
  bo_cancel_requested_at :: "timestamp option"
  bo_cancel_state :: string

record trade =
  t_symbol :: string
  t_side :: string
  t_shares :: int
  t_price :: flt
  t_cost :: flt
  t_amount :: flt

record ledger_state =
  cash :: flt
  holdings :: "(string, int) dict"
  order_statuses :: "(string, string) dict"
  broker_order_states :: "(string, broker_order_state) dict"
  trades :: "trade list"
  risk_events :: "payload list"
  last_prices :: "(string, flt) dict"
  equity_curve :: "flt list"
  dates :: "date list"
  latest_snapshot_date :: "date option"
  latest_snapshot_equity :: "flt option"
  latest_weights :: "(string, flt) dict"
  latest_prev_returns :: "(string, flt) dict"
  seen_event_count :: nat

definition init_state :: "flt \<Rightarrow> (string, int) dict \<Rightarrow> ledger_state" where
  "init_state c h = \<lparr>cash = c, holdings = h, order_statuses = [], broker_order_states = [], trades = [],
     risk_events = [], last_prices = [], equity_curve = [], dates = [], latest_snapshot_date = None,
     latest_snapshot_equity = None, latest_weights = [], latest_prev_returns = [],
     seen_event_count = 0\<rparr>"

definition submission_only_statuses :: "string list" where
  "submission_only_statuses = [''unreported'', ''reported'', ''reported_cancel_pending'']"

definition local_rank_table :: "(string, nat) dict" where
  "local_rank_table = [(''new'', 0), (''submitted'', 10), (''partially_filled'', 20), (''filled'', 30),
     (''canceled'', 30), (''rejected'', 30)]"

definition local_terminal_rank :: nat where
  "local_terminal_rank = 30"

definition local_terminal_followups :: "(string, string list) dict" where
  "local_terminal_followups = []"

section \<open>Local order status\<close>

definition local_order_status_rank :: "string \<Rightarrow> nat" where
  "local_order_status_rank s = dget_or local_rank_table (str_lower s) 0"

definition local_order_status_can_transition :: "string \<Rightarrow> string \<Rightarrow> bool" where
  "local_order_status_can_transition previous incoming =
     (let prev = str_lower previous; inc = str_lower incoming in
      if prev = [] then True
      else let prev_rank = dget_or local_rank_table prev 0; inc_rank = dget_or local_rank_table inc 0 in
        if local_terminal_rank \<le> prev_rank
        then inc \<in> set (dget_or local_terminal_followups prev [])
        else prev_rank < inc_rank)"

definition advance_local_order_status ::
  "(string, string) dict \<Rightarrow> string \<Rightarrow> string \<Rightarrow> (string, string) dict" where
  "advance_local_order_status status_map order_key new_status =
     (if order_key = [] then status_map
      else if local_order_status_can_transition (dget_or status_map order_key []) new_status
      then dset status_map order_key new_status else status_map)"

section \<open>Broker order projection\<close>

definition broker_order_key :: "payload \<Rightarrow> string \<Rightarrow> string res" where
  "broker_order_key pl client_order_id =
     rbind (str_field pl ''broker_order_id'') (\<lambda>s.
       let b = str_strip s in Inr (if b \<noteq> [] then b else client_order_id))"

text \<open>The test whether a report replaces the stored state of its order.\<close>

definition should_advance_broker :: "broker_order_state option \<Rightarrow> string \<Rightarrow> timestamp \<Rightarrow> bool" where
  "should_advance_broker current normalized_status ts =
     (case current of
        None \<Rightarrow> True
      | Some c \<Rightarrow>
          if broker_order_status_can_transition (bo_status c) normalized_status then True
          else if broker_order_status_rank normalized_status = broker_order_status_rank (bo_status c)
            \<and> broker_order_status_rank normalized_status < local_terminal_rank
          then bo_event_ts c \<le> ts
          else False)"

text \<open>The projection entry a report leaves: submission-only statuses never carry filled shares, and
  the cancel markers of the stored entry survive.\<close>

definition project_report ::
  "broker_order_state option \<Rightarrow> string \<Rightarrow> string \<Rightarrow> event \<Rightarrow> string \<Rightarrow> payload \<Rightarrow> int \<Rightarrow> int \<Rightarrow> string \<Rightarrow> flt
    \<Rightarrow> string \<Rightarrow> broker_order_state" where
  "project_report current key coid ev normalized_status pl payload_filled payload_remaining report_id
     avg_price message =
     (let submission = (normalized_status \<in> set submission_only_statuses) in
      \<lparr>bo_broker_order_id = key, bo_client_order_id = coid, bo_status = normalized_status,
       bo_status_rank = broker_order_status_rank normalized_status,
       bo_event_id = e_event_id ev, bo_event_ts = e_ts ev, bo_report_id = report_id,
       bo_filled_shares = (if submission then 0 else payload_filled),
       bo_remaining_shares =
         (if submission \<and> payload_filled \<noteq> 0
          then (case current of Some c \<Rightarrow> bo_remaining_shares c | None \<Rightarrow> payload_remaining)
          else payload_remaining),
       bo_avg_price = avg_price, bo_message = message,
       bo_raw_payload = as_dict (jget pl ''raw_payload'' JNull),
       bo_cancel_request_event_id =
         (case current of Some c \<Rightarrow> bo_cancel_request_event_id c | None \<Rightarrow> []),
       bo_cancel_requested_at =
         (case current of Some c \<Rightarrow> bo_cancel_requested_at c | None \<Rightarrow> None),
       bo_cancel_state = (case current of Some c \<Rightarrow> bo_cancel_state c | None \<Rightarrow> [])\<rparr>)"

definition advance_broker_order_state ::
  "ledger_state \<Rightarrow> string \<Rightarrow> string \<Rightarrow> event \<Rightarrow> string \<Rightarrow> payload \<Rightarrow> ledger_state res" where
  "advance_broker_order_state s broker_order_id client_order_id ev normalized_status pl =
     (let key = str_or broker_order_id client_order_id;
          current = map_of (broker_order_states s) key in
      if key = [] then Inr s
      else if \<not> should_advance_broker current normalized_status (e_ts ev) then Inr s
      else rbind (int_field pl ''filled_shares'') (\<lambda>payload_filled.
        rbind (int_field pl ''remaining_shares'') (\<lambda>payload_remaining.
        rbind (if client_order_id \<noteq> [] then Inr client_order_id
               else str_field pl ''client_order_id'') (\<lambda>coid.
        rbind (str_field pl ''report_id'') (\<lambda>report_id.
        rbind (float_field pl ''avg_price'') (\<lambda>avg_price.
        rbind (str_field pl ''message'') (\<lambda>message.
          Inr (s\<lparr>broker_order_states := dset (broker_order_states s) key
            (project_report current key coid ev normalized_status pl payload_filled
               payload_remaining report_id avg_price message)\<rparr>))))))))"

section \<open>One event\<close>

definition apply_order_status :: "order_status \<Rightarrow> ledger_state \<Rightarrow> event \<Rightarrow> ledger_state" where
  "apply_order_status st s ev = s\<lparr>order_statuses :=
     advance_local_order_status (order_statuses s) (e_client_order_id ev) (order_status_value st)\<rparr>"

definition book_fill ::
  "ledger_state \<Rightarrow> string \<Rightarrow> string \<Rightarrow> int \<Rightarrow> flt \<Rightarrow> flt \<Rightarrow> ledger_state" where
  "book_fill s side symb shares amount cost =
     (let held = dget_or (holdings s) symb 0 in
      if side = ''buy''
      then s\<lparr>cash := cash s - (amount + cost), holdings := dset (holdings s) symb (held + shares)\<rparr>
      else s\<lparr>cash := cash s + (amount - cost),
             holdings := (if 0 < held - shares then dset (holdings s) symb (held - shares)
                          else dpop (holdings s) symb)\<rparr>)"

text \<open>The typed reading of a fill payload (in the order the code coerces it) and its effect.\<close>

definition parse_fill :: "payload \<Rightarrow> trade res" where
  "parse_fill pl =
     rbind (rbind (jitem pl ''side'') py_str) (\<lambda>side.
     rbind (rbind (jitem pl ''symbol'') py_str) (\<lambda>symb.
     rbind (rbind (jitem pl ''shares'') py_int) (\<lambda>shares.
     rbind (rbind (jitem pl ''amount'') py_float) (\<lambda>amount.
     rbind (rbind (jitem pl ''cost'') py_float) (\<lambda>cost.
     rbind (float_field pl ''price'') (\<lambda>price.
       Inr \<lparr>t_symbol = symb, t_side = side, t_shares = shares, t_price = price, t_cost = cost,
             t_amount = amount\<rparr>))))))"

definition settle_fill :: "ledger_state \<Rightarrow> event \<Rightarrow> trade \<Rightarrow> ledger_state" where
  "settle_fill s ev t =
     (let s1 = book_fill s (t_side t) (t_symbol t) (t_shares t) (t_amount t) (t_cost t);
          s2 = s1\<lparr>last_prices :=
            if 0 < t_price t then dset (last_prices s1) (t_symbol t) (t_price t) else last_prices s1\<rparr>;
          s3 = apply_order_status
            (if e_type ev = ORDER_PARTIALLY_FILLED then PARTIALLY_FILLED else FILLED) s2 ev
      in s3\<lparr>trades := trades s3 @ [t]\<rparr>)"

definition apply_fill :: "ledger_state \<Rightarrow> event \<Rightarrow> ledger_state res" where
  "apply_fill s ev = rbind (parse_fill (e_payload ev)) (\<lambda>t. Inr (settle_fill s ev t))"

definition apply_broker_execution :: "ledger_state \<Rightarrow> event \<Rightarrow> ledger_state res" where
  "apply_broker_execution s ev = (let pl = e_payload ev; coid = e_client_order_id ev in
     rbind (broker_order_key pl coid) (\<lambda>boid.
     rbind (int_field pl ''filled_shares'') (\<lambda>filled.
     rbind (int_field pl ''remaining_shares'') (\<lambda>remaining.
     rbind (str_field pl ''status'') (\<lambda>status.
       let n = normalize_broker_order_status status filled remaining in
       rbind (advance_broker_order_state s boid coid ev n pl) (\<lambda>s1.
         Inr (s1\<lparr>order_statuses := advance_local_order_status (order_statuses s1) (str_or coid boid)
           (order_status_value (broker_order_status_to_order_status n))\<rparr>)))))))"

text \<open>The pending status a cancel request puts its order in, and the markers it leaves.\<close>

definition cancel_pending_status :: "broker_order_state option \<Rightarrow> string" where
  "cancel_pending_status current = (case current of
     Some c \<Rightarrow> if bo_status c \<in> {''partially_filled'', ''partially_filled_cancel_pending''}
       then ''partially_filled_cancel_pending'' else ''reported_cancel_pending''
   | None \<Rightarrow> ''reported_cancel_pending'')"

definition mark_cancel_requested :: "ledger_state \<Rightarrow> string \<Rightarrow> event \<Rightarrow> string \<Rightarrow> ledger_state" where
  "mark_cancel_requested s boid ev pending = (case map_of (broker_order_states s) boid of
     None \<Rightarrow> s
   | Some c \<Rightarrow> s\<lparr>broker_order_states := dset (broker_order_states s) boid
       (c\<lparr>bo_cancel_request_event_id := e_event_id ev, bo_cancel_requested_at := Some (e_ts ev),
          bo_cancel_state := pending\<rparr>)\<rparr>)"

definition cancel_open :: "broker_order_state option \<Rightarrow> bool" where
  "cancel_open current =
     (case current of None \<Rightarrow> True | Some c \<Rightarrow> \<not> broker_order_status_is_terminal (bo_status c))"

definition apply_cancel_requested :: "ledger_state \<Rightarrow> event \<Rightarrow> ledger_state res" where
  "apply_cancel_requested s ev = (let pl = e_payload ev; coid = e_client_order_id ev in
     rbind (broker_order_key pl coid) (\<lambda>boid.
       let current = map_of (broker_order_states s) boid; pending = cancel_pending_status current in
       rbind (if cancel_open current
         then rbind (advance_broker_order_state s boid coid ev pending pl) (\<lambda>s1.
           Inr (mark_cancel_requested s1 boid ev pending))
         else Inr s) (\<lambda>s2.
       Inr (s2\<lparr>order_statuses := advance_local_order_status (order_statuses s2) (str_or coid boid)
         (order_status_value SUBMITTED)\<rparr>))))"

definition apply_risk :: "ledger_state \<Rightarrow> event \<Rightarrow> ledger_state" where
  "apply_risk s ev = (case as_dict (jget (e_payload ev) ''risk_event'' JNull) of
     Some d \<Rightarrow> s\<lparr>risk_events := risk_events s @ [d]\<rparr> | None \<Rightarrow> s)"

definition apply_market_snapshot :: "ledger_state \<Rightarrow> event \<Rightarrow> ledger_state res" where
  "apply_market_snapshot s ev = (case as_dict (jget (e_payload ev) ''prices'' JNull) of
     None \<Rightarrow> Inr s
   | Some d \<Rightarrow> rfold (\<lambda>(symb, price) s.
       rbind (py_float (py_or price (JFloat 0))) (\<lambda>parsed.
         Inr (if 0 < parsed then s\<lparr>last_prices := dset (last_prices s) symb parsed\<rparr> else s))) d s)"

definition apply_market_bar :: "ledger_state \<Rightarrow> event \<Rightarrow> ledger_state res" where
  "apply_market_bar s ev = (let pl = e_payload ev; symb = jget pl ''symbol'' JNull in
     rbind (float_field pl ''adj_close'') (\<lambda>adj_close.
     rbind (float_field pl ''close'') (\<lambda>close_price.
       let eff = (if 0 < adj_close then adj_close else close_price) in
       if truthy symb \<and> 0 < eff
       then rbind (py_str symb) (\<lambda>k. Inr (s\<lparr>last_prices := dset (last_prices s) k eff\<rparr>))
       else Inr s)))"

text \<open>\<open>{str(k): conv(v) for k, v in x.items()}\<close> of a dynamic value.\<close>

definition conv_items :: "(json \<Rightarrow> 'a res) \<Rightarrow> json \<Rightarrow> (string, 'a) dict res" where
  "conv_items conv x = (case as_dict x of
     None \<Rightarrow> Inl AttributeError
   | Some d \<Rightarrow> rmap (\<lambda>(k, v). rbind (conv v) (\<lambda>y. Inr (k, y))) d)"

text \<open>\<open>if x is not None: field = conv(x)\<close>.\<close>

definition opt_conv :: "(json \<Rightarrow> 'a res) \<Rightarrow> json \<Rightarrow> 'a option res" where
  "opt_conv conv x = (if x = JNull then Inr None else rbind (conv x) (\<lambda>y. Inr (Some y)))"

definition snapshot_prices :: "flt \<Rightarrow> (string, flt) dict \<Rightarrow> (string, int) dict \<Rightarrow> (string, flt) dict \<Rightarrow> (string, flt) dict" where
  "snapshot_prices equity weights h prices = fold (\<lambda>(symb, shares) lp.
     let weight = dget_or weights symb 0 in
     if 0 < shares \<and> 0 < weight then dset lp symb ((equity * weight) / of_int shares) else lp) h prices"

text \<open>A field the payload carries replaces the stored one; an absent field keeps it.\<close>

definition or_kept :: "'a option \<Rightarrow> 'a \<Rightarrow> 'a" where
  "or_kept x y = (case x of None \<Rightarrow> y | Some z \<Rightarrow> z)"

definition opt_list :: "'a option \<Rightarrow> 'a list" where
  "opt_list x = (case x of None \<Rightarrow> [] | Some y \<Rightarrow> [y])"

definition checkpoint ::
  "date option \<Rightarrow> flt option \<Rightarrow> flt option \<Rightarrow> (string, int) dict option \<Rightarrow> (string, flt) dict option
    \<Rightarrow> (string, flt) dict option \<Rightarrow> ledger_state \<Rightarrow> ledger_state" where
  "checkpoint sd eq csh h w pr s =
     (let d = (case sd of None \<Rightarrow> latest_snapshot_date s | Some x \<Rightarrow> Some x);
          e = (case eq of None \<Rightarrow> latest_snapshot_equity s | Some x \<Rightarrow> Some x);
          hs = or_kept h (holdings s);
          ws = or_kept w (latest_weights s);
          ps = (case e of None \<Rightarrow> last_prices s
                | Some x \<Rightarrow> if 0 < x then snapshot_prices x ws hs (last_prices s) else last_prices s)
      in s\<lparr>latest_snapshot_date := d, latest_snapshot_equity := e,
           equity_curve := equity_curve s @ opt_list eq, cash := or_kept csh (cash s), holdings := hs,
           latest_weights := ws, latest_prev_returns := or_kept pr (latest_prev_returns s),
           dates := dates s @ opt_list d, last_prices := ps\<rparr>)"

definition apply_snapshot_checkpoint :: "ledger_state \<Rightarrow> payload \<Rightarrow> ledger_state res" where
  "apply_snapshot_checkpoint s pl =
     rbind (case jget pl ''snapshot_date'' JNull of
        JStr t \<Rightarrow> rbind (fromisoformat t) (\<lambda>d. Inr (Some d)) | _ \<Rightarrow> Inr None) (\<lambda>sd.
     rbind (opt_conv py_float (jget pl ''equity'' JNull)) (\<lambda>eq.
     rbind (opt_conv py_float (jget pl ''cash'' JNull)) (\<lambda>csh.
     rbind (opt_conv (conv_items py_int) (jget pl ''holdings'' JNull)) (\<lambda>h.
     rbind (opt_conv (conv_items py_float) (jget pl ''weights'' JNull)) (\<lambda>w.
     rbind (opt_conv (conv_items py_float) (jget pl ''prev_returns'' JNull)) (\<lambda>pr.
       Inr (checkpoint sd eq csh h w pr s)))))))"

fun apply_event :: "event \<Rightarrow> ledger_state \<Rightarrow> ledger_state res" where
  "apply_event ev s = (case e_type ev of
     ORDER_SUBMITTED \<Rightarrow> Inr (apply_order_status SUBMITTED s ev)
   | ORDER_REJECTED \<Rightarrow> Inr (apply_order_status REJECTED s ev)
   | ORDER_FILLED \<Rightarrow> apply_fill s ev
   | ORDER_PARTIALLY_FILLED \<Rightarrow> apply_fill s ev
   | BROKER_EXECUTION_RECORDED \<Rightarrow> apply_broker_execution s ev
   | BROKER_CANCEL_REQUESTED \<Rightarrow> apply_cancel_requested s ev
   | RISK_RECORDED \<Rightarrow> Inr (apply_risk s ev)
   | MARKET_SNAPSHOT \<Rightarrow> apply_market_snapshot s ev
   | MARKET_BAR_RECORDED \<Rightarrow> apply_market_bar s ev
   | SNAPSHOT_SAVED \<Rightarrow> apply_snapshot_checkpoint s (e_payload ev)
   | BROKER_ACCOUNT_RECORDED \<Rightarrow> Inr s
   | BROKER_RUNTIME_RECORDED \<Rightarrow> Inr s
   | TICK_COMPLETED \<Rightarrow> Inr s)"

declare apply_event.simps [simp del]

section \<open>The log\<close>

fun event_priority :: "event_type \<Rightarrow> int" where
  "event_priority MARKET_SNAPSHOT = 5"
| "event_priority MARKET_BAR_RECORDED = 6"
| "event_priority BROKER_ACCOUNT_RECORDED = 43"
| "event_priority ORDER_SUBMITTED = 10"
| "event_priority ORDER_PARTIALLY_FILLED = 20"
| "event_priority ORDER_FILLED = 30"
| "event_priority ORDER_REJECTED = 40"
| "event_priority BROKER_RUNTIME_RECORDED = 44"
| "event_priority BROKER_EXECUTION_RECORDED = 45"
| "event_priority BROKER_CANCEL_REQUESTED = 46"
| "event_priority RISK_RECORDED = 50"
| "event_priority SNAPSHOT_SAVED = 60"
| "event_priority TICK_COMPLETED = 70"

definition event_sort_key :: "event \<Rightarrow> timestamp \<times> int \<times> string" where
  "event_sort_key ev = (e_ts ev, event_priority (e_type ev), e_event_id ev)"

fun replay_loop :: "string list \<Rightarrow> event list \<Rightarrow> ledger_state \<Rightarrow> (string list \<times> ledger_state) res" where
  "replay_loop seen [] s = Inr (seen, s)"
| "replay_loop seen (ev # evs) s =
     (if e_event_id ev \<noteq> [] then
        (if e_event_id ev \<in> set seen then replay_loop seen evs s
         else rbind (apply_event ev s) (replay_loop (e_event_id ev # seen) evs))
      else rbind (apply_event ev s) (replay_loop seen evs))"

definition replay :: "event list \<Rightarrow> flt \<Rightarrow> (string, int) dict \<Rightarrow> ledger_state res" where
  "replay events initial_cash initial_holdings =
     rbind (replay_loop [] (sort_key event_sort_key events) (init_state initial_cash initial_holdings))
       (\<lambda>(seen, s). Inr (s\<lparr>seen_event_count := length seen\<rparr>))"


section \<open>Replay as a fold over the de-duplicated log\<close>

fun dedup_ids :: "string list \<Rightarrow> event list \<Rightarrow> event list" where
  "dedup_ids seen [] = []"
| "dedup_ids seen (ev # evs) =
     (if e_event_id ev \<noteq> [] then
        (if e_event_id ev \<in> set seen then dedup_ids seen evs
         else ev # dedup_ids (e_event_id ev # seen) evs)
      else ev # dedup_ids seen evs)"

fun seen_after :: "string list \<Rightarrow> event list \<Rightarrow> string list" where
  "seen_after seen [] = seen"
| "seen_after seen (ev # evs) =
     (if e_event_id ev \<noteq> [] \<and> e_event_id ev \<notin> set seen then seen_after (e_event_id ev # seen) evs
      else seen_after seen evs)"

lemma replay_loop_eq:
  "replay_loop seen evs s =
    rbind (rfold apply_event (dedup_ids seen evs) s) (\<lambda>s'. Inr (seen_after seen evs, s'))"
proof (induction evs arbitrary: seen s)
  case Nil
  then show ?case by simp
next
  case (Cons ev evs)
  show ?case by (cases "apply_event ev s") (auto simp: Cons.IH)
qed

lemma replay_eq:
  "replay evs c h = (let l = sort_key event_sort_key evs in
     rbind (rfold apply_event (dedup_ids [] l) (init_state c h))
       (\<lambda>s. Inr (s\<lparr>seen_event_count := length (seen_after [] l)\<rparr>)))"
  by (cases "rfold apply_event (dedup_ids [] (sort_key event_sort_key evs)) (init_state c h)")
     (auto simp: replay_def replay_loop_eq Let_def)

lemma set_dedup_subset: "set (dedup_ids seen evs) \<subseteq> set evs"
  by (induction seen evs rule: dedup_ids.induct) auto

lemma set_dedup:
  assumes "\<forall>e \<in> set evs. e_event_id e \<noteq> []" and "inj_on e_event_id (set evs)"
  shows "set (dedup_ids seen evs) = {e \<in> set evs. e_event_id e \<notin> set seen}"
  using assms
proof (induction seen evs rule: dedup_ids.induct)
  case (1 seen)
  then show ?case by simp
next
  case (2 seen ev evs)
  then have inj: "inj_on e_event_id (set evs)" by (simp add: inj_on_def)
  have "\<And>e. e \<in> set evs \<Longrightarrow> e_event_id e = e_event_id ev \<Longrightarrow> e = ev"
    using 2(5) by (simp add: inj_on_def)
  then show ?case using 2 inj by auto
qed

lemma dedup_ids_ids:
  assumes "\<forall>e \<in> set evs. e_event_id e \<noteq> []"
  shows "distinct (map e_event_id (dedup_ids seen evs))
    \<and> set (map e_event_id (dedup_ids seen evs)) \<inter> set seen = {}"
  using assms by (induction seen evs rule: dedup_ids.induct) auto

lemma sorted_dedup: "sorted (map f evs) \<Longrightarrow> sorted (map f (dedup_ids seen evs))"
proof (induction seen evs rule: dedup_ids.induct)
  case (1 seen)
  then show ?case by simp
next
  case (2 seen ev evs)
  have "\<forall>x \<in> set (map f (dedup_ids sn evs)). f ev \<le> x" for sn
    using 2(4) set_dedup_subset [of sn evs] by auto
  then show ?case using 2 by simp
qed

lemma length_seen_after:
  "\<forall>e \<in> set evs. e_event_id e \<noteq> [] \<Longrightarrow>
    length (seen_after seen evs) = length seen + length (dedup_ids seen evs)"
  by (induction seen evs rule: dedup_ids.induct) auto

text \<open>With unique ids the de-duplicated, sorted log is a function of the set of events.\<close>

lemma dedup_sort_unique:
  assumes ids: "\<forall>e \<in> set xs. e_event_id e \<noteq> []" and inj: "inj_on e_event_id (set xs)"
    and eq: "set xs = set ys"
  shows "dedup_ids [] (sort_key event_sort_key xs) = dedup_ids [] (sort_key event_sort_key ys)"
proof -
  let ?L = "\<lambda>zs. dedup_ids [] (sort_key event_sort_key zs)"
  have sets: "set (?L xs) = set xs" "set (?L ys) = set xs"
    using set_dedup ids inj eq by (simp_all add: set_dedup)
  have key_inj: "inj_on event_sort_key (set xs)"
    using inj by (auto simp: inj_on_def event_sort_key_def)
  have dist: "distinct (map event_sort_key (?L zs))" if "set zs = set xs" for zs
  proof -
    have "distinct (?L zs)"
      using dedup_ids_ids [of "sort_key event_sort_key zs" "[]"] ids that
      by (auto simp: distinct_map)
    moreover have "set (?L zs) = set xs" using that sets(1) set_dedup ids inj by auto
    ultimately show ?thesis using key_inj by (simp add: distinct_map)
  qed
  have "map event_sort_key (?L xs) = map event_sort_key (?L ys)"
  proof (rule sorted_distinct_set_unique)
    show "sorted (map event_sort_key (?L xs))" "sorted (map event_sort_key (?L ys))"
      by (simp_all add: sorted_dedup)
    show "distinct (map event_sort_key (?L xs))" "distinct (map event_sort_key (?L ys))"
      using dist eq by simp_all
    show "set (map event_sort_key (?L xs)) = set (map event_sort_key (?L ys))"
      using sets by simp
  qed
  then show ?thesis
    using inj_on_map_eq_map [of event_sort_key "?L xs" "?L ys"] key_inj sets by simp
qed

section \<open>What one event can change\<close>

lemma project_report_simps [simp]:
  "bo_status (project_report c key coid ev n pl f r rid ap m) = n"
  "bo_broker_order_id (project_report c key coid ev n pl f r rid ap m) = key"
  "bo_status_rank (project_report c key coid ev n pl f r rid ap m) = broker_order_status_rank n"
  "bo_event_ts (project_report c key coid ev n pl f r rid ap m) = e_ts ev"
  "n \<in> set submission_only_statuses \<Longrightarrow> bo_filled_shares (project_report c key coid ev n pl f r rid ap m) = 0"
  by (simp_all add: project_report_def Let_def)

lemma advance_broker_cases:
  assumes "advance_broker_order_state s b c ev n pl = Inr s'"
  shows "s' = s \<or> (\<exists>coid f r rid ap m. let key = str_or b c; cur = map_of (broker_order_states s) key in
     s' = s\<lparr>broker_order_states := dset (broker_order_states s) key
       (project_report cur key coid ev n pl f r rid ap m)\<rparr>
     \<and> should_advance_broker cur n (e_ts ev))"
proof (cases "str_or b c = [] \<or>
    \<not> should_advance_broker (map_of (broker_order_states s) (str_or b c)) n (e_ts ev)")
  case True
  then have "s' = s"
    using assms by (cases "str_or b c = []") (simp_all add: advance_broker_order_state_def Let_def)
  then show ?thesis ..
next
  case False
  then have key: "(str_or b c = []) = False"
      "(\<not> should_advance_broker (map_of (broker_order_states s) (str_or b c)) n (e_ts ev)) = False"
    by simp_all
  obtain f r coid rid ap m where
    "s' = s\<lparr>broker_order_states := dset (broker_order_states s) (str_or b c)
      (project_report (map_of (broker_order_states s) (str_or b c)) (str_or b c) coid ev n pl f r rid ap m)\<rparr>"
    using assms unfolding advance_broker_order_state_def Let_def key if_False rbind_Inr_iff sum.inject
    by blast
  moreover have "should_advance_broker (map_of (broker_order_states s) (str_or b c)) n (e_ts ev)"
    using False by blast
  ultimately show ?thesis unfolding Let_def by blast
qed

text \<open>Order statuses only change through the guarded update.\<close>

definition status_step :: "(string, string) dict \<Rightarrow> (string, string) dict \<Rightarrow> bool" where
  "status_step m m' \<longleftrightarrow> m' = m
     \<or> (\<exists>k st. m' = advance_local_order_status m k (order_status_value st))"

lemma status_step_intros [simp]:
  "status_step m m"
  "status_step m (advance_local_order_status m k (order_status_value st))"
  by (auto simp: status_step_def)

lemma advance_broker_frame:
  assumes "advance_broker_order_state s b c ev n pl = Inr s'"
  shows "cash s' = cash s" "holdings s' = holdings s" "order_statuses s' = order_statuses s"
  using advance_broker_cases [OF assms] by (auto simp: Let_def)

lemma broker_execution_frame:
  assumes "apply_broker_execution s ev = Inr s'"
  shows "cash s' = cash s" "holdings s' = holdings s"
    "status_step (order_statuses s) (order_statuses s')"
  using assms by (auto simp: apply_broker_execution_def Let_def advance_broker_frame)

lemma mark_cancel_frame [simp]:
  "cash (mark_cancel_requested s b ev p) = cash s"
  "holdings (mark_cancel_requested s b ev p) = holdings s"
  "order_statuses (mark_cancel_requested s b ev p) = order_statuses s"
  by (simp_all add: mark_cancel_requested_def split: option.split)

lemma cancel_requested_cases:
  assumes "apply_cancel_requested s ev = Inr s'"
  obtains (closed) boid where "s' = s\<lparr>order_statuses := advance_local_order_status (order_statuses s)
      (str_or (e_client_order_id ev) boid) (order_status_value SUBMITTED)\<rparr>"
  | (pending) boid s1 pending where
    "cancel_open (map_of (broker_order_states s) boid)"
    "pending = cancel_pending_status (map_of (broker_order_states s) boid)"
    "advance_broker_order_state s boid (e_client_order_id ev) ev pending (e_payload ev) = Inr s1"
    "s' = (mark_cancel_requested s1 boid ev pending)\<lparr>order_statuses :=
       advance_local_order_status (order_statuses s1) (str_or (e_client_order_id ev) boid)
         (order_status_value SUBMITTED)\<rparr>"
proof -
  obtain boid where "broker_order_key (e_payload ev) (e_client_order_id ev) = Inr boid"
    using assms by (auto simp: apply_cancel_requested_def Let_def)
  then show thesis
    using assms that
    by (cases "cancel_open (map_of (broker_order_states s) boid)")
       (auto simp: apply_cancel_requested_def Let_def)
qed

lemma cancel_requested_frame:
  assumes "apply_cancel_requested s ev = Inr s'"
  shows "cash s' = cash s" "holdings s' = holdings s"
    "status_step (order_statuses s) (order_statuses s')"
proof -
  have *: "cash s' = cash s \<and> holdings s' = holdings s \<and> status_step (order_statuses s) (order_statuses s')"
    using assms
  proof (cases rule: cancel_requested_cases)
    case (closed boid)
    then show ?thesis by (simp del: order_status_value.simps)
  next
    case (pending boid s1 p)
    then show ?thesis
      using advance_broker_frame [OF pending(3)] by (simp del: order_status_value.simps)
  qed
  then show "cash s' = cash s" "holdings s' = holdings s"
    "status_step (order_statuses s) (order_statuses s')"
    by simp_all
qed

lemma market_snapshot_frame:
  assumes "apply_market_snapshot s ev = Inr s'"
  shows "\<exists>lp. s' = s\<lparr>last_prices := lp\<rparr>"
proof (cases "as_dict (jget (e_payload ev) ''prices'' JNull)")
  case None
  then have "s' = s\<lparr>last_prices := last_prices s\<rparr>" using assms by (simp add: apply_market_snapshot_def)
  then show ?thesis ..
next
  case (Some d)
  show ?thesis
  proof (rule rfold_invariant [of _ d s s' "\<lambda>t. \<exists>lp. t = s\<lparr>last_prices := lp\<rparr>"])
    show "rfold (\<lambda>(symb, price) s. rbind (py_float (py_or price (JFloat 0))) (\<lambda>parsed.
        Inr (if 0 < parsed then s\<lparr>last_prices := dset (last_prices s) symb parsed\<rparr> else s))) d s = Inr s'"
      using assms Some by (simp add: apply_market_snapshot_def)
    have "s = s\<lparr>last_prices := last_prices s\<rparr>" by simp
    then show "\<exists>lp. s = s\<lparr>last_prices := lp\<rparr>" ..
  qed (auto split: prod.splits if_splits)
qed

lemma market_bar_frame:
  "apply_market_bar s ev = Inr s' \<Longrightarrow> cash s' = cash s \<and> holdings s' = holdings s
    \<and> order_statuses s' = order_statuses s \<and> broker_order_states s' = broker_order_states s"
  by (auto simp: apply_market_bar_def Let_def split: if_splits)

lemma checkpoint_frame:
  "order_statuses (checkpoint sd eq csh h w pr s) = order_statuses s"
  "broker_order_states (checkpoint sd eq csh h w pr s) = broker_order_states s"
  by (simp_all add: checkpoint_def Let_def)

lemma snapshot_frame:
  "apply_snapshot_checkpoint s pl = Inr s' \<Longrightarrow>
    order_statuses s' = order_statuses s \<and> broker_order_states s' = broker_order_states s"
  by (auto simp: apply_snapshot_checkpoint_def checkpoint_frame)

lemma book_fill_frame [simp]:
  "order_statuses (book_fill s sd sy n a c) = order_statuses s"
  "broker_order_states (book_fill s sd sy n a c) = broker_order_states s"
  by (simp_all add: book_fill_def Let_def)

lemma settle_fill_simps [simp]:
  "broker_order_states (settle_fill s ev t) = broker_order_states s"
  "cash (settle_fill s ev t) = cash (book_fill s (t_side t) (t_symbol t) (t_shares t) (t_amount t) (t_cost t))"
  "holdings (settle_fill s ev t) =
     holdings (book_fill s (t_side t) (t_symbol t) (t_shares t) (t_amount t) (t_cost t))"
  "order_statuses (settle_fill s ev t) = advance_local_order_status (order_statuses s)
     (e_client_order_id ev)
     (order_status_value (if e_type ev = ORDER_PARTIALLY_FILLED then PARTIALLY_FILLED else FILLED))"
  by (simp_all add: settle_fill_def apply_order_status_def Let_def)

lemma fill_frame:
  assumes "apply_fill s ev = Inr s'"
  shows "broker_order_states s' = broker_order_states s"
    "status_step (order_statuses s) (order_statuses s')"
  using assms by (auto simp: apply_fill_def simp del: order_status_value.simps)

lemma risk_frame:
  "cash (apply_risk s ev) = cash s \<and> holdings (apply_risk s ev) = holdings s
    \<and> order_statuses (apply_risk s ev) = order_statuses s
    \<and> broker_order_states (apply_risk s ev) = broker_order_states s"
  by (auto simp: apply_risk_def split: option.splits)

lemma apply_event_money:
  assumes "apply_event ev s = Inr s'"
    and "e_type ev \<notin> {ORDER_FILLED, ORDER_PARTIALLY_FILLED, SNAPSHOT_SAVED}"
  shows "cash s' = cash s \<and> holdings s' = holdings s"
  using assms
  by (cases "e_type ev")
     (auto simp: apply_event.simps apply_order_status_def risk_frame
      dest: broker_execution_frame cancel_requested_frame market_snapshot_frame market_bar_frame)

lemma apply_event_statuses:
  assumes "apply_event ev s = Inr s'"
  shows "status_step (order_statuses s) (order_statuses s')"
proof -
  have status: "order_statuses (apply_order_status st s ev) =
      advance_local_order_status (order_statuses s) (e_client_order_id ev) (order_status_value st)" for st
    by (simp add: apply_order_status_def)
  show ?thesis
    using assms
    by (cases "e_type ev")
       (auto simp: apply_event.simps status risk_frame simp del: order_status_value.simps
        dest: broker_execution_frame cancel_requested_frame market_snapshot_frame market_bar_frame
          snapshot_frame fill_frame)
qed

section \<open>Forward-only order status\<close>

declare order_status_value.simps [simp del]

lemma lower_value [simp]: "str_lower (order_status_value st) = order_status_value st"
  by (cases st; hypsubst; code_simp)

lemma local_rank_value:
  "local_order_status_rank (order_status_value st) =
    (case st of NEW \<Rightarrow> 0 | SUBMITTED \<Rightarrow> 10 | PARTIALLY_FILLED \<Rightarrow> 20 | _ \<Rightarrow> 30)"
  by (cases st; hypsubst; code_simp)

lemma value_nonempty [simp]: "order_status_value st \<noteq> []"
  by (cases st) (simp_all add: order_status_value.simps)

lemma local_can_transition_rank:
  assumes "previous \<noteq> []"
  shows "local_order_status_can_transition previous incoming \<longleftrightarrow>
    local_order_status_rank previous < 30
    \<and> local_order_status_rank previous < local_order_status_rank incoming"
  using assms
  by (auto simp: local_order_status_can_transition_def local_order_status_rank_def Let_def
      local_terminal_rank_def local_terminal_followups_def)

interpretation local_status: forward_guard
  "\<lambda>a b. local_order_status_can_transition (order_status_value a) (order_status_value b)"
  "\<lambda>a. local_order_status_rank (order_status_value a)" local_terminal_rank "\<lambda>a b. False"
  by unfold_locales (auto simp: local_can_transition_rank local_terminal_rank_def)

lemma local_rank_Nil: "local_order_status_rank [] = 0"
  by code_simp

lemma advance_local_rank:
  "local_order_status_rank (dget_or m k []) \<le>
    local_order_status_rank (dget_or (advance_local_order_status m key v) k [])"
  by (cases "dget_or m key [] = []")
     (auto simp: advance_local_order_status_def dict_simps local_can_transition_rank local_rank_Nil)

lemma advance_local_final:
  assumes "local_order_status_rank (dget_or m k []) = 30"
  shows "dget_or (advance_local_order_status m key v) k [] = dget_or m k []"
proof (cases "dget_or m k [] = []")
  case True
  then show ?thesis using assms by (simp add: local_rank_Nil)
next
  case False
  then show ?thesis using assms
    by (auto simp: advance_local_order_status_def dict_simps local_can_transition_rank)
qed

lemma apply_event_local_rank:
  "apply_event ev s = Inr s' \<Longrightarrow> local_order_status_rank (dget_or (order_statuses s) k []) \<le>
    local_order_status_rank (dget_or (order_statuses s') k [])"
  by (drule apply_event_statuses) (auto simp: status_step_def advance_local_rank)

lemma apply_event_local_final:
  "apply_event ev s = Inr s' \<Longrightarrow> local_order_status_rank (dget_or (order_statuses s) k []) = 30 \<Longrightarrow>
    dget_or (order_statuses s') k [] = dget_or (order_statuses s) k []"
  by (drule apply_event_statuses) (auto simp: status_step_def advance_local_final)

section \<open>Well-formed broker projections\<close>

text \<open>An entry is keyed by its own id, carries the rank of its status, a normalised status, and never
  counts fills while it is submission-only.\<close>

definition broker_entry_ok :: "string \<Rightarrow> broker_order_state \<Rightarrow> bool" where
  "broker_entry_ok k b \<longleftrightarrow> bo_broker_order_id b = k \<and> k \<noteq> []
     \<and> normalize_status (bo_status b) = bo_status b
     \<and> bo_status_rank b = broker_order_status_rank (bo_status b)
     \<and> (bo_status b \<in> set submission_only_statuses \<longrightarrow> bo_filled_shares b = 0)"

definition projection_ok :: "(string, broker_order_state) dict \<Rightarrow> bool" where
  "projection_ok d \<longleftrightarrow> dict_ok d \<and> (\<forall>k b. map_of d k = Some b \<longrightarrow> broker_entry_ok k b)"

lemma projection_ok_Nil [simp]: "projection_ok []"
  by (simp add: projection_ok_def)

lemma projection_ok_dset: "projection_ok d \<Longrightarrow> broker_entry_ok k b \<Longrightarrow> projection_ok (dset d k b)"
  by (simp add: projection_ok_def)

text \<open>How one event moves the status of one broker order: not at all, along the guard, or by
  refreshing an open entry of the same rank.\<close>

definition broker_move :: "string option \<Rightarrow> string option \<Rightarrow> bool" where
  "broker_move old new \<longleftrightarrow> new = old \<or> (case (old, new) of
      (None, Some b) \<Rightarrow> True
    | (Some a, Some b) \<Rightarrow> broker_order_status_can_transition a b
        \<or> (broker_order_status_rank a = broker_order_status_rank b \<and> broker_order_status_rank a < 30)
    | _ \<Rightarrow> False)"

definition status_of :: "ledger_state \<Rightarrow> string \<Rightarrow> string option" where
  "status_of s k = map_option bo_status (map_of (broker_order_states s) k)"

lemma broker_move_refl [simp]: "broker_move a a"
  by (simp add: broker_move_def)

lemma advance_broker_move:
  assumes "advance_broker_order_state s b c ev n pl = Inr s'"
  shows "broker_move (status_of s k) (status_of s' k)"
proof (cases "s' = s")
  case False
  with advance_broker_cases [OF assms] show ?thesis
    by (fastforce simp: Let_def status_of_def broker_move_def should_advance_broker_def local_terminal_rank_def
        split: option.splits if_splits)
qed simp

lemma mark_cancel_status [simp]: "status_of (mark_cancel_requested s b ev p) k = status_of s k"
  by (simp add: mark_cancel_requested_def status_of_def split: option.split)

lemma status_of_upd [simp]: "status_of (s\<lparr>order_statuses := x\<rparr>) k = status_of s k"
  by (simp add: status_of_def)

lemma status_of_cong: "broker_order_states s' = broker_order_states s \<Longrightarrow> status_of s' k = status_of s k"
  by (simp add: status_of_def)

lemma execution_cases:
  assumes "apply_broker_execution s ev = Inr s'"
  obtains boid f r t s1 k v where
    "advance_broker_order_state s boid (e_client_order_id ev) ev (normalize_broker_order_status t f r)
       (e_payload ev) = Inr s1"
    "s' = s1\<lparr>order_statuses := advance_local_order_status (order_statuses s1) k v\<rparr>"
  using assms that by (auto simp: apply_broker_execution_def Let_def)

lemma cancel_pending_known: "cancel_pending_status c \<in> known_statuses"
  by (simp add: cancel_pending_status_def split: option.split)

lemma other_events_projection:
  assumes "apply_event ev s = Inr s'"
    and "e_type ev \<notin> {BROKER_EXECUTION_RECORDED, BROKER_CANCEL_REQUESTED}"
  shows "broker_order_states s' = broker_order_states s"
  using assms
  by (cases "e_type ev")
     (auto simp: apply_event.simps apply_order_status_def risk_frame
      dest: market_snapshot_frame market_bar_frame snapshot_frame fill_frame)

lemma apply_event_broker_move:
  assumes "apply_event ev s = Inr s'"
  shows "broker_move (status_of s k) (status_of s' k)"
proof (cases "e_type ev \<in> {BROKER_EXECUTION_RECORDED, BROKER_CANCEL_REQUESTED}")
  case False
  then show ?thesis using status_of_cong [OF other_events_projection [OF assms]] by simp
next
  case True
  then consider "apply_broker_execution s ev = Inr s'" | "apply_cancel_requested s ev = Inr s'"
    using assms(1) by (elim insertE emptyE) (simp_all add: apply_event.simps)
  then show ?thesis
  proof cases
    case 1
    then show ?thesis by (rule execution_cases) (simp add: advance_broker_move)
  next
    case 2
    then show ?thesis
      by (cases rule: cancel_requested_cases) (simp_all add: advance_broker_move)
  qed
qed

lemma advance_broker_projection:
  assumes "advance_broker_order_state s b c ev n pl = Inr s'"
    and "projection_ok (broker_order_states s)" and n: "normalize_status n = n"
  shows "projection_ok (broker_order_states s')"
proof (cases "str_or b c = []")
  case True
  then have "s' = s" using assms(1) by (simp add: advance_broker_order_state_def Let_def)
  then show ?thesis using assms(2) by simp
next
  case False
  then have "broker_entry_ok (str_or b c) (project_report cur (str_or b c) coid ev n pl f r rid ap m)"
    for cur coid f r rid ap m
    using n by (simp add: broker_entry_ok_def)
  moreover obtain bs where "s' = s \<or> s' = s\<lparr>broker_order_states := bs\<rparr> \<and>
      (\<exists>cur coid f r rid ap m. bs = dset (broker_order_states s) (str_or b c)
        (project_report cur (str_or b c) coid ev n pl f r rid ap m))"
    using advance_broker_cases [OF assms(1)] unfolding Let_def by blast
  ultimately show ?thesis using assms(2) projection_ok_dset by fastforce
qed

lemma mark_cancel_projection:
  assumes "projection_ok (broker_order_states s)"
  shows "projection_ok (broker_order_states (mark_cancel_requested s b ev p))"
proof (cases "map_of (broker_order_states s) b")
  case None
  then show ?thesis using assms by (simp add: mark_cancel_requested_def)
next
  case (Some c)
  then have "broker_entry_ok b c" using assms by (simp add: projection_ok_def)
  then show ?thesis
    using Some assms by (auto simp: mark_cancel_requested_def broker_entry_ok_def intro!: projection_ok_dset)
qed

lemma apply_event_projection:
  assumes "apply_event ev s = Inr s'" and "projection_ok (broker_order_states s)"
  shows "projection_ok (broker_order_states s')"
proof (cases "e_type ev \<in> {BROKER_EXECUTION_RECORDED, BROKER_CANCEL_REQUESTED}")
  case False
  with other_events_projection [OF assms(1)] assms(2) show ?thesis by simp
next
  case True
  then consider "apply_broker_execution s ev = Inr s'" | "apply_cancel_requested s ev = Inr s'"
    using assms(1) by (elim insertE emptyE) (simp_all add: apply_event.simps)
  then show ?thesis
  proof cases
    case 1
    then show ?thesis
      using assms(2)
      by (auto elim!: execution_cases intro: advance_broker_projection [OF _ _ normalize_idem_aux])
  next
    case 2
    have p: "normalize_status (cancel_pending_status c) = cancel_pending_status c" for c
      using cancel_pending_known table_keys_fixed by (simp add: known_statuses_def)
    from 2 show ?thesis
    proof (cases rule: cancel_requested_cases)
      case (closed boid)
      then show ?thesis using assms(2) by simp
    next
      case (pending boid s1 pending)
      then show ?thesis
        using advance_broker_projection [OF pending(3) assms(2)] p mark_cancel_projection by simp
    qed
  qed
qed

section \<open>Extending the log\<close>

lemma dedup_append: "dedup_ids seen (xs @ ys) = dedup_ids seen xs @ dedup_ids (seen_after seen xs) ys"
  by (induction seen xs rule: dedup_ids.induct) auto

lemma seen_append: "seen_after seen (xs @ ys) = seen_after (seen_after seen xs) ys"
  by (induction seen xs rule: seen_after.induct) auto

lemma sort_key_append:
  fixes f :: "'a \<Rightarrow> 'k::linorder"
  assumes "\<forall>x \<in> set xs. \<forall>y \<in> set ys. f x < f y"
  shows "sort_key f (xs @ ys) = sort_key f xs @ sort_key f ys"
proof (rule properties_for_sort_key)
  show "mset (sort_key f xs @ sort_key f ys) = mset (xs @ ys)" by simp
  show "sorted (map f (sort_key f xs @ sort_key f ys))"
    using assms by (auto simp: sorted_append less_imp_le)
  fix k assume "k \<in> set (sort_key f xs @ sort_key f ys)"
  show "filter (\<lambda>x. f k = f x) (sort_key f xs @ sort_key f ys) = filter (\<lambda>x. f k = f x) (xs @ ys)"
    by (simp add: sort_key_stable eq_commute [of "f k"])
qed

text \<open>Replaying a log that grew at its end continues from the state of the shorter log.\<close>

lemma replay_extend:
  assumes "\<forall>x \<in> set xs. \<forall>y \<in> set ys. event_sort_key x < event_sort_key y"
    and "replay (xs @ ys) c h = Inr s'"
  obtains s m s2 n zs where "replay xs c h = Inr (s\<lparr>seen_event_count := m\<rparr>)" "set zs \<subseteq> set ys"
    "rfold apply_event zs s = Inr s2" "s' = s2\<lparr>seen_event_count := n\<rparr>"
proof -
  let ?a = "sort_key event_sort_key xs" and ?b = "sort_key event_sort_key ys"
  have l: "sort_key event_sort_key (xs @ ys) = ?a @ ?b"
    using assms(1) by (rule sort_key_append)
  obtain s2 where s2: "rfold apply_event (dedup_ids [] (?a @ ?b)) (init_state c h) = Inr s2"
    and s': "s' = s2\<lparr>seen_event_count := length (seen_after [] (?a @ ?b))\<rparr>"
    using assms(2) by (auto simp: replay_eq l Let_def)
  obtain s1 where s1: "rfold apply_event (dedup_ids [] ?a) (init_state c h) = Inr s1"
    and zs: "rfold apply_event (dedup_ids (seen_after [] ?a) ?b) s1 = Inr s2"
    using s2 by (auto simp: dedup_append rfold_append)
  have "replay xs c h = Inr (s1\<lparr>seen_event_count := length (seen_after [] ?a)\<rparr>)"
    using s1 by (simp add: replay_eq Let_def)
  moreover have "set (dedup_ids (seen_after [] ?a) ?b) \<subseteq> set ys"
    using set_dedup_subset by (metis set_sort)
  ultimately show thesis using that zs s' by blast
qed

section \<open>Properties\<close>

lemma replay_same_set:
  assumes "\<forall>e \<in> set xs. e_event_id e \<noteq> []" and "inj_on e_event_id (set xs)" and "set xs = set ys"
  shows "replay xs c h = replay ys c h"
proof -
  have "dedup_ids [] (sort_key event_sort_key xs) = dedup_ids [] (sort_key event_sort_key ys)"
    using assms by (rule dedup_sort_unique)
  then show ?thesis
    using assms length_seen_after [of "sort_key event_sort_key xs" "[]"]
      length_seen_after [of "sort_key event_sort_key ys" "[]"]
    by (simp add: replay_eq Let_def)
qed

text \<open>C5: Replay is a function of the set of events: when every event has an id and no two events share
  one, neither the order in which the log is read nor repeated delivery of an event changes the
  account state.\<close>

theorem replay_order_and_duplicates:
  assumes "\<forall>e \<in> set xs. e_event_id e \<noteq> []" and "inj_on e_event_id (set xs)" and "set xs = set ys"
  shows "replay xs c h = replay ys c h"
  using assms by (rule replay_same_set)

definition fill_event_sample :: "string \<Rightarrow> timestamp \<Rightarrow> string \<Rightarrow> int \<Rightarrow> event" where
  "fill_event_sample i ts side n = \<lparr>e_event_id = i, e_deployment_id = ''d'', e_type = ORDER_FILLED, e_ts = ts,
     e_client_order_id = i, e_payload = [(''side'', JStr side), (''symbol'', JStr ''A''), (''shares'', JInt n),
       (''amount'', JFloat (of_int (10 * n))), (''cost'', JFloat 5), (''price'', JFloat 10)]\<rparr>"

theorem replay_order_and_duplicates_witness:
  "replay [fill_event_sample ''b'' 2 ''sell'' 100, fill_event_sample ''a'' 1 ''buy'' 300,
       fill_event_sample ''b'' 2 ''sell'' 100] 5000 []
     = replay [fill_event_sample ''a'' 1 ''buy'' 300, fill_event_sample ''b'' 2 ''sell'' 100] 5000 []
   \<and> map_sum id cash (replay [fill_event_sample ''a'' 1 ''buy'' 300, fill_event_sample ''b'' 2 ''sell'' 100] 5000 [])
     = Inr 2990"
proof (rule conjI)
  let ?x = "fill_event_sample ''b'' 2 ''sell'' 100" and ?y = "fill_event_sample ''a'' 1 ''buy'' 300"
  show "replay [?x, ?y, ?x] 5000 [] = replay [?y, ?x] 5000 []"
    by (rule replay_order_and_duplicates) (auto simp: fill_event_sample_def)
  show "map_sum id cash (replay [?y, ?x] 5000 []) = Inr 2990"
    by code_simp
qed

text \<open>C6: Only fills and snapshots move money: a log without fill and snapshot events (broker reports,
  cancel requests, risk, market data, rejections) leaves cash and holdings exactly as they started,
  whatever the reports claim.\<close>

theorem replay_money_only_from_fills:
  assumes "replay evs c h = Inr s"
    and "\<forall>e \<in> set evs. e_type e \<notin> {ORDER_FILLED, ORDER_PARTIALLY_FILLED, SNAPSHOT_SAVED}"
  shows "cash s = c \<and> holdings s = h"
proof -
  obtain s1 n where s1: "rfold apply_event (dedup_ids [] (sort_key event_sort_key evs)) (init_state c h) = Inr s1"
    and s: "s = s1\<lparr>seen_event_count := n\<rparr>"
    using assms(1) by (auto simp: replay_eq Let_def)
  have sub: "set (dedup_ids [] (sort_key event_sort_key evs)) \<subseteq> set evs"
    using set_dedup_subset by (metis set_sort)
  have "cash s1 = c \<and> holdings s1 = h"
  proof (rule rfold_invariant [OF s1, where P = "\<lambda>s. cash s = c \<and> holdings s = h"])
    show "cash (init_state c h) = c \<and> holdings (init_state c h) = h" by (simp add: init_state_def)
  qed (use assms(2) sub apply_event_money in auto)
  then show ?thesis by (simp add: s)
qed

definition report_event_sample :: "string \<Rightarrow> timestamp \<Rightarrow> string \<Rightarrow> int \<Rightarrow> int \<Rightarrow> event" where
  "report_event_sample i ts status f r = \<lparr>e_event_id = i, e_deployment_id = ''d'',
     e_type = BROKER_EXECUTION_RECORDED, e_ts = ts, e_client_order_id = ''o1'',
     e_payload = [(''broker_order_id'', JStr ''77''), (''status'', JStr status),
       (''filled_shares'', JInt f), (''remaining_shares'', JInt r)]\<rparr>"

theorem replay_money_only_from_fills_witness:
  "\<exists>s. replay [report_event_sample ''e1'' 1 ''Accepted'' 300 0] 1000 [(''A'', 5)] = Inr s
     \<and> cash s = 1000 \<and> holdings s = [(''A'', 5)]"
proof -
  let ?l = "[report_event_sample ''e1'' 1 ''Accepted'' 300 0]"
  have "\<not> isl (replay ?l 1000 [(''A'', 5)])" by code_simp
  then obtain s where "replay ?l 1000 [(''A'', 5)] = Inr s" by (cases "replay ?l 1000 [(''A'', 5)]") auto
  then show ?thesis
    using replay_money_only_from_fills [of ?l 1000 "[(''A'', 5)]" s]
    by (simp add: report_event_sample_def)
qed

lemma rfold_local_status:
  assumes "rfold apply_event zs s = Inr s'"
  shows "local_order_status_rank (dget_or (order_statuses s) k []) \<le>
      local_order_status_rank (dget_or (order_statuses s') k [])"
    and "local_order_status_rank (dget_or (order_statuses s) k []) = 30 \<Longrightarrow>
      dget_or (order_statuses s') k [] = dget_or (order_statuses s) k []"
proof -
  let ?r = "\<lambda>s. local_order_status_rank (dget_or (order_statuses s) k [])"
  show "?r s \<le> ?r s'"
    by (rule rfold_invariant [OF assms, where P = "\<lambda>t. ?r s \<le> ?r t"])
       (use apply_event_local_rank order_trans in blast)+
  show "dget_or (order_statuses s') k [] = dget_or (order_statuses s) k []" if "?r s = 30"
    by (rule rfold_invariant [OF assms,
          where P = "\<lambda>t. dget_or (order_statuses t) k [] = dget_or (order_statuses s) k []"])
       (use apply_event_local_final that in \<open>simp, metis\<close>)
qed

text \<open>C7: The order-status map is forward-only over a growing log: appending later events never lowers
  the rank of an order's status, and an order that has reached a terminal status (filled, canceled,
  rejected) keeps exactly that status whatever arrives afterwards.\<close>

theorem replay_status_forward_only:
  assumes "\<forall>x \<in> set xs. \<forall>y \<in> set ys. event_sort_key x < event_sort_key y"
    and "replay xs c h = Inr s" and "replay (xs @ ys) c h = Inr s'"
  shows "local_order_status_rank (dget_or (order_statuses s) k [])
      \<le> local_order_status_rank (dget_or (order_statuses s') k [])
    \<and> (local_order_status_rank (dget_or (order_statuses s) k []) = 30 \<longrightarrow>
        dget_or (order_statuses s') k [] = dget_or (order_statuses s) k [])"
proof -
  obtain s1 m s2 n zs where r: "replay xs c h = Inr (s1\<lparr>seen_event_count := m\<rparr>)"
    and "set zs \<subseteq> set ys"
    and zs: "rfold apply_event zs s1 = Inr s2" and s': "s' = s2\<lparr>seen_event_count := n\<rparr>"
    using assms(1,3) by (rule replay_extend)
  from assms(2) r have s: "s = s1\<lparr>seen_event_count := m\<rparr>" by (simp only: sum.inject)
  show ?thesis unfolding s s' using rfold_local_status [OF zs, of k] by simp
qed

theorem replay_status_forward_only_witness:
  "\<exists>s s'. replay [report_event_sample ''e1'' 1 ''filled'' 300 0] 1000 [] = Inr s
     \<and> replay ([report_event_sample ''e1'' 1 ''filled'' 300 0] @ [report_event_sample ''e2'' 2 ''canceled'' 300 0])
          1000 [] = Inr s'
     \<and> dget_or (order_statuses s) ''o1'' [] = ''filled''
     \<and> dget_or (order_statuses s') ''o1'' [] = ''filled''"
proof -
  let ?x = "[report_event_sample ''e1'' 1 ''filled'' 300 0]"
  let ?y = "[report_event_sample ''e2'' 2 ''canceled'' 300 0]"
  have v: "map_sum id (\<lambda>s. dget_or (order_statuses s) ''o1'' []) (replay ?x 1000 []) = Inr ''filled''"
    and "\<not> isl (replay (?x @ ?y) 1000 [])" and r: "local_order_status_rank ''filled'' = 30" by code_simp+
  then obtain s s' where s: "replay ?x 1000 [] = Inr s" and s': "replay (?x @ ?y) 1000 [] = Inr s'"
    by (cases "replay ?x 1000 []"; cases "replay (?x @ ?y) 1000 []") auto
  have lt: "\<forall>x \<in> set ?x. \<forall>y \<in> set ?y. event_sort_key x < event_sort_key y"
    by (simp add: event_sort_key_def report_event_sample_def)
  have filled: "dget_or (order_statuses s) ''o1'' [] = ''filled''" using v by (simp only: s map_sum.simps sum.inject)
  have "dget_or (order_statuses s') ''o1'' [] = dget_or (order_statuses s) ''o1'' []"
    using replay_status_forward_only [OF lt s s', of "''o1''"] r by (simp only: filled)
  with filled s s' show ?thesis by simp
qed

lemma rfold_projection:
  assumes "rfold apply_event zs s = Inr s'" and "projection_ok (broker_order_states s)"
  shows "projection_ok (broker_order_states s')"
  by (rule rfold_invariant [OF assms(1), where P = "\<lambda>s. projection_ok (broker_order_states s)"])
     (use assms(2) apply_event_projection in auto)

text \<open>The broker projection of every replayed log is well formed: one entry per broker order under
  its own non-empty id, with a normalised status and the rank of that status, and no filled shares
  on an order whose reports are submission-only.\<close>

theorem replay_projection_well_formed:
  assumes "replay evs c h = Inr s"
  shows "dict_ok (broker_order_states s)
    \<and> (\<forall>k b. map_of (broker_order_states s) k = Some b \<longrightarrow> broker_entry_ok k b)"
proof -
  obtain s1 n where s1: "rfold apply_event (dedup_ids [] (sort_key event_sort_key evs)) (init_state c h) = Inr s1"
    and s: "s = s1\<lparr>seen_event_count := n\<rparr>"
    using assms by (auto simp: replay_eq Let_def)
  have "projection_ok (broker_order_states s1)"
    using s1 by (rule rfold_projection) (simp add: init_state_def)
  then show ?thesis by (simp add: s projection_ok_def)
qed

theorem replay_projection_well_formed_witness:
  "\<exists>s b. replay [report_event_sample ''e1'' 1 ''Accepted'' 300 0] 1000 [] = Inr s
     \<and> map_of (broker_order_states s) ''77'' = Some b \<and> broker_entry_ok ''77'' b
     \<and> bo_status b = ''reported'' \<and> bo_filled_shares b = 0"
proof -
  let ?l = "[report_event_sample ''e1'' 1 ''Accepted'' 300 0]"
  have v: "map_sum id (\<lambda>s. map_option bo_status (map_of (broker_order_states s) ''77'')) (replay ?l 1000 [])
      = Inr (Some ''reported'')"
    by code_simp
  then obtain s where s: "replay ?l 1000 [] = Inr s" by (cases "replay ?l 1000 []") auto
  with v obtain b where b: "map_of (broker_order_states s) ''77'' = Some b" "bo_status b = ''reported''"
    by auto
  have "broker_entry_ok ''77'' b"
    using replay_projection_well_formed [OF s] b(1) by blast
  moreover from this have "bo_filled_shares b = 0"
    by (simp add: broker_entry_ok_def b(2) submission_only_statuses_def)
  ultimately show ?thesis using s b by blast
qed

text \<open>The broker status of an order moves along the lifecycle guard only: one more event leaves it
  alone, refreshes an open entry at the same rank, or takes a legal transition; a terminal status
  is never replaced by another terminal status (partially-canceled to canceled apart).\<close>

theorem ledger_broker_status_moves:
  assumes "apply_event ev s = Inr s'" and "map_of (broker_order_states s) k = Some b"
  shows "\<exists>b'. map_of (broker_order_states s') k = Some b'
    \<and> broker_order_status_rank (bo_status b) \<le> broker_order_status_rank (bo_status b')
    \<and> (broker_order_status_is_terminal (bo_status b) \<and> bo_status b' \<noteq> bo_status b \<longrightarrow>
        normalize_status (bo_status b) = ''partially_canceled''
        \<and> normalize_status (bo_status b') = ''canceled'')"
proof -
  have "broker_move (Some (bo_status b)) (status_of s' k)"
    using apply_event_broker_move [OF assms(1), of k] assms(2) by (simp add: status_of_def)
  then obtain b' where b': "map_of (broker_order_states s') k = Some b'"
    and mv: "broker_move (Some (bo_status b)) (Some (bo_status b'))"
    by (cases "map_of (broker_order_states s') k") (auto simp: status_of_def broker_move_def)
  then show ?thesis
    using broker.move_rank broker.final_move
    by (auto simp: broker_move_def is_terminal_rank broker_terminal_rank_def broker_followup_def)
qed

theorem ledger_broker_status_moves_witness:
  "\<exists>s1 s2 b b'. apply_event (report_event_sample ''e1'' 1 ''filled'' 300 0) (init_state 0 []) = Inr s1
     \<and> apply_event (report_event_sample ''e2'' 2 ''canceled'' 300 0) s1 = Inr s2
     \<and> map_of (broker_order_states s1) ''77'' = Some b \<and> map_of (broker_order_states s2) ''77'' = Some b'
     \<and> bo_status b' = ''filled''"
proof -
  let ?x = "report_event_sample ''e1'' 1 ''filled'' 300 0" and ?y = "report_event_sample ''e2'' 2 ''canceled'' 300 0"
  have v: "map_sum id (\<lambda>s. map_option bo_status (map_of (broker_order_states s) ''77''))
      (apply_event ?x (init_state 0 [])) = Inr (Some ''filled'')"
    and w: "\<not> isl (rbind (apply_event ?x (init_state 0 [])) (apply_event ?y))"
    and t: "broker_order_status_is_terminal ''filled''" "normalize_status ''filled'' \<noteq> ''partially_canceled''"
    by code_simp+
  obtain s1 where s1: "apply_event ?x (init_state 0 []) = Inr s1"
    using v by (cases "apply_event ?x (init_state 0 [])") auto
  obtain s2 where s2: "apply_event ?y s1 = Inr s2"
    using w by (cases "apply_event ?y s1") (auto simp: s1)
  obtain b where b: "map_of (broker_order_states s1) ''77'' = Some b" "bo_status b = ''filled''"
    using v by (auto simp: s1)
  obtain b' where "map_of (broker_order_states s2) ''77'' = Some b'" "bo_status b' = ''filled''"
    using ledger_broker_status_moves [OF s2 b(1)] t b(2) by auto
  with s1 s2 b show ?thesis by blast
qed

lemma local_rank_of_broker:
  "local_order_status_rank (order_status_value (broker_order_status_to_order_status a)) =
    (let n = normalize_status a in
     if n \<in> {''filled'', ''canceled'', ''partially_canceled'', ''junk'', ''order_error''} then 30
     else if n \<in> {''partially_filled'', ''partially_filled_cancel_pending''} then 20 else 10)"
  by (simp add: local_rank_value broker_order_status_to_order_status_def Let_def)

lemma broker_rank_bands:
  "broker_order_status_rank a = 30 \<longleftrightarrow>
     normalize_status a \<in> {''filled'', ''canceled'', ''partially_canceled'', ''junk'', ''order_error''}"
  "20 \<le> broker_order_status_rank a \<and> broker_order_status_rank a < 30 \<longleftrightarrow>
     normalize_status a \<in> {''partially_filled'', ''partially_filled_cancel_pending''}"
proof -
  show "broker_order_status_rank a = 30 \<longleftrightarrow>
     normalize_status a \<in> {''filled'', ''canceled'', ''partially_canceled'', ''junk'', ''order_error''}"
    by (auto simp: broker_order_status_rank_def table_rank_terminal broker_terminal_statuses_def)
  have "20 \<le> table_rank s \<and> table_rank s < 30 \<longleftrightarrow>
      s \<in> {''partially_filled'', ''partially_filled_cancel_pending''}" for s
  proof (cases "dhas broker_status_rank_table s")
    case True
    have "list_all (\<lambda>k. (20 \<le> table_rank k \<and> table_rank k < 30) =
        (k \<in> {''partially_filled'', ''partially_filled_cancel_pending''})) (dkeys broker_status_rank_table)"
      by code_simp
    with True show ?thesis by (simp only: list_all_iff dhas_iff)
  next
    case False
    moreover have "dhas broker_status_rank_table ''partially_filled''"
      "dhas broker_status_rank_table ''partially_filled_cancel_pending''" by code_simp+
    ultimately have "s \<notin> {''partially_filled'', ''partially_filled_cancel_pending''}" by blast
    then show ?thesis using False by (simp add: table_rank_def dget_or_def dhas_def)
  qed
  then show "20 \<le> broker_order_status_rank a \<and> broker_order_status_rank a < 30 \<longleftrightarrow>
     normalize_status a \<in> {''partially_filled'', ''partially_filled_cancel_pending''}"
    by (simp only: broker_order_status_rank_def)
qed

definition coarse_status :: "string \<Rightarrow> string" where
  "coarse_status s = order_status_value (broker_order_status_to_order_status s)"

text \<open>The coarse order status simulates the broker lifecycle: every legal broker transition maps to
  a local status of at least the same rank, a broker status is terminal exactly when its local
  status is, and the local guard accepts the mapped move whenever it changes the rank.\<close>

theorem broker_local_simulation:
  "(broker_order_status_can_transition a b \<longrightarrow>
      local_order_status_rank (coarse_status a) \<le> local_order_status_rank (coarse_status b)
      \<and> (local_order_status_rank (coarse_status a) \<noteq> local_order_status_rank (coarse_status b) \<longrightarrow>
          local_order_status_can_transition (coarse_status a) (coarse_status b)))
    \<and> (broker_order_status_is_terminal a \<longleftrightarrow> local_order_status_rank (coarse_status a) = 30)"
proof -
  have r: "local_order_status_rank (coarse_status s) = (if broker_order_status_rank s = 30 then 30
      else if 20 \<le> broker_order_status_rank s then 20 else 10)" for s
    using broker_rank_bands [of s] table_rank_le [of "normalize_status s"]
    by (auto simp: coarse_status_def local_rank_of_broker Let_def broker_order_status_rank_def)
  have le: "broker_order_status_rank s \<le> 30" for s
    using table_rank_le by (simp add: broker_order_status_rank_def)
  have ne: "coarse_status s \<noteq> []" for s by (simp add: coarse_status_def)
  have step: "local_order_status_rank (coarse_status a) \<le> local_order_status_rank (coarse_status b)
      \<and> (local_order_status_rank (coarse_status a) \<noteq> local_order_status_rank (coarse_status b) \<longrightarrow>
          local_order_status_rank (coarse_status a) < 30)"
    if "broker_order_status_rank a \<le> broker_order_status_rank b"
    using that le [of b] by (simp add: r)
  have "broker_order_status_is_terminal a \<longleftrightarrow> local_order_status_rank (coarse_status a) = 30"
    by (simp add: r is_terminal_rank)
  then show ?thesis
    using broker.move_rank [of a b] step local_can_transition_rank [OF ne [of a], of "coarse_status b"] by linarith
qed

theorem broker_local_simulation_witness:
  "broker_order_status_can_transition ''queued'' ''partially_filled''
   \<and> local_order_status_can_transition
       (coarse_status ''queued'')
       (coarse_status ''partially_filled'')"
proof -
  have "broker_order_status_can_transition ''queued'' ''partially_filled''"
    and "local_order_status_rank (coarse_status ''queued'')
      \<noteq> local_order_status_rank (coarse_status ''partially_filled'')"
    by code_simp+
  then show ?thesis using broker_local_simulation [of "''queued''" "''partially_filled''"] by blast
qed

end
