(* ===== verification/Live_Utils.thy ===== *)
theory Live_Utils
  imports PyValue
begin

text \<open>
  \<open>ez/live/_utils.py\<close>: the small readers that the live modules share.  The clock and the parsing of
  timestamps are outside the model.
\<close>

text \<open>\<open>try: v = float(x) except (TypeError, ValueError): None\<close> with the two range conventions.\<close>

definition opt_float :: "json \<Rightarrow> flt option res" where
  "opt_float x = (case py_float x of
     Inr v \<Rightarrow> Inr (Some v)
   | Inl e \<Rightarrow> if e = TypeError \<or> e = ValueError then Inr None else Inl e)"

definition positive_or_none :: "json \<Rightarrow> flt option res" where
  "positive_or_none x = (if x = JNull then Inr None
     else rbind (opt_float x) (\<lambda>v. Inr (case v of Some y \<Rightarrow> if 0 < y then Some y else None | None \<Rightarrow> None)))"

definition fraction_or_none :: "json \<Rightarrow> flt option res" where
  "fraction_or_none x = (if x = JNull then Inr None
     else rbind (opt_float x) (\<lambda>v. Inr (case v of
       Some y \<Rightarrow> if y < 0 then None else Some (min y 1) | None \<Rightarrow> None)))"

definition qmt_request_failed_immediately :: "json \<Rightarrow> bool" where
  "qmt_request_failed_immediately r = (case r of
     JBool b \<Rightarrow> \<not> b | JInt i \<Rightarrow> i < 0 | JFloat x \<Rightarrow> x < 0 | _ \<Rightarrow> False)"

text \<open>\<open>get_field\<close> on a dictionary: the first of the names that is a key.\<close>

definition get_field :: "payload \<Rightarrow> string list \<Rightarrow> json \<Rightarrow> json" where
  "get_field raw names dflt = (case find (dhas raw) names of Some n \<Rightarrow> jget raw n dflt | None \<Rightarrow> dflt)"

lemma positive_or_none_pos: "positive_or_none x = Inr (Some v) \<Longrightarrow> 0 < v"
  by (auto simp: positive_or_none_def split: if_splits option.splits)

lemma fraction_or_none_range: "fraction_or_none x = Inr (Some v) \<Longrightarrow> 0 \<le> v \<and> v \<le> 1"
  by (auto simp: fraction_or_none_def split: if_splits option.splits)

end
