(* ===== verification/Capital_Policy.thy ===== *)
theory Capital_Policy
  imports PyValue
begin

text \<open>
  \<open>ez/live/capital_policy.py\<close>: the capital stages, their limits, the environment kill-switch, the
  order check with its seven rules in order, and the gates of a stage change.  The process
  environment is the argument \<open>env\<close>.
\<close>

section \<open>Stages and limits\<close>

datatype capital_stage = READ_ONLY | PAPER_SIM | SMALL_WHITELIST | EXPANDED_WHITELIST | FULL_CAPITAL

fun stage_value :: "capital_stage \<Rightarrow> string" where
  "stage_value READ_ONLY = ''read_only''"
| "stage_value PAPER_SIM = ''paper_sim''"
| "stage_value SMALL_WHITELIST = ''small_whitelist''"
| "stage_value EXPANDED_WHITELIST = ''expanded''"
| "stage_value FULL_CAPITAL = ''full''"

definition all_stages :: "capital_stage list" where
  "all_stages = [READ_ONLY, PAPER_SIM, SMALL_WHITELIST, EXPANDED_WHITELIST, FULL_CAPITAL]"

text \<open>\<open>CapitalStage(text)\<close>.\<close>

definition stage_of :: "string \<Rightarrow> capital_stage res" where
  "stage_of s = (case find (\<lambda>st. stage_value st = s) all_stages of
     Some st \<Rightarrow> Inr st | None \<Rightarrow> Inl ValueError)"

definition kill_switch_truthy :: "string list" where
  "kill_switch_truthy = [''1'', ''true'', ''yes'', ''on'']"

record stage_limits =
  max_capital_per_day :: flt
  max_position_value_per_symbol :: flt
  max_total_gross_exposure :: flt
  allowed_symbols :: "json list option"

record policy_config =
  current_stage :: capital_stage
  stage_limits_of :: "(capital_stage, stage_limits) dict"
  entry_gates :: "(capital_stage, payload) dict"
  kill_switch_env_var :: string

definition limits :: "flt \<Rightarrow> flt \<Rightarrow> flt \<Rightarrow> json list option \<Rightarrow> stage_limits" where
  "limits dcap pos gross allowed = \<lparr>max_capital_per_day = dcap, max_position_value_per_symbol = pos,
     max_total_gross_exposure = gross, allowed_symbols = allowed\<rparr>"

definition gate :: "int \<Rightarrow> flt \<Rightarrow> payload" where
  "gate days rate = [(''min_days_no_drift'', JInt days), (''min_order_success_rate'', JFloat rate)]"

definition default_staircase :: policy_config where
  "default_staircase = \<lparr>current_stage = READ_ONLY,
     stage_limits_of = [
       (READ_ONLY, limits 0 0 0 (Some [])),
       (PAPER_SIM, limits (10 ^ 9) (10 ^ 9) (10 ^ 9) None),
       (SMALL_WHITELIST, limits 50000 20000 100000 None),
       (EXPANDED_WHITELIST, limits 500000 100000 1000000 None),
       (FULL_CAPITAL, limits (10 ^ 12) (10 ^ 12) (10 ^ 12) None)],
     entry_gates = [(SMALL_WHITELIST, gate 5 (90 / 100)), (EXPANDED_WHITELIST, gate 10 (95 / 100)),
       (FULL_CAPITAL, gate 20 (98 / 100))],
     kill_switch_env_var = ''EZ_LIVE_QMT_KILL_SWITCH''\<rparr>"

section \<open>Reading the configuration\<close>

text \<open>One entry of \<open>stage_limits\<close>: an unknown stage or a value that is no dict is skipped, a field that
  is no number keeps the existing limit.\<close>

definition merge_limits :: "stage_limits option \<Rightarrow> payload \<Rightarrow> stage_limits res" where
  "merge_limits existing d =
     (let old = (\<lambda>f. case existing of Some l \<Rightarrow> f l | None \<Rightarrow> 0);
          old_allowed = (case existing of Some l \<Rightarrow> allowed_symbols l | None \<Rightarrow> None) in
      rbind (float_or (jget d ''max_capital_per_day'' JNull) (old max_capital_per_day)) (\<lambda>day.
      rbind (float_or (jget d ''max_position_value_per_symbol'' JNull) (old max_position_value_per_symbol)) (\<lambda>pos.
      rbind (float_or (jget d ''max_total_gross_exposure'' JNull) (old max_total_gross_exposure)) (\<lambda>gross.
      rbind (if jget d ''allowed_symbols'' JNull \<noteq> JNull
             then rbind (py_list (jget d ''allowed_symbols'' JNull)) (\<lambda>xs. Inr (Some xs))
             else Inr old_allowed) (\<lambda>allowed.
        Inr (limits day pos gross allowed))))))"

definition merge_stage_limit :: "string \<times> json \<Rightarrow> policy_config \<Rightarrow> policy_config res" where
  "merge_stage_limit e base = (case e of (k, v) \<Rightarrow>
     (case (stage_of k, as_dict v) of
        (Inr st, Some d) \<Rightarrow> rbind (merge_limits (map_of (stage_limits_of base) st) d) (\<lambda>l.
          Inr (base\<lparr>stage_limits_of := dset (stage_limits_of base) st l\<rparr>))
      | _ \<Rightarrow> Inr base))"

definition merge_gate :: "string \<times> json \<Rightarrow> policy_config \<Rightarrow> policy_config res" where
  "merge_gate e base = (case e of (k, v) \<Rightarrow>
     (case (stage_of k, as_dict v) of
        (Inr st, Some d) \<Rightarrow> Inr (base\<lparr>entry_gates := dset (entry_gates base) st d\<rparr>)
      | _ \<Rightarrow> Inr base))"

definition merge_all :: "('e \<Rightarrow> policy_config \<Rightarrow> policy_config res) \<Rightarrow> (json \<Rightarrow> 'e list option) \<Rightarrow> json \<Rightarrow> policy_config \<Rightarrow> policy_config res" where
  "merge_all f items x base = (case items x of None \<Rightarrow> Inr base | Some d \<Rightarrow> rfold f d base)"

definition policy_from_params :: "json \<Rightarrow> policy_config option res" where
  "policy_from_params params =
     (if \<not> truthy params then Inr None
      else case as_dict params of
        None \<Rightarrow> Inl AttributeError
      | Some d \<Rightarrow>
          if \<not> truthy (jget d ''enabled'' (JBool False)) then Inr None
          else
            rbind (case jget d ''stage'' JNull of
                JNull \<Rightarrow> Inr READ_ONLY
              | v \<Rightarrow> rbind (py_str v) (\<lambda>t. Inr (case stage_of t of Inr st \<Rightarrow> st | Inl _ \<Rightarrow> READ_ONLY))) (\<lambda>st.
            rbind (merge_all merge_stage_limit as_dict (jget d ''stage_limits'' JNull)
                (default_staircase\<lparr>current_stage := st\<rparr>)) (\<lambda>base1.
            rbind (merge_all merge_gate as_dict (jget d ''entry_gates'' JNull) base1) (\<lambda>base2.
              Inr (Some (case jget d ''kill_switch_env_var'' JNull of
                  JStr n \<Rightarrow> if str_strip n \<noteq> [] then base2\<lparr>kill_switch_env_var := str_strip n\<rparr> else base2
                | _ \<Rightarrow> base2))))))"

section \<open>The engine\<close>

definition is_kill_switch_active :: "(string, string) dict \<Rightarrow> policy_config \<Rightarrow> bool" where
  "is_kill_switch_active env cfg =
     (str_lower (str_strip (dget_or env (kill_switch_env_var cfg) [])) \<in> set kill_switch_truthy)"

definition effective_stage :: "(string, string) dict \<Rightarrow> policy_config \<Rightarrow> capital_stage" where
  "effective_stage env cfg =
     (if is_kill_switch_active env cfg
      then (if current_stage cfg = READ_ONLY then READ_ONLY else PAPER_SIM)
      else current_stage cfg)"

record reject_reason =
  rr_rule :: string
  rr_stage :: capital_stage
  rr_message :: string
  rr_details :: payload

text \<open>The arguments of \<open>check_order\<close>.\<close>

record order_facts =
  of_symbol :: string
  of_side :: string
  of_notional :: flt
  of_position_value :: flt
  of_total_exposure :: flt
  of_day_notional :: flt
  of_broker_type :: string

definition reject :: "string \<Rightarrow> capital_stage \<Rightarrow> string \<Rightarrow> payload \<Rightarrow> reject_reason option" where
  "reject rule st msg details = Some \<lparr>rr_rule = rule, rr_stage = st, rr_message = msg, rr_details = details\<rparr>"

text \<open>Rules 4 to 7 under the limits of the effective stage.\<close>

definition check_limits :: "stage_limits \<Rightarrow> capital_stage \<Rightarrow> order_facts \<Rightarrow> reject_reason option" where
  "check_limits lm st f =
     (let stj = (''effective_stage'', JStr (stage_value st));
          is_buy = (str_lower (of_side f) = ''buy'');
          day = of_day_notional f + of_notional f;
          pos = (if is_buy then of_position_value f + of_notional f
                 else max (of_position_value f - of_notional f) 0);
          gross = (if is_buy then of_total_exposure f + of_notional f
                   else max (of_total_exposure f - min (of_notional f) (of_position_value f)) 0)
      in if (case allowed_symbols lm of Some xs \<Rightarrow> JStr (of_symbol f) \<notin> set xs | None \<Rightarrow> False)
         then reject ''symbol_not_in_stage_whitelist'' st
           (''Symbol '' @ py_repr (of_symbol f) @ '' is not in the '' @ stage_value st @ '' whitelist.'')
           [(''symbol'', JStr (of_symbol f)),
            (''allowed_symbols'', JList (case allowed_symbols lm of Some xs \<Rightarrow> xs | None \<Rightarrow> [])), stj]
         else if max_capital_per_day lm + 1 / 10 ^ 9 < day
         then reject ''max_capital_per_day_exceeded'' st
           ''Projected daily notional would exceed the stage cap.''
           [(''projected_day_notional'', JFloat day), (''max_capital_per_day'', JFloat (max_capital_per_day lm)),
            (''order_notional'', JFloat (of_notional f)),
            (''cumulative_day_notional'', JFloat (of_day_notional f)), stj]
         else if is_buy \<and> max_position_value_per_symbol lm + 1 / 10 ^ 9 < pos
         then reject ''max_position_value_per_symbol_exceeded'' st
           ''Projected per-symbol position value exceeds the stage cap.''
           [(''symbol'', JStr (of_symbol f)), (''projected_position_value'', JFloat pos),
            (''max_position_value_per_symbol'', JFloat (max_position_value_per_symbol lm)),
            (''current_position_value'', JFloat (of_position_value f)),
            (''order_notional'', JFloat (of_notional f)), stj]
         else if is_buy \<and> max_total_gross_exposure lm + 1 / 10 ^ 9 < gross
         then reject ''max_total_gross_exposure_exceeded'' st
           ''Projected total gross exposure exceeds the stage cap.''
           [(''projected_total_exposure'', JFloat gross),
            (''max_total_gross_exposure'', JFloat (max_total_gross_exposure lm)),
            (''current_total_exposure'', JFloat (of_total_exposure f)),
            (''order_notional'', JFloat (of_notional f)), stj]
         else None)"

definition check_order :: "(string, string) dict \<Rightarrow> policy_config \<Rightarrow> order_facts \<Rightarrow> reject_reason option" where
  "check_order env cfg f =
     (let eff = effective_stage env cfg; is_paper = (of_broker_type f = ''paper'');
          bt = (''broker_type'', JStr (of_broker_type f)); es = (''effective_stage'', JStr (stage_value eff))
      in if is_kill_switch_active env cfg \<and> \<not> is_paper
         then reject ''kill_switch_capital_downgrade'' eff
           ''Kill-switch is active; real-broker orders are blocked (stage downgraded to paper_sim).''
           [(''kill_switch_env_var'', JStr (kill_switch_env_var cfg)),
            (''configured_stage'', JStr (stage_value (current_stage cfg))), es, bt]
         else if eff = READ_ONLY
         then reject ''read_only_stage_blocks_orders'' eff ''READ_ONLY stage does not permit any orders.'' [bt, es]
         else if eff = PAPER_SIM \<and> \<not> is_paper
         then reject ''paper_sim_stage_requires_paper_broker'' eff
           (''PAPER_SIM stage only permits paper-broker orders; broker_type='' @ py_repr (of_broker_type f)
              @ '' is blocked.'') [bt, es]
         else case map_of (stage_limits_of cfg) eff of
             None \<Rightarrow> None
           | Some lm \<Rightarrow> check_limits lm eff f)"

section \<open>Stage transitions and audit\<close>

text \<open>The text of a blocker is kept as its data.\<close>

datatype blocker = MinDaysNotMet int int | MinSuccessNotMet flt flt

definition check_stage_transition_eligible ::
  "policy_config \<Rightarrow> capital_stage \<Rightarrow> int \<Rightarrow> flt \<Rightarrow> (bool \<times> blocker list) res" where
  "check_stage_transition_eligible cfg target drift_days success_rate =
     (case map_of (entry_gates cfg) target of
        None \<Rightarrow> Inr (True, [])
      | Some g \<Rightarrow>
          if g = [] then Inr (True, [])
          else
            rbind (case jget g ''min_days_no_drift'' JNull of
                JNull \<Rightarrow> Inr []
              | v \<Rightarrow> rbind (int_or v 0) (\<lambda>need.
                  Inr (if drift_days < need then [MinDaysNotMet drift_days need] else []))) (\<lambda>b1.
            rbind (case jget g ''min_order_success_rate'' JNull of
                JNull \<Rightarrow> Inr []
              | v \<Rightarrow> rbind (float_or v 0) (\<lambda>need.
                  Inr (if success_rate + 1 / 10 ^ 12 < need then [MinSuccessNotMet success_rate need] else [])))
              (\<lambda>b2. Inr (b1 @ b2 = [], b1 @ b2))))"

definition audit_event :: "(string, string) dict \<Rightarrow> policy_config \<Rightarrow> string \<Rightarrow> string \<Rightarrow> payload \<Rightarrow> payload" where
  "audit_event env cfg now_text event_type extra = fold (\<lambda>(k, v) d. dset d k v) extra
     [(''event'', JStr event_type), (''timestamp'', JStr now_text),
      (''configured_stage'', JStr (stage_value (current_stage cfg))),
      (''effective_stage'', JStr (stage_value (effective_stage env cfg))),
      (''kill_switch_active'', JBool (is_kill_switch_active env cfg)),
      (''kill_switch_env_var'', JStr (kill_switch_env_var cfg))]"

section \<open>Properties\<close>

lemma reject_simps [simp]: "reject rule st msg d \<noteq> None"
  by (simp add: reject_def)

text \<open>C13: The environment kill-switch is absolute for real brokers: while it is on, every order of a
  broker other than the paper broker is rejected, whatever the stage, the limits and the order; a
  paper order is then judged under the paper stage (or stays blocked under read-only).\<close>

theorem kill_switch_blocks_real_orders:
  assumes "is_kill_switch_active env cfg"
  shows "(of_broker_type f \<noteq> ''paper'' \<longrightarrow> check_order env cfg f \<noteq> None)
    \<and> effective_stage env cfg \<in> {READ_ONLY, PAPER_SIM}"
  using assms by (simp add: check_order_def effective_stage_def Let_def)

theorem kill_switch_blocks_real_orders_witness:
  "is_kill_switch_active [(''EZ_LIVE_QMT_KILL_SWITCH'', '' On '')] (default_staircase\<lparr>current_stage := FULL_CAPITAL\<rparr>)
   \<and> check_order [(''EZ_LIVE_QMT_KILL_SWITCH'', '' On '')] (default_staircase\<lparr>current_stage := FULL_CAPITAL\<rparr>)
       \<lparr>of_symbol = ''A'', of_side = ''buy'', of_notional = 1, of_position_value = 0, of_total_exposure = 0,
        of_day_notional = 0, of_broker_type = ''qmt''\<rparr> \<noteq> None"
proof -
  have a: "is_kill_switch_active [(''EZ_LIVE_QMT_KILL_SWITCH'', '' On '')] (default_staircase\<lparr>current_stage := FULL_CAPITAL\<rparr>)"
    by code_simp
  then show ?thesis using kill_switch_blocks_real_orders [OF a] by simp
qed

text \<open>What passes the capital policy is within the limits of the effective stage: the broker fits
  the stage, the symbol is whitelisted, the day's notional stays under the daily cap, and a buy keeps
  the position value and the gross exposure under their caps.\<close>

theorem check_order_sound:
  assumes "check_order env cfg f = None"
    and "map_of (stage_limits_of cfg) (effective_stage env cfg) = Some lm"
  shows "effective_stage env cfg \<noteq> READ_ONLY
    \<and> (effective_stage env cfg = PAPER_SIM \<longrightarrow> of_broker_type f = ''paper'')
    \<and> (case allowed_symbols lm of Some xs \<Rightarrow> JStr (of_symbol f) \<in> set xs | None \<Rightarrow> True)
    \<and> of_day_notional f + of_notional f \<le> max_capital_per_day lm + 1 / 10 ^ 9
    \<and> (str_lower (of_side f) = ''buy'' \<longrightarrow>
         of_position_value f + of_notional f \<le> max_position_value_per_symbol lm + 1 / 10 ^ 9
         \<and> of_total_exposure f + of_notional f \<le> max_total_gross_exposure lm + 1 / 10 ^ 9)"
proof -
  have stage: "effective_stage env cfg \<noteq> READ_ONLY"
    "effective_stage env cfg = PAPER_SIM \<longrightarrow> of_broker_type f = ''paper''"
    and lims: "check_limits lm (effective_stage env cfg) f = None"
    using assms by (auto simp: check_order_def Let_def split: if_splits)
  have "(case allowed_symbols lm of Some xs \<Rightarrow> JStr (of_symbol f) \<in> set xs | None \<Rightarrow> True)"
    and "of_day_notional f + of_notional f \<le> max_capital_per_day lm + 1 / 10 ^ 9"
    and "str_lower (of_side f) = ''buy'' \<longrightarrow>
         of_position_value f + of_notional f \<le> max_position_value_per_symbol lm + 1 / 10 ^ 9
         \<and> of_total_exposure f + of_notional f \<le> max_total_gross_exposure lm + 1 / 10 ^ 9"
    using lims unfolding check_limits_def Let_def
    by (simp_all add: not_less split: if_splits option.splits)
  then show ?thesis using stage by blast
qed

definition small_cfg :: policy_config where
  "small_cfg = default_staircase\<lparr>current_stage := SMALL_WHITELIST\<rparr>"

definition small_buy :: "flt \<Rightarrow> order_facts" where
  "small_buy n = \<lparr>of_symbol = ''A'', of_side = ''Buy'', of_notional = n, of_position_value = 5000,
     of_total_exposure = 60000, of_day_notional = 20000, of_broker_type = ''qmt''\<rparr>"

theorem check_order_sound_witness:
  "check_order [] small_cfg (small_buy 10000) = None
   \<and> of_position_value (small_buy 10000) + of_notional (small_buy 10000) \<le> 20000 + 1 / 10 ^ 9
   \<and> check_order [] small_cfg (small_buy 16000) \<noteq> None"
proof -
  have e: "effective_stage [] small_cfg = SMALL_WHITELIST" by code_simp
  have l: "map_of (stage_limits_of small_cfg) (effective_stage [] small_cfg) = Some (limits 50000 20000 100000 None)"
    by (simp add: e) (simp add: small_cfg_def default_staircase_def)
  have n: "check_order [] small_cfg (small_buy 10000) = None" by code_simp
  have b: "str_lower (of_side (small_buy 10000)) = ''buy''" by code_simp
  have "check_order [] small_cfg (small_buy 16000) \<noteq> None" by code_simp
  with check_order_sound [OF n l] n b show ?thesis by (simp add: limits_def)
qed

text \<open>A stage opens only through its gate: under the default staircase a stage change to a
  real-capital stage is eligible exactly when the drift-free days and the order success rate reach
  that stage's thresholds, and the blockers are empty exactly when it is eligible.\<close>

theorem stage_gate_exact:
  assumes "map_of (entry_gates cfg) target = Some (gate days rate)" and "0 \<le> rate"
  shows "\<exists>bs. check_stage_transition_eligible cfg target drift ok
      = Inr (days \<le> drift \<and> rate \<le> ok + 1 / 10 ^ 12, bs)
    \<and> (bs = [] \<longleftrightarrow> days \<le> drift \<and> rate \<le> ok + 1 / 10 ^ 12)"
  using assms
  by (auto simp: check_stage_transition_eligible_def gate_def jget_def dget_or_def int_or_def float_or_def)

theorem stage_gate_exact_witness:
  "map_of (entry_gates default_staircase) FULL_CAPITAL = Some (gate 20 (98 / 100))
   \<and> (\<exists>bs. check_stage_transition_eligible default_staircase FULL_CAPITAL 20 (97 / 100) = Inr (False, bs) \<and> bs \<noteq> [])"
proof -
  have m: "map_of (entry_gates default_staircase) FULL_CAPITAL = Some (gate 20 (98 / 100))"
    by (simp add: default_staircase_def)
  show ?thesis using stage_gate_exact [OF m, of 20 "97 / 100"] m by auto
qed

end
