(* ===== verification/Risk.thy ===== *)
theory Risk
  imports Order_Events Live_Utils Capital_Policy "HOL-Library.Sublist"
begin

text \<open>
  \<open>ez/live/risk.py\<close>: the pre-trade risk engine.  Orders are screened one after the other against the
  holdings that the accepted ones before them would leave; the capital policy runs first, then the
  configured caps.  The locale \<open>order_screen\<close> is the contract of such a sequential screen.
\<close>

section \<open>Configuration and data\<close>

record risk_config =
  rk_kill_switch :: bool
  rk_max_order_notional :: "flt option"
  rk_max_position_weight :: "flt option"
  rk_max_daily_turnover :: "flt option"
  rk_max_concentration :: "flt option"
  rk_max_gross_exposure :: "flt option"
  rk_runtime_allocation_cap :: "flt option"

definition risk_config_from_params :: "payload \<Rightarrow> risk_config res" where
  "risk_config_from_params params =
     rbind (positive_or_none (jget params ''max_order_notional'' JNull)) (\<lambda>n.
     rbind (positive_or_none (jget params ''max_position_weight'' JNull)) (\<lambda>w.
     rbind (positive_or_none (jget params ''max_daily_turnover'' JNull)) (\<lambda>t.
     rbind (positive_or_none (jget params ''max_concentration'' JNull)) (\<lambda>c.
     rbind (positive_or_none (jget params ''max_gross_exposure'' JNull)) (\<lambda>g.
     rbind (fraction_or_none (jget params ''runtime_allocation_cap'' JNull)) (\<lambda>a.
       Inr \<lparr>rk_kill_switch = truthy (jget params ''kill_switch'' (JBool False)),
         rk_max_order_notional = n, rk_max_position_weight = w, rk_max_daily_turnover = t,
         rk_max_concentration = c, rk_max_gross_exposure = g, rk_runtime_allocation_cap = a\<rparr>))))))"

record risk_failure =
  rf_code :: string
  rf_rule :: string
  rf_message :: string
  rf_details :: payload

record rejected_order =
  rj_order :: order
  rj_failure :: risk_failure

record risk_decision =
  rd_accepted :: "order list"
  rd_rejected :: "rejected_order list"
  rd_events :: "payload list"

definition failure :: "string \<Rightarrow> string \<Rightarrow> payload \<Rightarrow> risk_failure" where
  "failure rule msg details = \<lparr>rf_code = ''risk:'' @ rule, rf_rule = rule, rf_message = msg, rf_details = details\<rparr>"

section \<open>Projection and metrics\<close>

definition apply_delta :: "(string, int) dict \<Rightarrow> string \<Rightarrow> int \<Rightarrow> (string, int) dict" where
  "apply_delta h symb delta = (let n = dget_or h symb 0 + delta in
     if 0 < n then dset h symb n else dpop h symb)"

record portfolio_metrics =
  pm_gross_exposure :: flt
  pm_max_weight :: flt
  pm_max_weight_symbol :: string
  pm_weights :: "(string, flt) dict"

text \<open>\<open>max(weights, key=weights.get, default="")\<close>: the first key of greatest weight.\<close>

definition arg_max_weight :: "(string, flt) dict \<Rightarrow> string" where
  "arg_max_weight ws = (case ws of [] \<Rightarrow> []
     | (k, w) # rest \<Rightarrow> fst (fold (\<lambda>(k, w) (bk, bw). if bw < w then (k, w) else (bk, bw)) rest (k, w)))"

definition portfolio_metrics :: "(string, int) dict \<Rightarrow> (string, flt) dict \<Rightarrow> flt \<Rightarrow> portfolio_metrics" where
  "portfolio_metrics h prices equity =
     (if equity \<le> 0
      then \<lparr>pm_gross_exposure = 0, pm_max_weight = 0, pm_max_weight_symbol = [], pm_weights = []\<rparr>
      else let ws = filter (\<lambda>(s, w). 0 < w)
             (map (\<lambda>(s, n). (s, of_int n * dget_or prices s 0 / equity))
               (filter (\<lambda>(s, n). 0 < n \<and> 0 < dget_or prices s 0) h));
             best = arg_max_weight ws
        in \<lparr>pm_gross_exposure = sum_list (map snd ws), pm_max_weight = dget_or ws best 0,
            pm_max_weight_symbol = best, pm_weights = ws\<rparr>)"

section \<open>The checks\<close>

definition reject_failure ::
  "risk_config \<Rightarrow> order \<Rightarrow> flt \<Rightarrow> flt \<Rightarrow> flt \<Rightarrow> flt \<Rightarrow> portfolio_metrics \<Rightarrow> risk_failure option" where
  "reject_failure cfg ord price notional equity cumulative m =
     (let above = (\<lambda>x cap. case cap of Some c \<Rightarrow> c + 1 / 10 ^ 9 < x | None \<Rightarrow> False);
          capj = (\<lambda>cap. JFloat (case cap of Some c \<Rightarrow> c | None \<Rightarrow> 0));
          symbol_weight = dget_or (pm_weights m) (o_symbol ord) 0
      in if rk_kill_switch cfg
         then Some (failure ''kill_switch'' ''Kill switch is active; all new orders are blocked.'' [])
         else if above notional (rk_max_order_notional cfg)
         then Some (failure ''max_order_notional'' ''Order notional exceeds the configured cap.''
           [(''order_notional'', JFloat notional), (''max_order_notional'', capj (rk_max_order_notional cfg))])
         else if 0 < equity \<and> above (cumulative + notional)
             (map_option (\<lambda>t. equity * t) (rk_max_daily_turnover cfg))
         then Some (failure ''max_daily_turnover'' ''Projected daily turnover would exceed the configured limit.''
           [(''projected_turnover'', JFloat ((cumulative + notional) / equity)),
            (''max_daily_turnover'', capj (rk_max_daily_turnover cfg))])
         else if price \<le> 0 \<or> equity \<le> 0 then None
         else if o_side ord = ''buy'' \<and> above symbol_weight (rk_max_position_weight cfg)
         then Some (failure ''max_position_weight''
           ''Projected position weight exceeds the configured per-symbol limit.''
           [(''projected_symbol_weight'', JFloat symbol_weight),
            (''max_position_weight'', capj (rk_max_position_weight cfg))])
         else if above (pm_max_weight m) (rk_max_concentration cfg)
         then Some (failure ''max_concentration''
           ''Projected portfolio concentration exceeds the configured cap.''
           [(''projected_max_weight'', JFloat (pm_max_weight m)),
            (''max_concentration'', capj (rk_max_concentration cfg)),
            (''max_weight_symbol'', JStr (pm_max_weight_symbol m))])
         else if o_side ord = ''buy'' \<and> above (pm_gross_exposure m) (rk_max_gross_exposure cfg)
         then Some (failure ''max_gross_exposure''
           ''Projected gross exposure exceeds the configured leverage cap.''
           [(''projected_gross_exposure'', JFloat (pm_gross_exposure m)),
            (''max_gross_exposure'', capj (rk_max_gross_exposure cfg))])
         else None)"

text \<open>The capital policy, its engine being the environment and a configuration, on the holdings before
  the order.\<close>

definition gross_value :: "(string, int) dict \<Rightarrow> (string, flt) dict \<Rightarrow> flt" where
  "gross_value h prices = sum_list (map (\<lambda>(s, n).
     if n \<le> 0 \<or> dget_or prices s 0 \<le> 0 then 0 else of_int n * dget_or prices s 0) h)"

definition capital_facts ::
  "string \<Rightarrow> order \<Rightarrow> flt \<Rightarrow> flt \<Rightarrow> (string, int) dict \<Rightarrow> flt \<Rightarrow> (string, flt) dict \<Rightarrow> order_facts" where
  "capital_facts broker_type ord price notional projected cumulative prices =
     \<lparr>of_symbol = o_symbol ord, of_side = o_side ord, of_notional = notional,
      of_position_value = of_int (dget_or projected (o_symbol ord) 0) * price,
      of_total_exposure = gross_value projected prices, of_day_notional = cumulative,
      of_broker_type = broker_type\<rparr>"

definition capital_policy_failure ::
  "((string, string) dict \<times> policy_config) option \<Rightarrow> string \<Rightarrow> order \<Rightarrow> flt \<Rightarrow> flt
    \<Rightarrow> (string, int) dict \<Rightarrow> flt \<Rightarrow> (string, flt) dict \<Rightarrow> risk_failure option" where
  "capital_policy_failure policy broker_type ord price notional projected cumulative prices =
     (case policy of
        None \<Rightarrow> None
      | Some (env, pc) \<Rightarrow>
          (case check_order env pc
             (capital_facts broker_type ord price notional projected cumulative prices) of
             None \<Rightarrow> None
           | Some r \<Rightarrow> Some \<lparr>rf_code = ''risk:capital_stage_'' @ stage_value (rr_stage r) @ ''_'' @ rr_rule r,
               rf_rule = rr_rule r, rf_message = rr_message r, rf_details = rr_details r\<rparr>))"

section \<open>The engine\<close>

text \<open>What the screening loop threads besides its outputs.\<close>

record screen_state =
  sc_projected :: "(string, int) dict"
  sc_cumulative :: flt

text \<open>The fixed arguments of one evaluation.\<close>

record risk_setup =
  rs_config :: risk_config
  rs_policy :: "((string, string) dict \<times> policy_config) option"
  rs_broker_type :: string
  rs_prices :: "(string, flt) dict"
  rs_equity :: flt

definition order_price :: "risk_setup \<Rightarrow> order \<Rightarrow> flt" where
  "order_price u ord = dget_or (rs_prices u) (o_symbol ord) 0"

definition order_notional :: "risk_setup \<Rightarrow> order \<Rightarrow> flt" where
  "order_notional u ord = of_int (o_shares ord) * order_price u ord"

definition order_delta :: "order \<Rightarrow> int" where
  "order_delta ord = (if o_side ord = ''buy'' then o_shares ord else - o_shares ord)"

definition risk_verdict :: "risk_setup \<Rightarrow> screen_state \<Rightarrow> order \<Rightarrow> risk_failure option" where
  "risk_verdict u s ord =
     (let price = order_price u ord; notional = order_notional u ord;
          after = apply_delta (sc_projected s) (o_symbol ord) (order_delta ord);
          metrics = portfolio_metrics after (rs_prices u) (rs_equity u)
      in case capital_policy_failure (rs_policy u) (rs_broker_type u) ord price notional
            (sc_projected s) (sc_cumulative s) (rs_prices u) of
           Some f \<Rightarrow> Some f
         | None \<Rightarrow> reject_failure (rs_config u) ord price notional (rs_equity u) (sc_cumulative s) metrics)"

definition risk_commit :: "risk_setup \<Rightarrow> screen_state \<Rightarrow> order \<Rightarrow> screen_state" where
  "risk_commit u s ord =
     \<lparr>sc_projected = apply_delta (sc_projected s) (o_symbol ord) (order_delta ord),
      sc_cumulative = sc_cumulative s + order_notional u ord\<rparr>"

definition reject_event :: "date \<Rightarrow> risk_setup \<Rightarrow> order \<Rightarrow> risk_failure \<Rightarrow> payload" where
  "reject_event business_date u ord f =
     [(''date'', JStr (isoformat business_date)), (''event'', JStr ''pretrade_reject''),
      (''rule'', JStr (rf_rule f)), (''reason'', JStr (rf_code f)), (''message'', JStr (rf_message f)),
      (''symbol'', JStr (o_symbol ord)), (''side'', JStr (o_side ord)), (''shares'', JInt (o_shares ord)),
      (''notional'', JFloat (order_notional u ord)), (''details'', JObj (rf_details f))]"

fun screen_orders :: "date \<Rightarrow> risk_setup \<Rightarrow> screen_state \<Rightarrow> order list \<Rightarrow> risk_decision" where
  "screen_orders bd u s [] = \<lparr>rd_accepted = [], rd_rejected = [], rd_events = []\<rparr>"
| "screen_orders bd u s (ord # ords) =
     (case risk_verdict u s ord of
        Some f \<Rightarrow> (let d = screen_orders bd u s ords in
          \<lparr>rd_accepted = rd_accepted d, rd_rejected = \<lparr>rj_order = ord, rj_failure = f\<rparr> # rd_rejected d,
           rd_events = reject_event bd u ord f # rd_events d\<rparr>)
      | None \<Rightarrow> (let d = screen_orders bd u (risk_commit u s ord) ords in
          d\<lparr>rd_accepted := ord # rd_accepted d\<rparr>))"

definition evaluate_orders :: "date \<Rightarrow> risk_setup \<Rightarrow> order list \<Rightarrow> (string, int) dict \<Rightarrow> risk_decision" where
  "evaluate_orders bd u orders hold =
     screen_orders bd u \<lparr>sc_projected = hold, sc_cumulative = 0\<rparr> orders"

section \<open>The contract of a sequential screen\<close>

text \<open>
  A screen judges each order in the state the accepted orders before it left.  Whatever every admitted
  order preserves holds of the final state, and the screen only ever drops orders.
\<close>

locale order_screen =
  fixes verdict :: "'s \<Rightarrow> 'o \<Rightarrow> 'f option"
    and commit :: "'s \<Rightarrow> 'o \<Rightarrow> 's"
    and ok :: "'o \<Rightarrow> bool"
    and inv :: "'s \<Rightarrow> bool"
  assumes admitted_inv: "ok x \<Longrightarrow> inv s \<Longrightarrow> verdict s x = None \<Longrightarrow> inv (commit s x)"
begin

fun run :: "'s \<Rightarrow> 'o list \<Rightarrow> 'o list \<times> 's" where
  "run s [] = ([], s)"
| "run s (x # xs) = (if verdict s x = None
     then (x # fst (run (commit s x) xs), snd (run (commit s x) xs)) else run s xs)"

lemma run_inv: "inv s \<Longrightarrow> \<forall>x \<in> set xs. ok x \<Longrightarrow> inv (snd (run s xs))"
  by (induction xs arbitrary: s) (auto simp: admitted_inv)

lemma run_subseq: "subseq (fst (run s xs)) xs"
  by (induction xs arbitrary: s) auto

lemma run_final: "snd (run s xs) = foldl commit s (fst (run s xs))"
  by (induction xs arbitrary: s) auto

text \<open>Every accepted order was admitted in the state of the accepted prefix before it.\<close>

lemma run_admitted:
  "fst (run s xs) = ys @ x # zs \<Longrightarrow> verdict (foldl commit s ys) x = None"
proof (induction xs arbitrary: s ys)
  case (Cons a xs)
  show ?case
  proof (cases "verdict s a = None")
    case True
    have r: "a # fst (run (commit s a) xs) = ys @ x # zs"
      using Cons.prems True by simp
    show ?thesis
    proof (cases ys)
      case Nil
      then show ?thesis using r True by simp
    next
      case (Cons b ys')
      then show ?thesis using r Cons.IH [of "commit s a" ys'] by auto
    qed
  next
    case False
    then have "run s (a # xs) = run s xs" by (simp only: run.simps if_False)
    then show ?thesis using Cons.IH Cons.prems by (simp only:)
  qed
qed simp

end

section \<open>Exposure of a portfolio\<close>

definition exposure_term :: "(string, flt) dict \<Rightarrow> string \<Rightarrow> int \<Rightarrow> flt" where
  "exposure_term prices s n = (if n \<le> 0 \<or> dget_or prices s 0 \<le> 0 then 0 else of_int n * dget_or prices s 0)"

lemma exposure_term_nonneg [simp]: "0 \<le> exposure_term prices s n"
  by (simp add: exposure_term_def)

lemma exposure_term_mono: "n \<le> m \<Longrightarrow> exposure_term prices s n \<le> exposure_term prices s m"
  by (auto simp: exposure_term_def intro: mult_right_mono)

lemma gross_value_eq: "gross_value h prices = sum_list (map (\<lambda>(s, n). exposure_term prices s n) h)"
  by (simp add: gross_value_def exposure_term_def)

lemma held_or_zero:
  "(case map_of h s of None \<Rightarrow> 0 | Some v \<Rightarrow> exposure_term prices s v) = exposure_term prices s (dget_or h s 0)"
  by (simp add: dget_or_def exposure_term_def split: option.split)

lemma gross_value_delta:
  assumes "dict_ok h"
  shows "gross_value (apply_delta h s d) prices =
    gross_value h prices - exposure_term prices s (dget_or h s 0) + exposure_term prices s (dget_or h s 0 + d)"
proof (cases "0 < dget_or h s 0 + d")
  case True
  then show ?thesis
    using sum_list_dset [OF assms, of "exposure_term prices" s "dget_or h s 0 + d"]
    by (simp add: gross_value_eq apply_delta_def Let_def held_or_zero)
next
  case False
  then have "exposure_term prices s (dget_or h s 0 + d) = 0" by (simp add: exposure_term_def)
  then show ?thesis
    using False sum_list_dpop [OF assms, of "exposure_term prices" s]
    by (simp add: gross_value_eq apply_delta_def Let_def held_or_zero)
qed

lemma apply_delta_ok [simp]: "dict_ok h \<Longrightarrow> dict_ok (apply_delta h s d)"
  by (simp add: apply_delta_def Let_def)

lemma apply_delta_get:
  "dget_or (apply_delta h s d) s' 0 = (if s' = s then max (dget_or h s 0 + d) 0 else dget_or h s' 0)"
  by (simp add: apply_delta_def Let_def dict_simps)

text \<open>A sale never raises the exposure.\<close>

lemma gross_value_sell: "dict_ok h \<Longrightarrow> d \<le> 0 \<Longrightarrow> gross_value (apply_delta h s d) prices \<le> gross_value h prices"
  using exposure_term_mono [of "dget_or h s 0 + d" "dget_or h s 0" prices s]
  by (simp add: gross_value_delta)

text \<open>The metrics in terms of the exposure.\<close>

lemma metrics_weights:
  assumes "0 < equity"
  shows "pm_weights (portfolio_metrics h prices equity) =
    map (\<lambda>(s, n). (s, of_int n * dget_or prices s 0 / equity)) (filter (\<lambda>(s, n). 0 < n \<and> 0 < dget_or prices s 0) h)"
proof -
  let ?ws = "map (\<lambda>(s, n). (s, of_int n * dget_or prices s 0 / equity))
    (filter (\<lambda>(s, n). 0 < n \<and> 0 < dget_or prices s 0) h)"
  have "filter (\<lambda>(s, w). 0 < w) ?ws = ?ws"
    using assms by (auto simp: filter_id_conv)
  then show ?thesis using assms by (simp add: portfolio_metrics_def Let_def)
qed

lemma metrics_gross:
  assumes "0 < equity"
  shows "pm_gross_exposure (portfolio_metrics h prices equity) = gross_value h prices / equity"
proof -
  have "pm_gross_exposure (portfolio_metrics h prices equity) =
      sum_list (map snd (pm_weights (portfolio_metrics h prices equity)))"
    using assms by (simp add: portfolio_metrics_def Let_def)
  also have "\<dots> = gross_value h prices / equity"
    using assms unfolding metrics_weights [OF assms] gross_value_eq
    by (induction h) (auto simp: exposure_term_def add_divide_distrib not_le split: if_splits)
  finally show ?thesis .
qed

lemma metrics_weight_of:
  assumes "0 < equity" and "dict_ok h"
  shows "dget_or (pm_weights (portfolio_metrics h prices equity)) s 0 =
    exposure_term prices s (dget_or h s 0) / equity"
    unfolding metrics_weights [OF assms(1)] dget_or_def [of "map _ _"] dget_or_def [of h] map_of_comprehension [OF assms(2)]
    by (cases "map_of h s") (auto simp: exposure_term_def)

lemma arg_max_in:
  assumes "ws \<noteq> []"
  shows "\<exists>w. (arg_max_weight ws, w) \<in> set ws \<and> (\<forall>(k, v) \<in> set ws. v \<le> w)"
proof -
  obtain k0 w0 rest where ws: "ws = (k0, w0) # rest" using assms by (cases ws) auto
  define f where "f = (\<lambda>(k :: string, w) (bk, bw). if bw < w then (k, w) else (bk, bw :: flt))"
  have "\<exists>w. fold f rest b = (fst (fold f rest b), w) \<and> (fst (fold f rest b), w) \<in> insert b (set rest)
      \<and> snd b \<le> w \<and> (\<forall>(k, v) \<in> set rest. v \<le> w)" for b
  proof (induction rest arbitrary: b)
    case Nil
    then show ?case by (cases b) auto
  next
    case (Cons a rest)
    from Cons.IH [of "f a b"] obtain w where w: "fold f rest (f a b) = (fst (fold f rest (f a b)), w)"
      "(fst (fold f rest (f a b)), w) \<in> insert (f a b) (set rest)" "snd (f a b) \<le> w" "\<forall>(k, v) \<in> set rest. v \<le> w"
      by blast
    have "f a b \<in> {a, b}" "snd a \<le> snd (f a b)" "snd b \<le> snd (f a b)"
      by (auto simp: f_def split: prod.splits)
    then show ?case using w by (intro exI [of _ w]) (auto split: prod.splits)
  qed
  from this [of "(k0, w0)"] show ?thesis
    by (auto simp: ws arg_max_weight_def f_def [symmetric])
qed

lemma metrics_max:
  assumes "0 < equity" and "dict_ok h"
  shows "exposure_term prices s (dget_or h s 0) / equity \<le> pm_max_weight (portfolio_metrics h prices equity)"
proof -
  let ?m = "portfolio_metrics h prices equity"
  have mx: "pm_max_weight ?m = dget_or (pm_weights ?m) (arg_max_weight (pm_weights ?m)) 0"
    using assms(1) by (simp add: portfolio_metrics_def Let_def)
  show ?thesis
  proof (cases "pm_weights ?m = []")
    case True
    then show ?thesis using metrics_weight_of [OF assms, where s = s and prices = prices] assms(1) by (auto simp: mx)
  next
    case False
    then obtain w where w: "(arg_max_weight (pm_weights ?m), w) \<in> set (pm_weights ?m)"
      "\<forall>(k, v) \<in> set (pm_weights ?m). v \<le> w" using arg_max_in by blast
    have ok: "dict_ok (pm_weights ?m)"
      using assms(2) unfolding metrics_weights [OF assms(1)] by simp
    then have eq: "pm_max_weight ?m = w"
      using dict_ok_map_of_iff [OF ok, THEN iffD2, OF w(1)] by (simp add: mx dget_or_def)
    have "0 \<le> w"
      using w(1) assms(1) unfolding metrics_weights [OF assms(1)] by auto
    then have "dget_or (pm_weights ?m) s 0 \<le> w"
      using w(2) by (auto simp: dget_or_def split: option.split dest!: map_of_SomeD)
    then show ?thesis using metrics_weight_of [OF assms, where s = s and prices = prices] eq by simp
  qed
qed

section \<open>The engine is such a screen\<close>

definition order_ok :: "order \<Rightarrow> bool" where
  "order_ok ord \<longleftrightarrow> 0 < o_shares ord \<and> (o_side ord = ''buy'' \<or> o_side ord = ''sell'')"

text \<open>The caps as an invariant of the screening state, relative to the starting holdings.\<close>

definition caps_inv :: "risk_setup \<Rightarrow> (string, int) dict \<Rightarrow> screen_state \<Rightarrow> bool" where
  "caps_inv u h0 s \<longleftrightarrow> dict_ok (sc_projected s) \<and> (0 < rs_equity u \<longrightarrow>
     (\<forall>t. rk_max_daily_turnover (rs_config u) = Some t \<longrightarrow> 0 \<le> t \<longrightarrow>
        sc_cumulative s \<le> rs_equity u * t + 1 / 10 ^ 9)
     \<and> (\<forall>c. rk_max_gross_exposure (rs_config u) = Some c \<longrightarrow>
        gross_value (sc_projected s) (rs_prices u) / rs_equity u
          \<le> max (gross_value h0 (rs_prices u) / rs_equity u) (c + 1 / 10 ^ 9))
     \<and> (\<forall>c k. rk_max_position_weight (rs_config u) = Some c \<longrightarrow>
        exposure_term (rs_prices u) k (dget_or (sc_projected s) k 0) / rs_equity u
          \<le> max (exposure_term (rs_prices u) k (dget_or h0 k 0) / rs_equity u) (c + 1 / 10 ^ 9)))"

lemma reject_failure_None:
  assumes "reject_failure cfg ord price notional equity cumulative m = None"
  shows "\<not> rk_kill_switch cfg"
    "rk_max_order_notional cfg = Some c \<Longrightarrow> notional \<le> c + 1 / 10 ^ 9"
    "rk_max_daily_turnover cfg = Some t \<Longrightarrow> 0 < equity \<Longrightarrow> cumulative + notional \<le> equity * t + 1 / 10 ^ 9"
    "rk_max_position_weight cfg = Some c \<Longrightarrow> 0 < price \<Longrightarrow> 0 < equity \<Longrightarrow> o_side ord = ''buy'' \<Longrightarrow>
       dget_or (pm_weights m) (o_symbol ord) 0 \<le> c + 1 / 10 ^ 9"
    "rk_max_concentration cfg = Some c \<Longrightarrow> 0 < price \<Longrightarrow> 0 < equity \<Longrightarrow> pm_max_weight m \<le> c + 1 / 10 ^ 9"
    "rk_max_gross_exposure cfg = Some c \<Longrightarrow> 0 < price \<Longrightarrow> 0 < equity \<Longrightarrow> o_side ord = ''buy'' \<Longrightarrow>
       pm_gross_exposure m \<le> c + 1 / 10 ^ 9"
  using assms by (simp_all add: reject_failure_def Let_def not_less split: if_splits)

lemma verdict_None:
  assumes "risk_verdict u s ord = None"
  shows "capital_policy_failure (rs_policy u) (rs_broker_type u) ord (order_price u ord) (order_notional u ord)
      (sc_projected s) (sc_cumulative s) (rs_prices u) = None"
    "reject_failure (rs_config u) ord (order_price u ord) (order_notional u ord) (rs_equity u) (sc_cumulative s)
      (portfolio_metrics (sc_projected (risk_commit u s ord)) (rs_prices u) (rs_equity u)) = None"
  using assms by (auto simp: risk_verdict_def Let_def risk_commit_def split: option.splits)

lemma commit_projected [simp]:
  "sc_projected (risk_commit u s ord) = apply_delta (sc_projected s) (o_symbol ord) (order_delta ord)"
  "sc_cumulative (risk_commit u s ord) = sc_cumulative s + order_notional u ord"
  by (simp_all add: risk_commit_def)

lemma unpriced_term: "order_price u ord \<le> 0 \<Longrightarrow> exposure_term (rs_prices u) (o_symbol ord) n = 0"
  by (simp add: exposure_term_def order_price_def)

lemma commit_caps:
  assumes ok: "order_ok ord" and inv: "caps_inv u h0 s" and adm: "risk_verdict u s ord = None"
  shows "caps_inv u h0 (risk_commit u s ord)"
proof -
  let ?p = "sc_projected s" and ?s = "o_symbol ord" and ?d = "order_delta ord"
  let ?pr = "rs_prices u" and ?e = "rs_equity u"
  note rf = reject_failure_None [OF verdict_None(2) [OF adm]]
  have d: "dict_ok ?p" using inv by (simp add: caps_inv_def)
  have ge: "gross_value (apply_delta ?p ?s ?d) ?pr / ?e \<le> max (gross_value h0 ?pr / ?e) (c + 1 / 10 ^ 9)"
    if e: "0 < ?e" and c: "rk_max_gross_exposure (rs_config u) = Some c" for c
  proof (cases "o_side ord = ''buy'' \<and> 0 < order_price u ord")
    case True
    then show ?thesis using rf(6) [OF c _ e] metrics_gross [OF e] by (simp add: max.coboundedI2)
  next
    case False
    have "gross_value (apply_delta ?p ?s ?d) ?pr \<le> gross_value ?p ?pr"
    proof (cases "o_side ord = ''buy''")
      case True
      then show ?thesis using False unpriced_term [of u ord] by (simp add: gross_value_delta [OF d])
    next
      case False
      then show ?thesis using ok by (intro gross_value_sell [OF d]) (simp add: order_delta_def order_ok_def)
    qed
    then have "gross_value (apply_delta ?p ?s ?d) ?pr / ?e \<le> gross_value ?p ?pr / ?e"
      using e by (simp add: divide_right_mono)
    also have "\<dots> \<le> max (gross_value h0 ?pr / ?e) (c + 1 / 10 ^ 9)"
      using inv e c by (simp add: caps_inv_def)
    finally show ?thesis .
  qed
  have we: "exposure_term ?pr k (dget_or (apply_delta ?p ?s ?d) k 0) / ?e
      \<le> max (exposure_term ?pr k (dget_or h0 k 0) / ?e) (c + 1 / 10 ^ 9)"
    if e: "0 < ?e" and c: "rk_max_position_weight (rs_config u) = Some c" for c k
  proof (cases "k = ?s \<and> o_side ord = ''buy'' \<and> 0 < order_price u ord")
    case True
    then show ?thesis
      using rf(4) [OF c _ e] metrics_weight_of [OF e apply_delta_ok [OF d]]
      by (simp add: max.coboundedI2)
  next
    case False
    have "exposure_term ?pr k (dget_or (apply_delta ?p ?s ?d) k 0) \<le> exposure_term ?pr k (dget_or ?p k 0)"
    proof (cases "k = ?s \<and> order_price u ord \<le> 0")
      case True
      then show ?thesis using unpriced_term by simp
    next
      case False2: False
      have "max (dget_or ?p ?s 0 + ?d) 0 \<le> max (dget_or ?p ?s 0) 0" if "k = ?s"
        using that False False2 ok by (auto simp: order_delta_def order_ok_def)
      then have "dget_or (apply_delta ?p ?s ?d) k 0 \<le> max (dget_or ?p k 0) 0"
        by (auto simp: apply_delta_get)
      moreover have "exposure_term ?pr k (max (dget_or ?p k 0) 0) = exposure_term ?pr k (dget_or ?p k 0)"
        by (simp add: exposure_term_def max_def)
      ultimately show ?thesis using exposure_term_mono by metis
    qed
    then have "exposure_term ?pr k (dget_or (apply_delta ?p ?s ?d) k 0) / ?e
        \<le> exposure_term ?pr k (dget_or ?p k 0) / ?e"
      using e by (simp add: divide_right_mono)
    also have "\<dots> \<le> max (exposure_term ?pr k (dget_or h0 k 0) / ?e) (c + 1 / 10 ^ 9)"
      using inv e c by (simp add: caps_inv_def)
    finally show ?thesis .
  qed
  show ?thesis using d ge we rf(3) by (simp add: caps_inv_def)
qed

interpretation risk_caps: order_screen "risk_verdict u" "risk_commit u" order_ok "caps_inv u h0" for u h0
  by unfold_locales (rule commit_caps)

lemma screen_orders_run:
  "rd_accepted (screen_orders bd u s ords) = fst (risk_caps.run u s ords)"
  by (induction bd u s ords rule: screen_orders.induct) (auto simp: Let_def split: option.splits)

lemma screen_partition:
  "mset (map rj_order (rd_rejected (screen_orders bd u s ords))) + mset (rd_accepted (screen_orders bd u s ords))
    = mset ords"
  by (induction bd u s ords rule: screen_orders.induct) (auto simp: Let_def split: option.splits)

lemma screen_rejected_subseq: "subseq (map rj_order (rd_rejected (screen_orders bd u s ords))) ords"
  by (induction bd u s ords rule: screen_orders.induct) (auto simp: Let_def split: option.splits)

lemma screen_events:
  "rd_events (screen_orders bd u s ords) =
    map (\<lambda>r. reject_event bd u (rj_order r) (rj_failure r)) (rd_rejected (screen_orders bd u s ords))"
  by (induction bd u s ords rule: screen_orders.induct) (auto simp: Let_def split: option.splits)

text \<open>The caps of the capital stage, in the same way.\<close>

definition stage_inv :: "risk_setup \<Rightarrow> (string, int) dict \<Rightarrow> screen_state \<Rightarrow> bool" where
  "stage_inv u h0 s \<longleftrightarrow> dict_ok (sc_projected s) \<and>
     (\<forall>env pc lm. rs_policy u = Some (env, pc) \<longrightarrow>
        map_of (stage_limits_of pc) (effective_stage env pc) = Some lm \<longrightarrow>
        sc_cumulative s \<le> max 0 (max_capital_per_day lm + 1 / 10 ^ 9)
        \<and> gross_value (sc_projected s) (rs_prices u)
            \<le> max (gross_value h0 (rs_prices u)) (max_total_gross_exposure lm + 1 / 10 ^ 9))"

lemma buy_exposure_growth:
  assumes "0 < n"
  shows "exposure_term prices s (m + n) - exposure_term prices s m \<le> max 0 (of_int n * dget_or prices s 0)"
proof (cases "0 < dget_or prices s 0")
  case True
  let ?p = "dget_or prices s 0"
  have "of_int m * ?p \<le> 0" if "m \<le> 0" using that True by (simp add: mult_nonpos_nonneg)
  then have "exposure_term prices s (m + n) - exposure_term prices s m \<le> of_int n * ?p"
    using assms True by (auto simp: exposure_term_def distrib_right mult_nonneg_nonneg)
  then show ?thesis by simp
next
  case False
  then show ?thesis by (simp add: exposure_term_def)
qed

lemma commit_stage:
  assumes ok: "order_ok ord" and inv: "stage_inv u h0 s" and adm: "risk_verdict u s ord = None"
  shows "stage_inv u h0 (risk_commit u s ord)"
proof -
  let ?p = "sc_projected s" and ?s = "o_symbol ord" and ?d = "order_delta ord" and ?pr = "rs_prices u"
  have d: "dict_ok ?p" using inv by (simp add: stage_inv_def)
  have lower: "str_lower ''buy'' = ''buy''" by code_simp
  have "sc_cumulative s + order_notional u ord \<le> max 0 (max_capital_per_day lm + 1 / 10 ^ 9)
      \<and> gross_value (apply_delta ?p ?s ?d) ?pr \<le> max (gross_value h0 ?pr) (max_total_gross_exposure lm + 1 / 10 ^ 9)"
    if pol: "rs_policy u = Some (env, pc)"
      and lm: "map_of (stage_limits_of pc) (effective_stage env pc) = Some lm" for env pc lm
  proof -
    have "check_order env pc (capital_facts (rs_broker_type u) ord (order_price u ord) (order_notional u ord)
        ?p (sc_cumulative s) ?pr) = None"
      using verdict_None(1) [OF adm] pol by (simp add: capital_policy_failure_def split: option.splits)
    from check_order_sound [OF this lm]
    have day: "sc_cumulative s + order_notional u ord \<le> max_capital_per_day lm + 1 / 10 ^ 9"
      and buy: "o_side ord = ''buy'' \<Longrightarrow>
        gross_value ?p ?pr + order_notional u ord \<le> max_total_gross_exposure lm + 1 / 10 ^ 9"
      by (simp_all add: lower capital_facts_def)
    have old: "gross_value ?p ?pr \<le> max (gross_value h0 ?pr) (max_total_gross_exposure lm + 1 / 10 ^ 9)"
      using inv pol lm by (simp add: stage_inv_def)
    have "gross_value (apply_delta ?p ?s ?d) ?pr \<le> max (gross_value h0 ?pr) (max_total_gross_exposure lm + 1 / 10 ^ 9)"
    proof (cases "o_side ord = ''buy''")
      case True
      then have "?d = o_shares ord" "0 < o_shares ord" using ok by (auto simp: order_delta_def order_ok_def)
      then have "gross_value (apply_delta ?p ?s ?d) ?pr \<le> gross_value ?p ?pr + max 0 (order_notional u ord)"
        using buy_exposure_growth [of "o_shares ord" ?pr ?s "dget_or ?p ?s 0"]
        by (simp add: gross_value_delta [OF d] order_notional_def order_price_def)
      then show ?thesis using buy [OF True] old by (auto simp: max_def split: if_splits)
    next
      case False
      then have "?d \<le> 0" using ok by (auto simp: order_delta_def order_ok_def)
      then show ?thesis using gross_value_sell [OF d] old order_trans by blast
    qed
    with day show ?thesis by simp
  qed
  then show ?thesis using d by (simp add: stage_inv_def)
qed

interpretation stage_caps: order_screen "risk_verdict u" "risk_commit u" order_ok "stage_inv u h0" for u h0
  by unfold_locales (rule commit_stage)

section \<open>Properties\<close>

definition projected_by :: "risk_setup \<Rightarrow> (string, int) dict \<Rightarrow> order list \<Rightarrow> screen_state" where
  "projected_by u h accepted = foldl (risk_commit u) \<lparr>sc_projected = h, sc_cumulative = 0\<rparr> accepted"

lemma projected_by_cumulative:
  "sc_cumulative (projected_by u h accepted) = sum_list (map (order_notional u) accepted)"
proof -
  have "sc_cumulative (foldl (risk_commit u) s accepted) = sc_cumulative s + sum_list (map (order_notional u) accepted)" for s
    by (induction accepted arbitrary: s) auto
  then show ?thesis by (simp add: projected_by_def)
qed

text \<open>Risk screening loses nothing and invents nothing: every order is either accepted or rejected,
  never both, both lists keep the order of submission, and the audit trail has exactly one event per
  rejected order, in the same order.\<close>

theorem risk_partitions_orders:
  "mset (map rj_order (rd_rejected (evaluate_orders bd u orders h))) + mset (rd_accepted (evaluate_orders bd u orders h))
     = mset orders
   \<and> subseq (rd_accepted (evaluate_orders bd u orders h)) orders
   \<and> subseq (map rj_order (rd_rejected (evaluate_orders bd u orders h))) orders
   \<and> rd_events (evaluate_orders bd u orders h) =
       map (\<lambda>r. reject_event bd u (rj_order r) (rj_failure r)) (rd_rejected (evaluate_orders bd u orders h))"
proof -
  let ?s0 = "\<lparr>sc_projected = h, sc_cumulative = 0\<rparr>"
  have "subseq (rd_accepted (screen_orders bd u ?s0 orders)) orders"
    unfolding screen_orders_run by (rule risk_caps.run_subseq)
  then show ?thesis
    unfolding evaluate_orders_def
    using screen_partition [of bd u ?s0 orders] screen_rejected_subseq [of bd u ?s0 orders]
      screen_events [of bd u ?s0 orders] by blast
qed


text \<open>The capital stage bounds the whole batch: with a capital policy in force, the notional of all
  accepted orders together stays under the stage's daily cap, and executing them leaves the gross
  exposure no higher than before or under the stage's exposure cap.\<close>

theorem capital_stage_respected:
  assumes "dict_ok h" and "\<forall>ord \<in> set orders. order_ok ord" and "rs_policy u = Some (env, pc)"
    and "map_of (stage_limits_of pc) (effective_stage env pc) = Some lm"
  shows "let acc = rd_accepted (evaluate_orders bd u orders h) in
    sum_list (map (order_notional u) acc) \<le> max 0 (max_capital_per_day lm + 1 / 10 ^ 9)
    \<and> gross_value (sc_projected (projected_by u h acc)) (rs_prices u)
        \<le> max (gross_value h (rs_prices u)) (max_total_gross_exposure lm + 1 / 10 ^ 9)"
proof -
  let ?s0 = "\<lparr>sc_projected = h, sc_cumulative = 0\<rparr>"
  define acc where "acc = rd_accepted (evaluate_orders bd u orders h)"
  have acc: "acc = fst (stage_caps.run u ?s0 orders)"
    by (simp add: acc_def evaluate_orders_def screen_orders_run)
  have final: "snd (stage_caps.run u ?s0 orders) = projected_by u h acc"
    by (simp add: acc projected_by_def stage_caps.run_final)
  have "stage_inv u h ?s0" using assms(1) by (auto simp: stage_inv_def)
  then have "stage_inv u h (projected_by u h acc)"
    using stage_caps.run_inv assms(2) final by metis
  then show ?thesis
    using assms(3,4) by (simp add: stage_inv_def projected_by_cumulative Let_def acc_def [symmetric])
qed

text \<open>Either kill-switch stops everything: with the configuration's kill-switch on, or with the
  environment kill-switch on and a real broker under a capital policy, no order is accepted.\<close>

theorem kill_switch_accepts_nothing:
  assumes "rk_kill_switch (rs_config u)
    \<or> (\<exists>env pc. rs_policy u = Some (env, pc) \<and> is_kill_switch_active env pc \<and> rs_broker_type u \<noteq> ''paper'')"
  shows "rd_accepted (evaluate_orders bd u orders h) = []
    \<and> length (rd_rejected (evaluate_orders bd u orders h)) = length orders"
proof -
  have v: "risk_verdict u s ord \<noteq> None" for s ord
  proof
    assume adm: "risk_verdict u s ord = None"
    note rf = reject_failure_None(1) [OF verdict_None(2) [OF adm]]
    with assms obtain env pc where p: "rs_policy u = Some (env, pc)" "is_kill_switch_active env pc"
      "rs_broker_type u \<noteq> ''paper''" by blast
    have "check_order env pc f \<noteq> None" if "of_broker_type f \<noteq> ''paper''" for f
      using p(2) that by (simp add: check_order_def Let_def)
    moreover have "\<exists>f. of_broker_type f = rs_broker_type u \<and> check_order env pc f = None"
      using verdict_None(1) [OF adm] p(1)
      by (intro exI [of _ "capital_facts (rs_broker_type u) ord (order_price u ord) (order_notional u ord)
            (sc_projected s) (sc_cumulative s) (rs_prices u)"])
         (simp add: capital_policy_failure_def capital_facts_def split: option.splits)
    ultimately show False using p(3) by metis
  qed
  have "rd_accepted (screen_orders bd u s ords) = []
      \<and> length (rd_rejected (screen_orders bd u s ords)) = length ords" for s ords
  proof (induction ords arbitrary: s)
    case (Cons a ords)
    obtain f where "risk_verdict u s a = Some f" using v [of s a] by auto
    then show ?case using Cons by (simp add: Let_def)
  qed simp
  then show ?thesis by (simp add: evaluate_orders_def)
qed

definition risk_sample :: risk_setup where
  "risk_sample = \<lparr>rs_config = \<lparr>rk_kill_switch = False, rk_max_order_notional = None,
       rk_max_position_weight = Some (3 / 10), rk_max_daily_turnover = Some (1 / 2),
       rk_max_concentration = None, rk_max_gross_exposure = Some (8 / 10), rk_runtime_allocation_cap = None\<rparr>,
     rs_policy = Some ([], small_cfg), rs_broker_type = ''qmt'', rs_prices = [(''A'', 10), (''B'', 20)],
     rs_equity = 50000\<rparr>"

definition risk_order :: "string \<Rightarrow> int \<Rightarrow> order" where
  "risk_order symb n = \<lparr>o_order_id = symb, o_client_order_id = symb, o_deployment_id = ''d'',
     o_symbol = symb, o_side = ''buy'', o_shares = n, o_business_date = Date 2024 1 2, o_requested_shares = 0,
     o_remaining_shares = 0, o_status = NEW, o_rejected_reason = [], o_rejected_message = [],
     o_rejected_details = []\<rparr>"

definition risk_orders :: "order list" where
  "risk_orders = [risk_order ''A'' 500, risk_order ''B'' 5000, risk_order ''B'' 500]"

lemma risk_sample_accepts:
  "map o_shares (rd_accepted (evaluate_orders (Date 2024 1 2) risk_sample risk_orders [(''A'', 300)])) = [500, 500]"
  by code_simp


theorem capital_stage_respected_witness:
  "let acc = rd_accepted (evaluate_orders (Date 2024 1 2) risk_sample risk_orders [(''A'', 300)]) in
     length acc = 2 \<and> sum_list (map (order_notional risk_sample) acc) \<le> 50000 + 1 / 10 ^ 9"
proof -
  have "length (rd_accepted (evaluate_orders (Date 2024 1 2) risk_sample risk_orders [(''A'', 300)])) = 2"
    using risk_sample_accepts by (metis length_map length_Cons list.size(3) numeral_2_eq_2)
  moreover have d: "dict_ok [(''A'', 300)]" "\<forall>ord \<in> set risk_orders. order_ok ord"
    by (simp_all add: dict_ok_def risk_orders_def risk_order_def order_ok_def)
  have e: "effective_stage [] small_cfg = SMALL_WHITELIST" by code_simp
  have p: "rs_policy risk_sample = Some ([], small_cfg)" by (simp add: risk_sample_def)
  have l: "map_of (stage_limits_of small_cfg) (effective_stage [] small_cfg) = Some (limits 50000 20000 100000 None)"
    by (simp add: e) (simp add: small_cfg_def default_staircase_def)
  have "max 0 (max_capital_per_day (limits 50000 20000 100000 None) + 1 / 10 ^ 9) = 50000 + 1 / 10 ^ 9"
    by (simp add: limits_def)
  with capital_stage_respected [OF d p l, of "Date 2024 1 2"]
  have "sum_list (map (order_notional risk_sample) (rd_accepted (evaluate_orders (Date 2024 1 2) risk_sample
      risk_orders [(''A'', 300)]))) \<le> 50000 + 1 / 10 ^ 9"
    unfolding Let_def by (simp only:)
  ultimately show ?thesis unfolding Let_def by blast
qed

theorem kill_switch_accepts_nothing_witness:
  "is_kill_switch_active [(''EZ_LIVE_QMT_KILL_SWITCH'', ''on'')] small_cfg
   \<and> rd_accepted (evaluate_orders (Date 2024 1 2)
       (risk_sample\<lparr>rs_policy := Some ([(''EZ_LIVE_QMT_KILL_SWITCH'', ''on'')], small_cfg)\<rparr>) risk_orders []) = []"
proof -
  let ?u = "risk_sample\<lparr>rs_policy := Some ([(''EZ_LIVE_QMT_KILL_SWITCH'', ''on'')], small_cfg)\<rparr>"
  have k: "is_kill_switch_active [(''EZ_LIVE_QMT_KILL_SWITCH'', ''on'')] small_cfg" by code_simp
  then have "\<exists>env pc. rs_policy ?u = Some (env, pc) \<and> is_kill_switch_active env pc \<and> rs_broker_type ?u \<noteq> ''paper''"
    by (simp add: risk_sample_def)
  then show ?thesis using k kill_switch_accepts_nothing [of ?u "Date 2024 1 2" risk_orders "[]"] by blast
qed

end
