(* ===== verification/Execution.thy ===== *)
theory Execution
  imports PyValue "HOL-Library.Sublist"
begin

text \<open>
  \<open>ez/portfolio/execution.py\<close>: the share-level trade execution that back-test, paper and live share.
  Target weights become lot-rounded share targets; then one pass over the symbols, sells before buys,
  decides each leg (\<open>plan_leg\<close>: no bar, T+1, price limits, slippage, costs, affordability) and books
  it (\<open>book_leg\<close>).  The compiled kernel behind the fast path is a parameter.
\<close>

section \<open>Data\<close>

definition eps_fund :: flt where
  "eps_fund = 1 / 100"

record cost_model =
  buy_commission_rate :: flt
  sell_commission_rate :: flt
  min_commission :: flt
  stamp_tax_rate :: flt
  slippage_rate :: flt

definition default_cost_model :: cost_model where
  "default_cost_model = \<lparr>buy_commission_rate = 8 / 100000, sell_commission_rate = 8 / 100000,
     min_commission = 0, stamp_tax_rate = 5 / 10000, slippage_rate = 1 / 1000\<rparr>"

record trade_result =
  tr_symbol :: string
  tr_side :: string
  tr_shares :: int
  tr_price :: flt
  tr_amount :: flt
  tr_commission :: flt
  tr_stamp_tax :: flt
  tr_cost :: flt

text \<open>The arguments that stay fixed during a call, and the state the loop threads: the holdings and
  \<open>sold_today\<close> that the caller sees mutated, the cash, and the trades so far.\<close>

record exec_inputs =
  xi_equity :: flt
  xi_prices :: "(string, flt) dict"
  xi_raw_close :: "(string, flt) dict"
  xi_prev_raw_close :: "(string, flt) dict"
  xi_has_bar :: "string list"
  xi_costs :: cost_model
  xi_lot_size :: int
  xi_limit_pct :: flt
  xi_t_plus_1 :: bool

record exec_state =
  xs_holdings :: "(string, int) dict"
  xs_cash :: flt
  xs_sold :: "string list"
  xs_trades :: "trade_result list"
  xs_volume :: flt

section \<open>Pricing and sizing\<close>

definition compute_commission :: "flt \<Rightarrow> flt \<Rightarrow> flt \<Rightarrow> flt" where
  "compute_commission amount rate minimum = (if 0 < \<bar>amount\<bar> then max (\<bar>amount\<bar> * rate) minimum else 0)"

fun target_shares_of :: "flt \<Rightarrow> (string, flt) dict \<Rightarrow> int \<Rightarrow> (string, flt) dict \<Rightarrow> (string, int) dict res" where
  "target_shares_of equity prices lot [] = Inr []"
| "target_shares_of equity prices lot ((symb, w) # ws) =
     (case map_of prices symb of
        None \<Rightarrow> target_shares_of equity prices lot ws
      | Some p \<Rightarrow>
          if p \<le> 0 then target_shares_of equity prices lot ws
          else rbind (lot_round (equity * w / p) lot) (\<lambda>n.
            rbind (target_shares_of equity prices lot ws) (\<lambda>ts. Inr ((symb, n) # ts))))"

definition leg_order :: "(string, int) dict \<Rightarrow> (string, int) dict \<Rightarrow> string list" where
  "leg_order hold targets = (let all_syms = sorted_union (dkeys hold) (dkeys targets) in
     filter (\<lambda>s. dget_or targets s 0 < dget_or hold s 0) all_syms
     @ filter (\<lambda>s. dget_or targets s 0 > dget_or hold s 0) all_syms)"

text \<open>The price limit test: a buy at limit-up or a sell at limit-down is blocked.\<close>

definition limit_blocked :: "exec_inputs \<Rightarrow> string \<Rightarrow> int \<Rightarrow> bool" where
  "limit_blocked inp symb delta =
     (if 0 < xi_limit_pct inp then
        (case (map_of (xi_raw_close inp) symb, map_of (xi_prev_raw_close inp) symb) of
           (Some rc, Some prev_rc) \<Rightarrow>
             (let change = (if 0 < prev_rc then (rc - prev_rc) / prev_rc else 0) in
              (0 < delta \<and> xi_limit_pct inp - 1 / 1000000 \<le> change)
              \<or> (delta < 0 \<and> change \<le> - xi_limit_pct inp + 1 / 1000000))
         | _ \<Rightarrow> False)
      else False)"

definition exec_price :: "cost_model \<Rightarrow> flt \<Rightarrow> int \<Rightarrow> flt" where
  "exec_price cm base delta =
     (if 0 < delta then base * (1 + slippage_rate cm) else base * (1 - slippage_rate cm))"

definition buy_trade :: "cost_model \<Rightarrow> string \<Rightarrow> flt \<Rightarrow> int \<Rightarrow> trade_result" where
  "buy_trade cm symb price delta =
     (let amount = of_int \<bar>delta\<bar> * price;
          comm = compute_commission amount (buy_commission_rate cm) (min_commission cm)
      in \<lparr>tr_symbol = symb, tr_side = ''buy'', tr_shares = \<bar>delta\<bar>, tr_price = price, tr_amount = amount,
          tr_commission = comm, tr_stamp_tax = 0, tr_cost = comm\<rparr>)"

definition sell_trade :: "cost_model \<Rightarrow> string \<Rightarrow> flt \<Rightarrow> int \<Rightarrow> trade_result" where
  "sell_trade cm symb price delta =
     (let amount = of_int \<bar>delta\<bar> * price;
          comm = compute_commission amount (sell_commission_rate cm) (min_commission cm);
          stamp = amount * stamp_tax_rate cm
      in \<lparr>tr_symbol = symb, tr_side = ''sell'', tr_shares = \<bar>delta\<bar>, tr_price = price, tr_amount = amount,
          tr_commission = comm, tr_stamp_tax = stamp, tr_cost = comm + stamp\<rparr>)"

text \<open>The total a buy takes from the cash account.\<close>

definition buy_total :: "trade_result \<Rightarrow> flt" where
  "buy_total t = tr_amount t + tr_cost t"

text \<open>A buy that is too expensive is cut down to what the cash affords, in whole lots.\<close>

definition size_buy :: "cost_model \<Rightarrow> int \<Rightarrow> flt \<Rightarrow> string \<Rightarrow> flt \<Rightarrow> int \<Rightarrow> trade_result option res" where
  "size_buy cm lot csh symb price delta =
     (let full = buy_trade cm symb price delta in
      if csh < buy_total full then
        (let min_cost = max (min_commission cm) 0 in
         rbind (if 0 < price then py_div (csh - min_cost) (price * (1 + buy_commission_rate cm)) else Inr 0)
           (\<lambda>affordable.
             if affordable \<le> 0 then Inr None
             else rbind (lot_round affordable lot) (\<lambda>d.
               if d \<le> 0 then Inr None
               else let t = buy_trade cm symb price d in
                 if csh + eps_fund < buy_total t then Inr None else Inr (Some t))))
      else if csh + eps_fund < buy_total full then Inr None
      else Inr (Some full))"

section \<open>One leg\<close>

definition plan_leg :: "exec_inputs \<Rightarrow> (string, int) dict \<Rightarrow> string \<Rightarrow> exec_state \<Rightarrow> trade_result option res" where
  "plan_leg inp targets symb st =
     (let delta = dget_or targets symb 0 - dget_or (xs_holdings st) symb 0 in
      if delta = 0 then Inr None
      else case map_of (xi_prices inp) symb of
        None \<Rightarrow> Inr None
      | Some base \<Rightarrow>
          if symb \<notin> set (xi_has_bar inp) then Inr None
          else if xi_t_plus_1 inp \<and> 0 < delta \<and> symb \<in> set (xs_sold st) then Inr None
          else if limit_blocked inp symb delta then Inr None
          else let price = exec_price (xi_costs inp) base delta in
            if 0 < delta
            then size_buy (xi_costs inp) (xi_lot_size inp) (xs_cash st) symb price delta
            else Inr (Some (sell_trade (xi_costs inp) symb price delta)))"

definition book_leg :: "trade_result \<Rightarrow> exec_state \<Rightarrow> exec_state" where
  "book_leg t st =
     (let symb = tr_symbol t; cur = dget_or (xs_holdings st) symb 0;
          st' = (if tr_side t = ''buy''
            then st\<lparr>xs_cash := xs_cash st - buy_total t,
                    xs_holdings := dset (xs_holdings st) symb (cur + tr_shares t)\<rparr>
            else st\<lparr>xs_cash := xs_cash st + (tr_amount t - tr_cost t),
                    xs_sold := List.insert symb (xs_sold st),
                    xs_holdings := (if cur - tr_shares t = 0 then dpop (xs_holdings st) symb
                      else dset (xs_holdings st) symb (cur - tr_shares t))\<rparr>)
      in st'\<lparr>xs_trades := xs_trades st' @ [t], xs_volume := xs_volume st' + tr_amount t\<rparr>)"

definition exec_leg :: "exec_inputs \<Rightarrow> (string, int) dict \<Rightarrow> string \<Rightarrow> exec_state \<Rightarrow> exec_state res" where
  "exec_leg inp targets symb st = rbind (plan_leg inp targets symb st) (\<lambda>d.
     Inr (case d of None \<Rightarrow> st | Some t \<Rightarrow> book_leg t st))"

section \<open>The Python path\<close>

definition execute_python ::
  "exec_inputs \<Rightarrow> (string, flt) dict \<Rightarrow> (string, int) dict \<Rightarrow> flt \<Rightarrow> string list \<Rightarrow> exec_state res" where
  "execute_python inp target_weights hold csh sold =
     rbind (target_shares_of (xi_equity inp) (xi_prices inp) (xi_lot_size inp) target_weights) (\<lambda>targets.
       rfold (exec_leg inp targets) (leg_order hold targets)
         \<lparr>xs_holdings = hold, xs_cash = csh, xs_sold = sold, xs_trades = [], xs_volume = 0\<rparr>)"

section \<open>The compiled path\<close>

text \<open>
  The kernel takes target weights, prices, previous raw closes and holdings as arrays over the sorted
  symbols, then cash, the cost rates, the lot size and the price limit; it returns the new holdings
  array, the cash and the trades as (symbol index, side, shares, price, cost).  \<open>None\<close> is an exception.
\<close>

record kernel_result =
  kr_holdings :: "int list"
  kr_cash :: flt
  kr_trades :: "(nat \<times> int \<times> int \<times> flt \<times> flt) list"

type_synonym kernel =
  "flt list \<Rightarrow> flt list \<Rightarrow> flt list \<Rightarrow> int list \<Rightarrow> flt \<Rightarrow> flt \<Rightarrow> flt \<Rightarrow> flt \<Rightarrow> flt \<Rightarrow> int \<Rightarrow> flt
    \<Rightarrow> kernel_result option"

definition cpp_symbols :: "exec_inputs \<Rightarrow> (string, flt) dict \<Rightarrow> (string, int) dict \<Rightarrow> string list" where
  "cpp_symbols inp target_weights hold =
     filter (\<lambda>s. case map_of (xi_prices inp) s of Some p \<Rightarrow> 0 < p | None \<Rightarrow> False)
       (sorted_union (dkeys hold) (dkeys target_weights @ dkeys (xi_prices inp)))"

text \<open>A symbol that may not trade (sold today, no bar) is given its current weight as target.\<close>

definition cpp_weight :: "exec_inputs \<Rightarrow> (string, flt) dict \<Rightarrow> (string, int) dict \<Rightarrow> string list \<Rightarrow> string \<Rightarrow> flt" where
  "cpp_weight inp target_weights hold sold s =
     (let w = dget_or target_weights s 0;
          kept = (if 0 < xi_equity inp
            then of_int (dget_or hold s 0) * dget_or (xi_prices inp) s 0 / xi_equity inp else 0);
          w1 = (if xi_t_plus_1 inp \<and> 0 < w \<and> s \<in> set sold then kept else w)
      in if s \<notin> set (xi_has_bar inp) then kept else w1)"

text \<open>Unmarshalling: the first index out of range raises, with the sells before it already recorded in
  \<open>sold_today\<close>.  The left result is the state an exception leaves behind.\<close>

fun cpp_trades ::
  "cost_model \<Rightarrow> string list \<Rightarrow> (nat \<times> int \<times> int \<times> flt \<times> flt) list \<Rightarrow> exec_state \<Rightarrow> exec_state + exec_state" where
  "cpp_trades cm syms [] st = Inr st"
| "cpp_trades cm syms ((i, side, sh, pr, cst) # ts) st =
     (if length syms \<le> i then Inl st
      else let symb = syms ! i; sell = (side \<noteq> 0); amt = of_int sh * pr;
               stamp = (if sell then amt * stamp_tax_rate cm else 0);
               comm = (if sell then cst - stamp else cst)
           in cpp_trades cm syms ts
             (st\<lparr>xs_sold := (if sell then List.insert symb (xs_sold st) else xs_sold st),
                xs_trades := xs_trades st @ [\<lparr>tr_symbol = symb, tr_side = (if sell then ''sell'' else ''buy''),
                  tr_shares = sh, tr_price = pr, tr_amount = amt, tr_commission = max comm 0,
                  tr_stamp_tax = stamp, tr_cost = cst\<rparr>],
                xs_volume := xs_volume st + amt\<rparr>))"

fun cpp_holdings :: "string list \<Rightarrow> int list \<Rightarrow> exec_state \<Rightarrow> exec_state + exec_state" where
  "cpp_holdings [] ns st = Inr st"
| "cpp_holdings (s # ss) [] st = Inl st"
| "cpp_holdings (s # ss) (n # ns) st = cpp_holdings ss ns
     (st\<lparr>xs_holdings := (if 0 < n then dset (xs_holdings st) s n else dpop (xs_holdings st) s)\<rparr>)"

definition execute_cpp ::
  "kernel \<Rightarrow> exec_inputs \<Rightarrow> (string, flt) dict \<Rightarrow> (string, int) dict \<Rightarrow> flt \<Rightarrow> string list
    \<Rightarrow> exec_state + exec_state" where
  "execute_cpp kern inp target_weights hold csh sold =
     (let cm = xi_costs inp; syms = cpp_symbols inp target_weights hold;
          st = \<lparr>xs_holdings = hold, xs_cash = csh, xs_sold = sold, xs_trades = [], xs_volume = 0\<rparr>
      in if syms = [] then Inr st
         else case kern (map (cpp_weight inp target_weights hold sold) syms)
             (map (\<lambda>s. dget_or (xi_prices inp) s 0) syms)
             (map (\<lambda>s. if s \<in> set (xi_has_bar inp) then dget_or (xi_prev_raw_close inp) s 0 else 0) syms)
             (map (\<lambda>s. dget_or hold s 0) syms) csh (buy_commission_rate cm)
             (sell_commission_rate cm + stamp_tax_rate cm) (min_commission cm) (slippage_rate cm)
             (xi_lot_size inp) (xi_limit_pct inp) of
           None \<Rightarrow> Inl st
         | Some r \<Rightarrow> (case cpp_trades cm syms (kr_trades r) st of
               Inl st' \<Rightarrow> Inl st'
             | Inr st' \<Rightarrow> (case cpp_holdings syms (kr_holdings r) st' of
                 Inl st'' \<Rightarrow> Inl st''
               | Inr st'' \<Rightarrow> Inr (st''\<lparr>xs_cash := kr_cash r\<rparr>))))"

text \<open>Any exception of the fast path falls back to Python, on whatever the mutated holdings and
  \<open>sold_today\<close> then are.\<close>

definition execute_portfolio_trades ::
  "kernel option \<Rightarrow> exec_inputs \<Rightarrow> (string, flt) dict \<Rightarrow> (string, int) dict \<Rightarrow> flt \<Rightarrow> string list
    \<Rightarrow> exec_state res" where
  "execute_portfolio_trades kern inp target_weights hold csh sold =
     (case kern of
        Some k \<Rightarrow>
          if xi_limit_pct inp \<le> 0
          then (case execute_cpp k inp target_weights hold csh sold of
                  Inr st \<Rightarrow> Inr st
                | Inl st \<Rightarrow> execute_python inp target_weights (xs_holdings st) csh (xs_sold st))
          else execute_python inp target_weights hold csh sold
      | None \<Rightarrow> execute_python inp target_weights hold csh sold)"

section \<open>Trades as flows\<close>

definition share_flow :: "trade_result \<Rightarrow> int" where
  "share_flow t = (if tr_side t = ''buy'' then tr_shares t else - tr_shares t)"

definition cash_flow :: "trade_result \<Rightarrow> flt" where
  "cash_flow t = (if tr_side t = ''buy'' then - (tr_amount t + tr_cost t) else tr_amount t - tr_cost t)"

definition flow_of :: "string \<Rightarrow> trade_result list \<Rightarrow> int" where
  "flow_of symb ts = sum_list (map share_flow (filter (\<lambda>t. tr_symbol t = symb) ts))"

text \<open>The contract of one executed leg.\<close>

definition trade_ok :: "exec_inputs \<Rightarrow> trade_result \<Rightarrow> bool" where
  "trade_ok inp t \<longleftrightarrow>
     tr_side t \<in> {''buy'', ''sell''} \<and> 0 < tr_shares t
     \<and> tr_symbol t \<in> set (xi_has_bar inp) \<and> \<not> limit_blocked inp (tr_symbol t) (share_flow t)
     \<and> (\<exists>base. map_of (xi_prices inp) (tr_symbol t) = Some base
          \<and> tr_price t = exec_price (xi_costs inp) base (share_flow t))
     \<and> tr_amount t = of_int (tr_shares t) * tr_price t
     \<and> tr_cost t = tr_commission t + tr_stamp_tax t
     \<and> tr_commission t = compute_commission (tr_amount t)
         (if tr_side t = ''buy'' then buy_commission_rate (xi_costs inp) else sell_commission_rate (xi_costs inp))
         (min_commission (xi_costs inp))
     \<and> tr_stamp_tax t = (if tr_side t = ''buy'' then 0 else tr_amount t * stamp_tax_rate (xi_costs inp))"

lemma buy_trade_simps [simp]:
  "tr_symbol (buy_trade cm symb price d) = symb" "tr_side (buy_trade cm symb price d) = ''buy''"
  "tr_shares (buy_trade cm symb price d) = \<bar>d\<bar>" "tr_price (buy_trade cm symb price d) = price"
  "tr_amount (buy_trade cm symb price d) = of_int \<bar>d\<bar> * price"
  "tr_stamp_tax (buy_trade cm symb price d) = 0"
  "tr_commission (buy_trade cm symb price d) =
     compute_commission (of_int \<bar>d\<bar> * price) (buy_commission_rate cm) (min_commission cm)"
  "tr_cost (buy_trade cm symb price d) = tr_commission (buy_trade cm symb price d)"
  by (simp_all add: buy_trade_def Let_def)

lemma sell_trade_simps [simp]:
  "tr_symbol (sell_trade cm symb price d) = symb" "tr_side (sell_trade cm symb price d) = ''sell''"
  "tr_shares (sell_trade cm symb price d) = \<bar>d\<bar>" "tr_price (sell_trade cm symb price d) = price"
  "tr_amount (sell_trade cm symb price d) = of_int \<bar>d\<bar> * price"
  "tr_stamp_tax (sell_trade cm symb price d) = of_int \<bar>d\<bar> * price * stamp_tax_rate cm"
  "tr_commission (sell_trade cm symb price d) =
     compute_commission (of_int \<bar>d\<bar> * price) (sell_commission_rate cm) (min_commission cm)"
  "tr_cost (sell_trade cm symb price d) =
     tr_commission (sell_trade cm symb price d) + tr_stamp_tax (sell_trade cm symb price d)"
  by (simp_all add: sell_trade_def Let_def)

lemma size_buy_cases:
  assumes "size_buy cm lot csh symb price delta = Inr (Some t)" and "0 < delta"
  obtains d where "t = buy_trade cm symb price d" "0 < d" "d = delta \<or> lot dvd d"
    "buy_total t \<le> csh + eps_fund"
proof (cases "csh < buy_total (buy_trade cm symb price delta)")
  case True
  with assms(1) obtain a d where d: "t = buy_trade cm symb price d" "0 < d" "lot_round a lot = Inr d"
      "buy_total t \<le> csh + eps_fund"
    by (auto simp: size_buy_def Let_def split: if_splits)
  show thesis using that [OF d(1,2) _ d(4)] lot_round_dvd [OF d(3)] by blast
next
  case False
  with assms show thesis by (intro that [of delta]) (auto simp: size_buy_def Let_def split: if_splits)
qed

lemma plan_leg_cases:
  assumes "plan_leg inp targets symb st = Inr (Some t)"
  shows "tr_symbol t = symb" "trade_ok inp t"
    "tr_side t = ''buy'' \<Longrightarrow> dget_or (xs_holdings st) symb 0 < dget_or targets symb 0
       \<and> buy_total t \<le> xs_cash st + eps_fund \<and> (xi_t_plus_1 inp \<longrightarrow> symb \<notin> set (xs_sold st))"
    "tr_side t \<noteq> ''buy'' \<Longrightarrow> dget_or targets symb 0 < dget_or (xs_holdings st) symb 0
       \<and> dget_or (xs_holdings st) symb 0 - tr_shares t = dget_or targets symb 0"
proof -
  define delta where "delta = dget_or targets symb 0 - dget_or (xs_holdings st) symb 0"
  obtain base where base: "map_of (xi_prices inp) symb = Some base" and d0: "delta \<noteq> 0"
    and bar: "symb \<in> set (xi_has_bar inp)" and lim: "\<not> limit_blocked inp symb delta"
    and t1: "\<not> (xi_t_plus_1 inp \<and> 0 < delta \<and> symb \<in> set (xs_sold st))"
    and leg: "(if 0 < delta then size_buy (xi_costs inp) (xi_lot_size inp) (xs_cash st) symb
        (exec_price (xi_costs inp) base delta) delta
      else Inr (Some (sell_trade (xi_costs inp) symb (exec_price (xi_costs inp) base delta) delta))) = Inr (Some t)"
    using assms by (auto simp: plan_leg_def Let_def delta_def [symmetric] split: if_splits option.splits)
  have sgn: "limit_blocked inp symb x = limit_blocked inp symb delta"
    "exec_price cm b x = exec_price cm b delta" if "0 < x \<longleftrightarrow> 0 < delta" "x \<noteq> 0" for x cm b
    using that d0 by (auto simp: limit_blocked_def exec_price_def Let_def split: option.splits)
  consider (buy) d where "0 < delta" "t = buy_trade (xi_costs inp) symb (exec_price (xi_costs inp) base delta) d"
      "0 < d" "buy_total t \<le> xs_cash st + eps_fund"
    | (sell) "delta < 0" "t = sell_trade (xi_costs inp) symb (exec_price (xi_costs inp) base delta) delta"
    using leg d0 by (auto split: if_splits elim!: size_buy_cases)
  note c = this
  from c show "tr_symbol t = symb" by cases auto
  from c show "trade_ok inp t"
  proof cases
    case (buy d)
    then have "share_flow t = d" by (simp add: share_flow_def)
    then show ?thesis using buy base bar lim sgn [of d] by (simp add: trade_ok_def)
  next
    case sell
    then have "share_flow t = delta" by (simp add: share_flow_def)
    then show ?thesis using sell base bar lim by (simp add: trade_ok_def)
  qed
  from c show "tr_side t = ''buy'' \<Longrightarrow> dget_or (xs_holdings st) symb 0 < dget_or targets symb 0
       \<and> buy_total t \<le> xs_cash st + eps_fund \<and> (xi_t_plus_1 inp \<longrightarrow> symb \<notin> set (xs_sold st))"
    using t1 by cases (auto simp: delta_def)
  from c show "tr_side t \<noteq> ''buy'' \<Longrightarrow> dget_or targets symb 0 < dget_or (xs_holdings st) symb 0
       \<and> dget_or (xs_holdings st) symb 0 - tr_shares t = dget_or targets symb 0"
    by cases (auto simp: delta_def)
qed

section \<open>Running the legs\<close>

lemma book_leg_simps [simp]:
  "xs_trades (book_leg t st) = xs_trades st @ [t]"
  "xs_volume (book_leg t st) = xs_volume st + tr_amount t"
  "xs_cash (book_leg t st) = xs_cash st + cash_flow t"
  "xs_sold (book_leg t st) =
     (if tr_side t = ''buy'' then xs_sold st else List.insert (tr_symbol t) (xs_sold st))"
  by (simp_all add: book_leg_def Let_def cash_flow_def buy_total_def)

lemma book_leg_holdings:
  "dget_or (xs_holdings (book_leg t st)) s 0 =
    dget_or (xs_holdings st) s 0 + (if s = tr_symbol t then share_flow t else 0)"
  by (simp add: book_leg_def Let_def share_flow_def dict_simps)

lemma book_leg_dict_ok [simp]: "dict_ok (xs_holdings st) \<Longrightarrow> dict_ok (xs_holdings (book_leg t st))"
  by (simp add: book_leg_def Let_def)

text \<open>Every leg either leaves the state alone or books one admissible trade of its own symbol.\<close>

lemma exec_leg_cases:
  assumes "exec_leg inp targets symb st = Inr st'"
  obtains (skip) "plan_leg inp targets symb st = Inr None" "st' = st"
  | (trade) t where "plan_leg inp targets symb st = Inr (Some t)" "st' = book_leg t st"
proof -
  obtain d where d: "plan_leg inp targets symb st = Inr d"
      "st' = (case d of None \<Rightarrow> st | Some t \<Rightarrow> book_leg t st)"
    using assms by (auto simp: exec_leg_def)
  then show thesis using that by (cases d) auto
qed

lemma flow_of_append [simp]: "flow_of s (xs @ ys) = flow_of s xs + flow_of s ys"
  by (simp add: flow_of_def)

lemma flow_of_Nil [simp]: "flow_of s [] = 0"
  by (simp add: flow_of_def)

lemma flow_of_single [simp]: "flow_of s [t] = (if tr_symbol t = s then share_flow t else 0)"
  by (simp add: flow_of_def)

text \<open>The books balance: cash, holdings and volume are the starting ones plus the flows of the trades.\<close>

definition balanced :: "exec_inputs \<Rightarrow> (string, int) dict \<Rightarrow> flt \<Rightarrow> exec_state \<Rightarrow> bool" where
  "balanced inp hold csh st \<longleftrightarrow>
     xs_cash st = csh + sum_list (map cash_flow (xs_trades st))
     \<and> (\<forall>s. dget_or (xs_holdings st) s 0 = dget_or hold s 0 + flow_of s (xs_trades st))
     \<and> xs_volume st = sum_list (map tr_amount (xs_trades st))
     \<and> (\<forall>t \<in> set (xs_trades st). trade_ok inp t)"

definition start_state :: "(string, int) dict \<Rightarrow> flt \<Rightarrow> string list \<Rightarrow> exec_state" where
  "start_state hold csh sold = \<lparr>xs_holdings = hold, xs_cash = csh, xs_sold = sold, xs_trades = [], xs_volume = 0\<rparr>"

lemma start_state_simps [simp]:
  "xs_holdings (start_state h c d) = h" "xs_cash (start_state h c d) = c" "xs_sold (start_state h c d) = d"
  "xs_trades (start_state h c d) = []" "xs_volume (start_state h c d) = 0"
  by (simp_all add: start_state_def)

lemma balanced_start [simp]: "balanced inp h c (start_state h c d)"
  by (simp add: balanced_def)

lemma balanced_leg:
  assumes "exec_leg inp targets symb st = Inr st'" and "balanced inp h c st"
  shows "balanced inp h c st'"
  using assms(1)
proof (cases rule: exec_leg_cases)
  case (trade t)
  then show ?thesis
    using assms(2) plan_leg_cases(2) [OF trade(1)] by (auto simp: balanced_def book_leg_holdings)
qed (use assms(2) in simp)

lemma balanced_run:
  "rfold (exec_leg inp targets) legs (start_state h c d) = Inr st \<Longrightarrow> balanced inp h c st"
  by (erule rfold_invariant) (auto intro: balanced_leg)

lemma exec_leg_frame:
  assumes "exec_leg inp targets symb st = Inr st'" and "s \<noteq> symb"
  shows "dget_or (xs_holdings st') s 0 = dget_or (xs_holdings st) s 0"
  using assms(1)
proof (cases rule: exec_leg_cases)
  case (trade t)
  then show ?thesis using plan_leg_cases(1) [OF trade(1)] assms(2) by (simp add: book_leg_holdings)
qed simp

lemma run_frame:
  assumes "rfold (exec_leg inp targets) legs st = Inr st'" and "s \<notin> set legs"
  shows "dget_or (xs_holdings st') s 0 = dget_or (xs_holdings st) s 0"
  by (rule rfold_invariant [OF assms(1), where P = "\<lambda>t. dget_or (xs_holdings t) s 0 = dget_or (xs_holdings st) s 0"])
     (use exec_leg_frame assms(2) in \<open>auto, metis\<close>)

lemma subseq_distinct:
  assumes "subseq xs ys" and "distinct ys"
  shows "distinct xs"
  using assms
proof (induction rule: list_emb.induct)
  case (list_emb_Cons2 x y xs ys)
  then show ?case using list_emb_set [OF list_emb_Cons2.hyps(2), of x] by auto
qed auto

text \<open>Over legs of distinct symbols, each symbol's leg sees its starting holding.  A property of a
  trade that depends only on the holding of its symbol therefore holds of all the trades.\<close>

lemma run_trades:
  assumes "rfold (exec_leg inp targets) legs st = Inr st'" and "distinct legs"
  shows "\<exists>ts. xs_trades st' = xs_trades st @ ts \<and> subseq (map tr_symbol ts) legs
    \<and> (\<forall>t \<in> set ts. (tr_side t = ''buy'' \<longleftrightarrow>
           dget_or (xs_holdings st) (tr_symbol t) 0 < dget_or targets (tr_symbol t) 0)
        \<and> (tr_side t \<noteq> ''buy'' \<longrightarrow>
           dget_or (xs_holdings st) (tr_symbol t) 0 - tr_shares t = dget_or targets (tr_symbol t) 0))"
  using assms
proof (induction legs arbitrary: st)
  case Nil
  then show ?case by simp
next
  case (Cons symb legs)
  then obtain st1 where st1: "exec_leg inp targets symb st = Inr st1"
    and rest: "rfold (exec_leg inp targets) legs st1 = Inr st'" by auto
  define good where "good hh t \<longleftrightarrow> (tr_side t = ''buy'' \<longleftrightarrow>
           dget_or hh (tr_symbol t) 0 < dget_or targets (tr_symbol t) 0)
        \<and> (tr_side t \<noteq> ''buy'' \<longrightarrow>
           dget_or hh (tr_symbol t) 0 - tr_shares t = dget_or targets (tr_symbol t) 0)" for hh and t :: trade_result
  from Cons.IH [OF rest] Cons.prems(2) obtain ts where ts: "xs_trades st' = xs_trades st1 @ ts"
    and sub: "subseq (map tr_symbol ts) legs" and g: "\<forall>t \<in> set ts. good (xs_holdings st1) t"
    unfolding good_def by auto
  have "tr_symbol t \<noteq> symb" if "t \<in> set ts" for t
  proof -
    have "tr_symbol t \<in> set legs"
      using list_emb_set [OF sub, of "tr_symbol t"] that by auto
    then show ?thesis using Cons.prems(2) by auto
  qed
  then have g: "\<forall>t \<in> set ts. good (xs_holdings st) t"
    using g exec_leg_frame [OF st1] by (simp add: good_def)
  show ?case
    using st1
  proof (cases rule: exec_leg_cases)
    case skip
    then show ?thesis using ts sub g by (auto simp: good_def [symmetric])
  next
    case (trade t)
    have "good (xs_holdings st) t"
      using plan_leg_cases [OF trade(1)] by (cases "tr_side t = ''buy''") (auto simp: good_def)
    then show ?thesis
      using ts sub g trade plan_leg_cases(1) [OF trade(1)]
      by (intro exI [of _ "t # ts"]) (auto simp: good_def [symmetric])
  qed
qed

lemma leg_order_mem:
  "s \<in> set (leg_order hold targets) \<longleftrightarrow> dget_or targets s 0 \<noteq> dget_or hold s 0"
  by (auto simp: leg_order_def Let_def dget_or_def dest: map_of_in_keys split: option.splits)

lemma leg_order_distinct: "distinct (leg_order hold targets)"
  by (auto simp: leg_order_def Let_def)

text \<open>The legs are the sells, then the buys.\<close>

definition sell_legs :: "(string, int) dict \<Rightarrow> (string, int) dict \<Rightarrow> string list" where
  "sell_legs hold targets = filter (\<lambda>s. dget_or targets s 0 < dget_or hold s 0) (leg_order hold targets)"

definition buy_legs :: "(string, int) dict \<Rightarrow> (string, int) dict \<Rightarrow> string list" where
  "buy_legs hold targets = filter (\<lambda>s. dget_or hold s 0 < dget_or targets s 0) (leg_order hold targets)"

lemma leg_order_sells_buys: "leg_order hold targets = sell_legs hold targets @ buy_legs hold targets"
proof -
  have "filter P (filter Q xs @ filter R xs) = filter Q xs"
    if "\<And>x. P x = Q x" "\<And>x. R x \<Longrightarrow> \<not> Q x" for P Q R and xs :: "string list"
    using that by (induction xs) auto
  moreover have "filter P (filter Q xs @ filter R xs) = filter R xs"
    if "\<And>x. P x = R x" "\<And>x. R x \<Longrightarrow> \<not> Q x" for P Q R and xs :: "string list"
    using that by (induction xs) auto
  ultimately show ?thesis
    by (auto simp: sell_legs_def buy_legs_def leg_order_def Let_def)
qed

section \<open>Solvency\<close>

text \<open>Non-negative rates that never eat a whole sale, and positive prices.\<close>

definition costs_ok :: "cost_model \<Rightarrow> bool" where
  "costs_ok cm \<longleftrightarrow> 0 \<le> buy_commission_rate cm \<and> 0 \<le> sell_commission_rate cm \<and> 0 \<le> min_commission cm
     \<and> 0 \<le> stamp_tax_rate cm \<and> 0 \<le> slippage_rate cm \<and> slippage_rate cm \<le> 1
     \<and> sell_commission_rate cm + stamp_tax_rate cm \<le> 1"

definition prices_ok :: "(string, flt) dict \<Rightarrow> bool" where
  "prices_ok ps \<longleftrightarrow> (\<forall>s p. map_of ps s = Some p \<longrightarrow> 0 < p)"

text \<open>Cutting a buy down to the affordable lots really fits the cash, so the final guard of the code
  never fires on it.\<close>

lemma size_buy_fits:
  assumes "size_buy cm lot csh symb price delta = Inr (Some t)"
    and "0 \<le> buy_commission_rate cm" and "0 \<le> min_commission cm" and "0 < lot" and "0 < delta"
  shows "buy_total t \<le> csh"
proof (cases "csh < buy_total (buy_trade cm symb price delta)")
  case True
  define r m where "r = buy_commission_rate cm" and "m = min_commission cm"
  from True assms(1) obtain a d where p: "0 < price" and t: "t = buy_trade cm symb price d"
    and d: "0 < d" "lot_round a lot = Inr d" "0 < a"
    and a: "py_div (csh - max m 0) (price * (1 + r)) = Inr a"
    by (auto simp: size_buy_def Let_def r_def m_def split: if_splits)
  have m: "max m 0 = m" using assms(3) by (simp add: m_def)
  have r: "0 \<le> r" using assms(2) by (simp add: r_def)
  from a p r m have a_eq: "a * (price * (1 + r)) = csh - m"
    by (auto simp: py_div_def field_simps split: if_splits)
  have "of_int d \<le> a" using d assms(4) by (auto intro: lot_round_le)
  then have "of_int d * (price * (1 + r)) \<le> a * (price * (1 + r))"
    using p r by (intro mult_right_mono) auto
  then have le: "of_int d * price * (1 + r) \<le> csh - m" using a_eq by (simp add: mult.assoc)
  have pos: "0 < of_int d * price" using d p by simp
  have "of_int d * price \<le> of_int d * price * (1 + r)"
    using pos r by (simp add: distrib_left)
  then have "of_int d * price + max (of_int d * price * r) m \<le> csh"
    using le pos mult_nonneg_nonneg [OF less_imp_le [OF pos] r] assms(3) m_def
    by (simp add: max_def distrib_left)
  then show ?thesis
    using pos d by (simp add: t buy_total_def compute_commission_def r_def m_def)
next
  case False
  with assms(1) show ?thesis by (auto simp: size_buy_def Let_def split: if_splits)
qed

lemma plan_buy_fits:
  assumes "plan_leg inp targets symb st = Inr (Some t)" and "tr_side t = ''buy''"
    and "costs_ok (xi_costs inp)" and "0 < xi_lot_size inp"
  shows "buy_total t \<le> xs_cash st"
proof -
  obtain price delta where "size_buy (xi_costs inp) (xi_lot_size inp) (xs_cash st) symb price delta = Inr (Some t)"
    and "0 < delta"
    using assms(1,2) by (auto simp: plan_leg_def Let_def split: if_splits option.splits)
  from size_buy_fits [OF this(1) _ _ assms(4) this(2)] show ?thesis
    using assms(3) by (simp add: costs_ok_def)
qed

lemma commission_bound:
  "0 \<le> amount \<Longrightarrow> 0 \<le> rate \<Longrightarrow> 0 \<le> minimum \<Longrightarrow>
    0 \<le> compute_commission amount rate minimum \<and>
    compute_commission amount rate minimum \<le> amount * rate + minimum"
  by (auto simp: compute_commission_def max_def)

lemma sell_cash_flow:
  assumes "trade_ok inp t" and "tr_side t \<noteq> ''buy''" and "costs_ok (xi_costs inp)" and "prices_ok (xi_prices inp)"
  shows "- min_commission (xi_costs inp) \<le> cash_flow t"
proof -
  define cm where "cm = xi_costs inp"
  obtain base where base: "map_of (xi_prices inp) (tr_symbol t) = Some base"
    and price: "tr_price t = exec_price cm base (share_flow t)"
    using assms(1) by (auto simp: trade_ok_def cm_def)
  have "0 < base" using base assms(4) by (auto simp: prices_ok_def)
  then have "0 \<le> tr_price t"
    using price assms(3) by (auto simp: exec_price_def costs_ok_def cm_def intro!: mult_nonneg_nonneg)
  then have a: "0 \<le> tr_amount t" using assms(1) by (simp add: trade_ok_def)
  have c: "tr_cost t = compute_commission (tr_amount t) (sell_commission_rate cm) (min_commission cm)
      + tr_amount t * stamp_tax_rate cm"
    using assms(1,2) by (simp add: trade_ok_def cm_def)
  have "compute_commission (tr_amount t) (sell_commission_rate cm) (min_commission cm)
      \<le> tr_amount t * sell_commission_rate cm + min_commission cm"
    using commission_bound a assms(3) by (simp add: costs_ok_def cm_def)
  moreover have "tr_amount t * (sell_commission_rate cm + stamp_tax_rate cm) \<le> tr_amount t * 1"
    using a assms(3) by (intro mult_left_mono) (auto simp: costs_ok_def cm_def)
  ultimately show ?thesis
    using assms(2) c by (simp add: cash_flow_def cm_def distrib_left)
qed

text \<open>A trade books at most a fee against the cash: a buy fits the cash, a sale may cost its minimum
  commission.\<close>

lemma leg_solvent:
  assumes "exec_leg inp targets symb st = Inr st'" and "costs_ok (xi_costs inp)"
    and "prices_ok (xi_prices inp)" and "0 < xi_lot_size inp"
  defines "fees \<equiv> \<lambda>st. of_nat (length (filter (\<lambda>t. tr_side t \<noteq> ''buy'') (xs_trades st))) * min_commission (xi_costs inp)"
  assumes "0 \<le> xs_cash st + fees st"
  shows "0 \<le> xs_cash st' + fees st'"
  using assms(1)
proof (cases rule: exec_leg_cases)
  case skip
  then show ?thesis using assms(6) by simp
next
  case (trade t)
  have m: "0 \<le> min_commission (xi_costs inp)" using assms(2) by (simp add: costs_ok_def)
  show ?thesis
  proof (cases "tr_side t = ''buy''")
    case True
    have "buy_total t \<le> xs_cash st"
      using plan_buy_fits [OF trade(1) True] assms(2,4) by simp
    moreover have "0 \<le> fees st" using m by (simp add: fees_def)
    moreover have "fees st' = fees st" using True trade(2) by (simp add: fees_def)
    ultimately show ?thesis using True trade(2) by (simp add: cash_flow_def buy_total_def)
  next
    case False
    have "- min_commission (xi_costs inp) \<le> cash_flow t"
      using sell_cash_flow [OF plan_leg_cases(2) [OF trade(1)] False] assms(2,3) by simp
    moreover have "fees st' = fees st + min_commission (xi_costs inp)"
      using False trade(2) by (simp add: fees_def algebra_simps)
    ultimately show ?thesis using assms(6) trade(2) by simp
  qed
qed

section \<open>Totality\<close>

lemma target_shares_total:
  assumes "0 < lot"
  shows "\<exists>ts. target_shares_of equity prices lot ws = Inr ts"
proof (induction ws)
  case Nil
  then show ?case by simp
next
  case (Cons p ws)
  then show ?case by (cases p) (simp add: lot_round_Inr [OF assms] split: option.split)
qed

lemma size_buy_total:
  assumes "0 < lot" and "0 \<le> buy_commission_rate cm"
  shows "\<exists>d. size_buy cm lot c symb price delta = Inr d"
proof -
  have "\<exists>a. (if 0 < price then py_div (c - max (min_commission cm) 0) (price * (1 + buy_commission_rate cm))
      else Inr 0) = Inr a"
    using assms(2) by (simp add: py_div_def)
  then obtain a where a: "(if 0 < price
      then py_div (c - max (min_commission cm) 0) (price * (1 + buy_commission_rate cm)) else Inr 0) = Inr a" ..
  show ?thesis
    unfolding size_buy_def Let_def a rbind.simps lot_round_Inr [OF assms(1)]
    by (simp split: if_split)
qed

lemma plan_leg_total:
  assumes "0 < xi_lot_size inp" and "0 \<le> buy_commission_rate (xi_costs inp)"
  obtains d where "plan_leg inp targets symb st = Inr d"
proof -
  have "\<exists>d. plan_leg inp targets symb st = Inr d"
    using size_buy_total [OF assms] by (simp add: plan_leg_def Let_def split: option.split)
  then show thesis using that by blast
qed

lemma run_total:
  assumes "0 < xi_lot_size inp" and "0 \<le> buy_commission_rate (xi_costs inp)"
  shows "\<exists>st'. rfold (exec_leg inp targets) legs st = Inr st'"
proof (induction legs arbitrary: st)
  case (Cons s legs)
  obtain d where "plan_leg inp targets s st = Inr d" using plan_leg_total [OF assms] .
  then show ?case using Cons.IH by (simp add: exec_leg_def)
qed simp

text \<open>The parts of a call to the Python path.\<close>

lemma execute_python_cases:
  assumes "execute_python inp tw hold csh sold = Inr st"
  obtains targets where "target_shares_of (xi_equity inp) (xi_prices inp) (xi_lot_size inp) tw = Inr targets"
    "rfold (exec_leg inp targets) (leg_order hold targets) (start_state hold csh sold) = Inr st"
  using assms that by (auto simp: execute_python_def start_state_def)

lemma target_shares_lookup:
  assumes "target_shares_of equity prices lot ws = Inr ts" and "dict_ok ws"
  shows "map_of ts s = (case (map_of ws s, map_of prices s) of
      (Some w, Some p) \<Rightarrow> if p \<le> 0 then None else (case lot_round (equity * w / p) lot of Inr n \<Rightarrow> Some n | Inl _ \<Rightarrow> None)
    | _ \<Rightarrow> None)"
  using assms
proof (induction ws arbitrary: ts)
  case Nil
  then show ?case by simp
next
  case (Cons p ws)
  obtain k w where p: "p = (k, w)" by (cases p)
  have ok: "dict_ok ws" and nk: "map_of ws k = None"
    using Cons.prems(2) by (auto simp: p dict_ok_def map_of_eq_None_iff)
  show ?case
    using Cons.prems(1) Cons.IH [OF _ ok] nk
    by (auto simp: p split: option.splits if_splits)
qed

lemma execute_without_kernel:
  "kern = None \<or> 0 < xi_limit_pct inp \<Longrightarrow>
    execute_portfolio_trades kern inp tw hold csh sold = execute_python inp tw hold csh sold"
  by (auto simp: execute_portfolio_trades_def split: option.split)

lemma size_buy_at_most:
  assumes "size_buy cm lot csh symb price delta = Inr (Some t)"
    and "0 \<le> buy_commission_rate cm" and "0 \<le> min_commission cm" and "0 < lot" and "0 < delta"
  shows "tr_shares t \<le> delta"
proof (cases "csh < buy_total (buy_trade cm symb price delta)")
  case True
  from assms(1) True obtain d where d: "t = buy_trade cm symb price d" "0 < d" and p: "0 < price"
    by (auto simp: size_buy_def Let_def split: if_splits)
  show ?thesis
  proof (rule ccontr)
    assume "\<not> tr_shares t \<le> delta"
    then have "delta \<le> d" using d by simp
    then have le: "of_int delta * price \<le> of_int d * price"
      using p by (intro mult_right_mono) auto
    moreover have "of_int delta * price * r \<le> of_int d * price * r" if "0 \<le> r" for r
      using le that by (rule mult_right_mono)
    ultimately have "buy_total (buy_trade cm symb price delta) \<le> buy_total (buy_trade cm symb price d)"
      using assms(2,5) d(2) p by (simp add: buy_total_def compute_commission_def max.coboundedI1 add_mono max.mono)
    also have "\<dots> \<le> csh" using size_buy_fits [OF assms] d(1) by simp
    finally show False using True by simp
  qed
next
  case False
  with assms(1,5) show ?thesis by (auto simp: size_buy_def Let_def split: if_splits)
qed

lemma leg_towards_target:
  assumes "exec_leg inp targets symb st = Inr st'" and "costs_ok (xi_costs inp)" and "0 < xi_lot_size inp"
  defines "old \<equiv> dget_or (xs_holdings st) symb 0" and "new \<equiv> dget_or (xs_holdings st') symb 0"
    and "goal \<equiv> dget_or targets symb 0"
  shows "(old \<le> new \<and> new \<le> goal) \<or> (goal \<le> new \<and> new \<le> old)"
  using assms(1)
proof (cases rule: exec_leg_cases)
  case skip
  then show ?thesis by (auto simp: old_def new_def)
next
  case (trade t)
  note pl = plan_leg_cases [OF trade(1)]
  have new: "new = old + share_flow t"
    using pl(1) trade(2) by (simp add: new_def old_def book_leg_holdings)
  show ?thesis
  proof (cases "tr_side t = ''buy''")
    case True
    then have lt: "old < goal" using pl(3) by (simp add: old_def goal_def)
    then obtain price where "size_buy (xi_costs inp) (xi_lot_size inp) (xs_cash st) symb price (goal - old) = Inr (Some t)"
      using trade(1) by (auto simp: plan_leg_def Let_def old_def goal_def split: if_splits option.splits)
    from size_buy_at_most [OF this _ _ assms(3)] lt assms(2) have "tr_shares t \<le> goal - old"
      by (simp add: costs_ok_def)
    moreover have "0 < tr_shares t" using pl(2) by (simp add: trade_ok_def)
    ultimately show ?thesis using new True by (simp add: share_flow_def)
  next
    case False
    then have "new = goal" "goal < old"
      using new pl(4) by (auto simp: share_flow_def old_def goal_def)
    then show ?thesis by simp
  qed
qed

lemma run_towards_target:
  assumes "rfold (exec_leg inp targets) legs st = Inr st'" and "distinct legs"
    and "costs_ok (xi_costs inp)" and "0 < xi_lot_size inp"
  shows "let old = dget_or (xs_holdings st) s 0; new = dget_or (xs_holdings st') s 0; goal = dget_or targets s 0
    in (old \<le> new \<and> new \<le> goal) \<or> (goal \<le> new \<and> new \<le> old)"
  using assms
proof (induction legs arbitrary: st)
  case Nil
  then show ?case by (auto simp: Let_def)
next
  case (Cons symb legs)
  then obtain st1 where st1: "exec_leg inp targets symb st = Inr st1"
    and rest: "rfold (exec_leg inp targets) legs st1 = Inr st'" by auto
  show ?case
  proof (cases "s = symb")
    case True
    then have "dget_or (xs_holdings st') s 0 = dget_or (xs_holdings st1) s 0"
      using run_frame [OF rest] Cons.prems(2) by simp
    then show ?thesis using leg_towards_target [OF st1 assms(3,4)] True by (simp add: Let_def)
  next
    case False
    then show ?thesis
      using Cons.IH [OF rest] Cons.prems exec_leg_frame [OF st1 False] by (simp add: Let_def)
  qed
qed

lemma leg_sold:
  assumes "exec_leg inp targets symb st = Inr st'"
    and "set sold \<subseteq> set (xs_sold st) \<and> (\<forall>t \<in> set (xs_trades st).
      xi_t_plus_1 inp \<and> tr_side t = ''buy'' \<longrightarrow> tr_symbol t \<notin> set sold)"
  shows "set sold \<subseteq> set (xs_sold st') \<and> (\<forall>t \<in> set (xs_trades st').
      xi_t_plus_1 inp \<and> tr_side t = ''buy'' \<longrightarrow> tr_symbol t \<notin> set sold)"
  using assms(1)
proof (cases rule: exec_leg_cases)
  case (trade t)
  then show ?thesis using assms(2) plan_leg_cases(1,3) [OF trade(1)] by auto
qed (use assms(2) in simp)

lemma run_sold:
  assumes "rfold (exec_leg inp targets) legs (start_state hold csh sold) = Inr st"
  shows "\<forall>t \<in> set (xs_trades st). xi_t_plus_1 inp \<and> tr_side t = ''buy'' \<longrightarrow> tr_symbol t \<notin> set sold"
  using rfold_invariant [OF assms, where P = "\<lambda>st. set sold \<subseteq> set (xs_sold st) \<and> (\<forall>t \<in> set (xs_trades st).
      xi_t_plus_1 inp \<and> tr_side t = ''buy'' \<longrightarrow> tr_symbol t \<notin> set sold)"] leg_sold by auto

section \<open>Properties\<close>


definition sample_inputs :: "exec_inputs" where
  "sample_inputs = \<lparr>xi_equity = 10000, xi_prices = [(''A'', 10), (''B'', 20)],
     xi_raw_close = [(''A'', 10), (''B'', 20)], xi_prev_raw_close = [(''A'', 10), (''B'', 20)],
     xi_has_bar = [''A'', ''B''], xi_costs = default_cost_model\<lparr>min_commission := 5\<rparr>, xi_lot_size = 100,
     xi_limit_pct = 1 / 10, xi_t_plus_1 = True\<rparr>"

definition sample_run :: "exec_state res" where
  "sample_run = execute_python sample_inputs [(''B'', 1)] [(''A'', 500)] 5000 []"

lemma sample_run_ok: "\<exists>st. sample_run = Inr st \<and> length (xs_trades st) = 2"
  by (rule observe) code_simp


text \<open>C10: Every executed trade respects the market rules: its symbol has a price and a bar today, a buy
  is not at limit-up and a sell not at limit-down, its price is the slipped price of its side, its
  amount, commission, stamp tax and cost are the ones the cost model prescribes; no symbol trades
  twice and sells come before buys; and with T+1 no symbol sold earlier today is bought.\<close>

theorem execution_respects_rules:
  assumes "execute_python inp tw hold csh sold = Inr st"
  shows "(\<forall>t \<in> set (xs_trades st). trade_ok inp t)
    \<and> (\<forall>t \<in> set (xs_trades st). xi_t_plus_1 inp \<and> tr_side t = ''buy'' \<longrightarrow> tr_symbol t \<notin> set sold)
    \<and> distinct (map tr_symbol (xs_trades st))
    \<and> (\<exists>n. (\<forall>t \<in> set (take n (xs_trades st)). tr_side t = ''sell'')
           \<and> (\<forall>t \<in> set (drop n (xs_trades st)). tr_side t = ''buy''))"
proof -
  obtain targets where run: "rfold (exec_leg inp targets) (leg_order hold targets) (start_state hold csh sold) = Inr st"
    using assms by (rule execute_python_cases)
  have ok: "\<forall>t \<in> set (xs_trades st). trade_ok inp t"
    using balanced_run [OF run] by (simp add: balanced_def)
  moreover have "\<forall>t \<in> set (xs_trades st). xi_t_plus_1 inp \<and> tr_side t = ''buy'' \<longrightarrow> tr_symbol t \<notin> set sold"
    using run_sold [OF run] by simp
  moreover have "distinct (map tr_symbol (xs_trades st))"
    using run_trades [OF run leg_order_distinct] leg_order_distinct subseq_distinct by fastforce
  moreover have "\<exists>n. (\<forall>t \<in> set (take n (xs_trades st)). tr_side t = ''sell'')
           \<and> (\<forall>t \<in> set (drop n (xs_trades st)). tr_side t = ''buy'')"
  proof -
    obtain mid where s1: "rfold (exec_leg inp targets) (sell_legs hold targets) (start_state hold csh sold) = Inr mid"
      and s2: "rfold (exec_leg inp targets) (buy_legs hold targets) mid = Inr st"
      using run by (auto simp: leg_order_sells_buys rfold_append)
    have d: "distinct (sell_legs hold targets)" "distinct (buy_legs hold targets)"
      by (simp_all add: sell_legs_def buy_legs_def leg_order_distinct)
    obtain as where as: "xs_trades mid = as" "subseq (map tr_symbol as) (sell_legs hold targets)"
      "\<forall>t \<in> set as. tr_side t = ''buy'' \<longleftrightarrow> dget_or hold (tr_symbol t) 0 < dget_or targets (tr_symbol t) 0"
      using run_trades [OF s1 d(1)] by auto
    obtain bs where bs: "xs_trades st = as @ bs" "subseq (map tr_symbol bs) (buy_legs hold targets)"
      "\<forall>t \<in> set bs. tr_side t = ''buy'' \<longleftrightarrow>
         dget_or (xs_holdings mid) (tr_symbol t) 0 < dget_or targets (tr_symbol t) 0"
      using run_trades [OF s2 d(2)] as(1) by auto
    have sides: "tr_side t = ''buy'' \<or> tr_side t = ''sell''" if "t \<in> set as \<union> set bs" for t
      using that ok bs(1) by (auto simp: trade_ok_def)
    have "tr_side t = ''sell''" if "t \<in> set as" for t
    proof -
      have "tr_symbol t \<in> set (sell_legs hold targets)"
        using list_emb_set [OF as(2), of "tr_symbol t"] that by auto
      then show ?thesis using that as(3) sides [of t] by (auto simp: sell_legs_def)
    qed
    moreover have "tr_side t = ''buy''" if "t \<in> set bs" for t
    proof -
      have m: "tr_symbol t \<in> set (buy_legs hold targets)"
        using list_emb_set [OF bs(2), of "tr_symbol t"] that by auto
      then have "tr_symbol t \<notin> set (sell_legs hold targets)" by (auto simp: sell_legs_def buy_legs_def)
      then have "dget_or (xs_holdings mid) (tr_symbol t) 0 = dget_or hold (tr_symbol t) 0"
        using run_frame [OF s1] by simp
      then show ?thesis using that bs(3) m by (auto simp: buy_legs_def)
    qed
    ultimately show ?thesis using bs(1) by (intro exI [of _ "length as"]) auto
  qed
  ultimately show ?thesis by blast
qed

theorem execution_respects_rules_witness:
  "\<exists>st. sample_run = Inr st \<and> length (xs_trades st) = 2 \<and> distinct (map tr_symbol (xs_trades st))
     \<and> (\<forall>t \<in> set (xs_trades st). trade_ok sample_inputs t)"
proof -
  obtain st where st: "sample_run = Inr st" "length (xs_trades st) = 2"
    using sample_run_ok by blast
  from execution_respects_rules [OF st(1) [unfolded sample_run_def]] st show ?thesis by blast
qed

text \<open>C9: Solvency: with non-negative rates, positive prices and a positive lot size, an account that
  starts without debt never owes more than the minimum commissions of its sales; in particular with
  no minimum commission the cash never goes below zero, whatever the target weights ask for.  (A buy
  is always cut to what the cash affords.)\<close>

theorem execution_solvent:
  assumes "execute_python inp tw hold csh sold = Inr st"
    and "costs_ok (xi_costs inp)" and "prices_ok (xi_prices inp)" and "0 < xi_lot_size inp" and "0 \<le> csh"
  shows "0 \<le> xs_cash st + of_nat (length (filter (\<lambda>t. tr_side t \<noteq> ''buy'') (xs_trades st)))
      * min_commission (xi_costs inp)"
proof -
  obtain targets where run: "rfold (exec_leg inp targets) (leg_order hold targets) (start_state hold csh sold) = Inr st"
    using assms(1) by (rule execute_python_cases)
  let ?P = "\<lambda>st. 0 \<le> xs_cash st + of_nat (length (filter (\<lambda>t. tr_side t \<noteq> ''buy'') (xs_trades st)))
      * min_commission (xi_costs inp)"
  show ?thesis
  proof (rule rfold_invariant [OF run, where P = ?P])
    show "?P (start_state hold csh sold)" using assms(5) by simp
  qed (rule leg_solvent [OF _ assms(2-4)])
qed

theorem execution_solvent_witness:
  "\<exists>st. sample_run = Inr st \<and> length (xs_trades st) = 2
     \<and> 0 \<le> xs_cash st + of_nat (length (filter (\<lambda>t. tr_side t \<noteq> ''buy'') (xs_trades st)))
         * min_commission (xi_costs sample_inputs)"
proof -
  obtain st where st: "sample_run = Inr st" "length (xs_trades st) = 2"
    using sample_run_ok by blast
  have "costs_ok (xi_costs sample_inputs)" "0 < xi_lot_size sample_inputs" by code_simp+
  moreover have "prices_ok (xi_prices sample_inputs)" by (simp add: prices_ok_def sample_inputs_def)
  ultimately show ?thesis
    using execution_solvent [OF st(1) [unfolded sample_run_def]] st by fastforce
qed



text \<open>A held symbol whose price is zero is not skipped but given away: it has no target, so it is
  sold in full for nothing (the compiled path drops such symbols instead).\<close>

theorem zero_price_liquidates:
  "map_sum id (\<lambda>st. (xs_holdings st, xs_cash st, map tr_amount (xs_trades st)))
     (execute_python (sample_inputs\<lparr>xi_prices := [(''A'', 0)], xi_costs := default_cost_model\<rparr>) [(''A'', 1)] [(''A'', 500)] 70 [])
     = Inr ([], 70, [0])
   \<and> cpp_symbols (sample_inputs\<lparr>xi_prices := [(''A'', 0)]\<rparr>) [(''A'', 1)] [(''A'', 500)] = []"
  by code_simp

end
