(* ===== verification/Paper_Broker.thy ===== *)
theory Paper_Broker
  imports Order_Events Execution
begin

text \<open>
  \<open>ez/live/broker.py\<close> and \<open>ez/live/paper_broker.py\<close>: the report records of the broker contract and
  the paper broker, which runs the shared trade execution on a copy of the holdings, cuts each trade
  into execution slices (\<open>split_broker_fills\<close>) and reports per requested order what was filled
  (\<open>build_order_reports\<close>).
\<close>

section \<open>The broker contract: data\<close>

datatype broker_capability = TARGET_WEIGHT_EXECUTION | READ_ACCOUNT_STATE | STREAM_EXECUTION_REPORTS
  | CANCEL_ORDER | SHADOW_MODE

fun capability_value :: "broker_capability \<Rightarrow> string" where
  "capability_value TARGET_WEIGHT_EXECUTION = ''target_weight_execution''"
| "capability_value READ_ACCOUNT_STATE = ''read_account_state''"
| "capability_value STREAM_EXECUTION_REPORTS = ''stream_execution_reports''"
| "capability_value CANCEL_ORDER = ''cancel_order''"
| "capability_value SHADOW_MODE = ''shadow_mode''"

record fill_report =
  bf_order_id :: string
  bf_client_order_id :: string
  bf_deployment_id :: string
  bf_symbol :: string
  bf_side :: string
  bf_shares :: int
  bf_price :: flt
  bf_amount :: flt
  bf_commission :: flt
  bf_stamp_tax :: flt
  bf_cost :: flt
  bf_business_date :: date
  bf_requested_shares :: int
  bf_remaining_shares :: int
  bf_slice_index :: int
  bf_total_slices :: int

definition to_trade_dict :: "fill_report \<Rightarrow> payload" where
  "to_trade_dict f = [(''symbol'', JStr (bf_symbol f)), (''side'', JStr (bf_side f)),
     (''shares'', JInt (bf_shares f)), (''price'', JFloat (bf_price f)), (''cost'', JFloat (bf_cost f)),
     (''amount'', JFloat (bf_amount f))]"

record order_report =
  rp_order_id :: string
  rp_client_order_id :: string
  rp_deployment_id :: string
  rp_symbol :: string
  rp_side :: string
  rp_requested_shares :: int
  rp_filled_shares :: int
  rp_remaining_shares :: int
  rp_status :: string
  rp_price :: flt
  rp_amount :: flt
  rp_commission :: flt
  rp_stamp_tax :: flt
  rp_cost :: flt
  rp_business_date :: date
  rp_broker_order_id :: string
  rp_broker_submit_id :: string

record broker_result =
  br_fills :: "fill_report list"
  br_order_reports :: "order_report list"
  br_holdings :: "(string, int) dict"
  br_cash :: flt
  br_trade_volume :: flt

text \<open>The arguments of \<open>execute_target_weights\<close>; the market data and the cost model are grouped as the
  trade execution takes them.\<close>

record exec_request =
  q_business_date :: date
  q_target_weights :: "(string, flt) dict"
  q_holdings :: "(string, int) dict"
  q_cash :: flt
  q_inputs :: exec_inputs
  q_requested_orders :: "order list"
  q_execution_slices :: int

section \<open>Grouping\<close>

text \<open>\<open>groups.setdefault(key(x), []).append(x)\<close> over a list.\<close>

definition group_by :: "('a \<Rightarrow> 'k) \<Rightarrow> 'a list \<Rightarrow> ('k, 'a list) dict" where
  "group_by key xs = fold (\<lambda>x d. dset d (key x) (dget_or d (key x) [] @ [x])) xs []"

lemma group_by_snoc: "group_by key (xs @ [x]) = dset (group_by key xs) (key x) (dget_or (group_by key xs) (key x) [] @ [x])"
  by (simp add: group_by_def)

lemma group_by_get [simp]: "dget_or (group_by key xs) k [] = filter (\<lambda>x. key x = k) xs"
proof (induction xs arbitrary: k rule: rev_induct)
  case Nil
  then show ?case by (simp add: group_by_def)
next
  case (snoc x xs)
  then show ?case by (simp add: group_by_snoc dget_or_dset)
qed

section \<open>Slicing\<close>

text \<open>The chunk taken with \<open>k\<close> (at least two) slices left, and the loop itself.\<close>

definition slice_chunk :: "int \<Rightarrow> int \<Rightarrow> int \<Rightarrow> int" where
  "slice_chunk k lot remaining =
     min (max (remaining div k div lot * lot) lot) (remaining - lot * (k - 1))"

fun split_loop :: "nat \<Rightarrow> int \<Rightarrow> int \<Rightarrow> int list" where
  "split_loop 0 lot remaining = []"
| "split_loop (Suc 0) lot remaining = [remaining]"
| "split_loop (Suc (Suc n)) lot remaining =
     (let chunk = slice_chunk (int (Suc (Suc n))) lot remaining
      in chunk # split_loop (Suc n) lot (remaining - chunk))"

definition split_shares :: "int \<Rightarrow> int \<Rightarrow> int \<Rightarrow> int list res" where
  "split_shares total_shares slices lot_size =
     (if total_shares \<le> 0 then Inr []
      else let effective = max (min slices (total_shares div max lot_size 1)) 1 in
        if lot_size = 0 \<and> 2 \<le> effective then Inl ZeroDivisionError
        else Inr (filter (\<lambda>c. 0 < c) (split_loop (nat effective) lot_size total_shares)))"

text \<open>What the slices of a trade have been given so far.\<close>

record allocated =
  al_amount :: flt
  al_commission :: flt
  al_stamp_tax :: flt
  al_cost :: flt

definition slice_fill ::
  "date \<Rightarrow> trade_result \<Rightarrow> order option \<Rightarrow> int \<Rightarrow> int \<Rightarrow> int \<Rightarrow> int \<Rightarrow> int \<Rightarrow> allocated \<Rightarrow> fill_report" where
  "slice_fill business_date t requested requested_shares total_slices index chunk cumulative part =
     \<lparr>bf_order_id = (case requested of Some ord \<Rightarrow> o_order_id ord | None \<Rightarrow> []),
      bf_client_order_id = (case requested of Some ord \<Rightarrow> o_client_order_id ord | None \<Rightarrow> []),
      bf_deployment_id = (case requested of Some ord \<Rightarrow> o_deployment_id ord | None \<Rightarrow> []),
      bf_symbol = tr_symbol t, bf_side = tr_side t, bf_shares = chunk, bf_price = tr_price t,
      bf_amount = al_amount part, bf_commission = al_commission part,
      bf_stamp_tax = al_stamp_tax part, bf_cost = al_cost part, bf_business_date = business_date,
      bf_requested_shares = requested_shares,
      bf_remaining_shares = max (requested_shares - cumulative) 0,
      bf_slice_index = index, bf_total_slices = total_slices\<rparr>"

text \<open>The last slice takes what is left of the trade, every other its share in proportion.\<close>

definition slice_part :: "trade_result \<Rightarrow> bool \<Rightarrow> int \<Rightarrow> allocated \<Rightarrow> allocated" where
  "slice_part t is_last chunk al =
     (if is_last
      then \<lparr>al_amount = tr_amount t - al_amount al, al_commission = tr_commission t - al_commission al,
            al_stamp_tax = tr_stamp_tax t - al_stamp_tax al, al_cost = tr_cost t - al_cost al\<rparr>
      else let ratio = (if 0 < tr_shares t then of_int chunk / of_int (tr_shares t) else 0) in
        \<lparr>al_amount = tr_amount t * ratio, al_commission = tr_commission t * ratio,
         al_stamp_tax = tr_stamp_tax t * ratio, al_cost = tr_cost t * ratio\<rparr>)"

definition add_part :: "allocated \<Rightarrow> allocated \<Rightarrow> allocated" where
  "add_part al p = \<lparr>al_amount = al_amount al + al_amount p, al_commission = al_commission al + al_commission p,
     al_stamp_tax = al_stamp_tax al + al_stamp_tax p, al_cost = al_cost al + al_cost p\<rparr>"

fun slice_loop ::
  "date \<Rightarrow> trade_result \<Rightarrow> order option \<Rightarrow> int \<Rightarrow> int \<Rightarrow> int \<Rightarrow> int \<Rightarrow> allocated \<Rightarrow> int list \<Rightarrow> fill_report list" where
  "slice_loop bd t requested rs n index cumulative al [] = []"
| "slice_loop bd t requested rs n index cumulative al (chunk # chunks) =
     (let is_last = (index = n); part = slice_part t is_last chunk al in
      slice_fill bd t requested rs n index chunk (cumulative + chunk) part
        # slice_loop bd t requested rs n (index + 1) (cumulative + chunk)
            (if is_last then al else add_part al part) chunks)"

definition no_part :: allocated where
  "no_part = \<lparr>al_amount = 0, al_commission = 0, al_stamp_tax = 0, al_cost = 0\<rparr>"

definition trade_fills ::
  "date \<Rightarrow> (string \<times> string, order) dict \<Rightarrow> int \<Rightarrow> int \<Rightarrow> trade_result \<Rightarrow> fill_report list res" where
  "trade_fills bd order_map effective_slices lot_size t =
     (let requested = map_of order_map (tr_symbol t, tr_side t);
          requested_shares = (case requested of Some ord \<Rightarrow> o_shares ord | None \<Rightarrow> tr_shares t)
      in rbind (split_shares (tr_shares t) effective_slices lot_size) (\<lambda>chunks.
           Inr (slice_loop bd t requested requested_shares (int (length chunks)) 1 0 no_part chunks)))"

definition split_broker_fills ::
  "date \<Rightarrow> trade_result list \<Rightarrow> (string \<times> string, order) dict \<Rightarrow> int \<Rightarrow> int \<Rightarrow> fill_report list res" where
  "split_broker_fills bd ts order_map execution_slices lot_size =
     rbind (rmap (trade_fills bd order_map (max execution_slices 1) lot_size) ts) (\<lambda>fss. Inr (concat fss))"

section \<open>Order reports\<close>

definition fill_key :: "fill_report \<Rightarrow> string" where
  "fill_key f = str_or (bf_client_order_id f) (bf_symbol f @ '':'' @ bf_side f)"

definition order_report_of :: "date \<Rightarrow> (string, fill_report list) dict \<Rightarrow> order \<Rightarrow> order_report" where
  "order_report_of business_date groups ord =
     (let child_fills = dget_or groups (o_client_order_id ord) [];
          filled = sum_list (map bf_shares child_fills);
          amount = sum_list (map bf_amount child_fills)
      in \<lparr>rp_order_id = o_order_id ord, rp_client_order_id = o_client_order_id ord,
          rp_deployment_id = o_deployment_id ord, rp_symbol = o_symbol ord, rp_side = o_side ord,
          rp_requested_shares = o_shares ord, rp_filled_shares = filled,
          rp_remaining_shares = max (o_shares ord - filled) 0,
          rp_status = order_status_value
            (if child_fills = [] then REJECTED
             else if filled < o_shares ord then PARTIALLY_FILLED else FILLED),
          rp_price = (if 0 < filled then amount / of_int filled else 0), rp_amount = amount,
          rp_commission = sum_list (map bf_commission child_fills),
          rp_stamp_tax = sum_list (map bf_stamp_tax child_fills),
          rp_cost = sum_list (map bf_cost child_fills), rp_business_date = business_date,
          rp_broker_order_id = [], rp_broker_submit_id = []\<rparr>)"

definition build_order_reports :: "order list \<Rightarrow> fill_report list \<Rightarrow> date \<Rightarrow> order_report list" where
  "build_order_reports requested_orders fills business_date =
     map (order_report_of business_date (group_by fill_key fills)) requested_orders"

section \<open>The paper broker\<close>

definition requested_order_map :: "order list \<Rightarrow> (string \<times> string, order) dict" where
  "requested_order_map orders = dict_of (map (\<lambda>ord. ((o_symbol ord, o_side ord), ord)) orders)"

text \<open>The broker passes no \<open>sold_today\<close>, so each call starts with an empty one.\<close>

definition paper_execute :: "kernel option \<Rightarrow> exec_request \<Rightarrow> broker_result res" where
  "paper_execute kern q =
     rbind (execute_portfolio_trades kern (q_inputs q) (q_target_weights q) (q_holdings q) (q_cash q) [])
       (\<lambda>st. rbind (split_broker_fills (q_business_date q) (xs_trades st)
             (requested_order_map (q_requested_orders q)) (q_execution_slices q) (xi_lot_size (q_inputs q)))
         (\<lambda>fills. Inr \<lparr>br_fills = fills,
            br_order_reports = build_order_reports (q_requested_orders q) fills (q_business_date q),
            br_holdings = xs_holdings st, br_cash = xs_cash st, br_trade_volume = xs_volume st\<rparr>))"

definition paper_capabilities :: "broker_capability list" where
  "paper_capabilities = [TARGET_WEIGHT_EXECUTION]"

section \<open>Slices add up\<close>

lemma split_loop_sum: "0 < k \<Longrightarrow> sum_list (split_loop k lot r) = r"
  by (induction k lot r rule: split_loop.induct) (auto simp: Let_def)

lemma length_split_loop [simp]: "length (split_loop k lot r) = k"
  by (induction k lot r rule: split_loop.induct) (auto simp: Let_def)

lemma slice_chunk_bounds:
  assumes "0 < lot" and "k * lot \<le> r"
  shows "lot \<le> slice_chunk k lot r" "(k - 1) * lot \<le> r - slice_chunk k lot r"
  using assms by (auto simp: slice_chunk_def algebra_simps)

lemma slice_chunk_dvd: "lot dvd r \<Longrightarrow> lot dvd slice_chunk k lot r"
  by (auto simp: slice_chunk_def min_def max_def)

lemma split_loop_pos:
  assumes "0 < lot" and "int k * lot \<le> r"
  shows "\<forall>c \<in> set (split_loop k lot r). lot \<le> c"
  using assms
proof (induction k lot r rule: split_loop.induct)
  case (3 n lot r)
  note b = slice_chunk_bounds [OF 3(2,3)]
  have "\<forall>c \<in> set (split_loop (Suc n) lot (r - slice_chunk (int (Suc (Suc n))) lot r)). lot \<le> c"
    by (rule 3(1) [OF refl 3(2)]) (use b(2) in simp)
  then show ?case using b(1) by (simp add: Let_def)
qed auto

text \<open>Every slice is whole lots when the lot size divides the total.\<close>

lemma split_loop_lots:
  assumes "lot dvd r"
  shows "\<forall>c \<in> set (split_loop k lot r). lot dvd c"
  using assms
proof (induction k lot r rule: split_loop.induct)
  case (3 n lot r)
  have "lot dvd r - slice_chunk (int (Suc (Suc n))) lot r"
    using 3(2) slice_chunk_dvd by simp
  from 3(1) [OF refl this] show ?case using slice_chunk_dvd [OF 3(2)] by (simp add: Let_def)
qed auto

lemma split_shares_spec:
  assumes "split_shares tot slices lot = Inr cs" and "0 < lot"
  shows "sum_list cs = max tot 0" "\<forall>c \<in> set cs. 0 < c" "int (length cs) \<le> max slices 1"
    "0 < tot \<Longrightarrow> cs \<noteq> []"
proof -
  define e where "e = max (min slices (tot div max lot 1)) 1"
  have e: "0 < nat e" by (simp add: e_def)
  have l: "max lot 1 = lot" using assms(2) by simp
  have pos: "\<forall>c \<in> set (split_loop (nat e) lot tot). 0 < c" if "0 < tot"
  proof (cases "e = 1")
    case True
    then show ?thesis using that by simp
  next
    case False
    then have "e \<le> tot div lot" by (auto simp: e_def l)
    then have "e * lot \<le> tot div lot * lot" using assms(2) by (intro mult_right_mono) auto
    also have "\<dots> \<le> tot"
      using pos_mod_sign [OF assms(2), of tot] div_mult_mod_eq [of tot lot] by linarith
    finally have "int (nat e) * lot \<le> tot" using e by simp
    then show ?thesis using split_loop_pos [OF assms(2)] assms(2) by fastforce
  qed
  have sp: "split_shares tot slices lot =
      (if tot \<le> 0 then Inr [] else Inr (filter (\<lambda>c. 0 < c) (split_loop (nat e) lot tot)))"
    using assms(2) by (simp add: split_shares_def Let_def e_def)
  have cs: "cs = (if tot \<le> 0 then [] else split_loop (nat e) lot tot)"
    using assms(1) pos unfolding sp by (auto simp: filter_id_conv split: if_splits)
  show "sum_list cs = max tot 0" using e by (simp add: cs split_loop_sum)
  show "\<forall>c \<in> set cs. 0 < c" using pos by (auto simp: cs)
  show "int (length cs) \<le> max slices 1" by (auto simp: cs e_def)
  show "cs \<noteq> []" if "0 < tot" using that e by (auto simp: cs simp flip: length_greater_0_conv)
qed

lemma split_shares_total: "0 < lot \<Longrightarrow> \<exists>cs. split_shares tot slices lot = Inr cs"
  by (simp add: split_shares_def Let_def)

text \<open>Telescoping: the parts of a trade add up to the trade.\<close>

definition parts_sum :: "(fill_report \<Rightarrow> flt) \<Rightarrow> fill_report list \<Rightarrow> flt" where
  "parts_sum g fs = sum_list (map g fs)"

lemma slice_loop_sums:
  assumes "index \<le> n" and "int (length chunks) = n - index + 1"
  shows "parts_sum bf_amount (slice_loop bd t rq rs n index cu al chunks) = tr_amount t - al_amount al
    \<and> parts_sum bf_commission (slice_loop bd t rq rs n index cu al chunks) = tr_commission t - al_commission al
    \<and> parts_sum bf_stamp_tax (slice_loop bd t rq rs n index cu al chunks) = tr_stamp_tax t - al_stamp_tax al
    \<and> parts_sum bf_cost (slice_loop bd t rq rs n index cu al chunks) = tr_cost t - al_cost al"
  using assms
proof (induction chunks arbitrary: index cu al)
  case Nil
  then show ?case by simp
next
  case (Cons c cs)
  show ?case
  proof (cases "index = n")
    case True
    then have "cs = []" using Cons.prems by simp
    then show ?thesis using True by (simp add: parts_sum_def slice_fill_def slice_part_def Let_def)
  next
    case False
    then show ?thesis
      using Cons.IH [of "index + 1" "cu + c" "add_part al (slice_part t False c al)"] Cons.prems
      by (simp add: parts_sum_def slice_fill_def add_part_def Let_def)
  qed
qed

lemma slice_loop_shares [simp]: "map bf_shares (slice_loop bd t rq rs n index cu al chunks) = chunks"
  by (induction chunks arbitrary: index cu al) (simp_all add: Let_def slice_fill_def)

lemma slice_loop_length [simp]: "length (slice_loop bd t rq rs n index cu al chunks) = length chunks"
  by (induction chunks arbitrary: index cu al) (simp_all add: Let_def)

lemma slice_loop_fields:
  "f \<in> set (slice_loop bd t rq rs n index cu al chunks) \<Longrightarrow> bf_symbol f = tr_symbol t \<and> bf_side f = tr_side t
    \<and> bf_price f = tr_price t \<and> bf_requested_shares f = rs \<and> bf_total_slices f = n
    \<and> bf_client_order_id f = (case rq of Some ord \<Rightarrow> o_client_order_id ord | None \<Rightarrow> [])"
  by (induction chunks arbitrary: index cu al) (auto simp: Let_def slice_fill_def)

lemma slice_loop_indices:
  "map bf_slice_index (slice_loop bd t rq rs n index cu al chunks) = [index..index + int (length chunks) - 1]"
proof (induction chunks arbitrary: index cu al)
  case (Cons c cs)
  then show ?case by (simp add: Let_def slice_fill_def upto_rec1)
qed simp

section \<open>Fills as flows\<close>

definition fill_share_flow :: "fill_report \<Rightarrow> int" where
  "fill_share_flow f = (if bf_side f = ''buy'' then bf_shares f else - bf_shares f)"

definition fill_cash_flow :: "fill_report \<Rightarrow> flt" where
  "fill_cash_flow f = (if bf_side f = ''buy'' then - (bf_amount f + bf_cost f) else bf_amount f - bf_cost f)"

definition fills_flow_of :: "string \<Rightarrow> fill_report list \<Rightarrow> int" where
  "fills_flow_of symb fs = sum_list (map fill_share_flow (filter (\<lambda>f. bf_symbol f = symb) fs))"

lemma fills_flow_append [simp]: "fills_flow_of s (xs @ ys) = fills_flow_of s xs + fills_flow_of s ys"
  by (simp add: fills_flow_of_def)

lemma sum_list_same_side:
  assumes "\<forall>f \<in> set fs. bf_side f = side"
  shows "sum_list (map fill_share_flow fs) =
      (if side = ''buy'' then sum_list (map bf_shares fs) else - sum_list (map bf_shares fs))"
    and "sum_list (map fill_cash_flow fs) =
      (if side = ''buy'' then - (sum_list (map bf_amount fs) + sum_list (map bf_cost fs))
       else sum_list (map bf_amount fs) - sum_list (map bf_cost fs))"
  using assms by (induction fs) (auto simp: fill_share_flow_def fill_cash_flow_def)

lemma trade_fills_spec:
  assumes "trade_fills bd om sl lot t = Inr fs" and "0 < lot" and "0 < tr_shares t"
  shows "\<forall>f \<in> set fs. bf_symbol f = tr_symbol t \<and> bf_side f = tr_side t \<and> 0 < bf_shares f
      \<and> bf_client_order_id f = (case map_of om (tr_symbol t, tr_side t) of Some ord \<Rightarrow> o_client_order_id ord | None \<Rightarrow> [])"
    "sum_list (map bf_shares fs) = tr_shares t" "sum_list (map bf_amount fs) = tr_amount t"
    "sum_list (map bf_commission fs) = tr_commission t" "sum_list (map bf_stamp_tax fs) = tr_stamp_tax t"
    "sum_list (map bf_cost fs) = tr_cost t"
    "map bf_slice_index fs = [1..int (length fs)]" "\<forall>f \<in> set fs. bf_total_slices f = int (length fs)"
    "fs \<noteq> []"
proof -
  define rq where "rq = map_of om (tr_symbol t, tr_side t)"
  define rs where "rs = (case rq of Some ord \<Rightarrow> o_shares ord | None \<Rightarrow> tr_shares t)"
  obtain cs where cs: "split_shares (tr_shares t) sl lot = Inr cs"
    and fs: "fs = slice_loop bd t rq rs (int (length cs)) 1 0 no_part cs"
    using assms(1) by (auto simp: trade_fills_def Let_def rq_def rs_def)
  note sp = split_shares_spec [OF cs assms(2)]
  have ne: "cs \<noteq> []" using sp(4) assms(3) by simp
  show "\<forall>f \<in> set fs. bf_symbol f = tr_symbol t \<and> bf_side f = tr_side t \<and> 0 < bf_shares f
      \<and> bf_client_order_id f = (case map_of om (tr_symbol t, tr_side t) of Some ord \<Rightarrow> o_client_order_id ord | None \<Rightarrow> [])"
  proof
    fix f assume f: "f \<in> set fs"
    then have "bf_shares f \<in> set (map bf_shares fs)" by simp
    then have "0 < bf_shares f" using sp(2) by (simp add: fs)
    then show "bf_symbol f = tr_symbol t \<and> bf_side f = tr_side t \<and> 0 < bf_shares f
      \<and> bf_client_order_id f = (case map_of om (tr_symbol t, tr_side t) of Some ord \<Rightarrow> o_client_order_id ord | None \<Rightarrow> [])"
      using slice_loop_fields [OF f [unfolded fs]] by (simp add: rq_def)
  qed
  show "sum_list (map bf_shares fs) = tr_shares t" using sp(1) assms(3) by (simp add: fs)
  have "1 \<le> int (length cs)" using ne by (cases cs) auto
  from slice_loop_sums [OF this, of cs bd t rq rs 0 no_part]
  show "sum_list (map bf_amount fs) = tr_amount t"
    "sum_list (map bf_commission fs) = tr_commission t" "sum_list (map bf_stamp_tax fs) = tr_stamp_tax t"
    "sum_list (map bf_cost fs) = tr_cost t"
    by (simp_all add: fs parts_sum_def no_part_def)
  show "map bf_slice_index fs = [1..int (length fs)]" by (simp add: fs slice_loop_indices)
  show "\<forall>f \<in> set fs. bf_total_slices f = int (length fs)"
    using slice_loop_fields by (auto simp: fs)
  show "fs \<noteq> []" using ne by (simp add: fs flip: length_greater_0_conv)
qed

lemma trade_fills_flows:
  assumes "trade_fills bd om sl lot t = Inr fs" and "0 < lot" and "0 < tr_shares t"
  shows "sum_list (map fill_cash_flow fs) = cash_flow t"
    "fills_flow_of s fs = (if tr_symbol t = s then share_flow t else 0)"
proof -
  note sp = trade_fills_spec [OF assms]
  have side: "\<forall>f \<in> set fs. bf_side f = tr_side t" using sp(1) by blast
  show "sum_list (map fill_cash_flow fs) = cash_flow t"
    using sum_list_same_side(2) [OF side] sp by (simp add: cash_flow_def)
  have "filter (\<lambda>f. bf_symbol f = s) fs = (if tr_symbol t = s then fs else [])"
    using sp(1) by (auto simp: filter_id_conv filter_empty_conv)
  then show "fills_flow_of s fs = (if tr_symbol t = s then share_flow t else 0)"
    using sum_list_same_side(1) [OF side] sp by (simp add: fills_flow_of_def share_flow_def)
qed

lemma split_fills_flows:
  assumes "rmap (trade_fills bd om sl lot) ts = Inr fss" and "0 < lot" and "\<forall>t \<in> set ts. 0 < tr_shares t"
  shows "sum_list (map fill_cash_flow (concat fss)) = sum_list (map cash_flow ts)"
    "fills_flow_of s (concat fss) = flow_of s ts"
proof -
  have "sum_list (map fill_cash_flow (concat fss)) = sum_list (map cash_flow ts)
      \<and> fills_flow_of s (concat fss) = flow_of s ts"
    using assms(1,3)
  proof (induction ts arbitrary: fss)
    case Nil
    then show ?case by (simp add: fills_flow_of_def)
  next
    case (Cons t ts)
    then obtain fs fss' where f: "trade_fills bd om sl lot t = Inr fs"
      and r: "rmap (trade_fills bd om sl lot) ts = Inr fss'" and fss: "fss = fs # fss'" by auto
    have "flow_of s (t # ts) = (if tr_symbol t = s then share_flow t else 0) + flow_of s ts"
      by (simp add: flow_of_def)
    then show ?case
      using trade_fills_flows [OF f assms(2)] Cons.IH [OF r] Cons.prems(2) by (simp add: fss)
  qed
  then show "sum_list (map fill_cash_flow (concat fss)) = sum_list (map cash_flow ts)"
    "fills_flow_of s (concat fss) = flow_of s ts" by simp_all
qed

lemma paper_execute_cases:
  assumes "paper_execute kern q = Inr r" and "kern = None \<or> 0 < xi_limit_pct (q_inputs q)"
  obtains st fss where
    "execute_python (q_inputs q) (q_target_weights q) (q_holdings q) (q_cash q) [] = Inr st"
    "rmap (trade_fills (q_business_date q) (requested_order_map (q_requested_orders q))
       (max (q_execution_slices q) 1) (xi_lot_size (q_inputs q))) (xs_trades st) = Inr fss"
    "br_fills r = concat fss" "br_holdings r = xs_holdings st" "br_cash r = xs_cash st"
    "br_trade_volume r = xs_volume st"
    "br_order_reports r = build_order_reports (q_requested_orders q) (concat fss) (q_business_date q)"
  using assms that
  by (auto simp: paper_execute_def execute_without_kernel split_broker_fills_def)

lemma python_run_ok:
  assumes "execute_python inp tw hold csh sold = Inr st"
  shows "balanced inp hold csh st" "\<forall>t \<in> set (xs_trades st). 0 < tr_shares t"
proof -
  show b: "balanced inp hold csh st"
    using assms by (rule execute_python_cases) (rule balanced_run)
  show "\<forall>t \<in> set (xs_trades st). 0 < tr_shares t"
    using b by (auto simp: balanced_def trade_ok_def)
qed

text \<open>What the paper broker returns balances against its fills.\<close>

lemma paper_conserves:
  assumes "paper_execute kern q = Inr r" and "kern = None \<or> 0 < xi_limit_pct (q_inputs q)"
    and "0 < xi_lot_size (q_inputs q)"
  shows "br_cash r = q_cash q + sum_list (map fill_cash_flow (br_fills r))"
    "dget_or (br_holdings r) s 0 = dget_or (q_holdings q) s 0 + fills_flow_of s (br_fills r)"
proof -
  from assms(1,2) obtain st fss where
    run: "execute_python (q_inputs q) (q_target_weights q) (q_holdings q) (q_cash q) [] = Inr st"
    and fss: "rmap (trade_fills (q_business_date q) (requested_order_map (q_requested_orders q))
       (max (q_execution_slices q) 1) (xi_lot_size (q_inputs q))) (xs_trades st) = Inr fss"
    and r: "br_fills r = concat fss" "br_holdings r = xs_holdings st" "br_cash r = xs_cash st"
    by (rule paper_execute_cases)
  note ok = python_run_ok [OF run]
  note fl = split_fills_flows [OF fss assms(3) ok(2)]
  show "br_cash r = q_cash q + sum_list (map fill_cash_flow (br_fills r))"
    using ok(1) fl(1) by (simp add: r balanced_def)
  show "dget_or (br_holdings r) s 0 = dget_or (q_holdings q) s 0 + fills_flow_of s (br_fills r)"
    using ok(1) fl(2) by (simp add: r balanced_def)
qed

section \<open>Properties\<close>

text \<open>Execution slicing is exact: for a positive order and lot size the slices are positive, add up to
  the order, are no more than asked for, and are whole lots whenever the order is.\<close>

theorem split_shares_exact:
  assumes "0 < lot" and "0 < n"
  shows "\<exists>cs. split_shares n slices lot = Inr cs \<and> sum_list cs = n \<and> (\<forall>c \<in> set cs. 0 < c)
    \<and> 1 \<le> length cs \<and> int (length cs) \<le> max slices 1 \<and> (lot dvd n \<longrightarrow> (\<forall>c \<in> set cs. lot dvd c))"
proof -
  obtain cs where cs: "split_shares n slices lot = Inr cs" using split_shares_total [OF assms(1)] by blast
  note sp = split_shares_spec [OF cs assms(1)]
  have "set cs \<subseteq> set (split_loop (nat (max (min slices (n div max lot 1)) 1)) lot n)"
    using cs assms unfolding split_shares_def Let_def by (auto split: if_splits)
  then have "lot dvd n \<longrightarrow> (\<forall>c \<in> set cs. lot dvd c)"
    using split_loop_lots by blast
  moreover have "1 \<le> length cs" using sp(4) [OF assms(2)] by (cases cs) simp_all
  moreover have "sum_list cs = n" using sp(1) assms(2) by simp
  ultimately show ?thesis using cs sp(2,3) by blast
qed

theorem split_shares_exact_witness:
  "\<exists>cs. split_shares 1050 4 100 = Inr cs \<and> sum_list cs = 1050 \<and> (\<forall>c \<in> set cs. 0 < c) \<and> int (length cs) \<le> 4"
  using split_shares_exact [of 100 1050 4] by auto

definition sample_order :: "string \<Rightarrow> string \<Rightarrow> int \<Rightarrow> order" where
  "sample_order symb side n = \<lparr>o_order_id = symb @ side, o_client_order_id = symb @ side, o_deployment_id = ''d'',
     o_symbol = symb, o_side = side, o_shares = n, o_business_date = Date 2024 1 2, o_requested_shares = 0,
     o_remaining_shares = 0, o_status = NEW, o_rejected_reason = [], o_rejected_message = [],
     o_rejected_details = []\<rparr>"

definition plain_costs :: cost_model where
  "plain_costs = \<lparr>buy_commission_rate = 0, sell_commission_rate = 0, min_commission = 5, stamp_tax_rate = 0,
     slippage_rate = 0\<rparr>"

definition sample_request :: exec_request where
  "sample_request = \<lparr>q_business_date = Date 2024 1 2, q_target_weights = [(''B'', 1)],
     q_holdings = [(''A'', 500)], q_cash = 5000, q_inputs = sample_inputs\<lparr>xi_costs := plain_costs\<rparr>,
     q_requested_orders = [sample_order ''A'' ''sell'' 500, sample_order ''B'' ''buy'' 500],
     q_execution_slices = 2\<rparr>"

lemma sample_request_runs:
  "\<exists>r. paper_execute None sample_request = Inr r \<and>
    (length (br_fills r), map rp_status (br_order_reports r)) = (4, [''filled'', ''partially_filled''])"
  by (rule observe) code_simp

text \<open>The paper broker's account moves by its fills and nothing else: the returned cash and holdings
  are the ones passed in plus the flows of the reported child fills, however many slices each trade
  is cut into.\<close>

theorem paper_broker_conserves:
  assumes "paper_execute kern q = Inr r" and "kern = None \<or> 0 < xi_limit_pct (q_inputs q)"
    and "0 < xi_lot_size (q_inputs q)"
  shows "br_cash r = q_cash q + sum_list (map fill_cash_flow (br_fills r))
    \<and> (\<forall>s. dget_or (br_holdings r) s 0 = dget_or (q_holdings q) s 0 + fills_flow_of s (br_fills r))
    \<and> (\<forall>f \<in> set (br_fills r). 0 < bf_shares f)"
proof -
  from assms(1,2) obtain st fss where
    run: "execute_python (q_inputs q) (q_target_weights q) (q_holdings q) (q_cash q) [] = Inr st"
    and fss: "rmap (trade_fills (q_business_date q) (requested_order_map (q_requested_orders q))
       (max (q_execution_slices q) 1) (xi_lot_size (q_inputs q))) (xs_trades st) = Inr fss"
    and r: "br_fills r = concat fss"
    by (rule paper_execute_cases)
  have "\<forall>fs \<in> set fss. \<forall>f \<in> set fs. 0 < bf_shares f"
  proof
    fix fs assume "fs \<in> set fss"
    then obtain t where "t \<in> set (xs_trades st)" "trade_fills (q_business_date q)
        (requested_order_map (q_requested_orders q)) (max (q_execution_slices q) 1)
        (xi_lot_size (q_inputs q)) t = Inr fs"
      using rmap_result_from [OF fss] by blast
    then show "\<forall>f \<in> set fs. 0 < bf_shares f"
      using trade_fills_spec(1) assms(3) python_run_ok(2) [OF run] by blast
  qed
  then show ?thesis using paper_conserves [OF assms] by (auto simp: r)
qed

theorem paper_broker_conserves_witness:
  "\<exists>r. paper_execute None sample_request = Inr r \<and> length (br_fills r) = 4
     \<and> br_cash r = 5000 + sum_list (map fill_cash_flow (br_fills r))"
proof -
  obtain r where r: "paper_execute None sample_request = Inr r" "length (br_fills r) = 4"
    using sample_request_runs by blast
  have "0 < xi_lot_size (q_inputs sample_request)" by code_simp
  from paper_broker_conserves [OF r(1) _ this] have
    "br_cash r = q_cash sample_request + sum_list (map fill_cash_flow (br_fills r))" by blast
  moreover have "q_cash sample_request = 5000" by (simp add: sample_request_def)
  ultimately show ?thesis using r by auto
qed

text \<open>Order reports tell the truth about the fills: there is one report per requested order, in order;
  its filled shares, amount and cost are the sums over the fills that carry its client order id, what
  is filled and what remains add up to at least the request (exactly, unless over-filled), the
  status is rejected without fills, filled when nothing remains, partially filled otherwise, and the
  average price times the filled shares is the amount.\<close>

theorem order_reports_consistent:
  assumes "\<forall>f \<in> set fills. bf_client_order_id f \<noteq> []" and "\<forall>f \<in> set fills. 0 < bf_shares f"
    and "rp \<in> set (build_order_reports orders fills bd)"
  shows "\<exists>ord \<in> set orders. rp_client_order_id rp = o_client_order_id ord
    \<and> (let mine = filter (\<lambda>f. bf_client_order_id f = o_client_order_id ord) fills in
        rp_filled_shares rp = sum_list (map bf_shares mine)
        \<and> rp_amount rp = sum_list (map bf_amount mine) \<and> rp_cost rp = sum_list (map bf_cost mine)
        \<and> (rp_filled_shares rp \<le> o_shares ord \<longrightarrow>
             rp_filled_shares rp + rp_remaining_shares rp = o_shares ord)
        \<and> (rp_status rp = ''rejected'' \<longleftrightarrow> mine = [])
        \<and> (rp_status rp = ''filled'' \<longleftrightarrow> mine \<noteq> [] \<and> rp_remaining_shares rp = 0)
        \<and> (mine \<noteq> [] \<longrightarrow> rp_price rp * of_int (rp_filled_shares rp) = rp_amount rp))"
proof -
  obtain ord where ord: "ord \<in> set orders" and rp: "rp = order_report_of bd (group_by fill_key fills) ord"
    using assms(3) by (auto simp: build_order_reports_def)
  define mine where "mine = filter (\<lambda>f. bf_client_order_id f = o_client_order_id ord) fills"
  have fk: "filter (\<lambda>f. fill_key f = o_client_order_id ord) fills = mine"
    unfolding mine_def by (rule filter_cong) (use assms(1) in \<open>auto simp: fill_key_def str_or_def\<close>)
  have pos: "mine \<noteq> [] \<Longrightarrow> 0 < sum_list (map bf_shares mine)"
    using assms(2) by (intro sum_list_pos_int) (auto simp: mine_def)
  have v: "order_status_value REJECTED = ''rejected''" "order_status_value FILLED = ''filled''"
    "order_status_value PARTIALLY_FILLED = ''partially_filled''" by code_simp+
  show ?thesis
    using ord pos by (intro bexI [of _ ord]) (auto simp: rp order_report_of_def fk Let_def v mine_def [symmetric])
qed

definition sample_fill :: "string \<Rightarrow> int \<Rightarrow> flt \<Rightarrow> fill_report" where
  "sample_fill coid n price = \<lparr>bf_order_id = coid, bf_client_order_id = coid, bf_deployment_id = ''d'',
     bf_symbol = ''B'', bf_side = ''buy'', bf_shares = n, bf_price = price, bf_amount = of_int n * price,
     bf_commission = 5, bf_stamp_tax = 0, bf_cost = 5, bf_business_date = Date 2024 1 2,
     bf_requested_shares = 500, bf_remaining_shares = 0, bf_slice_index = 1, bf_total_slices = 2\<rparr>"

theorem order_reports_consistent_witness:
  "\<exists>rp \<in> set (build_order_reports [sample_order ''B'' ''buy'' 500] [sample_fill ''Bbuy'' 200 10, sample_fill ''Bbuy'' 100 11]
       (Date 2024 1 2)).
     rp_price rp * of_int (rp_filled_shares rp) = rp_amount rp \<and> rp_filled_shares rp = 300"
proof -
  let ?fs = "[sample_fill ''Bbuy'' 200 10, sample_fill ''Bbuy'' 100 11]"
  let ?rp = "order_report_of (Date 2024 1 2) (group_by fill_key ?fs) (sample_order ''B'' ''buy'' 500)"
  have rp: "?rp \<in> set (build_order_reports [sample_order ''B'' ''buy'' 500] ?fs (Date 2024 1 2))"
    by (simp add: build_order_reports_def)
  have f: "\<forall>f \<in> set ?fs. bf_client_order_id f \<noteq> []" "\<forall>f \<in> set ?fs. 0 < bf_shares f"
    by (simp_all add: sample_fill_def)
  have "filter (\<lambda>f. bf_client_order_id f = o_client_order_id (sample_order ''B'' ''buy'' 500)) ?fs = ?fs"
    and "sum_list (map bf_shares ?fs) = 300"
    by (simp_all add: sample_fill_def sample_order_def)
  then have "rp_price ?rp * of_int (rp_filled_shares ?rp) = rp_amount ?rp \<and> rp_filled_shares ?rp = 300"
    using order_reports_consistent [OF f rp] by (auto simp: Let_def)
  with rp show ?thesis by blast
qed

end
