(* ===== verification/Weight_Projection.thy ===== *)
theory Weight_Projection
  imports PyValue
begin

text \<open>
  \<open>ez/live/optimizer_allocator.py\<close>: the constrained allocator of the live path.  The capped-simplex
  projection is an 80-step bisection on the shift; the turnover compression moves part of the way;
  the budget fill hands out residual budget in proportion to a priority.  The eigenvalue routine and
  the square root of numpy are the arguments \<open>eig\<close> (\<open>None\<close> is \<open>LinAlgError\<close>) and \<open>sqrt_fn\<close>.
  Matrices are lists of rows of exact numbers, so the tests for NaN and infinity never fire here.
\<close>

type_synonym weights = "(string, flt) dict"
type_synonym matrix = "flt list list"

definition dust :: flt where
  "dust = 1 / 10 ^ 12"

section \<open>Projection onto the capped simplex\<close>

text \<open>The weight of a symbol after shifting all values down by \<open>mid\<close>, and the total of them.\<close>

definition shifted :: "flt \<Rightarrow> flt \<Rightarrow> flt \<Rightarrow> flt" where
  "shifted cap v mid = max 0 (min cap (v - mid))"

definition shifted_total :: "weights \<Rightarrow> weights \<Rightarrow> flt \<Rightarrow> string list \<Rightarrow> flt \<Rightarrow> flt" where
  "shifted_total values caps budget symbols mid =
     sum_list (map (\<lambda>s. shifted (dget_or caps s budget) (dget_or values s 0) mid) symbols)"

fun bisect :: "nat \<Rightarrow> (flt \<Rightarrow> flt) \<Rightarrow> flt \<Rightarrow> flt \<Rightarrow> flt \<Rightarrow> flt" where
  "bisect 0 f budget lower upper = upper"
| "bisect (Suc n) f budget lower upper =
     (let mid = (lower + upper) / 2 in
      if budget < f mid then bisect n f budget mid upper else bisect n f budget lower mid)"

definition min_of :: "flt list \<Rightarrow> flt" where
  "min_of xs = fold min (tl xs) (hd xs)"

definition max_of :: "flt list \<Rightarrow> flt" where
  "max_of xs = fold max (tl xs) (hd xs)"

definition project_capped_simplex :: "weights \<Rightarrow> weights \<Rightarrow> flt \<Rightarrow> weights" where
  "project_capped_simplex values caps budget =
     (let symbols = sort (dkeys values) in
      if symbols = [] \<or> budget \<le> 0 then []
      else let clipped = map (\<lambda>s. (s, min (max 0 (dget_or values s 0)) (max 0 (dget_or caps s budget)))) symbols in
        if sum_list (dvals clipped) \<le> budget + dust then filter (\<lambda>(s, w). dust < w) clipped
        else let lower = min_of (map (\<lambda>s. dget_or values s 0 - dget_or caps s budget) symbols);
                 upper = max_of (map (\<lambda>s. dget_or values s 0) symbols);
                 up = bisect 80 (shifted_total values caps budget symbols) budget lower upper
             in filter (\<lambda>(s, w). dust < w)
                  (map (\<lambda>s. (s, shifted (dget_or caps s budget) (dget_or values s 0) up)) symbols))"

section \<open>Turnover\<close>

definition turnover :: "weights \<Rightarrow> weights \<Rightarrow> flt" where
  "turnover current target = sum_list (map (\<lambda>s. \<bar>dget_or target s 0 - dget_or current s 0\<bar>)
     (sorted_union (dkeys current) (dkeys target)))"

definition compress_turnover :: "weights \<Rightarrow> weights \<Rightarrow> flt \<Rightarrow> weights" where
  "compress_turnover current target turnover_cap =
     (let requested = turnover current target in
      if requested \<le> 0 then target
      else let scale = min 1 (turnover_cap / requested) in
        filter (\<lambda>(s, w). dust < w) (map (\<lambda>s. (s, dget_or current s 0 + scale * (dget_or target s 0 - dget_or current s 0)))
          (sorted_union (dkeys current) (dkeys target))))"

section \<open>Filling the budget\<close>

text \<open>One round hands the residual to the expandable symbols in proportion to their priority, each up
  to its room; it returns the weights and what was consumed.\<close>

definition prio :: "weights \<Rightarrow> string \<Rightarrow> flt" where
  "prio priority s = max (dget_or priority s 0) (1 / 10 ^ 8)"

fun fill_round :: "weights \<Rightarrow> (string \<Rightarrow> flt) \<Rightarrow> flt \<Rightarrow> flt \<Rightarrow> string list \<Rightarrow> weights \<times> flt \<Rightarrow> weights \<times> flt" where
  "fill_round caps pr residual denom [] (adjusted, consumed) = (adjusted, consumed)"
| "fill_round caps pr residual denom (s # ss) (adjusted, consumed) =
     (let room = dget_or caps s 0 - dget_or adjusted s 0; share = residual * pr s / denom; add = min room share in
      fill_round caps pr residual denom ss
        (if 0 < add then (dset adjusted s (dget_or adjusted s 0 + add), consumed + add) else (adjusted, consumed)))"

fun fill_rounds :: "nat \<Rightarrow> weights \<Rightarrow> (string \<Rightarrow> flt) \<Rightarrow> flt \<Rightarrow> weights \<Rightarrow> weights" where
  "fill_rounds 0 caps pr residual adjusted = adjusted"
| "fill_rounds (Suc n) caps pr residual adjusted =
     (let expandable = map fst (filter (\<lambda>(s, cap). dust < cap - dget_or adjusted s 0) caps) in
      if expandable = [] \<or> residual \<le> dust then adjusted
      else let denom = sum_list (map pr expandable) in
        if denom \<le> 0 then adjusted
        else case fill_round caps pr residual denom expandable (adjusted, 0) of
            (adjusted', consumed) \<Rightarrow>
              if consumed \<le> dust then adjusted'
              else fill_rounds n caps pr (residual - consumed) adjusted')"

definition fill_to_budget :: "weights \<Rightarrow> weights \<Rightarrow> flt \<Rightarrow> weights \<Rightarrow> weights" where
  "fill_to_budget ws caps budget priority =
     (let tot = sum_list (dvals ws) in
      if budget - dust \<le> tot then ws
      else filter (\<lambda>(s, w). dust < w) (fill_rounds 12 caps (prio priority) (budget - tot) ws))"

definition blend_targets :: "weights \<Rightarrow> weights \<Rightarrow> flt \<Rightarrow> weights \<Rightarrow> flt \<Rightarrow> weights" where
  "blend_targets base alternative strength caps budget =
     (if strength \<le> 0 \<or> alternative = [] then base
      else project_capped_simplex
        (map (\<lambda>s. (s, (1 - strength) * dget_or base s 0 + strength * dget_or alternative s 0))
          (sorted_union (dkeys base) (dkeys alternative))) caps budget)"

section \<open>Covariance\<close>

definition safe_positive :: "flt \<Rightarrow> flt" where
  "safe_positive x = (if x < 0 then 0 else x)"

definition fallback_variance :: "weights \<Rightarrow> string \<Rightarrow> flt" where
  "fallback_variance vols s = (max (safe_positive (dget_or vols s (1 / 5))) (1 / 10 ^ 8))\<^sup>2"

definition tabulate :: "nat \<Rightarrow> (nat \<Rightarrow> nat \<Rightarrow> flt) \<Rightarrow> matrix" where
  "tabulate n f = map (\<lambda>i. map (f i) [0..<n]) [0..<n]"

definition entry :: "matrix \<Rightarrow> nat \<Rightarrow> nat \<Rightarrow> flt" where
  "entry m i j = m ! i ! j"

definition is_square :: "matrix \<Rightarrow> bool" where
  "is_square m = list_all (\<lambda>r. length r = length m) m"

text \<open>\<open>{symbol: i for i, symbol in enumerate(symbols)}\<close>.\<close>

definition index_of :: "string list \<Rightarrow> (string, nat) dict" where
  "index_of symbols = dict_of (zip symbols [0..<length symbols])"

text \<open>An index of \<open>covariance_symbols\<close> beyond the matrix raises.\<close>

definition align_covariance ::
  "string list \<Rightarrow> string list \<Rightarrow> matrix option \<Rightarrow> weights \<Rightarrow> matrix option res" where
  "align_covariance all_symbols covariance_symbols covariance vols =
     (let n = length all_symbols in
      case covariance of
        None \<Rightarrow> if vols = [] then Inr None
          else Inr (Some (tabulate n (\<lambda>i j. if i = j then fallback_variance vols (all_symbols ! i) else 0)))
      | Some full \<Rightarrow>
          if \<not> is_square full then Inr None
          else let idx = map_of (index_of covariance_symbols) in
            if list_ex (\<lambda>s. case idx s of Some k \<Rightarrow> length full \<le> k | None \<Rightarrow> False) all_symbols
            then Inl KeyError
            else let cell = (\<lambda>i j. case (idx (all_symbols ! i), idx (all_symbols ! j)) of
                       (Some a, Some b) \<Rightarrow> entry full a b | _ \<Rightarrow> 0);
                     diag = (\<lambda>i j. if i = j \<and> cell i i \<le> 0 then fallback_variance vols (all_symbols ! i) else cell i j)
                 in Inr (Some (tabulate n (\<lambda>i j.
                      (diag i j + diag j i) / 2 + (if i = j then 1 / 10 ^ 10 else 0)))))"

definition lift_diagonal :: "matrix \<Rightarrow> flt \<Rightarrow> matrix" where
  "lift_diagonal m shift = tabulate (length m) (\<lambda>i j. entry m i j + (if i = j then shift else 0))"

definition ensure_positive_definite :: "(matrix \<Rightarrow> flt list option) \<Rightarrow> matrix \<Rightarrow> matrix \<times> bool" where
  "ensure_positive_definite eig sigma =
     (if sigma = [] then (sigma, True)
      else case eig sigma of
        None \<Rightarrow> (sigma, True)
      | Some es \<Rightarrow>
          (let lo = min_of es; hi = max_of es in
           if hi \<le> 0 then (sigma, True)
           else if lo \<le> max (1 / 10 ^ 8) (hi / 10 ^ 6)
           then (if 0 < lo
             then (let lifted = lift_diagonal sigma ((1 / 10 ^ 8 - lo) + 1 / 10 ^ 8) in
               case eig lifted of
                 None \<Rightarrow> (sigma, True)
               | Some ls \<Rightarrow>
                   if 0 < max_of ls \<and> max (1 / 10 ^ 10) (max_of ls / 10 ^ 6) < min_of ls
                   then (lifted, False) else (sigma, True))
             else (sigma, True))
           else (sigma, False)))"

section \<open>Risk shaping\<close>

definition risk_budget_target ::
  "(flt \<Rightarrow> flt) \<Rightarrow> weights \<Rightarrow> string list \<Rightarrow> flt \<Rightarrow> weights \<Rightarrow> weights \<Rightarrow> matrix \<Rightarrow> weights" where
  "risk_budget_target sqrt_fn requested all_symbols budget caps vols sigma =
     (let vol = (\<lambda>(i, s). case map_of vols s of
            Some v \<Rightarrow> if v \<le> 0 then sqrt_fn (max (entry sigma i i) (1 / 10 ^ 10)) else v
          | None \<Rightarrow> sqrt_fn (max (entry sigma i i) (1 / 10 ^ 10)));
          scores = map (\<lambda>(i, s). (s, 1 / max (vol (i, s)) (1 / 10 ^ 8)))
            (filter (\<lambda>(i, s). 0 < dget_or requested s 0) (enumerate 0 all_symbols));
          tot = sum_list (dvals scores)
      in if scores = [] then []
         else project_capped_simplex (map (\<lambda>(s, x). (s, budget * x / tot)) scores) caps budget)"

definition mat_vec :: "matrix \<Rightarrow> flt list \<Rightarrow> flt list" where
  "mat_vec m v = map (\<lambda>r. sum_list (map2 (*) r v)) m"

definition diag_max :: "matrix \<Rightarrow> flt" where
  "diag_max m = (if m = [] then 0 else max_of (map (\<lambda>i. entry m i i) [0..<length m]))"

text \<open>One gradient step over the symbols of the target, projected and filled; the loop stops when no
  weight moves by more than \<open>1e-9\<close>.  A covariance whose size is not the number of symbols does not
  multiply (the code raises).\<close>

definition gradient_step ::
  "string list \<Rightarrow> flt list \<Rightarrow> matrix \<Rightarrow> weights \<Rightarrow> flt \<Rightarrow> flt \<Rightarrow> flt \<Rightarrow> weights \<Rightarrow> flt list \<Rightarrow> flt list" where
  "gradient_step symbols t sigma caps budget risk_aversion step target w =
     (let grad = map2 (\<lambda>(x, y) z. (x - y) + risk_aversion * z) (zip w t) (mat_vec sigma w);
          candidate = zip symbols (map2 (\<lambda>x g. x - step * g) w grad);
          projected = fill_to_budget (project_capped_simplex candidate caps budget) caps budget
            (map (\<lambda>s. (s, max (dget_or target s 0) (1 / 10 ^ 8))) symbols)
      in map (\<lambda>s. dget_or projected s 0) symbols)"

fun gradient_loop :: "nat \<Rightarrow> (flt list \<Rightarrow> flt list) \<Rightarrow> flt list \<Rightarrow> flt list" where
  "gradient_loop 0 f w = w"
| "gradient_loop (Suc n) f w =
     (let w' = f w in
      if max_of (map2 (\<lambda>a b. \<bar>a - b\<bar>) w' w) \<le> 1 / 10 ^ 9 then w' else gradient_loop n f w')"

definition covariance_projected_gradient ::
  "weights \<Rightarrow> weights \<Rightarrow> matrix \<Rightarrow> weights \<Rightarrow> flt \<Rightarrow> flt \<Rightarrow> weights res" where
  "covariance_projected_gradient initial target sigma caps budget risk_aversion =
     (if risk_aversion \<le> 0 then Inr initial
      else let symbols = sort (dkeys target) in
        if symbols = [] then Inr []
        else if \<not> list_all (dhas caps) symbols then Inl KeyError
        else if length sigma \<noteq> length symbols then Inl ValueError
        else let cap_vec = map (\<lambda>s. (s, dget_or caps s 0)) symbols;
                 t = map (\<lambda>s. dget_or target s 0) symbols;
                 step = 1 / max 1 (1 + risk_aversion * diag_max sigma * 4);
                 w = gradient_loop 120 (gradient_step symbols t sigma cap_vec budget risk_aversion step target)
                       (map (\<lambda>s. dget_or initial s 0) symbols)
             in Inr (filter (\<lambda>(s, x). dust < x) (zip symbols w)))"

section \<open>The constrained allocator\<close>

record allocator_result =
  ar_weights :: weights
  ar_details :: payload

text \<open>The covariance the shaping uses, and whether it was found degenerate.\<close>

definition shaping_covariance ::
  "(matrix \<Rightarrow> flt list option) \<Rightarrow> matrix option \<Rightarrow> matrix option \<times> bool" where
  "shaping_covariance eig aligned = (case aligned of
     None \<Rightarrow> (None, False)
   | Some m \<Rightarrow> (case ensure_positive_definite eig m of
       (m', degenerate) \<Rightarrow> (if degenerate then None else Some m', degenerate)))"

record alloc_params =
  ap_budget :: flt
  ap_max_position_weight :: "flt option"
  ap_max_daily_turnover :: "flt option"
  ap_covariance_symbols :: "string list"
  ap_covariance_matrix :: "matrix option"
  ap_covariance_risk_aversion :: flt
  ap_risk_budget_strength :: flt
  ap_volatility :: weights

definition positive_weights :: "weights \<Rightarrow> weights" where
  "positive_weights ws = map (\<lambda>(s, w). (s, max 0 w)) (filter (\<lambda>(s, w). 0 < w) ws)"

definition opt_json :: "flt option \<Rightarrow> json" where
  "opt_json x = (case x of None \<Rightarrow> JNull | Some v \<Rightarrow> JFloat v)"

definition hard_constraints :: "flt \<Rightarrow> flt option \<Rightarrow> json" where
  "hard_constraints budget cap = JObj [(''budget'', JFloat budget), (''max_position_weight'', opt_json cap)]"

definition weights_json :: "weights \<Rightarrow> json" where
  "weights_json ws = JObj (map (\<lambda>(s, w). (s, JFloat w)) ws)"

text \<open>The target after risk shaping: the optimised target, the risk-budget target and whether a
  covariance was used.\<close>

definition shaped_target ::
  "(flt \<Rightarrow> flt) \<Rightarrow> alloc_params \<Rightarrow> weights \<Rightarrow> string list \<Rightarrow> weights \<Rightarrow> flt \<Rightarrow> weights \<Rightarrow> matrix option
    \<Rightarrow> (weights \<times> weights \<times> bool) res" where
  "shaped_target sqrt_fn prm requested all_symbols caps budget feasible sigma =
     (case sigma of
        None \<Rightarrow> Inr (feasible, [], False)
      | Some m \<Rightarrow>
          if 0 < ap_covariance_risk_aversion prm \<or> 0 < ap_risk_budget_strength prm
          then (let rb = (if 0 < ap_risk_budget_strength prm
                    then risk_budget_target sqrt_fn requested all_symbols budget caps (ap_volatility prm) m else []);
                    blended = (if 0 < ap_risk_budget_strength prm
                    then blend_targets feasible rb (ap_risk_budget_strength prm) caps budget else feasible)
                in rbind (covariance_projected_gradient blended blended m caps budget
                     (ap_covariance_risk_aversion prm)) (\<lambda>w. Inr (w, rb, True)))
          else Inr (feasible, [], False))"

text \<open>The tail of the function: the turnover cap.  When the compressed weights still turn over too much,
  the hard constraints win and the uncompressed target is kept.\<close>

definition cap_turnover :: "weights \<Rightarrow> weights \<Rightarrow> weights \<Rightarrow> flt \<Rightarrow> flt \<Rightarrow> weights \<times> bool" where
  "cap_turnover current target caps budget turnover_cap =
     (let compressed = project_capped_simplex (compress_turnover current target turnover_cap) caps budget in
      if turnover_cap + 1 / 10 ^ 9 < turnover current compressed then (target, True) else (compressed, False))"

text \<open>The result and its details, from the optimised target.\<close>

definition allocator_outcome ::
  "alloc_params \<Rightarrow> weights \<Rightarrow> weights \<Rightarrow> flt \<Rightarrow> weights \<Rightarrow> bool \<Rightarrow> weights \<Rightarrow> weights \<Rightarrow> bool \<Rightarrow> allocator_result" where
  "allocator_outcome prm current caps budget feasible degenerate optimized rb used =
     (let rt = turnover current feasible; ot = turnover current optimized;
          details = (\<lambda>et scale extra infeasible.
            [(''requested_turnover'', JFloat rt), (''optimized_turnover'', JFloat ot),
             (''effective_turnover'', JFloat et), (''turnover_scale'', JFloat scale)] @ extra @
            [(''turnover_cap_infeasible'', JBool infeasible), (''covariance_used'', JBool used),
             (''covariance_degenerate'', JBool degenerate), (''risk_budget_target'', weights_json rb),
             (''feasibility_clamped'', JBool (budget < ap_budget prm)),
             (''feasibility_original_budget'', JFloat (ap_budget prm)),
             (''hard_constraints'', hard_constraints budget (ap_max_position_weight prm))])
      in case ap_max_daily_turnover prm of
           None \<Rightarrow> \<lparr>ar_weights = optimized, ar_details = details ot 1 [] False\<rparr>
         | Some tc \<Rightarrow>
             if ot \<le> tc + dust
             then \<lparr>ar_weights = optimized, ar_details = details ot 1 [] False\<rparr>
             else case cap_turnover current optimized caps budget tc of (compressed, infeasible) \<Rightarrow>
               \<lparr>ar_weights = compressed,
                ar_details = details (turnover current compressed) (if 0 < ot then min 1 (tc / ot) else 1)
                  [(''turnover_cap'', JFloat tc)] infeasible\<rparr>)"

text \<open>The budget actually projected on: clamped to the total of the caps when they cannot hold it.\<close>

definition clamped_budget :: "weights \<Rightarrow> string list \<Rightarrow> flt \<Rightarrow> flt" where
  "clamped_budget caps all_symbols budget =
     (let sum_caps = sum_list (map (\<lambda>s. max 0 (dget_or caps s 0)) all_symbols) in
      if sum_caps + 1 / 10 ^ 9 < budget then sum_caps else budget)"

definition optimize_target_weights ::
  "(matrix \<Rightarrow> flt list option) \<Rightarrow> (flt \<Rightarrow> flt) \<Rightarrow> weights \<Rightarrow> weights \<Rightarrow> alloc_params \<Rightarrow> allocator_result res" where
  "optimize_target_weights eig sqrt_fn requested_weights current_weights prm =
     (let requested = positive_weights requested_weights; current = positive_weights current_weights;
          all_symbols = sorted_union (dkeys requested) (dkeys current);
          empty_turnover = turnover current []
      in if all_symbols = [] \<or> ap_budget prm \<le> 0
         then Inr \<lparr>ar_weights = [], ar_details = [(''requested_turnover'', JFloat empty_turnover),
           (''effective_turnover'', JFloat empty_turnover), (''turnover_scale'', JFloat 0),
           (''turnover_cap_infeasible'', JBool False), (''covariance_used'', JBool False),
           (''covariance_degenerate'', JBool False), (''feasibility_clamped'', JBool False),
           (''feasibility_original_budget'', JFloat (ap_budget prm)),
           (''hard_constraints'', hard_constraints (ap_budget prm) (ap_max_position_weight prm))]\<rparr>
         else
           let cap = (case ap_max_position_weight prm of Some c \<Rightarrow> c | None \<Rightarrow> ap_budget prm);
               caps = map (\<lambda>s. (s, cap)) all_symbols;
               budget = clamped_budget caps all_symbols (ap_budget prm);
               feasible = project_capped_simplex (map (\<lambda>s. (s, dget_or requested s 0)) all_symbols) caps budget
           in rbind (align_covariance all_symbols (ap_covariance_symbols prm) (ap_covariance_matrix prm)
                (ap_volatility prm)) (\<lambda>aligned.
              case shaping_covariance eig aligned of (sigma, degenerate) \<Rightarrow>
              rbind (shaped_target sqrt_fn prm requested all_symbols caps budget feasible sigma)
                (\<lambda>(optimized, rb, used).
                  Inr (allocator_outcome prm current caps budget feasible degenerate optimized rb used))))"

section \<open>Bisection\<close>

lemma shifted_range: "0 \<le> shifted cap v m" "shifted cap v m \<le> max 0 cap"
  by (auto simp: shifted_def)

lemma shifted_lipschitz: "l \<le> u \<Longrightarrow> shifted cap v l - shifted cap v u \<le> u - l"
  by (auto simp: shifted_def)

lemma shifted_total_lipschitz:
  "l \<le> u \<Longrightarrow> shifted_total values caps budget symbols l - shifted_total values caps budget symbols u
    \<le> of_nat (length symbols) * (u - l)"
proof (induction symbols)
  case Nil
  then show ?case by (simp add: shifted_total_def)
next
  case (Cons s symbols)
  have "shifted (dget_or caps s budget) (dget_or values s 0) l - shifted (dget_or caps s budget) (dget_or values s 0) u
      \<le> u - l"
    using Cons.prems by (rule shifted_lipschitz)
  then show ?case using Cons by (simp add: shifted_total_def algebra_simps)
qed

text \<open>The upper end never exceeds the budget, and a point that does lies within the halved interval.\<close>

lemma bisect_upper: "f upper \<le> budget \<Longrightarrow> f (bisect n f budget lower upper) \<le> budget"
  by (induction n f budget lower upper rule: bisect.induct) (auto simp: Let_def)

lemma bisect_bracket:
  "f upper \<le> budget \<Longrightarrow> budget < f lower \<Longrightarrow> lower \<le> upper \<Longrightarrow>
    \<exists>l. budget < f l \<and> l \<le> bisect n f budget lower upper
      \<and> bisect n f budget lower upper - l = (upper - lower) / 2 ^ n"
proof (induction n f budget lower upper rule: bisect.induct)
  case (1 f budget lower upper)
  then show ?case by (intro exI [of _ lower]) simp
next
  case (2 n f budget lower upper)
  define mid where "mid = (lower + upper) / 2"
  show ?case
  proof (cases "budget < f mid")
    case True
    have "\<exists>l. budget < f l \<and> l \<le> bisect n f budget mid upper
        \<and> bisect n f budget mid upper - l = (upper - mid) / 2 ^ n"
      by (rule 2(1)) (use True 2 in \<open>auto simp: mid_def\<close>)
    moreover have "(upper - mid) / 2 ^ n = (upper - lower) / 2 ^ Suc n"
      by (simp add: mid_def field_simps)
    ultimately show ?thesis using True by (simp add: Let_def mid_def [symmetric])
  next
    case False
    have "\<exists>l. budget < f l \<and> l \<le> bisect n f budget lower mid
        \<and> bisect n f budget lower mid - l = (mid - lower) / 2 ^ n"
      by (rule 2(2)) (use False 2 in \<open>auto simp: mid_def\<close>)
    moreover have "(mid - lower) / 2 ^ n = (upper - lower) / 2 ^ Suc n"
      by (simp add: mid_def field_simps)
    ultimately show ?thesis using False by (simp add: Let_def mid_def [symmetric])
  qed
qed

lemma fold_max_ge: "a \<le> fold max xs (a :: flt) \<and> (\<forall>x \<in> set xs. x \<le> fold max xs a)"
proof (induction xs arbitrary: a)
  case (Cons x xs)
  show ?case using Cons.IH [of "max x a"] by auto
qed simp

lemma fold_min_le: "fold min xs (a :: flt) \<le> a \<and> (\<forall>x \<in> set xs. fold min xs a \<le> x)"
proof (induction xs arbitrary: a)
  case (Cons x xs)
  show ?case using Cons.IH [of "min x a"] by auto
qed simp

lemma max_of_ge: "x \<in> set xs \<Longrightarrow> x \<le> max_of xs"
  using fold_max_ge [of "hd xs" "tl xs"] by (cases xs) (auto simp: max_of_def)

lemma min_of_le: "x \<in> set xs \<Longrightarrow> min_of xs \<le> x"
  using fold_min_le [of "tl xs" "hd xs"] by (cases xs) (auto simp: min_of_def)

section \<open>Feasible weights\<close>

definition feasible :: "flt \<Rightarrow> flt \<Rightarrow> weights \<Rightarrow> bool" where
  "feasible cap budget ws \<longleftrightarrow> dict_ok ws \<and> (\<forall>(s, w) \<in> set ws. 0 < w \<and> w \<le> cap) \<and> sum_list (dvals ws) \<le> budget"

lemma sum_filter_le:
  assumes "\<forall>(s, w) \<in> set ws. 0 \<le> (w :: flt)"
  shows "sum_list (dvals (filter P ws)) \<le> sum_list (dvals ws)"
  using assms by (induction ws) (auto simp: add_increasing)

lemma sum_list_all_zero: "\<forall>x \<in> set xs. f x = (0 :: flt) \<Longrightarrow> sum_list (map f xs) = 0"
  by (induction xs) auto

lemma comp_pair [simp]: "snd \<circ> (\<lambda>s. (s, f s)) = f" "fst \<circ> (\<lambda>s. (s, f s)) = (\<lambda>s. s)"
  by auto

lemma dict_ok_tabulate: "distinct ss \<Longrightarrow> dict_ok (map (\<lambda>s. (s, f s)) ss)"
  by (simp add: dict_ok_def comp_def)

lemma positive_dust: "dust < w \<Longrightarrow> 0 < w"
  by (simp add: dust_def order.strict_trans1 [of 0 "1 / 10 ^ 12" w])

text \<open>The candidates of the projection (clipped, or shifted) are within the caps and the budget.\<close>

lemma project_cases:
  assumes "dict_ok values" and "values \<noteq> []" and "0 < budget"
  obtains f where "project_capped_simplex values caps budget =
      filter (\<lambda>(s, w). dust < w) (map (\<lambda>s. (s, f s)) (sort (dkeys values)))"
    "\<forall>s. 0 \<le> f s \<and> f s \<le> max 0 (dget_or caps s budget)"
    "sum_list (map f (sort (dkeys values))) \<le> budget + dust"
proof -
  let ?ss = "sort (dkeys values)"
  let ?clip = "\<lambda>s. min (max 0 (dget_or values s 0)) (max 0 (dget_or caps s budget))"
  let ?v = "\<lambda>s. dget_or values s 0" and ?c = "\<lambda>s. dget_or caps s budget"
  let ?lo = "min_of (map (\<lambda>s. ?v s - ?c s) ?ss)" and ?hi = "max_of (map ?v ?ss)"
  let ?up = "bisect 80 (shifted_total values caps budget ?ss) budget ?lo ?hi"
  have "length ?ss \<noteq> 0" using assms(2) by simp
  then have ne: "(?ss = [] \<or> budget \<le> 0) = False" using assms(3) by (metis length_0_conv not_less)
  have vals: "dvals (map (\<lambda>s. (s, g s)) ?ss) = map g ?ss" for g :: "string \<Rightarrow> flt"
    by (simp add: comp_def)
  show thesis
  proof (cases "sum_list (map ?clip ?ss) \<le> budget + dust")
    case True
    show thesis
    proof (rule that [of ?clip])
      show "project_capped_simplex values caps budget =
          filter (\<lambda>(s, w). dust < w) (map (\<lambda>s. (s, ?clip s)) ?ss)"
        unfolding project_capped_simplex_def Let_def ne vals if_False using True by (simp only: if_True)
    qed (use True in auto)
  next
    case False
    have "shifted (?c s) (?v s) ?hi = 0" if "s \<in> set ?ss" for s
    proof -
      have "?v s \<le> ?hi" by (rule max_of_ge) (use that in auto)
      then show ?thesis by (simp add: shifted_def)
    qed
    then have "shifted_total values caps budget ?ss ?hi = 0"
      unfolding shifted_total_def by (intro sum_list_all_zero) auto
    then have "shifted_total values caps budget ?ss ?hi \<le> budget"
      using assms(3) by linarith
    then have "shifted_total values caps budget ?ss ?up \<le> budget"
      by (rule bisect_upper)
    then have sum: "sum_list (map (\<lambda>s. shifted (?c s) (?v s) ?up) ?ss) \<le> budget + dust"
      by (simp add: shifted_total_def dust_def)
    show thesis
    proof (rule that [of "\<lambda>s. shifted (?c s) (?v s) ?up"])
      show "project_capped_simplex values caps budget =
          filter (\<lambda>(s, w). dust < w) (map (\<lambda>s. (s, shifted (?c s) (?v s) ?up)) ?ss)"
        unfolding project_capped_simplex_def Let_def ne vals if_False using False by (simp only: if_False)
    qed (use sum shifted_range in auto)
  qed
qed

lemma project_feasible:
  assumes "dict_ok values" and "0 \<le> budget + dust" and "\<forall>s \<in> set (dkeys values). dget_or caps s budget \<le> cap"
  shows "feasible cap (budget + dust) (project_capped_simplex values caps budget)"
    "set (dkeys (project_capped_simplex values caps budget)) \<subseteq> set (dkeys values)"
proof -
  let ?r = "project_capped_simplex values caps budget"
  have "feasible cap (budget + dust) ?r \<and> set (dkeys ?r) \<subseteq> set (dkeys values)"
  proof (cases "values = [] \<or> budget \<le> 0")
    case True
    then have "?r = []" by (auto simp: project_capped_simplex_def)
    then show ?thesis using assms(2) by (simp add: feasible_def)
  next
    case False
    then have ne: "values \<noteq> []" "0 < budget" by auto
    obtain f where
      r: "?r = filter (\<lambda>(s, w). dust < w) (map (\<lambda>s. (s, f s)) (sort (dkeys values)))"
      and f: "\<forall>s. 0 \<le> f s \<and> f s \<le> max 0 (dget_or caps s budget)"
      and sum: "sum_list (map f (sort (dkeys values))) \<le> budget + dust"
      by (rule project_cases [OF assms(1) ne])
    have "dict_ok ?r"
      unfolding r using assms(1) by (intro dict_ok_filter dict_ok_tabulate) (simp add: dict_ok_def)
    moreover have "0 < w \<and> w \<le> cap" if "(s, w) \<in> set ?r" for s w
    proof -
      from that have "w = f s" "dust < w" "s \<in> set (dkeys values)" by (auto simp: r)
      moreover from this have "0 < w" using positive_dust by simp
      moreover have "f s \<le> max 0 (dget_or caps s budget)" using f by blast
      moreover have "dget_or caps s budget \<le> cap" using assms(3) calculation by blast
      ultimately show ?thesis by (simp add: le_max_iff_disj)
    qed
    moreover have "sum_list (dvals ?r) \<le> sum_list (dvals (map (\<lambda>s. (s, f s)) (sort (dkeys values))))"
      unfolding r by (rule sum_filter_le) (use f in auto)
    moreover have "dvals (map (\<lambda>s. (s, f s)) (sort (dkeys values))) = map f (sort (dkeys values))"
      by (simp add: comp_def)
    moreover have "set (dkeys ?r) \<subseteq> set (dkeys values)" by (force simp: r)
    ultimately show ?thesis using sum by (auto simp: feasible_def)
  qed
  then show "feasible cap (budget + dust) ?r" "set (dkeys ?r) \<subseteq> set (dkeys values)" by simp_all
qed

section \<open>Filling stays feasible\<close>

lemma dvals_id: "map (\<lambda>(k, v). v) d = dvals d"
  by (simp add: case_prod_beta')

lemma sum_dset:
  fixes d :: weights
  assumes "dict_ok d"
  shows "sum_list (dvals (dset d s w)) = sum_list (dvals d) - dget_or d s 0 + w"
  using sum_list_dset [OF assms, of "\<lambda>k v. v" s w]
  by (simp add: dvals_id dget_or_def)

lemma set_dset: "dict_ok d \<Longrightarrow> (k, v) \<in> set (dset d s w) \<longleftrightarrow> (if k = s then v = w else (k, v) \<in> set d)"
  using dict_ok_map_of_iff [of "dset d s w" k v] dict_ok_map_of_iff [of d k v] by auto

text \<open>The state of the fill: feasible weights, a residual that the budget still has room for.\<close>

lemma fill_round_spec:
  assumes "dict_ok adj" and "\<forall>(k, w) \<in> set adj. 0 < w \<and> w \<le> C" and "\<forall>s \<in> set ss. dget_or caps s 0 \<le> C \<and> 0 \<le> pr s"
    and "0 \<le> residual" and "0 < denom" and "fill_round caps pr residual denom ss (adj, c) = (adj', c')"
  shows "dict_ok adj' \<and> (\<forall>(k, w) \<in> set adj'. 0 < w \<and> w \<le> C)
    \<and> set (dkeys adj') \<subseteq> set (dkeys adj) \<union> set ss
    \<and> sum_list (dvals adj') = sum_list (dvals adj) + (c' - c)
    \<and> 0 \<le> c' - c \<and> c' - c \<le> residual * sum_list (map pr ss) / denom
    \<and> (\<forall>s. dget_or adj s 0 \<le> dget_or adj' s 0)"
  using assms
proof (induction ss arbitrary: adj c)
  case Nil
  then show ?case by simp
next
  case (Cons s ss)
  define add where "add = min (dget_or caps s 0 - dget_or adj s 0) (residual * pr s / denom)"
  define new where "new = dset adj s (dget_or adj s 0 + add)"
  have fr: "fill_round caps pr residual denom (s # ss) (adj, c) =
      fill_round caps pr residual denom ss (if 0 < add then (new, c + add) else (adj, c))"
    by (simp only: fill_round.simps Let_def add_def new_def)
  have share: "0 \<le> residual * pr s / denom" using Cons.prems by simp
  have old: "0 \<le> dget_or adj s 0"
    using Cons.prems(1,2) by (auto simp: dget_or_def split: option.split dest!: map_of_SomeD)
  show ?case
  proof (cases "0 < add")
    case True
    have ok: "dict_ok new" using Cons.prems(1) by (simp add: new_def)
    have bnd: "0 < dget_or adj s 0 + add \<and> dget_or adj s 0 + add \<le> C"
      using True old Cons.prems(3) by (auto simp: add_def)
    then have vals: "\<forall>(k, w) \<in> set new. 0 < w \<and> w \<le> C"
      using Cons.prems(1,2) by (auto simp: new_def set_dset split: if_splits)
    have sum: "sum_list (dvals new) = sum_list (dvals adj) + add"
      using sum_dset [OF Cons.prems(1)] by (simp add: new_def)
    have step: "fill_round caps pr residual denom ss (new, c + add) = (adj', c')"
      using Cons.prems(6) True by (simp only: fr if_True)
    have up: "dget_or adj k 0 \<le> dget_or new k 0" for k
      using True by (simp add: new_def dict_simps)
    have caps: "\<forall>s \<in> set ss. dget_or caps s 0 \<le> C \<and> 0 \<le> pr s" using Cons.prems(3) by simp
    note ih = Cons.IH [OF ok vals caps Cons.prems(4,5) step]
    have "add \<le> residual * pr s / denom" by (simp add: add_def)
    then have "add + residual * sum_list (map pr ss) / denom \<le> residual * sum_list (map pr (s # ss)) / denom"
      by (simp add: distrib_left add_divide_distrib)
    with ih have bound: "c' - c \<le> residual * sum_list (map pr (s # ss)) / denom" by linarith
    have keys: "set (dkeys new) = insert s (set (dkeys adj))" by (simp only: new_def set_dkeys_dset)
    have grow: "\<forall>k. dget_or adj k 0 \<le> dget_or adj' k 0"
    proof
      fix k
      have "dget_or new k 0 \<le> dget_or adj' k 0" using ih by blast
      with up [of k] show "dget_or adj k 0 \<le> dget_or adj' k 0" by (rule order_trans)
    qed
    have "sum_list (dvals adj') = sum_list (dvals adj) + (c' - c)" "0 \<le> c' - c"
      using ih sum True by linarith+
    moreover have "set (dkeys adj') \<subseteq> set (dkeys adj) \<union> set (s # ss)"
      using ih unfolding keys by auto
    ultimately show ?thesis using ih bound grow by blast
  next
    case False
    have step: "fill_round caps pr residual denom ss (adj, c) = (adj', c')"
      using Cons.prems(6) False by (simp only: fr if_False)
    have "residual * sum_list (map pr ss) / denom \<le> residual * sum_list (map pr (s # ss)) / denom"
      using share by (simp add: distrib_left add_divide_distrib)
    moreover have "\<forall>s \<in> set ss. dget_or caps s 0 \<le> C \<and> 0 \<le> pr s" using Cons.prems(3) by simp
    note ih = Cons.IH [OF Cons.prems(1,2) this Cons.prems(4,5) step]
    moreover have "set (dkeys adj') \<subseteq> set (dkeys adj) \<union> set (s # ss)" using ih by auto
    ultimately show ?thesis using order_trans by blast
  qed
qed

lemma fill_rounds_spec:
  assumes "dict_ok adj" and "\<forall>(k, w) \<in> set adj. 0 < w \<and> w \<le> C" and "\<forall>s. dget_or caps s 0 \<le> C" and "\<forall>s. 0 \<le> pr s"
    and "sum_list (dvals adj) + residual \<le> B" and "0 \<le> residual"
  shows "feasible C B (fill_rounds n caps pr residual adj)
    \<and> set (dkeys (fill_rounds n caps pr residual adj)) \<subseteq> set (dkeys adj) \<union> set (dkeys caps)
    \<and> (\<forall>s. dget_or adj s 0 \<le> dget_or (fill_rounds n caps pr residual adj) s 0)"
  using assms
proof (induction n caps pr residual adj rule: fill_rounds.induct)
  case (1 caps pr residual adj)
  then show ?case by (auto simp: feasible_def)
next
  case (2 n caps pr residual adj)
  define ex where "ex = map fst (filter (\<lambda>(s, cap). dust < cap - dget_or adj s 0) caps)"
  define denom where "denom = sum_list (map pr ex)"
  show ?case
  proof (cases "ex = [] \<or> residual \<le> dust \<or> denom \<le> 0")
    case True
    then have "fill_rounds (Suc n) caps pr residual adj = adj"
      by (auto simp: Let_def ex_def [symmetric] denom_def [symmetric])
    then show ?thesis using "2.prems" by (auto simp: feasible_def)
  next
    case False
    then have d: "0 < denom" by simp
    obtain adj' c' where r: "fill_round caps pr residual denom ex (adj, 0) = (adj', c')"
      by (cases "fill_round caps pr residual denom ex (adj, 0)")
    have sp: "dict_ok adj' \<and> (\<forall>(k, w) \<in> set adj'. 0 < w \<and> w \<le> C)
        \<and> set (dkeys adj') \<subseteq> set (dkeys adj) \<union> set ex
        \<and> sum_list (dvals adj') = sum_list (dvals adj) + (c' - 0)
        \<and> 0 \<le> c' - 0 \<and> c' - 0 \<le> residual * sum_list (map pr ex) / denom
        \<and> (\<forall>s. dget_or adj s 0 \<le> dget_or adj' s 0)"
      using "2.prems" d r by (intro fill_round_spec) auto
    then have c: "c' \<le> residual" using d by (simp add: denom_def)
    have ex: "set ex \<subseteq> set (dkeys caps)" by (auto simp: ex_def)
    show ?thesis
    proof (cases "c' \<le> dust")
      case True
      then have "fill_rounds (Suc n) caps pr residual adj = adj'"
        using False r by (simp add: Let_def ex_def [symmetric] denom_def [symmetric])
      then show ?thesis using sp ex c "2.prems"(5) by (auto simp: feasible_def)
    next
      case c2: False
      then have e: "fill_rounds (Suc n) caps pr residual adj = fill_rounds n caps pr (residual - c') adj'"
        using False r by (simp add: Let_def ex_def [symmetric] denom_def [symmetric])
      have "feasible C B (fill_rounds n caps pr (residual - c') adj')
          \<and> set (dkeys (fill_rounds n caps pr (residual - c') adj')) \<subseteq> set (dkeys adj') \<union> set (dkeys caps)
          \<and> (\<forall>s. dget_or adj' s 0 \<le> dget_or (fill_rounds n caps pr (residual - c') adj') s 0)"
        by (rule "2.IH" [OF ex_def _ denom_def _ r [symmetric]])
           (use False c2 c d sp "2.prems" in \<open>auto\<close>)
      then show ?thesis unfolding e using sp ex order_trans by blast
    qed
  qed
qed

lemma feasible_filter:
  assumes "feasible C B ws"
  shows "feasible C B (filter P ws)"
proof -
  have "sum_list (dvals (filter P ws)) \<le> sum_list (dvals ws)"
    by (rule sum_filter_le) (use assms in \<open>auto simp: feasible_def\<close>)
  then show ?thesis using assms by (auto simp: feasible_def)
qed

lemma feasible_mono: "feasible C B ws \<Longrightarrow> B \<le> B' \<Longrightarrow> feasible C B' ws"
  by (auto simp: feasible_def)

lemma prio_nonneg: "0 \<le> prio priority s"
  by (simp add: prio_def le_max_iff_disj)

lemma fill_to_budget_feasible:
  assumes "feasible C (budget + dust) ws" and "\<forall>s. dget_or caps s 0 \<le> C"
  shows "feasible C (budget + dust) (fill_to_budget ws caps budget priority)"
    "set (dkeys (fill_to_budget ws caps budget priority)) \<subseteq> set (dkeys ws) \<union> set (dkeys caps)"
proof -
  have dust: "0 \<le> dust" by (simp add: dust_def)
  let ?r = "fill_to_budget ws caps budget priority"
  let ?f = "fill_rounds 12 caps (prio priority) (budget - sum_list (dvals ws)) ws"
  have "feasible C (budget + dust) ?r \<and> set (dkeys ?r) \<subseteq> set (dkeys ws) \<union> set (dkeys caps)"
  proof (cases "budget - dust \<le> sum_list (dvals ws)")
    case True
    then have "?r = ws" by (simp add: fill_to_budget_def Let_def)
    then show ?thesis using assms(1) by auto
  next
    case False
    then have r: "?r = filter (\<lambda>(s, w). dust < w) ?f" by (simp add: fill_to_budget_def Let_def)
    have "feasible C budget ?f \<and> set (dkeys ?f) \<subseteq> set (dkeys ws) \<union> set (dkeys caps)"
      using fill_rounds_spec [of ws C caps "prio priority" "budget - sum_list (dvals ws)" budget 12]
        assms False dust prio_nonneg by (simp add: feasible_def)
    then have f: "feasible C budget ?f" "set (dkeys ?f) \<subseteq> set (dkeys ws) \<union> set (dkeys caps)" by auto
    have "feasible C (budget + dust) (filter (\<lambda>(s, w). dust < w) ?f)"
      using feasible_mono [OF feasible_filter [OF f(1)]] dust by simp
    moreover have "set (dkeys (filter (\<lambda>(s, w). dust < w) ?f)) \<subseteq> set (dkeys ?f)" by auto
    ultimately show ?thesis using f(2) unfolding r by blast
  qed
  then show "feasible C (budget + dust) ?r" "set (dkeys ?r) \<subseteq> set (dkeys ws) \<union> set (dkeys caps)"
    by simp_all
qed

section \<open>The whole allocator stays feasible\<close>

lemma zip_map_self: "zip xs (map f xs) = map (\<lambda>x. (x, f x)) xs"
  by (induction xs) auto

text \<open>One gradient step reads its weights off a feasible set of weights over the target's symbols.\<close>

definition readout :: "flt \<Rightarrow> flt \<Rightarrow> string list \<Rightarrow> flt list \<Rightarrow> bool" where
  "readout C B symbols w \<longleftrightarrow> (\<exists>ws. feasible C B ws \<and> set (dkeys ws) \<subseteq> set symbols
     \<and> w = map (\<lambda>s. dget_or ws s 0) symbols)"

lemma mat_vec_length [simp]: "length (mat_vec m v) = length m"
  by (simp add: mat_vec_def)

lemma dget_caps_le:
  assumes "\<forall>(s, c) \<in> set caps. c \<le> C" and "0 \<le> C"
  shows "dget_or caps s 0 \<le> (C :: flt)"
  using assms by (auto simp: dget_or_def split: option.split dest!: map_of_SomeD)

lemma gradient_step_readout:
  assumes "distinct symbols" and "length w = length symbols" and "length t = length symbols"
    and "length sigma = length symbols" and "0 \<le> budget" and "0 \<le> C" and caps: "dkeys caps = symbols" "\<forall>(s, c) \<in> set caps. c \<le> C"
  shows "readout C (budget + dust) symbols (gradient_step symbols t sigma caps budget ra step target w)"
proof -
  define cand where "cand = zip symbols (map2 (\<lambda>x g. x - step * g) w
      (map2 (\<lambda>(x, y) z. (x - y) + ra * z) (zip w t) (mat_vec sigma w)))"
  have keys: "dkeys cand = symbols" using assms by (simp add: cand_def)
  then have ok: "dict_ok cand" using assms(1) by (simp add: dict_ok_def)
  have capget: "dget_or caps s 0 \<le> C" for s using caps(2) assms(6) by (rule dget_caps_le)
  have "\<forall>s \<in> set (dkeys cand). dget_or caps s budget \<le> C"
  proof
    fix s assume "s \<in> set (dkeys cand)"
    then have "s \<in> set (dkeys caps)" by (simp only: keys caps(1))
    then have "map_of caps s \<noteq> None" by (simp add: map_of_eq_None_iff)
    then have "dget_or caps s budget = dget_or caps s 0" by (auto simp: dget_or_def)
    then show "dget_or caps s budget \<le> C" using capget by simp
  qed
  moreover have "0 \<le> budget + dust" using assms(5) by (simp add: dust_def)
  ultimately have p: "feasible C (budget + dust) (project_capped_simplex cand caps budget)"
    "set (dkeys (project_capped_simplex cand caps budget)) \<subseteq> set symbols"
    using project_feasible [OF ok] keys by auto
  define pr where "pr = map (\<lambda>s. (s, max (dget_or target s 0) (1 / 10 ^ 8))) symbols"
  have "feasible C (budget + dust) (fill_to_budget (project_capped_simplex cand caps budget) caps budget pr)"
    "set (dkeys (fill_to_budget (project_capped_simplex cand caps budget) caps budget pr)) \<subseteq> set symbols"
    using fill_to_budget_feasible [OF p(1), of caps pr] capget p(2) caps(1) by auto
  moreover have "gradient_step symbols t sigma caps budget ra step target w =
      map (\<lambda>s. dget_or (fill_to_budget (project_capped_simplex cand caps budget) caps budget pr) s 0) symbols"
    by (simp only: gradient_step_def Let_def cand_def pr_def)
  ultimately show ?thesis unfolding readout_def by blast
qed

lemma readout_length: "readout C B symbols w \<Longrightarrow> length w = length symbols"
  by (auto simp: readout_def)

lemma gradient_loop_readout:
  assumes "\<And>w. length w = length symbols \<Longrightarrow> readout C B symbols (f w)" and "length w = length symbols"
    and "0 < n"
  shows "readout C B symbols (gradient_loop n f w)"
  using assms(2,3)
proof (induction n arbitrary: w)
  case 0
  then show ?case by simp
next
  case (Suc n)
  have r: "readout C B symbols (f w)" using assms(1) Suc.prems(1) by blast
  then have l: "length (f w) = length symbols" by (rule readout_length)
  show ?case
  proof (cases n)
    case 0
    then show ?thesis using r by (simp add: Let_def)
  next
    case (Suc m)
    then show ?thesis using r Suc.IH [OF l] by (simp add: Let_def)
  qed
qed

lemma readout_feasible:
  assumes "readout C B symbols w" and "distinct symbols"
  shows "feasible C B (filter (\<lambda>(s, x). dust < x) (zip symbols w))"
proof -
  obtain ws where ws: "feasible C B ws" "set (dkeys ws) \<subseteq> set symbols" and w: "w = map (\<lambda>s. dget_or ws s 0) symbols"
    using assms(1) by (auto simp: readout_def)
  let ?z = "zip symbols w"
  have z: "?z = map (\<lambda>s. (s, dget_or ws s 0)) symbols" by (simp add: w zip_map_self)
  have ok: "dict_ok ws" and pos: "\<And>s x. (s, x) \<in> set ws \<Longrightarrow> 0 < x \<and> x \<le> C"
    and sum: "sum_list (dvals ws) \<le> B"
    using ws(1) by (auto simp: feasible_def)
  have nn: "0 \<le> dget_or ws s 0" for s
    using pos by (auto simp: dget_or_def split: option.split dest!: map_of_SomeD intro: less_imp_le)
  have "sum_list (map (\<lambda>s. dget_or ws s 0) symbols) = (\<Sum>s\<in>set symbols. dget_or ws s 0)"
    using assms(2) by (simp add: sum_list_distinct_conv_sum_set)
  also have "\<dots> = (\<Sum>s\<in>set (dkeys ws). dget_or ws s 0)"
    by (rule sum.mono_neutral_right) (use ws(2) in \<open>auto simp: dget_or_def split: option.splits dest: map_of_in_keys\<close>)
  also have "\<dots> = sum_list (map (\<lambda>s. dget_or ws s 0) (dkeys ws))"
    using ok by (simp only: sum_list_distinct_conv_sum_set dict_ok_def)
  also have "map (\<lambda>s. dget_or ws s 0) (dkeys ws) = dvals ws"
    using ok by (auto simp: dget_or_def dict_ok_def split: option.splits dest: eq_key_imp_eq_value)
  finally have "sum_list (dvals ?z) \<le> B" using sum by (simp add: z)
  moreover have "sum_list (dvals (filter (\<lambda>(s, x). dust < x) ?z)) \<le> sum_list (dvals ?z)"
    by (rule sum_filter_le) (use nn in \<open>auto simp: z\<close>)
  moreover have "dict_ok (filter (\<lambda>(s, x). dust < x) ?z)"
    unfolding z using assms(2) by (intro dict_ok_filter dict_ok_tabulate)
  moreover have "0 < x \<and> x \<le> C" if "(s, x) \<in> set ?z" "dust < x" for s x
  proof -
    have x: "x = dget_or ws s 0" "0 < x" using that positive_dust by (auto simp: z)
    then have "(s, x) \<in> set ws" by (auto simp: dget_or_def split: option.splits dest: map_of_SomeD)
    then show ?thesis using pos by blast
  qed
  ultimately show ?thesis by (auto simp: feasible_def)
qed

lemma gradient_feasible:
  assumes "covariance_projected_gradient initial target sigma caps budget ra = Inr w"
    and "feasible C (budget + dust) initial" and "dict_ok target" and "\<forall>s. dget_or caps s 0 \<le> C" and "0 \<le> budget" and "0 \<le> C"
  shows "feasible C (budget + dust) w"
proof (cases "ra \<le> 0")
  case True
  then show ?thesis using assms(1,2) by (simp add: covariance_projected_gradient_def)
next
  case False
  let ?ss = "sort (dkeys target)"
  show ?thesis
  proof (cases "?ss = []")
    case True
    then have "w = []" using assms(1) False by (simp add: covariance_projected_gradient_def Let_def)
    then show ?thesis using assms(5) by (simp add: feasible_def dust_def)
  next
    case ne: False
    define cv where "cv = map (\<lambda>s. (s, dget_or caps s 0)) ?ss"
    define t where "t = map (\<lambda>s. dget_or target s 0) ?ss"
    define step where "step = 1 / max 1 (1 + ra * diag_max sigma * 4)"
    have len: "length sigma = length ?ss"
      and w: "w = filter (\<lambda>(s, x). dust < x) (zip ?ss (gradient_loop 120
          (gradient_step ?ss t sigma cv budget ra step target) (map (\<lambda>s. dget_or initial s 0) ?ss)))"
      using assms(1) False ne unfolding covariance_projected_gradient_def Let_def
      by (simp_all only: if_False cv_def t_def step_def split: if_splits; simp)+
    have d: "distinct ?ss" using assms(3) by (simp add: dict_ok_def)
    have "readout C (budget + dust) ?ss (gradient_loop 120
          (gradient_step ?ss t sigma cv budget ra step target) (map (\<lambda>s. dget_or initial s 0) ?ss))"
    proof (rule gradient_loop_readout)
      fix v :: "flt list" assume "length v = length ?ss"
      then show "readout C (budget + dust) ?ss (gradient_step ?ss t sigma cv budget ra step target v)"
        using d len assms(4-6) by (intro gradient_step_readout) (auto simp: t_def cv_def)
    qed simp_all
    then show ?thesis unfolding w using d by (rule readout_feasible)
  qed
qed

lemma tabulate_keys: "set (dkeys (filter P (map (\<lambda>s. (s, f s)) (sort (dkeys d))))) \<subseteq> set (dkeys d)"
  by force

lemma zip_keys: "set (dkeys (filter P (zip xs ys))) \<subseteq> set xs"
  by (auto dest: set_zip_leftD)

lemma project_keys: "set (dkeys (project_capped_simplex values caps budget)) \<subseteq> set (dkeys values)"
  unfolding project_capped_simplex_def Let_def
  by (split if_split, intro conjI impI, simp, split if_split, intro conjI impI; rule tabulate_keys)

lemma dkeys_split: "set (dkeys (map (\<lambda>(s, x). (s, g s x)) ps)) = set (dkeys ps)"
  by force

lemma scored_keys:
  "set (dkeys (map (\<lambda>(i, s). (s, h i s)) (filter P (enumerate n xs)))) \<subseteq> set xs"
  by (auto simp: enumerate_eq_zip dest: set_zip_rightD)

lemma risk_budget_keys:
  "set (dkeys (risk_budget_target sqrt_fn requested all_symbols budget caps vols m)) \<subseteq> set all_symbols"
  unfolding risk_budget_target_def Let_def
  by (split if_split, intro conjI impI, simp, rule subset_trans [OF project_keys],
      unfold dkeys_split, rule scored_keys)

lemma gradient_keys:
  assumes "covariance_projected_gradient initial target sigma caps budget ra = Inr w"
  shows "set (dkeys w) \<subseteq> set (dkeys initial) \<union> set (dkeys target)"
proof -
  consider "w = initial" | "w = []" | v where "w = filter (\<lambda>(s, x). dust < x) (zip (sort (dkeys target)) v)"
    using assms unfolding covariance_projected_gradient_def Let_def by (auto split: if_splits)
  then show ?thesis
  proof cases
    case (3 v)
    show ?thesis using zip_keys [of _ "sort (dkeys target)" v] unfolding 3 set_sort by blast
  qed auto
qed

lemma shaped_feasible:
  assumes "shaped_target sqrt_fn prm requested all_symbols caps budget ws sigma = Inr (w, rb, used)"
    and "feasible C (budget + dust) ws"
    and caps: "\<forall>s \<in> set all_symbols. dget_or caps s budget \<le> C" "\<forall>s. dget_or caps s 0 \<le> C"
    and "0 \<le> budget" and "0 \<le> C" and "set (dkeys ws) \<subseteq> set all_symbols"
  shows "feasible C (budget + dust) w \<and> set (dkeys w) \<subseteq> set all_symbols"
proof -
  have nn: "0 \<le> budget + dust" using assms(5) by (simp add: dust_def)
  consider "w = ws"
    | m where "covariance_projected_gradient (if 0 < ap_risk_budget_strength prm
          then blend_targets ws rb (ap_risk_budget_strength prm) caps budget else ws)
        (if 0 < ap_risk_budget_strength prm
          then blend_targets ws rb (ap_risk_budget_strength prm) caps budget else ws) m caps budget
        (ap_covariance_risk_aversion prm) = Inr w"
      "0 < ap_risk_budget_strength prm \<longrightarrow>
        rb = risk_budget_target sqrt_fn requested all_symbols budget caps (ap_volatility prm) m"
    using assms(1) unfolding shaped_target_def Let_def
    by (auto split: option.splits if_splits )
  then show ?thesis
  proof cases
    case 1
    then show ?thesis using assms by simp
  next
    case (2 m)
    let ?b = "if 0 < ap_risk_budget_strength prm
      then blend_targets ws rb (ap_risk_budget_strength prm) caps budget else ws"
    have "feasible C (budget + dust) ?b \<and> set (dkeys ?b) \<subseteq> set all_symbols"
    proof (cases "0 < ap_risk_budget_strength prm \<and> rb \<noteq> []")
      case False
      then have "?b = ws" by (auto simp: blend_targets_def)
      then show ?thesis using assms by simp
    next
      case True
      define mix where "mix = map (\<lambda>s. (s, (1 - ap_risk_budget_strength prm) * dget_or ws s 0
        + ap_risk_budget_strength prm * dget_or rb s 0)) (sorted_union (dkeys ws) (dkeys rb))"
      have b: "?b = project_capped_simplex mix caps budget"
        using True by (simp add: blend_targets_def mix_def not_le)
      have rbk: "set (dkeys rb) \<subseteq> set all_symbols"
        using True 2(2) risk_budget_keys by blast
      have ok: "dict_ok mix" unfolding mix_def by (rule dict_ok_tabulate) simp
      have keys: "set (dkeys mix) \<subseteq> set all_symbols" using rbk assms(7) by (auto simp: mix_def)
      show ?thesis unfolding b using project_feasible [OF ok nn] keys caps(1) by blast
    qed
    then have b: "feasible C (budget + dust) ?b" "set (dkeys ?b) \<subseteq> set all_symbols" by simp_all
    have "dict_ok ?b" using b(1) by (simp add: feasible_def)
    then show ?thesis using gradient_feasible [OF 2(1) b(1) _ caps(2) assms(5,6)]
      gradient_keys [OF 2(1)] b(2) by blast
  qed
qed

section \<open>The allocator's result is feasible\<close>

lemma positive_weights_ok [simp]: "dict_ok d \<Longrightarrow> dict_ok (positive_weights d)"
  by (simp add: positive_weights_def dict_ok_def comp_def split_def distinct_map_filter)

definition cap_of :: "alloc_params \<Rightarrow> flt" where
  "cap_of prm = (case ap_max_position_weight prm of Some c \<Rightarrow> c | None \<Rightarrow> ap_budget prm)"

definition within_turnover :: "alloc_params \<Rightarrow> weights \<Rightarrow> allocator_result \<Rightarrow> bool" where
  "within_turnover prm current r = (case ap_max_daily_turnover prm of
     None \<Rightarrow> True
   | Some tc \<Rightarrow> turnover current (ar_weights r) \<le> tc + 1 / 10 ^ 9
       \<or> dget_or (ar_details r) ''turnover_cap_infeasible'' JNull = JBool True)"

lemma cap_turnover_cases:
  assumes "cap_turnover current target caps budget tc = (w, infeasible)"
    and "feasible C (budget + dust) target" and "0 \<le> budget" and "set (dkeys target) \<subseteq> S" and "set (dkeys current) \<subseteq> S"
    and "\<forall>s \<in> S. dget_or caps s budget \<le> C"
  shows "feasible C (budget + dust) w \<and> set (dkeys w) \<subseteq> S \<and> (infeasible \<or> turnover current w \<le> tc + 1 / 10 ^ 9)"
proof -
  let ?v = "compress_turnover current target tc"
  let ?c = "project_capped_simplex ?v caps budget"
  have ok: "dict_ok ?v"
    using assms(2) unfolding compress_turnover_def Let_def
    by (auto simp: feasible_def intro!: dict_ok_filter dict_ok_tabulate)
  have keys: "set (dkeys ?v) \<subseteq> S" using assms(4,5) unfolding compress_turnover_def Let_def
    by (split if_split) auto
  have nn: "0 \<le> budget + dust" using assms(3) by (simp add: dust_def)
  have p: "feasible C (budget + dust) ?c" "set (dkeys ?c) \<subseteq> S"
    using project_feasible [OF ok nn] keys assms(6) by blast+
  show ?thesis
    using assms(1,2,4) p by (auto simp: cap_turnover_def Let_def split: if_splits)
qed

lemma optimize_cases:
  assumes "optimize_target_weights eig sqrt_fn requested_weights current_weights prm = Inr r"
    and ss: "all_symbols = sorted_union (dkeys (positive_weights requested_weights)) (dkeys (positive_weights current_weights))"
    and "all_symbols \<noteq> []" and "0 < ap_budget prm"
    and caps: "caps = map (\<lambda>s. (s, cap_of prm)) all_symbols"
    and budget: "budget = clamped_budget caps all_symbols (ap_budget prm)"
    and ws: "ws = project_capped_simplex (map (\<lambda>s. (s, dget_or (positive_weights requested_weights) s 0)) all_symbols) caps budget"
  obtains sigma optimized rb used degenerate where
    "shaped_target sqrt_fn prm (positive_weights requested_weights) all_symbols caps budget ws sigma = Inr (optimized, rb, used)"
    "r = allocator_outcome prm (positive_weights current_weights) caps budget ws degenerate optimized rb used"
proof -
  have "(all_symbols = [] \<or> ap_budget prm \<le> 0) = False" using assms(3,4) by simp
  note r = assms(1) [unfolded optimize_target_weights_def Let_def ss [symmetric] this if_False
      cap_of_def [symmetric] caps [symmetric] budget [symmetric] ws [symmetric] rbind_Inr_iff]
  then show thesis using that by (auto simp: split_beta)
qed

lemma outcome_cases:
  assumes "allocator_outcome prm current caps budget ws degenerate optimized rb used = r"
  obtains "ar_weights r = optimized" "\<forall>tc. ap_max_daily_turnover prm = Some tc \<longrightarrow> turnover current optimized \<le> tc + dust"
  | tc w infeasible where "ap_max_daily_turnover prm = Some tc" "cap_turnover current optimized caps budget tc = (w, infeasible)"
    "ar_weights r = w" "dget_or (ar_details r) ''turnover_cap_infeasible'' JNull = JBool infeasible"
proof (cases "ap_max_daily_turnover prm")
  case None
  then show thesis using assms that(1) by (auto simp: allocator_outcome_def Let_def)
next
  case (Some tc)
  obtain w infeasible where c: "cap_turnover current optimized caps budget tc = (w, infeasible)"
    by (cases "cap_turnover current optimized caps budget tc")
  show thesis
  proof (cases "turnover current optimized \<le> tc + dust")
    case True
    then show thesis using Some assms that(1) by (auto simp: allocator_outcome_def Let_def)
  next
    case False
    have e: "allocator_outcome prm current caps budget ws degenerate optimized rb used = r" by (rule assms)
    show thesis
      by (rule that(2) [OF Some c]) (use Some c False in \<open>simp_all add: e [symmetric] allocator_outcome_def Let_def dget_or_def\<close>)
  qed
qed

lemma optimizer_feasible_all:
  assumes "optimize_target_weights eig sqrt_fn requested current prm = Inr r"
    and "dict_ok requested" and "dict_ok current"
    and "0 < ap_budget prm" and "0 \<le> cap_of prm" and "\<forall>tc. ap_max_daily_turnover prm = Some tc \<longrightarrow> 0 \<le> tc"
  shows "feasible (cap_of prm) (ap_budget prm + dust) (ar_weights r)
    \<and> set (dkeys (ar_weights r)) \<subseteq> set (dkeys requested) \<union> set (dkeys current)
    \<and> within_turnover prm (positive_weights current) r"
proof -
  define ss where "ss = sorted_union (dkeys (positive_weights requested)) (dkeys (positive_weights current))"
  have sub: "set ss \<subseteq> set (dkeys requested) \<union> set (dkeys current)" "set (dkeys (positive_weights current)) \<subseteq> set ss"
    by (auto simp: ss_def positive_weights_def)
  show ?thesis
  proof (cases "ss = []")
    case True
    then have "positive_weights current = []" using sub(2) by simp
    moreover have "ar_weights r = []"
      using assms(1) True unfolding optimize_target_weights_def Let_def ss_def [symmetric] by auto
    ultimately show ?thesis
      using assms(4,6) by (auto simp: feasible_def within_turnover_def turnover_def sorted_union_def dust_def split: option.split)
  next
    case False
    define caps where "caps = map (\<lambda>s. (s, cap_of prm)) ss"
    define budget where "budget = clamped_budget caps ss (ap_budget prm)"
    define vals where "vals = map (\<lambda>s. (s, dget_or (positive_weights requested) s 0)) ss"
    define ws where "ws = project_capped_simplex vals caps budget"
    have b: "0 \<le> budget" "budget \<le> ap_budget prm"
    proof -
      have "0 \<le> sum_list (map (\<lambda>s. max 0 (dget_or caps s 0)) ss)" by (intro sum_list_nonneg) auto
      moreover have "0 \<le> (1 :: flt) / 10 ^ 9" by simp
      ultimately show "0 \<le> budget" "budget \<le> ap_budget prm"
        using assms(4) unfolding budget_def clamped_budget_def Let_def by (auto split: if_splits)
    qed
    have c: "dget_or caps s d = cap_of prm" if "s \<in> set ss" for s d
      using that by (auto simp: caps_def dget_or_def map_of_map_restrict)
    have c0: "dget_or caps s 0 \<le> cap_of prm" for s
      by (rule dget_caps_le) (use assms(5) in \<open>auto simp: caps_def\<close>)
    have ok: "dict_ok vals" "dkeys vals = ss" unfolding vals_def by (simp_all add: ss_def dict_ok_tabulate comp_def)
    have nn: "0 \<le> budget + dust" using b(1) by (simp add: dust_def)
    have "\<forall>s \<in> set (dkeys vals). dget_or caps s budget \<le> cap_of prm" unfolding ok(2) using c by simp
    note w = project_feasible [OF ok(1) nn this, folded ws_def, unfolded ok(2)]
    obtain sigma optimized rb used degenerate where
      o: "shaped_target sqrt_fn prm (positive_weights requested) ss caps budget ws sigma = Inr (optimized, rb, used)"
      and r: "r = allocator_outcome prm (positive_weights current) caps budget ws degenerate optimized rb used"
      using optimize_cases [OF assms(1) ss_def False assms(4) caps_def budget_def ws_def [unfolded vals_def]] by blast
    have opt: "feasible (cap_of prm) (budget + dust) optimized" "set (dkeys optimized) \<subseteq> set ss"
      using shaped_feasible [OF o w(1) _ _ b(1) assms(5) w(2)] c c0 by simp_all
    have "feasible (cap_of prm) (budget + dust) (ar_weights r) \<and> set (dkeys (ar_weights r)) \<subseteq> set ss
        \<and> within_turnover prm (positive_weights current) r"
    proof (cases rule: outcome_cases [OF r [symmetric]])
      case 1
      have "dust \<le> 1 / 10 ^ 9" by (simp add: dust_def)
      then show ?thesis using 1 opt by (auto simp: within_turnover_def split: option.split)
    next
      case (2 tc v infeasible)
      have "\<forall>s \<in> set ss. dget_or caps s budget \<le> cap_of prm" using c by simp
      note cap_turnover_cases [OF 2(2) opt(1) b(1) opt(2) sub(2) this]
      then show ?thesis using 2 by (auto simp: within_turnover_def)
    qed
    moreover have "budget + dust \<le> ap_budget prm + dust" using b(2) by simp
    ultimately show ?thesis using feasible_mono sub(1) by blast
  qed
qed

lemmas optimizer_feasible = optimizer_feasible_all [THEN conjunct1]

text \<open>C14: The constrained allocator keeps the hard constraints whatever the covariance, the volatilities,
  the eigenvalue routine and the square root are: every weight it returns is positive and at most the
  position cap, the weights sum to at most the budget (up to the tolerance \<open>1e-12\<close> of the code), only
  requested or held symbols appear, and the turnover against the current weights is within the turnover
  cap unless the result is flagged as infeasible.\<close>

theorem optimizer_respects_constraints:
  assumes "optimize_target_weights eig sqrt_fn requested current prm = Inr r"
    and "dict_ok requested" and "dict_ok current"
    and "0 < ap_budget prm" and "0 \<le> cap_of prm" and "\<forall>tc. ap_max_daily_turnover prm = Some tc \<longrightarrow> 0 \<le> tc"
  shows "feasible (cap_of prm) (ap_budget prm + dust) (ar_weights r)
    \<and> set (dkeys (ar_weights r)) \<subseteq> set (dkeys requested) \<union> set (dkeys current)
    \<and> within_turnover prm (positive_weights current) r"
  using assms by (rule optimizer_feasible_all)

definition sample_alloc :: alloc_params where
  "sample_alloc = \<lparr>ap_budget = 1, ap_max_position_weight = Some (3 / 5), ap_max_daily_turnover = Some (1 / 2),
     ap_covariance_symbols = [], ap_covariance_matrix = None, ap_covariance_risk_aversion = 0,
     ap_risk_budget_strength = 0, ap_volatility = []\<rparr>"

theorem optimizer_respects_constraints_witness:
  "\<exists>r. optimize_target_weights (\<lambda>_. None) (\<lambda>x. x) [(''A'', 9 / 10), (''B'', 1 / 10)] [(''B'', 1 / 2)] sample_alloc = Inr r
    \<and> feasible (3 / 5) (1 + dust) (ar_weights r) \<and> within_turnover sample_alloc (positive_weights [(''B'', 1 / 2)]) r"
proof -
  have "map_sum id ar_weights (optimize_target_weights (\<lambda>_. None) (\<lambda>x. x) [(''A'', 9 / 10), (''B'', 1 / 10)] [(''B'', 1 / 2)] sample_alloc)
      = Inr [(''A'', 3 / 10), (''B'', 3 / 10)]"
    by code_simp
  then obtain r where r: "optimize_target_weights (\<lambda>_. None) (\<lambda>x. x) [(''A'', 9 / 10), (''B'', 1 / 10)] [(''B'', 1 / 2)] sample_alloc = Inr r"
    by (auto dest: observe)
  moreover have c: "cap_of sample_alloc = 3 / 5" and b: "ap_budget sample_alloc = 1"
    and t: "ap_max_daily_turnover sample_alloc = Some (1 / 2)"
    by (simp_all add: sample_alloc_def cap_of_def)
  moreover note optimizer_respects_constraints [OF r, unfolded c b t]
  ultimately show ?thesis by (auto simp: dict_ok_def)
qed

text \<open>Shaping by a covariance fails as soon as a current holding is not requested any more: the
  aligned covariance has a row for the holding, the feasible target has no weight for it, and the matrix
  product of the gradient step raises \<open>ValueError\<close>.\<close>

theorem covariance_needs_every_holding_requested:
  "optimize_target_weights (\<lambda>m. Some [1, 1]) (\<lambda>x. x) [(''A'', 9 / 10)] [(''B'', 1 / 2)]
     (sample_alloc\<lparr>ap_covariance_risk_aversion := 1, ap_volatility := [(''A'', 1 / 5)]\<rparr>) = Inl ValueError"
  by code_simp

section \<open>The projection spends the budget\<close>

text \<open>The bisection of the projection is tight.  When the clipped values do not fit the budget, the
  shifted weights the eighty halvings end with sum to at most the budget and fall short of it by at most
  \<open>n * (upper - lower) / 2 ^ 80\<close> and the \<open>n\<close> dust weights that are dropped, \<open>lower\<close> and \<open>upper\<close> being the
  ends the code starts from; no weight is negative or above its cap.\<close>

theorem projection_spends_budget:
  assumes "dict_ok values" and "0 < budget"
    and "\<forall>s \<in> set (dkeys values). 0 \<le> dget_or caps s budget"
    and "budget + dust < sum_list (map (\<lambda>s. min (max 0 (dget_or values s 0)) (max 0 (dget_or caps s budget))) (sort (dkeys values)))"
  shows "let ws = project_capped_simplex values caps budget;
             lower = min_of (map (\<lambda>s. dget_or values s 0 - dget_or caps s budget) (sort (dkeys values)));
             upper = max_of (map (\<lambda>s. dget_or values s 0) (sort (dkeys values)));
             n = of_nat (length values)
    in sum_list (dvals ws) \<le> budget \<and> budget < sum_list (dvals ws) + n * ((upper - lower) / 2 ^ 80 + dust)
      \<and> (\<forall>(s, w) \<in> set ws. 0 < w \<and> w \<le> dget_or caps s budget)"
proof -
  define ss where "ss = sort (dkeys values)"
  define lo where "lo = min_of (map (\<lambda>s. dget_or values s 0 - dget_or caps s budget) ss)"
  define hi where "hi = max_of (map (\<lambda>s. dget_or values s 0) ss)"
  define f where "f = shifted_total values caps budget ss"
  define up where "up = bisect 80 f budget lo hi"
  define g where "g = (\<lambda>s. shifted (dget_or caps s budget) (dget_or values s 0) up)"
  define ws where "ws = project_capped_simplex values caps budget"
  have sum_ss: "budget + dust < sum_list (map (\<lambda>s. min (max 0 (dget_or values s 0)) (max 0 (dget_or caps s budget))) ss)"
    using assms(4) by (simp only: ss_def)
  have pd: "0 \<le> dust" by (simp add: dust_def)
  have ne: "ss \<noteq> []" using sum_ss assms(2) pd by auto
  have cap0: "0 \<le> dget_or caps s budget" if "s \<in> set ss" for s using that assms(3) unfolding ss_def set_sort by blast
  have hi: "dget_or values s 0 \<le> hi" if "s \<in> set ss" for s
    unfolding hi_def by (rule max_of_ge) (use that in auto)
  have lo: "lo \<le> dget_or values s 0 - dget_or caps s budget" if "s \<in> set ss" for s
    unfolding lo_def by (rule min_of_le) (use that in auto)
  have fhi: "f hi \<le> budget"
  proof -
    have "shifted (dget_or caps s budget) (dget_or values s 0) hi = 0" if "s \<in> set ss" for s
      using hi [OF that] by (simp add: shifted_def)
    then have "f hi = 0" unfolding f_def shifted_total_def by (intro sum_list_all_zero) auto
    then show ?thesis using assms(2) by simp
  qed
  have flo: "budget < f lo"
  proof -
    have "f lo = sum_list (map (\<lambda>s. dget_or caps s budget) ss)"
      unfolding f_def shifted_total_def
      by (rule arg_cong [of _ _ sum_list], rule map_cong) (use lo cap0 in \<open>force simp: shifted_def\<close>)+
    moreover have "sum_list (map (\<lambda>s. min (max 0 (dget_or values s 0)) (max 0 (dget_or caps s budget))) ss)
        \<le> sum_list (map (\<lambda>s. dget_or caps s budget) ss)"
      by (rule sum_list_mono) (use cap0 in auto)
    ultimately show ?thesis using sum_ss pd by linarith
  qed
  obtain s0 where s0: "s0 \<in> set ss" using ne by (cases ss) auto
  have lohi: "lo \<le> hi" using lo [OF s0] hi [OF s0] cap0 [OF s0] by linarith
  obtain l where l: "budget < f l" "l \<le> up" "up - l = (hi - lo) / 2 ^ 80"
    using bisect_bracket [OF fhi flo lohi] unfolding up_def by blast
  have "f l - f up \<le> of_nat (length ss) * (up - l)"
    unfolding f_def by (rule shifted_total_lipschitz) (rule l(2))
  then have low: "budget < f up + of_nat (length ss) * ((hi - lo) / 2 ^ 80)" using l by simp
  have ws: "ws = filter (\<lambda>(s, w). dust < w) (map (\<lambda>s. (s, g s)) ss)"
  proof -
    have e: "(sort (dkeys values) = [] \<or> budget \<le> 0) = False" using ne assms(2) by (simp add: ss_def)
    have v: "dvals (map (\<lambda>s. (s, h s)) xs) = map h xs" for h :: "string \<Rightarrow> flt" and xs by (simp add: comp_def)
    have "\<not> sum_list (map (\<lambda>s. min (max 0 (dget_or values s 0)) (max 0 (dget_or caps s budget))) (sort (dkeys values)))
        \<le> budget + dust"
      using assms(4) by simp
    then show ?thesis
      unfolding ws_def project_capped_simplex_def Let_def e if_False v g_def up_def f_def lo_def hi_def ss_def
      by (simp only: if_False)
  qed
  have fup: "f up = sum_list (map g ss)" by (simp add: f_def shifted_total_def g_def)
  have "sum_list (dvals (filter (\<lambda>(s, w). dust < w) (map (\<lambda>s. (s, g s)) xs))) \<le> sum_list (map g xs)
      \<and> sum_list (map g xs) \<le> sum_list (dvals (filter (\<lambda>(s, w). dust < w) (map (\<lambda>s. (s, g s)) xs))) + of_nat (length xs) * dust"
    for xs
    using shifted_range(1) pd by (induction xs) (auto simp: g_def algebra_simps intro: add_increasing2 add_increasing)
  note drop = this [of ss, folded ws]
  have len: "length ss = length values" by (simp add: ss_def)
  have "f up \<le> budget" unfolding up_def by (rule bisect_upper) (rule fhi)
  then have 1: "sum_list (dvals ws) \<le> budget" using drop fup by linarith
  have 2: "budget < sum_list (dvals ws) + of_nat (length values) * ((hi - lo) / 2 ^ 80 + dust)"
    using drop low fup unfolding len distrib_left by linarith
  have 3: "\<forall>(s, w) \<in> set ws. 0 < w \<and> w \<le> dget_or caps s budget"
    using positive_dust cap0 by (auto simp: ws g_def shifted_def)
  show ?thesis unfolding Let_def ws_def [symmetric] ss_def [symmetric] lo_def [symmetric] hi_def [symmetric]
    using 1 2 3 by blast
qed

theorem projection_spends_budget_witness:
  "sum_list (dvals (project_capped_simplex [(''A'', 3 / 5), (''B'', 4 / 5)] [(''A'', 1), (''B'', 1)] 1)) \<le> 1
    \<and> 1 < sum_list (dvals (project_capped_simplex [(''A'', 3 / 5), (''B'', 4 / 5)] [(''A'', 1), (''B'', 1)] 1)) + 2 * (6 / 5 / 2 ^ 80 + dust)"
proof -
  have "dict_ok [(''A'', 3 / 5 :: flt), (''B'', 4 / 5)]" by (simp add: dict_ok_def)
  moreover have "sort [''A'', ''B''] = [''A'', ''B'']" by code_simp
  ultimately show ?thesis
    using projection_spends_budget [of "[(''A'', 3 / 5), (''B'', 4 / 5)]" 1 "[(''A'', 1), (''B'', 1)]"]
    by (simp add: dget_or_def dust_def min_of_def max_of_def Let_def)
qed

end
