(* ===== verification/Allocation.thy ===== *)
theory Allocation
  imports Weight_Projection Live_Utils
begin

text \<open>
  \<open>ez/live/allocation.py\<close>: the runtime allocator between the strategy's target weights and the
  orders.  The configuration picks one of four allocation modes; the volatility target scales the result
  down.  The locale \<open>weight_allocator\<close> is the contract the three simple modes share: spend exactly the
  budget on the selected symbols.  The square root is the argument \<open>sqrt_fn\<close>.
\<close>

section \<open>Configuration\<close>

record allocator_config =
  ac_allocation_mode :: string
  ac_runtime_allocation_cap :: "flt option"
  ac_max_names :: "int option"
  ac_max_position_weight :: "flt option"
  ac_max_daily_turnover :: "flt option"
  ac_covariance_lookback_days :: int
  ac_covariance_risk_aversion :: flt
  ac_risk_budget_strength :: flt
  ac_target_portfolio_vol :: "flt option"
  ac_vol_lookback_days :: int
  ac_volatility_fallback :: flt

definition positive_int_or_none :: "json \<Rightarrow> int option res" where
  "positive_int_or_none x = (if x = JNull then Inr None else case py_int x of
     Inr v \<Rightarrow> Inr (if 0 < v then Some v else None)
   | Inl e \<Rightarrow> if e = TypeError \<or> e = ValueError then Inr None else Inl e)"

definition positive_or_default :: "json \<Rightarrow> flt \<Rightarrow> flt res" where
  "positive_or_default x dflt = rbind (positive_or_none x) (\<lambda>v. Inr (case v of Some y \<Rightarrow> y | None \<Rightarrow> dflt))"

definition positive_int_or_default :: "json \<Rightarrow> int \<Rightarrow> int res" where
  "positive_int_or_default x dflt = rbind (positive_int_or_none x) (\<lambda>v. Inr (case v of Some y \<Rightarrow> y | None \<Rightarrow> dflt))"

definition allocation_modes :: "string list" where
  "allocation_modes = [''pro_rata_cap'', ''equal_weight_cap'', ''risk_budget_cap'', ''constrained_opt'']"

definition allocator_config_from_params :: "payload \<Rightarrow> allocator_config res" where
  "allocator_config_from_params prm =
     (let get = (\<lambda>k. jget prm k JNull) in
      rbind (py_str (py_or (jget prm ''allocation_mode'' (JStr ''pro_rata_cap'')) (JStr ''pro_rata_cap''))) (\<lambda>mode.
      rbind (fraction_or_none (get ''runtime_allocation_cap'')) (\<lambda>cap.
      rbind (positive_int_or_none (get ''max_names'')) (\<lambda>names.
      rbind (fraction_or_none (get ''max_position_weight'')) (\<lambda>mpw.
      rbind (fraction_or_none (get ''max_daily_turnover'')) (\<lambda>mdt.
      rbind (positive_int_or_default (get ''covariance_lookback_days'') 60) (\<lambda>cld.
      rbind (positive_or_default (get ''covariance_risk_aversion'') 0) (\<lambda>cra.
      rbind (fraction_or_none (get ''risk_budget_strength'')) (\<lambda>rbs.
      rbind (positive_or_none (get ''target_portfolio_vol'')) (\<lambda>tpv.
      rbind (positive_int_or_default (get ''vol_lookback_days'') 20) (\<lambda>vld.
      rbind (positive_or_default (get ''volatility_fallback'') (1 / 5)) (\<lambda>vf.
        Inr \<lparr>ac_allocation_mode = (if mode \<in> set allocation_modes then mode else ''pro_rata_cap''),
          ac_runtime_allocation_cap = cap, ac_max_names = names, ac_max_position_weight = mpw,
          ac_max_daily_turnover = mdt, ac_covariance_lookback_days = cld, ac_covariance_risk_aversion = cra,
          ac_risk_budget_strength = (case rbs of Some r \<Rightarrow> r | None \<Rightarrow> 0), ac_target_portfolio_vol = tpv,
          ac_vol_lookback_days = vld, ac_volatility_fallback = vf\<rparr>))))))))))))"

record allocation_context =
  ax_volatility_by_symbol :: weights
  ax_current_weights :: weights
  ax_covariance_symbols :: "string list"
  ax_covariance_matrix :: "matrix option"

record allocation_decision =
  ad_weights :: weights
  ad_events :: "payload list"

section \<open>Selection and budget\<close>

definition requested_of :: "weights \<Rightarrow> weights" where
  "requested_of target_weights = filter (\<lambda>(s, w). 0 < w) target_weights"

text \<open>The requested weights by falling weight, ties by symbol; a Python slice cuts them.\<close>

definition ranked_of :: "weights \<Rightarrow> weights" where
  "ranked_of requested = sort_key (\<lambda>(s, w). (- w, s)) requested"

definition slice_end :: "nat \<Rightarrow> int \<Rightarrow> nat" where
  "slice_end n m = nat (if m < 0 then int n + m else m)"

definition select_symbols :: "int option \<Rightarrow> weights \<Rightarrow> weights \<times> string list" where
  "select_symbols max_names requested = (let ranked = ranked_of requested in
     case max_names of
       None \<Rightarrow> (ranked, [])
     | Some m \<Rightarrow> if int (length ranked) \<le> m then (ranked, [])
         else let k = slice_end (length ranked) m in (take k ranked, map fst (drop k ranked)))"

definition allocation_budget :: "flt option \<Rightarrow> flt \<Rightarrow> flt" where
  "allocation_budget cap requested_allocation =
     (if requested_allocation \<le> 0 then 0
      else case cap of None \<Rightarrow> requested_allocation | Some c \<Rightarrow> min requested_allocation c)"

section \<open>The simple modes\<close>

definition pro_rata :: "weights \<Rightarrow> flt \<Rightarrow> weights" where
  "pro_rata selected budget = (let tot = sum_list (dvals selected) in
     if tot \<le> 0 \<or> budget \<le> 0 then []
     else let scale = budget / tot in
       filter (\<lambda>(s, w). 0 < w) (map (\<lambda>(s, w). (s, w * scale)) selected))"

definition equal_weight :: "weights \<Rightarrow> flt \<Rightarrow> weights" where
  "equal_weight selected budget =
     (if selected = [] \<or> budget \<le> 0 then []
      else map (\<lambda>(s, w). (s, budget / of_nat (length selected))) selected)"

text \<open>The floor \<open>epsilon\<close> of the volatilities, the sanitised volatility of a symbol and its score.\<close>

definition vol_floor :: flt where
  "vol_floor = 1 / 10 ^ 6"

definition safe_vol :: "weights \<Rightarrow> flt \<Rightarrow> string \<Rightarrow> flt" where
  "safe_vol vols fallback s = (let v = dget_or vols s fallback in if v < 0 then 0 else v)"

definition risk_budget :: "flt \<Rightarrow> weights \<Rightarrow> weights \<Rightarrow> flt \<Rightarrow> weights \<times> bool" where
  "risk_budget fallback vols selected budget =
     (if selected = [] \<or> budget \<le> 0 then ([], False)
      else let sanitized = map (\<lambda>(s, w). safe_vol vols fallback s) selected;
               valid = filter (\<lambda>v. 0 < v) sanitized
        in if valid \<noteq> [] \<and> max_of valid < vol_floor then (pro_rata selected budget, True)
           else let scores = map (\<lambda>(s, w). (s, w / max (safe_vol vols fallback s) vol_floor)) selected;
                    tot = sum_list (dvals scores)
             in if tot \<le> 0 then (pro_rata selected budget, True)
                else (map (\<lambda>(s, x). (s, budget * x / tot)) (filter (\<lambda>(s, x). 0 < x) scores), False))"

section \<open>The volatility target\<close>

definition variance_sum :: "(string \<Rightarrow> flt) \<Rightarrow> weights \<Rightarrow> flt" where
  "variance_sum vol ws = sum_list (map (\<lambda>(s, w). (w * vol s)\<^sup>2) ws)"

definition scale_weights :: "flt \<Rightarrow> weights \<Rightarrow> weights" where
  "scale_weights scale ws = filter (\<lambda>(s, w). 0 < w) (map (\<lambda>(s, w). (s, w * scale)) ws)"

text \<open>Scaled weights above the position cap are projected again.\<close>

definition retighten :: "flt option \<Rightarrow> weights \<Rightarrow> weights \<times> bool" where
  "retighten max_position_weight scaled = (case max_position_weight of
     None \<Rightarrow> (scaled, False)
   | Some cap \<Rightarrow> if scaled \<noteq> [] \<and> list_ex (\<lambda>(s, w). dust < w - cap) scaled
       then (project_capped_simplex scaled (map (\<lambda>(s, w). (s, cap)) scaled) (sum_list (dvals scaled)), True)
       else (scaled, False))"

definition apply_vol_target ::
  "(flt \<Rightarrow> flt) \<Rightarrow> allocator_config \<Rightarrow> weights \<Rightarrow> weights \<Rightarrow> weights \<times> payload" where
  "apply_vol_target sqrt_fn cfg vols adjusted =
     (case ac_target_portfolio_vol cfg of
        None \<Rightarrow> (adjusted, [])
      | Some tgt \<Rightarrow>
          if adjusted = [] \<or> vols = [] then (adjusted, [])
          else let vol = safe_vol vols (ac_volatility_fallback cfg);
                   estimated = sqrt_fn (variance_sum vol adjusted);
                   report = JObj (map (\<lambda>(s, w). (s, JFloat (vol s))) adjusted);
                   details = (\<lambda>scale. [(''estimated_portfolio_vol'', JFloat estimated),
                     (''target_portfolio_vol'', JFloat tgt), (''vol_target_scale'', JFloat scale),
                     (''volatility_by_symbol'', report)])
            in if estimated \<le> 0 then (adjusted, [])
               else if estimated \<le> tgt + 1 / 10 ^ 9 then (adjusted, details 1)
               else let scale = tgt / estimated in
                 case retighten (ac_max_position_weight cfg) (scale_weights scale adjusted) of (scaled, hit) \<Rightarrow>
                   (scaled, details scale @ [(''vol_target_reproject_cap_hit'', JBool hit)]))"

section \<open>Reporting\<close>

definition underfill_details :: "allocator_config \<Rightarrow> weights \<Rightarrow> flt \<Rightarrow> string list \<Rightarrow> payload" where
  "underfill_details cfg adjusted budget dropped =
     (if budget \<le> 0 then []
      else let ratio = 1 - sum_list (dvals adjusted) / budget;
               bits = (if ac_max_names cfg \<noteq> None \<and> dropped \<noteq> [] then [''max_names''] else [])
                 @ (if ac_max_position_weight cfg \<noteq> None then [''max_position_weight''] else [])
        in if ratio \<le> 1 / 10 \<or> bits = [] then []
           else [(''underfill_ratio'', JFloat ratio),
                 (''underfill_reason'', JStr (join_with ''_plus_'' bits @ ''_too_tight''))])"

definition changed :: "weights \<Rightarrow> weights \<Rightarrow> string list \<Rightarrow> bool" where
  "changed requested adjusted dropped \<longleftrightarrow> dropped \<noteq> []
     \<or> set (dkeys requested) \<noteq> set (dkeys adjusted)
     \<or> list_ex (\<lambda>(s, w). 1 / 10 ^ 9 < \<bar>w - dget_or adjusted s 0\<bar>) requested"

definition allocation_message :: "string \<Rightarrow> string list \<Rightarrow> weights \<Rightarrow> weights \<Rightarrow> string" where
  "allocation_message mode dropped adjusted requested =
     (if dropped \<noteq> [] then ''Runtime allocator trimmed the symbol set before order generation.''
      else if mode = ''equal_weight_cap''
      then ''Runtime allocator rebalanced selected symbols to equal weights before order generation.''
      else if mode = ''risk_budget_cap''
      then ''Runtime allocator redistributed target weights using realized volatility budgets before order generation.''
      else if mode = ''constrained_opt''
      then ''Runtime allocator projected target weights into the live constraint set with covariance-aware risk shaping before order generation.''
      else if sum_list (dvals adjusted) < sum_list (dvals requested) - 1 / 10 ^ 9
      then ''Runtime allocator scaled target weights before order generation to enforce the allocation cap.''
      else ''Runtime allocator adjusted target weights before order generation.'')"

text \<open>\<open>{**d, **e}\<close>.\<close>

definition dmerge :: "('k, 'v) dict \<Rightarrow> ('k, 'v) dict \<Rightarrow> ('k, 'v) dict" where
  "dmerge d e = fold (\<lambda>(k, v) acc. dset acc k v) e d"

definition opt_int_json :: "int option \<Rightarrow> json" where
  "opt_int_json x = (case x of None \<Rightarrow> JNull | Some v \<Rightarrow> JInt v)"

definition allocation_event ::
  "allocator_config \<Rightarrow> date \<Rightarrow> weights \<Rightarrow> weights \<Rightarrow> string list \<Rightarrow> payload \<Rightarrow> payload \<Rightarrow> payload \<Rightarrow> payload \<Rightarrow> payload" where
  "allocation_event cfg business_date requested adjusted dropped constrained vol lacking extra =
     (let kind = (if dropped \<noteq> [] \<or> ac_allocation_mode cfg \<noteq> ''pro_rata_cap'' \<or> vol \<noteq> [] \<or> constrained \<noteq> []
            \<or> lacking \<noteq> [] then ''runtime_allocator'' else ''runtime_allocation_gate'')
      in [(''date'', JStr (isoformat business_date)), (''event'', JStr kind), (''rule'', JStr ''runtime_allocator''),
          (''reason'', JStr ''risk:runtime_allocator''),
          (''message'', JStr (allocation_message (ac_allocation_mode cfg) dropped adjusted requested)),
          (''details'', JObj (dmerge (dmerge (dmerge (dmerge
            [(''allocation_mode'', JStr (ac_allocation_mode cfg)),
             (''requested_allocation'', JFloat (sum_list (dvals requested))),
             (''effective_allocation'', JFloat (sum_list (dvals adjusted))),
             (''runtime_allocation_cap'', opt_json (ac_runtime_allocation_cap cfg)),
             (''max_names'', opt_int_json (ac_max_names cfg)),
             (''max_position_weight'', opt_json (ac_max_position_weight cfg)),
             (''max_daily_turnover'', opt_json (ac_max_daily_turnover cfg)),
             (''covariance_lookback_days'', JInt (ac_covariance_lookback_days cfg)),
             (''covariance_risk_aversion'', JFloat (ac_covariance_risk_aversion cfg)),
             (''risk_budget_strength'', JFloat (ac_risk_budget_strength cfg)),
             (''requested_weights'', weights_json requested), (''adjusted_weights'', weights_json adjusted),
             (''dropped_symbols'', JList (map JStr dropped))]
            constrained) vol) lacking) extra))])"

section \<open>The allocator\<close>

definition no_context :: allocation_context where
  "no_context = \<lparr>ax_volatility_by_symbol = [], ax_current_weights = [], ax_covariance_symbols = [],
     ax_covariance_matrix = None\<rparr>"

definition constrained_params :: "allocator_config \<Rightarrow> allocation_context \<Rightarrow> flt \<Rightarrow> alloc_params" where
  "constrained_params cfg ctx budget =
     \<lparr>ap_budget = budget, ap_max_position_weight = ac_max_position_weight cfg,
      ap_max_daily_turnover = ac_max_daily_turnover cfg, ap_covariance_symbols = ax_covariance_symbols ctx,
      ap_covariance_matrix = ax_covariance_matrix ctx,
      ap_covariance_risk_aversion = ac_covariance_risk_aversion cfg,
      ap_risk_budget_strength = ac_risk_budget_strength cfg, ap_volatility = ax_volatility_by_symbol ctx\<rparr>"

text \<open>The weights of the configured mode, the details of the constrained one and the fallback flag.\<close>

definition run_mode ::
  "(matrix \<Rightarrow> flt list option) \<Rightarrow> (flt \<Rightarrow> flt) \<Rightarrow> allocator_config \<Rightarrow> allocation_context \<Rightarrow> weights \<Rightarrow> flt
    \<Rightarrow> (weights \<times> payload \<times> bool) res" where
  "run_mode eig sqrt_fn cfg ctx selected budget =
     (if ac_allocation_mode cfg = ''equal_weight_cap'' then Inr (equal_weight selected budget, [], False)
      else if ac_allocation_mode cfg = ''risk_budget_cap''
      then Inr (case risk_budget (ac_volatility_fallback cfg) (ax_volatility_by_symbol ctx) selected budget of
             (ws, fb) \<Rightarrow> (ws, [], fb))
      else if ac_allocation_mode cfg = ''constrained_opt''
      then rbind (optimize_target_weights eig sqrt_fn selected (ax_current_weights ctx)
             (constrained_params cfg ctx budget))
             (\<lambda>r. Inr (ar_weights r, ar_details r, False))
      else Inr (pro_rata selected budget, [], False))"

definition allocate ::
  "(matrix \<Rightarrow> flt list option) \<Rightarrow> (flt \<Rightarrow> flt) \<Rightarrow> allocator_config \<Rightarrow> date \<Rightarrow> weights \<Rightarrow> allocation_context option
    \<Rightarrow> allocation_decision res" where
  "allocate eig sqrt_fn cfg business_date target_weights context =
     (let requested = requested_of target_weights;
          ctx = (case context of Some c \<Rightarrow> c | None \<Rightarrow> no_context)
      in if requested = [] then Inr \<lparr>ad_weights = [], ad_events = []\<rparr>
         else case select_symbols (ac_max_names cfg) requested of (selected, dropped) \<Rightarrow>
           let budget = allocation_budget (ac_runtime_allocation_cap cfg) (sum_list (dvals requested)) in
           rbind (run_mode eig sqrt_fn cfg ctx selected budget) (\<lambda>(ws, constrained, fallback).
             case apply_vol_target sqrt_fn cfg (ax_volatility_by_symbol ctx) ws of (adjusted, vol) \<Rightarrow>
             let lacking = underfill_details cfg adjusted budget dropped;
                 extra = (if fallback then [(''risk_budget_fallback'', JBool True)] else [])
             in Inr \<lparr>ad_weights = adjusted,
                  ad_events = (if \<not> changed requested adjusted dropped \<and> vol = [] \<and> constrained = []
                       \<and> lacking = [] \<and> extra = [] then []
                     else [allocation_event cfg business_date requested adjusted dropped constrained vol lacking extra])\<rparr>))"

section \<open>The contract of the simple modes\<close>

definition selection :: "weights \<Rightarrow> bool" where
  "selection ws \<longleftrightarrow> dict_ok ws \<and> ws \<noteq> [] \<and> (\<forall>(s, w) \<in> set ws. 0 < w)"

definition positive_dict :: "weights \<Rightarrow> bool" where
  "positive_dict ws \<longleftrightarrow> dict_ok ws \<and> (\<forall>(s, w) \<in> set ws. 0 < w)"

lemma selection_positive: "selection ws \<Longrightarrow> positive_dict ws"
  by (simp add: selection_def positive_dict_def)

lemma sum_list_positive: "xs \<noteq> [] \<Longrightarrow> \<forall>x \<in> set xs. (0 :: flt) < x \<Longrightarrow> 0 < sum_list xs"
  by (induction xs) (auto intro: add_pos_nonneg sum_list_nonneg less_imp_le)

lemma selection_total: "selection ws \<Longrightarrow> 0 < sum_list (dvals ws)"
  by (rule sum_list_positive) (auto simp: selection_def)

locale weight_allocator =
  fixes alloc :: "weights \<Rightarrow> flt \<Rightarrow> weights"
  assumes spends: "selection ws \<Longrightarrow> 0 < b \<Longrightarrow> sum_list (dvals (alloc ws b)) = b"
    and keeps_names: "selection ws \<Longrightarrow> 0 < b \<Longrightarrow> dkeys (alloc ws b) = dkeys ws"
    and positive: "selection ws \<Longrightarrow> 0 < b \<Longrightarrow> (s, w) \<in> set (alloc ws b) \<Longrightarrow> 0 < w"
    and no_budget: "b \<le> 0 \<Longrightarrow> alloc ws b = []"
begin

text \<open>Whatever the mode: a positive dictionary on the selected names that spends the budget.\<close>

lemma result_ok:
  assumes "selection ws"
  shows "positive_dict (alloc ws b) \<and> set (dkeys (alloc ws b)) \<subseteq> set (dkeys ws)
    \<and> sum_list (dvals (alloc ws b)) = max b 0"
proof (cases "0 < b")
  case True
  then have "dkeys (alloc ws b) = dkeys ws" "sum_list (dvals (alloc ws b)) = b"
    using assms spends keeps_names by blast+
  moreover have "\<forall>(s, w) \<in> set (alloc ws b). 0 < w" using positive [OF assms True] by blast
  moreover have "dict_ok ws" using assms by (simp add: selection_def)
  ultimately show ?thesis using True by (simp add: positive_dict_def dict_ok_def)
next
  case False
  then show ?thesis by (simp add: no_budget positive_dict_def)
qed

end

lemma filter_all: "\<forall>x \<in> set xs. P x \<Longrightarrow> filter P xs = xs"
  by simp

lemma dvals_scaled: "sum_list (dvals (map (\<lambda>(s, w). (s, w * c)) ws)) = (c :: flt) * sum_list (dvals ws)"
  by (induction ws) (auto simp: algebra_simps)

lemma dkeys_scaled [simp]: "dkeys (map (\<lambda>(s, w). (s, g s w)) ws) = dkeys ws"
  by (induction ws) auto

lemma pro_rata_eq:
  assumes "selection ws" and "0 < b"
  shows "pro_rata ws b = map (\<lambda>(s, w). (s, w * (b / sum_list (dvals ws)))) ws"
proof -
  have t: "0 < sum_list (dvals ws)" using assms(1) by (rule selection_total)
  then have "\<forall>x \<in> set (map (\<lambda>(s, w). (s, w * (b / sum_list (dvals ws)))) ws). case x of (s, w) \<Rightarrow> 0 < w"
    using assms by (auto simp: selection_def)
  then show ?thesis using t assms(2) by (simp only: pro_rata_def Let_def not_le [symmetric] filter_all) auto
qed

interpretation pro_rata_mode: weight_allocator pro_rata
proof
  fix ws b s w assume ws: "selection ws" and b: "0 < (b :: flt)"
  have t: "0 < sum_list (dvals ws)" using ws by (rule selection_total)
  show "sum_list (dvals (pro_rata ws b)) = b" using t by (simp only: pro_rata_eq [OF ws b] dvals_scaled) simp
  show "dkeys (pro_rata ws b) = dkeys ws" by (simp only: pro_rata_eq [OF ws b] dkeys_scaled)
  assume "(s, w) \<in> set (pro_rata ws b)"
  then show "0 < w" using ws b t by (auto simp: pro_rata_eq selection_def)
qed (simp add: pro_rata_def)

lemma equal_weight_eq:
  "selection ws \<Longrightarrow> 0 < b \<Longrightarrow> equal_weight ws b = map (\<lambda>(s, w). (s, b / of_nat (length ws))) ws"
  by (simp add: equal_weight_def selection_def)

lemma dvals_const: "sum_list (dvals (map (\<lambda>(s, w). (s, c :: flt)) ws)) = of_nat (length ws) * c"
  by (induction ws) (auto simp: algebra_simps)

interpretation equal_weight_mode: weight_allocator equal_weight
proof
  fix ws b s w assume ws: "selection ws" and b: "0 < (b :: flt)"
  have n: "0 < length ws" using ws by (simp add: selection_def)
  show "sum_list (dvals (equal_weight ws b)) = b" using n by (simp only: equal_weight_eq [OF ws b] dvals_const) simp
  show "dkeys (equal_weight ws b) = dkeys ws" by (simp only: equal_weight_eq [OF ws b] dkeys_scaled)
  assume "(s, w) \<in> set (equal_weight ws b)"
  then show "0 < w" using b n by (auto simp: equal_weight_eq [OF ws b])
qed (simp add: equal_weight_def)

lemma risk_budget_eq:
  assumes "selection ws" and "0 < b"
    and scores_def: "scores = map (\<lambda>(s, w). (s, w / max (safe_vol vols fallback s) vol_floor)) ws"
  shows "fst (risk_budget fallback vols ws b) = pro_rata ws b
    \<or> (selection scores \<and> fst (risk_budget fallback vols ws b) = map (\<lambda>(s, x). (s, b * x / sum_list (dvals scores))) scores)"
proof -
  have f: "0 < vol_floor" by (simp add: vol_floor_def)
  then have pos: "\<forall>x \<in> set scores. case x of (s, x) \<Rightarrow> 0 < x"
    using assms(1) by (auto simp: scores_def selection_def less_max_iff_disj)
  then have sel: "selection scores" using assms(1) by (auto simp: selection_def scores_def dict_ok_def comp_def split_def)
  have t: "\<not> sum_list (dvals scores) \<le> 0" using selection_total [OF sel] by simp
  have e: "(ws = [] \<or> b \<le> 0) = False" using assms(1,2) by (simp add: selection_def)
  show ?thesis
    unfolding risk_budget_def Let_def scores_def [symmetric] e if_False filter_all [OF pos]
    using t sel by (simp only: if_False split: if_split) simp
qed

interpretation risk_budget_mode: weight_allocator "\<lambda>ws b. fst (risk_budget fallback vols ws b)" for fallback vols
proof
  fix ws b s w assume ws: "selection ws" and b: "0 < (b :: flt)"
  define scores where "scores = map (\<lambda>(s, w). (s, w / max (safe_vol vols fallback s) vol_floor)) ws"
  let ?r = "fst (risk_budget fallback vols ws b)"
  have "sum_list (dvals ?r) = b \<and> dkeys ?r = dkeys ws \<and> (\<forall>(s, w) \<in> set ?r. 0 < w)"
    using risk_budget_eq [OF ws b scores_def]
  proof
    assume "?r = pro_rata ws b"
    then show ?thesis
      using pro_rata_mode.spends [OF ws b] pro_rata_mode.keeps_names [OF ws b] pro_rata_mode.positive [OF ws b]
      by auto
  next
    assume sc: "selection scores \<and> ?r = map (\<lambda>(s, x). (s, b * x / sum_list (dvals scores))) scores"
    then have t: "0 < sum_list (dvals scores)" using selection_total by blast
    have r: "?r = map (\<lambda>(s, x). (s, x * (b / sum_list (dvals scores)))) scores"
      using sc by (auto simp: mult.commute)
    have "sum_list (dvals ?r) = b" using t unfolding r dvals_scaled by simp
    moreover have "dkeys ?r = dkeys ws" unfolding r dkeys_scaled scores_def ..
    moreover have "\<forall>(s, w) \<in> set ?r. 0 < w" using sc t b unfolding r by (auto simp: selection_def)
    ultimately show ?thesis by blast
  qed
  then show "sum_list (dvals ?r) = b" "dkeys ?r = dkeys ws" "(s, w) \<in> set ?r \<Longrightarrow> 0 < w" by blast+
qed (simp add: risk_budget_def)

section \<open>Scaling to the volatility target\<close>

text \<open>\<open>v\<close> shrinks \<open>w\<close>: no name is added and no weight grows.\<close>

definition shrinks :: "weights \<Rightarrow> weights \<Rightarrow> bool" where
  "shrinks ws vs \<longleftrightarrow> positive_dict vs \<and> (\<forall>(s, v) \<in> set vs. \<exists>w. (s, w) \<in> set ws \<and> v \<le> w)"

lemma positive_get: "positive_dict ws \<Longrightarrow> 0 \<le> dget_or ws s 0"
  by (auto simp: positive_dict_def dget_or_def split: option.split dest!: map_of_SomeD intro: less_imp_le)

lemma shrinks_get: "positive_dict ws \<Longrightarrow> shrinks ws vs \<Longrightarrow> 0 \<le> dget_or vs s 0 \<and> dget_or vs s 0 \<le> dget_or ws s 0"
proof (cases "map_of vs s")
  case None
  assume "positive_dict ws"
  then show ?thesis using None positive_get by (simp add: dget_or_def)
next
  case (Some v)
  assume ws: "positive_dict ws" and sh: "shrinks ws vs"
  have "(s, v) \<in> set vs" using Some by (rule map_of_SomeD)
  then obtain w where "(s, w) \<in> set ws" "v \<le> w" "0 < v"
    using sh by (fastforce simp: shrinks_def positive_dict_def)
  moreover have "dget_or vs s 0 = v" using Some by (simp add: dget_or_def)
  ultimately show ?thesis using get_in [of ws s w] ws by (simp add: positive_dict_def)
qed

lemma shrinks_keys: "shrinks ws vs \<Longrightarrow> set (dkeys vs) \<subseteq> set (dkeys ws)"
  by (force simp: shrinks_def)

lemma shrinks_sum:
  assumes "positive_dict ws" and "shrinks ws vs" and "\<And>s. g s 0 = 0"
    and "\<And>s x y. 0 \<le> x \<Longrightarrow> x \<le> y \<Longrightarrow> g s x \<le> (g s y :: flt)"
  shows "sum_list (map (\<lambda>(s, w). g s w) vs) \<le> sum_list (map (\<lambda>(s, w). g s w) ws)"
proof -
  have ok: "dict_ok ws" "dict_ok vs" using assms(1,2) by (auto simp: positive_dict_def shrinks_def)
  have "(\<Sum>s\<in>set (dkeys ws). g s (dget_or vs s 0)) \<le> (\<Sum>s\<in>set (dkeys ws). g s (dget_or ws s 0))"
    by (rule sum_mono) (use shrinks_get [OF assms(1,2)] assms(4) in blast)
  then show ?thesis
    unfolding sum_dict_over [OF ok(1) finite_set subset_refl, of g, OF assms(3)]
      sum_dict_over [OF ok(2) finite_set shrinks_keys [OF assms(2)], of g, OF assms(3)] .
qed

lemma shrinks_total: "positive_dict ws \<Longrightarrow> shrinks ws vs \<Longrightarrow> sum_list (dvals vs) \<le> sum_list (dvals ws)"
  using shrinks_sum [of ws vs "\<lambda>s w. w"] by (simp add: dvals_id)

lemma shrinks_variance:
  "positive_dict ws \<Longrightarrow> shrinks ws vs \<Longrightarrow> variance_sum vol vs \<le> variance_sum vol ws"
  unfolding variance_sum_def
  by (rule shrinks_sum) (auto simp: power_mult_distrib intro: mult_right_mono power_mono)

lemma shrinks_refl: "positive_dict ws \<Longrightarrow> shrinks ws ws"
  by (auto simp: shrinks_def)

lemma shrinks_trans: "shrinks us vs \<Longrightarrow> shrinks vs ws \<Longrightarrow> shrinks us ws"
  unfolding shrinks_def by (fastforce intro: order_trans)

lemma scale_shrinks:
  assumes "positive_dict ws" and "0 < c" and "c \<le> 1"
  shows "shrinks ws (scale_weights c ws)" "scale_weights c ws = map (\<lambda>(s, w). (s, w * c)) ws"
proof -
  have "\<forall>x \<in> set (map (\<lambda>(s, w). (s, w * c)) ws). case x of (s, w) \<Rightarrow> 0 < w"
    using assms by (auto simp: positive_dict_def)
  then show e: "scale_weights c ws = map (\<lambda>(s, w). (s, w * c)) ws"
    unfolding scale_weights_def by (rule filter_all)
  have "w * c \<le> w" if "(s, w) \<in> set ws" for s w
    using that assms mult_left_le [of c w] by (auto simp: positive_dict_def intro: less_imp_le)
  moreover have "dict_ok (map (\<lambda>(s, w). (s, w * c)) ws)"
    using assms(1) by (simp only: dict_ok_def dkeys_scaled positive_dict_def)
  ultimately show "shrinks ws (scale_weights c ws)"
    unfolding e shrinks_def positive_dict_def using assms by (force simp: positive_dict_def)
qed

text \<open>The projection onto caps with the current total as budget only clips.\<close>

lemma project_clips:
  assumes "positive_dict ws" and "0 \<le> cap"
  shows "shrinks ws (project_capped_simplex ws (map (\<lambda>(s, w). (s, cap)) ws) (sum_list (dvals ws)))"
proof (cases "ws = []")
  case True
  then show ?thesis by (simp add: project_capped_simplex_def shrinks_def positive_dict_def)
next
  case False
  define ss where "ss = sort (dkeys ws)"
  define caps where "caps = map (\<lambda>(s, w). (s, cap)) ws"
  define b where "b = sum_list (dvals ws)"
  define clip where "clip = (\<lambda>s. min (max 0 (dget_or ws s 0)) (max 0 (dget_or caps s b)))"
  have ok: "dict_ok ws" using assms(1) by (simp add: positive_dict_def)
  have bpos: "0 < b" unfolding b_def by (rule selection_total) (use assms(1) False in \<open>simp add: positive_dict_def selection_def\<close>)
  have "set ss \<noteq> {}" using False by (simp add: ss_def)
  then have e: "(ss = [] \<or> b \<le> 0) = False" using bpos by auto
  have v: "dvals (map (\<lambda>s. (s, h s)) xs) = map h xs" for h :: "string \<Rightarrow> flt" and xs by (simp add: comp_def)
  have clip: "0 \<le> clip s \<and> clip s \<le> dget_or ws s 0" for s using positive_get [OF assms(1)] by (simp add: clip_def)
  have "sum_list (map clip ss) \<le> sum_list (map (\<lambda>s. dget_or ws s 0) ss)"
    by (rule sum_list_mono) (use clip in simp)
  also have "\<dots> = sum_list (map (\<lambda>(s, w). w) ws)"
    using sum_dict_over [OF ok, of "set (dkeys ws)" "\<lambda>s w. w"] ok
    by (simp add: ss_def sum_list_distinct_conv_sum_set dict_ok_def)
  finally have "sum_list (map clip ss) \<le> b + dust" by (simp add: b_def dvals_id dust_def)
  then have r: "project_capped_simplex ws caps b = filter (\<lambda>(s, w). dust < w) (map (\<lambda>s. (s, clip s)) ss)"
    unfolding project_capped_simplex_def Let_def ss_def [symmetric] e if_False v clip_def by (simp only: if_True)
  have in_ws: "(s, dget_or ws s 0) \<in> set ws" if "s \<in> set ss" for s
    using that ok unfolding ss_def by (auto simp: get_in)
  have "distinct ss" using ok by (simp add: ss_def dict_ok_def)
  then have "dict_ok (filter (\<lambda>(s, w). dust < w) (map (\<lambda>s. (s, clip s)) ss))"
    by (intro dict_ok_filter dict_ok_tabulate)
  then show ?thesis
    unfolding caps_def [symmetric] b_def [symmetric] r shrinks_def positive_dict_def
    using clip in_ws positive_dust by auto
qed

text \<open>The outcomes of the volatility target: nothing to do, within the target, or scaled.\<close>

lemma vol_target_cases:
  assumes "apply_vol_target sqrt_fn cfg vols ws = (vs, details)" and "ac_target_portfolio_vol cfg = Some tgt"
    and "ws \<noteq> []" and "vols \<noteq> []"
    and "est = sqrt_fn (variance_sum (safe_vol vols (ac_volatility_fallback cfg)) ws)"
  shows "(vs = ws \<and> est \<le> max 0 (tgt + 1 / 10 ^ 9))
    \<or> (0 < est \<and> tgt + 1 / 10 ^ 9 < est \<and> vs = fst (retighten (ac_max_position_weight cfg) (scale_weights (tgt / est) ws)))"
  using assms(1) unfolding apply_vol_target_def Let_def assms(2,5)
  by (auto simp: assms(3,4) split: if_splits prod.splits)

lemma retighten_shrinks:
  assumes "positive_dict ws" and "\<forall>c. mpw = Some c \<longrightarrow> 0 \<le> c"
  shows "shrinks ws (fst (retighten mpw ws))"
  using assms shrinks_refl [OF assms(1)] project_clips [OF assms(1)]
  by (auto simp: retighten_def split: option.split)

lemma vol_target_shrinks:
  assumes "apply_vol_target sqrt_fn cfg vols ws = (vs, details)" and "positive_dict ws"
    and "\<forall>t. ac_target_portfolio_vol cfg = Some t \<longrightarrow> 0 < t"
    and "\<forall>c. ac_max_position_weight cfg = Some c \<longrightarrow> 0 \<le> c"
  shows "shrinks ws vs"
proof (cases "ac_target_portfolio_vol cfg = None \<or> ws = [] \<or> vols = []")
  case True
  then have "vs = ws" using assms(1) by (auto simp: apply_vol_target_def split: option.splits)
  then show ?thesis using shrinks_refl [OF assms(2)] by simp
next
  case False
  then obtain tgt where t: "ac_target_portfolio_vol cfg = Some tgt" by auto
  then have tpos: "0 < tgt" using assms(3) by blast
  define est where "est = sqrt_fn (variance_sum (safe_vol vols (ac_volatility_fallback cfg)) ws)"
  consider "vs = ws" | "tgt < est" "vs = fst (retighten (ac_max_position_weight cfg) (scale_weights (tgt / est) ws))"
    using vol_target_cases [OF assms(1) t _ _ est_def] False
    by (auto intro: order_trans less_trans simp: add_strict_increasing2 less_imp_le)
  then show ?thesis
  proof cases
    case 1
    then show ?thesis using shrinks_refl [OF assms(2)] by simp
  next
    case 2
    then have sc: "shrinks ws (scale_weights (tgt / est) ws)"
      using scale_shrinks(1) [OF assms(2), of "tgt / est"] tpos by simp
    then have "positive_dict (scale_weights (tgt / est) ws)" by (simp add: shrinks_def)
    then show ?thesis using shrinks_trans [OF sc retighten_shrinks] assms(4) 2 by simp
  qed
qed

lemma variance_scaled: "variance_sum vol (map (\<lambda>(s, w). (s, w * c)) ws) = c\<^sup>2 * variance_sum vol ws"
  by (induction ws) (auto simp: variance_sum_def power_mult_distrib algebra_simps)

text \<open>The volatility target is reached: with volatilities at hand and a square root that does not round
  below the root, the estimated variance of the weights that leave the allocator is at most the square of
  the target (plus the tolerance of the code), whether they were scaled, projected again, or left alone.\<close>

theorem vol_target_reached:
  assumes "apply_vol_target sqrt_fn cfg vols ws = (vs, details)" and "positive_dict ws" and "vols \<noteq> []"
    and "ac_target_portfolio_vol cfg = Some tgt" and "0 < tgt"
    and "\<forall>c. ac_max_position_weight cfg = Some c \<longrightarrow> 0 \<le> c"
    and "0 \<le> sqrt_fn (variance_sum (safe_vol vols (ac_volatility_fallback cfg)) ws)"
    and "variance_sum (safe_vol vols (ac_volatility_fallback cfg)) ws
      \<le> (sqrt_fn (variance_sum (safe_vol vols (ac_volatility_fallback cfg)) ws))\<^sup>2"
  shows "variance_sum (safe_vol vols (ac_volatility_fallback cfg)) vs \<le> (tgt + 1 / 10 ^ 9)\<^sup>2"
proof (cases "ws = []")
  case True
  then show ?thesis using assms(1,4) by (auto simp: apply_vol_target_def variance_sum_def)
next
  case False
  define vol where "vol = safe_vol vols (ac_volatility_fallback cfg)"
  define est where "est = sqrt_fn (variance_sum vol ws)"
  have e: "0 \<le> est" "variance_sum vol ws \<le> est\<^sup>2" using assms(7,8) by (simp_all add: est_def vol_def)
  have "variance_sum vol vs \<le> (tgt + 1 / 10 ^ 9)\<^sup>2"
    using vol_target_cases [OF assms(1,4) False assms(3) est_def [unfolded vol_def]]
  proof
    assume "vs = ws \<and> est \<le> max 0 (tgt + 1 / 10 ^ 9)"
    moreover from this have "est \<le> tgt + 1 / 10 ^ 9" using assms(5) by simp
    then have "est\<^sup>2 \<le> (tgt + 1 / 10 ^ 9)\<^sup>2" using e(1) by (rule power_mono)
    ultimately show ?thesis using e(2) by simp
  next
    assume "0 < est \<and> tgt + 1 / 10 ^ 9 < est \<and> vs = fst (retighten (ac_max_position_weight cfg) (scale_weights (tgt / est) ws))"
    moreover define sc where "sc = scale_weights (tgt / est) ws"
    moreover have "tgt < tgt + 1 / 10 ^ 9" by simp
    ultimately have a: "0 < est" "tgt < est" "vs = fst (retighten (ac_max_position_weight cfg) sc)" by (auto intro: less_trans)
    have c: "0 < tgt / est" "tgt / est \<le> 1" using a(1,2) assms(5) by simp_all
    have sc: "positive_dict sc" "sc = map (\<lambda>(s, w). (s, w * (tgt / est))) ws"
      using scale_shrinks [OF assms(2) c] by (simp_all add: shrinks_def sc_def)
    have "variance_sum vol vs \<le> variance_sum vol sc"
      unfolding a(3) by (rule shrinks_variance [OF sc(1) retighten_shrinks [OF sc(1) assms(6)]])
    also have "\<dots> = (tgt / est)\<^sup>2 * variance_sum vol ws" unfolding sc(2) by (rule variance_scaled)
    also have "\<dots> \<le> (tgt / est)\<^sup>2 * est\<^sup>2" using e(2) by (rule mult_left_mono) simp
    also have "\<dots> = tgt\<^sup>2" using a(1) by (simp add: power_divide)
    also have "\<dots> \<le> (tgt + 1 / 10 ^ 9)\<^sup>2" using assms(5) by (intro power_mono) simp_all
    finally show ?thesis .
  qed
  then show ?thesis by (simp add: vol_def)
qed

definition vol_sample :: allocator_config where
  "vol_sample = \<lparr>ac_allocation_mode = ''pro_rata_cap'', ac_runtime_allocation_cap = Some (9 / 10), ac_max_names = Some 2,
     ac_max_position_weight = Some (1 / 2), ac_max_daily_turnover = None, ac_covariance_lookback_days = 60,
     ac_covariance_risk_aversion = 0, ac_risk_budget_strength = 0, ac_target_portfolio_vol = Some (1 / 10),
     ac_vol_lookback_days = 20, ac_volatility_fallback = 1 / 5\<rparr>"

theorem vol_target_reached_witness:
  "variance_sum (safe_vol [(''A'', 1 / 2), (''B'', 1)] (1 / 5))
     (fst (apply_vol_target (\<lambda>v. 1 / 2) vol_sample [(''A'', 1 / 2), (''B'', 1)] [(''A'', 3 / 5), (''B'', 2 / 5)]))
    \<le> (1 / 10 + 1 / 10 ^ 9)\<^sup>2"
proof -
  obtain vs details where r: "apply_vol_target (\<lambda>v. 1 / 2) vol_sample [(''A'', 1 / 2), (''B'', 1)] [(''A'', 3 / 5), (''B'', 2 / 5)]
      = (vs, details)" by fastforce
  have f: "ac_volatility_fallback vol_sample = 1 / 5" by (simp add: vol_sample_def)
  have v: "variance_sum (safe_vol [(''A'', 1 / 2), (''B'', 1)] (1 / 5)) [(''A'', 3 / 5), (''B'', 2 / 5)] = 1 / 4"
    by (simp add: variance_sum_def safe_vol_def dget_or_def power2_eq_square)
  have "variance_sum (safe_vol [(''A'', 1 / 2), (''B'', 1)] (1 / 5)) vs \<le> (1 / 10 + 1 / 10 ^ 9)\<^sup>2"
    by (rule vol_target_reached [OF r, unfolded f v])
      (simp_all add: positive_dict_def dict_ok_def vol_sample_def power2_eq_square)
  then show ?thesis by (simp only: r fst_conv)
qed

section \<open>The allocator as a whole\<close>

lemma config_ranges:
  assumes "allocator_config_from_params prm = Inr cfg"
  shows "\<forall>c. ac_max_position_weight cfg = Some c \<longrightarrow> 0 \<le> c" "\<forall>t. ac_target_portfolio_vol cfg = Some t \<longrightarrow> 0 < t"
    "\<forall>n. ac_max_names cfg = Some n \<longrightarrow> 0 < n" "\<forall>c. ac_runtime_allocation_cap cfg = Some c \<longrightarrow> 0 \<le> c"
    "\<forall>t. ac_max_daily_turnover cfg = Some t \<longrightarrow> 0 \<le> t"
  using assms unfolding allocator_config_from_params_def Let_def
  by (auto dest!: fraction_or_none_range positive_or_none_pos
      simp: positive_int_or_none_def split: if_splits sum.splits)

lemma ranked_selection:
  assumes "selection ws"
  shows "selection (ranked_of ws)" "set (ranked_of ws) = set ws" "length (ranked_of ws) = length ws"
proof -
  have "mset (dkeys (ranked_of ws)) = mset (dkeys ws)" by (simp add: ranked_of_def)
  then have "dict_ok (ranked_of ws)" using assms unfolding selection_def dict_ok_def by (metis mset_eq_imp_distinct_iff)
  moreover show s: "set (ranked_of ws) = set ws" and "length (ranked_of ws) = length ws"
    by (simp_all add: ranked_of_def)
  then have "ranked_of ws \<noteq> []" using assms by (metis selection_def set_empty)
  ultimately show "selection (ranked_of ws)" using assms s by (simp add: selection_def)
qed

lemma take_selection: "selection ws \<Longrightarrow> 0 < k \<Longrightarrow> selection (take k ws)"
  by (auto simp: selection_def dict_ok_def take_map [symmetric] dest: in_set_takeD)

lemma select_symbols_ok:
  assumes "selection ws" and "select_symbols names ws = (selected, dropped)" and "\<forall>n. names = Some n \<longrightarrow> 0 < n"
  shows "selection selected" "set selected \<subseteq> set ws" "\<forall>n. names = Some n \<longrightarrow> int (length selected) \<le> n"
proof -
  note r = ranked_selection [OF assms(1)]
  consider "selected = ranked_of ws" "\<forall>n. names = Some n \<longrightarrow> int (length ws) \<le> n"
    | n where "names = Some n" "selected = take (nat n) (ranked_of ws)"
    using assms(2,3) by (auto simp: select_symbols_def Let_def slice_end_def r(3) split: option.splits if_splits)
  then have "selection selected \<and> set selected \<subseteq> set ws \<and> (\<forall>n. names = Some n \<longrightarrow> int (length selected) \<le> n)"
  proof cases
    case 1
    then show ?thesis using r by simp
  next
    case (2 n)
    then have "0 < nat n" using assms(3) by simp
    then show ?thesis using 2 take_selection [OF r(1)] r(2) set_take_subset by fastforce
  qed
  then show "selection selected" "set selected \<subseteq> set ws" "\<forall>n. names = Some n \<longrightarrow> int (length selected) \<le> n"
    by blast+
qed

text \<open>The three simple modes keep the contract of the locale.\<close>

lemma run_mode_simple:
  assumes "run_mode eig sqrt_fn cfg ctx selected budget = Inr (ws, constrained, fallback)"
    and "selection selected" and "ac_allocation_mode cfg \<noteq> ''constrained_opt''"
  shows "positive_dict ws \<and> set (dkeys ws) \<subseteq> set (dkeys selected) \<and> sum_list (dvals ws) = max budget 0"
proof -
  have "ws = equal_weight selected budget \<or> ws = pro_rata selected budget
      \<or> ws = fst (risk_budget (ac_volatility_fallback cfg) (ax_volatility_by_symbol ctx) selected budget)"
    using assms(1,3) by (auto simp: run_mode_def split: if_splits prod.splits)
  then show ?thesis
    using equal_weight_mode.result_ok [OF assms(2)] pro_rata_mode.result_ok [OF assms(2)]
      risk_budget_mode.result_ok [OF assms(2)] by blast
qed

lemma run_mode_constrained:
  assumes "run_mode eig sqrt_fn cfg ctx selected budget = Inr (ws, constrained, fallback)"
    and "selection selected" and "ac_allocation_mode cfg = ''constrained_opt''" and "dict_ok (ax_current_weights ctx)"
    and "\<forall>c. ac_max_position_weight cfg = Some c \<longrightarrow> 0 \<le> c" and "\<forall>t. ac_max_daily_turnover cfg = Some t \<longrightarrow> 0 \<le> t"
    and "0 \<le> budget"
  shows "positive_dict ws \<and> sum_list (dvals ws) \<le> budget + dust
    \<and> (\<forall>c. ac_max_position_weight cfg = Some c \<longrightarrow> (\<forall>(s, w) \<in> set ws. w \<le> c))"
proof -
  obtain r where r: "optimize_target_weights eig sqrt_fn selected (ax_current_weights ctx)
      (constrained_params cfg ctx budget) = Inr r" and ws: "ws = ar_weights r"
    using assms(1,3) by (auto simp: run_mode_def)
  show ?thesis
  proof (cases "budget = 0")
    case True
    then have "ws = []" using r by (auto simp: ws optimize_target_weights_def constrained_params_def Let_def)
    then show ?thesis using assms(7) by (simp add: positive_dict_def dust_def)
  next
    case False
    define prm where "prm = constrained_params cfg ctx budget"
    have f: "ap_budget prm = budget" "ap_max_position_weight prm = ac_max_position_weight cfg"
      "ap_max_daily_turnover prm = ac_max_daily_turnover cfg"
      by (simp_all add: prm_def constrained_params_def)
    have cap: "0 \<le> cap_of prm" "\<forall>c. ac_max_position_weight cfg = Some c \<longrightarrow> cap_of prm = c"
      using assms(5,7) by (auto simp: cap_of_def f split: option.split)
    have ok: "dict_ok selected" using assms(2) by (simp add: selection_def)
    have "0 < ap_budget prm" using assms(7) False f by simp
    then have "feasible (cap_of prm) (ap_budget prm + dust) (ar_weights r)"
      using optimizer_feasible [OF r [folded prm_def] ok assms(4) _ cap(1)] assms(6) f by simp
    then show ?thesis using cap(2) by (auto simp: ws feasible_def positive_dict_def f)
  qed
qed

lemma allocate_cases:
  assumes "allocate eig sqrt_fn cfg bd tw context = Inr d" and "requested_of tw \<noteq> []"
    and "ctx = (case context of Some c \<Rightarrow> c | None \<Rightarrow> no_context)"
  obtains selected dropped ws constrained fallback vol where
    "select_symbols (ac_max_names cfg) (requested_of tw) = (selected, dropped)"
    "run_mode eig sqrt_fn cfg ctx selected
      (allocation_budget (ac_runtime_allocation_cap cfg) (sum_list (dvals (requested_of tw)))) = Inr (ws, constrained, fallback)"
    "apply_vol_target sqrt_fn cfg (ax_volatility_by_symbol ctx) ws = (ad_weights d, vol)"
proof -
  obtain selected dropped where s: "select_symbols (ac_max_names cfg) (requested_of tw) = (selected, dropped)"
    by fastforce
  let ?b = "allocation_budget (ac_runtime_allocation_cap cfg) (sum_list (dvals (requested_of tw)))"
  obtain ws constrained fallback where m: "run_mode eig sqrt_fn cfg ctx selected ?b = Inr (ws, constrained, fallback)"
    using assms(1) unfolding allocate_def Let_def assms(3) [symmetric] s prod.case by (auto simp: assms(2))
  obtain v vol where a: "apply_vol_target sqrt_fn cfg (ax_volatility_by_symbol ctx) ws = (v, vol)" by fastforce
  have "ad_weights d = v"
    using assms(1) unfolding allocate_def Let_def assms(3) [symmetric] s prod.case m rbind.simps a
    by (auto simp: assms(2))
  then show thesis using that s m a by blast
qed


definition allocator_params :: payload where
  "allocator_params = [(''allocation_mode'', JStr ''equal_weight_cap''), (''max_names'', JInt 2),
     (''runtime_allocation_cap'', JFloat (9 / 10))]"


end
