(* ===== verification/OMS.thy ===== *)
theory OMS
  imports Ledger Risk Paper_Broker Allocation
begin

text \<open>
  \<open>ez/live/oms.py\<close>: one rebalance of a live deployment.  Target weights pass the runtime allocator, become
  orders, are screened, go to the broker as the weights the accepted orders lead to, and come back as
  orders, fills and events for the log.  The broker is the argument \<open>execute\<close>; the locale
  \<open>rebalance_broker\<close> states what the OMS relies on, and the paper broker provides it.
\<close>

section \<open>Inputs and results\<close>

text \<open>The arguments of \<open>execute_rebalance\<close>: the market data grouped as in the trade execution, the
  environment and numerical routines as parameters, and a clock that gives the i-th reading.\<close>

record oms_inputs =
  oi_deployment_id :: string
  oi_business_date :: date
  oi_target_weights :: weights
  oi_holdings :: "(string, int) dict"
  oi_cash :: flt
  oi_market :: exec_inputs
  oi_risk_params :: payload
  oi_allocator_context :: "allocation_context option"
  oi_broker_type :: string
  oi_broker_kind :: string
  oi_environ :: "(string, string) dict"
  oi_clock :: "nat \<Rightarrow> timestamp"

record oms_result =
  or_orders :: "order list"
  or_fills :: "fill list"
  or_events :: "event list"
  or_risk_events :: "payload list"
  or_holdings :: "(string, int) dict"
  or_cash :: flt
  or_trade_volume :: flt
  or_trades :: "trade list"

record oms_replay_state =
  os_cash :: flt
  os_holdings :: "(string, int) dict"
  os_order_statuses :: "(string, string) dict"

section \<open>Orders\<close>

definition is_submission_only_broker_report :: "order_report \<Rightarrow> bool" where
  "is_submission_only_broker_report r \<longleftrightarrow> rp_filled_shares r \<le> 0
     \<and> normalize_broker_order_status (rp_status r) (rp_filled_shares r) (rp_remaining_shares r)
         \<in> {''unreported'', ''reported'', ''reported_cancel_pending''}"

definition desired_order :: "string \<Rightarrow> date \<Rightarrow> (string, int) dict \<Rightarrow> (string, int) dict \<Rightarrow> string \<Rightarrow> order option" where
  "desired_order deployment_id business_date hold targets symb =
     (let delta = dget_or targets symb 0 - dget_or hold symb 0; side = (if 0 < delta then ''buy'' else ''sell'');
          coid = make_client_order_id deployment_id business_date symb side
      in if delta = 0 then None
         else Some \<lparr>o_order_id = make_order_id coid, o_client_order_id = coid, o_deployment_id = deployment_id,
           o_symbol = symb, o_side = side, o_shares = \<bar>delta\<bar>, o_business_date = business_date,
           o_requested_shares = 0, o_remaining_shares = 0, o_status = NEW, o_rejected_reason = [],
           o_rejected_message = [], o_rejected_details = []\<rparr>)"

definition build_desired_orders ::
  "string \<Rightarrow> date \<Rightarrow> weights \<Rightarrow> (string, int) dict \<Rightarrow> flt \<Rightarrow> (string, flt) dict \<Rightarrow> int \<Rightarrow> order list res" where
  "build_desired_orders deployment_id business_date target_weights hold equity prices lot =
     rbind (target_shares_of equity prices lot target_weights) (\<lambda>targets.
       Inr (List.map_filter (desired_order deployment_id business_date hold targets)
         (sorted_union (dkeys hold) (dkeys targets))))"

text \<open>The weights of the holdings that the accepted orders lead to.\<close>

definition accepted_holdings :: "(string, int) dict \<Rightarrow> order list \<Rightarrow> (string, int) dict" where
  "accepted_holdings hold orders = fold (\<lambda>ord h. apply_delta h (o_symbol ord) (order_delta ord)) orders hold"

definition accepted_target_weights ::
  "(string, int) dict \<Rightarrow> order list \<Rightarrow> (string, flt) dict \<Rightarrow> flt \<Rightarrow> weights" where
  "accepted_target_weights hold orders prices equity =
     (if equity \<le> 0 then []
      else map (\<lambda>(s, n). (s, of_int n * dget_or prices s 0 / equity))
        (filter (\<lambda>(s, n). 0 < n \<and> 0 < dget_or prices s 0) (accepted_holdings hold orders)))"

section \<open>From broker reports to events\<close>

text \<open>An event that still waits for its reading of the clock.\<close>

type_synonym draft = "timestamp \<Rightarrow> event"

definition draft_of :: "string \<Rightarrow> string \<Rightarrow> event_type \<Rightarrow> string \<Rightarrow> payload \<Rightarrow> draft" where
  "draft_of deployment_id event_id t coid pl ts = \<lparr>e_event_id = event_id, e_deployment_id = deployment_id,
     e_type = t, e_ts = ts, e_client_order_id = coid, e_payload = pl\<rparr>"

definition stamped_order :: "string \<Rightarrow> date \<Rightarrow> order \<Rightarrow> order_status \<Rightarrow> string \<Rightarrow> string \<Rightarrow> payload \<Rightarrow> order" where
  "stamped_order deployment_id business_date ord st reason msg details =
     \<lparr>o_order_id = o_order_id ord, o_client_order_id = o_client_order_id ord, o_deployment_id = deployment_id,
      o_symbol = o_symbol ord, o_side = o_side ord, o_shares = o_shares ord, o_business_date = business_date,
      o_requested_shares = o_shares ord, o_remaining_shares = o_shares ord, o_status = st,
      o_rejected_reason = reason, o_rejected_message = msg, o_rejected_details = details\<rparr>"

definition order_event :: "string \<Rightarrow> event_type \<Rightarrow> order \<Rightarrow> draft" where
  "order_event deployment_id t ord =
     draft_of deployment_id (make_event_id (o_client_order_id ord) t) t (o_client_order_id ord) (order_to_dict ord)"

definition risk_rejection :: "string \<Rightarrow> date \<Rightarrow> rejected_order \<Rightarrow> order \<times> draft" where
  "risk_rejection deployment_id business_date rj =
     (let f = rj_failure rj;
          ord = stamped_order deployment_id business_date (rj_order rj) REJECTED (rf_code f) (rf_message f) (rf_details f)
      in (ord, order_event deployment_id ORDER_REJECTED ord))"

definition not_executed :: "string \<Rightarrow> date \<Rightarrow> order \<Rightarrow> order" where
  "not_executed deployment_id business_date ord = stamped_order deployment_id business_date ord REJECTED
     ''execution:not_executed_by_execution_rules'' ''Execution rules blocked the order after submission.''
     [(''rule'', JStr ''execution_rules''), (''symbol'', JStr (o_symbol ord)), (''side'', JStr (o_side ord))]"

text \<open>One child fill of an order and its event; a single slice needs no suffix.\<close>

definition suffixed :: "fill_report \<Rightarrow> string \<Rightarrow> string" where
  "suffixed f s = (if bf_total_slices f = 1 then s else s @ '':'' @ int_str (bf_slice_index f))"

definition local_fill :: "string \<Rightarrow> date \<Rightarrow> order \<Rightarrow> fill_report \<Rightarrow> fill" where
  "local_fill deployment_id business_date ord f =
     \<lparr>f_fill_id = suffixed f (make_fill_id (o_client_order_id ord)), f_order_id = o_order_id ord,
      f_client_order_id = o_client_order_id ord, f_deployment_id = deployment_id, f_symbol = bf_symbol f,
      f_side = bf_side f, f_shares = bf_shares f, f_price = bf_price f, f_amount = bf_amount f,
      f_commission = bf_commission f, f_stamp_tax = bf_stamp_tax f, f_cost = bf_cost f,
      f_business_date = business_date, f_requested_shares = bf_requested_shares f,
      f_remaining_shares = bf_remaining_shares f, f_slice_index = bf_slice_index f,
      f_total_slices = bf_total_slices f\<rparr>"

definition fill_event_type :: "fill_report \<Rightarrow> event_type" where
  "fill_event_type f = (if 0 < bf_remaining_shares f then ORDER_PARTIALLY_FILLED else ORDER_FILLED)"

definition fill_event :: "string \<Rightarrow> date \<Rightarrow> order \<Rightarrow> fill_report \<Rightarrow> draft" where
  "fill_event deployment_id business_date ord f =
     draft_of deployment_id (suffixed f (make_event_id (o_client_order_id ord) (fill_event_type f)))
       (fill_event_type f) (o_client_order_id ord) (fill_to_dict (local_fill deployment_id business_date ord f))"

definition submit_ack :: "(string \<Rightarrow> string) \<Rightarrow> string \<Rightarrow> string \<Rightarrow> order \<Rightarrow> order_report \<Rightarrow> draft" where
  "submit_ack sha deployment_id broker_kind ord r ts =
     (let boid = str_strip (rp_broker_order_id r) in
      make_broker_execution_event sha deployment_id (''submit_ack:'' @ boid) (str_or broker_kind ''unknown'') ts
        (o_client_order_id ord) boid (o_symbol ord) (o_side ord) (str_or (rp_status r) ''reported'') 0
        (if rp_remaining_shares r = 0 then o_shares ord else rp_remaining_shares r) (rp_price r)
        (rp_broker_submit_id r)
        (Some [(''source'', JStr ''submit_ack''), (''broker_submit_id'', JStr (rp_broker_submit_id r))]) [])"

text \<open>What one accepted order becomes: the local order, its fills, its events.\<close>

definition settle_order ::
  "(string \<Rightarrow> string) \<Rightarrow> string \<Rightarrow> date \<Rightarrow> string \<Rightarrow> (string, order_report) dict \<Rightarrow> (string, fill_report list) dict
    \<Rightarrow> order \<Rightarrow> order \<times> fill list \<times> draft list" where
  "settle_order sha did bd broker_kind reports fills_by_order ord =
     (let coid = o_client_order_id ord;
          submitted = stamped_order did bd ord SUBMITTED [] [] [];
          rejected = not_executed did bd ord;
          submit_ev = order_event did ORDER_SUBMITTED submitted;
          reject_ev = order_event did ORDER_REJECTED rejected
      in case map_of reports coid of
           None \<Rightarrow> (rejected, [], [submit_ev, reject_ev])
         | Some r \<Rightarrow>
             if is_submission_only_broker_report r
             then (submitted\<lparr>o_remaining_shares := if rp_remaining_shares r = 0 then o_shares ord else rp_remaining_shares r\<rparr>,
               [], submit_ev # (if str_strip (rp_broker_order_id r) = [] then []
                  else [submit_ack sha did broker_kind ord r]))
             else if rp_filled_shares r \<le> 0 then (rejected, [], [submit_ev, reject_ev])
             else let children = dget_or fills_by_order coid [] in
               (submitted\<lparr>o_status := if rp_status r = order_status_value PARTIALLY_FILLED then PARTIALLY_FILLED else FILLED,
                  o_remaining_shares := rp_remaining_shares r\<rparr>,
                map (local_fill did bd ord) children, submit_ev # map (fill_event did bd ord) children))"

text \<open>Drafts read the clock in turn.\<close>

definition stamp_events :: "(nat \<Rightarrow> timestamp) \<Rightarrow> draft list \<Rightarrow> event list" where
  "stamp_events clock ds = map (\<lambda>(i, d). d (clock i)) (enumerate 0 ds)"

definition fill_trade :: "fill \<Rightarrow> trade" where
  "fill_trade f = \<lparr>t_symbol = f_symbol f, t_side = f_side f, t_shares = f_shares f, t_price = f_price f,
     t_cost = f_cost f, t_amount = f_amount f\<rparr>"

section \<open>The rebalance\<close>

definition broker_request :: "oms_inputs \<Rightarrow> order list \<Rightarrow> int \<Rightarrow> exec_request" where
  "broker_request inp accepted slices =
     \<lparr>q_business_date = oi_business_date inp,
      q_target_weights = accepted_target_weights (oi_holdings inp) accepted (xi_prices (oi_market inp)) (xi_equity (oi_market inp)),
      q_holdings = oi_holdings inp, q_cash = oi_cash inp, q_inputs = oi_market inp,
      q_requested_orders = accepted, q_execution_slices = slices\<rparr>"

definition no_execution :: "oms_inputs \<Rightarrow> broker_result" where
  "no_execution inp = \<lparr>br_fills = [], br_order_reports = [], br_holdings = oi_holdings inp, br_cash = oi_cash inp,
     br_trade_volume = 0\<rparr>"

definition send_to_broker :: "(exec_request \<Rightarrow> broker_result res) \<Rightarrow> oms_inputs \<Rightarrow> order list \<Rightarrow> broker_result res" where
  "send_to_broker execute inp accepted =
     (if accepted = [] then Inr (no_execution inp)
      else rbind (py_int (py_or (jget (oi_risk_params inp) ''execution_slices'' (JInt 1)) (JInt 1))) (\<lambda>slices.
        execute (broker_request inp accepted slices)))"

definition risk_setup_of :: "oms_inputs \<Rightarrow> risk_config \<Rightarrow> policy_config option \<Rightarrow> risk_setup" where
  "risk_setup_of inp cfg policy =
     \<lparr>rs_config = cfg, rs_policy = map_option (\<lambda>p. (oi_environ inp, p)) policy, rs_broker_type = oi_broker_type inp,
      rs_prices = xi_prices (oi_market inp), rs_equity = xi_equity (oi_market inp)\<rparr>"

text \<open>Before the broker: configuration, allocation, orders, screen.\<close>

definition decide_orders ::
  "(matrix \<Rightarrow> flt list option) \<Rightarrow> (flt \<Rightarrow> flt) \<Rightarrow> oms_inputs \<Rightarrow> (allocation_decision \<times> risk_decision) res" where
  "decide_orders eig sqrt_fn inp =
     rbind (risk_config_from_params (oi_risk_params inp)) (\<lambda>cfg.
     rbind (policy_from_params (jget (oi_risk_params inp) ''capital_policy'' JNull)) (\<lambda>policy.
     rbind (allocator_config_from_params (oi_risk_params inp)) (\<lambda>acfg.
     rbind (allocate eig sqrt_fn acfg (oi_business_date inp) (oi_target_weights inp) (oi_allocator_context inp)) (\<lambda>alloc.
     rbind (build_desired_orders (oi_deployment_id inp) (oi_business_date inp) (ad_weights alloc) (oi_holdings inp)
         (xi_equity (oi_market inp)) (xi_prices (oi_market inp)) (xi_lot_size (oi_market inp))) (\<lambda>desired.
       Inr (alloc, evaluate_orders (oi_business_date inp) (risk_setup_of inp cfg policy) desired (oi_holdings inp)))))))"

text \<open>After the broker: rejected orders first, then every accepted order.\<close>

definition settle_result ::
  "(string \<Rightarrow> string) \<Rightarrow> oms_inputs \<Rightarrow> allocation_decision \<Rightarrow> risk_decision \<Rightarrow> broker_result \<Rightarrow> oms_result" where
  "settle_result sha inp alloc decision r =
     (let did = oi_deployment_id inp; bd = oi_business_date inp;
          reports = dict_of (map (\<lambda>p. (rp_client_order_id p, p)) (br_order_reports r));
          groups = group_by bf_client_order_id (br_fills r);
          rejected = map (risk_rejection did bd) (rd_rejected decision);
          settled = map (settle_order sha did bd (oi_broker_kind inp) reports groups) (rd_accepted decision);
          fills = concat (map (\<lambda>(ord, fs, ds). fs) settled)
      in \<lparr>or_orders = map fst rejected @ map fst settled, or_fills = fills,
          or_events = stamp_events (oi_clock inp) (map snd rejected @ concat (map (\<lambda>(ord, fs, ds). ds) settled)),
          or_risk_events = ad_events alloc @ rd_events decision,
          or_holdings = br_holdings r, or_cash = br_cash r, or_trade_volume = br_trade_volume r,
          or_trades = map fill_trade fills\<rparr>)"

definition execute_rebalance ::
  "(string \<Rightarrow> string) \<Rightarrow> (matrix \<Rightarrow> flt list option) \<Rightarrow> (flt \<Rightarrow> flt) \<Rightarrow> (exec_request \<Rightarrow> broker_result res)
    \<Rightarrow> oms_inputs \<Rightarrow> oms_result res" where
  "execute_rebalance sha eig sqrt_fn execute inp =
     rbind (decide_orders eig sqrt_fn inp) (\<lambda>(alloc, decision).
     rbind (send_to_broker execute inp (rd_accepted decision)) (\<lambda>r.
       Inr (settle_result sha inp alloc decision r)))"

definition replay_events :: "event list \<Rightarrow> flt \<Rightarrow> (string, int) dict \<Rightarrow> oms_replay_state res" where
  "replay_events events initial_cash initial_holdings =
     rbind (replay events initial_cash initial_holdings) (\<lambda>s.
       Inr \<lparr>os_cash = cash s, os_holdings = holdings s, os_order_statuses = order_statuses s\<rparr>)"

end
