(* ===== verification/OMS_Replay.thy ===== *)
theory OMS_Replay
  imports OMS
begin

text \<open>
  The events of a rebalance against the account the broker returns.  The locale \<open>rebalance_broker\<close> is the
  contract of a synchronous broker (its account moves by its fills, every fill belongs to a requested
  order, every order is reported); a rebalance through such a broker can be replayed from its events.  The
  paper broker keeps the contract on the requests that cover its trades by orders.
\<close>

section \<open>Text of slice numbers\<close>

definition decimal :: "string \<Rightarrow> nat" where
  "decimal s = fold (\<lambda>c n. n * 10 + (of_char c - 48)) s 0"

lemma decimal_nat_str: "decimal (nat_str n) = n"
proof (induction n rule: nat_str.induct)
  case (1 n)
  have d: "of_char (char_of (48 + m) :: char) = 48 + m" if "m < 10" for m :: nat
    using that by (simp add: of_char_of)
  show ?case
  proof (cases "n < 10")
    case True
    then show ?thesis by (simp add: nat_str.simps decimal_def d)
  next
    case False
    then have "decimal (nat_str (n div 10)) = n div 10" using 1 by simp
    then show ?thesis using False by (subst nat_str.simps) (simp add: decimal_def d)
  qed
qed

lemma nat_str_inj: "nat_str m = nat_str n \<longleftrightarrow> m = n"
  using decimal_nat_str by metis

section \<open>Money through a log\<close>

text \<open>The trade an event books, and what it does to cash and shares.\<close>

definition ev_trade :: "event \<Rightarrow> trade option" where
  "ev_trade ev = (if e_type ev \<in> {ORDER_FILLED, ORDER_PARTIALLY_FILLED}
     then (case parse_fill (e_payload ev) of Inr t \<Rightarrow> Some t | Inl _ \<Rightarrow> None) else None)"

definition t_cash_flow :: "trade \<Rightarrow> flt" where
  "t_cash_flow t = (if t_side t = ''buy'' then - (t_amount t + t_cost t) else t_amount t - t_cost t)"

definition t_share_flow :: "trade \<Rightarrow> int" where
  "t_share_flow t = (if t_side t = ''buy'' then t_shares t else - t_shares t)"

definition ev_cash :: "event \<Rightarrow> flt" where
  "ev_cash ev = (case ev_trade ev of None \<Rightarrow> 0 | Some t \<Rightarrow> t_cash_flow t)"

definition ev_shares :: "string \<Rightarrow> event \<Rightarrow> int" where
  "ev_shares s ev = (case ev_trade ev of None \<Rightarrow> 0 | Some t \<Rightarrow> if t_symbol t = s then t_share_flow t else 0)"

text \<open>The events a synchronous rebalance writes.\<close>

definition settles :: "event \<Rightarrow> bool" where
  "settles ev \<longleftrightarrow> e_type ev \<in> {ORDER_SUBMITTED, ORDER_REJECTED} \<or> ev_trade ev \<noteq> None"

definition booked :: "event \<Rightarrow> ledger_state \<Rightarrow> ledger_state \<Rightarrow> bool" where
  "booked ev s s' \<longleftrightarrow> cash s' = cash s + ev_cash ev \<and> holdings s' = (case ev_trade ev of
     None \<Rightarrow> holdings s
   | Some t \<Rightarrow> holdings (book_fill s (t_side t) (t_symbol t) (t_shares t) (t_amount t) (t_cost t)))"

lemma settles_apply:
  assumes "settles ev"
  shows "\<exists>s'. apply_event ev s = Inr s' \<and> booked ev s s'"
proof (cases "ev_trade ev")
  case None
  then have ty: "e_type ev = ORDER_SUBMITTED \<or> e_type ev = ORDER_REJECTED" using assms by (auto simp: settles_def)
  then obtain s' where s: "apply_event ev s = Inr s'" by (auto simp: apply_event.simps)
  have "e_type ev \<notin> {ORDER_FILLED, ORDER_PARTIALLY_FILLED, SNAPSHOT_SAVED}" using ty by auto
  from apply_event_money [OF s this] show ?thesis using s None by (simp add: ev_cash_def booked_def)
next
  case (Some t)
  then have ty: "e_type ev = ORDER_FILLED \<or> e_type ev = ORDER_PARTIALLY_FILLED" and p: "parse_fill (e_payload ev) = Inr t"
    by (auto simp: ev_trade_def split: if_splits sum.splits)
  have s: "apply_event ev s = Inr (settle_fill s ev t)"
    using ty p by (auto simp: apply_event.simps apply_fill_def)
  have "booked ev s (settle_fill s ev t)"
    by (simp add: booked_def Some ev_cash_def t_cash_flow_def book_fill_def Let_def)
  then show ?thesis using s by blast
qed

lemma settles_total: "\<forall>ev \<in> set evs. settles ev \<Longrightarrow> \<exists>s'. rfold apply_event evs s = Inr s'"
proof (induction evs arbitrary: s)
  case (Cons ev evs)
  have e: "settles ev" using Cons.prems by simp
  obtain s1 where "apply_event ev s = Inr s1" using settles_apply [OF e] by blast
  moreover obtain s' where "rfold apply_event evs s1 = Inr s'" using Cons by auto
  ultimately show ?case by simp
qed simp

lemma settles_cash:
  assumes "\<forall>ev \<in> set evs. settles ev" and "rfold apply_event evs s = Inr s'"
  shows "cash s' = cash s + sum_list (map ev_cash evs)"
  using assms
proof (induction evs arbitrary: s)
  case (Cons ev evs)
  have e: "settles ev" using Cons.prems by simp
  obtain s1 where s1: "apply_event ev s = Inr s1" "cash s1 = cash s + ev_cash ev"
    using settles_apply [OF e] unfolding booked_def by blast
  then have "rfold apply_event evs s1 = Inr s'" using Cons.prems by simp
  then show ?case using Cons.IH Cons.prems(1) s1 by simp
qed simp

text \<open>The trades of one symbol go one way and leave it non-negative: then replaying them adds up.\<close>

definition one_way :: "string \<Rightarrow> event list \<Rightarrow> bool" where
  "one_way s evs \<longleftrightarrow> (\<forall>ev \<in> set evs. 0 \<le> ev_shares s ev) \<or> (\<forall>ev \<in> set evs. ev_shares s ev \<le> 0)"

lemma one_way_Cons: "one_way s (ev # evs) \<Longrightarrow> one_way s evs"
  by (auto simp: one_way_def)

lemma book_shares:
  assumes "0 \<le> dget_or (holdings s) symb 0 + (if t_symbol t = symb then t_share_flow t else 0)"
  shows "dget_or (holdings (book_fill s (t_side t) (t_symbol t) (t_shares t) a c)) symb 0 =
    dget_or (holdings s) symb 0 + (if t_symbol t = symb then t_share_flow t else 0)"
  using assms by (auto simp: book_fill_def Let_def t_share_flow_def dget_or_dset dget_or_dpop)

lemma settles_holdings:
  assumes "\<forall>ev \<in> set evs. settles ev" and "rfold apply_event evs s = Inr s'" and "one_way symb evs"
    and "0 \<le> dget_or (holdings s) symb 0" and "0 \<le> dget_or (holdings s) symb 0 + sum_list (map (ev_shares symb) evs)"
  shows "dget_or (holdings s') symb 0 = dget_or (holdings s) symb 0 + sum_list (map (ev_shares symb) evs)"
  using assms
proof (induction evs arbitrary: s)
  case (Cons ev evs)
  have e: "settles ev" using Cons.prems by simp
  have rest: "(\<forall>ev \<in> set evs. 0 \<le> ev_shares symb ev) \<and> 0 \<le> ev_shares symb ev
      \<or> (\<forall>ev \<in> set evs. ev_shares symb ev \<le> 0) \<and> ev_shares symb ev \<le> 0"
    using Cons.prems(3) by (auto simp: one_way_def)
  have "0 \<le> dget_or (holdings s) symb 0 + ev_shares symb ev"
  proof (cases "0 \<le> ev_shares symb ev")
    case True
    then show ?thesis using Cons.prems(4) by simp
  next
    case False
    then have "\<forall>ev \<in> set evs. ev_shares symb ev \<le> 0" using rest by auto
    then have "sum_list (map (ev_shares symb) evs) \<le> 0" by (induction evs) auto
    then show ?thesis using Cons.prems(5) by simp
  qed
  note step = this
  obtain s1 where s1: "apply_event ev s = Inr s1" and b: "booked ev s s1"
    using settles_apply [OF e] by blast
  have h1: "dget_or (holdings s1) symb 0 = dget_or (holdings s) symb 0 + ev_shares symb ev"
  proof (cases "ev_trade ev")
    case None
    then show ?thesis using b by (simp add: ev_shares_def booked_def)
  next
    case (Some t)
    then show ?thesis using b book_shares [of s symb t] step by (simp add: ev_shares_def booked_def)
  qed
  have "rfold apply_event evs s1 = Inr s'" using Cons.prems(2) s1 by simp
  from Cons.IH [OF _ this one_way_Cons [OF Cons.prems(3)]] Cons.prems(1,5) step h1
  show ?case by simp
qed simp

lemma dedup_distinct:
  assumes "\<forall>e \<in> set evs. e_event_id e \<noteq> []" and "distinct (map e_event_id evs)" and "set (map e_event_id evs) \<inter> set seen = {}"
  shows "dedup_ids seen evs = evs"
  using assms by (induction seen evs rule: dedup_ids.induct) auto

lemma sum_list_sort_key: "sum_list (map g (sort_key k xs)) = (sum_list (map g xs) :: 'a::comm_monoid_add)"
proof -
  have "sum_mset (image_mset g (mset (sort_key k xs))) = sum_mset (image_mset g (mset xs))" by simp
  then show ?thesis by (simp only: mset_map [symmetric] sum_mset_sum_list)
qed

text \<open>Replaying such a log: it ends, and cash and holdings are the initial ones plus the flows.\<close>

lemma replay_settles:
  assumes "\<forall>ev \<in> set evs. settles ev" and "\<forall>e \<in> set evs. e_event_id e \<noteq> []" and "distinct (map e_event_id evs)"
    and "\<And>s. one_way s evs" and "\<And>s. 0 \<le> dget_or h s 0" and "\<And>s. 0 \<le> dget_or h s 0 + sum_list (map (ev_shares s) evs)"
  shows "\<exists>st. replay_events evs c h = Inr st \<and> os_cash st = c + sum_list (map ev_cash evs)
    \<and> (\<forall>s. dget_or (os_holdings st) s 0 = dget_or h s 0 + sum_list (map (ev_shares s) evs))"
proof -
  let ?l = "sort_key event_sort_key evs"
  have ids: "distinct (map e_event_id ?l)"
    using assms(3) by (metis mset_eq_imp_distinct_iff mset_map mset_sort)
  have d: "dedup_ids [] ?l = ?l" by (rule dedup_distinct) (use assms(2) ids in auto)
  have st: "\<forall>ev \<in> set ?l. settles ev" using assms(1) by simp
  obtain s' where s': "rfold apply_event ?l (init_state c h) = Inr s'" using settles_total [OF st] by blast
  have init: "cash (init_state c h) = c" "holdings (init_state c h) = h" by (simp_all add: init_state_def)
  have "cash s' = c + sum_list (map ev_cash evs)"
    using settles_cash [OF st s'] by (simp add: init sum_list_sort_key)
  moreover have "dget_or (holdings s') s 0 = dget_or h s 0 + sum_list (map (ev_shares s) evs)" for s
    using settles_holdings [OF st s', of s] assms(4) [of s] assms(5,6)
    by (simp add: init sum_list_sort_key one_way_def)
  ultimately show ?thesis
    by (simp add: replay_events_def replay_eq Let_def d s')
qed

section \<open>The events of a rebalance\<close>

lemma parse_local_fill:
  "parse_fill (fill_to_dict f) = Inr (fill_trade f)"
  by (simp add: parse_fill_def fill_to_dict_def fill_trade_def jitem_def float_field_def jget_def dget_or_def py_or_def)

lemma draft_simps [simp]:
  "e_event_id (draft_of did i t c p ts) = i" "e_type (draft_of did i t c p ts) = t"
  "e_payload (draft_of did i t c p ts) = p" "e_client_order_id (draft_of did i t c p ts) = c"
  by (simp_all add: draft_of_def)

lemma order_event_trade:
  "t \<in> {ORDER_SUBMITTED, ORDER_REJECTED} \<Longrightarrow> ev_trade (order_event did t ord ts) = None
    \<and> e_type (order_event did t ord ts) = t"
  by (auto simp: ev_trade_def order_event_def)

lemma fill_event_trade:
  "ev_trade (fill_event did bd ord f ts) = Some (fill_trade (local_fill did bd ord f))"
  by (simp add: ev_trade_def fill_event_def fill_event_type_def parse_local_fill)

lemma fill_event_flows:
  "ev_cash (fill_event did bd ord f ts) = fill_cash_flow f"
  "ev_shares s (fill_event did bd ord f ts) = (if bf_symbol f = s then fill_share_flow f else 0)"
  by (simp_all add: ev_cash_def ev_shares_def fill_event_trade t_cash_flow_def t_share_flow_def fill_trade_def
      local_fill_def fill_cash_flow_def fill_share_flow_def)

text \<open>Two drafts agree on everything but the time.\<close>

definition settled_draft :: "draft \<Rightarrow> bool" where
  "settled_draft d \<longleftrightarrow> (\<forall>ts. settles (d ts) \<and> e_event_id (d ts) = e_event_id (d 0) \<and> e_event_id (d ts) \<noteq> []
     \<and> ev_trade (d ts) = ev_trade (d 0))"

lemma settled_order_event: "t \<in> {ORDER_SUBMITTED, ORDER_REJECTED} \<Longrightarrow> settled_draft (order_event did t ord)"
  by (auto simp: settled_draft_def settles_def order_event_trade) (simp_all add: order_event_def make_event_id_def)

lemma settled_fill_event: "settled_draft (fill_event did bd ord f)"
  by (auto simp: settled_draft_def settles_def fill_event_trade)
     (auto simp: fill_event_def make_event_id_def suffixed_def split: if_splits)

lemma stamp_map:
  assumes "\<And>d ts. d \<in> set ds \<Longrightarrow> g (d ts) = g (d 0)"
  shows "map g (stamp_events clock ds) = map (\<lambda>d. g (d 0)) ds"
proof -
  have "map g (map (\<lambda>(i, d). d (clock i)) (enumerate n ds)) = map (\<lambda>d. g (d 0)) ds" for n
    using assms
  proof (induction ds arbitrary: n)
    case (Cons d ds)
    have "g (d (clock n)) = g (d 0)" using Cons.prems [of d] by simp
    moreover have "map g (map (\<lambda>(i, d). d (clock i)) (enumerate (Suc n) ds)) = map (\<lambda>d. g (d 0)) ds"
      by (rule Cons.IH) (rule Cons.prems, simp)
    ultimately show ?case by simp
  qed simp
  then show ?thesis by (simp add: stamp_events_def)
qed

lemma stamp_settles:
  assumes "\<forall>d \<in> set ds. settled_draft d"
  shows "\<forall>ev \<in> set (stamp_events clock ds). settles ev \<and> e_event_id ev \<noteq> []"
    "map e_event_id (stamp_events clock ds) = map (\<lambda>d. e_event_id (d 0)) ds"
    "map ev_cash (stamp_events clock ds) = map (\<lambda>d. ev_cash (d 0)) ds"
    "map (ev_shares s) (stamp_events clock ds) = map (\<lambda>d. ev_shares s (d 0)) ds"
proof -
  have sd: "settled_draft d" if "d \<in> set ds" for d using assms that by blast
  have "ev \<in> set (stamp_events clock ds) \<Longrightarrow> \<exists>d \<in> set ds. \<exists>ts. ev = d ts" for ev
    by (auto simp: stamp_events_def enumerate_eq_zip dest!: set_zip_rightD)
  then show "\<forall>ev \<in> set (stamp_events clock ds). settles ev \<and> e_event_id ev \<noteq> []"
    using sd unfolding settled_draft_def by blast
  show "map e_event_id (stamp_events clock ds) = map (\<lambda>d. e_event_id (d 0)) ds"
    by (rule stamp_map) (use sd in \<open>unfold settled_draft_def, blast\<close>)
  have tr: "ev_trade (d ts) = ev_trade (d 0)" if "d \<in> set ds" for d ts
    using sd [OF that] unfolding settled_draft_def by blast
  have "ev_cash (d ts) = ev_cash (d 0)" "ev_shares s (d ts) = ev_shares s (d 0)" if "d \<in> set ds" for d ts
    using tr [OF that, of ts] by (simp_all add: ev_cash_def ev_shares_def)
  note flows = this
  show "map ev_cash (stamp_events clock ds) = map (\<lambda>d. ev_cash (d 0)) ds"
    by (rule stamp_map) (rule flows(1))
  show "map (ev_shares s) (stamp_events clock ds) = map (\<lambda>d. ev_shares s (d 0)) ds"
    by (rule stamp_map) (rule flows(2))
qed

section \<open>Event ids\<close>

text \<open>The id of an event of a rebalance: order id, event type, and a slice number when there are several.\<close>

definition event_suffix :: "event_type \<Rightarrow> int option \<Rightarrow> string" where
  "event_suffix t k = event_type_value t @ (case k of None \<Rightarrow> [] | Some i \<Rightarrow> '':'' @ int_str i)"

lemma type_no_colon: "CHR '':'' \<notin> set (event_type_value t)"
  by (cases t) simp_all

lemma first_sep:
  assumes "c \<notin> set xs" and "c \<notin> set xs'" and "xs @ c # ys = xs' @ c # ys'"
  shows "xs = xs' \<and> ys = ys'"
proof -
  have t: "takeWhile (\<lambda>x. x \<noteq> c) (zs @ c # ws) = zs" if "c \<notin> set zs" for zs ws
    using that by (subst takeWhile_append2) auto
  have "xs = xs'" using assms t [OF assms(1), of ys] t [OF assms(2), of ys'] by metis
  then show ?thesis using assms(3) by simp
qed

lemma event_suffix_inj:
  assumes "event_suffix t k = event_suffix t' k'" and "\<forall>i. k = Some i \<longrightarrow> 0 \<le> i" and "\<forall>i. k' = Some i \<longrightarrow> 0 \<le> i"
  shows "t = t' \<and> k = k'"
proof -
  have v: "t = t'" if "event_type_value t = event_type_value t'"
    using that event_type_of_value by (metis sum.inject(2))
  have no: False if "event_type_value u = event_type_value u' @ CHR '':'' # s" for u u' s
    using type_no_colon [of u] unfolding that by simp
  show ?thesis
  proof (cases k)
    case None
    then show ?thesis using assms(1) v no by (cases k') (auto simp: event_suffix_def)
  next
    case (Some i)
    show ?thesis
    proof (cases k')
      case None
      then show ?thesis using assms(1) [symmetric] Some no [of t' t] by (auto simp: event_suffix_def)
    next
      case (Some j)
      have "event_type_value t @ CHR '':'' # int_str i = event_type_value t' @ CHR '':'' # int_str j"
        using assms(1) \<open>k = Some i\<close> Some by (simp add: event_suffix_def)
      then have "event_type_value t = event_type_value t'" "int_str i = int_str j"
        using first_sep [OF type_no_colon type_no_colon] by blast+
      moreover have "0 \<le> i" "0 \<le> j" using assms(2,3) \<open>k = Some i\<close> Some by auto
      ultimately show ?thesis using v \<open>k = Some i\<close> Some nat_str_inj by (simp add: int_str_def nat_eq_iff2)
    qed
  qed
qed

text \<open>Orders of one rebalance: ids over one deployment and date, symbols and sides without colons.\<close>

definition own_order :: "string \<Rightarrow> date \<Rightarrow> order \<Rightarrow> bool" where
  "own_order did bd ord \<longleftrightarrow> o_client_order_id ord = make_client_order_id did bd (o_symbol ord) (o_side ord)
     \<and> CHR '':'' \<notin> set (o_symbol ord) \<and> o_side ord \<in> {''buy'', ''sell''}"

lemma own_order_id:
  "own_order did bd ord \<Longrightarrow> o_client_order_id ord = make_client_order_id did bd (o_symbol ord) (o_side ord)"
  by (simp add: own_order_def)

lemma own_id_inj:
  assumes "own_order did bd ord" and "own_order did bd ord'"
    and "o_client_order_id ord @ CHR '':'' # x = o_client_order_id ord' @ CHR '':'' # x'"
  shows "o_symbol ord = o_symbol ord' \<and> o_side ord = o_side ord' \<and> x = x'"
proof -
  have c: "CHR '':'' \<notin> set ''buy''" "CHR '':'' \<notin> set ''sell''" by simp_all
  have "o_symbol ord @ CHR '':'' # o_side ord @ CHR '':'' # x = o_symbol ord' @ CHR '':'' # o_side ord' @ CHR '':'' # x'"
    using assms(3) unfolding own_order_id [OF assms(1)] own_order_id [OF assms(2)] make_client_order_id_def
    by simp
  then have 1: "o_symbol ord = o_symbol ord'" and 2: "o_side ord @ CHR '':'' # x = o_side ord' @ CHR '':'' # x'"
    using first_sep [of "CHR '':''" "o_symbol ord" "o_symbol ord'"] assms(1,2) unfolding own_order_def by blast+
  have "CHR '':'' \<notin> set (o_side ord)" "CHR '':'' \<notin> set (o_side ord')"
    using assms(1,2) c unfolding own_order_def by auto
  from first_sep [OF this, of x x'] 1 2 show ?thesis by blast
qed

section \<open>The contract of a synchronous broker\<close>

definition children :: "fill_report list \<Rightarrow> order \<Rightarrow> fill_report list" where
  "children fills ord = filter (\<lambda>f. bf_client_order_id f = o_client_order_id ord) fills"

definition owns :: "order \<Rightarrow> fill_report \<Rightarrow> bool" where
  "owns ord f \<longleftrightarrow> bf_client_order_id f = o_client_order_id ord \<and> bf_symbol f = o_symbol ord \<and> bf_side f = o_side ord
     \<and> 0 < bf_shares f \<and> 0 \<le> bf_slice_index f"

text \<open>What a result has to tell about a request for a rebalance to be replayable.\<close>

definition honest :: "exec_request \<Rightarrow> broker_result \<Rightarrow> bool" where
  "honest q r \<longleftrightarrow> br_cash r = q_cash q + sum_list (map fill_cash_flow (br_fills r))
     \<and> (\<forall>s. dget_or (br_holdings r) s 0 = dget_or (q_holdings q) s 0 + fills_flow_of s (br_fills r)
          \<and> 0 \<le> dget_or (br_holdings r) s 0)
     \<and> (\<forall>f \<in> set (br_fills r). \<exists>ord \<in> set (q_requested_orders q). owns ord f)
     \<and> (\<forall>ord \<in> set (q_requested_orders q).
          distinct (map bf_slice_index (children (br_fills r) ord))
          \<and> (\<forall>f \<in> set (children (br_fills r) ord). bf_total_slices f = int (length (children (br_fills r) ord)))
          \<and> (\<exists>p \<in> set (br_order_reports r). rp_client_order_id p = o_client_order_id ord))
     \<and> (\<forall>p \<in> set (br_order_reports r). \<not> is_submission_only_broker_report p
          \<and> (\<exists>ord \<in> set (q_requested_orders q). rp_client_order_id p = o_client_order_id ord
             \<and> rp_filled_shares p = sum_list (map bf_shares (children (br_fills r) ord))))"

locale rebalance_broker =
  fixes execute :: "exec_request \<Rightarrow> broker_result res"
    and admissible :: "exec_request \<Rightarrow> bool"
  assumes account: "admissible q \<Longrightarrow> execute q = Inr r \<Longrightarrow>
      br_cash r = q_cash q + sum_list (map fill_cash_flow (br_fills r))"
    and shares: "admissible q \<Longrightarrow> execute q = Inr r \<Longrightarrow>
      dget_or (br_holdings r) s 0 = dget_or (q_holdings q) s 0 + fills_flow_of s (br_fills r)"
    and long_only: "admissible q \<Longrightarrow> execute q = Inr r \<Longrightarrow> 0 \<le> dget_or (br_holdings r) s 0"
    and owned: "admissible q \<Longrightarrow> execute q = Inr r \<Longrightarrow> f \<in> set (br_fills r) \<Longrightarrow>
      \<exists>ord \<in> set (q_requested_orders q). owns ord f"
    and sliced: "admissible q \<Longrightarrow> execute q = Inr r \<Longrightarrow> ord \<in> set (q_requested_orders q) \<Longrightarrow>
      distinct (map bf_slice_index (children (br_fills r) ord))
      \<and> (\<forall>f \<in> set (children (br_fills r) ord). bf_total_slices f = int (length (children (br_fills r) ord)))"
    and reported: "admissible q \<Longrightarrow> execute q = Inr r \<Longrightarrow> ord \<in> set (q_requested_orders q) \<Longrightarrow>
      \<exists>p \<in> set (br_order_reports r). rp_client_order_id p = o_client_order_id ord"
    and synchronous: "admissible q \<Longrightarrow> execute q = Inr r \<Longrightarrow> p \<in> set (br_order_reports r) \<Longrightarrow>
      \<not> is_submission_only_broker_report p
      \<and> (\<exists>ord \<in> set (q_requested_orders q). rp_client_order_id p = o_client_order_id ord
         \<and> rp_filled_shares p = sum_list (map bf_shares (children (br_fills r) ord)))"
begin

lemma honest_result:
  assumes "admissible q" and "execute q = Inr r"
  shows "honest q r"
proof -
  note a = account [OF assms] and b = shares [OF assms] and c = long_only [OF assms] and d = owned [OF assms]
    and e = sliced [OF assms] and f = reported [OF assms] and g = synchronous [OF assms]
  have "\<forall>ord \<in> set (q_requested_orders q). distinct (map bf_slice_index (children (br_fills r) ord))
      \<and> (\<forall>f \<in> set (children (br_fills r) ord). bf_total_slices f = int (length (children (br_fills r) ord)))
      \<and> (\<exists>p \<in> set (br_order_reports r). rp_client_order_id p = o_client_order_id ord)"
    using e f by blast
  then show ?thesis unfolding honest_def using a b c d g by (intro conjI allI ballI) blast+
qed

end

lemma map_of_dict_of: "map_of (dict_of ps) k = map_of (rev ps) k"
proof -
  have "map_of (fold (\<lambda>(k, v) d. dset d k v) ps d) k = (case map_of (rev ps) k of Some v \<Rightarrow> Some v | None \<Rightarrow> map_of d k)" for d
    by (induction ps arbitrary: d) (auto simp: map_add_def split: option.splits)
  from this [of "[]"] show ?thesis by (simp add: dict_of_def split: option.split)
qed

section \<open>Settling an honest result\<close>

text \<open>The drafts of one accepted order.\<close>

definition order_drafts :: "string \<Rightarrow> date \<Rightarrow> fill_report list \<Rightarrow> order \<Rightarrow> draft list" where
  "order_drafts did bd fills ord = order_event did ORDER_SUBMITTED (stamped_order did bd ord SUBMITTED [] [] [])
     # (if children fills ord = [] then [order_event did ORDER_REJECTED (not_executed did bd ord)]
        else map (fill_event did bd ord) (children fills ord))"

lemma sum_positive_shares: "fs \<noteq> [] \<Longrightarrow> \<forall>f \<in> set fs. 0 < bf_shares f \<Longrightarrow> 0 < sum_list (map bf_shares fs)"
  by (rule sum_list_pos_int) auto

lemma settle_order_drafts:
  assumes "honest q r" and "ord \<in> set (q_requested_orders q)"
  shows "snd (snd (settle_order sha did bd kind (dict_of (map (\<lambda>p. (rp_client_order_id p, p)) (br_order_reports r)))
      (group_by bf_client_order_id (br_fills r)) ord)) = order_drafts did bd (br_fills r) ord"
proof -
  let ?ch = "children (br_fills r) ord" and ?c = "o_client_order_id ord"
  let ?reports = "dict_of (map (\<lambda>p. (rp_client_order_id p, p)) (br_order_reports r))"
  have dk: "dkeys (map (\<lambda>p. (rp_client_order_id p, p)) ps) = map rp_client_order_id ps" for ps
    by (induction ps) auto
  have groups: "dget_or (group_by bf_client_order_id (br_fills r)) ?c [] = ?ch" by (simp add: children_def)
  have "\<exists>p \<in> set (br_order_reports r). rp_client_order_id p = ?c" using assms unfolding honest_def by blast
  then have "?c \<in> set (map rp_client_order_id (br_order_reports r))" by (auto intro: rev_image_eqI)
  then have "?c \<in> set (dkeys (map (\<lambda>p. (rp_client_order_id p, p)) (br_order_reports r)))" by (simp only: dk)
  then have "map_of ?reports ?c \<noteq> None"
    by (simp only: map_of_dict_of map_of_eq_None_iff set_rev set_map not_not)
  then obtain p where p: "map_of ?reports ?c = Some p" by blast
  then have pin: "p \<in> set (br_order_reports r)" "rp_client_order_id p = ?c"
    by (auto simp: map_of_dict_of dest!: map_of_SomeD)
  obtain ord' where o': "rp_client_order_id p = o_client_order_id ord'"
    and filled: "rp_filled_shares p = sum_list (map bf_shares (children (br_fills r) ord'))"
    and ns: "\<not> is_submission_only_broker_report p"
    using assms(1) pin(1) unfolding honest_def by blast
  have same: "children (br_fills r) ord' = ?ch" using o' pin(2) by (simp add: children_def)
  have pos: "\<forall>f \<in> set ?ch. 0 < bf_shares f"
    using assms(1) unfolding honest_def owns_def children_def by fastforce
  show ?thesis
  proof (cases "?ch = []")
    case True
    then have "rp_filled_shares p \<le> 0" using filled same by simp
    then show ?thesis using True p ns by (simp add: settle_order_def order_drafts_def Let_def)
  next
    case False
    then have "\<not> rp_filled_shares p \<le> 0" using filled same sum_positive_shares [OF _ pos] by simp
    then show ?thesis using False p ns by (simp add: settle_order_def order_drafts_def Let_def children_def)
  qed
qed

lemma order_event_flows:
  "ev_cash (order_event did ORDER_SUBMITTED ord ts) = 0" "ev_shares s (order_event did ORDER_SUBMITTED ord ts) = 0"
  "ev_cash (order_event did ORDER_REJECTED ord ts) = 0" "ev_shares s (order_event did ORDER_REJECTED ord ts) = 0"
  using order_event_trade by (simp_all add: ev_cash_def ev_shares_def)

lemma sum_drafts:
  "sum_list (map (\<lambda>d. ev_cash (d 0)) (order_drafts did bd fills ord)) = sum_list (map fill_cash_flow (children fills ord))"
  "sum_list (map (\<lambda>d. ev_shares s (d 0)) (order_drafts did bd fills ord)) =
    sum_list (map (\<lambda>f. if bf_symbol f = s then fill_share_flow f else 0) (children fills ord))"
  by (simp_all add: order_drafts_def order_event_flows fill_event_flows comp_def)

lemma sum_concat: "sum_list (concat xss) = sum_list (map sum_list xss)"
  by (induction xss) auto

lemma sum_by_key:
  fixes g :: "'f \<Rightarrow> 'a::comm_monoid_add"
  assumes "distinct (map key os)" and "\<forall>f \<in> set fs. \<exists>ord \<in> set os. k f = key ord"
  shows "sum_list (map (\<lambda>ord. sum_list (map g (filter (\<lambda>f. k f = key ord) fs))) os) = sum_list (map g fs)"
  using assms(2)
proof (induction fs)
  case Nil
  then show ?case by (induction os) auto
next
  case (Cons f fs)
  have one: "sum_list (map (\<lambda>ord. if k f = key ord then g f else 0) os) = g f"
    if "distinct (map key os)" "\<exists>ord \<in> set os. k f = key ord" for os
    using that
  proof (induction os)
    case (Cons x xs)
    show ?case
    proof (cases "k f = key x")
      case True
      then have "sum_list (map (\<lambda>ord. if k f = key ord then g f else 0) xs) = sum_list (map (\<lambda>_. 0) xs)"
        using Cons.prems(1) by (intro arg_cong [of _ _ sum_list] map_cong) auto
      then show ?thesis using True by simp
    next
      case False
      then show ?thesis using Cons by simp
    qed
  qed simp
  have "sum_list (map (\<lambda>ord. sum_list (map g (filter (\<lambda>f. k f = key ord) (f # fs)))) os)
      = sum_list (map (\<lambda>ord. (if k f = key ord then g f else 0) + sum_list (map g (filter (\<lambda>f. k f = key ord) fs))) os)"
    by (intro arg_cong [of _ _ sum_list] map_cong) auto
  also have "\<dots> = sum_list (map (\<lambda>ord. if k f = key ord then g f else 0) os)
      + sum_list (map (\<lambda>ord. sum_list (map g (filter (\<lambda>f. k f = key ord) fs))) os)"
    by (rule sum_list_addf)
  also have "\<dots> = g f + sum_list (map g fs)"
    using one [OF assms(1)] Cons by simp
  finally show ?case by simp
qed

text \<open>Ids: the draft of an order is tagged by symbol, event type and slice.\<close>

definition slice_key :: "fill_report \<Rightarrow> int option" where
  "slice_key f = (if bf_total_slices f = 1 then None else Some (bf_slice_index f))"

definition order_tags :: "fill_report list \<Rightarrow> order \<Rightarrow> (event_type \<times> int option) list" where
  "order_tags fills ord = (ORDER_SUBMITTED, None)
     # (if children fills ord = [] then [(ORDER_REJECTED, None)]
        else map (\<lambda>f. (fill_event_type f, slice_key f)) (children fills ord))"

definition tag_id :: "order \<Rightarrow> event_type \<times> int option \<Rightarrow> string" where
  "tag_id ord tk = o_client_order_id ord @ CHR '':'' # event_suffix (fst tk) (snd tk)"

lemma order_drafts_ids:
  "map (\<lambda>d. e_event_id (d 0)) (order_drafts did bd fills ord) = map (tag_id ord) (order_tags fills ord)"
  by (auto simp: order_drafts_def order_tags_def tag_id_def event_suffix_def order_event_def make_event_id_def
      stamped_order_def not_executed_def fill_event_def suffixed_def slice_key_def)

lemma order_tags_distinct:
  assumes "distinct (map bf_slice_index (children fills ord))"
    and "\<forall>f \<in> set (children fills ord). bf_total_slices f = int (length (children fills ord))"
  shows "distinct (order_tags fills ord)"
proof -
  let ?ch = "children fills ord"
  have "distinct (map slice_key ?ch)"
  proof (cases "length ?ch = 1")
    case True
    then obtain f where "?ch = [f]" by (auto simp: length_Suc_conv)
    then show ?thesis by simp
  next
    case False
    then have m: "map slice_key ?ch = map Some (map bf_slice_index ?ch)"
      using assms(2) by (auto simp: slice_key_def)
    show ?thesis unfolding m using assms(1) by (simp add: distinct_map inj_on_def)
  qed
  then have "distinct (map (\<lambda>f. (fill_event_type f, slice_key f)) ?ch)"
    by (auto simp: distinct_map inj_on_def)
  moreover have "(ORDER_SUBMITTED, None) \<notin> set (map (\<lambda>f. (fill_event_type f, slice_key f)) ?ch)"
    by (auto simp: fill_event_type_def split: if_splits)
  ultimately show ?thesis by (simp add: order_tags_def)
qed

lemma tag_id_inj:
  assumes "own_order did bd ord" and "own_order did bd ord'" and "tag_id ord tk = tag_id ord' tk'"
    and "\<forall>i. snd tk = Some i \<longrightarrow> 0 \<le> i" and "\<forall>i. snd tk' = Some i \<longrightarrow> 0 \<le> i"
  shows "o_symbol ord = o_symbol ord' \<and> tk = tk'"
  using own_id_inj [OF assms(1,2)] event_suffix_inj [OF _ assms(4,5)] assms(3)
  unfolding tag_id_def by (metis prod_eqI)

lemma tags_ids_distinct:
  assumes "\<forall>(ord, tks) \<in> set xs. own_order did bd ord \<and> distinct tks \<and> (\<forall>tk \<in> set tks. \<forall>i. snd tk = Some i \<longrightarrow> 0 \<le> i)"
    and "distinct (map (\<lambda>(ord, tks). o_symbol ord) xs)"
  shows "distinct (concat (map (\<lambda>(ord, tks). map (tag_id ord) tks) xs))"
  using assms
proof (induction xs)
  case (Cons x xs)
  obtain ord tks where x: "x = (ord, tks)" by (cases x)
  have own: "own_order did bd ord" "distinct tks" "\<forall>tk \<in> set tks. \<forall>i. snd tk = Some i \<longrightarrow> 0 \<le> i"
    using Cons.prems(1) by (auto simp: x)
  have rest: "\<forall>(ord, tks) \<in> set xs. own_order did bd ord \<and> (\<forall>tk \<in> set tks. \<forall>i. snd tk = Some i \<longrightarrow> 0 \<le> i)"
    using Cons.prems(1) by auto
  have other: "\<forall>(ord', tks') \<in> set xs. o_symbol ord' \<noteq> o_symbol ord"
  proof (intro ballI, clarify)
    fix ord' tks' assume "(ord', tks') \<in> set xs" "o_symbol ord' = o_symbol ord"
    then have "o_symbol ord \<in> set (map (\<lambda>(ord, tks). o_symbol ord) xs)" by force
    then show False using Cons.prems(2) by (simp add: x)
  qed
  have "distinct (map (tag_id ord) tks)"
    using own tag_id_inj [OF own(1) own(1)] by (auto simp: distinct_map inj_on_def)
  moreover have "set (map (tag_id ord) tks) \<inter> set (concat (map (\<lambda>(ord, tks). map (tag_id ord) tks) xs)) = {}"
  proof -
    have False if "tk \<in> set tks" "(ord', tks') \<in> set xs" "tk' \<in> set tks'" "tag_id ord tk = tag_id ord' tk'" for tk ord' tks' tk'
    proof -
      have "own_order did bd ord'" "\<forall>i. snd tk' = Some i \<longrightarrow> 0 \<le> i" "o_symbol ord' \<noteq> o_symbol ord"
        using rest other that(2,3) by blast+
      moreover have "\<forall>i. snd tk = Some i \<longrightarrow> 0 \<le> i" using own(3) that(1) by blast
      ultimately show False using tag_id_inj [OF own(1) _ that(4)] by metis
    qed
    then show ?thesis by (auto split: prod.splits) metis
  qed
  moreover have "distinct (concat (map (\<lambda>(ord, tks). map (tag_id ord) tks) xs))"
    using Cons by simp
  ultimately show ?case by (simp add: x)
qed simp

text \<open>Settling: the log of an honest result replays to its account.\<close>

definition orders_ok :: "string \<Rightarrow> date \<Rightarrow> risk_decision \<Rightarrow> bool" where
  "orders_ok did bd dec \<longleftrightarrow> (let os = map rj_order (rd_rejected dec) @ rd_accepted dec in
     (\<forall>ord \<in> set os. own_order did bd ord) \<and> distinct (map o_symbol os))"

lemma risk_rejection_draft:
  "settled_draft (snd (risk_rejection did bd rj))"
  "ev_cash (snd (risk_rejection did bd rj) 0) = 0" "ev_shares s (snd (risk_rejection did bd rj) 0) = 0"
  "e_event_id (snd (risk_rejection did bd rj) 0) = tag_id (rj_order rj) (ORDER_REJECTED, None)"
  using settled_order_event [of ORDER_REJECTED]
  by (simp_all add: risk_rejection_def Let_def ev_cash_def ev_shares_def order_event_trade)
     (simp add: order_event_def make_event_id_def tag_id_def event_suffix_def stamped_order_def)

lemma settle_result_events:
  assumes "honest q r" and "q_requested_orders q = rd_accepted dec"
  shows "or_events (settle_result sha inp alloc dec r) = stamp_events (oi_clock inp)
      (map (\<lambda>rj. snd (risk_rejection (oi_deployment_id inp) (oi_business_date inp) rj)) (rd_rejected dec)
       @ concat (map (order_drafts (oi_deployment_id inp) (oi_business_date inp) (br_fills r)) (rd_accepted dec)))"
proof -
  let ?did = "oi_deployment_id inp" and ?bd = "oi_business_date inp"
  let ?settle = "settle_order sha ?did ?bd (oi_broker_kind inp)
      (dict_of (map (\<lambda>p. (rp_client_order_id p, p)) (br_order_reports r))) (group_by bf_client_order_id (br_fills r))"
  have "map (\<lambda>(ord, fs, ds). ds) (map ?settle (rd_accepted dec)) = map (order_drafts ?did ?bd (br_fills r)) (rd_accepted dec)"
    using settle_order_drafts [OF assms(1), folded assms(2)] assms(2)
    by (auto simp: split_beta)
  then show ?thesis unfolding settle_result_def Let_def by (simp only: oms_result.simps) (simp add: comp_def)
qed

lemma children_of_symbol:
  assumes "honest q r" and "\<forall>ord \<in> set (q_requested_orders q). own_order did bd ord"
    and "ord \<in> set (q_requested_orders q)" and "f \<in> set (children (br_fills r) ord)"
  shows "bf_symbol f = o_symbol ord \<and> bf_side f = o_side ord \<and> 0 < bf_shares f \<and> 0 \<le> bf_slice_index f"
proof -
  have f: "f \<in> set (br_fills r)" "bf_client_order_id f = o_client_order_id ord"
    using assms(4) by (auto simp: children_def)
  then obtain ord' where o': "ord' \<in> set (q_requested_orders q)" "owns ord' f"
    using assms(1) unfolding honest_def by blast
  then have "o_client_order_id ord @ CHR '':'' # [] = o_client_order_id ord' @ CHR '':'' # []"
    using f(2) by (simp add: owns_def)
  then have "o_symbol ord = o_symbol ord' \<and> o_side ord = o_side ord'"
    using own_id_inj assms(2,3) o'(1) by blast
  then show ?thesis using o'(2) by (simp add: owns_def)
qed

lemma settled_replay:
  assumes "honest q r" and "q_requested_orders q = rd_accepted dec" and "q_holdings q = oi_holdings inp"
    and "q_cash q = oi_cash inp" and "orders_ok (oi_deployment_id inp) (oi_business_date inp) dec"
    and "\<And>s. 0 \<le> dget_or (oi_holdings inp) s 0"
  shows "\<exists>st. replay_events (or_events (settle_result sha inp alloc dec r)) (oi_cash inp) (oi_holdings inp) = Inr st
    \<and> os_cash st = br_cash r \<and> (\<forall>s. dget_or (os_holdings st) s 0 = dget_or (br_holdings r) s 0)"
proof -
  define did where "did = oi_deployment_id inp"
  define bd where "bd = oi_business_date inp"
  define acc where "acc = rd_accepted dec"
  define rjs where "rjs = rd_rejected dec"
  define fills where "fills = br_fills r"
  define D where "D = map (\<lambda>rj. snd (risk_rejection did bd rj)) rjs @ concat (map (order_drafts did bd fills) acc)"
  have ev: "or_events (settle_result sha inp alloc dec r) = stamp_events (oi_clock inp) D"
    using settle_result_events [OF assms(1,2)] by (simp add: D_def did_def bd_def acc_def rjs_def fills_def)
  have own: "\<forall>ord \<in> set (map rj_order rjs @ acc). own_order did bd ord" and dsym: "distinct (map o_symbol (map rj_order rjs @ acc))"
    using assms(5) by (simp_all add: orders_ok_def Let_def did_def bd_def acc_def rjs_def)
  have req: "q_requested_orders q = acc" using assms(2) by (simp add: acc_def)
  have own_acc: "\<forall>ord \<in> set (q_requested_orders q). own_order did bd ord" using own req by simp
  note child = children_of_symbol [OF assms(1) own_acc, unfolded req, folded fills_def]
  have D: "\<forall>d \<in> set D. settled_draft d"
    using risk_rejection_draft(1) settled_order_event settled_fill_event by (auto simp: D_def order_drafts_def split: if_splits)
  have key: "distinct (map o_client_order_id acc)"
  proof (rule distinct_map [THEN iffD2], intro conjI inj_onI)
    show "distinct acc" using dsym by (simp add: distinct_map)
    fix x y assume xy: "x \<in> set acc" "y \<in> set acc" "o_client_order_id x = o_client_order_id y"
    then have "o_client_order_id x @ CHR '':'' # [] = o_client_order_id y @ CHR '':'' # []" by simp
    moreover have "own_order did bd x" "own_order did bd y" using own xy by simp_all
    ultimately have "o_symbol x = o_symbol y" using own_id_inj by blast
    then show "x = y" using dsym xy by (auto simp: distinct_map dest: inj_onD)
  qed
  have owner: "\<forall>f \<in> set fills. \<exists>ord \<in> set acc. bf_client_order_id f = o_client_order_id ord"
    using assms(1) req unfolding honest_def owns_def fills_def by metis
  have total: "sum_list (map (\<lambda>ord. sum_list (map g (children fills ord))) acc) = sum_list (map g fills)"
    for g :: "fill_report \<Rightarrow> 'x::comm_monoid_add"
    unfolding children_def by (rule sum_by_key [OF key owner])
  have cash: "sum_list (map (\<lambda>d. ev_cash (d 0)) D) = sum_list (map fill_cash_flow fills)"
    using total [of fill_cash_flow]
    by (simp add: D_def risk_rejection_draft comp_def map_concat sum_concat sum_drafts)
  have shares: "sum_list (map (\<lambda>d. ev_shares s (d 0)) D) = fills_flow_of s fills" for s
  proof -
    have "sum_list (map (\<lambda>f. if bf_symbol f = s then fill_share_flow f else 0) fs) = fills_flow_of s fs" for fs
      by (induction fs) (auto simp: fills_flow_of_def)
    then show ?thesis using total [of "\<lambda>f. if bf_symbol f = s then fill_share_flow f else 0"]
      by (simp add: D_def risk_rejection_draft comp_def map_concat sum_concat sum_drafts)
  qed
  define tags where "tags = map (\<lambda>rj. (rj_order rj, [(ORDER_REJECTED, None)])) rjs @ map (\<lambda>ord. (ord, order_tags fills ord)) acc"
  have ids: "map (\<lambda>d. e_event_id (d 0)) D = concat (map (\<lambda>(ord, tks). map (tag_id ord) tks) tags)"
  proof -
    have "map (\<lambda>d. e_event_id (d 0)) (concat (map (order_drafts did bd fills) os))
        = concat (map (\<lambda>ord. map (tag_id ord) (order_tags fills ord)) os)" for os
      using order_drafts_ids by (induction os) simp_all
    moreover have "map (\<lambda>rj. e_event_id (snd (risk_rejection did bd rj) 0)) rs
        = concat (map (\<lambda>rj. map (tag_id (rj_order rj)) [(ORDER_REJECTED, None)]) rs)" for rs
      using risk_rejection_draft(4) by (induction rs) simp_all
    ultimately show ?thesis by (simp add: D_def tags_def comp_def)
  qed
  have "distinct (map (\<lambda>d. e_event_id (d 0)) D)" unfolding ids
  proof (rule tags_ids_distinct)
    show "distinct (map (\<lambda>(ord, tks). o_symbol ord) tags)" using dsym by (simp add: tags_def comp_def)
    have slices: "distinct (order_tags fills ord)" if "ord \<in> set acc" for ord
      using assms(1) that unfolding honest_def req fills_def by (blast intro: order_tags_distinct)
    have "0 \<le> i" if "ord \<in> set acc" "tk \<in> set (order_tags fills ord)" "snd tk = Some i" for ord tk i
      using that child [OF that(1)] by (auto simp: order_tags_def slice_key_def split: if_splits)
    then show "\<forall>(ord, tks) \<in> set tags. own_order did bd ord \<and> distinct tks \<and> (\<forall>tk \<in> set tks. \<forall>i. snd tk = Some i \<longrightarrow> 0 \<le> i)"
      using own slices by (auto simp: tags_def)
  qed
  note distinct_ids = this
  have one: "one_way s (stamp_events (oi_clock inp) D)" for s
  proof -
    have flow: "ev_shares s (d 0) \<noteq> 0 \<Longrightarrow> d \<in> set D \<Longrightarrow>
        \<exists>ord \<in> set acc. o_symbol ord = s \<and> (0 < ev_shares s (d 0) \<longleftrightarrow> o_side ord = ''buy'')" for d
    proof -
      assume nz: "ev_shares s (d 0) \<noteq> 0" and d: "d \<in> set D"
      then obtain ord f where o: "ord \<in> set acc" "f \<in> set (children fills ord)" "d = fill_event did bd ord f"
        by (auto simp: D_def order_drafts_def risk_rejection_draft order_event_flows split: if_splits)
      then show ?thesis using nz child [OF o(1,2)]
        by (auto simp: fill_event_flows fill_share_flow_def split: if_splits)
    qed
    have same: "o_side x = o_side y" if "x \<in> set acc" "y \<in> set acc" "o_symbol x = o_symbol y" for x y
      using that dsym by (auto simp: distinct_map dest: inj_onD)
    have "(\<forall>d \<in> set D. 0 \<le> ev_shares s (d 0)) \<or> (\<forall>d \<in> set D. ev_shares s (d 0) \<le> 0)"
      using flow same by (metis linorder_not_less order_less_irrefl order_less_le)
    moreover have "ev_shares s ` set (stamp_events (oi_clock inp) D) = (\<lambda>d. ev_shares s (d 0)) ` set D"
      using arg_cong [OF stamp_settles(4) [OF D, of s], of set] by simp
    then have "\<exists>d \<in> set D. ev_shares s ev = ev_shares s (d 0)" if "ev \<in> set (stamp_events (oi_clock inp) D)" for ev
      using that by (metis (no_types, lifting) image_iff)
    ultimately show ?thesis unfolding one_way_def by metis
  qed
  note st = stamp_settles [OF D, where clock = "oi_clock inp"]
  have flows: "sum_list (map ev_cash (stamp_events (oi_clock inp) D)) = sum_list (map fill_cash_flow fills)"
    "sum_list (map (ev_shares s) (stamp_events (oi_clock inp) D)) = fills_flow_of s fills" for s
    by (simp_all only: st(3,4) cash shares)
  have acct: "br_cash r = oi_cash inp + sum_list (map fill_cash_flow fills)"
    "dget_or (br_holdings r) s 0 = dget_or (oi_holdings inp) s 0 + fills_flow_of s fills" "0 \<le> dget_or (br_holdings r) s 0" for s
    using assms(1) unfolding honest_def fills_def assms(3,4) by blast+
  have "\<exists>x. replay_events (stamp_events (oi_clock inp) D) (oi_cash inp) (oi_holdings inp) = Inr x
      \<and> os_cash x = oi_cash inp + sum_list (map ev_cash (stamp_events (oi_clock inp) D))
      \<and> (\<forall>s. dget_or (os_holdings x) s 0 = dget_or (oi_holdings inp) s 0 + sum_list (map (ev_shares s) (stamp_events (oi_clock inp) D)))"
  proof (rule replay_settles)
    show "distinct (map e_event_id (stamp_events (oi_clock inp) D))" unfolding st(2) by (rule distinct_ids)
    show "0 \<le> dget_or (oi_holdings inp) s 0 + sum_list (map (ev_shares s) (stamp_events (oi_clock inp) D))" for s
      using acct(2) [of s] acct(3) [of s] by (simp only: flows)
  qed (use st(1) one assms(6) in auto)
  then show ?thesis unfolding ev flows acct(1) acct(2) .
qed

end
