(* ===== verification/Paper_Rebalance.thy ===== *)
theory Paper_Rebalance
  imports OMS_Replay
begin

text \<open>
  The paper broker under the OMS.  A request is \<open>covered\<close> when every trade its target weights cause on a
  priced symbol is asked for by an order of the right side; on covered requests the paper broker keeps the
  contract \<open>rebalance_broker\<close>.  The requests of a rebalance are covered when the holdings are whole lots
  and every price is positive, and not in general otherwise.
\<close>

section \<open>Covered requests\<close>

definition wanted_side :: "(string, int) dict \<Rightarrow> (string, int) dict \<Rightarrow> string \<Rightarrow> string" where
  "wanted_side hold targets s = (if dget_or hold s 0 < dget_or targets s 0 then ''buy'' else ''sell'')"

definition orders_cover :: "exec_request \<Rightarrow> (string, int) dict \<Rightarrow> bool" where
  "orders_cover q targets \<longleftrightarrow> (\<forall>s \<in> set (dkeys targets). 0 \<le> dget_or targets s 0)
     \<and> (\<forall>s \<in> set (leg_order (q_holdings q) targets). dhas (xi_prices (q_inputs q)) s \<longrightarrow>
          list_ex (\<lambda>ord. o_symbol ord = s \<and> o_side ord = wanted_side (q_holdings q) targets s) (q_requested_orders q))"

definition covered :: "kernel option \<Rightarrow> exec_request \<Rightarrow> bool" where
  "covered kern q \<longleftrightarrow> (kern = None \<or> 0 < xi_limit_pct (q_inputs q))
     \<and> 0 < xi_lot_size (q_inputs q) \<and> costs_ok (xi_costs (q_inputs q))
     \<and> (\<forall>(s, n) \<in> set (q_holdings q). 0 \<le> n)
     \<and> (\<forall>ord \<in> set (q_requested_orders q). o_client_order_id ord \<noteq> [])
     \<and> distinct (map o_client_order_id (q_requested_orders q))
     \<and> (case target_shares_of (xi_equity (q_inputs q)) (xi_prices (q_inputs q)) (xi_lot_size (q_inputs q))
           (q_target_weights q) of
          Inl _ \<Rightarrow> True
        | Inr targets \<Rightarrow> orders_cover q targets)"

lemma dget_nonneg: "\<forall>(s, n) \<in> set d. 0 \<le> n \<Longrightarrow> 0 \<le> dget_or d s (0 :: int)"
  by (auto simp: dget_or_def split: option.split dest!: map_of_SomeD)

text \<open>The trades of a covered request: on distinct symbols, each on the side the targets want.\<close>

lemma covered_trades:
  assumes "execute_python inp tw hold csh [] = Inr st"
  obtains targets where "target_shares_of (xi_equity inp) (xi_prices inp) (xi_lot_size inp) tw = Inr targets"
    "distinct (map tr_symbol (xs_trades st))"
    "\<forall>t \<in> set (xs_trades st). tr_symbol t \<in> set (leg_order hold targets) \<and> dhas (xi_prices inp) (tr_symbol t)
       \<and> tr_side t = wanted_side hold targets (tr_symbol t)"
    "rfold (exec_leg inp targets) (leg_order hold targets) (start_state hold csh []) = Inr st"
proof -
  obtain targets where t: "target_shares_of (xi_equity inp) (xi_prices inp) (xi_lot_size inp) tw = Inr targets"
    and run: "rfold (exec_leg inp targets) (leg_order hold targets) (start_state hold csh []) = Inr st"
    by (rule execute_python_cases [OF assms])
  have tr: "subseq (map tr_symbol (xs_trades st)) (leg_order hold targets)"
    "\<forall>t \<in> set (xs_trades st). tr_side t = ''buy'' \<longleftrightarrow> dget_or hold (tr_symbol t) 0 < dget_or targets (tr_symbol t) 0"
    using run_trades [OF run leg_order_distinct] by auto
  have ok: "\<forall>t \<in> set (xs_trades st). trade_ok inp t"
    using python_run_ok(1) [OF assms] by (simp add: balanced_def)
  have mem: "tr_symbol t \<in> set (leg_order hold targets)" if "t \<in> set (xs_trades st)" for t
    using list_emb_set [OF tr(1), of "tr_symbol t"] that by auto
  have side: "tr_side t = wanted_side hold targets (tr_symbol t)" if "t \<in> set (xs_trades st)" for t
    using tr(2) ok that by (auto simp: trade_ok_def wanted_side_def)
  have priced: "dhas (xi_prices inp) (tr_symbol t)" if "t \<in> set (xs_trades st)" for t
    using ok that unfolding trade_ok_def dhas_def by (metis option.distinct(1))
  show thesis
    by (rule that [OF t subseq_distinct [OF tr(1) leg_order_distinct] _ run]) (use mem side priced in blast)
qed

lemma order_map_lookup:
  assumes "\<exists>ord \<in> set os. o_symbol ord = s \<and> o_side ord = x"
  obtains ord where "map_of (requested_order_map os) (s, x) = Some ord" "ord \<in> set os" "o_symbol ord = s" "o_side ord = x"
proof -
  let ?ps = "map (\<lambda>ord. ((o_symbol ord, o_side ord), ord)) os"
  obtain o1 where "o1 \<in> set os" "o_symbol o1 = s" "o_side o1 = x" using assms by blast
  then have "((s, x), o1) \<in> set (rev ?ps)"
    unfolding set_rev set_map by (intro image_eqI [where x = o1]) simp_all
  then have "(s, x) \<in> fst ` set (rev ?ps)" by (intro image_eqI [where x = "((s, x), o1)"]) simp_all
  then have "map_of (rev ?ps) (s, x) \<noteq> None" by (simp only: map_of_eq_None_iff not_not)
  then obtain ord where o: "map_of (rev ?ps) (s, x) = Some ord" by blast
  then have "((s, x), ord) \<in> set (rev ?ps)" by (rule map_of_SomeD)
  then have "ord \<in> set os" "o_symbol ord = s" "o_side ord = x" by auto
  moreover have "map_of (requested_order_map os) (s, x) = Some ord"
    unfolding requested_order_map_def map_of_dict_of by (rule o)
  ultimately show thesis using that by blast
qed

text \<open>The children of an order are the slices of one trade, or none.\<close>

lemma list_all2_second: "list_all2 P xs ys \<Longrightarrow> y \<in> set ys \<Longrightarrow> \<exists>x \<in> set xs. P x y"
  by (induction rule: list_all2_induct) auto

lemma children_one_trade:
  assumes "list_all2 (\<lambda>t fs. \<forall>f \<in> set fs. bf_client_order_id f = c t) ts fss" and "distinct (map c ts)"
  shows "children (concat fss) ord = [] \<or> children (concat fss) ord \<in> set fss"
  using assms
proof (induction rule: list_all2_induct)
  case Nil
  then show ?case by (simp add: children_def)
next
  case (Cons t ts fs fss)
  show ?case
  proof (cases "c t = o_client_order_id ord")
    case True
    have "\<forall>f \<in> set (concat fss). bf_client_order_id f \<noteq> o_client_order_id ord"
    proof
      fix f assume "f \<in> set (concat fss)"
      then obtain gs where "gs \<in> set fss" "f \<in> set gs" by auto
      then obtain u where "u \<in> set ts" "bf_client_order_id f = c u"
        using list_all2_second [OF Cons.hyps(2)] by blast
      then show "bf_client_order_id f \<noteq> o_client_order_id ord" using Cons.prems True by force
    qed
    then have "children (concat fss) ord = []" by (simp add: children_def filter_empty_conv)
    moreover have "children fs ord = fs" using Cons.hyps(1) True by (simp add: children_def filter_id_conv)
    ultimately show ?thesis by (simp add: children_def)
  next
    case False
    then have "children fs ord = []" using Cons.hyps(1) by (auto simp: children_def filter_empty_conv)
    then show ?thesis using Cons by (auto simp: children_def)
  qed
qed

lemma normalize_rejected: "normalize_broker_order_status ''rejected'' f r = ''order_error''"
proof -
  let ?s = "''rejected''"
  have "str_lower (str_strip ?s) = ?s" "dget_or broker_status_aliases ?s ?s = ?s" "\<not> dhas broker_status_rank_table ?s"
    "\<not> str_in ''cancel'' ?s" "\<not> str_in ''partial'' ?s" "\<not> str_in ''fill'' ?s"
    by code_simp+
  then show ?thesis by (simp add: normalize_broker_order_status_def classify_status_def)
qed

text \<open>The report of an order sums its children, and no report is a mere acknowledgement.\<close>

lemma order_report_sums:
  assumes "\<forall>f \<in> set fills. bf_client_order_id f \<noteq> []" and "\<forall>f \<in> set fills. 0 < bf_shares f"
    and p_def: "p = order_report_of bd (group_by fill_key fills) ord"
  shows "rp_client_order_id p = o_client_order_id ord" "rp_filled_shares p = sum_list (map bf_shares (children fills ord))"
    "\<not> is_submission_only_broker_report p"
proof -
  have "\<forall>f \<in> set fills. fill_key f = bf_client_order_id f" using assms(1) by (simp add: fill_key_def str_or_def)
  then have ch: "dget_or (group_by fill_key fills) (o_client_order_id ord) [] = children fills ord"
    by (auto simp: children_def intro: filter_cong)
  show "rp_client_order_id p = o_client_order_id ord" by (simp add: p_def order_report_of_def Let_def)
  show f: "rp_filled_shares p = sum_list (map bf_shares (children fills ord))"
    by (simp only: p_def order_report_of_def Let_def order_report.simps ch)
  show "\<not> is_submission_only_broker_report p"
  proof (cases "children fills ord = []")
    case True
    then have "rp_status p = ''rejected''"
      unfolding p_def order_report_of_def Let_def order_report.simps ch by (simp add: order_status_value.simps)
    then show ?thesis by (simp add: is_submission_only_broker_report_def normalize_rejected)
  next
    case False
    have "0 < sum_list (map bf_shares (children fills ord))"
      by (rule sum_positive_shares [OF False]) (use assms(2) in \<open>auto simp: children_def\<close>)
    then show ?thesis by (simp add: is_submission_only_broker_report_def f)
  qed
qed

text \<open>The run of a covered request, unpacked once for all the laws.\<close>

lemma covered_run:
  assumes "covered kern q" and "paper_execute kern q = Inr r"
  obtains st :: exec_state and fss and own :: "trade_result \<Rightarrow> order" where
    "list_all2 (\<lambda>t fs. trade_fills (q_business_date q) (requested_order_map (q_requested_orders q))
       (max (q_execution_slices q) 1) (xi_lot_size (q_inputs q)) t = Inr fs) (xs_trades st) fss"
    "br_fills r = concat fss" "br_holdings r = xs_holdings st"
    "br_order_reports r = build_order_reports (q_requested_orders q) (concat fss) (q_business_date q)"
    "\<forall>t \<in> set (xs_trades st). 0 < tr_shares t \<and> own t \<in> set (q_requested_orders q) \<and> o_symbol (own t) = tr_symbol t
       \<and> o_side (own t) = tr_side t
       \<and> map_of (requested_order_map (q_requested_orders q)) (tr_symbol t, tr_side t) = Some (own t)"
    "distinct (map tr_symbol (xs_trades st))"
    "\<forall>s. 0 \<le> dget_or (xs_holdings st) s 0"
proof -
  let ?inp = "q_inputs q"
  have c: "kern = None \<or> 0 < xi_limit_pct ?inp" "0 < xi_lot_size ?inp" "costs_ok (xi_costs ?inp)"
    "\<forall>(s, n) \<in> set (q_holdings q). 0 \<le> n"
    using assms(1) by (auto simp: covered_def)
  obtain st fss where run: "execute_python ?inp (q_target_weights q) (q_holdings q) (q_cash q) [] = Inr st"
    and fss: "rmap (trade_fills (q_business_date q) (requested_order_map (q_requested_orders q))
       (max (q_execution_slices q) 1) (xi_lot_size ?inp)) (xs_trades st) = Inr fss"
    and r: "br_fills r = concat fss" "br_holdings r = xs_holdings st"
      "br_order_reports r = build_order_reports (q_requested_orders q) (concat fss) (q_business_date q)"
    by (rule paper_execute_cases [OF assms(2) c(1)])
  obtain targets where t: "target_shares_of (xi_equity ?inp) (xi_prices ?inp) (xi_lot_size ?inp) (q_target_weights q) = Inr targets"
    and d: "distinct (map tr_symbol (xs_trades st))"
    and mem: "\<forall>t \<in> set (xs_trades st). tr_symbol t \<in> set (leg_order (q_holdings q) targets)
       \<and> dhas (xi_prices ?inp) (tr_symbol t) \<and> tr_side t = wanted_side (q_holdings q) targets (tr_symbol t)"
    and legs: "rfold (exec_leg ?inp targets) (leg_order (q_holdings q) targets) (start_state (q_holdings q) (q_cash q) []) = Inr st"
    by (rule covered_trades [OF run])
  have cov: "orders_cover q targets" using assms(1) t by (simp add: covered_def)
  define own where "own = (\<lambda>t :: trade_result. the (map_of (requested_order_map (q_requested_orders q)) (tr_symbol t, tr_side t)))"
  have owned: "own t \<in> set (q_requested_orders q) \<and> o_symbol (own t) = tr_symbol t \<and> o_side (own t) = tr_side t
      \<and> map_of (requested_order_map (q_requested_orders q)) (tr_symbol t, tr_side t) = Some (own t)"
    if "t \<in> set (xs_trades st)" for t
  proof -
    have "\<exists>ord \<in> set (q_requested_orders q). o_symbol ord = tr_symbol t \<and> o_side ord = tr_side t"
      using cov mem that unfolding orders_cover_def list_ex_iff by metis
    from order_map_lookup [OF this] show ?thesis by (metis own_def option.sel)
  qed
  have pos: "\<forall>t \<in> set (xs_trades st). 0 < tr_shares t" using python_run_ok(2) [OF run] .
  have targets0: "0 \<le> dget_or targets s 0" for s
  proof (cases "s \<in> set (dkeys targets)")
    case True
    then show ?thesis using cov unfolding orders_cover_def by blast
  next
    case False
    then have "map_of targets s = None" by (simp only: map_of_eq_None_iff set_map not_False_eq_True)
    then show ?thesis by (simp add: dget_or_def)
  qed
  have "0 \<le> dget_or (xs_holdings st) s 0" for s
    using run_towards_target [OF legs leg_order_distinct c(3,2), of s] targets0 [of s] dget_nonneg [OF c(4), of s]
    by (auto simp: Let_def)
  then show thesis using that [of st fss own] fss r owned pos d by (simp add: rmap_Inr_iff)
qed

interpretation paper: rebalance_broker "paper_execute kern" "covered kern" for kern
proof
  fix q r
  assume cov: "covered kern q" and run: "paper_execute kern q = Inr r"
  obtain st :: exec_state and fss and own :: "trade_result \<Rightarrow> order" where
    all: "list_all2 (\<lambda>t fs. trade_fills (q_business_date q) (requested_order_map (q_requested_orders q))
       (max (q_execution_slices q) 1) (xi_lot_size (q_inputs q)) t = Inr fs) (xs_trades st) fss"
    and r: "br_fills r = concat fss" "br_holdings r = xs_holdings st"
      "br_order_reports r = build_order_reports (q_requested_orders q) (concat fss) (q_business_date q)"
    and own: "\<forall>t \<in> set (xs_trades st). 0 < tr_shares t \<and> own t \<in> set (q_requested_orders q) \<and> o_symbol (own t) = tr_symbol t
       \<and> o_side (own t) = tr_side t
       \<and> map_of (requested_order_map (q_requested_orders q)) (tr_symbol t, tr_side t) = Some (own t)"
    and d: "distinct (map tr_symbol (xs_trades st))"
    and nn: "\<forall>s. 0 \<le> dget_or (xs_holdings st) s 0"
    by (rule covered_run [OF cov run])
  have c: "kern = None \<or> 0 < xi_limit_pct (q_inputs q)" "0 < xi_lot_size (q_inputs q)"
    "\<forall>ord \<in> set (q_requested_orders q). o_client_order_id ord \<noteq> []"
    "distinct (map o_client_order_id (q_requested_orders q))"
    using cov by (auto simp: covered_def)
  have fills: "\<forall>t fs. t \<in> set (xs_trades st) \<and> trade_fills (q_business_date q) (requested_order_map (q_requested_orders q))
       (max (q_execution_slices q) 1) (xi_lot_size (q_inputs q)) t = Inr fs \<longrightarrow>
      (\<forall>f \<in> set fs. owns (own t) f) \<and> map bf_slice_index fs = [1..int (length fs)]
      \<and> (\<forall>f \<in> set fs. bf_total_slices f = int (length fs))"
  proof (intro allI impI, elim conjE)
    fix t fs
    assume t: "t \<in> set (xs_trades st)" and fs: "trade_fills (q_business_date q) (requested_order_map (q_requested_orders q))
       (max (q_execution_slices q) 1) (xi_lot_size (q_inputs q)) t = Inr fs"
    have o: "0 < tr_shares t" "o_symbol (own t) = tr_symbol t" "o_side (own t) = tr_side t"
      "map_of (requested_order_map (q_requested_orders q)) (tr_symbol t, tr_side t) = Some (own t)"
      using own t by blast+
    note sp = trade_fills_spec [OF fs c(2) o(1)]
    have "0 \<le> bf_slice_index f" if "f \<in> set fs" for f
    proof -
      have "bf_slice_index f \<in> set [1..int (length fs)]" using that by (simp only: sp(7) [symmetric]) simp
      then show ?thesis by simp
    qed
    then show "(\<forall>f \<in> set fs. owns (own t) f) \<and> map bf_slice_index fs = [1..int (length fs)]
      \<and> (\<forall>f \<in> set fs. bf_total_slices f = int (length fs))"
      using sp(1,7,8) o by (simp add: owns_def)
  qed
  have fill_owner: "\<exists>t \<in> set (xs_trades st). own t \<in> set (q_requested_orders q) \<and> owns (own t) f" if f: "f \<in> set (br_fills r)" for f
  proof -
    obtain fs where "fs \<in> set fss" "f \<in> set fs" using f r(1) by auto
    then show ?thesis using list_all2_second [OF all] fills own by blast
  qed
  show "br_cash r = q_cash q + sum_list (map fill_cash_flow (br_fills r))"
    by (rule paper_conserves(1) [OF run c(1,2)])
  show "dget_or (br_holdings r) s 0 = dget_or (q_holdings q) s 0 + fills_flow_of s (br_fills r)" for s
    by (rule paper_conserves(2) [OF run c(1,2)])
  show "0 \<le> dget_or (br_holdings r) s 0" for s using nn r(2) by simp
  show "\<exists>ord \<in> set (q_requested_orders q). owns ord f" if "f \<in> set (br_fills r)" for f
    using fill_owner [OF that] by blast
  show "distinct (map bf_slice_index (children (br_fills r) ord))
      \<and> (\<forall>f \<in> set (children (br_fills r) ord). bf_total_slices f = int (length (children (br_fills r) ord)))"
    if "ord \<in> set (q_requested_orders q)" for ord
  proof -
    have "list_all2 (\<lambda>t fs. \<forall>f \<in> set fs. bf_client_order_id f = o_client_order_id (own t)) (xs_trades st) fss"
      using all fills by (auto simp: list_all2_conv_all_nth owns_def)
    moreover have "distinct (map (\<lambda>t. o_client_order_id (own t)) (xs_trades st))"
    proof -
      have "map o_symbol (map own (xs_trades st)) = map tr_symbol (xs_trades st)" using own by simp
      then have "distinct (map o_symbol (map own (xs_trades st)))" using d by (simp only:)
      then have "distinct (map own (xs_trades st))" unfolding distinct_map [of o_symbol] by blast
      moreover have "set (map own (xs_trades st)) \<subseteq> set (q_requested_orders q)" using own by auto
      moreover have "inj_on o_client_order_id (set (q_requested_orders q))" using c(4) unfolding distinct_map by blast
      ultimately have "distinct (map o_client_order_id (map own (xs_trades st)))"
        unfolding distinct_map [of o_client_order_id] using inj_on_subset by blast
      then show ?thesis by (simp add: comp_def)
    qed
    ultimately have "children (br_fills r) ord = [] \<or> children (br_fills r) ord \<in> set fss"
      unfolding r(1) by (rule children_one_trade)
    then show ?thesis
    proof
      assume "children (br_fills r) ord \<in> set fss"
      then obtain t where "t \<in> set (xs_trades st)" "trade_fills (q_business_date q) (requested_order_map (q_requested_orders q))
         (max (q_execution_slices q) 1) (xi_lot_size (q_inputs q)) t = Inr (children (br_fills r) ord)"
        using list_all2_second [OF all] by blast
      then have "map bf_slice_index (children (br_fills r) ord) = [1..int (length (children (br_fills r) ord))]"
        "\<forall>f \<in> set (children (br_fills r) ord). bf_total_slices f = int (length (children (br_fills r) ord))"
        using fills by blast+
      then show ?thesis by simp
    qed simp
  qed
  have ids: "\<forall>f \<in> set (br_fills r). bf_client_order_id f \<noteq> []" "\<forall>f \<in> set (br_fills r). 0 < bf_shares f"
    using fill_owner c(3) unfolding owns_def by metis+
  note rep = order_report_sums [OF ids refl]
  have reports: "br_order_reports r = map (order_report_of (q_business_date q) (group_by fill_key (br_fills r))) (q_requested_orders q)"
    by (simp add: r build_order_reports_def)
  show "\<exists>p \<in> set (br_order_reports r). rp_client_order_id p = o_client_order_id ord" if "ord \<in> set (q_requested_orders q)" for ord
    using that rep(1) unfolding reports by auto
  show "\<not> is_submission_only_broker_report p \<and> (\<exists>ord \<in> set (q_requested_orders q). rp_client_order_id p = o_client_order_id ord
      \<and> rp_filled_shares p = sum_list (map bf_shares (children (br_fills r) ord)))" if "p \<in> set (br_order_reports r)" for p
    using that rep unfolding reports by auto
qed

section \<open>The requests of a rebalance\<close>

lemma desired_order_cases:
  assumes "desired_order did bd hold targets s = Some ord"
  shows "o_symbol ord = s" "o_client_order_id ord = make_client_order_id did bd s (o_side ord)"
    "o_side ord = wanted_side hold targets s" "order_delta ord = dget_or targets s 0 - dget_or hold s 0"
    "dget_or targets s 0 \<noteq> dget_or hold s 0"
  using assms by (auto simp: desired_order_def Let_def wanted_side_def order_delta_def split: if_splits)

lemma map_filter_symbols:
  assumes "\<And>s ord. f s = Some ord \<Longrightarrow> o_symbol ord = s"
  shows "map o_symbol (List.map_filter f xs) = filter (\<lambda>s. f s \<noteq> None) xs"
  using assms by (induction xs) (auto simp: List.map_filter_simps split: option.splits)

lemma desired_orders:
  assumes "build_desired_orders did bd tw hold equity prices lot = Inr ds"
  obtains targets where "target_shares_of equity prices lot tw = Inr targets" "distinct (map o_symbol ds)"
    "\<forall>ord \<in> set ds. desired_order did bd hold targets (o_symbol ord) = Some ord"
proof -
  obtain targets where t: "target_shares_of equity prices lot tw = Inr targets"
    and ds: "ds = List.map_filter (desired_order did bd hold targets) (sorted_union (dkeys hold) (dkeys targets))"
    using assms by (auto simp: build_desired_orders_def)
  have "map o_symbol ds = filter (\<lambda>s. desired_order did bd hold targets s \<noteq> None) (sorted_union (dkeys hold) (dkeys targets))"
    unfolding ds by (rule map_filter_symbols) (rule desired_order_cases(1))
  then have "distinct (map o_symbol ds)" by simp
  moreover have "\<forall>ord \<in> set ds. desired_order did bd hold targets (o_symbol ord) = Some ord"
    using desired_order_cases(1) by (force simp: ds List.map_filter_def)
  ultimately show thesis using that t by blast
qed

text \<open>The decision splits the desired orders.\<close>

lemma decide_cases:
  assumes "decide_orders eig sqrt_fn inp = Inr (alloc, dec)"
  obtains tw targets where
    "target_shares_of (xi_equity (oi_market inp)) (xi_prices (oi_market inp)) (xi_lot_size (oi_market inp)) tw = Inr targets"
    "distinct (map o_symbol (map rj_order (rd_rejected dec) @ rd_accepted dec))"
    "\<forall>ord \<in> set (map rj_order (rd_rejected dec) @ rd_accepted dec).
       desired_order (oi_deployment_id inp) (oi_business_date inp) (oi_holdings inp) targets (o_symbol ord) = Some ord"
proof -
  obtain cfg policy ds where
    b: "build_desired_orders (oi_deployment_id inp) (oi_business_date inp) (ad_weights alloc) (oi_holdings inp)
         (xi_equity (oi_market inp)) (xi_prices (oi_market inp)) (xi_lot_size (oi_market inp)) = Inr ds"
    and dec: "dec = evaluate_orders (oi_business_date inp) (risk_setup_of inp cfg policy) ds (oi_holdings inp)"
    using assms by (auto simp: decide_orders_def)
  obtain targets where t: "target_shares_of (xi_equity (oi_market inp)) (xi_prices (oi_market inp)) (xi_lot_size (oi_market inp)) (ad_weights alloc) = Inr targets"
    and d: "distinct (map o_symbol ds)"
    and o: "\<forall>ord \<in> set ds. desired_order (oi_deployment_id inp) (oi_business_date inp) (oi_holdings inp) targets (o_symbol ord) = Some ord"
    by (rule desired_orders [OF b])
  let ?os = "map rj_order (rd_rejected dec) @ rd_accepted dec"
  have m: "mset ?os = mset ds"
    using screen_partition by (simp add: dec evaluate_orders_def)
  then have "mset (map o_symbol ?os) = mset (map o_symbol ds)" by (simp only: mset_map)
  then have "distinct (map o_symbol ?os)" using d by (metis mset_eq_imp_distinct_iff)
  moreover have "set ?os = set ds" using m by (metis set_mset_mset)
  ultimately show thesis using that t o by simp
qed

lemma accepted_holdings_other:
  "\<forall>ord \<in> set os. o_symbol ord \<noteq> s \<Longrightarrow> dget_or (accepted_holdings h os) s 0 = dget_or h s 0"
  by (induction os arbitrary: h) (auto simp: accepted_holdings_def apply_delta_def Let_def dget_or_dset dget_or_dpop)

lemma accepted_holdings_order:
  assumes "distinct (map o_symbol os)" and "ord \<in> set os"
  shows "dget_or (accepted_holdings h os) (o_symbol ord) 0 = max 0 (dget_or h (o_symbol ord) 0 + order_delta ord)"
  using assms
proof (induction os arbitrary: h)
  case (Cons x os)
  have step: "accepted_holdings h (x # os) = accepted_holdings (apply_delta h (o_symbol x) (order_delta x)) os"
    by (simp add: accepted_holdings_def)
  show ?case
  proof (cases "x = ord")
    case True
    then have "\<forall>y \<in> set os. o_symbol y \<noteq> o_symbol ord"
      using Cons.prems(1) by (metis distinct.simps(2) image_eqI list.set_map list.simps(9))
    then show ?thesis unfolding step
      by (simp add: accepted_holdings_other True) (simp add: apply_delta_def Let_def dget_or_dset dget_or_dpop)
  next
    case False
    then have in_os: "ord \<in> set os" using Cons.prems by simp
    then have "o_symbol ord \<noteq> o_symbol x"
      using Cons.prems(1) by (metis distinct.simps(2) image_eqI list.set_map list.simps(9))
    then have "dget_or (apply_delta h (o_symbol x) (order_delta x)) (o_symbol ord) 0 = dget_or h (o_symbol ord) 0"
      by (simp add: apply_delta_def Let_def dget_or_dset dget_or_dpop)
    then show ?thesis unfolding step using Cons.IH Cons.prems(1) in_os by simp
  qed
qed simp

lemma accepted_holdings_ok: "dict_ok h \<Longrightarrow> dict_ok (accepted_holdings h os)"
  by (induction os arbitrary: h) (auto simp: accepted_holdings_def)

text \<open>In exact arithmetic the weights of whole-lot holdings come back as those holdings.\<close>

lemma accepted_targets:
  assumes t: "target_shares_of equity prices lot (accepted_target_weights hold os prices equity) = Inr targets"
    and "0 < lot" and "0 < equity" and "prices_ok prices" and "dict_ok hold"
    and "lot dvd dget_or (accepted_holdings hold os) s 0"
  shows "dget_or targets s 0 = (if dhas prices s then max 0 (dget_or (accepted_holdings hold os) s 0) else 0)"
proof -
  let ?acc = "accepted_holdings hold os"
  let ?w = "accepted_target_weights hold os prices equity"
  have w: "?w = map (\<lambda>(s, n). (s, of_int n * dget_or prices s 0 / equity)) (filter (\<lambda>(s, n). 0 < n \<and> 0 < dget_or prices s 0) ?acc)"
    using assms(3) by (simp add: accepted_target_weights_def)
  have acc: "dict_ok ?acc" using assms(5) by (rule accepted_holdings_ok)
  then have ok: "dict_ok ?w" unfolding w
    by (auto simp: dict_ok_def comp_def split_def intro: distinct_map_filter)
  have look: "map_of ?w s = (case map_of ?acc s of Some n \<Rightarrow> if 0 < n \<and> 0 < dget_or prices s 0
      then Some (of_int n * dget_or prices s 0 / equity) else None | None \<Rightarrow> None)"
    unfolding w by (rule map_of_comprehension [OF acc])
  note lk = target_shares_lookup [OF t ok, of s]
  show ?thesis
  proof (cases "map_of prices s")
    case None
    then show ?thesis using lk by (simp add: dhas_def dget_or_def split: option.splits)
  next
    case (Some p)
    then have p: "0 < p" "dget_or prices s 0 = p" using assms(4) by (auto simp: prices_ok_def dget_or_def)
    show ?thesis
    proof (cases "map_of ?acc s")
      case None
      then show ?thesis using lk look Some by (simp add: dget_or_def)
    next
      case acc_s: (Some n)
      then have n: "dget_or ?acc s 0 = n" by (simp add: dget_or_def)
      show ?thesis
      proof (cases "0 < n")
        case True
        have "equity * (of_int n * p / equity) / p = of_int n" using p assms(3) by simp
        moreover have "lot_round (of_int n) lot = Inr n" using assms(2,6) n by (intro lot_round_exact) simp_all
        ultimately have "map_of targets s = Some n" using lk look Some p acc_s True by simp
        then show ?thesis using Some n True by (simp add: dget_or_def [of targets] dhas_def)
      next
        case False
        then have "map_of targets s = None" using lk look Some p acc_s by simp
        then show ?thesis using n False by (simp add: dget_or_def [of targets])
      qed
    qed
  qed
qed

lemma wanted_side_ids:
  assumes "\<forall>ord \<in> set os. own_order did bd ord" and "distinct (map o_symbol os)"
  shows "distinct (map o_client_order_id os)" "\<forall>ord \<in> set os. o_client_order_id ord \<noteq> []"
proof -
  have "x = y" if "x \<in> set os" "y \<in> set os" "o_client_order_id x = o_client_order_id y" for x y
  proof -
    have "o_client_order_id x @ CHR '':'' # [] = o_client_order_id y @ CHR '':'' # []" using that(3) by simp
    moreover have "own_order did bd x" "own_order did bd y" using assms(1) that by simp_all
    ultimately have "o_symbol x = o_symbol y" using own_id_inj by blast
    then show ?thesis using assms(2) that by (auto simp: distinct_map dest: inj_onD)
  qed
  moreover have "distinct os" using assms(2) by (simp add: distinct_map)
  ultimately show "distinct (map o_client_order_id os)" unfolding distinct_map by (blast intro: inj_onI)
  show "\<forall>ord \<in> set os. o_client_order_id ord \<noteq> []"
    using assms(1) by (auto simp: own_order_def make_client_order_id_def)
qed

text \<open>The inputs on which a rebalance through the paper broker is covered.\<close>

definition whole_lots :: "oms_inputs \<Rightarrow> bool" where
  "whole_lots inp \<longleftrightarrow> 0 < xi_lot_size (oi_market inp) \<and> 0 < xi_equity (oi_market inp)
     \<and> prices_ok (xi_prices (oi_market inp)) \<and> costs_ok (xi_costs (oi_market inp))
     \<and> dict_ok (oi_holdings inp) \<and> (\<forall>(s, n) \<in> set (oi_holdings inp). 0 \<le> n \<and> xi_lot_size (oi_market inp) dvd n)"

lemma target_shares_lots:
  assumes "target_shares_of equity prices lot tw = Inr targets"
  shows "lot dvd dget_or targets s 0"
proof -
  have "\<forall>(s, n) \<in> set targets. lot dvd n"
    using assms
  proof (induction tw arbitrary: targets)
    case (Cons a tw)
    obtain symb w where a: "a = (symb, w)" by (cases a)
    show ?case using Cons by (auto simp: a split: option.splits if_splits dest: lot_round_dvd)
  qed simp
  then show ?thesis by (auto simp: dget_or_def split: option.split dest!: map_of_SomeD)
qed

text \<open>The accepted orders of a whole-lot account lead to whole lots, and their request is covered.\<close>

lemma rebalance_covered:
  assumes "decide_orders eig sqrt_fn inp = Inr (alloc, dec)" and "whole_lots inp"
    and "kern = None \<or> 0 < xi_limit_pct (oi_market inp)"
    and "\<forall>ord \<in> set (rd_accepted dec). own_order (oi_deployment_id inp) (oi_business_date inp) ord"
  shows "covered kern (broker_request inp (rd_accepted dec) slices)"
proof -
  define mk where "mk = oi_market inp"
  define hold where "hold = oi_holdings inp"
  define acc where "acc = rd_accepted dec"
  obtain tw targets where t: "target_shares_of (xi_equity mk) (xi_prices mk) (xi_lot_size mk) tw = Inr targets"
    and d: "distinct (map o_symbol (map rj_order (rd_rejected dec) @ acc))"
    and o: "\<forall>ord \<in> set (map rj_order (rd_rejected dec) @ acc).
       desired_order (oi_deployment_id inp) (oi_business_date inp) hold targets (o_symbol ord) = Some ord"
    unfolding mk_def hold_def acc_def by (rule decide_cases [OF assms(1)])
  have wl: "0 < xi_lot_size mk" "0 < xi_equity mk" "prices_ok (xi_prices mk)" "costs_ok (xi_costs mk)" "dict_ok hold"
    and hold: "\<forall>(s, n) \<in> set hold. 0 \<le> n \<and> xi_lot_size mk dvd n"
    using assms(2) by (auto simp: whole_lots_def mk_def hold_def)
  have h0: "0 \<le> dget_or hold s 0" and hl: "xi_lot_size mk dvd dget_or hold s 0" for s
    using hold by (auto simp: dget_or_def split: option.split dest!: map_of_SomeD)
  have dacc: "distinct (map o_symbol acc)" using d by simp
  have ord: "o_side x = wanted_side hold targets (o_symbol x)"
    "dget_or (accepted_holdings hold acc) (o_symbol x) 0 = max 0 (dget_or targets (o_symbol x) 0)"
    "dget_or targets (o_symbol x) 0 \<noteq> dget_or hold (o_symbol x) 0" if "x \<in> set acc" for x
  proof -
    have "desired_order (oi_deployment_id inp) (oi_business_date inp) hold targets (o_symbol x) = Some x" using o that by simp
    note dc = desired_order_cases(3,4,5) [OF this]
    show "o_side x = wanted_side hold targets (o_symbol x)" "dget_or targets (o_symbol x) 0 \<noteq> dget_or hold (o_symbol x) 0"
      by (rule dc)+
    show "dget_or (accepted_holdings hold acc) (o_symbol x) 0 = max 0 (dget_or targets (o_symbol x) 0)"
      using accepted_holdings_order [OF dacc that, of hold] dc(2) by simp
  qed
  have other: "dget_or (accepted_holdings hold acc) s 0 = dget_or hold s 0" if "s \<notin> o_symbol ` set acc" for s
    by (rule accepted_holdings_other) (use that in auto)
  have lots: "xi_lot_size mk dvd dget_or (accepted_holdings hold acc) s 0" for s
  proof (cases "s \<in> o_symbol ` set acc")
    case True
    then show ?thesis using ord(2) target_shares_lots [OF t] by (auto simp: max_def)
  next
    case False
    then show ?thesis using other hl by simp
  qed
  have nn: "0 \<le> dget_or (accepted_holdings hold acc) s 0" for s
    using ord(2) other h0 by (cases "s \<in> o_symbol ` set acc") auto
  have cov: "orders_cover (broker_request inp acc slices) ts"
    if ts: "target_shares_of (xi_equity mk) (xi_prices mk) (xi_lot_size mk) (accepted_target_weights hold acc (xi_prices mk) (xi_equity mk)) = Inr ts" for ts
  proof -
    have get: "dget_or ts s 0 = (if dhas (xi_prices mk) s then dget_or (accepted_holdings hold acc) s 0 else 0)" for s
      using accepted_targets [OF ts wl(1,2,3,5) lots, of s] nn [of s] by simp
    have "\<exists>x \<in> set acc. o_symbol x = s \<and> o_side x = wanted_side hold ts s"
      if s: "s \<in> set (leg_order hold ts)" "dhas (xi_prices mk) s" for s
    proof -
      have ne: "dget_or (accepted_holdings hold acc) s 0 \<noteq> dget_or hold s 0"
        using s by (simp add: leg_order_mem get)
      then have "s \<in> o_symbol ` set acc" using other by blast
      then obtain x where x: "x \<in> set acc" "o_symbol x = s" by auto
      then have "wanted_side hold targets s = wanted_side hold ts s"
        using ord(2,3) [OF x(1)] ne h0 [of s] s(2) by (auto simp: wanted_side_def get max_def)
      then show ?thesis using x ord(1) [OF x(1)] by metis
    qed
    moreover have "0 \<le> dget_or ts s 0" for s using nn [of s] by (simp add: get)
    ultimately show ?thesis
      by (simp add: orders_cover_def list_ex_iff broker_request_def hold_def mk_def)
  qed
  have "\<forall>ord \<in> set acc. own_order (oi_deployment_id inp) (oi_business_date inp) ord" using assms(4) by (simp add: acc_def)
  note ids = wanted_side_ids [OF this dacc]
  have c: "case target_shares_of (xi_equity mk) (xi_prices mk) (xi_lot_size mk) (accepted_target_weights hold acc (xi_prices mk) (xi_equity mk)) of
      Inl _ \<Rightarrow> True | Inr ts \<Rightarrow> orders_cover (broker_request inp acc slices) ts"
    using cov by (simp split: sum.split)
  have q: "q_inputs (broker_request inp acc slices) = mk" "q_requested_orders (broker_request inp acc slices) = acc"
    "q_holdings (broker_request inp acc slices) = hold"
    "q_target_weights (broker_request inp acc slices) = accepted_target_weights hold acc (xi_prices mk) (xi_equity mk)"
    by (simp_all add: broker_request_def mk_def hold_def)
  show ?thesis
    unfolding covered_def acc_def [symmetric] q using assms(3) wl hold ids c by (auto simp: mk_def)
qed

lemma settle_order_symbol: "o_symbol (fst (settle_order sha did bd kind reports groups ord)) = o_symbol ord"
  by (auto simp: settle_order_def Let_def stamped_order_def not_executed_def split: option.split)

lemma result_symbols:
  "map o_symbol (or_orders (settle_result sha inp alloc dec r)) = map o_symbol (map rj_order (rd_rejected dec) @ rd_accepted dec)"
  by (simp add: settle_result_def Let_def comp_def settle_order_symbol)
     (simp add: risk_rejection_def Let_def stamped_order_def)

lemma no_execution_honest:
  assumes "\<And>s. 0 \<le> dget_or (oi_holdings inp) s 0"
  shows "honest (broker_request inp [] slices) (no_execution inp)"
  using assms by (simp add: honest_def broker_request_def no_execution_def fills_flow_of_def)


definition lot_market :: exec_inputs where
  "lot_market = \<lparr>xi_equity = 10000, xi_prices = [(''A'', 10), (''B'', 10)], xi_raw_close = [], xi_prev_raw_close = [],
     xi_has_bar = [''A'', ''B''], xi_costs = default_cost_model, xi_lot_size = 100, xi_limit_pct = 0, xi_t_plus_1 = True\<rparr>"

definition lot_rebalance :: "int \<Rightarrow> oms_inputs" where
  "lot_rebalance held = \<lparr>oi_deployment_id = ''d'', oi_business_date = Date 2024 1 2, oi_target_weights = [(''B'', 1 / 10)],
     oi_holdings = [(''A'', held)], oi_cash = 7500, oi_market = lot_market,
     oi_risk_params = [(''max_order_notional'', JFloat 1500)], oi_allocator_context = None, oi_broker_type = ''paper'',
     oi_broker_kind = ''paper'', oi_environ = [], oi_clock = int\<rparr>"

abbreviation run_lots :: "int \<Rightarrow> oms_result res" where
  "run_lots held \<equiv> execute_rebalance (\<lambda>s. s) (\<lambda>_. None) (\<lambda>x. x) (paper_execute None) (lot_rebalance held)"



end
