(* ===== verification/Matcher.thy ===== *)
theory Matcher
  imports Prelude
begin

text \<open>
  Order matching: the fill kernels of \<open>ez/core/_jit_fill.py\<close>, the matchers of \<open>ez/core/matcher.py\<close> and the
  A-share rules of \<open>ez/core/market_rules.py\<close>.  A matcher object is a value of \<open>matcher\<close>; the rules keep the
  current bar, so a fill returns the matcher it leaves behind.  The locale \<open>order_matcher\<close> is what the
  backtest engine relies on, and every chain of matchers with valid rates provides it.
\<close>

section \<open>Fill kernels\<close>

record fill_result =
  fr_shares :: flt
  fr_price :: flt
  fr_commission :: flt
  fr_net :: flt

abbreviation fill_of :: "flt \<Rightarrow> flt \<Rightarrow> flt \<Rightarrow> flt \<Rightarrow> fill_result" where
  "fill_of sh fp cm na \<equiv> \<lparr>fr_shares = sh, fr_price = fp, fr_commission = cm, fr_net = na\<rparr>"

definition jit_fill_buy :: "flt \<Rightarrow> flt \<Rightarrow> flt \<Rightarrow> flt \<Rightarrow> flt \<Rightarrow> fill_result" where
  "jit_fill_buy price amount comm_rate min_comm slip_rate =
     (if amount \<le> 0 \<or> price \<le> 0 then fill_of 0 price 0 0
      else let fill_price = price * (1 + slip_rate); comm = max (amount * comm_rate) min_comm in
        if amount \<le> comm then fill_of 0 fill_price 0 0
        else fill_of ((amount - comm) / fill_price) fill_price comm (- amount))"

definition jit_fill_sell :: "flt \<Rightarrow> flt \<Rightarrow> flt \<Rightarrow> flt \<Rightarrow> flt \<Rightarrow> fill_result" where
  "jit_fill_sell price shares sell_comm_rate min_comm slip_rate =
     (if shares \<le> 0 \<or> price \<le> 0 then fill_of 0 price 0 0
      else let fill_price = max (price * (1 - slip_rate)) 0; val = shares * fill_price;
               comm = min (max (val * sell_comm_rate) min_comm) val in
        fill_of shares fill_price comm (val - comm))"

section \<open>Matchers\<close>

text \<open>The state of \<open>MarketRulesMatcher\<close>; an unknown (NaN) previous close is \<open>None\<close>.\<close>

record market_rules =
  mr_t_plus_1 :: bool
  mr_limit :: flt
  mr_lot :: int
  mr_bar :: int
  mr_prev_close :: "flt option"
  mr_buy_bar :: int

datatype matcher =
    SimpleMatcher flt flt flt
  | SlippageMatcher flt flt flt flt
  | SellSideTaxMatcher matcher flt
  | MarketRulesMatcher matcher market_rules

definition new_simple_matcher :: "flt \<Rightarrow> flt \<Rightarrow> flt option \<Rightarrow> matcher res" where
  "new_simple_matcher commission_rate min_commission sell_commission_rate =
     (if commission_rate < 0 \<or> min_commission < 0 then Inl ValueError
      else case sell_commission_rate of
        None \<Rightarrow> Inr (SimpleMatcher commission_rate commission_rate min_commission)
      | Some s \<Rightarrow> if s < 0 then Inl ValueError else Inr (SimpleMatcher commission_rate s min_commission))"

definition new_slippage_matcher :: "flt \<Rightarrow> flt \<Rightarrow> flt \<Rightarrow> flt option \<Rightarrow> matcher res" where
  "new_slippage_matcher slippage_rate commission_rate min_commission sell_commission_rate =
     (if slippage_rate < 0 \<or> commission_rate < 0 \<or> min_commission < 0 then Inl ValueError
      else case sell_commission_rate of
        None \<Rightarrow> Inr (SlippageMatcher slippage_rate commission_rate commission_rate min_commission)
      | Some s \<Rightarrow> if s < 0 then Inl ValueError
          else Inr (SlippageMatcher slippage_rate commission_rate s min_commission))"

definition new_market_rules :: "matcher \<Rightarrow> bool \<Rightarrow> flt \<Rightarrow> int \<Rightarrow> matcher res" where
  "new_market_rules inner t_plus_1 price_limit_pct lot_size =
     (if price_limit_pct < 0 \<or> 1 < price_limit_pct \<or> lot_size < 0 then Inl ValueError
      else Inr (MarketRulesMatcher inner \<lparr>mr_t_plus_1 = t_plus_1, mr_limit = price_limit_pct, mr_lot = lot_size,
        mr_bar = -1, mr_prev_close = Some 0, mr_buy_bar = -1\<rparr>))"

abbreviation zero_fill :: "flt \<Rightarrow> fill_result" where
  "zero_fill price \<equiv> fill_of 0 price 0 0"

definition price_epsilon :: flt where
  "price_epsilon = 1 / 1000000"

text \<open>The rates at the bottom of a chain (\<open>_rate\<close>, \<open>_min_comm\<close>).\<close>

primrec base_rates :: "matcher \<Rightarrow> flt \<times> flt" where
  "base_rates (SimpleMatcher rate sell_rate min_comm) = (rate, min_comm)"
| "base_rates (SlippageMatcher slip rate sell_rate min_comm) = (rate, min_comm)"
| "base_rates (SellSideTaxMatcher inner tax) = base_rates inner"
| "base_rates (MarketRulesMatcher inner r) = base_rates inner"

definition at_upper_limit :: "market_rules \<Rightarrow> flt \<Rightarrow> bool" where
  "at_upper_limit r price = (case mr_prev_close r of None \<Rightarrow> False
     | Some pc \<Rightarrow> 0 < mr_limit r \<and> 0 < pc \<and> pc * (1 + mr_limit r) - price_epsilon \<le> price)"

definition at_lower_limit :: "market_rules \<Rightarrow> flt \<Rightarrow> bool" where
  "at_lower_limit r price = (case mr_prev_close r of None \<Rightarrow> False
     | Some pc \<Rightarrow> 0 < mr_limit r \<and> 0 < pc \<and> price \<le> pc * (1 - mr_limit r) + price_epsilon)"

text \<open>Rounding a bought amount down to whole lots, with the commission of the smaller trade.\<close>

definition round_to_lots :: "int \<Rightarrow> flt \<times> flt \<Rightarrow> flt \<Rightarrow> fill_result \<Rightarrow> fill_result" where
  "round_to_lots lot rates price f =
     (if lot \<le> 0 then f
      else let lots = \<lfloor>fr_shares f / of_int lot\<rfloor>; actual = of_int (lots * lot) in
        if lots = 0 then zero_fill price
        else if actual < fr_shares f
        then let actual_value = actual * fr_price f; comm = max (actual_value * fst rates) (snd rates) in
          fill_of actual (fr_price f) comm (- (actual_value + comm))
        else f)"

primrec fill_buy :: "matcher \<Rightarrow> flt \<Rightarrow> flt \<Rightarrow> matcher \<times> fill_result" where
  "fill_buy (SimpleMatcher rate sell_rate min_comm) price amount =
     (SimpleMatcher rate sell_rate min_comm, jit_fill_buy price amount rate min_comm 0)"
| "fill_buy (SlippageMatcher slip rate sell_rate min_comm) price amount =
     (SlippageMatcher slip rate sell_rate min_comm, jit_fill_buy price amount rate min_comm slip)"
| "fill_buy (SellSideTaxMatcher inner tax) price amount =
     (let (inner', f) = fill_buy inner price amount in (SellSideTaxMatcher inner' tax, f))"
| "fill_buy (MarketRulesMatcher inner r) price amount =
     (if amount \<le> 0 \<or> price \<le> 0 \<or> at_upper_limit r price then (MarketRulesMatcher inner r, zero_fill price)
      else let (inner', f) = fill_buy inner price amount in
        if fr_shares f \<le> 0 then (MarketRulesMatcher inner' r, f)
        else let g = round_to_lots (mr_lot r) (base_rates inner) price f in
          (MarketRulesMatcher inner' (if 0 < fr_shares g then r\<lparr>mr_buy_bar := mr_bar r\<rparr> else r), g))"

definition sell_tax :: "flt \<Rightarrow> fill_result \<Rightarrow> fill_result" where
  "sell_tax tax f =
     (if fr_shares f \<le> 0 then f
      else let t = min (fr_shares f * fr_price f * tax) (max (fr_net f) 0) in
        fill_of (fr_shares f) (fr_price f) (fr_commission f + t) (fr_net f - t))"

primrec fill_sell :: "matcher \<Rightarrow> flt \<Rightarrow> flt \<Rightarrow> matcher \<times> fill_result" where
  "fill_sell (SimpleMatcher rate sell_rate min_comm) price shares =
     (SimpleMatcher rate sell_rate min_comm, jit_fill_sell price shares sell_rate min_comm 0)"
| "fill_sell (SlippageMatcher slip rate sell_rate min_comm) price shares =
     (SlippageMatcher slip rate sell_rate min_comm, jit_fill_sell price shares sell_rate min_comm slip)"
| "fill_sell (SellSideTaxMatcher inner tax) price shares =
     (let (inner', f) = fill_sell inner price shares in (SellSideTaxMatcher inner' tax, sell_tax tax f))"
| "fill_sell (MarketRulesMatcher inner r) price shares =
     (if shares \<le> 0 \<or> price \<le> 0 \<or> (mr_t_plus_1 r \<and> mr_buy_bar r = mr_bar r) \<or> at_lower_limit r price
        \<or> (0 < mr_lot r \<and> \<lfloor>shares / of_int (mr_lot r)\<rfloor> = 0)
      then (MarketRulesMatcher inner r, zero_fill price)
      else let (inner', f) = fill_sell inner price
          (if 0 < mr_lot r then of_int (\<lfloor>shares / of_int (mr_lot r)\<rfloor> * mr_lot r) else shares)
        in (MarketRulesMatcher inner' r, f))"

text \<open>\<open>on_bar\<close> exists on the rules matcher only; \<open>unwrapped\<close> is the chain the terminal sale uses.\<close>

primrec on_bar :: "matcher \<Rightarrow> int \<Rightarrow> flt option \<Rightarrow> matcher" where
  "on_bar (SimpleMatcher rate sell_rate min_comm) bar prev = SimpleMatcher rate sell_rate min_comm"
| "on_bar (SlippageMatcher slip rate sell_rate min_comm) bar prev = SlippageMatcher slip rate sell_rate min_comm"
| "on_bar (SellSideTaxMatcher inner tax) bar prev = SellSideTaxMatcher inner tax"
| "on_bar (MarketRulesMatcher inner r) bar prev = MarketRulesMatcher inner (r\<lparr>mr_bar := bar, mr_prev_close := prev\<rparr>)"

primrec unwrapped :: "matcher \<Rightarrow> matcher" where
  "unwrapped (SimpleMatcher rate sell_rate min_comm) = SimpleMatcher rate sell_rate min_comm"
| "unwrapped (SlippageMatcher slip rate sell_rate min_comm) = SlippageMatcher slip rate sell_rate min_comm"
| "unwrapped (SellSideTaxMatcher inner tax) = SellSideTaxMatcher inner tax"
| "unwrapped (MarketRulesMatcher inner r) = unwrapped inner"

section \<open>What the engine relies on\<close>

text \<open>A filled buy spends its value and commission, within the amount and at no better than the price; a
  filled sale yields value less commission, for no more shares than asked and at no better than the price.\<close>

definition bought :: "flt \<Rightarrow> flt \<Rightarrow> fill_result \<Rightarrow> bool" where
  "bought p a f \<longleftrightarrow> 0 < p \<and> p \<le> fr_price f \<and> 0 \<le> fr_commission f
     \<and> fr_net f = - (fr_shares f * fr_price f + fr_commission f) \<and> - fr_net f \<le> a"

definition sold :: "flt \<Rightarrow> flt \<Rightarrow> fill_result \<Rightarrow> bool" where
  "sold p s f \<longleftrightarrow> 0 < p \<and> fr_shares f \<le> s \<and> 0 \<le> fr_price f \<and> fr_price f \<le> p \<and> 0 \<le> fr_commission f
     \<and> fr_net f = fr_shares f * fr_price f - fr_commission f \<and> 0 \<le> fr_net f"

locale order_matcher =
  fixes buy sell :: "'m \<Rightarrow> flt \<Rightarrow> flt \<Rightarrow> 'm \<times> fill_result"
    and bar :: "'m \<Rightarrow> int \<Rightarrow> flt option \<Rightarrow> 'm"
    and unwrap :: "'m \<Rightarrow> 'm"
    and ok :: "'m \<Rightarrow> bool"
  assumes buy_law: "ok m \<Longrightarrow> buy m p a = (m', f) \<Longrightarrow> ok m' \<and> (0 < fr_shares f \<longrightarrow> bought p a f)"
    and sell_law: "ok m \<Longrightarrow> sell m p s = (m', f) \<Longrightarrow> ok m' \<and> (0 < fr_shares f \<longrightarrow> sold p s f)"
    and bar_law: "ok m \<Longrightarrow> ok (bar m i prev)"
    and unwrap_law: "ok m \<Longrightarrow> ok (unwrap m)"
begin

lemma buy_spends:
  assumes "ok m" "buy m p a = (m', f)" "0 < fr_shares f" "a \<le> csh"
  shows "0 \<le> csh + fr_net f" and "csh + fr_net f + fr_shares f * p \<le> csh"
proof -
  have b: "bought p a f" using buy_law assms by blast
  then have "fr_shares f * p \<le> fr_shares f * fr_price f"
    using assms(3) by (intro mult_left_mono) (auto simp: bought_def)
  then show "0 \<le> csh + fr_net f" "csh + fr_net f + fr_shares f * p \<le> csh"
    using b assms(4) by (auto simp: bought_def)
qed

lemma sell_yields:
  assumes "ok m" "sell m p s = (m', f)" "0 < fr_shares f"
  shows "0 \<le> fr_net f" and "fr_net f \<le> fr_shares f * p" and "fr_shares f \<le> s"
proof -
  have b: "sold p s f" using sell_law assms by blast
  then have "fr_shares f * fr_price f \<le> fr_shares f * p"
    using assms(3) by (intro mult_left_mono) (auto simp: sold_def)
  then show "0 \<le> fr_net f" "fr_net f \<le> fr_shares f * p" "fr_shares f \<le> s"
    using b by (auto simp: sold_def)
qed

end

section \<open>The matchers keep the contract\<close>

primrec matcher_ok :: "matcher \<Rightarrow> bool" where
  "matcher_ok (SimpleMatcher rate sell_rate min_comm) = (0 \<le> rate \<and> 0 \<le> sell_rate \<and> 0 \<le> min_comm)"
| "matcher_ok (SlippageMatcher slip rate sell_rate min_comm) = (0 \<le> slip \<and> 0 \<le> rate \<and> 0 \<le> sell_rate \<and> 0 \<le> min_comm)"
| "matcher_ok (SellSideTaxMatcher inner tax) = (matcher_ok inner \<and> 0 \<le> tax)"
| "matcher_ok (MarketRulesMatcher inner r) = (matcher_ok inner \<and> 0 \<le> mr_limit r \<and> mr_limit r \<le> 1 \<and> 0 \<le> mr_lot r)"

lemma constructors_ok:
  "new_simple_matcher c mn s = Inr m \<Longrightarrow> matcher_ok m"
  "new_slippage_matcher sl c mn s = Inr m \<Longrightarrow> matcher_ok m"
  "matcher_ok inner \<Longrightarrow> new_market_rules inner t pct lot = Inr m \<Longrightarrow> matcher_ok m"
  by (auto simp: new_simple_matcher_def new_slippage_matcher_def new_market_rules_def split: if_splits option.splits)

lemma base_rates_ok: "matcher_ok m \<Longrightarrow> 0 \<le> fst (base_rates m) \<and> 0 \<le> snd (base_rates m)"
  by (induction m) auto

lemma jit_fill_buy_bought:
  assumes "0 < fr_shares (jit_fill_buy p a rate mn slip)" "0 \<le> rate" "0 \<le> mn" "0 \<le> slip"
  shows "bought p a (jit_fill_buy p a rate mn slip)"
    and "max (fr_shares (jit_fill_buy p a rate mn slip) * fr_price (jit_fill_buy p a rate mn slip) * rate) mn
      \<le> fr_commission (jit_fill_buy p a rate mn slip)"
proof -
  have p: "0 < p" "0 < a" using assms(1) by (auto simp: jit_fill_buy_def Let_def split: if_splits)
  have c: "max (a * rate) mn < a"
  proof (rule ccontr)
    assume "\<not> max (a * rate) mn < a"
    then have "fr_shares (jit_fill_buy p a rate mn slip) = 0" unfolding jit_fill_buy_def Let_def not_less by simp
    then show False using assms(1) by simp
  qed
  have fp: "0 < p * (1 + slip)" "p \<le> p * (1 + slip)" using p(1) assms(4) by (simp_all add: algebra_simps add_pos_nonneg)
  have f: "jit_fill_buy p a rate mn slip = fill_of ((a - max (a * rate) mn) / (p * (1 + slip))) (p * (1 + slip)) (max (a * rate) mn) (- a)"
    unfolding jit_fill_buy_def Let_def using p c by (simp only: not_le [symmetric] simp_thms if_False)
  have v: "(a - max (a * rate) mn) / (p * (1 + slip)) * (p * (1 + slip)) = a - max (a * rate) mn"
    using fp(1) by (intro nonzero_eq_divide_eq [THEN iffD1]) auto
  have m: "0 \<le> max (a * rate) mn" using assms(3) by simp
  show "bought p a (jit_fill_buy p a rate mn slip)"
    unfolding f bought_def fill_result.simps v using p fp m by simp
  have "(a - max (a * rate) mn) * rate \<le> a * rate" by (rule mult_right_mono) (use m assms(2) in auto)
  then show "max (fr_shares (jit_fill_buy p a rate mn slip) * fr_price (jit_fill_buy p a rate mn slip) * rate) mn
      \<le> fr_commission (jit_fill_buy p a rate mn slip)"
    unfolding f fill_result.simps v by (auto simp: max_def)
qed

lemma jit_fill_sell_sold:
  assumes "0 < fr_shares (jit_fill_sell p s rate mn slip)" "0 \<le> mn" "0 \<le> slip"
  shows "sold p s (jit_fill_sell p s rate mn slip)"
proof -
  have p: "0 < p" "0 < s" using assms(1) by (auto simp: jit_fill_sell_def Let_def split: if_splits)
  have "p * (1 - slip) \<le> p" using p(1) assms(3) by (simp add: algebra_simps)
  then have fp: "max (p * (1 - slip)) 0 \<le> p" using p by simp
  have "0 \<le> s * max (p * (1 - slip)) 0" using p by simp
  then show ?thesis using p fp assms(2) by (simp add: sold_def jit_fill_sell_def Let_def)
qed

lemma round_to_lots_bought:
  assumes "bought p a f" "0 < fr_shares f" "0 < fr_shares (round_to_lots lot rates price f)"
    and "max (fr_shares f * fr_price f * fst rates) (snd rates) \<le> fr_commission f" "0 \<le> fst rates" "0 \<le> snd rates"
  shows "bought p a (round_to_lots lot rates price f)"
    and "max (fr_shares (round_to_lots lot rates price f) * fr_price (round_to_lots lot rates price f) * fst rates) (snd rates)
      \<le> fr_commission (round_to_lots lot rates price f)"
    and "0 < lot \<Longrightarrow> \<exists>k. fr_shares (round_to_lots lot rates price f) = of_int (k * lot)"
proof -
  define act :: flt where "act = of_int (\<lfloor>fr_shares f / of_int lot\<rfloor> * lot)"
  have "bought p a (round_to_lots lot rates price f) \<and>
    max (fr_shares (round_to_lots lot rates price f) * fr_price (round_to_lots lot rates price f) * fst rates) (snd rates)
      \<le> fr_commission (round_to_lots lot rates price f) \<and>
    (0 < lot \<longrightarrow> (\<exists>k. fr_shares (round_to_lots lot rates price f) = of_int (k * lot)))"
  proof (cases "0 < lot")
    case False
    then show ?thesis using assms by (simp add: round_to_lots_def)
  next
    case True
    have nz: "\<lfloor>fr_shares f / of_int lot\<rfloor> \<noteq> 0" using assms(3) True by (auto simp: round_to_lots_def split: if_splits)
    have le: "act \<le> fr_shares f"
    proof -
      have "of_int \<lfloor>fr_shares f / of_int lot\<rfloor> * (of_int lot :: flt) \<le> fr_shares f / of_int lot * of_int lot"
        by (rule mult_right_mono) (use True in auto)
      then show ?thesis using True by (simp add: act_def)
    qed
    have R: "round_to_lots lot rates price f = (if act < fr_shares f
        then fill_of act (fr_price f) (max (act * fr_price f * fst rates) (snd rates))
          (- (act * fr_price f + max (act * fr_price f * fst rates) (snd rates))) else f)"
      unfolding round_to_lots_def Let_def act_def [symmetric] using True nz
      by (simp only: not_le [symmetric] simp_thms if_False)
    show ?thesis
    proof (cases "act < fr_shares f")
      case False
      then have "round_to_lots lot rates price f = f" "fr_shares f = act"
        unfolding R using le by simp_all
      then show ?thesis using assms unfolding act_def by (simp only: simp_thms) blast
    next
      case less: True
      have r: "round_to_lots lot rates price f = fill_of act (fr_price f) (max (act * fr_price f * fst rates) (snd rates))
          (- (act * fr_price f + max (act * fr_price f * fst rates) (snd rates)))"
        unfolding R using less by simp
      have v: "act * fr_price f \<le> fr_shares f * fr_price f"
        using le assms(1) by (intro mult_right_mono) (auto simp: bought_def)
      then have "act * fr_price f * fst rates \<le> fr_shares f * fr_price f * fst rates"
        using assms(5) by (rule mult_right_mono)
      then have c: "max (act * fr_price f * fst rates) (snd rates) \<le> fr_commission f"
        using assms(4) by linarith
      have "0 \<le> max (act * fr_price f * fst rates) (snd rates)" using assms(6) by simp
      moreover have "act * fr_price f + max (act * fr_price f * fst rates) (snd rates) \<le> a"
        by (rule order_trans [OF add_mono [OF v c]]) (use assms(1) in \<open>simp add: bought_def\<close>)
      ultimately have "bought p a (round_to_lots lot rates price f)"
        unfolding r bought_def fill_result.simps minus_minus using assms(1) by (simp add: bought_def)
      then show ?thesis unfolding r act_def fill_result.simps by blast
    qed
  qed
  then show "bought p a (round_to_lots lot rates price f)"
    "max (fr_shares (round_to_lots lot rates price f) * fr_price (round_to_lots lot rates price f) * fst rates) (snd rates)
      \<le> fr_commission (round_to_lots lot rates price f)"
    "0 < lot \<Longrightarrow> \<exists>k. fr_shares (round_to_lots lot rates price f) = of_int (k * lot)" by blast+
qed

lemma fill_buy_law:
  assumes "matcher_ok m" and "fill_buy m p a = (m', f)"
  shows "matcher_ok m' \<and> (0 < fr_shares f \<longrightarrow>
    bought p a f \<and> max (fr_shares f * fr_price f * fst (base_rates m)) (snd (base_rates m)) \<le> fr_commission f)"
  using assms
proof (induction m arbitrary: m' f)
  case (SimpleMatcher rate sell_rate mn)
  then show ?case using jit_fill_buy_bought [of p a rate mn 0] by (auto simp del: max.bounded_iff)
next
  case (SlippageMatcher slip rate sell_rate mn)
  then show ?case using jit_fill_buy_bought [of p a rate mn slip] by (auto simp del: max.bounded_iff)
next
  case (SellSideTaxMatcher inner tax)
  then show ?case by (auto split: prod.splits simp del: max.bounded_iff)
next
  case (MarketRulesMatcher inner r)
  show ?case
  proof (cases "a \<le> 0 \<or> p \<le> 0 \<or> at_upper_limit r p")
    case True
    then show ?thesis using MarketRulesMatcher.prems by (auto simp del: max.bounded_iff)
  next
    case False
    obtain inner' g where g: "fill_buy inner p a = (inner', g)" by (cases "fill_buy inner p a")
    have inner: "matcher_ok inner" using MarketRulesMatcher.prems(1) by simp
    note IH = MarketRulesMatcher.IH [OF inner g]
    show ?thesis
    proof (cases "fr_shares g \<le> 0")
      case True
      then show ?thesis using MarketRulesMatcher.prems False g IH by (auto simp del: max.bounded_iff)
    next
      case pos: False
      have f: "f = round_to_lots (mr_lot r) (base_rates inner) p g"
        and m': "m' = MarketRulesMatcher inner' (if 0 < fr_shares f then r\<lparr>mr_buy_bar := mr_bar r\<rparr> else r)"
        using MarketRulesMatcher.prems(2) False g pos by (auto simp: Let_def)
      have ok: "matcher_ok m'" using MarketRulesMatcher.prems(1) IH by (simp add: m')
      show ?thesis
      proof (intro conjI impI)
        assume fs: "0 < fr_shares f"
        have g': "bought p a g" "0 < fr_shares g"
          "max (fr_shares g * fr_price g * fst (base_rates inner)) (snd (base_rates inner)) \<le> fr_commission g"
          using IH pos by auto
        note r = round_to_lots_bought [OF g'(1,2) _ g'(3), of "mr_lot r" p] base_rates_ok [OF inner]
        show "bought p a f" unfolding f by (rule r(1)) (use fs r(4) in \<open>auto simp: f\<close>)
        show "max (fr_shares f * fr_price f * fst (base_rates (MarketRulesMatcher inner r))) (snd (base_rates (MarketRulesMatcher inner r)))
            \<le> fr_commission f"
          unfolding f base_rates.simps by (rule r(2)) (use fs r(4) in \<open>auto simp: f\<close>)
      qed (rule ok)
    qed
  qed
qed

lemma sell_tax_sold: "sold p s f \<Longrightarrow> 0 < fr_shares f \<Longrightarrow> 0 \<le> tax \<Longrightarrow> sold p s (sell_tax tax f)"
  by (auto simp: sold_def sell_tax_def Let_def min_def max_def)

lemma fill_sell_law:
  assumes "matcher_ok m" and "fill_sell m p s = (m', f)"
  shows "matcher_ok m' \<and> (0 < fr_shares f \<longrightarrow> sold p s f)"
  using assms
proof (induction m arbitrary: m' f s)
  case (SimpleMatcher rate sell_rate mn)
  then show ?case using jit_fill_sell_sold [of p s sell_rate mn 0] by auto
next
  case (SlippageMatcher slip rate sell_rate mn)
  then show ?case using jit_fill_sell_sold [of p s sell_rate mn slip] by auto
next
  case (SellSideTaxMatcher inner tax)
  then show ?case using sell_tax_sold by (auto split: prod.splits) (auto simp: sell_tax_def Let_def split: if_splits)
next
  case (MarketRulesMatcher inner r)
  define s' :: flt where "s' = (if 0 < mr_lot r then of_int (\<lfloor>s / of_int (mr_lot r)\<rfloor> * mr_lot r) else s)"
  have le: "s' \<le> s"
  proof (cases "0 < mr_lot r")
    case True
    have "of_int \<lfloor>s / of_int (mr_lot r)\<rfloor> * (of_int (mr_lot r) :: flt) \<le> s / of_int (mr_lot r) * of_int (mr_lot r)"
      by (rule mult_right_mono) (use True in auto)
    then show ?thesis using True by (simp add: s'_def)
  qed (simp add: s'_def)
  have ok: "matcher_ok inner" using MarketRulesMatcher.prems(1) by simp
  obtain inner' g where g: "fill_sell inner p s' = (inner', g)" by (cases "fill_sell inner p s'")
  have "m' = MarketRulesMatcher inner r \<and> f = zero_fill p \<or> m' = MarketRulesMatcher inner' r \<and> f = g"
    using MarketRulesMatcher.prems(2) unfolding fill_sell.simps s'_def [symmetric] g Let_def prod.case by (simp split: if_splits)
  then show ?case using MarketRulesMatcher.IH [OF ok g] MarketRulesMatcher.prems(1) le by (auto simp: sold_def)
qed

text \<open>Every chain of matchers with valid rates provides the contract.\<close>

interpretation chain: order_matcher fill_buy fill_sell on_bar unwrapped matcher_ok
proof unfold_locales
  fix m :: matcher and i prev
  show "matcher_ok (on_bar m i prev)" if "matcher_ok m" using that by (cases m) auto
  show "matcher_ok (unwrapped m)" if "matcher_ok m" using that by (induction m) auto
qed (use fill_buy_law fill_sell_law in blast)+

section \<open>The market rules\<close>

primrec rules_free :: "matcher \<Rightarrow> bool" where
  "rules_free (SimpleMatcher rate sell_rate min_comm) = True"
| "rules_free (SlippageMatcher slip rate sell_rate min_comm) = True"
| "rules_free (SellSideTaxMatcher inner tax) = rules_free inner"
| "rules_free (MarketRulesMatcher inner r) = False"

lemma rules_free_sells_all:
  assumes "rules_free m" "fill_sell m p s = (m', f)" "0 < fr_shares f"
  shows "fr_shares f = s"
  using assms
proof (induction m arbitrary: m' f)
  case (SellSideTaxMatcher inner tax)
  obtain inner' g where g: "fill_sell inner p s = (inner', g)" by (cases "fill_sell inner p s")
  have "fr_shares f = fr_shares g"
    using SellSideTaxMatcher.prems(2) g by (auto simp: sell_tax_def Let_def split: if_splits)
  then show ?case using SellSideTaxMatcher.IH [OF _ g] SellSideTaxMatcher.prems by simp
qed (auto simp: jit_fill_sell_def Let_def split: if_splits)

lemma rules_buy:
  assumes "matcher_ok (MarketRulesMatcher inner r)" "fill_buy (MarketRulesMatcher inner r) p a = (m', f)" "0 < fr_shares f"
  shows "bought p a f" and "\<not> at_upper_limit r p" and "0 < mr_lot r \<Longrightarrow> \<exists>k. fr_shares f = of_int (k * mr_lot r)"
    and "mr_t_plus_1 r \<Longrightarrow> fill_sell m' p' s = (m', zero_fill p')"
proof -
  show "bought p a f" using fill_buy_law [OF assms(1,2)] assms(3) by blast
  have guard: "\<not> (a \<le> 0 \<or> p \<le> 0 \<or> at_upper_limit r p)" using assms(2,3) by (auto split: if_splits)
  then show "\<not> at_upper_limit r p" by blast
  obtain inner' g where g: "fill_buy inner p a = (inner', g)" by (cases "fill_buy inner p a")
  have pos: "\<not> fr_shares g \<le> 0" using assms(2,3) guard g by (auto split: if_splits)
  have f: "f = round_to_lots (mr_lot r) (base_rates inner) p g"
    and m': "m' = MarketRulesMatcher inner' (r\<lparr>mr_buy_bar := mr_bar r\<rparr>)"
    using assms(2,3) guard g pos by (auto simp: Let_def)
  have inner: "matcher_ok inner" using assms(1) by simp
  have "bought p a g \<and> max (fr_shares g * fr_price g * fst (base_rates inner)) (snd (base_rates inner)) \<le> fr_commission g"
    using fill_buy_law [OF inner g] pos by auto
  then show "\<exists>k. fr_shares f = of_int (k * mr_lot r)" if "0 < mr_lot r"
    using round_to_lots_bought(3) [of p a g "mr_lot r" "base_rates inner" p] base_rates_ok [OF inner] pos assms(3) that
    unfolding f by auto
  show "fill_sell m' p' s = (m', zero_fill p')" if "mr_t_plus_1 r" using that by (simp add: m')
qed

lemma rules_sell:
  assumes "matcher_ok (MarketRulesMatcher inner r)" "fill_sell (MarketRulesMatcher inner r) p s = (m', f)" "0 < fr_shares f"
  shows "sold p s f" and "\<not> at_lower_limit r p" and "\<not> (mr_t_plus_1 r \<and> mr_buy_bar r = mr_bar r)"
    and "0 < mr_lot r \<Longrightarrow> rules_free inner \<Longrightarrow> \<exists>k. fr_shares f = of_int (k * mr_lot r)"
proof -
  show "sold p s f" using fill_sell_law [OF assms(1,2)] assms(3) by blast
  have guard: "\<not> (s \<le> 0 \<or> p \<le> 0 \<or> (mr_t_plus_1 r \<and> mr_buy_bar r = mr_bar r) \<or> at_lower_limit r p
      \<or> (0 < mr_lot r \<and> \<lfloor>s / of_int (mr_lot r)\<rfloor> = 0))"
    using assms(2,3) by (auto split: if_splits)
  then show "\<not> at_lower_limit r p" "\<not> (mr_t_plus_1 r \<and> mr_buy_bar r = mr_bar r)" by blast+
  show "\<exists>k. fr_shares f = of_int (k * mr_lot r)" if "0 < mr_lot r" "rules_free inner"
  proof -
    let ?s = "of_int (\<lfloor>s / of_int (mr_lot r)\<rfloor> * mr_lot r) :: flt"
    obtain inner' g where g: "fill_sell inner p ?s = (inner', g)" by (cases "fill_sell inner p ?s")
    have "f = g" using assms(2) guard g that(1) by (simp only: fill_sell.simps if_False simp_thms if_True prod.case Let_def) simp
    then show ?thesis using rules_free_sells_all [OF that(2) g] assms(3) by auto
  qed
qed

text \<open>C22: The A-share rules hold for every matcher they wrap.  A filled buy is below the upper price limit, in
  whole lots and within its amount, commission included, and with T+1 nothing can be sold on the bar of the
  buy.  A filled sale is above the lower limit, not on the bar of a buy, in whole lots, for no more than the
  position, and never costs more than it yields.\<close>

theorem market_rules_respected:
  assumes "matcher_ok (MarketRulesMatcher inner r)"
  shows "(\<forall>p a m' f. fill_buy (MarketRulesMatcher inner r) p a = (m', f) \<and> 0 < fr_shares f \<longrightarrow>
       bought p a f \<and> (\<forall>pc. mr_prev_close r = Some pc \<and> 0 < pc \<and> 0 < mr_limit r \<longrightarrow> p < pc * (1 + mr_limit r) - price_epsilon)
       \<and> (0 < mr_lot r \<longrightarrow> (\<exists>k. fr_shares f = of_int (k * mr_lot r)))
       \<and> (mr_t_plus_1 r \<longrightarrow> (\<forall>p' s. fill_sell m' p' s = (m', zero_fill p'))))
    \<and> (\<forall>p s m' f. fill_sell (MarketRulesMatcher inner r) p s = (m', f) \<and> 0 < fr_shares f \<longrightarrow>
       sold p s f \<and> (\<forall>pc. mr_prev_close r = Some pc \<and> 0 < pc \<and> 0 < mr_limit r \<longrightarrow> pc * (1 - mr_limit r) + price_epsilon < p)
       \<and> \<not> (mr_t_plus_1 r \<and> mr_buy_bar r = mr_bar r)
       \<and> (0 < mr_lot r \<and> rules_free inner \<longrightarrow> (\<exists>k. fr_shares f = of_int (k * mr_lot r))))"
proof -
  have upper: "\<not> at_upper_limit r p \<longleftrightarrow>
      (\<forall>pc. mr_prev_close r = Some pc \<and> 0 < pc \<and> 0 < mr_limit r \<longrightarrow> p < pc * (1 + mr_limit r) - price_epsilon)" for p
    by (auto simp: at_upper_limit_def split: option.split)
  have lower: "\<not> at_lower_limit r p \<longleftrightarrow>
      (\<forall>pc. mr_prev_close r = Some pc \<and> 0 < pc \<and> 0 < mr_limit r \<longrightarrow> pc * (1 - mr_limit r) + price_epsilon < p)" for p
    by (auto simp: at_lower_limit_def split: option.split)
  show ?thesis unfolding upper [symmetric] lower [symmetric]
    using rules_buy [OF assms] rules_sell [OF assms] by meson
qed

definition a_share_matcher :: matcher where
  "a_share_matcher = MarketRulesMatcher (SellSideTaxMatcher (SimpleMatcher (1 / 10000) (1 / 10000) 5) (1 / 2000))
     \<lparr>mr_t_plus_1 = True, mr_limit = 1 / 10, mr_lot = 100, mr_bar = 7, mr_prev_close = Some 10, mr_buy_bar = -1\<rparr>"

theorem market_rules_respected_witness:
  "let (m', f) = fill_buy a_share_matcher 10 12345 in
     fr_shares f = 1200 \<and> fr_net f = - 12005 \<and> bought 10 12345 f \<and> fill_sell m' 10 1200 = (m', zero_fill 10)"
proof -
  obtain inner r where a: "a_share_matcher = MarketRulesMatcher inner r" "mr_t_plus_1 r" by (auto simp: a_share_matcher_def)
  have ok: "matcher_ok (MarketRulesMatcher inner r)" unfolding a(1) [symmetric] by code_simp
  obtain m' f where f: "fill_buy a_share_matcher 10 12345 = (m', f)" by (cases "fill_buy a_share_matcher 10 12345")
  have "map_prod (\<lambda>_. ()) (\<lambda>f. (fr_shares f, fr_net f)) (fill_buy a_share_matcher 10 12345) = ((), 1200, - 12005)" by code_simp
  then have n: "fr_shares f = 1200" "fr_net f = - 12005" using f by auto
  have "0 < fr_shares f" by (simp add: n)
  then have step: "fill_buy (MarketRulesMatcher inner r) 10 12345 = (m', f) \<and> 0 < fr_shares f" using f unfolding a(1) by (rule conjI [rotated])
  show ?thesis
    unfolding f Let_def prod.case
    using market_rules_respected [OF ok, THEN conjunct1, THEN spec, THEN spec, THEN spec, THEN spec, THEN mp, OF step] n a(2)
    by blast
qed

end
