(* ===== verification/Backtest_Engine.thy ===== *)
theory Backtest_Engine
  imports Matcher
begin

text \<open>
  \<open>ez/backtest/engine.py\<close> and the compiled loop of \<open>ez/core/_jit_fill.py\<close>: the single-stock backtest.  A
  missing number (NaN) is \<open>None\<close>, a row label is its position.  The Python loop takes any matcher, so
  its operations are the argument \<open>ops\<close>; the compiled loop knows the two plain matchers only.
\<close>

section \<open>Prices and signals\<close>

type_synonym series = "flt option list"

record frame =
  fm_adj_close :: series
  fm_open :: "series option"
  fm_close :: "series option"

definition zero_threshold :: flt where
  "zero_threshold = 1 / 10000000000"

definition weight_change_min :: flt where
  "weight_change_min = 1 / 1000"

definition raw_close_of :: "frame \<Rightarrow> series" where
  "raw_close_of df = (case fm_close df of Some c \<Rightarrow> c | None \<Rightarrow> fm_adj_close df)"

definition raw_open_of :: "frame \<Rightarrow> series" where
  "raw_open_of df = (case fm_open df of Some o1 \<Rightarrow> o1 | None \<Rightarrow> raw_close_of df)"

definition adj_ratio :: "flt option \<Rightarrow> flt option \<Rightarrow> flt" where
  "adj_ratio price close = (case (price, close) of
     (Some p, Some c) \<Rightarrow> if 0 < c then p / c else 1 | _ \<Rightarrow> 1)"

definition compute_adj_open :: "frame \<Rightarrow> series \<times> series \<times> series" where
  "compute_adj_open df =
     (let prices = fm_adj_close df; raw_close = raw_close_of df;
          ratio = map2 adj_ratio prices raw_close
      in (prices, map2 (\<lambda>op1 q. map_option (\<lambda>x. x * q) op1) (raw_open_of df) ratio, raw_close))"

text \<open>\<open>raw_signals.shift(1).fillna(0.0).clip(0.0, 1.0)\<close>\<close>

definition shifted_signals :: "series \<Rightarrow> flt list" where
  "shifted_signals raw = map (\<lambda>x. case x of None \<Rightarrow> 0 | Some w \<Rightarrow> min (max w 0) 1)
     (take (length raw) (None # raw))"

section \<open>The Python loop\<close>

record trade_record =
  td_entry_time :: nat
  td_exit_time :: nat
  td_entry_price :: flt
  td_exit_price :: flt
  td_weight :: flt
  td_pnl :: flt
  td_pnl_pct :: flt
  td_commission :: flt

record 'm matcher_ops =
  mo_buy :: "'m \<Rightarrow> flt \<Rightarrow> flt \<Rightarrow> 'm \<times> fill_result"
  mo_sell :: "'m \<Rightarrow> flt \<Rightarrow> flt \<Rightarrow> 'm \<times> fill_result"
  mo_on_bar :: "'m \<Rightarrow> int \<Rightarrow> flt option \<Rightarrow> 'm"
  mo_unwrap :: "'m \<Rightarrow> 'm"

record 'm engine =
  es_matcher :: 'm
  es_cash :: flt
  es_shares :: flt
  es_prev_weight :: flt
  es_trades :: "trade_record list"
  es_entry_time :: "nat option"
  es_entry_price :: flt
  es_entry_comm :: flt
  es_peak_shares :: flt
  es_partial_pnl :: flt
  es_partial_comm :: flt
  es_net_invested :: flt
  es_peak_invested :: flt

definition engine_start :: "'m \<Rightarrow> flt \<Rightarrow> 'm engine" where
  "engine_start m capital = \<lparr>es_matcher = m, es_cash = capital, es_shares = 0, es_prev_weight = 0, es_trades = [],
     es_entry_time = None, es_entry_price = 0, es_entry_comm = 0, es_peak_shares = 0, es_partial_pnl = 0,
     es_partial_comm = 0, es_net_invested = 0, es_peak_invested = 0\<rparr>"

definition pnl_pct :: "flt \<Rightarrow> flt \<Rightarrow> flt" where
  "pnl_pct pnl cost_basis = (if 0 < cost_basis then pnl / cost_basis else 0)"

text \<open>A filled sale: the proceeds, and a trade record when the position closes.\<close>

definition close_record :: "nat \<Rightarrow> nat \<Rightarrow> flt \<Rightarrow> fill_result \<Rightarrow> flt \<Rightarrow> 'm engine \<Rightarrow> trade_record" where
  "close_record entry i fallback f sh st =
     (let final_pnl = (fr_price f - es_entry_price st) * sh - fr_commission f;
          total_pnl = es_partial_pnl st + final_pnl - es_entry_comm st;
          cost_basis = (if 0 < es_peak_invested st then es_peak_invested st else fallback)
      in \<lparr>td_entry_time = entry, td_exit_time = i, td_entry_price = es_entry_price st, td_exit_price = fr_price f,
          td_weight = es_prev_weight st, td_pnl = total_pnl, td_pnl_pct = pnl_pct total_pnl cost_basis,
          td_commission = es_entry_comm st + es_partial_comm st + fr_commission f\<rparr>)"

definition book_sale :: "nat \<Rightarrow> fill_result \<Rightarrow> 'm engine \<Rightarrow> 'm engine" where
  "book_sale i f st0 =
     (let old_shares = es_shares st0; left = es_shares st0 - fr_shares f;
          left = (if left < zero_threshold then 0 else left);
          st = st0\<lparr>es_cash := es_cash st0 + fr_net f, es_shares := left, es_net_invested := es_net_invested st0 - fr_net f\<rparr>
      in case es_entry_time st of
           None \<Rightarrow> st
         | Some entry \<Rightarrow>
             if 0 < old_shares \<and> left < zero_threshold
             then st\<lparr>es_trades := es_trades st
                   @ [close_record entry i (es_entry_price st * old_shares + es_entry_comm st) f old_shares st],
                 es_entry_time := None, es_entry_comm := 0, es_partial_pnl := 0, es_partial_comm := 0,
                 es_peak_shares := 0, es_net_invested := 0, es_peak_invested := 0\<rparr>
             else st\<lparr>es_partial_pnl := es_partial_pnl st + (fr_price f - es_entry_price st) * fr_shares f - fr_commission f,
                 es_partial_comm := es_partial_comm st + fr_commission f\<rparr>)"

definition book_buy :: "nat \<Rightarrow> fill_result \<Rightarrow> 'm engine \<Rightarrow> 'm engine" where
  "book_buy i f st0 =
     (let st = (if es_shares st0 = 0
           then st0\<lparr>es_entry_time := Some i, es_entry_price := fr_price f, es_entry_comm := fr_commission f,
             es_partial_pnl := 0, es_partial_comm := 0, es_net_invested := 0, es_peak_invested := 0\<rparr>
           else st0\<lparr>es_entry_comm := es_entry_comm st0 + fr_commission f,
             es_entry_price := (es_entry_price st0 * es_shares st0 + fr_price f * fr_shares f) / (es_shares st0 + fr_shares f)\<rparr>);
          sh = es_shares st + fr_shares f; invested = es_net_invested st - fr_net f
      in st\<lparr>es_shares := sh, es_peak_shares := max (es_peak_shares st) sh, es_cash := es_cash st + fr_net f,
           es_net_invested := invested, es_peak_invested := max (es_peak_invested st) invested\<rparr>)"

definition achieved_weight :: "flt \<Rightarrow> 'm engine \<Rightarrow> 'm engine" where
  "achieved_weight price st = (let eq = es_cash st + es_shares st * price in
     st\<lparr>es_prev_weight := if 0 < eq then es_shares st * price / eq else 0\<rparr>)"

definition rebalance :: "'m matcher_ops \<Rightarrow> nat \<Rightarrow> flt \<Rightarrow> flt \<Rightarrow> 'm engine \<Rightarrow> 'm engine" where
  "rebalance ops i price weight st =
     (let eq = es_cash st + es_shares st * price; target_value = eq * weight; current_value = es_shares st * price
      in if target_value < current_value \<and> 0 < es_shares st
         then let sell_shares = (if weight = 0 then es_shares st else (current_value - target_value) / price);
                  (m, f) = mo_sell ops (es_matcher st) price sell_shares; st1 = st\<lparr>es_matcher := m\<rparr>
              in if 0 < fr_shares f then achieved_weight price (book_sale i f st1) else st1
         else if current_value < target_value
         then let additional = min (target_value - current_value) (es_cash st)
              in if 0 < additional
                 then let (m, f) = mo_buy ops (es_matcher st) price additional; st1 = st\<lparr>es_matcher := m\<rparr>
                      in if 0 < fr_shares f then achieved_weight price (book_buy i f st1) else st1
                 else st
         else st)"

text \<open>One bar: its prices, the previous raw close and its target weight.\<close>

record bar =
  sb_price :: "flt option"
  sb_open :: "flt option"
  sb_prev_close :: "flt option"
  sb_weight :: flt

definition bars_of :: "series \<Rightarrow> series \<Rightarrow> series \<Rightarrow> flt list \<Rightarrow> bar list" where
  "bars_of prices opens raw_close weights =
     map (\<lambda>i. \<lparr>sb_price = prices ! i, sb_open = opens ! i, sb_prev_close = raw_close ! (i - 1),
        sb_weight = (if i < length weights then weights ! i else 0)\<rparr>) [1..<length prices]"

definition daily_return :: "flt \<Rightarrow> flt \<Rightarrow> flt" where
  "daily_return prev eq = (if 0 < prev then eq / prev - 1 else 0)"

definition bar_step :: "'m matcher_ops \<Rightarrow> nat \<Rightarrow> bar \<Rightarrow> flt \<Rightarrow> 'm engine \<Rightarrow> flt \<times> flt \<times> 'm engine" where
  "bar_step ops i b prev_equity st =
     (case (sb_price b, sb_open b) of
        (Some price, Some open_price) \<Rightarrow>
          let st1 = st\<lparr>es_matcher := mo_on_bar ops (es_matcher st) (int i) (sb_prev_close b)\<rparr>;
              st2 = (if weight_change_min < \<bar>sb_weight b - es_prev_weight st1\<bar>
                     then rebalance ops i open_price (sb_weight b) st1 else st1);
              eq = es_cash st2 + es_shares st2 * price
          in (eq, daily_return prev_equity eq, st2)
      | _ \<Rightarrow> (prev_equity, 0, st))"

text \<open>The loop returns the equity and the daily return of every bar, and the final state.\<close>

fun sim_loop :: "'m matcher_ops \<Rightarrow> nat \<Rightarrow> bar list \<Rightarrow> flt \<Rightarrow> 'm engine \<Rightarrow> (flt \<times> flt) list \<times> 'm engine" where
  "sim_loop ops i [] prev_equity st = ([], st)"
| "sim_loop ops i (b # bs) prev_equity st =
     (let (eq, ret, st1) = bar_step ops i b prev_equity st; (rows, st2) = sim_loop ops (Suc i) bs eq st1
      in ((eq, ret) # rows, st2))"

text \<open>The virtual closing trade of a position held to the end.\<close>

definition terminal_record :: "'m matcher_ops \<Rightarrow> series \<Rightarrow> 'm engine \<Rightarrow> trade_record list" where
  "terminal_record ops prices st =
     (case (es_entry_time st, last prices) of
        (Some entry, Some liq_price) \<Rightarrow>
          if 0 < es_shares st \<and> 0 < liq_price
          then let f = snd (mo_sell ops (mo_unwrap ops (es_matcher st)) liq_price (es_shares st))
               in if 0 < fr_shares f
                  then [close_record entry (length prices - 1)
                    (if 0 < es_peak_shares st then es_entry_price st * es_peak_shares st + es_entry_comm st
                     else es_entry_price st * fr_shares f + es_entry_comm st) f (fr_shares f) st]
                  else []
          else []
      | _ \<Rightarrow> [])"

record sim_result =
  sr_equity :: "flt list"
  sr_trades :: "trade_record list"
  sr_returns :: "flt list"

definition simulate_python ::
  "'m matcher_ops \<Rightarrow> 'm \<Rightarrow> series \<Rightarrow> series \<Rightarrow> series \<Rightarrow> flt list \<Rightarrow> flt \<Rightarrow> sim_result" where
  "simulate_python ops m prices opens raw_close weights capital =
     (let (rows, st) = sim_loop ops 1 (bars_of prices opens raw_close weights) capital (engine_start m capital)
      in \<lparr>sr_equity = capital # map fst rows, sr_trades = es_trades st @ terminal_record ops prices st,
          sr_returns = 0 # map snd rows\<rparr>)"

section \<open>The compiled loop\<close>

record jit_trade =
  jt_entry :: nat
  jt_exit :: nat
  jt_entry_price :: flt
  jt_exit_price :: flt
  jt_pnl :: flt
  jt_comm :: flt
  jt_weight :: flt

record jit_state =
  js_cash :: flt
  js_shares :: flt
  js_prev_weight :: flt
  js_entry_bar :: int
  js_entry_price :: flt
  js_entry_comm :: flt
  js_trades :: "jit_trade list"

definition max_trades :: nat where
  "max_trades = 100000"

definition jit_start :: "flt \<Rightarrow> jit_state" where
  "jit_start capital = \<lparr>js_cash = capital, js_shares = 0, js_prev_weight = 0, js_entry_bar = -1,
     js_entry_price = 0, js_entry_comm = 0, js_trades = []\<rparr>"

definition jit_weight :: "flt \<Rightarrow> jit_state \<Rightarrow> jit_state" where
  "jit_weight price s = (let ea = js_cash s + js_shares s * price in
     s\<lparr>js_prev_weight := if 0 < ea then js_shares s * price / ea else 0\<rparr>)"

definition jit_sell :: "nat \<Rightarrow> flt \<Rightarrow> flt \<Rightarrow> flt \<Rightarrow> flt \<Rightarrow> flt \<Rightarrow> jit_state \<Rightarrow> jit_state" where
  "jit_sell i price ss sell_comm_rate min_comm slip_rate s =
     (let fp = max (price * (1 - slip_rate)) 0; val = ss * fp; cm = min (max (val * sell_comm_rate) min_comm) val;
          old = js_shares s; left = js_shares s - ss; left = (if left < zero_threshold then 0 else left);
          s1 = s\<lparr>js_cash := js_cash s + (val - cm), js_shares := left\<rparr>
      in if ss \<le> 0 then s
         else jit_weight price
           (if 0 < old \<and> left < zero_threshold \<and> 0 \<le> js_entry_bar s
            then s1\<lparr>js_trades := (if length (js_trades s) < max_trades
                  then js_trades s @ [\<lparr>jt_entry = nat (js_entry_bar s), jt_exit = i, jt_entry_price = js_entry_price s,
                    jt_exit_price = fp, jt_pnl = (fp - js_entry_price s) * old - cm - js_entry_comm s,
                    jt_comm = js_entry_comm s + cm, jt_weight = js_prev_weight s\<rparr>]
                  else js_trades s),
                js_entry_bar := -1, js_entry_comm := 0\<rparr>
            else s1))"

definition jit_buy :: "nat \<Rightarrow> flt \<Rightarrow> flt \<Rightarrow> flt \<Rightarrow> flt \<Rightarrow> flt \<Rightarrow> jit_state \<Rightarrow> jit_state" where
  "jit_buy i price add comm_rate min_comm slip_rate s =
     (let fp = price * (1 + slip_rate); cm = max (add * comm_rate) min_comm; bs = (add - cm) / fp
      in if add \<le> 0 \<or> add \<le> cm \<or> bs \<le> 0 then s
         else let s1 = (if js_shares s = 0
               then s\<lparr>js_entry_bar := int i, js_entry_price := fp, js_entry_comm := cm\<rparr>
               else s\<lparr>js_entry_price := (js_entry_price s * js_shares s + fp * bs) / (js_shares s + bs),
                 js_entry_comm := js_entry_comm s + cm\<rparr>)
           in jit_weight price (s1\<lparr>js_shares := js_shares s + bs, js_cash := js_cash s - add\<rparr>))"

definition jit_rebalance :: "nat \<Rightarrow> flt \<Rightarrow> flt \<Rightarrow> flt \<Rightarrow> flt \<Rightarrow> flt \<Rightarrow> flt \<Rightarrow> jit_state \<Rightarrow> jit_state" where
  "jit_rebalance i price tw comm_rate sell_comm_rate min_comm slip_rate s =
     (let eq = js_cash s + js_shares s * price; tv = eq * tw; cv = js_shares s * price
      in if tv < cv \<and> 0 < js_shares s
         then jit_sell i price (if tw = 0 then js_shares s else (cv - tv) / price) sell_comm_rate min_comm slip_rate s
         else if cv < tv
         then jit_buy i price (min (tv - cv) (js_cash s)) comm_rate min_comm slip_rate s
         else s)"

definition jit_step ::
  "flt \<Rightarrow> flt \<Rightarrow> flt \<Rightarrow> flt \<Rightarrow> nat \<Rightarrow> bar \<Rightarrow> flt \<Rightarrow> jit_state \<Rightarrow> flt \<times> flt \<times> jit_state" where
  "jit_step comm_rate sell_comm_rate min_comm slip_rate i b prev_equity s =
     (case (sb_price b, sb_open b) of
        (Some price, Some open_price) \<Rightarrow>
          let diff = sb_weight b - js_prev_weight s;
              s1 = (if weight_change_min < diff \<or> diff < - weight_change_min
                    then jit_rebalance i open_price (sb_weight b) comm_rate sell_comm_rate min_comm slip_rate s else s);
              eq = js_cash s1 + js_shares s1 * price
          in (eq, daily_return prev_equity eq, s1)
      | _ \<Rightarrow> (prev_equity, 0, s))"

fun jit_loop ::
  "flt \<Rightarrow> flt \<Rightarrow> flt \<Rightarrow> flt \<Rightarrow> nat \<Rightarrow> bar list \<Rightarrow> flt \<Rightarrow> jit_state \<Rightarrow> (flt \<times> flt) list \<times> jit_state" where
  "jit_loop c sc mn sl i [] prev_equity s = ([], s)"
| "jit_loop c sc mn sl i (b # bs) prev_equity s =
     (let (eq, ret, s1) = jit_step c sc mn sl i b prev_equity s; (rows, s2) = jit_loop c sc mn sl (Suc i) bs eq s1
      in ((eq, ret) # rows, s2))"

definition jit_simulate_loop ::
  "series \<Rightarrow> series \<Rightarrow> flt list \<Rightarrow> flt \<Rightarrow> flt \<Rightarrow> flt \<Rightarrow> flt \<Rightarrow> flt \<Rightarrow> flt list \<times> flt list \<times> jit_state" where
  "jit_simulate_loop prices opens weights capital comm_rate sell_comm_rate min_comm slip_rate =
     (let (rows, s) = jit_loop comm_rate sell_comm_rate min_comm slip_rate 1 (bars_of prices opens prices weights)
        capital (jit_start capital)
      in (capital # map fst rows, 0 # map snd rows, s))"

section \<open>The two paths\<close>

definition chain_ops :: "matcher matcher_ops" where
  "chain_ops = \<lparr>mo_buy = fill_buy, mo_sell = fill_sell, mo_on_bar = on_bar, mo_unwrap = unwrapped\<rparr>"

text \<open>The compiled loop runs for the plain matchers on 0/1 weights; its rates.\<close>

definition is_binary :: "flt list \<Rightarrow> bool" where
  "is_binary weights \<longleftrightarrow> (\<forall>w \<in> set weights. w = 0 \<or> w = 1)"

definition accel_rates :: "matcher \<Rightarrow> (flt \<times> flt \<times> flt \<times> flt) option" where
  "accel_rates m = (case m of
     SimpleMatcher rate sell_rate mn \<Rightarrow> Some (rate, sell_rate, mn, 0)
   | SlippageMatcher slip rate sell_rate mn \<Rightarrow> Some (rate, sell_rate, mn, slip)
   | _ \<Rightarrow> None)"

definition equity_change :: "flt list \<Rightarrow> flt \<Rightarrow> nat \<Rightarrow> nat \<Rightarrow> flt" where
  "equity_change eq capital ei xi = (let entry_eq = (if 0 < ei then eq ! (ei - 1) else capital)
     in if 0 < entry_eq then eq ! xi / entry_eq - 1 else 0)"

definition jit_record :: "flt list \<Rightarrow> flt \<Rightarrow> jit_trade \<Rightarrow> trade_record" where
  "jit_record eq capital t = \<lparr>td_entry_time = jt_entry t, td_exit_time = jt_exit t, td_entry_price = jt_entry_price t,
     td_exit_price = jt_exit_price t, td_weight = jt_weight t, td_pnl = jt_pnl t,
     td_pnl_pct = equity_change eq capital (jt_entry t) (jt_exit t), td_commission = jt_comm t\<rparr>"

definition jit_terminal_record :: "matcher \<Rightarrow> series \<Rightarrow> flt list \<Rightarrow> flt \<Rightarrow> flt list \<Rightarrow> jit_state \<Rightarrow> trade_record list" where
  "jit_terminal_record m prices weights capital eq s =
     (case last prices of
        Some liq_price \<Rightarrow>
          if zero_threshold < js_shares s \<and> 0 \<le> js_entry_bar s \<and> 0 < liq_price
          then let f = snd (fill_sell m liq_price (js_shares s)); ei = nat (js_entry_bar s); n = length prices
               in if 0 < fr_shares f
                  then [\<lparr>td_entry_time = ei, td_exit_time = n - 1, td_entry_price = js_entry_price s,
                    td_exit_price = fr_price f, td_weight = (if ei < length weights then weights ! ei else 0),
                    td_pnl = (fr_price f - js_entry_price s) * fr_shares f - fr_commission f - js_entry_comm s,
                    td_pnl_pct = equity_change eq capital ei (n - 1),
                    td_commission = js_entry_comm s + fr_commission f\<rparr>]
                  else []
          else []
      | None \<Rightarrow> [])"

definition simulate_jit :: "bool \<Rightarrow> matcher \<Rightarrow> series \<Rightarrow> series \<Rightarrow> flt list \<Rightarrow> flt \<Rightarrow> sim_result option" where
  "simulate_jit has_numba m prices opens weights capital =
     (case accel_rates m of
        None \<Rightarrow> None
      | Some (rate, sell_rate, mn, slip) \<Rightarrow>
          if has_numba \<and> is_binary weights
          then let (eq, ret, s) = jit_simulate_loop prices opens weights capital rate sell_rate mn slip
               in Some \<lparr>sr_equity = eq,
                 sr_trades = map (jit_record eq capital) (js_trades s) @ jit_terminal_record m prices weights capital eq s,
                 sr_returns = ret\<rparr>
          else None)"

definition simulate :: "bool \<Rightarrow> matcher \<Rightarrow> frame \<Rightarrow> flt list \<Rightarrow> flt \<Rightarrow> sim_result" where
  "simulate has_numba m df signals capital =
     (let (prices, opens, raw_close) = compute_adj_open df
      in if prices = [] then \<lparr>sr_equity = [capital], sr_trades = [], sr_returns = [0]\<rparr>
         else case simulate_jit has_numba m prices opens signals capital of
           Some r \<Rightarrow> r
         | None \<Rightarrow> simulate_python chain_ops m prices opens raw_close signals capital)"

text \<open>The steps of \<open>run\<close> around the simulation: the strategy gives the raw signals and the warm-up length, rows
  before the warm-up are dropped, and the benchmark holds from the first row.\<close>

definition drop_frame :: "nat \<Rightarrow> frame \<Rightarrow> frame" where
  "drop_frame k df = \<lparr>fm_adj_close = drop k (fm_adj_close df), fm_open = map_option (drop k) (fm_open df),
     fm_close = map_option (drop k) (fm_close df)\<rparr>"

definition run_simulation :: "bool \<Rightarrow> matcher \<Rightarrow> frame \<Rightarrow> series \<Rightarrow> nat \<Rightarrow> flt \<Rightarrow> sim_result" where
  "run_simulation has_numba m df raw_signals warmup capital =
     simulate has_numba m (drop_frame warmup df) (drop warmup (shifted_signals raw_signals)) capital"

definition win_rate :: "trade_record list \<Rightarrow> flt" where
  "win_rate trades = (if trades = [] then 0
     else of_nat (length (filter (\<lambda>t. 0 < td_pnl t) trades)) / of_nat (length trades))"

text \<open>\<open>None\<close> is \<open>float("inf")\<close>: only winning trades.\<close>

definition profit_factor :: "trade_record list \<Rightarrow> flt option" where
  "profit_factor trades =
     (let gross_profit = (\<Sum>t\<leftarrow>filter (\<lambda>t. 0 < td_pnl t) trades. td_pnl t);
          gross_loss = \<bar>\<Sum>t\<leftarrow>filter (\<lambda>t. td_pnl t \<le> 0) trades. td_pnl t\<bar>
      in if zero_threshold < gross_loss then Some (gross_profit / gross_loss)
         else if 0 < gross_profit then None else Some 0)"

end
