(* ===== verification/Backtest_Paths.thy ===== *)
theory Backtest_Paths
  imports Backtest_Engine
begin

text \<open>
  The two paths of the single-stock backtest.  For every target weight the compiled loop holds the same
  position, cash and equity as the Python loop, and on 0/1 weights it records the same trades.
\<close>

section \<open>The compiled loop is the Python loop\<close>

text \<open>A state of the Python loop and one of the compiled loop hold the same position.\<close>

definition same_money :: "'m engine \<Rightarrow> jit_state \<Rightarrow> bool" where
  "same_money st s \<longleftrightarrow> es_cash st = js_cash s \<and> es_shares st = js_shares s \<and> es_prev_weight st = js_prev_weight s
     \<and> es_entry_time st = (if 0 \<le> js_entry_bar s then Some (nat (js_entry_bar s)) else None)
     \<and> es_entry_price st = js_entry_price s \<and> es_entry_comm st = js_entry_comm s"

definition record_core :: "trade_record \<Rightarrow> nat \<times> nat \<times> flt \<times> flt \<times> flt \<times> flt \<times> flt" where
  "record_core t = (td_entry_time t, td_exit_time t, td_entry_price t, td_exit_price t, td_weight t, td_pnl t, td_commission t)"

definition jit_core :: "jit_trade \<Rightarrow> nat \<times> nat \<times> flt \<times> flt \<times> flt \<times> flt \<times> flt" where
  "jit_core t = (jt_entry t, jt_exit t, jt_entry_price t, jt_exit_price t, jt_weight t, jt_pnl t, jt_comm t)"

text \<open>They also recorded the same trades, and no partial sale is pending.\<close>

definition same_trades :: "'m engine \<Rightarrow> jit_state \<Rightarrow> bool" where
  "same_trades st s \<longleftrightarrow> es_partial_pnl st = 0 \<and> es_partial_comm st = 0 \<and> 0 \<le> es_cash st
     \<and> map record_core (es_trades st) = map jit_core (js_trades s)"

lemma same_start: "same_money (engine_start m capital) (jit_start capital)"
  "0 \<le> capital \<Longrightarrow> same_trades (engine_start m capital) (jit_start capital)"
  by (simp_all add: same_money_def same_trades_def engine_start_def jit_start_def)

lemma weight_sim:
  assumes "same_money st s"
  shows "same_money (achieved_weight price st) (jit_weight price s)"
  using assms by (simp add: same_money_def achieved_weight_def jit_weight_def Let_def)

lemma weight_trades: "same_trades (achieved_weight price st) (jit_weight price s) = same_trades st s"
  by (simp add: same_trades_def achieved_weight_def jit_weight_def Let_def)

lemma weight_length: "length (js_trades (jit_weight price s)) = length (js_trades s)"
  by (simp add: jit_weight_def Let_def)

lemma kernel_sell:
  assumes "0 < price"
  shows "jit_fill_sell price ss sc mn sl = (if 0 < ss then
      (let fp = max (price * (1 - sl)) 0; cm = min (max (ss * fp * sc) mn) (ss * fp) in fill_of ss fp cm (ss * fp - cm))
    else fill_of 0 price 0 0)"
  using assms by (simp add: jit_fill_sell_def Let_def)

lemma kernel_buy:
  assumes "0 < price" and "0 \<le> sl"
  shows "jit_fill_buy price a c mn sl = (if a \<le> 0 then fill_of 0 price 0 0
    else if a \<le> max (a * c) mn then fill_of 0 (price * (1 + sl)) 0 0
    else fill_of ((a - max (a * c) mn) / (price * (1 + sl))) (price * (1 + sl)) (max (a * c) mn) (- a))"
    and "\<not> a \<le> max (a * c) mn \<Longrightarrow> 0 < (a - max (a * c) mn) / (price * (1 + sl))"
proof -
  show "jit_fill_buy price a c mn sl = (if a \<le> 0 then fill_of 0 price 0 0
    else if a \<le> max (a * c) mn then fill_of 0 (price * (1 + sl)) 0 0
    else fill_of ((a - max (a * c) mn) / (price * (1 + sl))) (price * (1 + sl)) (max (a * c) mn) (- a))"
    unfolding jit_fill_buy_def Let_def using assms(1) by (simp only: not_le [symmetric] if_False simp_thms)
  have "0 < price * (1 + sl)" using assms by (simp add: add_pos_nonneg)
  then show "0 < (a - max (a * c) mn) / (price * (1 + sl))" if "\<not> a \<le> max (a * c) mn"
    using that by (intro divide_pos_pos) linarith+
qed

definition shares_left :: "flt \<Rightarrow> flt \<Rightarrow> flt" where
  "shares_left sh sold_shares = (if sh - sold_shares < zero_threshold then 0 else sh - sold_shares)"

lemma sale_cases:
  fixes st :: "'m engine"
  defines "left \<equiv> shares_left (es_shares st)"
  shows "es_cash (book_sale i f st) = es_cash st + fr_net f" "es_shares (book_sale i f st) = left (fr_shares f)"
    "es_prev_weight (book_sale i f st) = es_prev_weight st" "es_entry_price (book_sale i f st) = es_entry_price st"
    "es_entry_time st = None \<Longrightarrow> es_entry_time (book_sale i f st) = None \<and> es_entry_comm (book_sale i f st) = es_entry_comm st
       \<and> es_trades (book_sale i f st) = es_trades st"
    "es_entry_time st = Some e \<Longrightarrow> 0 < es_shares st \<and> left (fr_shares f) < zero_threshold \<Longrightarrow>
       es_entry_time (book_sale i f st) = None \<and> es_entry_comm (book_sale i f st) = 0
       \<and> es_partial_pnl (book_sale i f st) = 0 \<and> es_partial_comm (book_sale i f st) = 0
       \<and> (\<exists>pct. es_trades (book_sale i f st) = es_trades st @ [\<lparr>td_entry_time = e, td_exit_time = i,
         td_entry_price = es_entry_price st, td_exit_price = fr_price f, td_weight = es_prev_weight st,
         td_pnl = es_partial_pnl st + ((fr_price f - es_entry_price st) * es_shares st - fr_commission f) - es_entry_comm st,
         td_pnl_pct = pct, td_commission = es_entry_comm st + es_partial_comm st + fr_commission f\<rparr>])"
    "es_entry_time st = Some e \<Longrightarrow> \<not> (0 < es_shares st \<and> left (fr_shares f) < zero_threshold) \<Longrightarrow>
       es_entry_time (book_sale i f st) = Some e \<and> es_entry_comm (book_sale i f st) = es_entry_comm st
       \<and> es_partial_pnl (book_sale i f st) = es_partial_pnl st + (fr_price f - es_entry_price st) * fr_shares f - fr_commission f
       \<and> es_trades (book_sale i f st) = es_trades st"
  unfolding left_def book_sale_def Let_def close_record_def shares_left_def [symmetric]
  by (simp_all split: option.split)

definition jit_sold :: "nat \<Rightarrow> flt \<Rightarrow> flt \<Rightarrow> flt \<Rightarrow> jit_state \<Rightarrow> jit_state" where
  "jit_sold i ss fp cm s =
     (let s1 = s\<lparr>js_cash := js_cash s + (ss * fp - cm), js_shares := shares_left (js_shares s) ss\<rparr>
      in if 0 < js_shares s \<and> shares_left (js_shares s) ss < zero_threshold \<and> 0 \<le> js_entry_bar s
         then s1\<lparr>js_trades := (if length (js_trades s) < max_trades
               then js_trades s @ [\<lparr>jt_entry = nat (js_entry_bar s), jt_exit = i, jt_entry_price = js_entry_price s,
                 jt_exit_price = fp, jt_pnl = (fp - js_entry_price s) * js_shares s - cm - js_entry_comm s,
                 jt_comm = js_entry_comm s + cm, jt_weight = js_prev_weight s\<rparr>]
               else js_trades s),
             js_entry_bar := -1, js_entry_comm := 0\<rparr>
         else s1)"

lemma jit_sell_sold:
  assumes "0 < ss" and "fp = max (price * (1 - sl)) 0" and "cm = min (max (ss * fp * sc) mn) (ss * fp)"
  shows "jit_sell i price ss sc mn sl s = jit_weight price (jit_sold i ss fp cm s)"
  unfolding jit_sell_def Let_def jit_sold_def shares_left_def assms(2,3) using assms(1) by (simp only: not_le [symmetric] if_False)

lemma sell_sim:
  assumes "same_money st s" and "0 < price" and "0 < ss"
  shows "same_money (achieved_weight price (book_sale i (jit_fill_sell price ss sc mn sl) st)) (jit_sell i price ss sc mn sl s)"
proof -
  define fp where "fp = max (price * (1 - sl)) 0"
  define cm where "cm = min (max (ss * fp * sc) mn) (ss * fp)"
  let ?f = "fill_of ss fp cm (ss * fp - cm)"
  note m = assms(1) [unfolded same_money_def]
  have "same_money (book_sale i ?f st) (jit_sold i ss fp cm s)"
  proof (cases "es_entry_time st")
    case None
    then have "\<not> 0 \<le> js_entry_bar s" using m by (auto split: if_splits)
    then show ?thesis
      unfolding same_money_def sale_cases(1-4) using m sale_cases(5) [OF None, of i ?f] by (simp add: jit_sold_def Let_def)
  next
    case (Some e)
    then have e: "0 \<le> js_entry_bar s" "e = nat (js_entry_bar s)" using m by (auto split: if_splits)
    show ?thesis
    proof (cases "0 < js_shares s \<and> shares_left (js_shares s) ss < zero_threshold")
      case True
      then show ?thesis
        unfolding same_money_def sale_cases(1-4) using m e sale_cases(6) [OF Some, of ?f i] by (auto simp: jit_sold_def Let_def)
    next
      case False
      then show ?thesis
        unfolding same_money_def sale_cases(1-4) using m e sale_cases(7) [OF Some, of ?f i] by (auto simp: jit_sold_def Let_def)
    qed
  qed
  then show ?thesis
    unfolding kernel_sell [OF assms(2)] if_P [OF assms(3)] Let_def jit_sell_sold [OF assms(3) fp_def cm_def]
      fp_def [symmetric] cm_def [symmetric] by (rule weight_sim)
qed

lemma sell_trades:
  assumes "same_money st s" and "same_trades st s" and "0 < price" and "0 < js_shares s"
    and "length (js_trades s) < max_trades"
  shows "same_trades (achieved_weight price (book_sale i (jit_fill_sell price (js_shares s) sc mn sl) st))
    (jit_sell i price (js_shares s) sc mn sl s)"
proof -
  define fp where "fp = max (price * (1 - sl)) 0"
  define cm where "cm = min (max (js_shares s * fp * sc) mn) (js_shares s * fp)"
  have v: "0 \<le> js_shares s * fp - cm" by (simp add: cm_def)
  have z: "shares_left (js_shares s) (js_shares s) = 0" "shares_left (js_shares s) (js_shares s) < zero_threshold"
    by (simp_all add: shares_left_def zero_threshold_def)
  note m = assms(1) [unfolded same_money_def]
  note t = assms(2) [unfolded same_trades_def]
  let ?f = "fill_of (js_shares s) fp cm (js_shares s * fp - cm)"
  have "same_trades (book_sale i ?f st) (jit_sold i (js_shares s) fp cm s)"
  proof (cases "es_entry_time st")
    case None
    have n: "\<not> 0 \<le> js_entry_bar s" using m None by (auto split: if_splits)
    have "es_partial_pnl (book_sale i ?f st) = 0 \<and> es_partial_comm (book_sale i ?f st) = 0"
      using None t by (simp add: book_sale_def Let_def)
    then show ?thesis
      unfolding same_trades_def sale_cases(1-4) using t m v n sale_cases(5) [OF None, of i ?f] by (simp add: jit_sold_def Let_def)
  next
    case (Some e)
    then have e: "0 \<le> js_entry_bar s" "e = nat (js_entry_bar s)" using m by (auto split: if_splits)
    have c: "0 < es_shares st \<and> shares_left (es_shares st) (fr_shares ?f) < zero_threshold" using assms(4) m z by simp
    obtain pct where b: "es_partial_pnl (book_sale i ?f st) = 0" "es_partial_comm (book_sale i ?f st) = 0"
      "es_trades (book_sale i ?f st) = es_trades st @ [\<lparr>td_entry_time = e, td_exit_time = i,
         td_entry_price = es_entry_price st, td_exit_price = fr_price ?f, td_weight = es_prev_weight st,
         td_pnl = es_partial_pnl st + ((fr_price ?f - es_entry_price st) * es_shares st - fr_commission ?f) - es_entry_comm st,
         td_pnl_pct = pct, td_commission = es_entry_comm st + es_partial_comm st + fr_commission ?f\<rparr>]"
      using sale_cases(6) [OF Some c, of i] by blast
    show ?thesis
      unfolding same_trades_def sale_cases(1) b
      using t m v e z(2) assms(4,5) by (simp add: record_core_def jit_core_def jit_sold_def Let_def)
  qed
  then show ?thesis
    unfolding kernel_sell [OF assms(3)] if_P [OF assms(4)] Let_def jit_sell_sold [OF assms(4) fp_def cm_def]
      fp_def [symmetric] cm_def [symmetric] weight_trades .
qed

lemma buy_sim:
  assumes "same_money st s" and "0 < price" and "0 \<le> sl" and "0 < a" and "\<not> a \<le> max (a * c) mn"
  shows "same_money (achieved_weight price (book_buy i (jit_fill_buy price a c mn sl) st)) (jit_buy i price a c mn sl s)"
    and "same_trades st s \<Longrightarrow> a \<le> js_cash s \<Longrightarrow>
      same_trades (achieved_weight price (book_buy i (jit_fill_buy price a c mn sl) st)) (jit_buy i price a c mn sl s)"
    and "js_trades (jit_buy i price a c mn sl s) = js_trades s"
proof -
  define fp where "fp = price * (1 + sl)"
  define cm where "cm = max (a * c) mn"
  define bs where "bs = (a - cm) / fp"
  have bs: "\<not> (a \<le> 0 \<or> a \<le> cm \<or> bs \<le> 0)"
    using kernel_buy(2) [OF assms(2,3,5)] assms(4,5) by (simp add: bs_def cm_def fp_def)
  have f: "jit_fill_buy price a c mn sl = fill_of bs fp cm (- a)"
    unfolding kernel_buy(1) [OF assms(2,3)] bs_def cm_def fp_def if_not_P [OF assms(5)] using assms(4) by simp
  define s1 where "s1 = (if js_shares s = 0
       then s\<lparr>js_entry_bar := int i, js_entry_price := fp, js_entry_comm := cm\<rparr>
       else s\<lparr>js_entry_price := (js_entry_price s * js_shares s + fp * bs) / (js_shares s + bs), js_entry_comm := js_entry_comm s + cm\<rparr>)
     \<lparr>js_shares := js_shares s + bs, js_cash := js_cash s - a\<rparr>"
  have j: "jit_buy i price a c mn sl s = jit_weight price s1"
    unfolding jit_buy_def Let_def fp_def [symmetric] cm_def [symmetric] bs_def [symmetric] if_not_P [OF bs] s1_def ..
  have "same_money (book_buy i (fill_of bs fp cm (- a)) st) s1"
    using assms(1) by (simp add: same_money_def book_buy_def Let_def s1_def)
  then show "same_money (achieved_weight price (book_buy i (jit_fill_buy price a c mn sl) st)) (jit_buy i price a c mn sl s)"
    unfolding f j by (rule weight_sim)
  show "js_trades (jit_buy i price a c mn sl s) = js_trades s"
    unfolding j by (simp add: s1_def jit_weight_def Let_def)
  assume t: "same_trades st s" "a \<le> js_cash s"
  have "same_trades (book_buy i (fill_of bs fp cm (- a)) st) s1"
    using assms(1) t by (simp add: same_money_def same_trades_def book_buy_def Let_def s1_def)
  then show "same_trades (achieved_weight price (book_buy i (jit_fill_buy price a c mn sl) st)) (jit_buy i price a c mn sl s)"
    unfolding f j weight_trades .
qed

text \<open>The rates of a plain matcher determine its fills.\<close>

lemma plain_fills:
  assumes "accel_rates m = Some (c, sc, mn, sl)"
  shows "fill_buy m p a = (m, jit_fill_buy p a c mn sl)" and "fill_sell m p a = (m, jit_fill_sell p a sc mn sl)"
    and "on_bar m i prev = m" and "matcher_ok m \<Longrightarrow> 0 \<le> sl" and "unwrapped m = m"
  using assms by (cases m; auto simp: accel_rates_def)+

lemma keeps_matcher: "es_matcher (achieved_weight p st) = es_matcher st" "es_matcher (book_sale i f st) = es_matcher st"
  "es_matcher (book_buy i f st) = es_matcher st"
  by (simp_all add: achieved_weight_def book_sale_def book_buy_def Let_def split: option.split)

lemma same_money_matcher [simp]: "same_money (st\<lparr>es_matcher := m\<rparr>) s = same_money st s"
  "same_trades (st\<lparr>es_matcher := m\<rparr>) s = same_trades st s"
  by (simp_all add: same_money_def same_trades_def)

lemma rebalance_sim:
  assumes m: "accel_rates m = Some (c, sc, mn, sl)" "matcher_ok m" and st: "es_matcher st = m" "same_money st s" and p: "0 < price"
  shows "es_matcher (rebalance chain_ops i price w st) = m
    \<and> same_money (rebalance chain_ops i price w st) (jit_rebalance i price w c sc mn sl s)"
    and "w = 0 \<or> w = 1 \<Longrightarrow> same_trades st s \<Longrightarrow> length (js_trades s) < max_trades \<Longrightarrow>
      same_trades (rebalance chain_ops i price w st) (jit_rebalance i price w c sc mn sl s)"
    and "length (js_trades (jit_rebalance i price w c sc mn sl s)) \<le> Suc (length (js_trades s))"
proof -
  have eqs: "es_cash st = js_cash s" "es_shares st = js_shares s" using st(2) by (simp_all add: same_money_def)
  define cv where "cv = js_shares s * price"
  define tv where "tv = (js_cash s + cv) * w"
  define ss where "ss = (if w = 0 then js_shares s else (cv - tv) / price)"
  define a where "a = min (tv - cv) (js_cash s)"
  have upd: "st\<lparr>es_matcher := m\<rparr> = st" using st(1) by simp
  have R: "rebalance chain_ops i price w st =
     (if tv < cv \<and> 0 < js_shares s
      then (if 0 < fr_shares (jit_fill_sell price ss sc mn sl)
            then achieved_weight price (book_sale i (jit_fill_sell price ss sc mn sl) st) else st)
      else if cv < tv \<and> 0 < a \<and> 0 < fr_shares (jit_fill_buy price a c mn sl)
      then achieved_weight price (book_buy i (jit_fill_buy price a c mn sl) st) else st)"
    unfolding rebalance_def Let_def eqs cv_def [symmetric] tv_def [symmetric] ss_def [symmetric] a_def [symmetric]
      chain_ops_def matcher_ops.simps st(1) plain_fills(1,2) [OF m(1)] prod.case upd by simp
  have J: "jit_rebalance i price w c sc mn sl s =
     (if tv < cv \<and> 0 < js_shares s then jit_sell i price ss sc mn sl s
      else if cv < tv then jit_buy i price a c mn sl s else s)"
    unfolding jit_rebalance_def Let_def cv_def [symmetric] tv_def [symmetric] ss_def [symmetric] a_def [symmetric] ..
  have ss: "0 < ss" if "tv < cv \<and> 0 < js_shares s" using that p by (simp add: ss_def)
  have ksell: "0 < fr_shares (jit_fill_sell price ss sc mn sl) \<longleftrightarrow> 0 < ss" unfolding kernel_sell [OF p] Let_def by simp
  note sl = plain_fills(4) [OF m]
  have kbuy: "0 < fr_shares (jit_fill_buy price a c mn sl) \<longleftrightarrow> \<not> a \<le> 0 \<and> \<not> a \<le> max (a * c) mn"
    unfolding kernel_buy(1) [OF p sl] using kernel_buy(2) [OF p sl] by auto
  have jb: "jit_buy i price a c mn sl s = s" if "a \<le> 0 \<or> a \<le> max (a * c) mn"
    unfolding jit_buy_def Let_def by (rule if_P) (use that in blast)
  define sells where "sells \<longleftrightarrow> tv < cv \<and> 0 < js_shares s"
  define buys where "buys \<longleftrightarrow> cv < tv \<and> 0 < a \<and> 0 < fr_shares (jit_fill_buy price a c mn sl)"
  have nb: "buys \<longleftrightarrow> cv < tv \<and> \<not> (a \<le> 0 \<or> a \<le> max (a * c) mn)" unfolding buys_def kbuy by auto
  have ss: "0 < ss" if sells using ss that by (simp add: sells_def)
  have R': "rebalance chain_ops i price w st =
     (if sells then achieved_weight price (book_sale i (jit_fill_sell price ss sc mn sl) st)
      else if buys then achieved_weight price (book_buy i (jit_fill_buy price a c mn sl) st) else st)"
    unfolding R sells_def [symmetric] buys_def [symmetric] ksell using ss by (cases sells) (simp_all only: if_True if_False)
  have J': "jit_rebalance i price w c sc mn sl s =
     (if sells then jit_sell i price ss sc mn sl s else if buys then jit_buy i price a c mn sl s else s)"
    unfolding J sells_def [symmetric] using jb nb
    by (cases "cv < tv"; cases "a \<le> 0 \<or> a \<le> max (a * c) mn") (simp_all only: simp_thms if_True if_False)
  have bought: "0 < a" "\<not> a \<le> max (a * c) mn" if buys using that by (simp_all only: nb not_le de_Morgan_disj)
  note sale = sell_sim [OF st(2) p ss] and buy = buy_sim(1) [OF st(2) p sl bought]
  show "es_matcher (rebalance chain_ops i price w st) = m
    \<and> same_money (rebalance chain_ops i price w st) (jit_rebalance i price w c sc mn sl s)"
    unfolding R' J' using sale buy st by (cases sells; cases buys) (simp_all only: if_True if_False keeps_matcher simp_thms)
  show "same_trades (rebalance chain_ops i price w st) (jit_rebalance i price w c sc mn sl s)"
    if w: "w = 0 \<or> w = 1" and t: "same_trades st s" "length (js_trades s) < max_trades"
  proof -
    have c0: "0 \<le> js_cash s" using t(1) eqs by (simp add: same_trades_def)
    have all: "ss = js_shares s" "0 < js_shares s" if sells
      using w that c0 by (auto simp: ss_def tv_def sells_def)
    have "a \<le> js_cash s" by (simp add: a_def)
    note buy = buy_sim(2) [OF st(2) p sl bought t(1) this] and sale = sell_trades [OF st(2) t(1) p all(2) t(2)]
    show ?thesis
      unfolding R' J' using sale buy t all(1) by (cases sells; cases buys) (simp_all only: if_True if_False)
  qed
  have "length (js_trades (jit_sell i price ss sc mn sl s)) \<le> Suc (length (js_trades s))" if sells
    unfolding jit_sell_sold [OF ss [OF that] refl refl] by (simp add: jit_sold_def Let_def weight_length)
  then show "length (js_trades (jit_rebalance i price w c sc mn sl s)) \<le> Suc (length (js_trades s))"
    unfolding J' using buy_sim(3) [OF st(2) p sl bought] by (cases sells; cases buys) simp_all
qed

definition open_ok :: "bar \<Rightarrow> bool" where
  "open_ok b \<longleftrightarrow> (\<forall>p. sb_open b = Some p \<longrightarrow> 0 < p)"

lemma step_sim:
  assumes m: "accel_rates m = Some (c, sc, mn, sl)" "matcher_ok m" and st: "es_matcher st = m" "same_money st s" and b: "open_ok b"
  obtains eq ret st' s' where "bar_step chain_ops i b prev st = (eq, ret, st')" "jit_step c sc mn sl i b prev s = (eq, ret, s')"
    "es_matcher st' = m" "same_money st' s'" "length (js_trades s') \<le> Suc (length (js_trades s))"
    "sb_weight b = 0 \<or> sb_weight b = 1 \<Longrightarrow> same_trades st s \<Longrightarrow> length (js_trades s) < max_trades \<Longrightarrow> same_trades st' s'"
proof (cases "\<exists>price op1. sb_price b = Some price \<and> sb_open b = Some op1")
  case False
  then have n: "sb_price b = None \<or> sb_open b = None" by auto
  have "bar_step chain_ops i b prev st = (prev, 0, st)" "jit_step c sc mn sl i b prev s = (prev, 0, s)"
    using n by (auto simp: bar_step_def jit_step_def split: option.split)
  then show thesis using st by (rule that) auto
next
  case True
  then obtain price op1 where po: "sb_price b = Some price" "sb_open b = Some op1" by blast
  have p: "0 < op1" using b po by (simp add: open_ok_def)
  define go where "go \<longleftrightarrow> weight_change_min < \<bar>sb_weight b - es_prev_weight st\<bar>"
  have go': "weight_change_min < sb_weight b - js_prev_weight s \<or> sb_weight b - js_prev_weight s < - weight_change_min \<longleftrightarrow> go"
    using st(2) unfolding go_def same_money_def by (auto simp: abs_if)
  define st' where "st' = (if go then rebalance chain_ops i op1 (sb_weight b) st else st)"
  define s' where "s' = (if go then jit_rebalance i op1 (sb_weight b) c sc mn sl s else s)"
  have upd: "st\<lparr>es_matcher := on_bar (es_matcher st) (int i) (sb_prev_close b)\<rparr> = st" using plain_fills(3) [OF m(1)] st(1) by simp
  note r = rebalance_sim [OF m st p, where i = i and w = "sb_weight b"]
  have sim: "es_matcher st' = m" "same_money st' s'" using r(1) st by (auto simp: st'_def s'_def)
  have q: "es_cash st' = js_cash s'" "es_shares st' = js_shares s'" using sim(2) by (simp_all add: same_money_def)
  have B: "bar_step chain_ops i b prev st = (js_cash s' + js_shares s' * price, daily_return prev (js_cash s' + js_shares s' * price), st')"
    unfolding bar_step_def po option.case prod.case Let_def chain_ops_def matcher_ops.simps upd
    unfolding chain_ops_def [symmetric] go_def [symmetric] st'_def [symmetric] q ..
  have J: "jit_step c sc mn sl i b prev s = (js_cash s' + js_shares s' * price, daily_return prev (js_cash s' + js_shares s' * price), s')"
    unfolding jit_step_def po option.case prod.case Let_def go' s'_def [symmetric] ..
  show thesis
    by (rule that [OF B J sim]) (use r(2,3) in \<open>auto simp: st'_def s'_def\<close>)
qed

lemma loop_sim:
  assumes m: "accel_rates m = Some (c, sc, mn, sl)" "matcher_ok m" and "\<forall>b \<in> set bs. open_ok b"
    and "es_matcher st = m" and "same_money st s"
  shows "\<exists>rows st' s'. sim_loop chain_ops i bs prev st = (rows, st') \<and> jit_loop c sc mn sl i bs prev s = (rows, s')
    \<and> es_matcher st' = m \<and> same_money st' s'
    \<and> ((\<forall>b \<in> set bs. sb_weight b = 0 \<or> sb_weight b = 1) \<and> same_trades st s \<and> length (js_trades s) + length bs \<le> max_trades
        \<longrightarrow> same_trades st' s')"
  using assms(3-5)
proof (induction bs arbitrary: i prev st s)
  case Nil
  then show ?case by auto
next
  case (Cons b bs)
  have b: "open_ok b" using Cons.prems(1) by simp
  obtain eq ret st1 s1 where step: "bar_step chain_ops i b prev st = (eq, ret, st1)" "jit_step c sc mn sl i b prev s = (eq, ret, s1)"
    and st1: "es_matcher st1 = m" "same_money st1 s1" and l: "length (js_trades s1) \<le> Suc (length (js_trades s))"
    and t: "sb_weight b = 0 \<or> sb_weight b = 1 \<Longrightarrow> same_trades st s \<Longrightarrow> length (js_trades s) < max_trades \<Longrightarrow> same_trades st1 s1"
    by (rule step_sim [OF m Cons.prems(2,3) b, of i prev]) blast
  have "\<forall>b \<in> set bs. open_ok b" using Cons.prems(1) by simp
  from Cons.IH [OF this st1, of "Suc i" eq] obtain rows st' s' where
    loop: "sim_loop chain_ops (Suc i) bs eq st1 = (rows, st')" "jit_loop c sc mn sl (Suc i) bs eq s1 = (rows, s')"
    "es_matcher st' = m" "same_money st' s'"
    and t': "(\<forall>b \<in> set bs. sb_weight b = 0 \<or> sb_weight b = 1) \<and> same_trades st1 s1 \<and> length (js_trades s1) + length bs \<le> max_trades
        \<longrightarrow> same_trades st' s'"
    by blast
  have "same_trades st' s'" if "\<forall>b' \<in> set (b # bs). sb_weight b' = 0 \<or> sb_weight b' = 1" "same_trades st s"
    "length (js_trades s) + length (b # bs) \<le> max_trades"
  proof -
    have "same_trades st1 s1" by (rule t) (use that in auto)
    then show ?thesis using t' that l by auto
  qed
  then show ?case using loop by (simp add: step)
qed

lemma jit_step_prev_close: "jit_step c sc mn sl i (b\<lparr>sb_prev_close := x\<rparr>) prev s = jit_step c sc mn sl i b prev s"
  unfolding jit_step_def Let_def by (simp cong: if_cong option.case_cong)

lemma jit_loop_prev_close:
  "jit_loop c sc mn sl i (map (\<lambda>b. b\<lparr>sb_prev_close := g b\<rparr>) bs) prev s = jit_loop c sc mn sl i bs prev s"
  by (induction bs arbitrary: i prev s) (simp_all add: jit_step_prev_close split: prod.split)

lemma bars_prev_close:
  "map (\<lambda>b. b\<lparr>sb_prev_close := None\<rparr>) (bars_of prices opens cl weights)
    = map (\<lambda>b. b\<lparr>sb_prev_close := None\<rparr>) (bars_of prices opens cl' weights)"
  by (simp add: bars_of_def)

lemma jit_loop_bars:
  "jit_loop c sc mn sl i (bars_of prices opens cl weights) prev s = jit_loop c sc mn sl i (bars_of prices opens cl' weights) prev s"
  using jit_loop_prev_close [of c sc mn sl i "\<lambda>_. None" "bars_of prices opens cl weights" prev s]
    jit_loop_prev_close [of c sc mn sl i "\<lambda>_. None" "bars_of prices opens cl' weights" prev s] bars_prev_close by metis

lemma bars_open_ok: "length opens = length prices \<Longrightarrow> \<forall>p. Some p \<in> set opens \<longrightarrow> 0 < p \<Longrightarrow> \<forall>b \<in> set (bars_of prices opens cl weights). open_ok b"
  by (auto simp: bars_of_def open_ok_def) (metis nth_mem)

lemma bars_binary: "is_binary weights \<Longrightarrow> \<forall>b \<in> set (bars_of prices opens cl weights). sb_weight b = 0 \<or> sb_weight b = 1"
  by (auto simp: bars_of_def is_binary_def)

text \<open>What both paths agree on in a trade record: the weight and the percentage are computed differently.\<close>

definition deal :: "trade_record \<Rightarrow> nat \<times> nat \<times> flt \<times> flt \<times> flt \<times> flt" where
  "deal t = (td_entry_time t, td_exit_time t, td_entry_price t, td_exit_price t, td_pnl t, td_commission t)"

lemma same_deals:
  assumes "map record_core ts = map jit_core js"
  shows "map deal ts = map deal (map (jit_record eq capital) js)"
proof -
  have "map deal ts = map (\<lambda>(a, b, p, q, w, x, c). (a, b, p, q, x, c)) (map record_core ts)"
    by (simp add: deal_def record_core_def)
  then show ?thesis unfolding assms by (simp add: deal_def jit_core_def jit_record_def)
qed

lemma terminal_sim:
  assumes m: "accel_rates m = Some (c, sc, mn, sl)" and "es_matcher st = m" "same_money st s" "same_trades st s"
    and "js_shares s \<le> 0 \<or> zero_threshold < js_shares s"
  shows "map deal (terminal_record chain_ops prices st) = map deal (jit_terminal_record m prices weights capital eq s)"
proof (cases "last prices")
  case None
  then show ?thesis by (simp add: terminal_record_def jit_terminal_record_def split: option.split)
next
  case (Some liq)
  have z: "0 < zero_threshold" by (simp add: zero_threshold_def)
  note q = assms(3) [unfolded same_money_def] and t = assms(4) [unfolded same_trades_def]
  define f where "f = snd (fill_sell m liq (js_shares s))"
  have c: "0 < js_shares s \<longleftrightarrow> zero_threshold < js_shares s" using assms(5) z by linarith
  show ?thesis
  proof (cases "0 \<le> js_entry_bar s")
    case False
    then show ?thesis using q Some by (simp add: terminal_record_def jit_terminal_record_def)
  next
    case True
    have e: "es_entry_time st = Some (nat (js_entry_bar s))" using q True by simp
    have u: "mo_sell chain_ops (mo_unwrap chain_ops (es_matcher st)) liq (es_shares st) = fill_sell m liq (js_shares s)"
      using q assms(2) plain_fills(5) [OF m] by (simp add: chain_ops_def)
    show ?thesis
      unfolding terminal_record_def jit_terminal_record_def e Some option.case prod.case Let_def u f_def [symmetric]
      using q t True c by (simp add: close_record_def Let_def deal_def)
  qed
qed

text \<open>C18: The compiled loop is an optimisation of the Python loop.  For a plain matcher with valid rates and
  positive opening prices both produce the same equity curve and daily returns, whatever the weights; on 0/1
  weights the fast path is taken and its trade records have the same times, prices, profits and commissions,
  unless the backtest ends with a position of at most 1e-10 shares, which only the Python path records.\<close>

theorem jit_matches_python:
  assumes "accel_rates m = Some (c, sc, mn, sl)" and "matcher_ok m" and "length opens = length prices"
    and "\<forall>p. Some p \<in> set opens \<longrightarrow> 0 < p" and "0 \<le> capital" and "length prices \<le> max_trades"
    and "simulate_python chain_ops m prices opens raw_close weights capital = r"
  shows "\<exists>s. jit_simulate_loop prices opens weights capital c sc mn sl = (sr_equity r, sr_returns r, s)
    \<and> (is_binary weights \<longrightarrow> (\<exists>q. simulate_jit True m prices opens weights capital = Some q
        \<and> sr_equity q = sr_equity r \<and> sr_returns q = sr_returns r
        \<and> (js_shares s \<le> 0 \<or> zero_threshold < js_shares s \<longrightarrow> map deal (sr_trades q) = map deal (sr_trades r))))"
proof -
  define bs where "bs = bars_of prices opens raw_close weights"
  have ok: "\<forall>b \<in> set bs. open_ok b" unfolding bs_def by (rule bars_open_ok) (use assms(3,4) in auto)
  have start: "es_matcher (engine_start m capital) = m" by (simp add: engine_start_def)
  obtain rows st' s where loop: "sim_loop chain_ops 1 bs capital (engine_start m capital) = (rows, st')"
    "jit_loop c sc mn sl 1 bs capital (jit_start capital) = (rows, s)" "es_matcher st' = m" "same_money st' s"
    and t: "(\<forall>b \<in> set bs. sb_weight b = 0 \<or> sb_weight b = 1) \<and> same_trades (engine_start m capital) (jit_start capital)
        \<and> length (js_trades (jit_start capital)) + length bs \<le> max_trades \<longrightarrow> same_trades st' s"
    using loop_sim [OF assms(1,2) ok start same_start(1), where i = 1 and prev = capital] by blast
  have r: "sr_equity r = capital # map fst rows" "sr_returns r = 0 # map snd rows"
    "sr_trades r = es_trades st' @ terminal_record chain_ops prices st'"
    unfolding assms(7) [symmetric] simulate_python_def bs_def [symmetric] loop(1) by simp_all
  have j: "jit_simulate_loop prices opens weights capital c sc mn sl = (sr_equity r, sr_returns r, s)"
    unfolding jit_simulate_loop_def jit_loop_bars [of c sc mn sl 1 prices opens prices weights capital _ raw_close] bs_def [symmetric]
    by (simp add: loop(2) [unfolded One_nat_def] r)
  have "\<exists>q. simulate_jit True m prices opens weights capital = Some q
      \<and> sr_equity q = sr_equity r \<and> sr_returns q = sr_returns r
      \<and> (js_shares s \<le> 0 \<or> zero_threshold < js_shares s \<longrightarrow> map deal (sr_trades q) = map deal (sr_trades r))"
    if b: "is_binary weights"
  proof -
    have "length bs \<le> max_trades" using assms(6) by (simp add: bs_def bars_of_def)
    moreover have "length (js_trades (jit_start capital)) = 0" by (simp add: jit_start_def)
    ultimately have tr: "same_trades st' s"
      using t bars_binary [OF b, of prices opens raw_close, folded bs_def] same_start(2) [OF assms(5), of m] by simp
    have "map deal (map (jit_record (sr_equity r) capital) (js_trades s)) = map deal (es_trades st')"
      by (rule same_deals [symmetric]) (use tr in \<open>simp add: same_trades_def\<close>)
    then show ?thesis
      unfolding simulate_jit_def assms(1) option.case prod.case j Let_def
      using b terminal_sim [OF assms(1) loop(3,4) tr] r(3) by simp
  qed
  then show ?thesis using j by blast
qed

definition jit_prices :: series where
  "jit_prices = [Some 10, Some 10, None, Some 20]"

definition jit_weights :: "flt list" where
  "jit_weights = [0, 1, 1, 0]"

theorem jit_matches_python_witness:
  "let m = SimpleMatcher 0 0 10 in
   \<exists>s. jit_simulate_loop jit_prices jit_prices jit_weights 1000 0 0 10 0
       = (sr_equity (simulate_python chain_ops m jit_prices jit_prices jit_prices jit_weights 1000),
          sr_returns (simulate_python chain_ops m jit_prices jit_prices jit_prices jit_weights 1000), s)
     \<and> (\<exists>q. simulate_jit True m jit_prices jit_prices jit_weights 1000 = Some q \<and> map td_pnl (sr_trades q) = [970])"
proof -
  let ?m = "SimpleMatcher 0 0 10 :: matcher"
  have "map_option (\<lambda>q. map td_pnl (sr_trades q)) (simulate_jit True ?m jit_prices jit_prices jit_weights 1000) = Some [970]"
    by code_simp
  then have n: "\<exists>q. simulate_jit True ?m jit_prices jit_prices jit_weights 1000 = Some q \<and> map td_pnl (sr_trades q) = [970]"
    by (simp only: map_option_eq_Some)
  have h: "accel_rates ?m = Some (0, 0, 10, 0)" "matcher_ok ?m"
    "\<forall>p. Some p \<in> set jit_prices \<longrightarrow> 0 < p" "(0 :: flt) \<le> 1000" "length jit_prices \<le> max_trades"
    by (simp add: accel_rates_def, simp, auto simp: jit_prices_def, simp add: max_trades_def)
  obtain s where "jit_simulate_loop jit_prices jit_prices jit_weights 1000 0 0 10 0
       = (sr_equity (simulate_python chain_ops ?m jit_prices jit_prices jit_prices jit_weights 1000),
          sr_returns (simulate_python chain_ops ?m jit_prices jit_prices jit_prices jit_weights 1000), s)"
    by (rule exE [OF jit_matches_python [OF h(1,2) refl h(3-5) refl, where raw_close = jit_prices and weights = jit_weights]])
       (erule conjE)
  then show ?thesis unfolding Let_def by (intro conjI exI n)
qed

end
