(* ===== verification/Backtest_Account.thy ===== *)
theory Backtest_Account
  imports Backtest_Engine
begin

text \<open>
  The account of the single-stock backtest, for every matcher that keeps the contract \<open>order_matcher\<close>: it
  never borrows and never sells short, its trade records add up to its cash, and no bar depends on later
  data.
\<close>

section \<open>No look-ahead\<close>

lemma sim_loop_take: "fst (sim_loop ops i (take k bs) prev st) = take k (fst (sim_loop ops i bs prev st))"
  by (induction bs arbitrary: i k prev st) (simp_all add: take_Cons Let_def case_prod_beta split: nat.split)

lemma sim_loop_prefix:
  assumes "take k bs = take k bs'"
  shows "take k (fst (sim_loop ops i bs prev st)) = take k (fst (sim_loop ops i bs' prev st))"
  using sim_loop_take [of ops i k bs prev st] sim_loop_take [of ops i k bs' prev st] assms by simp

lemma nth_of_take: "take k xs = take k ys \<Longrightarrow> i < k \<Longrightarrow> xs ! i = ys ! i"
  by (metis nth_take)

lemma bars_prefix:
  assumes "take (Suc k) prices = take (Suc k) prices'" "take (Suc k) opens = take (Suc k) opens'"
    "take (Suc k) cl = take (Suc k) cl'" "take (Suc k) w = take (Suc k) w'"
    and "length w = length prices" "length w' = length prices'"
  shows "take k (bars_of prices opens cl w) = take k (bars_of prices' opens' cl' w')"
proof (rule nth_equalityI)
  have len: "min (length prices) (Suc k) = min (length prices') (Suc k)"
    using arg_cong [OF assms(1), of length] by simp
  then show "length (take k (bars_of prices opens cl w)) = length (take k (bars_of prices' opens' cl' w'))"
    by (auto simp: bars_of_def min_def split: if_splits)
  fix j assume "j < length (take k (bars_of prices opens cl w))"
  then have j: "j < k" "Suc j < length prices" by (auto simp: bars_of_def)
  then have j': "Suc j < length prices'" using len by auto
  have "prices ! Suc j = prices' ! Suc j" "opens ! Suc j = opens' ! Suc j" "cl ! j = cl' ! j" "w ! Suc j = w' ! Suc j"
    using assms(1-4) j(1) by (auto intro: nth_of_take)
  then show "take k (bars_of prices opens cl w) ! j = take k (bars_of prices' opens' cl' w') ! j"
    using j j' assms(5,6) by (simp add: bars_of_def)
qed

definition frame_ok :: "frame \<Rightarrow> bool" where
  "frame_ok df \<longleftrightarrow> (\<forall>c. fm_open df = Some c \<or> fm_close df = Some c \<longrightarrow> length c = length (fm_adj_close df))"

text \<open>The first \<open>k\<close> rows.\<close>

definition take_frame :: "nat \<Rightarrow> frame \<Rightarrow> frame" where
  "take_frame k df = \<lparr>fm_adj_close = take k (fm_adj_close df), fm_open = map_option (take k) (fm_open df),
     fm_close = map_option (take k) (fm_close df)\<rparr>"

lemma adj_open_take:
  "compute_adj_open (take_frame k df) = map_prod (take k) (map_prod (take k) (take k)) (compute_adj_open df)"
proof -
  have "raw_close_of (take_frame k df) = take k (raw_close_of df)" "raw_open_of (take_frame k df) = take k (raw_open_of df)"
    by (simp_all add: raw_close_of_def raw_open_of_def take_frame_def split: option.split)
  then show ?thesis by (simp add: compute_adj_open_def Let_def take_frame_def take_map take_zip map2_map_map)
qed

lemma adj_open_lengths:
  assumes "frame_ok df" "compute_adj_open df = (prices, opens, raw_close)"
  shows "length opens = length prices" "length raw_close = length prices" "prices = fm_adj_close df"
  using assms by (auto simp: compute_adj_open_def Let_def raw_close_of_def raw_open_of_def frame_ok_def split: option.splits)

lemma shifted_signals_take:
  assumes "take k raw = take k raw'" "Suc k \<le> length raw" "Suc k \<le> length raw'"
  shows "take (Suc k) (shifted_signals raw) = take (Suc k) (shifted_signals raw')"
  using assms by (simp add: shifted_signals_def take_map min_absorb2)

lemma shifted_signals_range: "\<forall>w \<in> set (shifted_signals raw). 0 \<le> w \<and> w \<le> 1"
  by (auto simp: shifted_signals_def split: option.split)

lemma shifted_signals_length [simp]: "length (shifted_signals raw) = length raw"
  by (simp add: shifted_signals_def)

definition sample_frame :: "series \<Rightarrow> frame" where
  "sample_frame later = \<lparr>fm_adj_close = [Some 10, Some 10] @ later, fm_open = None, fm_close = None\<rparr>"



section \<open>Solvency and book-keeping\<close>

definition solvent :: "('m \<Rightarrow> bool) \<Rightarrow> 'm engine \<Rightarrow> bool" where
  "solvent ok st \<longleftrightarrow> ok (es_matcher st) \<and> 0 \<le> es_cash st \<and> 0 \<le> es_shares st"

text \<open>The money tied up in the open position, and the books: closed profits, open position and cash.\<close>

definition open_cost :: "'m engine \<Rightarrow> flt" where
  "open_cost st = es_entry_price st * es_shares st + es_entry_comm st - es_partial_pnl st"

definition closed_pnl :: "trade_record list \<Rightarrow> flt" where
  "closed_pnl ts = (\<Sum>t\<leftarrow>ts. td_pnl t)"

definition dropped_dust :: "trade_record list \<Rightarrow> flt" where
  "dropped_dust ts = (\<Sum>t\<leftarrow>ts. zero_threshold * td_exit_price t)"

definition books :: "flt \<Rightarrow> 'm engine \<Rightarrow> bool" where
  "books capital st \<longleftrightarrow> (if es_entry_time st = None
       then es_shares st = 0 \<and> es_entry_comm st = 0 \<and> es_partial_pnl st = 0 else 0 < es_shares st)
     \<and> es_cash st + open_cost st \<le> capital + closed_pnl (es_trades st)
     \<and> capital + closed_pnl (es_trades st) - dropped_dust (es_trades st) \<le> es_cash st + open_cost st"

lemma books_start: "books capital (engine_start m capital)"
  by (simp add: books_def engine_start_def open_cost_def closed_pnl_def dropped_dust_def)

lemma achieved_weight_frame:
  "es_cash (achieved_weight p st) = es_cash st" "es_shares (achieved_weight p st) = es_shares st"
  "es_matcher (achieved_weight p st) = es_matcher st" "books capital (achieved_weight p st) = books capital st"
  by (simp_all add: achieved_weight_def Let_def books_def open_cost_def)

lemma books_matcher [simp]: "books capital (st\<lparr>es_matcher := m\<rparr>) = books capital st"
  by (simp add: books_def open_cost_def)

lemma book_buy_frame:
  "es_cash (book_buy i f st) = es_cash st + fr_net f" "es_shares (book_buy i f st) = es_shares st + fr_shares f"
  "es_matcher (book_buy i f st) = es_matcher st" "es_trades (book_buy i f st) = es_trades st"
  by (simp_all add: book_buy_def Let_def)

lemma book_sale_frame:
  "es_cash (book_sale i f st) = es_cash st + fr_net f" "es_matcher (book_sale i f st) = es_matcher st"
  "es_shares (book_sale i f st) = (if es_shares st - fr_shares f < zero_threshold then 0 else es_shares st - fr_shares f)"
  by (simp_all add: book_sale_def Let_def split: option.split)

lemma book_buy_books:
  assumes "books capital st" and "bought p a f" and "0 < fr_shares f"
  shows "books capital (book_buy i f st)"
proof (cases "es_shares st = 0")
  case True
  then have "es_entry_time st = None" using assms(1) by (auto simp: books_def split: if_splits)
  then have z: "es_entry_comm st = 0" "es_partial_pnl st = 0" using assms(1) by (simp_all add: books_def)
  have "open_cost (book_buy i f st) = fr_price f * fr_shares f + fr_commission f"
    using True by (simp add: book_buy_def Let_def open_cost_def)
  moreover have "open_cost st = 0" using True z by (simp add: open_cost_def)
  moreover have "es_entry_time (book_buy i f st) \<noteq> None" using True by (simp add: book_buy_def Let_def)
  ultimately show ?thesis
    using assms True by (simp add: books_def book_buy_frame bought_def algebra_simps)
next
  case False
  then have e: "es_entry_time st \<noteq> None" "0 < es_shares st" using assms(1) by (auto simp: books_def split: if_splits)
  then have nz: "es_shares st + fr_shares f \<noteq> 0" using assms(3) by linarith
  have "open_cost (book_buy i f st) = open_cost st + fr_price f * fr_shares f + fr_commission f"
    using False nz by (simp add: book_buy_def Let_def open_cost_def)
  moreover have "es_entry_time (book_buy i f st) \<noteq> None" using False e by (simp add: book_buy_def Let_def)
  ultimately show ?thesis
    using assms e by (simp add: books_def book_buy_frame bought_def algebra_simps)
qed

lemma closed_pnl_append: "closed_pnl (ts @ [t]) = closed_pnl ts + td_pnl t"
  "dropped_dust (ts @ [t]) = dropped_dust ts + zero_threshold * td_exit_price t"
  by (simp_all add: closed_pnl_def dropped_dust_def)

lemma book_sale_books:
  assumes "books capital st" and "sold p (es_shares st) f" and "0 < fr_shares f"
  shows "books capital (book_sale i f st)"
proof -
  have sh: "0 < es_shares st" "fr_shares f \<le> es_shares st" using assms(2,3) by (auto simp: sold_def)
  then obtain e where e: "es_entry_time st = Some e" using assms(1) by (cases "es_entry_time st") (auto simp: books_def)
  have z: "0 < zero_threshold" by (simp add: zero_threshold_def)
  have net: "fr_net f = fr_shares f * fr_price f - fr_commission f" "0 \<le> fr_price f" using assms(2) by (simp_all add: sold_def)
  have c: "es_cash st + open_cost st \<le> capital + closed_pnl (es_trades st)"
    "capital + closed_pnl (es_trades st) - dropped_dust (es_trades st) \<le> es_cash st + open_cost st"
    using assms(1) by (simp_all add: books_def)
  define rest where "rest = es_shares st - fr_shares f"
  show ?thesis
  proof (cases "rest < zero_threshold")
    case True
    have st': "es_entry_time (book_sale i f st) = None" "es_shares (book_sale i f st) = 0"
      "es_entry_comm (book_sale i f st) = 0" "es_partial_pnl (book_sale i f st) = 0"
      using True e sh z by (simp_all add: book_sale_def Let_def rest_def)
    obtain t where t: "es_trades (book_sale i f st) = es_trades st @ [t]" "td_exit_price t = fr_price f"
      "td_pnl t = es_partial_pnl st + ((fr_price f - es_entry_price st) * es_shares st - fr_commission f) - es_entry_comm st"
      using True e sh z by (simp add: book_sale_def Let_def rest_def close_record_def)
    have "rest * fr_price f \<le> zero_threshold * fr_price f" "0 \<le> rest * fr_price f"
      using True net(2) sh by (auto simp: rest_def intro: mult_right_mono)
    then have d: "0 \<le> es_shares st * fr_price f - fr_shares f * fr_price f"
      "es_shares st * fr_price f - fr_shares f * fr_price f \<le> zero_threshold * fr_price f"
      by (simp_all add: rest_def left_diff_distrib)
    have p: "td_pnl t = es_partial_pnl st + es_shares st * fr_price f - es_entry_price st * es_shares st - fr_commission f - es_entry_comm st"
      by (simp add: t(3) algebra_simps)
    have oc: "open_cost (book_sale i f st) = 0" using st' by (simp add: open_cost_def)
    have "es_cash (book_sale i f st) \<le> capital + (closed_pnl (es_trades st) + td_pnl t)"
      using c(1) d(1) p net(1) unfolding book_sale_frame(1) open_cost_def by linarith
    moreover have "capital + (closed_pnl (es_trades st) + td_pnl t) - (dropped_dust (es_trades st) + zero_threshold * fr_price f)
        \<le> es_cash (book_sale i f st)"
      using c(2) d(2) p net(1) unfolding book_sale_frame(1) open_cost_def by linarith
    ultimately show ?thesis
      unfolding books_def t(1) closed_pnl_append t(2) oc using st' by simp
  next
    case False
    have st': "es_entry_time (book_sale i f st) = Some e" "es_shares (book_sale i f st) = rest"
      "es_entry_comm (book_sale i f st) = es_entry_comm st" "es_trades (book_sale i f st) = es_trades st"
      "es_entry_price (book_sale i f st) = es_entry_price st"
      "es_partial_pnl (book_sale i f st) = es_partial_pnl st + (fr_price f - es_entry_price st) * fr_shares f - fr_commission f"
      using False e sh z by (simp_all add: book_sale_def Let_def rest_def)
    have "es_cash (book_sale i f st) + open_cost (book_sale i f st) = es_cash st + open_cost st"
      unfolding open_cost_def st' book_sale_frame(1) net(1) by (simp add: rest_def algebra_simps)
    then show ?thesis unfolding books_def st' using c False z by simp
  qed
qed

definition bar_ok :: "bar \<Rightarrow> bool" where
  "bar_ok b \<longleftrightarrow> (\<forall>p. sb_open b = Some p \<longrightarrow> 0 < p) \<and> (\<forall>p. sb_price b = Some p \<longrightarrow> 0 \<le> p) \<and> 0 \<le> sb_weight b \<and> sb_weight b \<le> 1"

text \<open>The lemmas of the engine follow from the contract of the matcher alone.\<close>

context order_matcher begin

abbreviation ops :: "'m matcher_ops" where
  "ops \<equiv> \<lparr>mo_buy = buy, mo_sell = sell, mo_on_bar = bar, mo_unwrap = unwrap\<rparr>"

lemma sale_sound:
  assumes "solvent ok st" "books capital st" "sell (es_matcher st) p ss = (m, f)" "0 < fr_shares f" "ss \<le> es_shares st" "0 \<le> p"
    and st': "st' = achieved_weight p (book_sale i f (st\<lparr>es_matcher := m\<rparr>))"
  shows "solvent ok st' \<and> books capital st' \<and> es_cash st' + es_shares st' * p \<le> es_cash st + es_shares st * p"
proof -
  have ok: "ok (es_matcher st)" using assms(1) by (simp add: solvent_def)
  have m: "ok m" and b: "sold p ss f" using sell_law [OF ok assms(3)] assms(4) by auto
  note y = sell_yields [OF ok assms(3,4)]
  have b': "sold p (es_shares (st\<lparr>es_matcher := m\<rparr>)) f" using b assms(5) by (auto simp: sold_def)
  have sh: "0 \<le> es_shares st'" "es_shares st' \<le> es_shares st - fr_shares f"
    using y(3) assms(5) by (auto simp: st' achieved_weight_frame book_sale_frame)
  have "es_shares st' * p \<le> (es_shares st - fr_shares f) * p" using sh(2) assms(6) by (rule mult_right_mono)
  then have "es_cash st' + es_shares st' * p \<le> es_cash st + es_shares st * p"
    using y(2) by (simp add: st' achieved_weight_frame book_sale_frame(1) left_diff_distrib)
  moreover have "solvent ok st'"
    using assms(1) m y(1) sh(1) by (simp add: st' achieved_weight_frame book_sale_frame(1,2) solvent_def)
  moreover have "books capital st'"
    unfolding st' achieved_weight_frame(4) by (rule book_sale_books [OF _ b' assms(4)]) (use assms(2) in simp)
  ultimately show ?thesis by blast
qed

lemma purchase_sound:
  assumes "solvent ok st" "books capital st" "buy (es_matcher st) p a = (m, f)" "0 < fr_shares f" "a \<le> es_cash st"
    and st': "st' = achieved_weight p (book_buy i f (st\<lparr>es_matcher := m\<rparr>))"
  shows "solvent ok st' \<and> books capital st' \<and> es_cash st' + es_shares st' * p \<le> es_cash st + es_shares st * p"
proof -
  have ok: "ok (es_matcher st)" using assms(1) by (simp add: solvent_def)
  have m: "ok m" and b: "bought p a f" using buy_law [OF ok assms(3)] assms(4) by auto
  note y = buy_spends [OF ok assms(3,4,5)]
  have "es_cash st' + es_shares st' * p \<le> es_cash st + es_shares st * p"
    using y(2) by (simp add: st' achieved_weight_frame book_buy_frame distrib_right)
  moreover have "solvent ok st'"
    using assms(1,4) m y(1) by (simp add: st' achieved_weight_frame book_buy_frame solvent_def)
  moreover have "books capital st'"
    unfolding st' achieved_weight_frame(4) by (rule book_buy_books [OF _ b assms(4)]) (use assms(2) in simp)
  ultimately show ?thesis by blast
qed

lemma rebalance_sound:
  assumes st: "solvent ok st" "books capital st" and p: "0 < p" and w: "0 \<le> w" "w \<le> 1"
  shows "solvent ok (rebalance ops i p w st) \<and> books capital (rebalance ops i p w st)
    \<and> es_cash (rebalance ops i p w st) + es_shares (rebalance ops i p w st) * p \<le> es_cash st + es_shares st * p"
proof -
  define cv where "cv = es_shares st * p"
  define eq where "eq = es_cash st + cv"
  define ss where "ss = (if w = 0 then es_shares st else (cv - eq * w) / p)"
  define a where "a = min (eq * w - cv) (es_cash st)"
  obtain m f where sell: "sell (es_matcher st) p ss = (m, f)" by (cases "sell (es_matcher st) p ss")
  obtain m' f' where buy: "buy (es_matcher st) p a = (m', f')" by (cases "buy (es_matcher st) p a")
  have ok: "ok (es_matcher st)" "0 \<le> eq" using st(1) p by (simp_all add: solvent_def eq_def cv_def)
  have "0 \<le> eq * w" using ok(2) w(1) by simp
  then have "(cv - eq * w) / p \<le> cv / p" using p by (intro divide_right_mono) auto
  then have ss: "ss \<le> es_shares st" using p by (simp add: ss_def cv_def)
  have a: "a \<le> es_cash st" by (simp add: a_def)
  have R: "rebalance ops i p w st =
     (if eq * w < cv \<and> 0 < es_shares st
      then (if 0 < fr_shares f then achieved_weight p (book_sale i f (st\<lparr>es_matcher := m\<rparr>)) else st\<lparr>es_matcher := m\<rparr>)
      else if eq * w > cv \<and> 0 < a
      then (if 0 < fr_shares f' then achieved_weight p (book_buy i f' (st\<lparr>es_matcher := m'\<rparr>)) else st\<lparr>es_matcher := m'\<rparr>)
      else st)"
    unfolding rebalance_def Let_def cv_def [symmetric]
    unfolding eq_def [symmetric] ss_def [symmetric] a_def [symmetric] matcher_ops.simps sell buy prod.case by simp
  have idle: "solvent ok (st\<lparr>es_matcher := n\<rparr>) \<and> books capital (st\<lparr>es_matcher := n\<rparr>)" if "ok n" for n
    using st that by (simp add: solvent_def)
  have n: "ok m" "ok m'" using sell_law [OF ok(1) sell] buy_law [OF ok(1) buy] by auto
  show ?thesis
    unfolding R using sale_sound [OF st sell _ ss _ refl, of i] purchase_sound [OF st buy _ a refl, of i] idle [OF n(1)] idle [OF n(2)] st p
    by (auto split: if_split)
qed

lemma step_sound:
  assumes st: "solvent ok st" "books capital st" and b: "bar_ok b" and prev: "0 \<le> prev"
    and step: "bar_step ops i b prev st = (eq, ret, st')"
  shows "solvent ok st' \<and> books capital st' \<and> 0 \<le> eq"
proof (cases "\<exists>price op1. sb_price b = Some price \<and> sb_open b = Some op1")
  case False
  then have "sb_price b = None \<or> sb_open b = None" by auto
  then have "bar_step ops i b prev st = (prev, 0, st)" by (auto simp: bar_step_def split: option.split)
  then show ?thesis using st prev step by simp
next
  case True
  then obtain price op1 where po: "sb_price b = Some price" "sb_open b = Some op1" by blast
  have p: "0 < op1" "0 \<le> price" and w: "0 \<le> sb_weight b" "sb_weight b \<le> 1" using b po by (simp_all add: bar_ok_def)
  define st1 where "st1 = st\<lparr>es_matcher := bar (es_matcher st) (int i) (sb_prev_close b)\<rparr>"
  have st1: "solvent ok st1" "books capital st1" using st bar_law by (simp_all add: st1_def solvent_def)
  have st': "st' = (if weight_change_min < \<bar>sb_weight b - es_prev_weight st1\<bar> then rebalance ops i op1 (sb_weight b) st1 else st1)"
    and eq: "eq = es_cash st' + es_shares st' * price"
    using step unfolding bar_step_def po option.case prod.case matcher_ops.simps st1_def [symmetric] Let_def prod.inject by blast+
  have "solvent ok st' \<and> books capital st'" using rebalance_sound [OF st1 p(1) w, of i] st1 by (simp add: st')
  then show ?thesis using p(2) by (simp add: eq solvent_def)
qed

lemma loop_sound:
  assumes "solvent ok st" "books capital st" "\<forall>b \<in> set bs. bar_ok b" "0 \<le> prev"
    and "sim_loop ops i bs prev st = (rows, st')"
  shows "solvent ok st' \<and> books capital st' \<and> (\<forall>row \<in> set rows. 0 \<le> fst row)"
  using assms
proof (induction bs arbitrary: i prev st rows st')
  case (Cons b bs)
  obtain eq ret st1 where step: "bar_step ops i b prev st = (eq, ret, st1)" by (cases "bar_step ops i b prev st")
  obtain rows' st2 where loop: "sim_loop ops (Suc i) bs eq st1 = (rows', st2)" by (cases "sim_loop ops (Suc i) bs eq st1")
  have b: "bar_ok b" using Cons.prems(3) by simp
  note s = step_sound [OF Cons.prems(1,2) b Cons.prems(4) step]
  have "solvent ok st2 \<and> books capital st2 \<and> (\<forall>row \<in> set rows'. 0 \<le> fst row)"
    by (rule Cons.IH [OF _ _ _ _ loop]) (use s Cons.prems(3) in auto)
  then show ?case using Cons.prems(5) s by (auto simp: step loop)
qed simp

end

section \<open>The matchers of the repository\<close>

lemma chain_ops_ops: "\<lparr>mo_buy = fill_buy, mo_sell = fill_sell, mo_on_bar = on_bar, mo_unwrap = unwrapped\<rparr> = chain_ops"
  by (simp add: chain_ops_def)

lemmas chain_loop = chain.loop_sound [unfolded chain_ops_ops]

text \<open>Without market rules below the outermost ones, the terminal sale sells the whole position.\<close>

lemma rules_free_keeps:
  "rules_free (fst (fill_buy m p a)) = rules_free m" "rules_free (fst (fill_sell m p s)) = rules_free m"
  by (induction m arbitrary: s) (simp_all add: Let_def case_prod_beta)

lemma unwrapped_keeps:
  "rules_free (unwrapped (fst (fill_buy m p a))) = rules_free (unwrapped m)"
  "rules_free (unwrapped (fst (fill_sell m p s))) = rules_free (unwrapped m)"
  by (induction m arbitrary: s) (simp_all add: Let_def case_prod_beta rules_free_keeps)

lemma unwrapped_free: "rules_free m \<Longrightarrow> unwrapped m = m"
  by (cases m) auto

lemma rules_free_fills:
  assumes "rules_free m" "0 < p" "0 < s"
  shows "fr_shares (snd (fill_sell m p s)) = s"
  using assms
  by (induction m) (auto simp: jit_fill_sell_def Let_def sell_tax_def split: prod.splits)

interpretation realised: order_matcher fill_buy fill_sell on_bar unwrapped "\<lambda>m. matcher_ok m \<and> rules_free (unwrapped m)"
proof unfold_locales
  fix m m' :: matcher and p a s i prev f
  assume ok: "matcher_ok m \<and> rules_free (unwrapped m)"
  show "(matcher_ok m' \<and> rules_free (unwrapped m')) \<and> (0 < fr_shares f \<longrightarrow> bought p a f)" if "fill_buy m p a = (m', f)"
    using chain.buy_law [OF _ that] ok unwrapped_keeps(1) [of m p a] that by simp
  show "(matcher_ok m' \<and> rules_free (unwrapped m')) \<and> (0 < fr_shares f \<longrightarrow> sold p s f)" if "fill_sell m p s = (m', f)"
    using chain.sell_law [OF _ that] ok unwrapped_keeps(2) [of m p s] that by simp
  have "unwrapped (on_bar m i prev) = unwrapped m" by (cases m) auto
  then show "matcher_ok (on_bar m i prev) \<and> rules_free (unwrapped (on_bar m i prev))" using chain.bar_law ok by simp
  have "rules_free (unwrapped (unwrapped m))" using ok unwrapped_free by simp
  then show "matcher_ok (unwrapped m) \<and> rules_free (unwrapped (unwrapped m))" using chain.unwrap_law ok by simp
qed

lemmas realised_loop = realised.loop_sound [unfolded chain_ops_ops]

section \<open>Properties of the backtest\<close>

definition frame_positive :: "frame \<Rightarrow> bool" where
  "frame_positive df \<longleftrightarrow> frame_ok df \<and> (\<forall>x. Some x \<in> set (fm_adj_close df) \<union> set (raw_open_of df) \<longrightarrow> 0 < x)"

definition bars_for :: "frame \<Rightarrow> flt list \<Rightarrow> bar list" where
  "bars_for df signals = (let (prices, opens, raw_close) = compute_adj_open df in bars_of prices opens raw_close signals)"

lemma adj_ratio_pos: "(\<And>x. p = Some x \<Longrightarrow> 0 < x) \<Longrightarrow> 0 < adj_ratio p c"
  by (auto simp: adj_ratio_def split: option.split)

lemma bars_for_ok:
  assumes "frame_positive df" and "\<forall>w \<in> set signals. 0 \<le> w \<and> w \<le> 1"
  shows "\<forall>b \<in> set (bars_for df signals). bar_ok b"
proof -
  obtain p ops cl where c: "compute_adj_open df = (p, ops, cl)" by (cases "compute_adj_open df")
  have ok: "frame_ok df" using assms(1) by (simp add: frame_positive_def)
  note l = adj_open_lengths [OF ok c]
  have p: "0 < x" if "Some x \<in> set p" for x using assms(1) that l(3) by (auto simp: frame_positive_def)
  have o: "0 < x" if "Some x \<in> set ops" for x
  proof -
    have "ops = map2 (\<lambda>op1 q. map_option (\<lambda>x. x * q) op1) (raw_open_of df) (map2 adj_ratio p (raw_close_of df))"
      using c by (auto simp: compute_adj_open_def Let_def)
    then have "Some x \<in> (\<lambda>(op1, q). map_option (\<lambda>x. x * q) op1) ` set (zip (raw_open_of df) (map2 adj_ratio p (raw_close_of df)))"
      using that unfolding set_map [symmetric] by (simp only:)
    then obtain pr where pr: "Some x = (case pr of (op1, q) \<Rightarrow> map_option (\<lambda>x. x * q) op1)"
      "pr \<in> set (zip (raw_open_of df) (map2 adj_ratio p (raw_close_of df)))" by (rule imageE)
    obtain op1 q where q: "pr = (op1, q)" by (cases pr)
    have z: "(op1, q) \<in> set (zip (raw_open_of df) (map2 adj_ratio p (raw_close_of df)))" "map_option (\<lambda>x. x * q) op1 = Some x"
      using pr by (simp_all only: q prod.case)
    then obtain y where y: "op1 = Some y" "x = y * q" by auto
    have "0 < q"
    proof -
      obtain v u where "q = adj_ratio v u" "(v, u) \<in> set (zip p (raw_close_of df))"
        using set_zip_rightD [OF z(1)] by auto
      then show ?thesis using p by (auto intro!: adj_ratio_pos dest: set_zip_leftD)
    qed
    moreover have "0 < y" using set_zip_leftD [OF z(1)] assms(1) y(1) by (auto simp: frame_positive_def)
    ultimately show ?thesis by (simp add: y(2))
  qed
  have "bar_ok \<lparr>sb_price = p ! i, sb_open = ops ! i, sb_prev_close = cl ! (i - 1),
      sb_weight = (if i < length signals then signals ! i else 0)\<rparr>" if "i < length p" for i
  proof -
    have "0 \<le> x" if "p ! i = Some x" for x using p [of x] nth_mem [OF \<open>i < length p\<close>] that by (metis less_imp_le)
    moreover have "0 < x" if "ops ! i = Some x" for x using o [of x] nth_mem [of i ops] l(1) \<open>i < length p\<close> that by metis
    ultimately show ?thesis using assms(2) by (simp add: bar_ok_def)
  qed
  then show ?thesis by (auto simp: bars_for_def c bars_of_def)
qed

lemma solvent_start: "ok m \<Longrightarrow> 0 \<le> capital \<Longrightarrow> solvent ok (engine_start m capital)"
  by (simp add: solvent_def engine_start_def)

lemma simulate_python_bars:
  assumes "compute_adj_open df = (prices, opens, raw_close)" and "prices \<noteq> []"
  shows "simulate False m df signals capital =
    (let (rows, st) = sim_loop chain_ops 1 (bars_for df signals) capital (engine_start m capital)
     in \<lparr>sr_equity = capital # map fst rows, sr_trades = es_trades st @ terminal_record chain_ops prices st,
         sr_returns = 0 # map snd rows\<rparr>)"
proof -
  have J: "simulate_jit False m q o1 w capital = None" for q o1 w by (simp add: simulate_jit_def split: option.split)
  show ?thesis using assms by (simp add: simulate_def J simulate_python_def bars_for_def)
qed


lemma sample_positive: "frame_positive (sample_frame [Some 20])"
  by (auto simp: sample_frame_def frame_positive_def frame_ok_def raw_open_of_def raw_close_of_def)


lemma terminal_proceeds:
  assumes "books capital st" and "matcher_ok (es_matcher st)" "rules_free (unwrapped (es_matcher st))"
    and "last prices = Some liq" "0 < liq"
  shows "(es_shares st = 0 \<and> terminal_record chain_ops prices st = [])
    \<or> (0 < es_shares st \<and> (\<exists>t. terminal_record chain_ops prices st = [t]
      \<and> td_pnl t = fr_net (snd (fill_sell (unwrapped (es_matcher st)) liq (es_shares st))) - open_cost st
      \<and> 0 \<le> td_exit_price t))"
proof (cases "es_entry_time st")
  case None
  then show ?thesis using assms(1) by (simp add: books_def terminal_record_def)
next
  case (Some e)
  then have sh: "0 < es_shares st" using assms(1) by (simp add: books_def)
  obtain m' f where f: "fill_sell (unwrapped (es_matcher st)) liq (es_shares st) = (m', f)"
    by (cases "fill_sell (unwrapped (es_matcher st)) liq (es_shares st)")
  have all: "fr_shares f = es_shares st" using rules_free_fills [OF assms(3,5) sh] f by simp
  have "sold liq (es_shares st) f"
    using chain.sell_law [OF chain.unwrap_law [OF assms(2)] f] all sh by simp
  then have n: "fr_net f = fr_shares f * fr_price f - fr_commission f" "0 \<le> fr_price f" by (simp_all add: sold_def)
  have t: "terminal_record chain_ops prices st = [close_record e (length prices - 1)
      (if 0 < es_peak_shares st then es_entry_price st * es_peak_shares st + es_entry_comm st
       else es_entry_price st * fr_shares f + es_entry_comm st) f (fr_shares f) st]"
    using Some sh assms(4,5) all by (simp add: terminal_record_def Let_def chain_ops_def f)
  then show ?thesis
    using sh n by (simp add: f close_record_def Let_def all open_cost_def algebra_simps)
qed



end
