(* ===== verification/Broker_Links.thy ===== *)
theory Broker_Links
  imports Order_Events
begin

text \<open>
  \<open>ez/live/_broker_order_links.py\<close>: the table that links a client order to the broker's order and its latest
  known status.  The table is a dictionary over its primary key; every write happens inside a transaction
  of the deployment store.  The clock reading of a write is the argument \<open>now\<close>.
\<close>

section \<open>Rows and reports\<close>

type_synonym link_key = "string \<times> string \<times> string"

record link =
  bl_broker_order_id :: string
  bl_symbol :: string
  bl_account_id :: string
  bl_report_id :: string
  bl_status :: string
  bl_report_ts :: "timestamp option"
  bl_created_at :: timestamp
  bl_updated_at :: timestamp

type_synonym links = "(link_key, link) dict"

record execution_report =
  xr_report_id :: string
  xr_broker_type :: string
  xr_as_of :: timestamp
  xr_client_order_id :: string
  xr_broker_order_id :: string
  xr_symbol :: string
  xr_side :: string
  xr_status :: string
  xr_filled_shares :: int
  xr_remaining_shares :: int
  xr_avg_price :: flt
  xr_message :: string
  xr_account_id :: string

text \<open>\<open>str(d.get(k1, "") or d.get(k2, "") or ... or "")\<close>\<close>

definition first_str :: "payload \<Rightarrow> string list \<Rightarrow> string res" where
  "first_str d ks = py_str (foldr (\<lambda>k j. py_or (jget d k (JStr [])) j) ks (JStr []))"

definition first_stripped :: "payload \<Rightarrow> string list \<Rightarrow> string res" where
  "first_stripped d ks = rbind (first_str d ks) (\<lambda>s. Inr (str_strip s))"

definition runtime_event_payload :: "payload \<Rightarrow> payload" where
  "runtime_event_payload pl = (case as_dict (jget pl ''payload'' JNull) of None \<Rightarrow> [] | Some d \<Rightarrow> d)"

text \<open>\<open>cancel_result not in {"", None, 0, "0"}\<close>; a list or an object is not hashable.\<close>

fun cancel_result_failed :: "json \<Rightarrow> bool res" where
  "cancel_result_failed JNull = Inr False"
| "cancel_result_failed (JBool b) = Inr b"
| "cancel_result_failed (JInt i) = Inr (i \<noteq> 0)"
| "cancel_result_failed (JFloat x) = Inr (x \<noteq> 0)"
| "cancel_result_failed (JStr s) = Inr (s \<noteq> [] \<and> s \<noteq> ''0'')"
| "cancel_result_failed _ = Inl TypeError"

section \<open>Queries\<close>

definition link_matches :: "string \<Rightarrow> string \<Rightarrow> string \<Rightarrow> string \<Rightarrow> link_key \<times> link \<Rightarrow> bool" where
  "link_matches dep bt boid account kl = (case kl of ((d, b, c), l) \<Rightarrow>
     d = dep \<and> b = bt \<and> bl_broker_order_id l = boid \<and> (account = [] \<or> bl_account_id l = account \<or> bl_account_id l = []))"

definition link_order :: "string \<Rightarrow> link_key \<times> link \<Rightarrow> nat \<times> nat \<times> int \<times> int \<times> string" where
  "link_order account kl = (case kl of ((d, b, c), l) \<Rightarrow>
     (if account = [] \<or> bl_account_id l = account then 0 else 1,
      case bl_report_ts l of Some t \<Rightarrow> 0 | None \<Rightarrow> 1,
      case bl_report_ts l of Some t \<Rightarrow> - t | None \<Rightarrow> 0,
      - bl_updated_at l, c))"

definition list_links_by_broker_order_id :: "links \<Rightarrow> string \<Rightarrow> string \<Rightarrow> string \<Rightarrow> string \<Rightarrow> (link_key \<times> link) list" where
  "list_links_by_broker_order_id ls dep bt boid account_id =
     (let account = str_strip account_id
      in sort_key (link_order account) (filter (link_matches dep bt boid account) ls))"

definition find_broker_order_link :: "links \<Rightarrow> string \<Rightarrow> string \<Rightarrow> string \<Rightarrow> string \<Rightarrow> (link_key \<times> link) option" where
  "find_broker_order_link ls dep bt boid account_id =
     (case list_links_by_broker_order_id ls dep bt boid account_id of [] \<Rightarrow> None | kl # _ \<Rightarrow> Some kl)"

definition get_broker_order_link :: "links \<Rightarrow> string \<Rightarrow> string \<Rightarrow> string \<Rightarrow> link option" where
  "get_broker_order_link ls dep bt coid = map_of ls (dep, bt, coid)"

definition list_broker_order_links :: "links \<Rightarrow> string \<Rightarrow> string option \<Rightarrow> (link_key \<times> link) list" where
  "list_broker_order_links ls dep broker_type =
     sort_key (\<lambda>((d, b, c), l). (bl_updated_at l, c))
       (filter (\<lambda>((d, b, c), l). d = dep \<and> (case broker_type of None \<Rightarrow> True | Some bt \<Rightarrow> bt = [] \<or> b = bt)) ls)"

section \<open>Writes\<close>

definition link_created :: "links \<Rightarrow> link_key \<Rightarrow> timestamp \<Rightarrow> timestamp" where
  "link_created ls k now = (case map_of ls k of Some l \<Rightarrow> bl_created_at l | None \<Rightarrow> now)"

definition put_link ::
  "links \<Rightarrow> link_key \<Rightarrow> timestamp \<Rightarrow> string \<Rightarrow> string \<Rightarrow> string \<Rightarrow> string \<Rightarrow> string \<Rightarrow> timestamp option \<Rightarrow> links" where
  "put_link ls k now boid symb account report_id status report_ts =
     dset ls k \<lparr>bl_broker_order_id = boid, bl_symbol = symb, bl_account_id = account, bl_report_id = report_id,
       bl_status = status, bl_report_ts = report_ts, bl_created_at = link_created ls k now, bl_updated_at = now\<rparr>"

definition no_link :: link where
  "no_link = \<lparr>bl_broker_order_id = [], bl_symbol = [], bl_account_id = [], bl_report_id = [], bl_status = [],
     bl_report_ts = None, bl_created_at = 0, bl_updated_at = 0\<rparr>"

text \<open>The status a report proposes: a partial fill keeps the pending cancellation.\<close>

definition incoming_status :: "string \<Rightarrow> execution_report \<Rightarrow> string" where
  "incoming_status previous r =
     (let n = normalize_broker_order_status (xr_status r) (xr_filled_shares r) (xr_remaining_shares r) in
      if previous \<in> {''reported_cancel_pending'', ''partially_filled_cancel_pending''} \<and> n = ''partially_filled''
      then ''partially_filled_cancel_pending'' else n)"

definition should_advance_link :: "link option \<Rightarrow> string \<Rightarrow> string \<Rightarrow> timestamp \<Rightarrow> bool" where
  "should_advance_link before previous incoming ts =
     (case before of None \<Rightarrow> True
      | Some l \<Rightarrow> (previous = ''reported_cancel_pending'' \<and> incoming = ''reported'')
          \<or> broker_order_status_rank previous < broker_order_status_rank incoming
          \<or> (broker_order_status_rank incoming = broker_order_status_rank previous
             \<and> (case bl_report_ts l of None \<Rightarrow> True | Some t \<Rightarrow> t \<le> ts)))"

definition upsert_report :: "string \<Rightarrow> timestamp \<Rightarrow> execution_report \<Rightarrow> links \<times> nat \<Rightarrow> links \<times> nat" where
  "upsert_report dep now r acc = (case acc of (ls, updated) \<Rightarrow>
     if xr_client_order_id r = [] then (ls, updated)
     else let k = (dep, xr_broker_type r, xr_client_order_id r); before = map_of ls k;
              old = (case before of None \<Rightarrow> no_link | Some l \<Rightarrow> l);
              previous = normalize_status (bl_status old);
              incoming = incoming_status previous r;
              preserve = (previous = ''reported_cancel_pending'' \<and> incoming = ''reported'');
              adv = should_advance_link before previous incoming (xr_as_of r);
              report_id = (if adv then xr_report_id r else bl_report_id old);
              status = (if adv \<and> \<not> preserve then incoming else previous);
              report_ts = (if adv then Some (xr_as_of r) else bl_report_ts old)
       in (put_link ls k now (str_or (xr_broker_order_id r) (bl_broker_order_id old)) (str_or (xr_symbol r) (bl_symbol old))
             (str_or (xr_account_id r) (bl_account_id old)) report_id status report_ts,
           if before = None \<or> bl_report_id old \<noteq> report_id then updated + 1 else updated))"

definition upsert_broker_order_links :: "string \<Rightarrow> timestamp \<Rightarrow> execution_report list \<Rightarrow> links \<Rightarrow> links \<times> nat" where
  "upsert_broker_order_links dep now reports ls = fold (upsert_report dep now) reports (ls, 0)"

text \<open>A broker execution event carries a report.\<close>

definition report_of_event :: "event \<Rightarrow> execution_report option res" where
  "report_of_event ev = (let pl = e_payload ev in
     rbind (first_stripped pl [''broker_type'']) (\<lambda>bt. let coid = str_strip (e_client_order_id ev) in
     rbind (first_stripped pl [''report_id'']) (\<lambda>rid.
     if bt = [] \<or> coid = [] \<or> rid = [] then Inr None
     else rbind (first_stripped pl [''broker_order_id'']) (\<lambda>boid.
       rbind (first_stripped pl [''symbol'']) (\<lambda>symb.
       rbind (first_stripped pl [''side'']) (\<lambda>side.
       rbind (first_stripped pl [''status'']) (\<lambda>st.
       rbind (int_field pl ''filled_shares'') (\<lambda>filled.
       rbind (int_field pl ''remaining_shares'') (\<lambda>remaining.
       rbind (float_field pl ''avg_price'') (\<lambda>price.
       rbind (first_str pl [''message'']) (\<lambda>msg.
       rbind (first_stripped pl [''account_id'']) (\<lambda>account.
         Inr (Some \<lparr>xr_report_id = rid, xr_broker_type = bt, xr_as_of = e_ts ev, xr_client_order_id = coid,
           xr_broker_order_id = boid, xr_symbol = symb, xr_side = side, xr_status = st, xr_filled_shares = filled,
           xr_remaining_shares = remaining, xr_avg_price = price, xr_message = msg, xr_account_id = account\<rparr>)))))))))))))"

definition upsert_broker_execution_event_link :: "timestamp \<Rightarrow> event \<Rightarrow> links \<Rightarrow> links res" where
  "upsert_broker_execution_event_link now ev ls = rbind (report_of_event ev) (\<lambda>r. case r of
     None \<Rightarrow> Inr ls | Some r \<Rightarrow> Inr (fst (upsert_broker_order_links (e_deployment_id ev) now [r] ls)))"

text \<open>The broker's acknowledgement of a submission; \<open>isoformat()\<close> of a naive UTC time has no offset.\<close>

definition iso_naive :: "timestamp \<Rightarrow> string" where
  "iso_naive ts = take (length (iso_datetime ts) - 6) (iso_datetime ts)"

definition submit_ack_report :: "event \<Rightarrow> execution_report option res" where
  "submit_ack_report ev = (let pl = e_payload ev; rp = runtime_event_payload pl in
     rbind (first_stripped pl [''broker_type'']) (\<lambda>bt.
     rbind (first_stripped rp [''client_order_id'', ''order_remark'']) (\<lambda>coid.
     rbind (first_stripped rp [''order_sysid'', ''order_id'']) (\<lambda>boid.
     rbind (first_stripped rp [''account_id'']) (\<lambda>account.
     if bt = [] \<or> coid = [] \<or> boid = [] then Inr None
     else rbind (first_stripped rp [''stock_code'']) (\<lambda>symb.
       rbind (first_stripped rp [''side'', ''offset_flag'']) (\<lambda>side.
       rbind (first_str rp [''error_msg'', ''status_msg'']) (\<lambda>msg.
         Inr (Some \<lparr>xr_report_id = ''submit_ack:'' @ boid @ '':'' @ iso_naive (e_ts ev), xr_broker_type = bt,
           xr_as_of = e_ts ev, xr_client_order_id = coid, xr_broker_order_id = boid, xr_symbol = symb, xr_side = side,
           xr_status = ''reported'', xr_filled_shares = 0, xr_remaining_shares = 0, xr_avg_price = 0, xr_message = msg,
           xr_account_id = account\<rparr>)))))))))"

definition upsert_broker_submit_ack_link :: "timestamp \<Rightarrow> event \<Rightarrow> links \<Rightarrow> links res" where
  "upsert_broker_submit_ack_link now ev ls = rbind (submit_ack_report ev) (\<lambda>r. case r of
     None \<Rightarrow> Inr ls | Some r \<Rightarrow> Inr (fst (upsert_broker_order_links (e_deployment_id ev) now [r] ls)))"

section \<open>Cancellations\<close>

text \<open>Did a later runtime event report that the cancellation failed?  The rows come latest first.\<close>

definition cancel_failed_row :: "string \<Rightarrow> string \<Rightarrow> string \<Rightarrow> event \<Rightarrow> bool res" where
  "cancel_failed_row broker_type coid boid ev = (let pl = e_payload ev in
     rbind (first_str pl [''broker_type'']) (\<lambda>bt.
     if bt \<noteq> broker_type then Inr False
     else let rp = runtime_event_payload pl in
       rbind (first_str pl [''runtime_kind'']) (\<lambda>kind.
       rbind (first_str rp [''error_msg'', ''status_msg'']) (\<lambda>msg.
       rbind (if kind = ''cancel_error'' then Inr True
              else if kind \<noteq> ''cancel_order_stock_async_response'' then Inr False
              else rbind (cancel_result_failed (jget rp ''cancel_result'' JNull)) (\<lambda>b. Inr (b \<or> msg \<noteq> []))) (\<lambda>failed.
       if \<not> failed then Inr False
       else rbind (py_str (py_or (jget rp ''client_order_id'' (JStr [])) (py_or (jget rp ''order_remark'' (JStr []))
                 (JStr (e_client_order_id ev))))) (\<lambda>c.
         rbind (first_stripped rp [''order_sysid'', ''broker_order_id'', ''order_id'']) (\<lambda>b.
           Inr (coid \<noteq> [] \<and> str_strip c = coid \<or> boid \<noteq> [] \<and> b = boid))))))))"

fun later_cancel_failed :: "string \<Rightarrow> string \<Rightarrow> string \<Rightarrow> timestamp \<Rightarrow> event list \<Rightarrow> bool res" where
  "later_cancel_failed bt coid boid not_before [] = Inr False"
| "later_cancel_failed bt coid boid not_before (ev # evs) =
     (if e_ts ev < not_before then Inr False
      else rbind (cancel_failed_row bt coid boid ev) (\<lambda>b.
        if b then Inr True else later_cancel_failed bt coid boid not_before evs))"

definition runtime_rows :: "event list \<Rightarrow> string \<Rightarrow> event list" where
  "runtime_rows evs dep = rev (sort_key (\<lambda>e. (e_ts e, e_event_id e))
     (filter (\<lambda>e. e_deployment_id e = dep \<and> e_type e = BROKER_RUNTIME_RECORDED) evs))"

text \<open>The status a requested cancellation puts the order in.\<close>

definition pending_cancel :: "string \<Rightarrow> string" where
  "pending_cancel previous = (if previous \<in> {''partially_filled'', ''partially_filled_cancel_pending''}
     then ''partially_filled_cancel_pending'' else ''reported_cancel_pending'')"

definition upsert_broker_cancel_requested_link :: "event list \<Rightarrow> timestamp \<Rightarrow> event \<Rightarrow> links \<Rightarrow> links res" where
  "upsert_broker_cancel_requested_link evs now ev ls = (let pl = e_payload ev; coid = str_strip (e_client_order_id ev) in
     rbind (first_str pl [''broker_type'']) (\<lambda>bt.
     rbind (first_stripped pl [''broker_order_id'']) (\<lambda>boid.
     rbind (first_str pl [''symbol'']) (\<lambda>symb.
     rbind (first_stripped pl [''account_id'']) (\<lambda>account.
     if bt = [] \<or> coid = [] then Inr ls
     else let k = (e_deployment_id ev, bt, coid); before = map_of ls k;
              old = (case before of None \<Rightarrow> no_link | Some l \<Rightarrow> l); previous = normalize_status (bl_status old)
       in if previous \<in> set broker_terminal_statuses then Inr ls
          else rbind (later_cancel_failed bt coid (str_or boid (bl_broker_order_id old)) (e_ts ev)
                (runtime_rows evs (e_deployment_id ev))) (\<lambda>failed.
            let target = pending_cancel previous
            in if failed \<or> (before \<noteq> None \<and> broker_order_status_rank target < broker_order_status_rank previous)
               then Inr ls
               else Inr (put_link ls k now (str_or boid (bl_broker_order_id old)) (str_or symb (bl_symbol old))
                 (str_or account (bl_account_id old)) (bl_report_id old) target (bl_report_ts old))))))))"

text \<open>The row an acknowledgement is about: by client order id, or the only row with its broker order id.\<close>

definition acknowledged_link ::
  "links \<Rightarrow> string \<Rightarrow> string \<Rightarrow> string \<Rightarrow> string \<Rightarrow> string \<Rightarrow> (string \<times> link) option" where
  "acknowledged_link ls dep bt coid boid account =
     (if coid \<noteq> [] then map_option (Pair coid) (map_of ls (dep, bt, coid))
      else case list_links_by_broker_order_id ls dep bt boid account of
        [((d, b, c), l)] \<Rightarrow> Some (c, l) | _ \<Rightarrow> None)"

definition upsert_broker_cancel_ack_link :: "timestamp \<Rightarrow> event \<Rightarrow> links \<Rightarrow> links res" where
  "upsert_broker_cancel_ack_link now ev ls = (let pl = e_payload ev; rp = runtime_event_payload pl; dep = e_deployment_id ev in
     rbind (first_str pl [''broker_type'']) (\<lambda>bt.
     rbind (first_stripped rp [''client_order_id'', ''order_remark'']) (\<lambda>coid.
     rbind (first_stripped rp [''order_sysid'', ''broker_order_id'', ''order_id'']) (\<lambda>boid.
     rbind (first_stripped rp [''account_id'']) (\<lambda>account.
     if bt = [] \<or> (coid = [] \<and> boid = []) then Inr ls
     else case acknowledged_link ls dep bt coid boid account of
       None \<Rightarrow> if coid = [] then Inr ls
         else rbind (first_stripped rp [''stock_code'']) (\<lambda>symb.
           Inr (put_link ls (dep, bt, coid) now boid symb account [] ''reported_cancel_pending'' None))
     | Some (c, l) \<Rightarrow>
         (let previous = normalize_status (bl_status l); target = pending_cancel previous in
          if previous \<in> set broker_terminal_statuses \<or> broker_order_status_rank target < broker_order_status_rank previous
          then Inr ls
          else rbind (first_stripped rp [''stock_code'']) (\<lambda>symb.
            Inr (put_link ls (dep, bt, str_strip c) now (str_or boid (str_strip (bl_broker_order_id l)))
              (str_or symb (str_strip (bl_symbol l))) (str_or account (str_strip (bl_account_id l)))
              (str_strip (bl_report_id l)) target (bl_report_ts l)))))))))"

definition upsert_broker_cancel_failed_link :: "timestamp \<Rightarrow> event \<Rightarrow> links \<Rightarrow> links res" where
  "upsert_broker_cancel_failed_link now ev ls = (let pl = e_payload ev; rp = runtime_event_payload pl; dep = e_deployment_id ev in
     rbind (first_str pl [''broker_type'']) (\<lambda>bt.
     rbind (first_stripped rp [''client_order_id'', ''order_remark'']) (\<lambda>coid.
     rbind (first_stripped rp [''order_sysid'', ''broker_order_id'', ''order_id'']) (\<lambda>boid.
     rbind (first_stripped rp [''account_id'']) (\<lambda>account.
     if bt = [] \<or> (coid = [] \<and> boid = []) then Inr ls
     else case acknowledged_link ls dep bt coid boid account of
       None \<Rightarrow> Inr ls
     | Some (c, l) \<Rightarrow>
         (let previous = normalize_status (bl_status l) in
          if previous = ''reported_cancel_pending''
          then Inr (dset ls (dep, bt, c) (l\<lparr>bl_status := ''reported'', bl_updated_at := now\<rparr>))
          else if previous = ''partially_filled_cancel_pending''
          then Inr (dset ls (dep, bt, c) (l\<lparr>bl_status := ''partially_filled'', bl_updated_at := now\<rparr>))
          else Inr ls))))))"

end
