(* ===== verification/Deployment_Store.thy ===== *)
theory Deployment_Store
  imports Broker_Links Ledger
begin

text \<open>
  \<open>ez/live/deployment_store.py\<close>: the database of a live deployment.  A table is a dictionary over its primary
  key, the event table a list with unique ids.  A statement that the database refuses is \<open>DatabaseError\<close>;
  a transaction that fails leaves the store as it was.  Stored JSON is the value itself, a pickled strategy
  an uninterpreted text; clock readings are arguments.
\<close>

section \<open>Tables\<close>

record deployment_record =
  dr_spec_id :: string
  dr_name :: string
  dr_status :: string
  dr_stop_reason :: string
  dr_source_run_id :: "string option"
  dr_code_commit :: "string option"
  dr_gate_verdict :: "string option"
  dr_last_processed :: "date option"
  dr_errors :: int
  dr_created_at :: timestamp
  dr_approved_at :: "timestamp option"
  dr_started_at :: "timestamp option"
  dr_stopped_at :: "timestamp option"

record snapshot_row =
  sn_equity :: flt
  sn_cash :: flt
  sn_holdings :: json
  sn_weights :: json
  sn_prev_returns :: json
  sn_trades :: json
  sn_risk_events :: json
  sn_rebalanced :: bool
  sn_liquidation :: bool
  sn_execution_ms :: json
  sn_error :: json
  sn_strategy_state :: "string option"

record store =
  st_specs :: "(string, string) dict"
  st_records :: "(string, deployment_record) dict"
  st_snapshots :: "(string \<times> date, snapshot_row) dict"
  st_events :: "event list"
  st_links :: links
  st_cursors :: "(string \<times> string, payload \<times> timestamp) dict"
  st_projections :: "(string \<times> string, payload \<times> timestamp) dict"

definition empty_store :: store where
  "empty_store = \<lparr>st_specs = [], st_records = [], st_snapshots = [], st_events = [], st_links = [],
     st_cursors = [], st_projections = []\<rparr>"

text \<open>BEGIN, the statements, then COMMIT or ROLLBACK and raise.\<close>

definition transact :: "(store \<Rightarrow> (store \<times> 'a) res) \<Rightarrow> store \<Rightarrow> store \<times> 'a res" where
  "transact f s = (case f s of Inl e \<Rightarrow> (s, Inl e) | Inr (s', x) \<Rightarrow> (s', Inr x))"

definition update_row :: "string \<Rightarrow> (deployment_record \<Rightarrow> deployment_record) \<Rightarrow> store \<Rightarrow> store" where
  "update_row dep f s = (case map_of (st_records s) dep of None \<Rightarrow> s
     | Some r \<Rightarrow> s\<lparr>st_records := dset (st_records s) dep (f r)\<rparr>)"

section \<open>Specifications and records\<close>

definition save_spec :: "string \<Rightarrow> string \<Rightarrow> store \<Rightarrow> store" where
  "save_spec spec_id spec_json s =
     (if dhas (st_specs s) spec_id then s else s\<lparr>st_specs := dset (st_specs s) spec_id spec_json\<rparr>)"

definition get_spec :: "store \<Rightarrow> string \<Rightarrow> string option" where
  "get_spec s spec_id = map_of (st_specs s) spec_id"

definition save_record :: "string \<Rightarrow> deployment_record \<Rightarrow> store \<Rightarrow> store res" where
  "save_record dep r s =
     (if dhas (st_records s) dep then Inl DatabaseError
      else Inr (s\<lparr>st_records := dset (st_records s) dep (r\<lparr>dr_last_processed := None, dr_errors := 0\<rparr>)\<rparr>))"

definition get_record :: "store \<Rightarrow> string \<Rightarrow> deployment_record option" where
  "get_record s dep = map_of (st_records s) dep"

definition list_deployments :: "store \<Rightarrow> string option \<Rightarrow> (string \<times> deployment_record) list" where
  "list_deployments s status = sort_key (\<lambda>(d, r). - dr_created_at r)
     (filter (\<lambda>(d, r). case status of None \<Rightarrow> True | Some st \<Rightarrow> st = [] \<or> dr_status r = st) (st_records s))"

definition valid_statuses :: "string list" where
  "valid_statuses = [''pending'', ''approved'', ''running'', ''paused'', ''stopped'', ''error'']"

definition update_status :: "string \<Rightarrow> string \<Rightarrow> string \<Rightarrow> timestamp \<Rightarrow> store \<Rightarrow> store res" where
  "update_status dep status stop_reason now s =
     (if status \<notin> set valid_statuses then Inl ValueError
      else Inr (update_row dep (\<lambda>r.
        let r = r\<lparr>dr_status := status, dr_stop_reason := stop_reason\<rparr> in
        if status = ''approved'' then r\<lparr>dr_approved_at := Some now\<rparr>
        else if status = ''running'' then r\<lparr>dr_started_at := Some now\<rparr>
        else if status \<in> {''stopped'', ''paused'', ''error''} then r\<lparr>dr_stopped_at := Some now\<rparr>
        else r) s))"

definition update_gate_verdict :: "string \<Rightarrow> string \<Rightarrow> store \<Rightarrow> store" where
  "update_gate_verdict dep verdict_json = update_row dep (\<lambda>r. r\<lparr>dr_gate_verdict := Some verdict_json\<rparr>)"

section \<open>Events\<close>

definition runtime_event_is_cancel_failed :: "event \<Rightarrow> bool res" where
  "runtime_event_is_cancel_failed ev = (let pl = e_payload ev; rp = runtime_event_payload pl in
     if e_type ev \<noteq> BROKER_RUNTIME_RECORDED then Inr False
     else rbind (first_str pl [''runtime_kind'']) (\<lambda>kind.
       if kind = ''cancel_error'' then Inr True
       else if kind \<noteq> ''cancel_order_stock_async_response'' then Inr False
       else rbind (first_str rp [''error_msg'', ''status_msg'']) (\<lambda>msg.
         rbind (cancel_result_failed (jget rp ''cancel_result'' JNull)) (\<lambda>b. Inr (b \<or> msg \<noteq> [])))))"

definition runtime_event_is_cancel_submit_ack :: "event \<Rightarrow> bool res" where
  "runtime_event_is_cancel_submit_ack ev = (let pl = e_payload ev; rp = runtime_event_payload pl in
     if e_type ev \<noteq> BROKER_RUNTIME_RECORDED then Inr False
     else rbind (first_str pl [''runtime_kind'']) (\<lambda>kind.
       if kind \<noteq> ''cancel_order_stock_async_response'' then Inr False
       else rbind (first_str rp [''error_msg'', ''status_msg'']) (\<lambda>msg.
         rbind (cancel_result_failed (jget rp ''cancel_result'' JNull)) (\<lambda>b.
           if b \<or> msg \<noteq> [] then Inr False
           else rbind (first_stripped rp [''order_sysid'', ''broker_order_id'', ''order_id'']) (\<lambda>i. Inr (i \<noteq> []))))))"

definition runtime_event_is_order_submit_ack :: "event \<Rightarrow> bool res" where
  "runtime_event_is_order_submit_ack ev = (let pl = e_payload ev; rp = runtime_event_payload pl in
     if e_type ev \<noteq> BROKER_RUNTIME_RECORDED then Inr False
     else rbind (first_str pl [''runtime_kind'']) (\<lambda>kind.
       if kind \<noteq> ''order_stock_async_response'' then Inr False
       else rbind (first_stripped rp [''order_id'', ''order_sysid'']) (\<lambda>i. Inr (i \<noteq> []))))"

text \<open>The link update that an appended event triggers; \<open>evs\<close> is the event table with the event in it.\<close>

definition link_update :: "event list \<Rightarrow> timestamp \<Rightarrow> event \<Rightarrow> links \<Rightarrow> links res" where
  "link_update evs now ev ls =
     (if e_type ev = BROKER_EXECUTION_RECORDED then upsert_broker_execution_event_link now ev ls
      else rbind (runtime_event_is_order_submit_ack ev) (\<lambda>submit_ack.
        if submit_ack then upsert_broker_submit_ack_link now ev ls
        else rbind (runtime_event_is_cancel_submit_ack ev) (\<lambda>cancel_ack.
          if cancel_ack then upsert_broker_cancel_ack_link now ev ls
          else if e_type ev = BROKER_CANCEL_REQUESTED then upsert_broker_cancel_requested_link evs now ev ls
          else rbind (runtime_event_is_cancel_failed ev) (\<lambda>cancel_failed.
            if cancel_failed then upsert_broker_cancel_failed_link now ev ls else Inr ls))))"

definition append_one :: "timestamp \<Rightarrow> event \<Rightarrow> store \<times> nat \<Rightarrow> (store \<times> nat) res" where
  "append_one now ev acc = (case acc of (s, inserted) \<Rightarrow>
     (let known = (e_event_id ev \<in> set (map e_event_id (st_events s)));
          evs = (if known then st_events s else st_events s @ [ev])
      in rbind (link_update evs now ev (st_links s)) (\<lambda>ls.
        Inr (s\<lparr>st_events := evs, st_links := ls\<rparr>, if known then inserted else inserted + 1))))"

definition append_events_locked :: "timestamp \<Rightarrow> event list \<Rightarrow> store \<Rightarrow> (store \<times> nat) res" where
  "append_events_locked now evs s = rfold (append_one now) evs (s, 0)"

definition append_events :: "timestamp \<Rightarrow> event list \<Rightarrow> store \<Rightarrow> store \<times> nat res" where
  "append_events now evs s = (if evs = [] then (s, Inr 0) else transact (append_events_locked now evs) s)"

definition append_event :: "timestamp \<Rightarrow> event \<Rightarrow> store \<Rightarrow> store \<times> nat res" where
  "append_event now ev s = append_events now [ev] s"

definition events_asc :: "store \<Rightarrow> string \<Rightarrow> event list" where
  "events_asc s dep = sort_key (\<lambda>e. (e_ts e, e_event_id e)) (filter (\<lambda>e. e_deployment_id e = dep) (st_events s))"

definition get_events :: "store \<Rightarrow> string \<Rightarrow> event list" where
  "get_events s dep = events_asc s dep"

definition events_desc :: "store \<Rightarrow> string \<Rightarrow> event_type option \<Rightarrow> event list" where
  "events_desc s dep t = rev (filter (\<lambda>e. case t of None \<Rightarrow> True | Some t \<Rightarrow> e_type e = t) (events_asc s dep))"

definition first_row :: "'a list \<Rightarrow> 'a option" where
  "first_row xs = (case xs of [] \<Rightarrow> None | x # _ \<Rightarrow> Some x)"

definition get_latest_event :: "store \<Rightarrow> string \<Rightarrow> event_type \<Rightarrow> event option" where
  "get_latest_event s dep t = first_row (events_desc s dep (Some t))"

definition get_recent_events :: "store \<Rightarrow> string \<Rightarrow> event_type \<Rightarrow> int \<Rightarrow> event list" where
  "get_recent_events s dep t n = take (nat (max n 1)) (events_desc s dep (Some t))"

definition get_latest_event_ts :: "store \<Rightarrow> string \<Rightarrow> event_type option \<Rightarrow> timestamp option" where
  "get_latest_event_ts s dep t = map_option e_ts (first_row (events_desc s dep t))"

text \<open>The first row that satisfies a fallible test.\<close>

fun first_where :: "('a \<Rightarrow> bool res) \<Rightarrow> 'a list \<Rightarrow> 'a option res" where
  "first_where p [] = Inr None"
| "first_where p (x # xs) = rbind (p x) (\<lambda>b. if b then Inr (Some x) else first_where p xs)"

definition get_latest_runtime_event ::
  "store \<Rightarrow> string \<Rightarrow> string option \<Rightarrow> string option \<Rightarrow> string list \<Rightarrow> event option res" where
  "get_latest_runtime_event s dep kind pre kinds =
     first_where (\<lambda>e. rbind (first_str (e_payload e) [''runtime_kind'']) (\<lambda>k.
         Inr ((case kind of None \<Rightarrow> True | Some k' \<Rightarrow> k = k')
           \<and> (case pre of None \<Rightarrow> True | Some p \<Rightarrow> take (length p) k = p)
           \<and> (kinds = [] \<or> k \<in> set kinds))))
       (events_desc s dep (Some BROKER_RUNTIME_RECORDED))"

definition get_latest_risk_event :: "store \<Rightarrow> string \<Rightarrow> string \<Rightarrow> payload option" where
  "get_latest_risk_event s dep event_name =
     first_row (filter (\<lambda>d. map_of d ''event'' = Some (JStr event_name))
       (List.map_filter (\<lambda>e. as_dict (jget (e_payload e) ''risk_event'' JNull)) (events_desc s dep (Some RISK_RECORDED))))"

section \<open>Snapshots\<close>

text \<open>A value for a \<open>DOUBLE NOT NULL\<close> column.\<close>

fun double_column :: "json \<Rightarrow> flt res" where
  "double_column (JInt i) = Inr (of_int i)"
| "double_column (JFloat x) = Inr x"
| "double_column JNull = Inl DatabaseError"
| "double_column _ = Inl NotModelled"

definition write_snapshot_locked :: "string \<Rightarrow> date \<Rightarrow> payload \<Rightarrow> string option \<Rightarrow> store \<Rightarrow> store res" where
  "write_snapshot_locked dep d result strategy_state s =
     rbind (double_column (jget result ''equity'' (JFloat 0))) (\<lambda>equity.
     rbind (double_column (jget result ''cash'' (JFloat 0))) (\<lambda>csh.
       Inr (update_row dep (\<lambda>r. r\<lparr>dr_last_processed := Some d\<rparr>)
         (s\<lparr>st_snapshots := dset (st_snapshots s) (dep, d)
           \<lparr>sn_equity = equity, sn_cash = csh, sn_holdings = jget result ''holdings'' (JObj []),
            sn_weights = jget result ''weights'' (JObj []), sn_prev_returns = jget result ''prev_returns'' (JObj []),
            sn_trades = jget result ''trades'' (JList []), sn_risk_events = jget result ''risk_events'' (JList []),
            sn_rebalanced = truthy (jget result ''rebalanced'' (JBool False)),
            sn_liquidation = truthy (jget result ''liquidation'' (JBool False)),
            sn_execution_ms = jget result ''execution_ms'' JNull, sn_error = jget result ''error'' JNull,
            sn_strategy_state = strategy_state\<rparr>\<rparr>))))"

definition save_daily_snapshot :: "string \<Rightarrow> date \<Rightarrow> payload \<Rightarrow> string option \<Rightarrow> store \<Rightarrow> store \<times> unit res" where
  "save_daily_snapshot dep d result strategy_state =
     transact (\<lambda>s. rbind (write_snapshot_locked dep d result strategy_state s) (\<lambda>s. Inr (s, ())))"

definition upsert_reports :: "timestamp \<Rightarrow> string \<Rightarrow> execution_report list \<Rightarrow> store \<Rightarrow> store" where
  "upsert_reports now dep reports s = s\<lparr>st_links := fst (upsert_broker_order_links dep now reports (st_links s))\<rparr>"

definition save_snapshot_with_events ::
  "timestamp \<Rightarrow> string \<Rightarrow> date \<Rightarrow> payload \<Rightarrow> event list \<Rightarrow> execution_report list \<Rightarrow> string option \<Rightarrow> store \<Rightarrow> store \<times> unit res" where
  "save_snapshot_with_events now dep d result evs reports strategy_state =
     transact (\<lambda>s. rbind (append_events_locked now evs s) (\<lambda>(s, n).
       rbind (write_snapshot_locked dep d result strategy_state (upsert_reports now dep reports s)) (\<lambda>s. Inr (s, ()))))"

definition save_broker_sync_result :: "timestamp \<Rightarrow> string \<Rightarrow> event list \<Rightarrow> execution_report list \<Rightarrow> store \<Rightarrow> store \<times> unit res" where
  "save_broker_sync_result now dep evs reports s =
     (if evs = [] \<and> reports = [] then (s, Inr ())
      else transact (\<lambda>s. rbind (append_events_locked now evs s) (\<lambda>(s, n). Inr (upsert_reports now dep reports s, ()))) s)"

definition date_key :: "date \<Rightarrow> nat \<times> nat \<times> nat" where
  "date_key d = (year d, month d, day d)"

definition snapshots_asc :: "store \<Rightarrow> string \<Rightarrow> (date \<times> snapshot_row) list" where
  "snapshots_asc s dep = sort_key (\<lambda>(d, r). date_key d)
     (map (\<lambda>((i, d), r). (d, r)) (filter (\<lambda>((i, d), r). i = dep) (st_snapshots s)))"

definition get_latest_snapshot :: "store \<Rightarrow> string \<Rightarrow> (date \<times> snapshot_row) option" where
  "get_latest_snapshot s dep = first_row (rev (snapshots_asc s dep))"

definition get_all_snapshots :: "store \<Rightarrow> string \<Rightarrow> (date \<times> snapshot_row) list" where
  "get_all_snapshots s dep = snapshots_asc s dep"

definition get_latest_strategy_state :: "store \<Rightarrow> string \<Rightarrow> string option" where
  "get_latest_strategy_state s dep = (case get_latest_snapshot s dep of None \<Rightarrow> None | Some (d, r) \<Rightarrow> sn_strategy_state r)"

definition get_last_processed_date :: "store \<Rightarrow> string \<Rightarrow> date option" where
  "get_last_processed_date s dep = (case map_of (st_records s) dep of None \<Rightarrow> None | Some r \<Rightarrow> dr_last_processed r)"

section \<open>Errors, cursors and projections\<close>

definition save_error :: "string \<Rightarrow> date \<Rightarrow> string \<Rightarrow> store \<Rightarrow> store" where
  "save_error dep d err s =
     (let s1 = (case map_of (st_snapshots s) (dep, d) of None \<Rightarrow> s
          | Some r \<Rightarrow> s\<lparr>st_snapshots := dset (st_snapshots s) (dep, d) (r\<lparr>sn_error := JStr err\<rparr>)\<rparr>)
      in update_row dep (\<lambda>r. r\<lparr>dr_last_processed := Some d\<rparr>) s1)"

definition get_error_count :: "store \<Rightarrow> string \<Rightarrow> int" where
  "get_error_count s dep = (case map_of (st_records s) dep of None \<Rightarrow> 0 | Some r \<Rightarrow> dr_errors r)"

definition increment_error_count :: "string \<Rightarrow> store \<Rightarrow> store \<times> int" where
  "increment_error_count dep s =
     (let s1 = update_row dep (\<lambda>r. r\<lparr>dr_errors := dr_errors r + 1\<rparr>) s in (s1, get_error_count s1 dep))"

definition reset_error_count :: "string \<Rightarrow> store \<Rightarrow> store" where
  "reset_error_count dep = update_row dep (\<lambda>r. r\<lparr>dr_errors := 0\<rparr>)"

definition get_broker_sync_cursor :: "store \<Rightarrow> string \<Rightarrow> string \<Rightarrow> payload option" where
  "get_broker_sync_cursor s dep bt = map_option fst (map_of (st_cursors s) (dep, bt))"

definition upsert_broker_sync_cursor :: "timestamp \<Rightarrow> string \<Rightarrow> string \<Rightarrow> payload option \<Rightarrow> store \<Rightarrow> store" where
  "upsert_broker_sync_cursor now dep bt cursor_state s = (case cursor_state of None \<Rightarrow> s
     | Some c \<Rightarrow> s\<lparr>st_cursors := dset (st_cursors s) (dep, bt) (c, now)\<rparr>)"

definition get_broker_state_projection :: "store \<Rightarrow> string \<Rightarrow> string option \<Rightarrow> payload option" where
  "get_broker_state_projection s dep bt =
     (if bt \<noteq> None \<and> bt \<noteq> Some [] then map_option fst (map_of (st_projections s) (dep, the bt))
      else map_option (\<lambda>(k, p). fst p) (first_row (sort_key (\<lambda>((d, b), p, t). (- t, b))
        (filter (\<lambda>((d, b), p). d = dep) (st_projections s)))))"

definition upsert_broker_state_projection :: "timestamp \<Rightarrow> string \<Rightarrow> string \<Rightarrow> payload option \<Rightarrow> store \<Rightarrow> store" where
  "upsert_broker_state_projection now dep bt projection s = (case projection of None \<Rightarrow> s
     | Some p \<Rightarrow> if bt = [] then s else s\<lparr>st_projections := dset (st_projections s) (dep, bt) (p, now)\<rparr>)"

end
