(* ===== verification/Deployment_Log.thy ===== *)
theory Deployment_Log
  imports Deployment_Store
begin

text \<open>
  The event log in the database.  A batch of events is committed as a whole or not at all, redelivered events
  are ignored, and the account replayed from the stored log is the account of the committed events.
\<close>

section \<open>Committed batches\<close>

text \<open>A sequence of calls of \<open>append_events\<close>, and the events of the calls that returned.\<close>

fun run_batches :: "(timestamp \<times> event list) list \<Rightarrow> store \<Rightarrow> store \<times> event list" where
  "run_batches [] s = (s, [])"
| "run_batches ((now, evs) # bs) s =
     (let (s1, r) = append_events now evs s; (s2, kept) = run_batches bs s1
      in (s2, case r of Inl _ \<Rightarrow> kept | Inr _ \<Rightarrow> evs @ kept))"

lemma append_one_events:
  assumes "append_one now ev (s, n) = Inr (s', n')"
  shows "st_events s' = (if e_event_id ev \<in> set (map e_event_id (st_events s)) then st_events s else st_events s @ [ev])"
  using assms by (auto simp: append_one_def Let_def)

lemma append_locked_events:
  assumes "append_events_locked now evs s = Inr (s', n)" and "inj_on e_event_id (set (st_events s) \<union> set evs)"
  shows "set (st_events s') = set (st_events s) \<union> set evs"
proof -
  have "rfold (append_one now) evs (s, k) = Inr (s', n) \<Longrightarrow> inj_on e_event_id (set (st_events s) \<union> set evs) \<Longrightarrow>
      set (st_events s') = set (st_events s) \<union> set evs" for k
  proof (induction evs arbitrary: s k)
    case (Cons ev evs)
    obtain s1 k1 where one: "append_one now ev (s, k) = Inr (s1, k1)" and rest: "rfold (append_one now) evs (s1, k1) = Inr (s', n)"
      using Cons.prems(1) by auto
    have known: "ev \<in> set (st_events s)" if "e_event_id ev \<in> set (map e_event_id (st_events s))"
    proof -
      have "e_event_id ev \<in> e_event_id ` set (st_events s)" using that unfolding set_map .
      then obtain e where e: "e_event_id ev = e_event_id e" "e \<in> set (st_events s)" by (rule imageE)
      have "ev = e" by (rule inj_onD [OF Cons.prems(2) e(1)]) (use e(2) in auto)
      then show ?thesis using e(2) by simp
    qed
    have ev1: "set (st_events s1) = insert ev (set (st_events s))"
      unfolding append_one_events [OF one] using known by (simp split: if_split) blast
    have "inj_on e_event_id (set (st_events s1) \<union> set evs)" using Cons.prems(2) by (simp add: ev1)
    from Cons.IH [OF rest this] show ?case by (simp add: ev1)
  qed simp
  then show ?thesis using assms by (simp add: append_events_locked_def)
qed

lemma append_events_cases:
  assumes "append_events now evs s = (s', r)"
  obtains (failed) e where "r = Inl e" "s' = s"
  | (committed) n where "r = Inr n" "evs = [] \<and> s' = s \<or> append_events_locked now evs s = Inr (s', n)"
proof (cases "evs = []")
  case True
  then have "s' = s" "r = Inr 0" using assms by (simp_all add: append_events_def)
  then show thesis using True by (intro committed) simp_all
next
  case False
  show thesis
  proof (cases "append_events_locked now evs s")
    case (Inl e)
    then have "s' = s" "r = Inl e" using assms False by (simp_all add: append_events_def transact_def)
    then show thesis by (intro failed)
  next
    case (Inr p)
    obtain s1 n where p: "p = (s1, n)" by (cases p)
    have "s1 = s'" "r = Inr n" using assms False Inr by (simp_all add: append_events_def transact_def p)
    then show thesis using Inr committed [of n] by (simp add: p)
  qed
qed

lemma run_batches_events:
  assumes "run_batches bs s = (s', kept)" and "inj_on e_event_id (set (st_events s) \<union> set (concat (map snd bs)))"
  shows "set (st_events s') = set (st_events s) \<union> set kept \<and> set kept \<subseteq> set (concat (map snd bs))"
  using assms
proof (induction bs arbitrary: s kept)
  case (Cons b bs)
  obtain now evs where b: "b = (now, evs)" by (cases b)
  obtain s1 r where one: "append_events now evs s = (s1, r)" by (cases "append_events now evs s")
  obtain kept1 where rest: "run_batches bs s1 = (s', kept1)" and kept: "kept = (case r of Inl _ \<Rightarrow> kept1 | Inr _ \<Rightarrow> evs @ kept1)"
    using Cons.prems(1) one by (auto simp: b Let_def split: prod.splits)
  show ?case
  proof (cases rule: append_events_cases [OF one])
    case (1 e)
    have "inj_on e_event_id (set (st_events s1) \<union> set (concat (map snd bs)))"
      by (rule inj_on_subset [OF Cons.prems(2)]) (auto simp: 1)
    from Cons.IH [OF rest this] show ?thesis using 1 kept by (auto simp: b)
  next
    case (2 n)
    have "inj_on e_event_id (set (st_events s) \<union> set evs)"
      by (rule inj_on_subset [OF Cons.prems(2)]) (auto simp: b)
    then have s1: "set (st_events s1) = set (st_events s) \<union> set evs"
      using 2(2) append_locked_events by auto
    have "inj_on e_event_id (set (st_events s1) \<union> set (concat (map snd bs)))"
      by (rule inj_on_subset [OF Cons.prems(2)]) (auto simp: b s1)
    from Cons.IH [OF rest this] show ?thesis using 2(1) kept s1 by (auto simp: b)
  qed
qed simp

text \<open>C23: The stored log determines the account.  Whatever batches of events are appended, with whatever
  redeliveries, interleaved deployments and failing batches: replaying what the store returns for a deployment
  gives the same account as replaying, in delivery order, the events of the batches that returned, when every
  event has an id of its own.\<close>

theorem store_log_replay:
  assumes "run_batches bs empty_store = (s, kept)"
    and "inj_on e_event_id (set (concat (map snd bs)))" and "\<forall>e \<in> set (concat (map snd bs)). e_event_id e \<noteq> []"
  shows "replay (get_events s d) c h = replay (filter (\<lambda>e. e_deployment_id e = d) kept) c h"
proof -
  have "set (st_events s) = set kept \<and> set kept \<subseteq> set (concat (map snd bs))"
    using run_batches_events [OF assms(1)] assms(2) by (simp add: empty_store_def)
  then have "set (get_events s d) = set (filter (\<lambda>e. e_deployment_id e = d) kept)"
    and sub: "set (get_events s d) \<subseteq> set (concat (map snd bs))"
    by (auto simp: get_events_def events_asc_def)
  then show ?thesis
    using assms(2,3) by (intro replay_same_set) (blast intro: inj_on_subset)+
qed

definition bad_report :: event where
  "bad_report = (report_event_sample ''r'' 3 ''filled'' 1 0)
     \<lparr>e_payload := [(''broker_type'', JStr ''qmt''), (''report_id'', JStr ''r''), (''filled_shares'', JStr ''many'')]\<rparr>"

definition sample_batches :: "(timestamp \<times> event list) list" where
  "sample_batches = [(1, [fill_event_sample ''b'' 2 ''sell'' 100]),
     (2, [fill_event_sample ''c'' 3 ''sell'' 50, bad_report]),
     (3, [fill_event_sample ''a'' 1 ''buy'' 300, fill_event_sample ''b'' 2 ''sell'' 100])]"

theorem store_log_replay_witness:
  "let (s, kept) = run_batches sample_batches empty_store in
     map e_event_id kept = [''b'', ''a'', ''b''] \<and> map e_event_id (get_events s ''d'') = [''a'', ''b'']
     \<and> replay (get_events s ''d'') 5000 [] = replay (filter (\<lambda>e. e_deployment_id e = ''d'') kept) 5000 []"
proof -
  obtain s kept where r: "run_batches sample_batches empty_store = (s, kept)" by (cases "run_batches sample_batches empty_store")
  have "map_prod (\<lambda>s. map e_event_id (get_events s ''d'')) (map e_event_id) (run_batches sample_batches empty_store)
      = ([''a'', ''b''], [''b'', ''a'', ''b''])" by code_simp
  then have v: "map e_event_id (get_events s ''d'') = [''a'', ''b'']" "map e_event_id kept = [''b'', ''a'', ''b'']"
    unfolding r by simp_all
  have "map e_event_id (concat (map snd sample_batches)) = [''b'', ''c'', ''r'', ''a'', ''b'']" by code_simp
  have "inj_on e_event_id (set (concat (map snd sample_batches)))" "\<forall>e \<in> set (concat (map snd sample_batches)). e_event_id e \<noteq> []"
    by (auto simp: sample_batches_def bad_report_def report_event_sample_def fill_event_sample_def inj_on_def)
  from store_log_replay [OF r this, of "''d''" 5000 "[]"] v show ?thesis unfolding r by simp
qed

end
