(* ===== verification/Link_Lifecycle.thy ===== *)
theory Link_Lifecycle
  imports Deployment_Log
begin

text \<open>
  The life of a broker order link.  Appending events never reopens an order that is over, and keeps the
  tables of the store well-formed; at equal rank, however, one final status may replace another.
\<close>

section \<open>Final statuses\<close>

definition link_final :: "link \<Rightarrow> bool" where
  "link_final l \<longleftrightarrow> normalize_status (bl_status l) \<in> set broker_terminal_statuses"

text \<open>Every client order id in the table is stripped; an update of links keeps what is final.\<close>

definition links_ok :: "links \<Rightarrow> bool" where
  "links_ok ls \<longleftrightarrow> dict_ok ls \<and> (\<forall>((d, b, c), l) \<in> set ls. str_strip c = c)"

definition keeps_final :: "links \<Rightarrow> links \<Rightarrow> bool" where
  "keeps_final ls ls' \<longleftrightarrow> (\<forall>k l. map_of ls k = Some l \<and> link_final l \<longrightarrow>
     (\<exists>l'. map_of ls' k = Some l' \<and> link_final l' \<and> bl_created_at l' = bl_created_at l))"

lemma keeps_refl [simp]: "keeps_final ls ls"
  by (auto simp: keeps_final_def)

lemma keeps_trans: "keeps_final a b \<Longrightarrow> keeps_final b c \<Longrightarrow> keeps_final a c"
  unfolding keeps_final_def by metis

lemma final_rank: "normalize_status s \<in> set broker_terminal_statuses \<longleftrightarrow> broker_order_status_rank s = 30"
  by (simp add: broker_order_status_rank_def table_rank_terminal)

lemma put_link_keeps:
  assumes "\<And>l. map_of ls k = Some l \<Longrightarrow> link_final l \<Longrightarrow> broker_order_status_rank status = 30"
  shows "keeps_final ls (put_link ls k now boid symb account rid status ts)"
  unfolding keeps_final_def put_link_def link_created_def
  using assms by (auto simp: link_final_def final_rank)

lemma rank_normalize [simp]: "broker_order_status_rank (normalize_status s) = broker_order_status_rank s"
  by (simp add: broker_order_status_rank_def normalize_idem_aux)

lemma rank_le: "broker_order_status_rank s \<le> 30"
  by (simp add: broker_order_status_rank_def table_rank_le)

lemma pending_cancel_ranks:
  "broker_order_status_rank (pending_cancel s) < 30"
  by (simp add: pending_cancel_def broker_order_status_rank_def) code_simp

lemma dset_entry: "p \<in> set (dset d k v) \<Longrightarrow> p = (k, v) \<or> p \<in> set d"
  by (induction d) (auto split: if_splits)

lemma put_link_ok:
  "links_ok ls \<Longrightarrow> str_strip c = c \<Longrightarrow> links_ok (put_link ls (d, b, c) now boid symb account rid status ts)"
  unfolding links_ok_def put_link_def by (blast dest: dset_entry intro: dict_ok_dset)

lemma upsert_report_ok:
  assumes "links_ok ls" and "str_strip (xr_client_order_id r) = xr_client_order_id r"
  shows "links_ok (fst (upsert_report dep now r (ls, n))) \<and> keeps_final ls (fst (upsert_report dep now r (ls, n)))"
proof (cases "xr_client_order_id r = []")
  case True
  then show ?thesis using assms by (simp add: upsert_report_def)
next
  case False
  define k where "k = (dep, xr_broker_type r, xr_client_order_id r)"
  define old where "old = (case map_of ls k of None \<Rightarrow> no_link | Some l \<Rightarrow> l)"
  define previous where "previous = normalize_status (bl_status old)"
  define incoming where "incoming = incoming_status previous r"
  define adv where "adv = should_advance_link (map_of ls k) previous incoming (xr_as_of r)"
  define preserve where "preserve \<longleftrightarrow> previous = ''reported_cancel_pending'' \<and> incoming = ''reported''"
  define status where "status = (if adv \<and> \<not> preserve then incoming else previous)"
  obtain boid symb account rid ts where u: "fst (upsert_report dep now r (ls, n)) = put_link ls k now boid symb account rid status ts"
    using False unfolding upsert_report_def Let_def prod.case k_def [symmetric] old_def [symmetric] previous_def [symmetric]
      incoming_def [symmetric] adv_def [symmetric] preserve_def [symmetric] status_def [symmetric]
    by simp
  have "keeps_final ls (put_link ls k now boid symb account rid status ts)"
  proof (rule put_link_keeps)
    fix l assume l: "map_of ls k = Some l" "link_final l"
    have prev: "broker_order_status_rank previous = 30"
      using l by (simp add: previous_def old_def link_final_def final_rank)
    have np: "previous \<noteq> ''reported_cancel_pending''"
    proof
      assume "previous = ''reported_cancel_pending''"
      moreover have "broker_order_status_rank ''reported_cancel_pending'' < 30" by code_simp
      ultimately show False using prev by simp
    qed
    show "broker_order_status_rank status = 30"
    proof (cases "adv \<and> \<not> preserve")
      case True
      then have "30 \<le> broker_order_status_rank incoming"
        using l np prev by (auto simp: adv_def should_advance_link_def split: option.splits)
      then show ?thesis using True rank_le [of incoming] by (simp add: status_def)
    next
      case False
      show ?thesis unfolding status_def if_not_P [OF False] by (rule prev)
    qed
  qed
  moreover have "links_ok (put_link ls k now boid symb account rid status ts)"
    unfolding k_def using assms by (rule put_link_ok)
  ultimately show ?thesis by (simp add: u)
qed

section \<open>The updates an event triggers\<close>

definition links_step :: "links \<Rightarrow> links \<Rightarrow> bool" where
  "links_step ls ls' \<longleftrightarrow> links_ok ls' \<and> keeps_final ls ls'"

lemma step_refl: "links_ok ls \<Longrightarrow> links_step ls ls"
  by (simp add: links_step_def)

lemma one_report_ok:
  "links_ok ls \<Longrightarrow> str_strip (xr_client_order_id r) = xr_client_order_id r \<Longrightarrow>
    links_step ls (fst (upsert_broker_order_links dep now [r] ls))"
  by (simp add: links_step_def upsert_broker_order_links_def upsert_report_ok)

lemma first_stripped_strip: "first_stripped d ks = Inr s \<Longrightarrow> str_strip s = s"
  by (auto simp: first_stripped_def)

lemma report_of_event_strip: "report_of_event ev = Inr (Some r) \<Longrightarrow> str_strip (xr_client_order_id r) = xr_client_order_id r"
  by (auto simp: report_of_event_def Let_def split: if_splits)

lemma submit_ack_report_strip: "submit_ack_report ev = Inr (Some r) \<Longrightarrow> str_strip (xr_client_order_id r) = xr_client_order_id r"
  by (auto simp: submit_ack_report_def Let_def first_stripped_strip split: if_splits)

lemma execution_event_ok:
  "upsert_broker_execution_event_link now ev ls = Inr ls' \<Longrightarrow> links_ok ls \<Longrightarrow> links_step ls ls'"
  by (auto simp: upsert_broker_execution_event_link_def split: option.split_asm intro: step_refl one_report_ok report_of_event_strip)

lemma submit_ack_ok:
  "upsert_broker_submit_ack_link now ev ls = Inr ls' \<Longrightarrow> links_ok ls \<Longrightarrow> links_step ls ls'"
  by (auto simp: upsert_broker_submit_ack_link_def split: option.split_asm intro: step_refl one_report_ok submit_ack_report_strip)

lemma put_link_step:
  assumes "links_ok ls" "str_strip c = c"
    and "\<And>l. map_of ls (d, b, c) = Some l \<Longrightarrow> \<not> link_final l"
  shows "links_step ls (put_link ls (d, b, c) now boid symb account rid status ts)"
  unfolding links_step_def by (intro conjI put_link_ok put_link_keeps) (use assms in auto)

lemma cancel_requested_ok:
  assumes "upsert_broker_cancel_requested_link evs now ev ls = Inr ls'" "links_ok ls"
  shows "links_step ls ls'"
  using assms
  by (auto simp: upsert_broker_cancel_requested_link_def Let_def link_final_def
      split: if_splits option.splits intro!: step_refl put_link_step)

lemma acknowledged_link_found:
  assumes "acknowledged_link ls dep bt coid boid account = Some (c, l)" "links_ok ls" "str_strip coid = coid"
  shows "map_of ls (dep, bt, c) = Some l \<and> str_strip c = c"
proof (cases "coid = []")
  case False
  then show ?thesis using assms by (auto simp: acknowledged_link_def)
next
  case True
  then obtain d b where "list_links_by_broker_order_id ls dep bt boid account = [((d, b, c), l)]"
    using assms(1) by (auto simp: acknowledged_link_def split: list.splits prod.splits)
  then have "((d, b, c), l) \<in> set (list_links_by_broker_order_id ls dep bt boid account)" by simp
  then have "((dep, bt, c), l) \<in> set ls"
    by (auto simp: list_links_by_broker_order_id_def link_matches_def Let_def)
  then show ?thesis using assms(2) by (auto simp: links_ok_def dict_ok_map_of_iff)
qed

lemma acknowledged_link_none:
  "acknowledged_link ls dep bt coid boid account = None \<Longrightarrow> coid \<noteq> [] \<Longrightarrow> map_of ls (dep, bt, coid) = None"
  by (simp add: acknowledged_link_def)

lemma ack_put_step:
  assumes "acknowledged_link ls dep bt coid boid account = Some (c, l)" "links_ok ls" "first_stripped rp ks = Inr coid"
    and "normalize_status (bl_status l) \<notin> set broker_terminal_statuses"
  shows "links_step ls (put_link ls (dep, bt, str_strip c) now bo sy ac rid status ts)"
  using acknowledged_link_found [OF assms(1,2) first_stripped_strip [OF assms(3)]] assms(2,4)
  by (intro put_link_step) (auto simp: link_final_def)

lemma ack_new_step:
  assumes "acknowledged_link ls dep bt coid boid account = None" "coid \<noteq> []" "links_ok ls" "first_stripped rp ks = Inr coid"
  shows "links_step ls (put_link ls (dep, bt, coid) now bo sy ac rid status ts)"
  using assms by (intro put_link_step) (auto simp: first_stripped_strip dest: acknowledged_link_none)

lemma cancel_ack_ok:
  assumes "upsert_broker_cancel_ack_link now ev ls = Inr ls'" "links_ok ls"
  shows "links_step ls ls'"
  using assms
  by (auto simp: upsert_broker_cancel_ack_link_def Let_def
      split: if_split_asm option.split_asm intro: step_refl ack_put_step ack_new_step)

lemma update_status_step:
  assumes "links_ok ls" "map_of ls (d, b, c) = Some l" "str_strip c = c" "\<not> link_final l"
  shows "links_step ls (dset ls (d, b, c) l')"
  using assms unfolding links_step_def links_ok_def keeps_final_def
  by (auto dest: dset_entry)

lemma cancel_failed_ok:
  assumes "upsert_broker_cancel_failed_link now ev ls = Inr ls'" "links_ok ls"
  shows "links_step ls ls'"
proof -
  have nf: "\<not> link_final l" if "normalize_status (bl_status l) \<in> {''reported_cancel_pending'', ''partially_filled_cancel_pending''}" for l
    using that by (auto simp: link_final_def broker_terminal_statuses_def)
  show ?thesis using assms
    by (auto simp: upsert_broker_cancel_failed_link_def Let_def split: if_split_asm option.split_asm
        intro!: step_refl nf elim!: update_status_step
        dest: acknowledged_link_found [OF _ _ first_stripped_strip])
qed

lemma link_update_ok:
  assumes "link_update evs now ev ls = Inr ls'" "links_ok ls"
  shows "links_step ls ls'"
  using assms
  by (auto simp: link_update_def split: if_split_asm intro: step_refl execution_event_ok submit_ack_ok
      cancel_ack_ok cancel_requested_ok cancel_failed_ok)

lemma append_locked_links:
  assumes "append_events_locked now evs s = Inr (s', n)" and "links_ok (st_links s)"
  shows "links_step (st_links s) (st_links s')"
proof -
  have "rfold (append_one now) evs (s, k) = Inr (s', n) \<Longrightarrow> links_ok (st_links s) \<Longrightarrow> links_step (st_links s) (st_links s')" for k
  proof (induction evs arbitrary: s k)
    case Nil
    then show ?case by (simp add: step_refl)
  next
    case (Cons ev evs)
    obtain s1 k1 where one: "append_one now ev (s, k) = Inr (s1, k1)" and rest: "rfold (append_one now) evs (s1, k1) = Inr (s', n)"
      using Cons.prems(1) by auto
    have "links_step (st_links s) (st_links s1)"
      using one Cons.prems(2) by (auto simp: append_one_def Let_def intro: link_update_ok)
    then show ?case using Cons.IH [OF rest] keeps_trans unfolding links_step_def by blast
  qed
  then show ?thesis using assms by (simp add: append_events_locked_def)
qed

section \<open>The store over time\<close>

text \<open>One call of a writing operation of the store.\<close>

inductive store_step :: "store \<Rightarrow> store \<Rightarrow> bool" where
  spec: "store_step s (save_spec i j s)"
| new_record: "save_record d r s = Inr s' \<Longrightarrow> store_step s s'"
| status: "update_status d st reason now s = Inr s' \<Longrightarrow> store_step s s'"
| verdict: "store_step s (update_gate_verdict d v s)"
| events: "store_step s (fst (append_events now evs s))"
| snapshot: "store_step s (fst (save_daily_snapshot d dt result state s))"
| snapshot_events: "\<forall>r \<in> set reports. str_strip (xr_client_order_id r) = xr_client_order_id r \<Longrightarrow>
    store_step s (fst (save_snapshot_with_events now d dt result evs reports state s))"
| broker_sync: "\<forall>r \<in> set reports. str_strip (xr_client_order_id r) = xr_client_order_id r \<Longrightarrow>
    store_step s (fst (save_broker_sync_result now d evs reports s))"
| error: "store_step s (save_error d dt err s)"
| count: "store_step s (fst (increment_error_count d s))"
| reset: "store_step s (reset_error_count d s)"
| cursor: "store_step s (upsert_broker_sync_cursor now d bt cursor s)"
| projection: "store_step s (upsert_broker_state_projection now d bt proj s)"

text \<open>Well-formed tables: primary keys and event ids are unique, no error count is negative, links are kept under
  stripped client order ids.\<close>

definition store_ok :: "store \<Rightarrow> bool" where
  "store_ok s \<longleftrightarrow> dict_ok (st_specs s) \<and> dict_ok (st_records s) \<and> dict_ok (st_snapshots s)
     \<and> distinct (map e_event_id (st_events s)) \<and> links_ok (st_links s)
     \<and> dict_ok (st_cursors s) \<and> dict_ok (st_projections s) \<and> (\<forall>(d, r) \<in> set (st_records s). 0 \<le> dr_errors r)"

text \<open>What no operation takes back: a stored specification and its text, an event of the log and its place, a
  deployment record with its specification, the end of an order.\<close>

definition store_grows :: "store \<Rightarrow> store \<Rightarrow> bool" where
  "store_grows s s' \<longleftrightarrow> map_of (st_specs s) \<subseteq>\<^sub>m map_of (st_specs s')
     \<and> (\<exists>new. st_events s' = st_events s @ new) \<and> keeps_final (st_links s) (st_links s')
     \<and> (\<forall>d r. map_of (st_records s) d = Some r \<longrightarrow>
          (\<exists>r'. map_of (st_records s') d = Some r' \<and> dr_spec_id r' = dr_spec_id r \<and> dr_created_at r' = dr_created_at r))"

lemma store_grows_refl [simp]: "store_grows s s"
  by (auto simp: store_grows_def)

lemma store_grows_trans:
  assumes "store_grows a b" "store_grows b c"
  shows "store_grows a c"
proof -
  have "map_of (st_specs a) \<subseteq>\<^sub>m map_of (st_specs c)" using assms by (auto simp: store_grows_def intro: map_le_trans)
  moreover have "\<exists>new. st_events c = st_events a @ new" using assms by (auto simp: store_grows_def)
  moreover have "keeps_final (st_links a) (st_links c)" using assms keeps_trans by (auto simp: store_grows_def)
  moreover have "\<forall>d r. map_of (st_records a) d = Some r \<longrightarrow>
      (\<exists>r'. map_of (st_records c) d = Some r' \<and> dr_spec_id r' = dr_spec_id r \<and> dr_created_at r' = dr_created_at r)"
    using assms unfolding store_grows_def by metis
  ultimately show ?thesis by (simp add: store_grows_def)
qed

lemma records_dset_nonneg:
  "\<forall>(d, r) \<in> set rs. 0 \<le> dr_errors r \<Longrightarrow> 0 \<le> dr_errors r' \<Longrightarrow> \<forall>(d, r) \<in> set (dset rs d' r'). 0 \<le> dr_errors r"
  by (blast dest: dset_entry)

definition good_step :: "store \<Rightarrow> store \<Rightarrow> bool" where
  "good_step s s' \<longleftrightarrow> store_ok s' \<and> store_grows s s'"

lemma good_step_refl: "store_ok s \<Longrightarrow> good_step s s"
  by (simp add: good_step_def)

lemma good_step_trans: "good_step a b \<Longrightarrow> good_step b c \<Longrightarrow> good_step a c"
  unfolding good_step_def using store_grows_trans by blast

lemma update_row_good:
  assumes "store_ok s"
    and "\<And>r. 0 \<le> dr_errors r \<Longrightarrow> 0 \<le> dr_errors (f r)" "\<And>r. dr_spec_id (f r) = dr_spec_id r" "\<And>r. dr_created_at (f r) = dr_created_at r"
  shows "good_step s (update_row d f s)"
proof (cases "map_of (st_records s) d")
  case None
  then show ?thesis using assms(1) by (simp add: update_row_def good_step_refl)
next
  case (Some r)
  have "(d, r) \<in> set (st_records s)" using Some by (rule map_of_SomeD)
  then have "0 \<le> dr_errors (f r)" using assms(1,2) by (auto simp: store_ok_def)
  then have "store_ok (s\<lparr>st_records := dset (st_records s) d (f r)\<rparr>)"
    using assms(1) records_dset_nonneg [of "st_records s" "f r" d] by (simp add: store_ok_def)
  moreover have "store_grows s (s\<lparr>st_records := dset (st_records s) d (f r)\<rparr>)"
    using Some assms(3,4) by (simp add: store_grows_def keeps_final_def)
  ultimately show ?thesis using Some by (simp add: update_row_def good_step_def)
qed

lemma append_locked_good:
  assumes "append_events_locked now evs s = Inr (s', n)" "store_ok s"
  shows "good_step s s'"
proof -
  have "rfold (append_one now) evs (s, k) = Inr (s', n) \<Longrightarrow> store_ok s \<Longrightarrow> good_step s s'" for k
  proof (induction evs arbitrary: s k)
    case Nil
    then show ?case by (simp add: good_step_refl)
  next
    case (Cons ev evs)
    obtain s1 k1 where one: "append_one now ev (s, k) = Inr (s1, k1)" and rest: "rfold (append_one now) evs (s1, k1) = Inr (s', n)"
      using Cons.prems(1) by auto
    define log where "log = (if e_event_id ev \<in> set (map e_event_id (st_events s)) then st_events s else st_events s @ [ev])"
    obtain ls where ls: "link_update log now ev (st_links s) = Inr ls" and s1: "s1 = s\<lparr>st_events := log, st_links := ls\<rparr>"
      using one by (auto simp: append_one_def Let_def log_def)
    have "links_step (st_links s) ls" using link_update_ok [OF ls] Cons.prems(2) by (simp add: store_ok_def)
    moreover have "distinct (map e_event_id log)" "\<exists>new. log = st_events s @ new"
      using Cons.prems(2) by (auto simp: log_def store_ok_def)
    ultimately have "good_step s s1" using Cons.prems(2)
      by (simp add: s1 good_step_def store_ok_def store_grows_def links_step_def)
    then show ?case using Cons.IH [OF rest] good_step_trans good_step_def by blast
  qed
  then show ?thesis using assms by (simp add: append_events_locked_def)
qed

lemma transact_good:
  assumes "\<And>s' x. f s = Inr (s', x) \<Longrightarrow> good_step s s'" "store_ok s"
  shows "good_step s (fst (transact f s))"
  using assms by (cases "f s") (auto simp: transact_def good_step_refl)

lemma append_events_good: "store_ok s \<Longrightarrow> good_step s (fst (append_events now evs s))"
  by (cases "evs = []") (auto simp: append_events_def good_step_refl elim: append_locked_good intro!: transact_good)

lemma write_snapshot_good:
  assumes "write_snapshot_locked dep d result state s = Inr s'" "store_ok s"
  shows "good_step s s'"
proof -
  obtain row where s': "s' = update_row dep (\<lambda>r. r\<lparr>dr_last_processed := Some d\<rparr>) (s\<lparr>st_snapshots := dset (st_snapshots s) (dep, d) row\<rparr>)"
    using assms(1) by (auto simp: write_snapshot_locked_def)
  have "good_step s (s\<lparr>st_snapshots := dset (st_snapshots s) (dep, d) row\<rparr>)"
    using assms(2) by (simp add: good_step_def store_ok_def store_grows_def)
  moreover from this have "good_step (s\<lparr>st_snapshots := dset (st_snapshots s) (dep, d) row\<rparr>) s'"
    unfolding s' by (intro update_row_good) (simp_all add: good_step_def)
  ultimately show ?thesis by (rule good_step_trans)
qed

lemma upsert_reports_good:
  assumes "store_ok s" "\<forall>r \<in> set reports. str_strip (xr_client_order_id r) = xr_client_order_id r"
  shows "good_step s (upsert_reports now dep reports s)"
proof -
  have "links_ok ls \<Longrightarrow> links_step ls (fst (fold (upsert_report dep now) reports (ls, n)))" for ls n
    using assms(2)
  proof (induction reports arbitrary: ls n)
    case Nil
    then show ?case by (simp add: step_refl)
  next
    case (Cons r rs)
    obtain ls1 n1 where one: "upsert_report dep now r (ls, n) = (ls1, n1)" by (cases "upsert_report dep now r (ls, n)")
    have "links_ok ls1 \<and> keeps_final ls ls1" using upsert_report_ok [OF Cons.prems(1), of r dep now n] Cons.prems(2) one by simp
    then show ?case using Cons.IH [of ls1 n1] Cons.prems(2) keeps_trans one by (auto simp: links_step_def)
  qed
  then show ?thesis using assms(1)
    by (simp add: good_step_def store_ok_def store_grows_def upsert_reports_def upsert_broker_order_links_def links_step_def)
qed

lemma save_error_good:
  assumes "store_ok s"
  shows "good_step s (save_error d dt err s)"
proof -
  define s1 where "s1 = (case map_of (st_snapshots s) (d, dt) of None \<Rightarrow> s
    | Some r \<Rightarrow> s\<lparr>st_snapshots := dset (st_snapshots s) (d, dt) (r\<lparr>sn_error := JStr err\<rparr>)\<rparr>)"
  have "good_step s s1" using assms by (simp add: s1_def good_step_def store_ok_def store_grows_def split: option.split)
  moreover from this have "good_step s1 (save_error d dt err s)"
    unfolding save_error_def Let_def s1_def [symmetric] by (intro update_row_good) (simp_all add: good_step_def)
  ultimately show ?thesis by (rule good_step_trans)
qed

lemma update_status_good: "update_status d st reason now s = Inr s' \<Longrightarrow> store_ok s \<Longrightarrow> good_step s s'"
  by (auto simp: update_status_def Let_def split: if_split_asm intro!: update_row_good)

lemma save_spec_good: "store_ok s \<Longrightarrow> good_step s (save_spec i j s)"
  by (auto simp: save_spec_def good_step_def store_ok_def store_grows_def dhas_def map_le_def)

lemma save_record_good: "save_record d r s = Inr s' \<Longrightarrow> store_ok s \<Longrightarrow> good_step s s'"
  by (auto simp: save_record_def good_step_def store_ok_def store_grows_def dhas_def dest!: dset_entry split: if_split_asm)

lemma locked_reports_good:
  assumes "append_events_locked now evs s = Inr (s1, n)" "store_ok s"
    and "\<forall>r \<in> set reports. str_strip (xr_client_order_id r) = xr_client_order_id r"
  shows "good_step s (upsert_reports now d reports s1)"
proof -
  have one: "good_step s s1" using assms(1,2) by (rule append_locked_good)
  then have "good_step s1 (upsert_reports now d reports s1)"
    using assms(3) by (intro upsert_reports_good) (simp_all add: good_step_def)
  with one show ?thesis by (rule good_step_trans)
qed

lemma good_then: "good_step a b \<Longrightarrow> (store_ok b \<Longrightarrow> good_step b c) \<Longrightarrow> good_step a c"
  using good_step_trans good_step_def by blast

lemma store_step_good:
  assumes "store_step s s'" "store_ok s"
  shows "good_step s s'"
  using assms
proof (induction rule: store_step.induct)
  case (snapshot_events reports s now d dt result evs state)
  show ?case unfolding save_snapshot_with_events_def
    by (rule transact_good)
      (use snapshot_events in \<open>auto intro: good_then [OF locked_reports_good] write_snapshot_good\<close>)
next
  case (broker_sync reports s now d evs)
  then show ?case unfolding save_broker_sync_result_def
    by (auto simp: good_step_refl intro!: transact_good locked_reports_good)
next
  case (snapshot s d dt result state)
  then show ?case unfolding save_daily_snapshot_def by (intro transact_good) (auto intro: write_snapshot_good)
next
  case (verdict s d v)
  then show ?case unfolding update_gate_verdict_def by (intro update_row_good) simp_all
next
  case (count s d)
  then show ?case unfolding increment_error_count_def Let_def fst_conv by (intro update_row_good) simp_all
next
  case (reset s d)
  then show ?case unfolding reset_error_count_def by (intro update_row_good) simp_all
next
  case (cursor s now d bt cursor)
  then show ?case by (simp add: upsert_broker_sync_cursor_def good_step_def store_ok_def store_grows_def split: option.split)
next
  case (projection s now d bt proj)
  then show ?case by (simp add: upsert_broker_state_projection_def good_step_def store_ok_def store_grows_def split: option.split)
qed (blast intro: save_spec_good save_record_good update_status_good append_events_good save_error_good)+

lemma store_run_good: "store_step\<^sup>*\<^sup>* s s' \<Longrightarrow> store_ok s \<Longrightarrow> good_step s s'"
proof (induction rule: rtranclp_induct)
  case (step s1 s2)
  then show ?case by (blast intro: good_then store_step_good)
qed (rule good_step_refl)

lemma empty_store_ok: "store_ok empty_store"
  by (simp add: empty_store_def store_ok_def links_ok_def)

section \<open>Properties\<close>


definition sample_report :: "string \<Rightarrow> timestamp \<Rightarrow> string \<Rightarrow> event" where
  "sample_report i ts status = (report_event_sample i ts status 100 0)
     \<lparr>e_payload := [(''broker_type'', JStr ''qmt''), (''report_id'', JStr i), (''broker_order_id'', JStr ''77''),
        (''status'', JStr status)]\<rparr>"

definition filled_store :: store where
  "filled_store = fst (append_events 1 [sample_report ''r1'' 10 ''filled''] empty_store)"

lemma filled_store_run: "store_step\<^sup>*\<^sup>* empty_store filled_store"
  unfolding filled_store_def by (rule r_into_rtranclp) (rule store_step.events)



definition reopened_store :: store where
  "reopened_store = fst (append_events 2 [sample_report ''r2'' 20 ''reported''] filled_store)"


text \<open>Among final statuses the last report wins.  A report that is not older and carries a final status
  replaces the final status of the link, for instance \<open>filled\<close> by \<open>canceled\<close>, although the rank table says
  that callers reject every step out of a final status.\<close>

theorem final_link_rewritten:
  assumes "map_of ls (dep, xr_broker_type r, xr_client_order_id r) = Some l" and "link_final l"
    and "xr_client_order_id r \<noteq> []"
    and "normalize_broker_order_status (xr_status r) (xr_filled_shares r) (xr_remaining_shares r) \<in> set broker_terminal_statuses"
    and "bl_report_ts l = Some t" and "t \<le> xr_as_of r"
  shows "map_option bl_status (get_broker_order_link (fst (upsert_broker_order_links dep now [r] ls))
      dep (xr_broker_type r) (xr_client_order_id r))
    = Some (normalize_broker_order_status (xr_status r) (xr_filled_shares r) (xr_remaining_shares r))"
proof -
  let ?n = "normalize_broker_order_status (xr_status r) (xr_filled_shares r) (xr_remaining_shares r)"
  have inc: "incoming_status p r = ?n" for p
    using assms(4) by (auto simp: incoming_status_def broker_terminal_statuses_def)
  have "broker_order_status_rank (normalize_status (bl_status l)) = 30" using assms(2) by (simp add: link_final_def final_rank)
  moreover have "broker_order_status_rank ?n = 30"
  proof -
    have "broker_order_status_rank x = 30" if "x \<in> set broker_terminal_statuses" for x
    proof -
      have "list_all (\<lambda>x. broker_order_status_rank x = 30) broker_terminal_statuses" by code_simp
      then show ?thesis using that by (simp add: list_all_iff)
    qed
    then show ?thesis using assms(4) by blast
  qed
  moreover have "?n \<noteq> ''reported''" using assms(4) by (auto simp: broker_terminal_statuses_def)
  ultimately show ?thesis using assms
    by (simp add: upsert_broker_order_links_def upsert_report_def get_broker_order_link_def put_link_def should_advance_link_def Let_def inc)
qed

definition canceled_report :: execution_report where
  "canceled_report = \<lparr>xr_report_id = ''r2'', xr_broker_type = ''qmt'', xr_as_of = 20, xr_client_order_id = ''o1'',
     xr_broker_order_id = ''77'', xr_symbol = [], xr_side = ''buy'', xr_status = ''canceled'', xr_filled_shares = 0,
     xr_remaining_shares = 0, xr_avg_price = 0, xr_message = [], xr_account_id = []\<rparr>"

theorem final_link_rewritten_witness:
  "map_option bl_status (map_of (st_links filled_store) (''d'', ''qmt'', ''o1'')) = Some ''filled'' \<and>
   map_option bl_status (get_broker_order_link
     (fst (upsert_broker_order_links ''d'' 5 [canceled_report] (st_links filled_store))) ''d'' ''qmt'' ''o1'') = Some ''canceled''"
proof -
  have "map_option (\<lambda>l. (link_final l, bl_report_ts l, bl_status l)) (map_of (st_links filled_store) (''d'', ''qmt'', ''o1''))
      = Some (True, Some 10, ''filled'')"
    by code_simp
  then obtain l where l: "map_of (st_links filled_store) (''d'', ''qmt'', ''o1'') = Some l" "link_final l"
    "bl_report_ts l = Some 10" "bl_status l = ''filled''" by auto
  have n: "normalize_broker_order_status ''canceled'' 0 0 = ''canceled''" by code_simp
  show ?thesis
    using final_link_rewritten [of "st_links filled_store" "''d''" canceled_report l 10 5] l n
    by (simp add: canceled_report_def broker_terminal_statuses_def)
qed

end
