(* ===== verification/Risk_Manager.thy ===== *)
theory Risk_Manager
  imports Prelude
begin

text \<open>
  \<open>ez/portfolio/risk_manager.py\<close>: the drawdown circuit breaker and the turnover limit of a portfolio.  The
  texts of the notes carry formatted numbers; a note is a value with those numbers.
\<close>

section \<open>Drawdown\<close>

record risk_manager_config =
  rc_max_drawdown_threshold :: flt
  rc_drawdown_reduce_ratio :: flt
  rc_drawdown_recovery_ratio :: flt
  rc_max_turnover :: flt

definition default_risk_manager_config :: risk_manager_config where
  "default_risk_manager_config = \<lparr>rc_max_drawdown_threshold = 1 / 5, rc_drawdown_reduce_ratio = 1 / 2,
     rc_drawdown_recovery_ratio = 1 / 10, rc_max_turnover = 1 / 2\<rparr>"

record risk_manager =
  rm_config :: risk_manager_config
  rm_peak_equity :: flt
  rm_is_breached :: bool

datatype risk_note =
    Drawdown_Breached (note_drawdown: flt) (note_threshold: flt)
  | Drawdown_Recovered (note_drawdown: flt)
  | Turnover_Mixed (note_turnover: flt) (note_limit: flt) (note_alpha: flt)

definition new_risk_manager :: "risk_manager_config \<Rightarrow> risk_manager" where
  "new_risk_manager cfg = \<lparr>rm_config = cfg, rm_peak_equity = 0, rm_is_breached = False\<rparr>"

definition check_drawdown :: "flt \<Rightarrow> risk_manager \<Rightarrow> (flt \<times> risk_note option) \<times> risk_manager" where
  "check_drawdown equity m =
     (let cfg = rm_config m; peak = max (rm_peak_equity m) equity; m1 = m\<lparr>rm_peak_equity := peak\<rparr> in
      if peak \<le> 0 then ((1, None), m1)
      else let drawdown = (peak - equity) / peak in
        if \<not> rm_is_breached m
        then (if rc_max_drawdown_threshold cfg < drawdown
              then ((rc_drawdown_reduce_ratio cfg, Some (Drawdown_Breached drawdown (rc_max_drawdown_threshold cfg))),
                    m1\<lparr>rm_is_breached := True\<rparr>)
              else ((1, None), m1))
        else (if drawdown < rc_drawdown_recovery_ratio cfg
              then ((1, Some (Drawdown_Recovered drawdown)), m1\<lparr>rm_is_breached := False\<rparr>)
              else ((rc_drawdown_reduce_ratio cfg, None), m1)))"

definition replay_equity :: "flt list \<Rightarrow> risk_manager \<Rightarrow> risk_manager" where
  "replay_equity curve m =
     fold (\<lambda>eq m. snd (check_drawdown eq m)) curve (m\<lparr>rm_peak_equity := 0, rm_is_breached := False\<rparr>)"

section \<open>Turnover\<close>

text \<open>The set of symbols is listed in the order of first occurrence.\<close>

definition turnover_symbols :: "(string, flt) dict \<Rightarrow> (string, flt) dict \<Rightarrow> string list" where
  "turnover_symbols new prev = remdups (dkeys new @ dkeys prev)"

definition buy_turnover :: "(string, flt) dict \<Rightarrow> (string, flt) dict \<Rightarrow> flt" where
  "buy_turnover new prev = sum_list (map (\<lambda>s. max 0 (dget_or new s 0 - dget_or prev s 0)) (turnover_symbols new prev))"

definition sell_turnover :: "(string, flt) dict \<Rightarrow> (string, flt) dict \<Rightarrow> flt" where
  "sell_turnover new prev = sum_list (map (\<lambda>s. max 0 (dget_or prev s 0 - dget_or new s 0)) (turnover_symbols new prev))"

definition mix :: "flt \<Rightarrow> (string, flt) dict \<Rightarrow> (string, flt) dict \<Rightarrow> string \<Rightarrow> flt" where
  "mix alpha new prev s = alpha * dget_or new s 0 + (1 - alpha) * dget_or prev s 0"

definition turnover_dust :: flt where
  "turnover_dust = 1 / 10000000000"

definition mixed_weights :: "flt \<Rightarrow> (string, flt) dict \<Rightarrow> (string, flt) dict \<Rightarrow> (string, flt) dict" where
  "mixed_weights alpha new prev =
     filter (\<lambda>(s, w). turnover_dust < w) (map (\<lambda>s. (s, mix alpha new prev s)) (turnover_symbols new prev))"

definition check_turnover ::
  "(string, flt) dict \<Rightarrow> (string, flt) dict \<Rightarrow> risk_manager \<Rightarrow> (string, flt) dict \<times> risk_note option" where
  "check_turnover new prev m =
     (let limit = rc_max_turnover (rm_config m); actual = max (buy_turnover new prev) (sell_turnover new prev) in
      if actual \<le> limit then (new, None)
      else let alpha = limit / actual; mixed = mixed_weights alpha new prev; tot = sum_list (dvals mixed) in
        (if 1 + 1 / 1000000000 < tot then map (\<lambda>(k, v). (k, v / tot)) mixed else mixed,
         Some (Turnover_Mixed actual limit alpha)))"

section \<open>The circuit breaker\<close>

definition drawdown_of :: "risk_manager \<Rightarrow> flt \<Rightarrow> flt" where
  "drawdown_of m equity = (rm_peak_equity m - equity) / rm_peak_equity m"

lemma check_drawdown_frame:
  assumes "check_drawdown eq m = ((scale, nt), m')"
  shows "rm_config m' = rm_config m" and "rm_peak_equity m' = max (rm_peak_equity m) eq"
  using assms by (auto simp: check_drawdown_def Let_def split: if_splits)

lemma replay_peak:
  "rm_peak_equity (fold (\<lambda>eq m. snd (check_drawdown eq m)) es m) = fold max es (rm_peak_equity m)
    \<and> rm_config (fold (\<lambda>eq m. snd (check_drawdown eq m)) es m) = rm_config m"
proof (induction es arbitrary: m)
  case (Cons e es)
  obtain scale nt m' where "check_drawdown e m = ((scale, nt), m')" by (metis surj_pair)
  from check_drawdown_frame [OF this] this show ?case using Cons.IH [of m'] by (simp add: max.commute)
qed simp

lemma breached_positive:
  assumes "rm_is_breached (fold (\<lambda>eq m. snd (check_drawdown eq m)) es m)" and "rm_is_breached m \<longrightarrow> 0 < rm_peak_equity m"
  shows "0 < rm_peak_equity (fold (\<lambda>eq m. snd (check_drawdown eq m)) es m)"
  using assms
proof (induction es arbitrary: m)
  case (Cons e es)
  obtain scale nt m' where c: "check_drawdown e m = ((scale, nt), m')" by (metis surj_pair)
  have "rm_is_breached m' \<longrightarrow> 0 < rm_peak_equity m'"
    using c Cons.prems(2) by (auto simp: check_drawdown_def Let_def split: if_splits)
  then show ?case using Cons.IH [of m'] Cons.prems(1) c by simp
qed simp

text \<open>C26: The circuit breaker.  After the equities \<open>es\<close> and one more, the peak is the greatest equity seen;
  exposure is reduced exactly while the breaker is open; a note is raised exactly when it opens or closes;
  a closed breaker means that the drawdown is within the threshold, an open one that it has not recovered.\<close>

theorem drawdown_breaker:
  assumes "check_drawdown eq (replay_equity es m) = ((scale, nt), m')"
    and "rc_drawdown_recovery_ratio (rm_config m) \<le> rc_max_drawdown_threshold (rm_config m)"
  shows "rm_peak_equity m' = fold max (es @ [eq]) 0
    \<and> scale = (if rm_is_breached m' then rc_drawdown_reduce_ratio (rm_config m) else 1)
    \<and> (nt \<noteq> None \<longleftrightarrow> rm_is_breached m' \<noteq> rm_is_breached (replay_equity es m))
    \<and> (0 < rm_peak_equity m' \<longrightarrow>
        (if rm_is_breached m' then rc_drawdown_recovery_ratio (rm_config m) \<le> drawdown_of m' eq
         else drawdown_of m' eq \<le> rc_max_drawdown_threshold (rm_config m)))"
proof -
  let ?m = "replay_equity es m"
  have cfg: "rm_config ?m = rm_config m" and peak: "rm_peak_equity ?m = fold max es 0"
    by (simp_all add: replay_equity_def replay_peak)
  have closed_start: "rm_peak_equity ?m \<le> 0 \<Longrightarrow> \<not> rm_is_breached ?m"
    using breached_positive [of es "m\<lparr>rm_peak_equity := 0, rm_is_breached := False\<rparr>"] by (auto simp: replay_equity_def)
  show ?thesis using assms cfg peak closed_start
    by (auto simp: check_drawdown_def drawdown_of_def Let_def max.commute split: if_splits)
qed

theorem drawdown_breaker_witness:
  "rm_is_breached (snd (check_drawdown 70 (replay_equity [100, 90] (new_risk_manager default_risk_manager_config))))
   \<and> rm_peak_equity (snd (check_drawdown 70 (replay_equity [100, 90] (new_risk_manager default_risk_manager_config)))) = 100"
proof -
  let ?m = "new_risk_manager default_risk_manager_config"
  obtain scale nt m' where c: "check_drawdown 70 (replay_equity [100, 90] ?m) = ((scale, nt), m')" by (metis surj_pair)
  have b: "rm_is_breached (snd (check_drawdown 70 (replay_equity [100, 90] ?m)))" by code_simp
  have "rc_drawdown_recovery_ratio (rm_config ?m) \<le> rc_max_drawdown_threshold (rm_config ?m)"
    by (simp add: new_risk_manager_def default_risk_manager_config_def)
  from drawdown_breaker [OF c this] have "rm_peak_equity m' = 100" by simp
  then show ?thesis using b unfolding c by simp
qed

section \<open>The turnover limit\<close>

lemma buy_turnover_over:
  assumes "finite S" "set (dkeys a) \<union> set (dkeys b) \<subseteq> S"
  shows "buy_turnover a b = (\<Sum>s\<in>S. max 0 (dget_or a s 0 - dget_or b s 0))"
proof -
  have "(\<Sum>s\<in>S. max 0 (dget_or a s 0 - dget_or b s 0)) = (\<Sum>s\<in>set (turnover_symbols a b). max 0 (dget_or a s 0 - dget_or b s 0))"
  proof (rule sum.mono_neutral_right [OF assms(1)])
    show "set (turnover_symbols a b) \<subseteq> S" using assms(2) by (simp add: turnover_symbols_def)
    show "\<forall>s \<in> S - set (turnover_symbols a b). max 0 (dget_or a s 0 - dget_or b s 0) = 0"
      by (auto simp: turnover_symbols_def dget_or_def split: option.split dest!: map_of_in_keys)
  qed
  also have "\<dots> = buy_turnover a b"
    unfolding buy_turnover_def by (rule sum_list_distinct_conv_sum_set [symmetric]) (simp add: turnover_symbols_def)
  finally show ?thesis ..
qed

lemma turnover_swap: "sell_turnover a b = buy_turnover b a"
proof -
  have "sell_turnover a b = (\<Sum>s\<in>set (turnover_symbols a b). max 0 (dget_or b s 0 - dget_or a s 0))"
    unfolding sell_turnover_def by (rule sum_list_distinct_conv_sum_set) (simp add: turnover_symbols_def)
  also have "\<dots> = buy_turnover b a"
    by (rule buy_turnover_over [symmetric]) (auto simp: turnover_symbols_def)
  finally show ?thesis .
qed

lemma mixed_get:
  "dget_or (mixed_weights alpha new prev) s 0 =
    (if s \<in> set (turnover_symbols new prev) \<and> turnover_dust < mix alpha new prev s then mix alpha new prev s else 0)"
proof -
  have "map_of (filter (\<lambda>(s, w). c < w) (map (\<lambda>s. (s, f s)) xs)) s = (if s \<in> set xs \<and> c < f s then Some (f s) else None)"
    for c :: flt and f and xs :: "string list"
    by (induction xs) auto
  then show ?thesis unfolding mixed_weights_def dget_or_def by simp
qed

lemma mix_outside: "s \<notin> set (turnover_symbols new prev) \<Longrightarrow> mix alpha new prev s = 0"
  by (auto simp: turnover_symbols_def mix_def dget_or_def split: option.split dest: map_of_in_keys)

definition weights_ok :: "(string, flt) dict \<Rightarrow> bool" where
  "weights_ok ws \<longleftrightarrow> dict_ok ws \<and> list_all (\<lambda>w. 0 \<le> w) (dvals ws) \<and> sum_list (dvals ws) \<le> 1"

lemma weights_ok_get: "weights_ok ws \<Longrightarrow> 0 \<le> dget_or ws s 0"
  by (auto simp: weights_ok_def list_all_iff dget_or_def split: option.split dest!: map_of_SomeD)

lemma mix_nonneg:
  "weights_ok new \<Longrightarrow> weights_ok prev \<Longrightarrow> 0 \<le> alpha \<Longrightarrow> alpha \<le> 1 \<Longrightarrow> 0 \<le> mix alpha new prev s"
  by (simp add: mix_def weights_ok_get)

lemma total_over:
  assumes "weights_ok ws" "finite S" "set (dkeys ws) \<subseteq> S"
  shows "sum_list (dvals ws) = (\<Sum>s\<in>S. dget_or ws s 0)"
  using sum_dict_over [of ws S "\<lambda>_ w. w"] assms by (simp add: weights_ok_def case_prod_beta')

lemma mixed_total:
  assumes "weights_ok new" "weights_ok prev" "0 \<le> alpha" "alpha \<le> 1"
  shows "sum_list (dvals (mixed_weights alpha new prev)) \<le> 1"
proof -
  let ?S = "set (turnover_symbols new prev)"
  have nn: "0 \<le> mix alpha new prev s" for s
    using assms by (rule mix_nonneg)
  have "sum_list (dvals (filter (\<lambda>(s, w). c < w) (map (\<lambda>s. (s, f s)) xs))) \<le> sum_list (map f xs)"
    if "\<And>s. 0 \<le> f s" for c :: flt and f and xs :: "string list"
    by (induction xs) (auto simp: that add_increasing)
  from this [OF nn] have "sum_list (dvals (mixed_weights alpha new prev)) \<le> sum_list (map (mix alpha new prev) (turnover_symbols new prev))"
    unfolding mixed_weights_def .
  also have "\<dots> = (\<Sum>s\<in>?S. mix alpha new prev s)"
    by (rule sum_list_distinct_conv_sum_set) (simp add: turnover_symbols_def)
  also have "\<dots> = alpha * (\<Sum>s\<in>?S. dget_or new s 0) + (1 - alpha) * (\<Sum>s\<in>?S. dget_or prev s 0)"
    by (simp add: mix_def sum.distrib sum_distrib_left)
  also have "\<dots> = alpha * sum_list (dvals new) + (1 - alpha) * sum_list (dvals prev)"
    using assms(1,2) by (simp add: total_over [of _ ?S] turnover_symbols_def)
  also have "\<dots> \<le> alpha * 1 + (1 - alpha) * 1"
    by (intro add_mono mult_left_mono) (use assms in \<open>simp_all add: weights_ok_def\<close>)
  finally show ?thesis by simp
qed

text \<open>The turnover limit.  For long-only weights that use at most the whole equity, the weights after the check
  buy at most the limit, sell at most the limit (and the dust that is dropped), and use at most the whole
  equity; weights within the limit are not touched.\<close>

theorem turnover_limited:
  assumes "weights_ok new" and "weights_ok prev" and "0 \<le> rc_max_turnover (rm_config m)"
    and "check_turnover new prev m = (ws, nt)"
  shows "buy_turnover ws prev \<le> rc_max_turnover (rm_config m)
    \<and> sell_turnover ws prev \<le> rc_max_turnover (rm_config m) + of_nat (length (turnover_symbols new prev)) * turnover_dust
    \<and> sum_list (dvals ws) \<le> 1
    \<and> (nt = None \<longleftrightarrow> ws = new \<and> max (buy_turnover new prev) (sell_turnover new prev) \<le> rc_max_turnover (rm_config m))"
proof -
  define limit where "limit = rc_max_turnover (rm_config m)"
  define actual where "actual = max (buy_turnover new prev) (sell_turnover new prev)"
  show ?thesis
  proof (cases "actual \<le> limit")
    case True
    then have "ws = new" "nt = None" using assms(4) by (simp_all add: check_turnover_def Let_def limit_def actual_def)
    moreover have "0 \<le> of_nat (length (turnover_symbols new prev)) * turnover_dust" by (simp add: turnover_dust_def)
    ultimately show ?thesis using True assms(1) unfolding actual_def limit_def [symmetric] by (simp add: weights_ok_def)
  next
    case False
    define alpha where "alpha = limit / actual"
    define d where "d = turnover_dust"
    have d: "0 \<le> d" by (simp add: d_def turnover_dust_def)
    let ?S = "set (turnover_symbols new prev)"
    have lim: "0 \<le> limit" "limit < actual" using assms(3) False by (simp_all add: limit_def)
    then have al: "0 \<le> alpha" "alpha \<le> 1" "alpha * actual = limit" by (simp_all add: alpha_def)
    have tot: "sum_list (dvals (mixed_weights alpha new prev)) \<le> 1" using mixed_total [OF assms(1,2) al(1,2)] .
    then have ws: "ws = mixed_weights alpha new prev" and nt: "nt \<noteq> None"
      using assms(4) False by (auto simp: check_turnover_def Let_def limit_def actual_def alpha_def split: if_splits)
    have sub: "set (dkeys ws) \<subseteq> ?S" by (auto simp: ws mixed_weights_def)
    have get: "dget_or ws s 0 \<le> mix alpha new prev s \<and> mix alpha new prev s \<le> dget_or ws s 0 + d" for s
      using mix_outside [of s new prev alpha]
        mix_nonneg [OF assms(1,2) al(1,2), of s] d
      by (auto simp: ws mixed_get d_def)
    have diff: "mix alpha new prev s - dget_or prev s 0 = alpha * (dget_or new s 0 - dget_or prev s 0)" for s
      by (simp add: mix_def algebra_simps)
    have scale: "max 0 (alpha * x) = alpha * max 0 x" for x
      using al(1) by (simp add: max_mult_distrib_left max.commute)
    have "buy_turnover ws prev = (\<Sum>s\<in>?S. max 0 (dget_or ws s 0 - dget_or prev s 0))"
      by (rule buy_turnover_over) (use sub in \<open>auto simp: turnover_symbols_def\<close>)
    also have "\<dots> \<le> (\<Sum>s\<in>?S. alpha * max 0 (dget_or new s 0 - dget_or prev s 0))"
    proof (rule sum_mono)
      fix s
      have "dget_or ws s 0 - dget_or prev s 0 \<le> alpha * (dget_or new s 0 - dget_or prev s 0)"
        using get [of s] diff [of s] by linarith
      then show "max 0 (dget_or ws s 0 - dget_or prev s 0) \<le> alpha * max 0 (dget_or new s 0 - dget_or prev s 0)"
        unfolding scale [symmetric] by linarith
    qed
    also have "\<dots> = alpha * buy_turnover new prev"
      by (simp add: buy_turnover_over [of ?S] turnover_symbols_def sum_distrib_left)
    also have "\<dots> \<le> alpha * actual" using al(1) by (simp add: actual_def mult_left_mono)
    finally have buy: "buy_turnover ws prev \<le> limit" by (simp add: al(3))
    have "sell_turnover ws prev = (\<Sum>s\<in>?S. max 0 (dget_or prev s 0 - dget_or ws s 0))"
      unfolding turnover_swap by (rule buy_turnover_over) (use sub in \<open>auto simp: turnover_symbols_def\<close>)
    also have "\<dots> \<le> (\<Sum>s\<in>?S. alpha * max 0 (dget_or prev s 0 - dget_or new s 0) + d)"
    proof (rule sum_mono)
      fix s
      have "dget_or prev s 0 - dget_or ws s 0 \<le> alpha * (dget_or prev s 0 - dget_or new s 0) + d"
        using get [of s] diff [of s] by (simp add: algebra_simps)
      with d show "max 0 (dget_or prev s 0 - dget_or ws s 0) \<le> alpha * max 0 (dget_or prev s 0 - dget_or new s 0) + d"
        unfolding scale [symmetric] by linarith
    qed
    also have "\<dots> = alpha * sell_turnover new prev + of_nat (card ?S) * d"
      by (simp add: turnover_swap buy_turnover_over [of ?S] turnover_symbols_def sum_distrib_left sum.distrib)
    also have "\<dots> \<le> alpha * actual + of_nat (length (turnover_symbols new prev)) * d"
      using al(1) by (intro add_mono mult_left_mono mult_right_mono) (simp_all add: actual_def card_length d)
    finally have "sell_turnover ws prev \<le> limit + of_nat (length (turnover_symbols new prev)) * turnover_dust"
      by (simp add: al(3) d_def)
    then show ?thesis using buy tot False nt unfolding ws actual_def limit_def by auto
  qed
qed

theorem turnover_limited_witness:
  "let (ws, nt) = check_turnover [(''A'', 1)] [(''B'', 1)] (new_risk_manager default_risk_manager_config) in
     ws = [(''A'', 1 / 2), (''B'', 1 / 2)] \<and> buy_turnover ws [(''B'', 1)] \<le> 1 / 2"
proof -
  let ?m = "new_risk_manager default_risk_manager_config"
  obtain ws nt where c: "check_turnover [(''A'', 1)] [(''B'', 1)] ?m = (ws, nt)" by (metis surj_pair)
  have "fst (check_turnover [(''A'', 1)] [(''B'', 1)] ?m) = [(''A'', 1 / 2), (''B'', 1 / 2)]" by code_simp
  then have ws: "ws = [(''A'', 1 / 2), (''B'', 1 / 2)]" using c by simp
  have "weights_ok [(''A'', 1)]" "weights_ok [(''B'', 1)]" by (simp_all add: weights_ok_def dict_ok_def)
  moreover have "rc_max_turnover (rm_config ?m) = 1 / 2"
    by (simp add: new_risk_manager_def default_risk_manager_config_def)
  ultimately show ?thesis using turnover_limited [OF _ _ _ c] ws unfolding c by simp
qed

end
