(* ===== verification/Trading_Calendar.thy ===== *)
theory Trading_Calendar
  imports Order_Events
begin

text \<open>
  \<open>ez/portfolio/calendar.py\<close>: trading days, their neighbours and the rebalance dates, with the calendar
  arithmetic of \<open>datetime.date\<close> that it uses.  The exchange calendar of the data provider is an argument.
\<close>

section \<open>Dates\<close>

text \<open>Dates compare by year, month and day.\<close>

instantiation date :: linorder
begin

definition less_eq_date :: "date \<Rightarrow> date \<Rightarrow> bool" where
  "a \<le> b \<longleftrightarrow> (year a, month a, day a) \<le> (year b, month b, day b)"

definition less_date :: "date \<Rightarrow> date \<Rightarrow> bool" where
  "(a :: date) < b \<longleftrightarrow> a \<le> b \<and> \<not> b \<le> a"

instance
  by standard (auto simp: less_eq_date_def less_date_def date.expand)

end

definition days_before_month :: "nat \<Rightarrow> nat \<Rightarrow> int" where
  "days_before_month y m = sum_list (map (\<lambda>k. int (days_in_month y k)) [1..<m])"

definition to_ordinal :: "date \<Rightarrow> int" where
  "to_ordinal d = (let p = int (year d) - 1 in
     p * 365 + p div 4 - p div 100 + p div 400 + days_before_month (year d) (month d) + int (day d))"

definition from_ordinal :: "int \<Rightarrow> date" where
  "from_ordinal n = ord2ymd (nat n)"

definition weekday :: "date \<Rightarrow> int" where
  "weekday d = (to_ordinal d + 6) mod 7"

definition add_days :: "date \<Rightarrow> int \<Rightarrow> date" where
  "add_days d n = from_ordinal (to_ordinal d + n)"

definition iso_week1_monday :: "nat \<Rightarrow> int" where
  "iso_week1_monday y = (let f = to_ordinal (Date y 1 1); w = (f + 6) mod 7 in
     if 3 < w then f - w + 7 else f - w)"

text \<open>\<open>d.isocalendar()[:2]\<close>: the ISO year and week.\<close>

definition iso_week :: "date \<Rightarrow> nat \<times> int" where
  "iso_week d = (let y = year d; t = to_ordinal d; w = (t - iso_week1_monday y) div 7 in
     if w < 0 then (y - 1, (t - iso_week1_monday (y - 1)) div 7 + 1)
     else if 52 \<le> w \<and> iso_week1_monday (y + 1) \<le> t then (y + 1, 1)
     else (y, w + 1))"

section \<open>The calendar\<close>

type_synonym calendar = "date list"

definition new_calendar :: "date list \<Rightarrow> calendar res" where
  "new_calendar trading_days = (if trading_days = [] then Inl ValueError else Inr (sort (remdups trading_days)))"

definition weekday_fallback :: "date \<Rightarrow> date \<Rightarrow> calendar res" where
  "weekday_fallback start_day end_day = new_calendar
     (filter (\<lambda>d. weekday d < 5) (map from_ordinal [to_ordinal start_day..to_ordinal end_day]))"

definition market_to_exchange :: "(string, string) dict" where
  "market_to_exchange = [(''cn_stock'', ''SSE''), (''us_stock'', ''NYSE''), (''hk_stock'', ''HKEX'')]"

definition from_market :: "(string \<Rightarrow> date \<Rightarrow> date \<Rightarrow> date list res) \<Rightarrow> date \<Rightarrow> string \<Rightarrow> calendar res" where
  "from_market trade_cal today market =
     (let start_day = add_days today (- 1825); exchange = dget_or market_to_exchange market ''SSE''
      in case trade_cal exchange start_day today of
           Inl e \<Rightarrow> weekday_fallback start_day today
         | Inr ds \<Rightarrow> if ds = [] then weekday_fallback start_day today else new_calendar ds)"

definition is_trading_day :: "calendar \<Rightarrow> date \<Rightarrow> bool" where
  "is_trading_day cal d \<longleftrightarrow> d \<in> set cal"

definition trading_days_between :: "calendar \<Rightarrow> date \<Rightarrow> date \<Rightarrow> date list" where
  "trading_days_between cal a b = filter (\<lambda>d. a \<le> d \<and> d \<le> b) cal"

function bisect_loop :: "calendar \<Rightarrow> date \<Rightarrow> nat \<Rightarrow> nat \<Rightarrow> nat" where
  "bisect_loop cal d lo hi = (if lo < hi
     then let mid = (lo + hi) div 2 in if cal ! mid < d then bisect_loop cal d (mid + 1) hi else bisect_loop cal d lo mid
     else lo)"
  by pat_completeness auto
termination by (relation "measure (\<lambda>(cal, d, lo, hi). hi - lo)") auto

definition bisect_left :: "calendar \<Rightarrow> date \<Rightarrow> nat" where
  "bisect_left cal d = bisect_loop cal d 0 (length cal)"

definition prev_trading_day :: "calendar \<Rightarrow> date \<Rightarrow> date option" where
  "prev_trading_day cal d = (let i = bisect_left cal d in if 0 < i then Some (cal ! (i - 1)) else None)"

definition next_trading_day :: "calendar \<Rightarrow> date \<Rightarrow> date option" where
  "next_trading_day cal d = (let i = bisect_left cal d in if i < length cal then Some (cal ! i) else None)"

section \<open>Rebalance dates\<close>

definition valid_freqs :: "string list" where
  "valid_freqs = [''daily'', ''weekly'', ''monthly'', ''quarterly'']"

text \<open>\<open>itertools.groupby\<close>: maximal runs of consecutive elements with the same key.\<close>

fun groupby :: "('a \<Rightarrow> 'k) \<Rightarrow> 'a list \<Rightarrow> 'a list list" where
  "groupby key [] = []"
| "groupby key (x # xs) = (case groupby key xs of
     [] \<Rightarrow> [[x]]
   | g # gs \<Rightarrow> if key x = key (hd g) then (x # g) # gs else [x] # g # gs)"

text \<open>The scan over the days of a week: the day before the target found last, the first one after it, and a
  break on the target itself.\<close>

fun scan_week :: "int \<Rightarrow> date list \<Rightarrow> date option \<Rightarrow> date option \<Rightarrow> date option \<times> date option" where
  "scan_week target [] best best_after = (best, best_after)"
| "scan_week target (d # ds) best best_after =
     (if weekday d = target then (Some d, best_after)
      else if weekday d < target then scan_week target ds (Some d) best_after
      else if best_after = None then scan_week target ds best (Some d)
      else scan_week target ds best best_after)"

definition pick_in_week :: "int \<Rightarrow> date list \<Rightarrow> date" where
  "pick_in_week target ds = (case scan_week target ds None None of (best, best_after) \<Rightarrow>
     let best = (if best = None \<and> best_after \<noteq> None then best_after else best)
     in case best of None \<Rightarrow> last ds | Some d \<Rightarrow> d)"

definition quarter :: "date \<Rightarrow> nat" where
  "quarter d = (month d - 1) div 3"

definition ends_period :: "string \<Rightarrow> date \<Rightarrow> date \<Rightarrow> bool" where
  "ends_period freq d next_d \<longleftrightarrow>
     (if freq = ''weekly'' \<and> snd (iso_week next_d) \<noteq> snd (iso_week d) then True
      else if freq = ''monthly'' \<and> month next_d \<noteq> month d then True
      else freq = ''quarterly'' \<and> (quarter d \<noteq> quarter next_d \<or> year next_d \<noteq> year d))"

fun period_ends :: "string \<Rightarrow> date list \<Rightarrow> date list" where
  "period_ends freq [] = []"
| "period_ends freq [d] = [d]"
| "period_ends freq (d # next_d # ds) =
     (if ends_period freq d next_d then d # period_ends freq (next_d # ds) else period_ends freq (next_d # ds))"

definition rebalance_dates :: "calendar \<Rightarrow> date \<Rightarrow> date \<Rightarrow> string \<Rightarrow> int option \<Rightarrow> date list res" where
  "rebalance_dates cal a b freq rebal_weekday =
     (if freq \<notin> set valid_freqs then Inl ValueError
      else let days = trading_days_between cal a b in
        if days = [] then Inr []
        else if freq = ''daily'' then Inr days
        else case (freq = ''weekly'', rebal_weekday) of
          (True, Some t) \<Rightarrow> if 0 \<le> t \<and> t \<le> 4 then Inr (map (pick_in_week t) (groupby iso_week days)) else Inl ValueError
        | _ \<Rightarrow> Inr (period_ends freq days))"

section \<open>Neighbours\<close>

declare bisect_loop.simps [simp del]

lemma bisect_loop_spec:
  assumes "sorted cal" "lo \<le> hi" "hi \<le> length cal"
    and "\<And>i. i < lo \<Longrightarrow> cal ! i < d" "\<And>i. hi \<le> i \<Longrightarrow> i < length cal \<Longrightarrow> d \<le> cal ! i"
  shows "bisect_loop cal d lo hi \<le> length cal
    \<and> (\<forall>i < length cal. cal ! i < d \<longleftrightarrow> i < bisect_loop cal d lo hi)"
  using assms(2-)
proof (induction "hi - lo" arbitrary: lo hi rule: less_induct)
  case less
  show ?case
  proof (cases "lo < hi")
    case False
    then have eq: "hi = lo" using less.prems(1) by simp
    then have r: "bisect_loop cal d lo lo = lo" by (simp add: bisect_loop.simps)
    have "cal ! i < d \<longleftrightarrow> i < lo" if "i < length cal" for i
      using less.prems(3) [of i] less.prems(4) [OF _ that] eq by (metis leD not_le_imp_less)
    then show ?thesis using less.prems(2) unfolding eq r by simp
  next
    case True
    define mid where "mid = (lo + hi) div 2"
    have mid: "lo \<le> mid" "mid < hi" using True by (auto simp: mid_def)
    then have len: "mid < length cal" using less.prems(2) by simp
    show ?thesis
    proof (cases "cal ! mid < d")
      case before: True
      have "cal ! i < d" if "i < mid + 1" for i
      proof -
        have "cal ! i \<le> cal ! mid" using assms(1) that len by (intro sorted_nth_mono) auto
        then show ?thesis using before by simp
      qed
      then show ?thesis
        using less.hyps [of hi "mid + 1"] mid less.prems(2,4) True before
        by (simp add: bisect_loop.simps [of cal d lo hi] mid_def [symmetric])
    next
      case after: False
      have "d \<le> cal ! i" if "mid \<le> i" "i < length cal" for i
      proof -
        have "cal ! mid \<le> cal ! i" using assms(1) that by (intro sorted_nth_mono) auto
        then show ?thesis using after by simp
      qed
      then show ?thesis
        using less.hyps [of mid lo] mid less.prems(2,3) True after len
        by (simp add: bisect_loop.simps [of cal d lo hi] mid_def [symmetric])
    qed
  qed
qed

lemma bisect_left_spec:
  assumes "sorted cal"
  shows "bisect_left cal d \<le> length cal \<and> (\<forall>i < length cal. cal ! i < d \<longleftrightarrow> i < bisect_left cal d)"
  unfolding bisect_left_def by (rule bisect_loop_spec) (use assms in auto)

lemma new_calendar_set: "new_calendar ds = Inr cal \<Longrightarrow> set cal = set ds \<and> sorted cal \<and> distinct cal"
  by (auto simp: new_calendar_def split: if_splits)

text \<open>The neighbours of a date.  The binary search finds the greatest trading day strictly before the date and
  the least one on or after it, and nothing exactly when there is none.\<close>

theorem calendar_neighbours:
  assumes "new_calendar ds = Inr cal"
  shows "prev_trading_day cal d = (let before = {x. x \<in> set ds \<and> x < d} in if before = {} then None else Some (Max before))
    \<and> next_trading_day cal d = (let after = {x. x \<in> set ds \<and> d \<le> x} in if after = {} then None else Some (Min after))"
proof -
  let ?n = "bisect_left cal d"
  have cal: "set cal = set ds" "sorted cal" using new_calendar_set [OF assms] by auto
  have n: "?n \<le> length cal" "\<And>i. i < length cal \<Longrightarrow> cal ! i < d \<longleftrightarrow> i < ?n"
    using bisect_left_spec [OF cal(2), of d] by auto
  have before: "{x. x \<in> set ds \<and> x < d} = (\<lambda>i. cal ! i) ` {..<?n}"
    unfolding cal(1) [symmetric] unfolding set_conv_nth using n by (fastforce simp: image_iff)
  have after: "{x. x \<in> set ds \<and> d \<le> x} = (\<lambda>i. cal ! i) ` {?n..<length cal}"
    unfolding cal(1) [symmetric] unfolding set_conv_nth using n(2) by (auto simp: image_iff not_less [symmetric])
  have "prev_trading_day cal d = (if {x. x \<in> set ds \<and> x < d} = {} then None else Some (Max {x. x \<in> set ds \<and> x < d}))"
  proof (cases "?n = 0")
    case False
    have "Max ((\<lambda>i. cal ! i) ` {..<?n}) = cal ! (?n - 1)"
    proof (rule Max_eqI)
      fix y assume "y \<in> (\<lambda>i. cal ! i) ` {..<?n}"
      then obtain i where "i < ?n" "y = cal ! i" by blast
      then show "y \<le> cal ! (?n - 1)" using n(1) by (auto intro!: sorted_nth_mono [OF cal(2)])
    qed (use False in auto)
    then show ?thesis using False unfolding before by (simp add: prev_trading_day_def lessThan_empty_iff)
  qed (simp add: before prev_trading_day_def)
  moreover have "next_trading_day cal d = (if {x. x \<in> set ds \<and> d \<le> x} = {} then None else Some (Min {x. x \<in> set ds \<and> d \<le> x}))"
  proof (cases "?n < length cal")
    case True
    have "Min ((\<lambda>i. cal ! i) ` {?n..<length cal}) = cal ! ?n"
    proof (rule Min_eqI)
      fix y assume "y \<in> (\<lambda>i. cal ! i) ` {?n..<length cal}"
      then obtain i where "?n \<le> i" "i < length cal" "y = cal ! i" by auto
      then show "cal ! ?n \<le> y" by (auto intro!: sorted_nth_mono [OF cal(2)])
    qed (use True in auto)
    then show ?thesis using True unfolding after by (simp add: next_trading_day_def)
  qed (simp add: after next_trading_day_def)
  ultimately show ?thesis by (simp add: Let_def)
qed

section \<open>One date per period\<close>

lemma groupby_concat: "concat (groupby key xs) = xs"
  by (induction xs) (auto split: list.split)

lemma groupby_nonempty: "g \<in> set (groupby key xs) \<Longrightarrow> g \<noteq> []"
  by (induction xs arbitrary: g) (auto split: list.splits if_splits)

lemma groupby_Nil_iff: "groupby key xs = [] \<longleftrightarrow> xs = []"
  by (cases xs) (auto split: list.split)

lemma hd_groupby: "xs \<noteq> [] \<Longrightarrow> hd (hd (groupby key xs)) = hd xs"
  by (cases xs) (auto split: list.split)

lemma groupby_map_last:
  "map last (groupby key (x # y # xs)) =
    (if key x = key y then map last (groupby key (y # xs)) else x # map last (groupby key (y # xs)))"
proof -
  obtain g gs where g: "groupby key (y # xs) = g # gs" using groupby_Nil_iff [of key "y # xs"] by (cases "groupby key (y # xs)") auto
  have "hd g = y" using hd_groupby [of "y # xs" key] g by simp
  moreover have "g \<noteq> []" using groupby_nonempty [of g key "y # xs"] g by simp
  ultimately show ?thesis using g by simp
qed

text \<open>The period of a date; a plain weekly rebalance compares week numbers only.\<close>

definition period_key :: "string \<Rightarrow> int option \<Rightarrow> date \<Rightarrow> int \<times> int \<times> int" where
  "period_key freq weekday_of d =
     (if freq = ''weekly'' then (case weekday_of of None \<Rightarrow> (0, 0, snd (iso_week d)) | Some _ \<Rightarrow> (0, int (fst (iso_week d)), snd (iso_week d)))
      else if freq = ''monthly'' then (0, 0, int (month d))
      else if freq = ''quarterly'' then (0, int (year d), int (quarter d))
      else (int (year d), int (month d), int (day d)))"

lemma period_ends_groups:
  assumes "freq \<in> {''weekly'', ''monthly'', ''quarterly''}"
  shows "period_ends freq ds = map last (groupby (period_key freq None) ds)"
  using assms
proof (induction freq ds rule: period_ends.induct)
  case (3 freq d e ds)
  have "ends_period freq d e \<longleftrightarrow> period_key freq None d \<noteq> period_key freq None e"
    using "3.prems" unfolding ends_period_def period_key_def by (elim insertE emptyE) auto
  then show ?case unfolding period_ends.simps groupby_map_last using 3 by simp
qed simp_all

lemma scan_week_mem:
  assumes "scan_week t ds b a = (b', a')"
  shows "(b' = b \<or> b' \<in> Some ` set ds) \<and> (a' = a \<or> a' \<in> Some ` set ds) \<and> (b' = None \<longrightarrow> a' = None \<longrightarrow> ds = [])"
  using assms
proof (induction t ds b a rule: scan_week.induct)
  case (2 t d ds b a)
  then show ?case by (auto split: if_splits)
qed simp

lemma pick_in_week_mem: "ds \<noteq> [] \<Longrightarrow> pick_in_week t ds \<in> set ds"
proof -
  assume ds: "ds \<noteq> []"
  obtain b a where s: "scan_week t ds None None = (b, a)" by (cases "scan_week t ds None None")
  show ?thesis using scan_week_mem [OF s] ds by (auto simp: pick_in_week_def s)
qed

lemma groupby_singletons: "distinct xs \<Longrightarrow> inj key \<Longrightarrow> groupby key xs = map (\<lambda>x. [x]) xs"
proof (induction xs)
  case (Cons x xs)
  then show ?case by (cases xs) (auto dest: injD)
qed simp

lemma daily_key_inj: "inj (period_key ''daily'' wd)"
  by (rule injI) (auto simp: period_key_def intro: date.expand)

lemma last_in_groups: "list_all2 (\<lambda>d p. d \<in> set p) (map last (groupby key ds)) (groupby key ds)"
proof -
  have "\<forall>g \<in> set (groupby key ds). last g \<in> set g" using groupby_nonempty last_in_set by blast
  then show ?thesis by (simp add: list.rel_map list.rel_refl_strong)
qed


text \<open>A week without its rebalance weekday.  When no trading day of the week falls on the chosen weekday but
  some fall before it, the last of those is taken, also when the week has a later trading day; the description of
  the function and its closing comment promise the following trading day first.\<close>

theorem weekday_pick_prefers_preceding:
  assumes "list_all (\<lambda>d. weekday d \<noteq> t) ds" and "filter (\<lambda>d. weekday d < t) ds \<noteq> []"
  shows "pick_in_week t ds = last (filter (\<lambda>d. weekday d < t) ds)"
proof -
  have "fst (scan_week t ds b a) = (if filter (\<lambda>d. weekday d < t) ds = [] then b else Some (last (filter (\<lambda>d. weekday d < t) ds)))"
    if "list_all (\<lambda>d. weekday d \<noteq> t) ds" for ds b a
    using that by (induction t ds b a rule: scan_week.induct) auto
  from this [OF assms(1)] assms(2) show ?thesis
    by (simp add: pick_in_week_def case_prod_beta')
qed

definition holiday_week :: "date list" where
  "holiday_week = [Date 2024 1 1, Date 2024 1 2, Date 2024 1 4, Date 2024 1 5]"

theorem weekday_pick_prefers_preceding_witness:
  "pick_in_week 2 holiday_week = Date 2024 1 2 \<and> map weekday holiday_week = [0, 1, 3, 4]"
proof -
  have "list_all (\<lambda>d. weekday d \<noteq> 2) holiday_week" and f: "filter (\<lambda>d. weekday d < 2) holiday_week = [Date 2024 1 1, Date 2024 1 2]"
    and w: "map weekday holiday_week = [0, 1, 3, 4]" by code_simp+
  with weekday_pick_prefers_preceding [of 2 holiday_week] show ?thesis by simp
qed

theorem calendar_neighbours_witness:
  "\<exists>cal. new_calendar [Date 2024 1 5, Date 2024 1 2] = Inr cal \<and> prev_trading_day cal (Date 2024 1 5) = Some (Date 2024 1 2)
     \<and> next_trading_day cal (Date 2024 1 5) = Some (Date 2024 1 5) \<and> next_trading_day cal (Date 2024 1 6) = None"
proof -
  define cal where "cal = [Date 2024 1 2, Date 2024 1 5]"
  have c: "new_calendar [Date 2024 1 5, Date 2024 1 2] = Inr cal" unfolding cal_def by code_simp
  have "{x. x \<in> set [Date 2024 1 5, Date 2024 1 2] \<and> x < Date 2024 1 5} = {Date 2024 1 2}"
    and "{x. x \<in> set [Date 2024 1 5, Date 2024 1 2] \<and> Date 2024 1 5 \<le> x} = {Date 2024 1 5}"
    and "{x. x \<in> set [Date 2024 1 5, Date 2024 1 2] \<and> Date 2024 1 6 \<le> x} = {}"
    by (auto simp: less_eq_date_def less_date_def)
  note sets = this
  have "prev_trading_day cal (Date 2024 1 5) = Some (Date 2024 1 2)" "next_trading_day cal (Date 2024 1 5) = Some (Date 2024 1 5)"
    using calendar_neighbours [OF c, of "Date 2024 1 5"] unfolding sets Let_def by simp_all
  moreover have "next_trading_day cal (Date 2024 1 6) = None"
    using calendar_neighbours [OF c, of "Date 2024 1 6"] unfolding sets Let_def by simp
  ultimately show ?thesis using c by blast
qed


end
