(* ===== verification/Deployment_Spec.thy ===== *)
theory Deployment_Spec
  imports PyValue
begin

text \<open>
  \<open>ez/live/deployment_spec.py\<close>: the immutable specification of a deployment and its content hash.  The text
  of a JSON value and its parser are the arguments \<open>dumps\<close> and \<open>loads\<close>, the SHA-256 digest is \<open>sha\<close>; keys are
  sorted here, as \<open>sort_keys\<close> asks.
\<close>

section \<open>Canonical JSON\<close>

fun sort_json :: "json \<Rightarrow> json" where
  "sort_json (JObj d) = JObj (sort_key fst (map (\<lambda>(k, v). (k, sort_json v)) d))"
| "sort_json (JList xs) = JList (map sort_json xs)"
| "sort_json x = x"

record json_text =
  jt_dumps :: "json \<Rightarrow> string"
  jt_loads :: "string \<Rightarrow> json res"

definition canonical_text :: "json_text \<Rightarrow> json \<Rightarrow> string" where
  "canonical_text L x = jt_dumps L (sort_json x)"

section \<open>Specifications\<close>

text \<open>The arguments of the constructor; what it coerces is a dynamic value.\<close>

record spec_args =
  sa_strategy_name :: string
  sa_strategy_params :: json
  sa_symbols :: "string list"
  sa_market :: string
  sa_freq :: string
  sa_broker_type :: string
  sa_shadow_broker_type :: string
  sa_t_plus_1 :: json
  sa_price_limit_pct :: json
  sa_lot_size :: json
  sa_buy_commission_rate :: json
  sa_sell_commission_rate :: json
  sa_stamp_tax_rate :: json
  sa_slippage_rate :: json
  sa_min_commission :: json
  sa_optimizer :: string
  sa_optimizer_params :: json
  sa_risk_control :: json
  sa_risk_params :: json
  sa_rebal_weekday :: json
  sa_initial_cash :: json

record spec =
  sp_strategy_name :: string
  sp_strategy_params_json :: string
  sp_symbols :: "string list"
  sp_market :: string
  sp_freq :: string
  sp_broker_type :: string
  sp_shadow_broker_type :: string
  sp_t_plus_1 :: bool
  sp_price_limit_pct :: flt
  sp_lot_size :: int
  sp_buy_commission_rate :: flt
  sp_sell_commission_rate :: flt
  sp_stamp_tax_rate :: flt
  sp_slippage_rate :: flt
  sp_min_commission :: flt
  sp_optimizer :: string
  sp_optimizer_params_json :: string
  sp_risk_control :: bool
  sp_risk_params_json :: string
  sp_rebal_weekday :: "int option"
  sp_initial_cash :: flt
  sp_spec_id :: string

definition str_default :: "string \<Rightarrow> string \<Rightarrow> string" where
  "str_default s dflt = (if s = [] then dflt else s)"

definition canonical_dict :: "spec \<Rightarrow> payload" where
  "canonical_dict sp =
     [(''strategy_name'', JStr (sp_strategy_name sp)), (''strategy_params'', JStr (sp_strategy_params_json sp)),
      (''symbols'', JList (map JStr (sp_symbols sp))), (''market'', JStr (sp_market sp)), (''freq'', JStr (sp_freq sp)),
      (''broker_type'', JStr (sp_broker_type sp)), (''shadow_broker_type'', JStr (sp_shadow_broker_type sp)),
      (''t_plus_1'', JBool (sp_t_plus_1 sp)), (''price_limit_pct'', JFloat (sp_price_limit_pct sp)),
      (''lot_size'', JInt (sp_lot_size sp)), (''buy_commission_rate'', JFloat (sp_buy_commission_rate sp)),
      (''sell_commission_rate'', JFloat (sp_sell_commission_rate sp)), (''stamp_tax_rate'', JFloat (sp_stamp_tax_rate sp)),
      (''slippage_rate'', JFloat (sp_slippage_rate sp)), (''min_commission'', JFloat (sp_min_commission sp)),
      (''optimizer'', JStr (sp_optimizer sp)), (''optimizer_params'', JStr (sp_optimizer_params_json sp)),
      (''risk_control'', JBool (sp_risk_control sp)), (''risk_params'', JStr (sp_risk_params_json sp)),
      (''rebal_weekday'', case sp_rebal_weekday sp of None \<Rightarrow> JNull | Some n \<Rightarrow> JInt n),
      (''initial_cash'', JFloat (sp_initial_cash sp))]"

definition compute_content_hash :: "json_text \<Rightarrow> (string \<Rightarrow> string) \<Rightarrow> spec \<Rightarrow> string" where
  "compute_content_hash L sha sp = take 16 (sha (canonical_text L (JObj (canonical_dict sp))))"

definition new_spec :: "json_text \<Rightarrow> (string \<Rightarrow> string) \<Rightarrow> spec_args \<Rightarrow> spec res" where
  "new_spec L sha a =
     rbind (py_float (sa_price_limit_pct a)) (\<lambda>price_limit.
     rbind (py_int (sa_lot_size a)) (\<lambda>lot.
     rbind (py_float (sa_buy_commission_rate a)) (\<lambda>buy.
     rbind (py_float (sa_sell_commission_rate a)) (\<lambda>sell.
     rbind (py_float (sa_stamp_tax_rate a)) (\<lambda>stamp.
     rbind (py_float (sa_slippage_rate a)) (\<lambda>slip.
     rbind (py_float (sa_min_commission a)) (\<lambda>min_comm.
     rbind (if sa_rebal_weekday a = JNull then Inr None else rbind (py_int (sa_rebal_weekday a)) (\<lambda>n. Inr (Some n))) (\<lambda>wd.
     rbind (py_float (sa_initial_cash a)) (\<lambda>init.
       let sp = \<lparr>sp_strategy_name = sa_strategy_name a,
          sp_strategy_params_json = canonical_text L (sa_strategy_params a), sp_symbols = sort (sa_symbols a),
          sp_market = sa_market a, sp_freq = sa_freq a, sp_broker_type = str_default (sa_broker_type a) ''paper'',
          sp_shadow_broker_type = sa_shadow_broker_type a, sp_t_plus_1 = truthy (sa_t_plus_1 a),
          sp_price_limit_pct = price_limit, sp_lot_size = lot, sp_buy_commission_rate = buy,
          sp_sell_commission_rate = sell, sp_stamp_tax_rate = stamp, sp_slippage_rate = slip,
          sp_min_commission = min_comm, sp_optimizer = sa_optimizer a,
          sp_optimizer_params_json = canonical_text L (py_or (sa_optimizer_params a) (JObj [])),
          sp_risk_control = truthy (sa_risk_control a),
          sp_risk_params_json = canonical_text L (py_or (sa_risk_params a) (JObj [])),
          sp_rebal_weekday = wd, sp_initial_cash = init, sp_spec_id = []\<rparr>
       in Inr (sp\<lparr>sp_spec_id := compute_content_hash L sha sp\<rparr>))))))))))"

definition strategy_params :: "json_text \<Rightarrow> spec \<Rightarrow> json res" where
  "strategy_params L sp = jt_loads L (sp_strategy_params_json sp)"

definition optimizer_params :: "json_text \<Rightarrow> spec \<Rightarrow> json res" where
  "optimizer_params L sp = jt_loads L (sp_optimizer_params_json sp)"

definition risk_params :: "json_text \<Rightarrow> spec \<Rightarrow> json res" where
  "risk_params L sp = jt_loads L (sp_risk_params_json sp)"

definition to_json :: "json_text \<Rightarrow> spec \<Rightarrow> string" where
  "to_json L sp = canonical_text L (JObj (canonical_dict sp @ [(''spec_id'', JStr (sp_spec_id sp))]))"

text \<open>A field that is used as text; other values are outside the model.\<close>

fun text_of :: "json \<Rightarrow> string res" where
  "text_of (JStr s) = Inr s"
| "text_of _ = Inl NotModelled"

text \<open>\<open>json.loads(d[k]) if isinstance(d[k], str) else d[k]\<close>\<close>

definition params_field :: "json_text \<Rightarrow> payload \<Rightarrow> string \<Rightarrow> json res" where
  "params_field L d k = rbind (jitem d k) (\<lambda>v. case v of JStr s \<Rightarrow> jt_loads L s | _ \<Rightarrow> Inr v)"

definition args_from_dict :: "json_text \<Rightarrow> payload \<Rightarrow> spec_args res" where
  "args_from_dict L d =
     rbind (params_field L d ''strategy_params'') (\<lambda>sparams.
     rbind (params_field L d ''optimizer_params'') (\<lambda>oparams.
     rbind (params_field L d ''risk_params'') (\<lambda>rparams.
     rbind (rbind (jitem d ''strategy_name'') text_of) (\<lambda>name.
     rbind (rbind (jitem d ''symbols'') (\<lambda>v. rbind (py_list v) (rmap text_of))) (\<lambda>symbs.
     rbind (rbind (jitem d ''market'') text_of) (\<lambda>market.
     rbind (rbind (jitem d ''freq'') text_of) (\<lambda>freq.
     rbind (text_of (py_or (jget d ''broker_type'' (JStr ''paper'')) (JStr []))) (\<lambda>broker.
     rbind (text_of (py_or (jget d ''shadow_broker_type'' (JStr [])) (JStr []))) (\<lambda>shadow.
     rbind (text_of (py_or (jget d ''optimizer'' (JStr [])) (JStr []))) (\<lambda>opt.
       Inr \<lparr>sa_strategy_name = name, sa_strategy_params = sparams, sa_symbols = symbs, sa_market = market,
         sa_freq = freq, sa_broker_type = broker, sa_shadow_broker_type = shadow,
         sa_t_plus_1 = jget d ''t_plus_1'' (JBool True), sa_price_limit_pct = jget d ''price_limit_pct'' (JFloat (1 / 10)),
         sa_lot_size = jget d ''lot_size'' (JInt 100),
         sa_buy_commission_rate = jget d ''buy_commission_rate'' (JFloat (8 / 100000)),
         sa_sell_commission_rate = jget d ''sell_commission_rate'' (JFloat (8 / 100000)),
         sa_stamp_tax_rate = jget d ''stamp_tax_rate'' (JFloat (5 / 10000)),
         sa_slippage_rate = jget d ''slippage_rate'' (JFloat (1 / 1000)),
         sa_min_commission = jget d ''min_commission'' (JFloat 0), sa_optimizer = opt,
         sa_optimizer_params = oparams, sa_risk_control = jget d ''risk_control'' (JBool False),
         sa_risk_params = rparams, sa_rebal_weekday = jget d ''rebal_weekday'' JNull,
         sa_initial_cash = jget d ''initial_cash'' (JFloat 1000000)\<rparr>))))))))))"

definition from_json :: "json_text \<Rightarrow> (string \<Rightarrow> string) \<Rightarrow> string \<Rightarrow> spec res" where
  "from_json L sha s = rbind (jt_loads L s) (\<lambda>j. case as_dict j of
     None \<Rightarrow> Inl TypeError
   | Some d \<Rightarrow> rbind (rbind (args_from_dict L d) (new_spec L sha)) (\<lambda>sp.
       Inr (case jget d ''spec_id'' JNull of
         JStr i \<Rightarrow> if i = [] then sp else sp\<lparr>sp_spec_id := i\<rparr> | _ \<Rightarrow> sp)))"

definition is_legacy_spec_id :: "json_text \<Rightarrow> (string \<Rightarrow> string) \<Rightarrow> spec \<Rightarrow> bool" where
  "is_legacy_spec_id L sha sp \<longleftrightarrow> sp_spec_id sp \<noteq> compute_content_hash L sha sp"

section \<open>Properties\<close>

lemma sort_key_idem: "sort_key f (sort_key f xs) = sort_key f xs"
  by (rule properties_for_sort_key) simp_all

lemma map_fst_snd_sort:
  fixes f :: "'b \<Rightarrow> 'c" and xs :: "('k::linorder \<times> 'b) list"
  shows "map (\<lambda>(k, v). (k, f v)) (sort_key fst xs) = sort_key fst (map (\<lambda>(k, v). (k, f v)) xs)"
proof -
  have "map (\<lambda>(k, v). (k, f v)) (insort_key fst p ys) = insort_key fst (case p of (k, v) \<Rightarrow> (k, f v)) (map (\<lambda>(k, v). (k, f v)) ys)"
    for p :: "'k \<times> 'b" and ys
    by (induction ys) (auto split: prod.splits)
  then show ?thesis by (induction xs) auto
qed

lemma sort_json_idem [simp]: "sort_json (sort_json x) = sort_json x"
proof (induction x rule: sort_json.induct)
  case (1 d)
  have "map (\<lambda>(k, v). (k, sort_json v)) (map (\<lambda>(k, v). (k, sort_json v)) d) = map (\<lambda>(k, v). (k, sort_json v)) d"
    using 1 by fastforce
  then show ?case by (simp only: sort_json.simps map_fst_snd_sort sort_key_idem)
qed auto

lemma sort_key_Nil_iff [simp]: "sort_key f xs = [] \<longleftrightarrow> xs = []"
  by (metis length_0_conv length_sort)

lemma truthy_sort_json [simp]: "truthy (sort_json x) = truthy x"
  by (cases x) simp_all

lemma map_of_sort_key:
  assumes "distinct (map fst d)"
  shows "map_of (sort_key fst d) k = map_of d k"
proof -
  have "mset (map fst (sort_key fst d)) = mset (map fst d)" by simp
  then have "distinct (map fst (sort_key fst d))" using assms by (metis mset_eq_imp_distinct_iff)
  then have "map_of (sort_key fst d) k = Some v \<longleftrightarrow> map_of d k = Some v" for v
    using assms by (simp add: map_of_eq_Some_iff)
  then show ?thesis by (metis option.exhaust)
qed

text \<open>The text of a value reads back as the value.\<close>

definition reads_back :: "json_text \<Rightarrow> json \<Rightarrow> bool" where
  "reads_back L x \<longleftrightarrow> jt_loads L (canonical_text L x) = Inr (sort_json x)"

lemma canonical_text_sorted [simp]: "canonical_text L (sort_json x) = canonical_text L x"
  by (simp add: canonical_text_def)

lemma rmap_text [simp]: "rmap text_of (map JStr xs) = Inr xs"
  by (induction xs) auto

lemma text_py_or [simp]: "text_of (py_or (JStr s) (JStr [])) = Inr s"
  by (simp add: py_or_def)

definition stored_dict :: "spec \<Rightarrow> payload" where
  "stored_dict sp = canonical_dict sp @ [(''spec_id'', JStr (sp_spec_id sp))]"

lemma stored_dict_keys: "distinct (map fst (stored_dict sp))"
  by (simp add: stored_dict_def canonical_dict_def)

lemma flat_sort: "list_all (\<lambda>(k, v). sort_json v = v) d \<Longrightarrow> sort_json (JObj d) = JObj (sort_key fst d)"
  by (auto simp: list_all_iff intro!: arg_cong [where f = "sort_key fst"] map_idI)

lemma stored_dict_flat: "sort_json (JObj (stored_dict sp)) = JObj (sort_key fst (stored_dict sp))"
  by (rule flat_sort) (simp add: stored_dict_def canonical_dict_def comp_def split: option.split)

lemma stored_get: "jget (sort_key fst (stored_dict sp)) k dflt = jget (stored_dict sp) k dflt"
  "jitem (sort_key fst (stored_dict sp)) k = jitem (stored_dict sp) k"
  by (simp_all add: jget_def jitem_def dget_or_def map_of_sort_key [OF stored_dict_keys])

lemma stored_args:
  assumes "jt_loads L (sp_strategy_params_json sp) = Inr x" "jt_loads L (sp_optimizer_params_json sp) = Inr y"
    and "jt_loads L (sp_risk_params_json sp) = Inr z"
  shows "args_from_dict L (sort_key fst (stored_dict sp)) = Inr
    \<lparr>sa_strategy_name = sp_strategy_name sp, sa_strategy_params = x, sa_symbols = sp_symbols sp, sa_market = sp_market sp,
     sa_freq = sp_freq sp, sa_broker_type = sp_broker_type sp, sa_shadow_broker_type = sp_shadow_broker_type sp,
     sa_t_plus_1 = JBool (sp_t_plus_1 sp), sa_price_limit_pct = JFloat (sp_price_limit_pct sp),
     sa_lot_size = JInt (sp_lot_size sp), sa_buy_commission_rate = JFloat (sp_buy_commission_rate sp),
     sa_sell_commission_rate = JFloat (sp_sell_commission_rate sp), sa_stamp_tax_rate = JFloat (sp_stamp_tax_rate sp),
     sa_slippage_rate = JFloat (sp_slippage_rate sp), sa_min_commission = JFloat (sp_min_commission sp),
     sa_optimizer = sp_optimizer sp, sa_optimizer_params = y, sa_risk_control = JBool (sp_risk_control sp),
     sa_risk_params = z, sa_rebal_weekday = (case sp_rebal_weekday sp of None \<Rightarrow> JNull | Some n \<Rightarrow> JInt n),
     sa_initial_cash = JFloat (sp_initial_cash sp)\<rparr>"
proof -
  let ?d = "stored_dict sp"
  have f: "jitem ?d ''strategy_params'' = Inr (JStr (sp_strategy_params_json sp))"
    "jitem ?d ''optimizer_params'' = Inr (JStr (sp_optimizer_params_json sp))"
    "jitem ?d ''risk_params'' = Inr (JStr (sp_risk_params_json sp))"
    "jitem ?d ''strategy_name'' = Inr (JStr (sp_strategy_name sp))" "jitem ?d ''symbols'' = Inr (JList (map JStr (sp_symbols sp)))"
    "jitem ?d ''market'' = Inr (JStr (sp_market sp))" "jitem ?d ''freq'' = Inr (JStr (sp_freq sp))"
    by (simp_all add: jitem_def stored_dict_def canonical_dict_def)
  show ?thesis unfolding args_from_dict_def params_field_def stored_get f
    by (simp add: assms jget_def dget_or_def stored_dict_def canonical_dict_def)
qed

text \<open>C28: A stored specification is the specification.  Reading back the text that a new specification is stored
  as gives the same specification, with the same id, and the id is recognised as current, provided the JSON library
  reads back the texts it wrote.\<close>

theorem spec_json_roundtrip:
  assumes "new_spec L sha a = Inr sp"
    and "reads_back L (sa_strategy_params a)" and "reads_back L (py_or (sa_optimizer_params a) (JObj []))"
    and "reads_back L (py_or (sa_risk_params a) (JObj []))"
    and "reads_back L (JObj (canonical_dict sp @ [(''spec_id'', JStr (sp_spec_id sp))]))"
  shows "from_json L sha (to_json L sp) = Inr sp \<and> \<not> is_legacy_spec_id L sha sp"
proof -
  let ?x = "sort_json (sa_strategy_params a)"
  let ?y = "sort_json (py_or (sa_optimizer_params a) (JObj []))"
  let ?z = "sort_json (py_or (sa_risk_params a) (JObj []))"
  have or_idem: "py_or (sort_json (py_or v (JObj []))) (JObj []) = sort_json (py_or v (JObj []))" for v
    by (simp add: py_or_def)
  have fields: "sp_strategy_params_json sp = canonical_text L (sa_strategy_params a)"
    "sp_optimizer_params_json sp = canonical_text L (py_or (sa_optimizer_params a) (JObj []))"
    "sp_risk_params_json sp = canonical_text L (py_or (sa_risk_params a) (JObj []))"
    "sp_symbols sp = sort (sa_symbols a)" "sp_broker_type sp = str_default (sa_broker_type a) ''paper''"
    "sp_spec_id sp = compute_content_hash L sha sp"
    using assms(1) by (auto simp: new_spec_def Let_def compute_content_hash_def canonical_dict_def)
  have args: "args_from_dict L (sort_key fst (stored_dict sp)) = Inr
    \<lparr>sa_strategy_name = sp_strategy_name sp, sa_strategy_params = ?x, sa_symbols = sp_symbols sp, sa_market = sp_market sp,
     sa_freq = sp_freq sp, sa_broker_type = sp_broker_type sp, sa_shadow_broker_type = sp_shadow_broker_type sp,
     sa_t_plus_1 = JBool (sp_t_plus_1 sp), sa_price_limit_pct = JFloat (sp_price_limit_pct sp),
     sa_lot_size = JInt (sp_lot_size sp), sa_buy_commission_rate = JFloat (sp_buy_commission_rate sp),
     sa_sell_commission_rate = JFloat (sp_sell_commission_rate sp), sa_stamp_tax_rate = JFloat (sp_stamp_tax_rate sp),
     sa_slippage_rate = JFloat (sp_slippage_rate sp), sa_min_commission = JFloat (sp_min_commission sp),
     sa_optimizer = sp_optimizer sp, sa_optimizer_params = ?y, sa_risk_control = JBool (sp_risk_control sp),
     sa_risk_params = ?z, sa_rebal_weekday = (case sp_rebal_weekday sp of None \<Rightarrow> JNull | Some n \<Rightarrow> JInt n),
     sa_initial_cash = JFloat (sp_initial_cash sp)\<rparr>" (is "_ = Inr ?args")
    by (rule stored_args) (use assms(2-4) fields in \<open>simp_all add: reads_back_def\<close>)
  have dflt: "str_default (str_default s ''paper'') ''paper'' = str_default s ''paper''" for s
    by (simp add: str_default_def)
  have spec: "new_spec L sha ?args = Inr (sp\<lparr>sp_spec_id := compute_content_hash L sha (sp\<lparr>sp_spec_id := []\<rparr>)\<rparr>)"
  proof -
    have eq: "sp\<lparr>sp_spec_id := []\<rparr> = \<lparr>sp_strategy_name = sp_strategy_name sp,
          sp_strategy_params_json = canonical_text L ?x, sp_symbols = sort (sp_symbols sp),
          sp_market = sp_market sp, sp_freq = sp_freq sp, sp_broker_type = str_default (sp_broker_type sp) ''paper'',
          sp_shadow_broker_type = sp_shadow_broker_type sp, sp_t_plus_1 = sp_t_plus_1 sp,
          sp_price_limit_pct = sp_price_limit_pct sp, sp_lot_size = sp_lot_size sp,
          sp_buy_commission_rate = sp_buy_commission_rate sp,
          sp_sell_commission_rate = sp_sell_commission_rate sp, sp_stamp_tax_rate = sp_stamp_tax_rate sp,
          sp_slippage_rate = sp_slippage_rate sp,
          sp_min_commission = sp_min_commission sp, sp_optimizer = sp_optimizer sp,
          sp_optimizer_params_json = canonical_text L (py_or ?y (JObj [])),
          sp_risk_control = sp_risk_control sp,
          sp_risk_params_json = canonical_text L (py_or ?z (JObj [])),
          sp_rebal_weekday = sp_rebal_weekday sp, sp_initial_cash = sp_initial_cash sp, sp_spec_id = []\<rparr>"
      using fields by (cases sp) (simp add: or_idem dflt sort_key_idem)
    have wd: "(if (case w of None \<Rightarrow> JNull | Some n \<Rightarrow> JInt n) = JNull then Inr None
        else rbind (py_int (case w of None \<Rightarrow> JNull | Some n \<Rightarrow> JInt n)) (\<lambda>n. Inr (Some n))) = Inr w" for w
      by (cases w) simp_all
    have "new_spec L sha ?args = Inr ((sp\<lparr>sp_spec_id := []\<rparr>)\<lparr>sp_spec_id := compute_content_hash L sha (sp\<lparr>sp_spec_id := []\<rparr>)\<rparr>)"
      unfolding new_spec_def Let_def
      by (simp only: spec_args.simps py_float.simps py_int.simps truthy.simps wd rbind.simps eq)
    then show ?thesis by simp
  qed
  have id: "compute_content_hash L sha (sp\<lparr>sp_spec_id := []\<rparr>) = sp_spec_id sp"
    using fields(6) by (simp add: compute_content_hash_def canonical_dict_def)
  have "sp\<lparr>sp_spec_id := sp_spec_id sp\<rparr> = sp" by simp
  moreover have "jt_loads L (to_json L sp) = Inr (JObj (sort_key fst (stored_dict sp)))"
    using assms(5) unfolding to_json_def reads_back_def stored_dict_def [symmetric] stored_dict_flat .
  moreover have "jget (sort_key fst (stored_dict sp)) ''spec_id'' JNull = JStr (sp_spec_id sp)"
    by (simp add: stored_get, simp add: stored_dict_def canonical_dict_def jget_def dget_or_def)
  ultimately have "from_json L sha (to_json L sp) = Inr sp"
    by (simp add: from_json_def args spec id)
  then show ?thesis using fields(6) by (simp add: is_legacy_spec_id_def)
qed

text \<open>The id of a specification depends on its logical content only: another order of the symbols or of the
  keys of the strategy parameters gives the same specification.\<close>

theorem spec_order_independent:
  assumes "dict_ok params" and "mset params' = mset params" and "mset symbs' = mset symbs"
  shows "new_spec L sha (a\<lparr>sa_strategy_params := JObj params', sa_symbols := symbs'\<rparr>)
    = new_spec L sha (a\<lparr>sa_strategy_params := JObj params, sa_symbols := symbs\<rparr>)"
proof -
  let ?f = "\<lambda>d. map (\<lambda>(k, v). (k, sort_json v)) d"
  have keys: "inj_on fst (set (?f params))"
    using assms(1) by (fastforce simp: dict_ok_def distinct_map inj_on_def)
  have "sort_key fst (?f params') = sort_key fst (?f params)"
  proof (rule properties_for_sort_key)
    show "mset (sort_key fst (?f params)) = mset (?f params')" using assms(2) by simp
    have one: "filter (\<lambda>x. fst k = fst x) d = filter (\<lambda>x. x = k) d"
      if "k \<in> set (?f params)" "set d = set (?f params)" for d k
    proof (rule filter_cong [OF refl])
      fix x assume "x \<in> set d"
      then have "fst k = fst x \<Longrightarrow> k = x" using inj_onD [OF keys _ that(1), of x] that(2) by metis
      then show "(fst k = fst x) = (x = k)" by auto
    qed
    have sets: "set (?f params') = set (?f params)" using assms(2) by (metis mset_map set_mset_mset)
    fix k assume "k \<in> set (sort_key fst (?f params))"
    then have k: "k \<in> set (?f params)" by simp
    have rep: "filter (\<lambda>x. x = k) d = replicate (count (mset d) k) k" for d
      by (induction d) auto
    have "count (mset (?f params')) k = count (mset (sort_key fst (?f params))) k"
      using assms(2) by simp
    then show "filter (\<lambda>x. fst k = fst x) (sort_key fst (?f params)) = filter (\<lambda>x. fst k = fst x) (?f params')"
      unfolding one [OF k sets] one [OF k set_sort] rep by simp
  qed simp
  then have "canonical_text L (JObj params') = canonical_text L (JObj params)" by (simp add: canonical_text_def)
  moreover have "sort symbs' = sort symbs" by (rule properties_for_sort) (simp_all add: assms(3))
  ultimately show ?thesis by (simp add: new_spec_def)
qed

definition sample_args :: spec_args where
  "sample_args = \<lparr>sa_strategy_name = ''TopN'', sa_strategy_params = JObj [(''top_n'', JInt 5), (''factor'', JStr ''m'')],
     sa_symbols = [''B'', ''A''], sa_market = ''cn_stock'', sa_freq = ''weekly'', sa_broker_type = [],
     sa_shadow_broker_type = [], sa_t_plus_1 = JBool True, sa_price_limit_pct = JInt 0, sa_lot_size = JInt 100,
     sa_buy_commission_rate = JInt 0, sa_sell_commission_rate = JInt 0, sa_stamp_tax_rate = JInt 0,
     sa_slippage_rate = JInt 0, sa_min_commission = JInt 0, sa_optimizer = [], sa_optimizer_params = JNull,
     sa_risk_control = JBool False, sa_risk_params = JNull, sa_rebal_weekday = JInt 2, sa_initial_cash = JInt 1000\<rparr>"

text \<open>A library that writes three values as numbers and reads them back.\<close>

definition sample_values :: "json list" where
  "sample_values = [JObj [], JObj [(''factor'', JStr ''m''), (''top_n'', JInt 5)],
     sort_json (JObj [(''strategy_name'', JStr ''TopN''), (''strategy_params'', JStr ''1''),
      (''symbols'', JList [JStr ''A'', JStr ''B'']), (''market'', JStr ''cn_stock''), (''freq'', JStr ''weekly''),
      (''broker_type'', JStr ''paper''), (''shadow_broker_type'', JStr []),
      (''t_plus_1'', JBool True), (''price_limit_pct'', JFloat 0), (''lot_size'', JInt 100),
      (''buy_commission_rate'', JFloat 0), (''sell_commission_rate'', JFloat 0), (''stamp_tax_rate'', JFloat 0),
      (''slippage_rate'', JFloat 0), (''min_commission'', JFloat 0), (''optimizer'', JStr []), (''optimizer_params'', JStr ''0''),
      (''risk_control'', JBool False), (''risk_params'', JStr ''0''), (''rebal_weekday'', JInt 2),
      (''initial_cash'', JFloat 1000), (''spec_id'', JStr ''3'')])]"

definition sample_text :: json_text where
  "sample_text = \<lparr>jt_dumps = (\<lambda>x. nat_str (length (takeWhile (\<lambda>y. y \<noteq> x) sample_values))),
     jt_loads = (\<lambda>s. case List.find (\<lambda>i. nat_str i = s) [0..<3] of None \<Rightarrow> Inl ValueError | Some i \<Rightarrow> Inr (sample_values ! i))\<rparr>"

definition sample_spec :: spec where
  "sample_spec = (case new_spec sample_text (\<lambda>s. s) sample_args of Inr sp \<Rightarrow> sp | Inl _ \<Rightarrow> undefined)"

theorem spec_json_roundtrip_witness:
  "from_json sample_text (\<lambda>s. s) (to_json sample_text sample_spec) = Inr sample_spec \<and> sp_symbols sample_spec = [''A'', ''B'']"
proof -
  have n: "\<not> isl (new_spec sample_text (\<lambda>s. s) sample_args)" by code_simp
  then have sp: "new_spec sample_text (\<lambda>s. s) sample_args = Inr sample_spec"
    by (auto simp: sample_spec_def split: sum.splits)
  have "map_sum id sp_symbols (new_spec sample_text (\<lambda>s. s) sample_args) = Inr [''A'', ''B'']" by code_simp
  then have syms: "sp_symbols sample_spec = [''A'', ''B'']" by (simp add: sp)
  have "map_sum id (\<lambda>sp. reads_back sample_text (JObj (canonical_dict sp @ [(''spec_id'', JStr (sp_spec_id sp))])))
      (new_spec sample_text (\<lambda>s. s) sample_args) = Inr True" by code_simp
  then have "reads_back sample_text (JObj (canonical_dict sample_spec @ [(''spec_id'', JStr (sp_spec_id sample_spec))]))"
    by (simp add: sp)
  moreover have "reads_back sample_text (sa_strategy_params sample_args)"
    "reads_back sample_text (py_or (sa_optimizer_params sample_args) (JObj []))"
    "reads_back sample_text (py_or (sa_risk_params sample_args) (JObj []))" by code_simp+
  ultimately show ?thesis using spec_json_roundtrip [OF sp] syms by simp
qed

theorem spec_order_independent_witness:
  "new_spec sample_text (\<lambda>s. s) (sample_args\<lparr>sa_strategy_params := JObj [(''factor'', JStr ''m''), (''top_n'', JInt 5)], sa_symbols := [''A'', ''B'']\<rparr>)
    = new_spec sample_text (\<lambda>s. s) (sample_args\<lparr>sa_strategy_params := JObj [(''top_n'', JInt 5), (''factor'', JStr ''m'')], sa_symbols := [''B'', ''A'']\<rparr>)"
  by (rule spec_order_independent) (simp_all add: dict_ok_def)

end
