(* ===== verification/Paper_Engine.thy ===== *)
theory Paper_Engine
  imports OMS Risk_Manager Trading_Calendar Deployment_Spec
begin

text \<open>
  \<open>ez/live/paper_engine.py\<close>: one trading day of a live deployment, from the market data to the account.  The
  strategy is a state machine given as a parameter, like the data chain, the optimizer and the broker.  An
  operation is an action: it returns a result or an exception and, in both cases, the state it leaves behind.
\<close>

section \<open>Actions\<close>

type_synonym ('s, 'a) act = "'s \<Rightarrow> 'a res \<times> 's"

definition abind :: "('s, 'a) act \<Rightarrow> ('a \<Rightarrow> ('s, 'b) act) \<Rightarrow> ('s, 'b) act" where
  "abind m f s = (case m s of (Inl e, s') \<Rightarrow> (Inl e, s') | (Inr x, s') \<Rightarrow> f x s')"

definition areturn :: "'a \<Rightarrow> ('s, 'a) act" where
  "areturn x s = (Inr x, s)"

definition alift :: "('s \<Rightarrow> 'a res) \<Rightarrow> ('s, 'a) act" where
  "alift f s = (f s, s)"

definition amodify :: "('s \<Rightarrow> 's) \<Rightarrow> ('s, unit) act" where
  "amodify f s = (Inr (), f s)"

fun afold :: "('x \<Rightarrow> 'a \<Rightarrow> ('s, 'a) act) \<Rightarrow> 'x list \<Rightarrow> 'a \<Rightarrow> ('s, 'a) act" where
  "afold f [] a = areturn a"
| "afold f (x # xs) a = abind (f x a) (afold f xs)"

lemma abind_cong [fundef_cong]:
  "s = s' \<Longrightarrow> m s' = m' s' \<Longrightarrow> (\<And>x t. m' s' = (Inr x, t) \<Longrightarrow> f x t = g x t) \<Longrightarrow> abind m f s = abind m' g s'"
  by (auto simp: abind_def split: prod.splits sum.splits)

lemma abind_Inr: "abind m f s = (Inr y, s') \<longleftrightarrow> (\<exists>x t. m s = (Inr x, t) \<and> f x t = (Inr y, s'))"
  by (auto simp: abind_def split: prod.splits sum.splits)

lemma act_simps [simp]:
  "abind (areturn x) f s = f x s" "abind (amodify u) g s = g () (u s)"
  by (simp_all add: abind_def areturn_def amodify_def)

section \<open>Market data\<close>

record ohlc_bar =
  ba_time :: timestamp
  ba_open :: pfloat
  ba_high :: pfloat
  ba_low :: pfloat
  ba_close :: pfloat
  ba_adj_close :: pfloat
  ba_volume :: pfloat

type_synonym history = "(string, ohlc_bar list) dict"

definition day_us :: int where
  "day_us = 86400000000"

definition date_of :: "timestamp \<Rightarrow> date" where
  "date_of ts = from_ordinal (ts div day_us + 1)"

definition midnight :: "date \<Rightarrow> timestamp" where
  "midnight d = (to_ordinal d - 1) * day_us"

fun finite_value :: "pfloat \<Rightarrow> flt option" where
  "finite_value (Fin x) = Some x"
| "finite_value _ = None"

text \<open>One entry per symbol whose last bar has a value.\<close>

definition last_values :: "(ohlc_bar list \<Rightarrow> flt option) \<Rightarrow> history \<Rightarrow> (string, flt) dict" where
  "last_values f data = List.map_filter (\<lambda>(s, df). map_option (Pair s) (f df)) data"

definition latest_price :: "ohlc_bar list \<Rightarrow> flt option" where
  "latest_price df = (if df = [] then None else
     case finite_value (ba_adj_close (last df)) of Some x \<Rightarrow> Some x | None \<Rightarrow> finite_value (ba_close (last df)))"

definition get_latest_prices :: "history \<Rightarrow> (string, flt) dict" where
  "get_latest_prices = last_values latest_price"

definition get_raw_closes :: "history \<Rightarrow> (string, flt) dict" where
  "get_raw_closes = last_values (\<lambda>df. if df = [] then None else finite_value (ba_close (last df)))"

definition get_prev_raw_closes :: "history \<Rightarrow> (string, flt) dict" where
  "get_prev_raw_closes = last_values (\<lambda>df. if length df < 2 then None else finite_value (ba_close (df ! (length df - 2))))"

fun has_bar :: "date \<Rightarrow> string \<times> ohlc_bar list \<Rightarrow> bool" where
  "has_bar today (s, df) = (df \<noteq> [] \<and> date_of (ba_time (last df)) = today)"

definition get_has_bar_today :: "history \<Rightarrow> date \<Rightarrow> string list" where
  "get_has_bar_today data today = map fst (filter (has_bar today) data)"

definition slice_history :: "history \<Rightarrow> date \<Rightarrow> history" where
  "slice_history data today = map (\<lambda>(s, df). (s, filter (\<lambda>b. ba_time b < midnight today) df)) data"

record market_bar =
  mb_symbol :: string
  mb_open :: flt
  mb_high :: flt
  mb_low :: flt
  mb_close :: flt
  mb_adj_close :: flt
  mb_volume :: flt

text \<open>A bar that is not finite has no JSON form.\<close>

definition finite_res :: "pfloat \<Rightarrow> flt res" where
  "finite_res x = (case finite_value x of Some v \<Rightarrow> Inr v | None \<Rightarrow> Inl NotModelled)"

definition market_bar_of :: "string \<Rightarrow> ohlc_bar \<Rightarrow> market_bar res" where
  "market_bar_of symb b =
     rbind (finite_res (ba_open b)) (\<lambda>op. rbind (finite_res (ba_high b)) (\<lambda>hi. rbind (finite_res (ba_low b)) (\<lambda>lo.
     rbind (finite_res (ba_close b)) (\<lambda>cl. rbind (finite_res (ba_adj_close b)) (\<lambda>ad. rbind (finite_res (ba_volume b)) (\<lambda>vol.
       Inr \<lparr>mb_symbol = symb, mb_open = op, mb_high = hi, mb_low = lo, mb_close = cl, mb_adj_close = ad, mb_volume = vol\<rparr>))))))"

definition build_market_bar_payloads :: "history \<Rightarrow> date \<Rightarrow> market_bar list res" where
  "build_market_bar_payloads data today =
     rmap (\<lambda>s. case map_of data s of Some df \<Rightarrow> market_bar_of s (last df) | None \<Rightarrow> Inl KeyError)
       (sort (get_has_bar_today data today))"

definition exec_open_price :: "date \<Rightarrow> (string, flt) dict \<Rightarrow> string \<Rightarrow> ohlc_bar list \<Rightarrow> flt option" where
  "exec_open_price today adj_close_prices s df =
     (if df = [] \<or> date_of (ba_time (last df)) \<noteq> today then None
      else case (finite_value (ba_open (last df)), finite_value (ba_close (last df)), map_of adj_close_prices s) of
        (Some op, Some cl, Some ad) \<Rightarrow> if 0 < cl then Some (op * (ad / cl)) else Some op
      | (Some op, _, _) \<Rightarrow> Some op
      | _ \<Rightarrow> None)"

definition get_exec_open_prices :: "history \<Rightarrow> (string, flt) dict \<Rightarrow> date \<Rightarrow> (string, flt) dict" where
  "get_exec_open_prices data adj_close_prices today =
     List.map_filter (\<lambda>(s, df). map_option (Pair s) (exec_open_price today adj_close_prices s df)) data"

section \<open>Data sanity\<close>

definition relative_change :: "flt \<Rightarrow> flt \<Rightarrow> flt" where
  "relative_change old new = (new - old) / old"

definition sanity_kinds :: "ohlc_bar list \<Rightarrow> string list" where
  "sanity_kinds df =
     (if length df < 2 then []
      else let pb = df ! (length df - 2); cb = last df;
               praw = finite_value (ba_close pb); craw = finite_value (ba_close cb);
               padj = finite_value (ba_adj_close pb); cadj = finite_value (ba_adj_close cb)
           in (case (praw, craw) of
                (Some p, Some c) \<Rightarrow> if 0 < p \<and> 15 / 100 < \<bar>relative_change p c\<bar> then [''raw_spike''] else []
              | _ \<Rightarrow> [])
            @ (case (padj, cadj, praw, craw) of
                (Some pa, Some ca, Some p, Some c) \<Rightarrow>
                  if 0 < pa \<and> 0 < p \<and> 15 / 100 < \<bar>relative_change pa ca\<bar> \<and> \<bar>relative_change p c\<bar> < 5 / 100
                  then [''adj_raw_divergence''] else []
              | _ \<Rightarrow> []))"

text \<open>A warning is raised once and forgotten when its condition clears.\<close>

definition sanity_update :: "string \<times> ohlc_bar list \<Rightarrow> (string \<times> string) list \<Rightarrow> (string \<times> string) list" where
  "sanity_update sd warned = (case sd of (s, df) \<Rightarrow>
     filter (\<lambda>(t, k). t \<noteq> s \<or> k \<in> set (sanity_kinds df))
       (fold (\<lambda>k w. if (s, k) \<in> set w then w else w @ [(s, k)]) (sanity_kinds df) warned))"

section \<open>Covariance\<close>

definition pct_change :: "ohlc_bar list \<Rightarrow> flt list res" where
  "pct_change df = rmap (\<lambda>(p, c). rbind (finite_res (ba_adj_close p)) (\<lambda>x. rbind (finite_res (ba_adj_close c)) (\<lambda>y.
     if x = 0 then Inl NotModelled else Inr (y / x - 1)))) (zip df (tl df))"

definition mean_of :: "flt list \<Rightarrow> flt" where
  "mean_of xs = sum_list xs / of_nat (length xs)"

definition sample_cov :: "flt list \<Rightarrow> flt list \<Rightarrow> flt" where
  "sample_cov xs ys = sum_list (map2 (\<lambda>x y. (x - mean_of xs) * (y - mean_of ys)) xs ys) / of_nat (length xs - 1)"

definition last_n :: "nat \<Rightarrow> 'a list \<Rightarrow> 'a list" where
  "last_n n xs = drop (length xs - n) xs"

definition cov_regularization :: flt where
  "cov_regularization = 1 / 100000000"

definition denom_min :: flt where
  "denom_min = 1 / 100000000000000000000"

definition default_variance :: flt where
  "default_variance = 4 / 100"

text \<open>\<open>ledoit_wolf_shrinkage\<close> of the return series, one per column.\<close>

definition ledoit_wolf_shrinkage :: "flt list list \<Rightarrow> nat \<Rightarrow> matrix" where
  "ledoit_wolf_shrinkage columns rows =
     (let n = length columns; t = of_nat rows :: flt; nn = of_nat n :: flt;
          unit_part = (\<lambda>i j c. if i = j then c else 0 :: flt)
      in if rows < 2 then tabulate n (\<lambda>i j. unit_part i j default_variance)
         else let s = (\<lambda>i j. sample_cov (columns ! i) (columns ! j)) in
           if n = 1 then tabulate 1 (\<lambda>i j. s i j + unit_part i j cov_regularization)
           else let trace_s = sum_list (map (\<lambda>i. s i i) [0..<n]);
                    trace_s2 = sum_list (map (\<lambda>i. sum_list (map (\<lambda>j. s i j * s i j) [0..<n])) [0..<n]);
                    mu = trace_s / nn;
                    rho_num = (1 - 2 / nn) * trace_s2 + trace_s * trace_s;
                    rho_den = (t + 1 - 2 / nn) * (trace_s2 - trace_s * trace_s / nn);
                    rho = (if denom_min < \<bar>rho_den\<bar> then min 1 (max 0 (rho_num / rho_den)) else 1)
                in tabulate n (\<lambda>i j. (1 - rho) * s i j + rho * unit_part i j mu + unit_part i j cov_regularization))"

section \<open>State and environment\<close>

datatype recovery_note =
    Snapshot_Drift (note_snapshot_cash: flt) (note_ledger_cash: flt)
  | Restored_Without_Snapshots (note_checkpoint: "date option")
  | Legacy_Drift (note_snapshot_cash: flt) (note_ledger_cash: flt)
  | Applied_Legacy_Events (note_count: nat)
  | Legacy_Replay

record 's engine_state =
  pe_cash :: flt
  pe_holdings :: "(string, int) dict"
  pe_equity_curve :: "flt list"
  pe_dates :: "date list"
  pe_trades :: "trade list"
  pe_prev_weights :: "(string, flt) dict"
  pe_prev_returns :: "(string, flt) dict"
  pe_risk_events :: "payload list"
  pe_last_prices :: "(string, flt) dict"
  pe_order_statuses :: "(string, string) dict"
  pe_recovery_warnings :: "recovery_note list"
  pe_sanity_warned :: "(string \<times> string) list"
  pe_prev_day_prices :: "(string, flt) dict"
  pe_stale :: "string list"
  pe_strategy :: 's
  pe_risk_manager :: "risk_manager option"

text \<open>What the engine is built with and calls: the specification, the data chain, the strategy, the optimizer, the
  exchange calendar, the broker, and the parameters of the OMS.\<close>

record 's engine_env =
  ee_spec :: spec
  ee_deployment_id :: string
  ee_json :: json_text
  ee_kline :: "string \<Rightarrow> string \<Rightarrow> date \<Rightarrow> date \<Rightarrow> ohlc_bar list res"
  ee_lookback_days :: "'s \<Rightarrow> int"
  ee_generate_weights ::
    "'s \<Rightarrow> history \<Rightarrow> date \<Rightarrow> (string, flt) dict \<Rightarrow> (string, flt) dict \<Rightarrow> (string, flt) dict option res \<times> 's"
  ee_optimize :: "(date \<Rightarrow> history \<Rightarrow> (string, flt) dict \<Rightarrow> (string, flt) dict res) option"
  ee_note_text :: "risk_note \<Rightarrow> string"
  ee_stale_text :: "nat \<Rightarrow> nat \<Rightarrow> string"
  ee_calendar :: calendar
  ee_sha :: "string \<Rightarrow> string"
  ee_eig :: "matrix \<Rightarrow> flt list option"
  ee_sqrt :: "flt \<Rightarrow> flt"
  ee_broker :: "exec_request \<Rightarrow> broker_result res"
  ee_broker_kind :: string
  ee_environ :: "(string, string) dict"

definition new_engine :: "'s engine_env \<Rightarrow> 's \<Rightarrow> risk_manager option \<Rightarrow> 's engine_state" where
  "new_engine env strategy rm = \<lparr>pe_cash = sp_initial_cash (ee_spec env), pe_holdings = [], pe_equity_curve = [], pe_dates = [],
     pe_trades = [], pe_prev_weights = [], pe_prev_returns = [], pe_risk_events = [], pe_last_prices = [],
     pe_order_statuses = [], pe_recovery_warnings = [], pe_sanity_warned = [], pe_prev_day_prices = [], pe_stale = [],
     pe_strategy = strategy, pe_risk_manager = rm\<rparr>"

definition spec_costs :: "spec \<Rightarrow> cost_model" where
  "spec_costs sp = \<lparr>buy_commission_rate = sp_buy_commission_rate sp, sell_commission_rate = sp_sell_commission_rate sp,
     min_commission = sp_min_commission sp, stamp_tax_rate = sp_stamp_tax_rate sp, slippage_rate = sp_slippage_rate sp\<rparr>"

section \<open>Valuation\<close>

text \<open>The value of the positions; a positive price is remembered for days without one.\<close>

fun mark_positions :: "(string, flt) dict \<Rightarrow> (string, int) dict \<Rightarrow> (string, flt) dict \<Rightarrow> flt \<times> (string, flt) dict" where
  "mark_positions prices [] lp = (0, lp)"
| "mark_positions prices ((s, n) # hs) lp =
     (if n = 0 then mark_positions prices hs lp
      else case map_of prices s of
        Some p \<Rightarrow> if 0 < p then (case mark_positions prices hs (dset lp s p) of (v, lp') \<Rightarrow> (of_int n * p + v, lp'))
                  else (case mark_positions prices hs lp of (v, lp') \<Rightarrow> (of_int n * dget_or lp s 0 + v, lp'))
      | None \<Rightarrow> (case mark_positions prices hs lp of (v, lp') \<Rightarrow> (of_int n * dget_or lp s 0 + v, lp')))"

definition mark_to_market :: "(string, flt) dict \<Rightarrow> 's engine_state \<Rightarrow> flt \<times> 's engine_state" where
  "mark_to_market prices en = (case mark_positions prices (pe_holdings en) (pe_last_prices en) of
     (v, lp) \<Rightarrow> (pe_cash en + v, en\<lparr>pe_last_prices := lp\<rparr>))"

definition compute_returns :: "'s engine_state \<Rightarrow> (string, flt) dict" where
  "compute_returns en = List.map_filter (\<lambda>(s, n). case (map_of (pe_last_prices en) s, map_of (pe_prev_day_prices en) s) of
     (Some p, Some old) \<Rightarrow> if 0 < old then Some (s, (p - old) / old) else None
   | _ \<Rightarrow> None) (pe_holdings en)"

definition compute_weights :: "(string, int) dict \<Rightarrow> (string, flt) dict \<Rightarrow> flt \<Rightarrow> (string, flt) dict" where
  "compute_weights hs prices equity =
     (if equity \<le> 0 then []
      else List.map_filter (\<lambda>(s, n). case map_of prices s of
        Some p \<Rightarrow> if 0 < p then Some (s, of_int n * p / equity) else None | None \<Rightarrow> None) hs)"

section \<open>Data of the day\<close>

text \<open>A symbol that cannot be fetched is left out.\<close>

definition fetch_symbol :: "'s engine_env \<Rightarrow> date \<Rightarrow> date \<Rightarrow> string \<Rightarrow> (string \<times> ohlc_bar list) option" where
  "fetch_symbol env start_day today s = (case ee_kline env s (sp_market (ee_spec env)) start_day today of
     Inl e \<Rightarrow> None
   | Inr bs \<Rightarrow> if bs = [] then None else Some (s, sort_key ba_time bs))"

fun is_stale :: "date \<Rightarrow> string \<times> ohlc_bar list \<Rightarrow> bool" where
  "is_stale today (s, df) \<longleftrightarrow> 1 < to_ordinal today - to_ordinal (date_of (ba_time (last df)))"

definition fetch_latest :: "'s engine_env \<Rightarrow> date \<Rightarrow> 's engine_state \<Rightarrow> history \<times> 's engine_state" where
  "fetch_latest env today en =
     (let start_day = add_days today (- (ee_lookback_days env (pe_strategy en) * 3 div 2 + 30));
          data = dict_of (List.map_filter (fetch_symbol env start_day today) (sp_symbols (ee_spec env)));
          fetched = List.map_filter (fetch_symbol env start_day today) (sp_symbols (ee_spec env));
          stale = map fst (filter (is_stale today) fetched)
      in (data, en\<lparr>pe_stale := stale, pe_sanity_warned := fold sanity_update data (pe_sanity_warned en)\<rparr>))"

definition is_rebalance_day :: "'s engine_env \<Rightarrow> date \<Rightarrow> bool res" where
  "is_rebalance_day env today = (let cal = ee_calendar env; sp = ee_spec env in
     rbind (rebalance_dates cal (hd cal) (last cal) (sp_freq sp) (sp_rebal_weekday sp)) (\<lambda>ds. Inr (today \<in> set ds)))"

text \<open>The risk parameters of the specification, if risk control is on.\<close>

definition active_risk_params :: "'s engine_env \<Rightarrow> payload res" where
  "active_risk_params env =
     (if sp_risk_control (ee_spec env)
      then rbind (risk_params (ee_json env) (ee_spec env)) (\<lambda>j. case as_dict j of Some d \<Rightarrow> Inr d | None \<Rightarrow> Inl AttributeError)
      else Inr [])"

definition symbol_vol :: "(flt \<Rightarrow> flt) \<Rightarrow> flt list \<Rightarrow> flt option" where
  "symbol_vol sqrt_fn xs = (if length xs < 2 then None
     else let vol = sqrt_fn (sample_cov xs xs) * sqrt_fn 252 in if 0 < vol then Some vol else None)"

definition build_allocator_context ::
  "'s engine_env \<Rightarrow> history \<Rightarrow> payload \<Rightarrow> (string, flt) dict \<Rightarrow> flt \<Rightarrow> (string, int) dict \<Rightarrow> allocation_context option res" where
  "build_allocator_context env sliced prm prices equity hs =
     rbind (allocator_config_from_params prm) (\<lambda>cfg.
     if ac_allocation_mode cfg \<notin> {''risk_budget_cap'', ''constrained_opt''} \<and> ac_target_portfolio_vol cfg = None then Inr None
     else rbind (rmap (\<lambda>(s, df). rbind (pct_change df) (\<lambda>r. Inr (s, r))) sliced) (\<lambda>returns.
       let vols = List.map_filter (\<lambda>(s, r). map_option (Pair s)
             (symbol_vol (ee_sqrt env) (if 0 < ac_vol_lookback_days cfg then last_n (nat (ac_vol_lookback_days cfg)) r else r))) returns;
           covs = filter (\<lambda>(s, r). 3 \<le> length r) (map (\<lambda>(s, r). (s,
             if 0 < ac_covariance_lookback_days cfg then last_n (nat (ac_covariance_lookback_days cfg)) r else r)) returns);
           rows = (if covs = [] then 0 else Min (set (map (\<lambda>(s, r). length r) covs)));
           cov = (if covs = [] \<or> rows < 3 then None
             else Some (ledoit_wolf_shrinkage (map (\<lambda>(s, r). last_n rows r) covs) rows))
       in Inr (if ac_allocation_mode cfg \<noteq> ''constrained_opt'' \<and> vols = [] then None
         else Some \<lparr>ax_volatility_by_symbol = vols, ax_current_weights = compute_weights hs prices equity,
           ax_covariance_symbols = map fst covs, ax_covariance_matrix = cov\<rparr>)))"

section \<open>One day\<close>

record market_snapshot =
  ms_prices :: "(string, flt) dict"
  ms_has_bar :: "string list"
  ms_source :: string

record day_result =
  dy_date :: date
  dy_equity :: flt
  dy_cash :: flt
  dy_holdings :: "(string, int) dict"
  dy_weights :: "(string, flt) dict"
  dy_prev_returns :: "(string, flt) dict"
  dy_trades :: "trade list"
  dy_risk_events :: "payload list"
  dy_rebalanced :: bool
  dy_oms_events :: "event list"
  dy_market_snapshot :: market_snapshot
  dy_market_bars :: "market_bar list"

text \<open>The risk check of the day: the scale, whether a note was raised, and the note as a risk event.\<close>

definition daily_drawdown ::
  "'s engine_env \<Rightarrow> date \<Rightarrow> flt \<Rightarrow> 's engine_state \<Rightarrow> (flt \<times> bool \<times> payload list) \<times> 's engine_state" where
  "daily_drawdown env today equity en = (case pe_risk_manager en of
     None \<Rightarrow> ((1, False, []), en)
   | Some m \<Rightarrow> (case check_drawdown equity m of ((scale, nt), m') \<Rightarrow>
       ((scale, nt \<noteq> None, case nt of None \<Rightarrow> [] | Some n \<Rightarrow>
          [[(''date'', JStr (isoformat today)), (''drawdown_scale'', JFloat scale), (''action'', JStr (ee_note_text env n))]]),
        en\<lparr>pe_risk_manager := Some m'\<rparr>)))"

text \<open>A forced sale at a drawdown; limit-down symbols are kept.\<close>

definition limit_down :: "spec \<Rightarrow> history \<Rightarrow> string \<Rightarrow> bool" where
  "limit_down sp data symb = (0 < sp_price_limit_pct sp \<and>
     (case (map_of (get_raw_closes data) symb, map_of (get_prev_raw_closes data) symb) of
        (Some c, Some p) \<Rightarrow> (if 0 < p then (c - p) / p else 0) \<le> - sp_price_limit_pct sp + 1 / 1000000
      | _ \<Rightarrow> False))"

definition sell_down :: "spec \<Rightarrow> date \<Rightarrow> flt \<Rightarrow> int \<Rightarrow> string \<Rightarrow> 's engine_state \<Rightarrow> payload \<times> 's engine_state" where
  "sell_down sp today price target symb en =
     (let sold = dget_or (pe_holdings en) symb 0 - target;
          sell_price = price * (1 - sp_slippage_rate sp);
          amount = of_int sold * sell_price;
          comm = compute_commission amount (sp_sell_commission_rate sp) (sp_min_commission sp);
          stamp = amount * sp_stamp_tax_rate sp
      in ([(''date'', JStr (isoformat today)), (''event'', JStr ''emergency_sell''), (''symbol'', JStr symb),
           (''shares'', JInt sold), (''price'', JFloat sell_price)],
          en\<lparr>pe_cash := pe_cash en + (amount - comm - stamp),
            pe_holdings := (if target = 0 then dpop (pe_holdings en) symb else dset (pe_holdings en) symb target)\<rparr>))"

definition emergency_leg ::
  "spec \<Rightarrow> history \<Rightarrow> (string, flt) dict \<Rightarrow> date \<Rightarrow> flt \<Rightarrow> string \<Rightarrow> payload list \<Rightarrow> ('s engine_state, payload list) act" where
  "emergency_leg sp data prices today scale symb evs en = (case map_of prices symb of
     None \<Rightarrow> (Inr evs, en)
   | Some price \<Rightarrow>
       if symb \<notin> set (get_has_bar_today data today) then (Inr evs, en)
       else abind (alift (\<lambda>en. lot_round (of_int (dget_or (pe_holdings en) symb 0) * scale) (sp_lot_size sp))) (\<lambda>target en.
         if dget_or (pe_holdings en) symb 0 \<le> target \<or> limit_down sp data symb then (Inr evs, en)
         else case sell_down sp today price target symb en of (ev, en') \<Rightarrow> (Inr (evs @ [ev]), en')) en)"

definition emergency_sell ::
  "spec \<Rightarrow> history \<Rightarrow> (string, flt) dict \<Rightarrow> date \<Rightarrow> flt \<Rightarrow> payload list \<Rightarrow> ('s engine_state, payload list) act" where
  "emergency_sell sp data prices today scale evs en =
     afold (emergency_leg sp data prices today scale) (dkeys (pe_holdings en)) evs en"

text \<open>From the weights of the strategy to the weights that are traded.\<close>

definition long_only :: "(string, flt) dict \<Rightarrow> (string, flt) dict" where
  "long_only ws = (let kept = filter (\<lambda>(s, w). 0 < w) ws; tot = sum_list (dvals kept)
     in if 1 < tot then map (\<lambda>(s, w). (s, w / tot)) kept else kept)"

definition shape_weights ::
  "'s engine_env \<Rightarrow> date \<Rightarrow> history \<Rightarrow> flt \<Rightarrow> (string, flt) dict \<Rightarrow> 's engine_state
    \<Rightarrow> ((string, flt) dict \<times> payload list) res" where
  "shape_weights env today sliced scale target en =
     rbind (case ee_optimize env of None \<Rightarrow> Inr target | Some f \<Rightarrow> f today sliced target) (\<lambda>target.
       let (target, nt) = (case pe_risk_manager en of None \<Rightarrow> (target, None) | Some m \<Rightarrow> check_turnover target (pe_prev_weights en) m);
           target = (if scale < 1 then map (\<lambda>(s, w). (s, w * scale)) target else target)
       in Inr (long_only target, case nt of None \<Rightarrow> [] | Some n \<Rightarrow>
            [[(''date'', JStr (isoformat today)), (''event'', JStr (ee_note_text env n))]]))"

definition market_inputs :: "spec \<Rightarrow> history \<Rightarrow> (string, flt) dict \<Rightarrow> date \<Rightarrow> flt \<Rightarrow> exec_inputs" where
  "market_inputs sp data prices today equity =
     \<lparr>xi_equity = equity, xi_prices = prices, xi_raw_close = get_raw_closes data,
      xi_prev_raw_close = get_prev_raw_closes data, xi_has_bar = get_has_bar_today data today,
      xi_costs = spec_costs sp, xi_lot_size = sp_lot_size sp, xi_limit_pct = sp_price_limit_pct sp,
      xi_t_plus_1 = sp_t_plus_1 sp\<rparr>"

text \<open>The call of the OMS.  A specification has no \<open>use_open_price\<close>, so trades are priced at the close.\<close>

definition rebalance_inputs ::
  "'s engine_env \<Rightarrow> (nat \<Rightarrow> timestamp) \<Rightarrow> history \<Rightarrow> (string, flt) dict \<Rightarrow> date \<Rightarrow> flt \<Rightarrow> (string, flt) dict
    \<Rightarrow> 's engine_state \<Rightarrow> oms_inputs res" where
  "rebalance_inputs env clk data prices today equity target en =
     rbind (active_risk_params env) (\<lambda>prm.
     rbind (build_allocator_context env (slice_history data today) prm prices equity (pe_holdings en)) (\<lambda>ctx.
       Inr \<lparr>oi_deployment_id = ee_deployment_id env, oi_business_date = today, oi_target_weights = target,
         oi_holdings = pe_holdings en, oi_cash = pe_cash en,
         oi_market = market_inputs (ee_spec env) data prices today equity, oi_risk_params = prm,
         oi_allocator_context = ctx, oi_broker_type = str_default (sp_broker_type (ee_spec env)) ''paper'',
         oi_broker_kind = ee_broker_kind env, oi_environ = ee_environ env, oi_clock = clk\<rparr>))"

definition run_oms ::
  "'s engine_env \<Rightarrow> (nat \<Rightarrow> timestamp) \<Rightarrow> history \<Rightarrow> (string, flt) dict \<Rightarrow> date \<Rightarrow> flt \<Rightarrow> (string, flt) dict
    \<Rightarrow> ('s engine_state, oms_result) act" where
  "run_oms env clk data prices today equity target =
     abind (alift (rebalance_inputs env clk data prices today equity target)) (\<lambda>inp.
     abind (alift (\<lambda>_. execute_rebalance (ee_sha env) (ee_eig env) (ee_sqrt env) (ee_broker env) inp)) (\<lambda>r.
     abind (amodify (\<lambda>en. en\<lparr>pe_holdings := or_holdings r, pe_cash := or_cash r, pe_trades := pe_trades en @ or_trades r,
         pe_order_statuses := fold (\<lambda>ord d. dset d (o_client_order_id ord) (order_status_value (o_status ord)))
           (or_orders r) (pe_order_statuses en)\<rparr>)) (\<lambda>_.
       areturn r)))"

definition live_snapshot :: "history \<Rightarrow> (string, flt) dict \<Rightarrow> date \<Rightarrow> market_snapshot" where
  "live_snapshot data prices today =
     \<lparr>ms_prices = prices, ms_has_bar = sort (get_has_bar_today data today), ms_source = ''live''\<rparr>"

text \<open>The end of a day: valuation, records, weights and returns for the next one.\<close>

definition close_day :: "(string, flt) dict \<Rightarrow> date \<Rightarrow> payload list \<Rightarrow> 's engine_state \<Rightarrow> flt \<times> 's engine_state" where
  "close_day prices today evs en = (case mark_to_market prices en of (equity, en1) \<Rightarrow>
     let en2 = en1\<lparr>pe_equity_curve := pe_equity_curve en1 @ [equity], pe_dates := pe_dates en1 @ [today],
           pe_risk_events := pe_risk_events en1 @ evs\<rparr>;
         en3 = en2\<lparr>pe_prev_weights := compute_weights (pe_holdings en2) prices equity\<rparr>
     in (equity, en3\<lparr>pe_prev_returns := compute_returns en3, pe_prev_day_prices := prices\<rparr>))"

definition stale_event :: "'s engine_env \<Rightarrow> date \<Rightarrow> 's engine_state \<Rightarrow> payload list" where
  "stale_event env today en = (if pe_stale en = [] then [] else
     [[(''date'', JStr (isoformat today)), (''event'', JStr ''stale_price_warning''),
       (''message'', JStr (ee_stale_text env (length (pe_stale en)) (length (sp_symbols (ee_spec env))))),
       (''symbols'', JList (map JStr (take 20 (pe_stale en))))]])"

definition day_report ::
  "date \<Rightarrow> flt \<Rightarrow> trade list \<Rightarrow> payload list \<Rightarrow> bool \<Rightarrow> event list \<Rightarrow> market_snapshot \<Rightarrow> market_bar list
    \<Rightarrow> 's engine_state \<Rightarrow> day_result" where
  "day_report today equity ts evs rebalanced oms_events snap bars en =
     \<lparr>dy_date = today, dy_equity = equity, dy_cash = pe_cash en, dy_holdings = pe_holdings en,
      dy_weights = pe_prev_weights en, dy_prev_returns = pe_prev_returns en, dy_trades = ts, dy_risk_events = evs,
      dy_rebalanced = rebalanced, dy_oms_events = oms_events, dy_market_snapshot = snap, dy_market_bars = bars\<rparr>"

definition no_data_day :: "date \<Rightarrow> 's engine_state \<Rightarrow> day_result \<times> 's engine_state" where
  "no_data_day today en = (case mark_to_market [] en of (equity, en1) \<Rightarrow>
     let en2 = en1\<lparr>pe_equity_curve := pe_equity_curve en1 @ [equity], pe_dates := pe_dates en1 @ [today]\<rparr>
     in ((day_report today equity [] [] False []
           \<lparr>ms_prices = pe_last_prices en2, ms_has_bar = [], ms_source = ''cached''\<rparr> [] en2)\<lparr>dy_prev_returns := []\<rparr>, en2))"

text \<open>After the trades: the duplicate-day guard, then the end of the day.\<close>

definition finish_day ::
  "'s engine_env \<Rightarrow> history \<Rightarrow> (string, flt) dict \<Rightarrow> date \<Rightarrow> bool \<Rightarrow> payload list \<Rightarrow> trade list \<Rightarrow> event list
    \<Rightarrow> ('s engine_state, day_result) act" where
  "finish_day env data prices today rebalanced evs ts oms_events en =
     (if pe_dates en \<noteq> [] \<and> last (pe_dates en) = today
      then (Inr (day_report today (last (pe_equity_curve en)) [] [] False []
             \<lparr>ms_prices = prices, ms_has_bar = [], ms_source = ''cached''\<rparr> [] en), en)
      else case close_day prices today evs en of (equity, en') \<Rightarrow>
        (rbind (build_market_bar_payloads data today) (\<lambda>bars.
           Inr (day_report today equity ts (evs @ stale_event env today en') rebalanced oms_events
             (live_snapshot data prices today) bars en')), en'))"

text \<open>A rebalance day; a strategy that returns no weights leaves the positions alone.\<close>

definition rebalance_day ::
  "'s engine_env \<Rightarrow> (nat \<Rightarrow> timestamp) \<Rightarrow> history \<Rightarrow> (string, flt) dict \<Rightarrow> date \<Rightarrow> flt \<Rightarrow> flt \<Rightarrow> payload list
    \<Rightarrow> ('s engine_state, day_result) act" where
  "rebalance_day env clk data prices today equity scale evs =
     abind (\<lambda>en. case ee_generate_weights env (pe_strategy en) (slice_history data today) today (pe_prev_weights en) (pe_prev_returns en) of
         (r, st) \<Rightarrow> (r, en\<lparr>pe_strategy := st\<rparr>)) (\<lambda>target. case target of
       None \<Rightarrow> (\<lambda>en. case close_day prices today evs en of (post, en') \<Rightarrow>
         (rbind (build_market_bar_payloads data today) (\<lambda>bars.
            Inr (day_report today post [] evs False [] (live_snapshot data prices today) bars en')), en'))
     | Some target \<Rightarrow>
         abind (alift (shape_weights env today (slice_history data today) scale target)) (\<lambda>(target, tevs).
         abind (run_oms env clk data prices today equity target) (\<lambda>r.
           finish_day env data prices today True (evs @ tevs @ or_risk_events r) (or_trades r) (or_events r))))"

definition trade_day ::
  "'s engine_env \<Rightarrow> (nat \<Rightarrow> timestamp) \<Rightarrow> history \<Rightarrow> date \<Rightarrow> ('s engine_state, day_result) act" where
  "trade_day env clk data today = (let prices = get_latest_prices data in
     abind (\<lambda>en. case mark_to_market prices en of (v, en') \<Rightarrow> (Inr v, en')) (\<lambda>equity.
     abind (alift (\<lambda>_. is_rebalance_day env today)) (\<lambda>rebalanced.
     abind (\<lambda>en. case daily_drawdown env today equity en of (x, en') \<Rightarrow> (Inr x, en')) (\<lambda>(scale, noted, evs).
       if rebalanced then rebalance_day env clk data prices today equity scale evs
       else abind (if scale < 1 \<and> noted
              then abind (emergency_sell (ee_spec env) data prices today scale evs) (\<lambda>evs.
                abind (amodify (\<lambda>en. snd (mark_to_market prices en))) (\<lambda>_. areturn evs))
              else areturn evs) (\<lambda>evs.
         finish_day env data prices today False evs [] [])))))"

definition execute_day :: "'s engine_env \<Rightarrow> (nat \<Rightarrow> timestamp) \<Rightarrow> date \<Rightarrow> ('s engine_state, day_result) act" where
  "execute_day env clk today en = (case fetch_latest env today en of (data, en1) \<Rightarrow>
     if data = [] then (case no_data_day today en1 of (r, en2) \<Rightarrow> (Inr r, en2))
     else trade_day env clk data today en1)"

end
