(* ===== verification/Recovery.thy ===== *)
theory Recovery
  imports Paper_Engine Deployment_Log
begin

text \<open>
  The recovery of a deployment in \<open>ez/live/scheduler.py\<close>: an engine is restored from the event log where the log
  has snapshot checkpoints, and from the snapshot rows and the events after them for older deployments.
\<close>

section \<open>Stored values\<close>

definition int_map :: "json \<Rightarrow> (string, int) dict res" where
  "int_map j = conv_items py_int j"

definition float_map :: "json \<Rightarrow> (string, flt) dict res" where
  "float_map j = conv_items py_float j"

text \<open>A stored trade and a stored risk event; other shapes are outside the model.\<close>

definition trade_to_dict :: "trade \<Rightarrow> payload" where
  "trade_to_dict t = [(''symbol'', JStr (t_symbol t)), (''side'', JStr (t_side t)), (''shares'', JInt (t_shares t)),
     (''price'', JFloat (t_price t)), (''cost'', JFloat (t_cost t)), (''amount'', JFloat (t_amount t))]"

definition trade_of_json :: "json \<Rightarrow> trade res" where
  "trade_of_json j = (case as_dict j of None \<Rightarrow> Inl NotModelled | Some d \<Rightarrow> parse_fill d)"

definition dict_of_json :: "json \<Rightarrow> payload res" where
  "dict_of_json j = (case as_dict j of None \<Rightarrow> Inl NotModelled | Some d \<Rightarrow> Inr d)"

definition snapshot_trades :: "snapshot_row \<Rightarrow> trade list res" where
  "snapshot_trades sn = rbind (py_list (sn_trades sn)) (rmap trade_of_json)"

definition snapshot_risk_events :: "snapshot_row \<Rightarrow> payload list res" where
  "snapshot_risk_events sn = rbind (py_list (sn_risk_events sn)) (rmap dict_of_json)"

text \<open>\<open>a == b\<close> of dictionaries ignores the order.\<close>

definition dict_eq :: "('k, 'v) dict \<Rightarrow> ('k, 'v) dict \<Rightarrow> bool" where
  "dict_eq a b = (list_all (\<lambda>(k, v). map_of b k = Some v) a \<and> list_all (\<lambda>(k, v). map_of a k = Some v) b)"

fun split_on :: "char \<Rightarrow> string \<Rightarrow> string list" where
  "split_on sep [] = [[]]"
| "split_on sep (c # s) = (if c = sep then [] # split_on sep s
     else case split_on sep s of p # ps \<Rightarrow> (c # p) # ps | [] \<Rightarrow> [[c]])"

definition event_business_date :: "event \<Rightarrow> date res" where
  "event_business_date ev =
     (case py_or (jget (e_payload ev) ''business_date'' JNull) (jget (e_payload ev) ''snapshot_date'' JNull) of
        JStr s \<Rightarrow> fromisoformat s
      | _ \<Rightarrow> (case split_on (CHR '':'') (e_client_order_id ev) of
          _ # s # _ \<Rightarrow> (case fromisoformat s of
              Inr d \<Rightarrow> Inr d
            | Inl e \<Rightarrow> if e = ValueError then Inr (date_of (e_ts ev)) else Inl e)
        | _ \<Rightarrow> Inr (date_of (e_ts ev))))"

section \<open>Restoring from the event log\<close>

text \<open>The risk manager replays the equity curve, if there is one.\<close>

definition replay_risk :: "'s engine_state \<Rightarrow> 's engine_state" where
  "replay_risk en = (case pe_risk_manager en of
     None \<Rightarrow> en
   | Some m \<Rightarrow> if pe_equity_curve en = [] then en else en\<lparr>pe_risk_manager := Some (replay_equity (pe_equity_curve en) m)\<rparr>)"

text \<open>Weights at the last known prices; without any, the recorded ones.\<close>

definition reweigh :: "(string, flt) dict \<Rightarrow> 's engine_state \<Rightarrow> 's engine_state" where
  "reweigh recorded en =
     (if pe_last_prices en = [] then en\<lparr>pe_prev_weights := recorded\<rparr>
      else case mark_to_market (pe_last_prices en) en of (equity, en') \<Rightarrow>
        en'\<lparr>pe_prev_weights := compute_weights (pe_holdings en') (pe_last_prices en') equity\<rparr>)"

definition restored_account :: "ledger_state \<Rightarrow> 's engine_state \<Rightarrow> 's engine_state" where
  "restored_account rs en = reweigh (latest_weights rs)
     (en\<lparr>pe_cash := cash rs, pe_holdings := holdings rs, pe_order_statuses := order_statuses rs,
        pe_prev_returns := latest_prev_returns rs, pe_equity_curve := equity_curve rs, pe_dates := dates rs,
        pe_trades := trades rs, pe_risk_events := risk_events rs, pe_last_prices := last_prices rs\<rparr>)"

definition drift_warning :: "(flt \<Rightarrow> flt \<Rightarrow> recovery_note) \<Rightarrow> snapshot_row \<Rightarrow> ledger_state \<Rightarrow> recovery_note list res" where
  "drift_warning note_of sn rs =
     rbind (int_map (sn_holdings sn)) (\<lambda>hs.
       Inr (if \<not> dict_eq hs (holdings rs) \<or> 1 / 100 < \<bar>sn_cash sn - cash rs\<bar> then [note_of (sn_cash sn) (cash rs)] else []))"

definition restore_from_event_ledger ::
  "ledger_state \<Rightarrow> (date \<times> snapshot_row) list \<Rightarrow> 's engine_state \<Rightarrow> 's engine_state res" where
  "restore_from_event_ledger rs snaps en =
     (let en1 = replay_risk (restored_account rs en) in
      rbind (if snaps = [] then Inr [Restored_Without_Snapshots (latest_snapshot_date rs)]
             else drift_warning Snapshot_Drift (snd (last snaps)) rs) (\<lambda>w.
        Inr (en1\<lparr>pe_recovery_warnings := pe_recovery_warnings en1 @ w\<rparr>)))"

section \<open>Deployments without checkpoints in the log\<close>

definition first_event_date :: "event list \<Rightarrow> date option res" where
  "first_event_date evs = rbind (rmap event_business_date evs) (\<lambda>ds. Inr (if ds = [] then None else Some (Min (set ds))))"

text \<open>The last snapshot before the date; the scan stops at the first one that is not.\<close>

definition baseline_snapshot :: "date \<Rightarrow> (date \<times> snapshot_row) list \<Rightarrow> (date \<times> snapshot_row) option" where
  "baseline_snapshot d snaps = (case takeWhile (\<lambda>(x, sn). x < d) snaps of [] \<Rightarrow> None | xs \<Rightarrow> Some (last xs))"

definition events_where :: "(date \<Rightarrow> bool) \<Rightarrow> event list \<Rightarrow> event list res" where
  "events_where P evs = rbind (rmap event_business_date evs) (\<lambda>ds.
     Inr (map snd (filter (\<lambda>(d, ev). P d) (zip ds evs))))"

definition build_replay_baseline ::
  "spec \<Rightarrow> (date \<times> snapshot_row) list \<Rightarrow> event list \<Rightarrow> (flt \<times> (string, int) dict \<times> event list) res" where
  "build_replay_baseline sp snaps evs =
     rbind (first_event_date evs) (\<lambda>first. case first of
       None \<Rightarrow> Inr (sp_initial_cash sp, [], evs)
     | Some d \<Rightarrow> rbind (events_where (\<lambda>x. d \<le> x) evs) (\<lambda>kept. case baseline_snapshot d snaps of
         None \<Rightarrow> Inr (sp_initial_cash sp, [], kept)
       | Some (x, sn) \<Rightarrow> rbind (int_map (sn_holdings sn)) (\<lambda>hs. Inr (sn_cash sn, hs, kept))))"

definition restore_from_legacy_event_replay :: "ledger_state \<Rightarrow> 's engine_state \<Rightarrow> 's engine_state" where
  "restore_from_legacy_event_replay rs en =
     (let en1 = reweigh (latest_weights rs)
            (en\<lparr>pe_cash := cash rs, pe_holdings := holdings rs, pe_prev_returns := latest_prev_returns rs,
               pe_equity_curve := [], pe_dates := [], pe_trades := trades rs, pe_risk_events := risk_events rs,
               pe_last_prices := last_prices rs\<rparr>)
      in en1\<lparr>pe_recovery_warnings := pe_recovery_warnings en1 @ [Legacy_Replay]\<rparr>)"

definition check_legacy_snapshot_event_consistency ::
  "spec \<Rightarrow> (date \<times> snapshot_row) list \<Rightarrow> snapshot_row \<Rightarrow> event list \<Rightarrow> recovery_note list res" where
  "check_legacy_snapshot_event_consistency sp snaps latest evs =
     rbind (build_replay_baseline sp snaps evs) (\<lambda>(c, hs, kept).
       if kept = [] then Inr []
       else rbind (replay kept c hs) (\<lambda>rs. drift_warning Legacy_Drift latest rs))"

definition apply_legacy_post_snapshot_events :: "event list \<Rightarrow> 's engine_state \<Rightarrow> 's engine_state res" where
  "apply_legacy_post_snapshot_events evs en =
     (if evs = [] then Inr en
      else rbind (replay evs (pe_cash en) (pe_holdings en)) (\<lambda>rs.
        let en1 = en\<lparr>pe_cash := cash rs, pe_holdings := holdings rs,
              pe_order_statuses := fold (\<lambda>(k, v) d. dset d k v) (order_statuses rs) (pe_order_statuses en),
              pe_trades := pe_trades en @ trades rs, pe_risk_events := pe_risk_events en @ risk_events rs,
              pe_last_prices := fold (\<lambda>(k, v) d. dset d k v) (last_prices rs) (pe_last_prices en)\<rparr>;
            en2 = reweigh (pe_prev_weights en1) en1
        in Inr (en2\<lparr>pe_recovery_warnings := pe_recovery_warnings en2 @ [Applied_Legacy_Events (length evs)]\<rparr>)))"

text \<open>The prices that the weights of a snapshot imply.\<close>

definition implied_prices :: "flt \<Rightarrow> (string, flt) dict \<Rightarrow> (string, int) dict \<Rightarrow> (string, flt) dict \<Rightarrow> (string, flt) dict" where
  "implied_prices equity weights hs lp =
     (if equity \<le> 0 \<or> weights = [] then lp
      else fold (\<lambda>(s, n) lp. let w = dget_or weights s 0 in
        if 0 < n \<and> 0 < w then dset lp s (equity * w / of_int n) else lp) hs lp)"

definition restore_from_snapshots :: "(date \<times> snapshot_row) list \<Rightarrow> 's engine_state \<Rightarrow> 's engine_state res" where
  "restore_from_snapshots snaps en = (let latest = snd (last snaps) in
     rbind (rmap (\<lambda>(d, sn). snapshot_trades sn) snaps) (\<lambda>tss.
     rbind (rmap (\<lambda>(d, sn). snapshot_risk_events sn) snaps) (\<lambda>ess.
     rbind (int_map (sn_holdings latest)) (\<lambda>hs.
     rbind (float_map (sn_weights latest)) (\<lambda>ws.
     rbind (float_map (sn_prev_returns latest)) (\<lambda>prs.
       Inr (replay_risk (en\<lparr>pe_cash := sn_cash latest, pe_holdings := hs, pe_prev_weights := ws, pe_prev_returns := prs,
         pe_equity_curve := map (\<lambda>(d, sn). sn_equity sn) snaps, pe_dates := map fst snaps, pe_trades := concat tss,
         pe_risk_events := concat ess,
         pe_last_prices := implied_prices (sn_equity latest) ws hs (pe_last_prices en)\<rparr>))))))))"

definition restore_legacy ::
  "spec \<Rightarrow> (date \<times> snapshot_row) list \<Rightarrow> event list \<Rightarrow> 's engine_state \<Rightarrow> 's engine_state res" where
  "restore_legacy sp snaps evs en =
     rbind (restore_from_snapshots snaps en) (\<lambda>en1.
     if evs = [] then Inr en1
     else let d = fst (last snaps) in
       rbind (events_where (\<lambda>x. x \<le> d) evs) (\<lambda>upto.
       rbind (check_legacy_snapshot_event_consistency sp snaps (snd (last snaps)) upto) (\<lambda>w.
       rbind (events_where (\<lambda>x. d < x) evs) (\<lambda>after_events.
         apply_legacy_post_snapshot_events after_events
           (en1\<lparr>pe_recovery_warnings := pe_recovery_warnings en1 @ w\<rparr>)))))"

definition restore_full_state :: "spec \<Rightarrow> store \<Rightarrow> string \<Rightarrow> 's engine_state \<Rightarrow> 's engine_state res" where
  "restore_full_state sp st dep en0 =
     (let snaps = get_all_snapshots st dep; evs = get_events st dep;
          en = en0\<lparr>pe_recovery_warnings := [], pe_order_statuses := []\<rparr>
      in if evs = []
         then (if snaps = [] then Inr en else restore_legacy sp snaps [] en)
         else rbind (replay evs (sp_initial_cash sp) []) (\<lambda>rs.
           if latest_snapshot_date rs \<noteq> None then restore_from_event_ledger rs snaps en
           else rbind (build_replay_baseline sp snaps evs) (\<lambda>(c, hs, kept).
             rbind (replay kept c hs) (\<lambda>rl.
               let en1 = en\<lparr>pe_order_statuses := order_statuses rl\<rparr> in
               if snaps = [] then Inr (restore_from_legacy_event_replay rl en1)
               else restore_legacy sp snaps evs en1))))"

end
