(* ===== verification/Scheduler.thy ===== *)
theory Scheduler
  imports Recovery
begin

text \<open>
  \<open>ez/live/scheduler.py\<close> for deployments on the paper broker without a shadow broker: the life cycle of a
  deployment, the daily tick, error escalation and recovery at start.  A broker session (QMT or a shadow broker) is
  outside the model and makes the operation fail with \<open>NotModelled\<close>.  The scheduler serialises its operations with
  a lock, so each is one step here.
\<close>

section \<open>State\<close>

text \<open>What the process provides: the JSON library and digest for stored specifications, the construction of a
  strategy and of an engine's environment from a specification, and pickling.\<close>

record 's runtime =
  rt_json :: json_text
  rt_sha :: "string \<Rightarrow> string"
  rt_env :: "spec \<Rightarrow> string \<Rightarrow> 's engine_env"
  rt_strategy :: "spec \<Rightarrow> 's res"
  rt_pickle :: "'s \<Rightarrow> string option"
  rt_unpickle :: "string \<Rightarrow> 's option"
  rt_class :: "'s \<Rightarrow> string"
  rt_schema_version :: "'s \<Rightarrow> json option"
  rt_dunder_version :: "'s \<Rightarrow> json option"
  rt_error_text :: "py_error \<Rightarrow> string"
  rt_stop_reason :: "int \<Rightarrow> py_error \<Rightarrow> string"
  rt_restore_reason :: string

record 's live_engine =
  eg_env :: "'s engine_env"
  eg_state :: "'s engine_state"

record 's scheduler =
  sc_store :: store
  sc_engines :: "(string, 's live_engine) dict"
  sc_paused :: "string list"

abbreviation engine_spec :: "'s live_engine \<Rightarrow> spec" where
  "engine_spec eg \<equiv> ee_spec (eg_env eg)"

definition max_consecutive_errors :: int where
  "max_consecutive_errors = 3"

definition market_timezones :: "(string, string) dict" where
  "market_timezones = [(''cn_stock'', ''Asia/Shanghai''), (''hk_stock'', ''Asia/Hong_Kong''), (''us_stock'', ''America/New_York'')]"

text \<open>The date in the zone of a market; \<open>zone_today\<close> is the wall clock of a zone, UTC for an unknown market.\<close>

definition market_today :: "(string \<Rightarrow> date) \<Rightarrow> string \<Rightarrow> date" where
  "market_today zone_today market = zone_today (dget_or market_timezones market ''UTC'')"

definition discard :: "'a \<Rightarrow> 'a list \<Rightarrow> 'a list" where
  "discard x xs = filter (\<lambda>y. y \<noteq> x) xs"

definition add_to_set :: "'a \<Rightarrow> 'a list \<Rightarrow> 'a list" where
  "add_to_set x xs = (if x \<in> set xs then xs else xs @ [x])"

section \<open>Starting an engine\<close>

text \<open>A-share rules on another market, left by an old way of building specifications.\<close>

definition historical_non_cn_market_rule_mismatches :: "spec \<Rightarrow> string list" where
  "historical_non_cn_market_rule_mismatches sp =
     (if sp_market sp = ''cn_stock'' then []
      else (if sp_t_plus_1 sp then [''t_plus_1''] else []) @ (if 0 < sp_stamp_tax_rate sp then [''stamp_tax_rate''] else [])
        @ (if 0 < sp_price_limit_pct sp then [''price_limit_pct''] else []) @ (if 1 < sp_lot_size sp then [''lot_size''] else []))"

text \<open>A parameter that is used as a number; other values are outside the model.\<close>

fun number_param :: "json \<Rightarrow> flt res" where
  "number_param (JInt i) = Inr (of_int i)"
| "number_param (JFloat x) = Inr x"
| "number_param _ = Inl NotModelled"

definition create_risk_manager :: "json_text \<Rightarrow> spec \<Rightarrow> risk_manager res" where
  "create_risk_manager L sp = rbind (risk_params L sp) (\<lambda>j. case as_dict j of
     None \<Rightarrow> Inl AttributeError
   | Some d \<Rightarrow>
     rbind (number_param (jget d ''max_drawdown_threshold'' (JFloat (20 / 100)))) (\<lambda>a.
     rbind (number_param (jget d ''drawdown_reduce_ratio'' (JFloat (50 / 100)))) (\<lambda>b.
     rbind (number_param (jget d ''drawdown_recovery_ratio'' (JFloat (10 / 100)))) (\<lambda>c.
     rbind (number_param (jget d ''max_turnover'' (JFloat (50 / 100)))) (\<lambda>t.
       Inr (new_risk_manager \<lparr>rc_max_drawdown_threshold = a, rc_drawdown_reduce_ratio = b,
         rc_drawdown_recovery_ratio = c, rc_max_turnover = t\<rparr>))))))"

definition instantiate :: "'s runtime \<Rightarrow> spec \<Rightarrow> ('s \<times> risk_manager option) res" where
  "instantiate rt sp = rbind (rt_strategy rt sp) (\<lambda>strategy.
     if sp_risk_control sp then rbind (create_risk_manager (rt_json rt) sp) (\<lambda>rm. Inr (strategy, Some rm))
     else Inr (strategy, None))"

text \<open>A strategy fits when its class and, where it declares one, its state version are those of a fresh instance.\<close>

definition strategy_restore_compatible :: "'s runtime \<Rightarrow> 's \<Rightarrow> 's \<Rightarrow> bool" where
  "strategy_restore_compatible rt restored fresh \<longleftrightarrow> rt_class rt restored = rt_class rt fresh
     \<and> (if rt_schema_version rt restored = None \<and> rt_schema_version rt fresh = None
         then rt_dunder_version rt restored = rt_dunder_version rt fresh
         else rt_schema_version rt restored = rt_schema_version rt fresh)"

text \<open>The strategy restored from the last pickle, if it can be read and fits.\<close>

definition restore_strategy :: "'s runtime \<Rightarrow> store \<Rightarrow> string \<Rightarrow> 's \<Rightarrow> 's" where
  "restore_strategy rt st dep fresh = (case get_latest_strategy_state st dep of
     None \<Rightarrow> fresh
   | Some blob \<Rightarrow> if blob = [] then fresh else (case rt_unpickle rt blob of
       None \<Rightarrow> fresh
     | Some restored \<Rightarrow> if strategy_restore_compatible rt restored fresh then restored else fresh))"

text \<open>The specification of a deployment.\<close>

definition load_spec :: "'s runtime \<Rightarrow> store \<Rightarrow> string \<Rightarrow> spec res" where
  "load_spec rt st dep = (case get_record st dep of
     None \<Rightarrow> Inl ValueError
   | Some r \<Rightarrow> (case get_spec st (dr_spec_id r) of
       None \<Rightarrow> Inl ValueError
     | Some text \<Rightarrow> from_json (rt_json rt) (rt_sha rt) text))"

definition paper_only :: "spec \<Rightarrow> bool" where
  "paper_only sp \<longleftrightarrow> sp_broker_type sp = ''paper'' \<and> sp_shadow_broker_type sp = []"

definition build_engine :: "'s runtime \<Rightarrow> store \<Rightarrow> string \<Rightarrow> 's live_engine res" where
  "build_engine rt st dep =
     rbind (load_spec rt st dep) (\<lambda>sp.
     if historical_non_cn_market_rule_mismatches sp \<noteq> [] then Inl ValueError
     else rbind (instantiate rt sp) (\<lambda>(strategy, rm).
       if \<not> paper_only sp then Inl NotModelled
       else rbind (restore_full_state sp st dep (new_engine (rt_env rt sp dep) (restore_strategy rt st dep strategy) rm)) (\<lambda>en.
         Inr \<lparr>eg_env = rt_env rt sp dep, eg_state = en\<rparr>)))"

definition start_engine :: "'s runtime \<Rightarrow> string \<Rightarrow> ('s scheduler, unit) act" where
  "start_engine rt dep =
     abind (alift (\<lambda>sc. build_engine rt (sc_store sc) dep)) (\<lambda>eg.
       amodify (\<lambda>sc. sc\<lparr>sc_engines := dset (sc_engines sc) dep eg\<rparr>))"

section \<open>Life cycle\<close>

definition set_status :: "string \<Rightarrow> string \<Rightarrow> string \<Rightarrow> timestamp \<Rightarrow> ('s scheduler, unit) act" where
  "set_status dep status reason now sc = (case update_status dep status reason now (sc_store sc) of
     Inl e \<Rightarrow> (Inl e, sc) | Inr st \<Rightarrow> (Inr (), sc\<lparr>sc_store := st\<rparr>))"

definition status_is :: "'s scheduler \<Rightarrow> string \<Rightarrow> string \<Rightarrow> bool" where
  "status_is sc dep status \<longleftrightarrow> (case get_record (sc_store sc) dep of None \<Rightarrow> False | Some r \<Rightarrow> dr_status r = status)"

text \<open>An engine whose status could not be stored is released.\<close>

definition cleanup_engine_resources :: "string \<Rightarrow> 's scheduler \<Rightarrow> 's scheduler" where
  "cleanup_engine_resources dep sc = sc\<lparr>sc_engines := dpop (sc_engines sc) dep, sc_paused := discard dep (sc_paused sc)\<rparr>"

definition or_cleanup :: "string \<Rightarrow> ('s scheduler, unit) act \<Rightarrow> ('s scheduler, unit) act" where
  "or_cleanup dep m sc = (case m sc of (Inl e, sc') \<Rightarrow> (Inl e, cleanup_engine_resources dep sc') | (Inr u, sc') \<Rightarrow> (Inr u, sc'))"

definition start_deployment :: "'s runtime \<Rightarrow> timestamp \<Rightarrow> string \<Rightarrow> ('s scheduler, unit) act" where
  "start_deployment rt now dep sc =
     (if \<not> status_is sc dep ''approved'' then (Inl ValueError, sc)
      else abind (start_engine rt dep) (\<lambda>_. or_cleanup dep (set_status dep ''running'' [] now)) sc)"

definition pause_deployment :: "timestamp \<Rightarrow> string \<Rightarrow> ('s scheduler, unit) act" where
  "pause_deployment now dep sc =
     (if \<not> dhas (sc_engines sc) dep then (Inl ValueError, sc)
      else abind (set_status dep ''paused'' [] now) (\<lambda>_.
        amodify (\<lambda>sc. sc\<lparr>sc_paused := add_to_set dep (sc_paused sc)\<rparr>)) sc)"

definition resume_deployment :: "'s runtime \<Rightarrow> timestamp \<Rightarrow> string \<Rightarrow> ('s scheduler, unit) act" where
  "resume_deployment rt now dep sc =
     (if \<not> status_is sc dep ''paused'' then (Inl ValueError, sc)
      else abind (if dhas (sc_engines sc) dep then set_status dep ''running'' [] now
          else abind (start_engine rt dep) (\<lambda>_. or_cleanup dep (set_status dep ''running'' [] now))) (\<lambda>_.
          amodify (\<lambda>sc. sc\<lparr>sc_paused := discard dep (sc_paused sc)\<rparr>)) sc)"

text \<open>At process start: every running deployment is restored, or set to error; the number of restored ones.\<close>

definition restore_one :: "'s runtime \<Rightarrow> timestamp \<Rightarrow> string \<Rightarrow> nat \<times> 's scheduler \<Rightarrow> nat \<times> 's scheduler" where
  "restore_one rt now dep acc = (case acc of (restored, sc) \<Rightarrow> (case start_engine rt dep sc of
     (Inr _, sc') \<Rightarrow> (restored + 1, sc')
   | (Inl e, sc') \<Rightarrow> (restored, snd (set_status dep ''error'' (rt_restore_reason rt) now sc'))))"

definition resume_all :: "'s runtime \<Rightarrow> timestamp \<Rightarrow> 's scheduler \<Rightarrow> nat \<times> 's scheduler" where
  "resume_all rt now sc =
     fold (\<lambda>(dep, r). restore_one rt now dep) (list_deployments (sc_store sc) (Some ''running'')) (0, sc)"

text \<open>Liquidation: an empty target at the last known prices, outside the OMS.\<close>

definition liquidation_request :: "date \<Rightarrow> 's live_engine \<Rightarrow> exec_request" where
  "liquidation_request today eg = (let en = eg_state eg; sp = engine_spec eg; prices = pe_last_prices en in
     \<lparr>q_business_date = today, q_target_weights = [], q_holdings = pe_holdings en, q_cash = pe_cash en,
      q_inputs = \<lparr>xi_equity = fst (mark_to_market prices en), xi_prices = prices, xi_raw_close = prices,
        xi_prev_raw_close = prices, xi_has_bar = dkeys (pe_holdings en), xi_costs = spec_costs sp,
        xi_lot_size = sp_lot_size sp, xi_limit_pct = 0, xi_t_plus_1 = False\<rparr>,
      q_requested_orders = [], q_execution_slices = 1\<rparr>)"

definition liquidation_result :: "date \<Rightarrow> (string, flt) dict \<Rightarrow> broker_result \<Rightarrow> payload" where
  "liquidation_result today prices r =
     [(''date'', JStr (isoformat today)),
      (''equity'', JFloat (br_cash r + sum_list (map (\<lambda>(s, n). of_int n * dget_or prices s 0) (br_holdings r)))),
      (''cash'', JFloat (br_cash r)), (''holdings'', int_obj (br_holdings r)), (''weights'', JObj []),
      (''trades'', JList (map (\<lambda>f. JObj (to_trade_dict f)) (br_fills r))), (''risk_events'', JList []),
      (''rebalanced'', JBool False), (''liquidation'', JBool True)]"

definition liquidate :: "date \<Rightarrow> timestamp \<Rightarrow> string \<Rightarrow> 's scheduler \<Rightarrow> 's scheduler" where
  "liquidate today now dep sc = (case map_of (sc_engines sc) dep of
     None \<Rightarrow> sc
   | Some eg \<Rightarrow>
       if pe_holdings (eg_state eg) = [] then sc
       else let eg = eg\<lparr>eg_state := snd (mark_to_market (pe_last_prices (eg_state eg)) (eg_state eg))\<rparr> in
         case ee_broker (eg_env eg) (liquidation_request today eg) of
           Inl e \<Rightarrow> sc\<lparr>sc_engines := dset (sc_engines sc) dep eg\<rparr>
         | Inr r \<Rightarrow>
             let eg' = eg\<lparr>eg_state := (eg_state eg)\<lparr>pe_holdings := br_holdings r, pe_cash := br_cash r\<rparr>\<rparr>;
                 st = fst (save_snapshot_with_events now dep today
                   (liquidation_result today (pe_last_prices (eg_state eg)) r) [] [] None (sc_store sc))
             in sc\<lparr>sc_engines := dset (sc_engines sc) dep eg', sc_store := st\<rparr>)"

definition stop_deployment :: "date \<Rightarrow> timestamp \<Rightarrow> string \<Rightarrow> string \<Rightarrow> bool \<Rightarrow> ('s scheduler, unit) act" where
  "stop_deployment today now dep reason liq sc =
     (if get_record (sc_store sc) dep = None \<or> status_is sc dep ''stopped'' \<or> status_is sc dep ''pending'' then (Inl ValueError, sc)
      else abind (set_status dep ''stopped'' reason now) (\<lambda>_.
        amodify (\<lambda>sc. sc\<lparr>sc_engines := dpop (sc_engines sc) dep, sc_paused := discard dep (sc_paused sc)\<rparr>))
        (if liq then liquidate today now dep sc else sc))"

section \<open>The event sequence of a tick\<close>

definition anchored_types :: "event_type list" where
  "anchored_types = [BROKER_ACCOUNT_RECORDED, BROKER_EXECUTION_RECORDED, BROKER_RUNTIME_RECORDED]"

definition with_ts :: "timestamp \<Rightarrow> event \<Rightarrow> event" where
  "with_ts ts ev = ev\<lparr>e_ts := ts\<rparr>"

text \<open>Market events go before the OMS events, account events after them, one microsecond apart.\<close>

definition sequence_runtime_events :: "timestamp \<Rightarrow> event list \<Rightarrow> event list \<Rightarrow> event list \<Rightarrow> event list" where
  "sequence_runtime_events now pre_events oms_events post_events =
     (let oms = sort_key event_sort_key oms_events;
          anchored = sort_key event_sort_key (filter (\<lambda>e. e_type e \<in> set anchored_types) post_events);
          sequenced = filter (\<lambda>e. e_type e \<notin> set anchored_types) post_events;
          earliest = (if oms = [] then now else e_ts (hd oms));
          latest_oms = (if oms = [] then now else e_ts (last oms));
          latest = (if anchored = [] then latest_oms else max latest_oms (e_ts (last anchored)))
      in map (\<lambda>(i, e). with_ts (earliest - (int (length pre_events) - int i)) e) (enumerate 0 pre_events)
        @ oms @ anchored @ map (\<lambda>(i, e). with_ts (latest + (int i + 1)) e) (enumerate 0 sequenced))"

record tick_readings =
  tk_clock :: "nat \<Rightarrow> timestamp"
  tk_now :: timestamp
  tk_elapsed :: flt
  tk_write :: timestamp

definition pre_events :: "string \<Rightarrow> date \<Rightarrow> timestamp \<Rightarrow> day_result \<Rightarrow> event list" where
  "pre_events dep d now r =
     map (\<lambda>b. make_market_bar_event dep d (mb_symbol b) (mb_open b) (mb_high b) (mb_low b) (mb_close b) (mb_adj_close b)
       (mb_volume b) ''live'' now) (dy_market_bars r)
     @ [make_market_snapshot_event dep d (ms_prices (dy_market_snapshot r)) (ms_has_bar (dy_market_snapshot r))
          (ms_source (dy_market_snapshot r)) now]"

definition post_events :: "string \<Rightarrow> date \<Rightarrow> timestamp \<Rightarrow> flt \<Rightarrow> day_result \<Rightarrow> event list" where
  "post_events dep d now elapsed r =
     map (\<lambda>(i, ev). make_risk_event dep d (int i) ev now) (enumerate 0 (dy_risk_events r))
     @ [make_snapshot_event dep d (dy_equity r) (dy_cash r) (dy_rebalanced r) (int (length (dy_trades r)))
          (Some (dy_holdings r)) (Some (dy_weights r)) (Some (dy_prev_returns r)) False now,
        make_tick_completed_event dep d elapsed (dy_rebalanced r) (int (length (dy_trades r)))
          (int (length (dy_risk_events r))) (dy_equity r) (dy_cash r) now]"

definition tick_events :: "tick_readings \<Rightarrow> string \<Rightarrow> date \<Rightarrow> day_result \<Rightarrow> event list" where
  "tick_events tk dep d r = sequence_runtime_events (tk_now tk) (pre_events dep d (tk_now tk) r) (dy_oms_events r)
     (post_events dep d (tk_now tk) (tk_elapsed tk) r)"

text \<open>The result as the dictionary that the snapshot row is written from.\<close>

definition result_payload :: "tick_readings \<Rightarrow> day_result \<Rightarrow> payload" where
  "result_payload tk r = [(''date'', JStr (isoformat (dy_date r))), (''equity'', JFloat (dy_equity r)),
     (''cash'', JFloat (dy_cash r)), (''holdings'', int_obj (dy_holdings r)), (''weights'', float_obj (dy_weights r)),
     (''prev_returns'', float_obj (dy_prev_returns r)), (''trades'', JList (map (\<lambda>t. JObj (trade_to_dict t)) (dy_trades r))),
     (''risk_events'', JList (map JObj (dy_risk_events r))), (''rebalanced'', JBool (dy_rebalanced r)),
     (''execution_ms'', JFloat (tk_elapsed tk))]"

section \<open>The tick\<close>

definition put_engine :: "string \<Rightarrow> 's live_engine \<Rightarrow> 's scheduler \<Rightarrow> 's scheduler" where
  "put_engine dep eg sc = sc\<lparr>sc_engines := dset (sc_engines sc) dep eg\<rparr>"

text \<open>Execution and persistence of one deployment; the engine keeps what a failing day has done to it.\<close>

definition execute_and_save ::
  "'s runtime \<Rightarrow> tick_readings \<Rightarrow> date \<Rightarrow> string \<Rightarrow> 's live_engine \<Rightarrow> ('s scheduler, day_result) act" where
  "execute_and_save rt tk d dep eg sc =
     (case execute_day (eg_env eg) (tk_clock tk) d (eg_state eg) of (res, en') \<Rightarrow>
       let eg' = eg\<lparr>eg_state := en'\<rparr>; sc1 = put_engine dep eg' sc in
       case res of
         Inl e \<Rightarrow> (Inl e, sc1)
       | Inr r \<Rightarrow>
           (case save_snapshot_with_events (tk_write tk) dep d (result_payload tk r) (tick_events tk dep d r) []
               (rt_pickle rt (pe_strategy en')) (sc_store sc1) of
              (st, Inl e) \<Rightarrow> (Inl e, sc1\<lparr>sc_store := st\<rparr>)
            | (st, Inr _) \<Rightarrow> (Inr r, sc1\<lparr>sc_store := reset_error_count dep st\<rparr>)))"

text \<open>A failed day counts as processed; the third failure in a row ends the deployment.\<close>

definition record_failure :: "'s runtime \<Rightarrow> timestamp \<Rightarrow> date \<Rightarrow> string \<Rightarrow> py_error \<Rightarrow> 's scheduler \<Rightarrow> 's scheduler" where
  "record_failure rt now d dep e sc =
     (case increment_error_count dep (save_error dep d (rt_error_text rt e) (sc_store sc)) of (st, n) \<Rightarrow>
       let sc1 = sc\<lparr>sc_store := st\<rparr> in
       if max_consecutive_errors \<le> n
       then (case set_status dep ''error'' (rt_stop_reason rt n e) now sc1 of (_, sc2) \<Rightarrow>
         sc2\<lparr>sc_engines := dpop (sc_engines sc2) dep, sc_paused := discard dep (sc_paused sc2)\<rparr>)
       else sc1)"

definition skips :: "date \<Rightarrow> string \<Rightarrow> 's live_engine \<Rightarrow> 's scheduler \<Rightarrow> bool" where
  "skips d dep eg sc \<longleftrightarrow> get_record (sc_store sc) dep = None \<or> dep \<in> set (sc_paused sc)
     \<or> \<not> is_trading_day (ee_calendar (eg_env eg)) d
     \<or> (case get_last_processed_date (sc_store sc) dep of None \<Rightarrow> False | Some l \<Rightarrow> d \<le> l)"

definition in_scope :: "string list option \<Rightarrow> 's live_engine \<Rightarrow> bool" where
  "in_scope markets eg \<longleftrightarrow> (case markets of None \<Rightarrow> True | Some ms \<Rightarrow> ms = [] \<or> sp_market (engine_spec eg) \<in> set ms)"

definition tick_one ::
  "'s runtime \<Rightarrow> (string \<Rightarrow> tick_readings) \<Rightarrow> date \<Rightarrow> string list option \<Rightarrow> string
    \<Rightarrow> (string \<times> day_result) list \<times> 's scheduler \<Rightarrow> (string \<times> day_result) list \<times> 's scheduler" where
  "tick_one rt tks d markets dep acc = (case acc of (results, sc) \<Rightarrow> (case map_of (sc_engines sc) dep of
       None \<Rightarrow> (results, sc)
     | Some eg \<Rightarrow>
         if \<not> in_scope markets eg \<or> skips d dep eg sc then (results, sc)
         else (case execute_and_save rt (tks dep) d dep eg sc of
             (Inr r, sc') \<Rightarrow> (results @ [(dep, r)], sc')
           | (Inl e, sc') \<Rightarrow> (results, record_failure rt (tk_write (tks dep)) d dep e sc'))))"

text \<open>A date that lies in the future of a market in scope is refused.\<close>

definition future_date :: "(string \<Rightarrow> date) \<Rightarrow> date \<Rightarrow> string list option \<Rightarrow> 's scheduler \<Rightarrow> bool" where
  "future_date zone_today d markets sc \<longleftrightarrow>
     (if sc_engines sc = [] then zone_today ''UTC'' < d
      else list_ex (\<lambda>(dep, eg). in_scope markets eg \<and> market_today zone_today (sp_market (engine_spec eg)) < d) (sc_engines sc))"

definition tick ::
  "'s runtime \<Rightarrow> (string \<Rightarrow> date) \<Rightarrow> (string \<Rightarrow> tick_readings) \<Rightarrow> date \<Rightarrow> string list option
    \<Rightarrow> ('s scheduler, (string \<times> day_result) list) act" where
  "tick rt zone_today tks d markets sc =
     (if future_date zone_today d markets sc then (Inl ValueError, sc)
      else case fold (tick_one rt tks d markets) (dkeys (sc_engines sc)) ([], sc) of (results, sc') \<Rightarrow> (Inr results, sc'))"

definition get_auto_tick_batches :: "(string \<Rightarrow> date) \<Rightarrow> 's scheduler \<Rightarrow> (date \<times> string list option) list" where
  "get_auto_tick_batches zone_today sc =
     (if sc_engines sc = [] then [(zone_today ''UTC'', None)]
      else let markets = map (\<lambda>(dep, eg). sp_market (engine_spec eg)) (sc_engines sc)
        in map (\<lambda>d. (d, Some (sort (remdups (filter (\<lambda>m. market_today zone_today m = d) markets)))))
             (sort (remdups (map (market_today zone_today) markets))))"

end
