(* ===== verification/Tick.thy ===== *)
theory Tick
  imports Scheduler
begin

text \<open>
  What the operations of the store and of the scheduler do to the deployment records and the loaded engines, and
  the idempotence of a tick: a day is executed at most once.
\<close>

section \<open>Records under the operations of the store\<close>

named_theorems record_simps

lemma get_record_update_row [record_simps]:
  "get_record (update_row dep f s) d = (if d = dep then map_option f (get_record s d) else get_record s d)"
  by (auto simp: update_row_def get_record_def split: option.splits)

lemma update_row_empty: "get_record s dep = None \<Longrightarrow> update_row dep f s = s"
  by (simp add: update_row_def get_record_def)

lemma get_record_update_gate_verdict [record_simps]:
  "get_record (update_gate_verdict dep v s) d =
     (if d = dep then map_option (\<lambda>r. r\<lparr>dr_gate_verdict := Some v\<rparr>) (get_record s d) else get_record s d)"
  by (simp add: update_gate_verdict_def record_simps)

lemma get_record_reset [record_simps]:
  "get_record (reset_error_count dep s) d = (if d = dep then map_option (\<lambda>r. r\<lparr>dr_errors := 0\<rparr>) (get_record s d) else get_record s d)"
  by (simp add: reset_error_count_def record_simps)

lemma get_record_save_error [record_simps]:
  "get_record (save_error dep bd err s) d =
     (if d = dep then map_option (\<lambda>r. r\<lparr>dr_last_processed := Some bd\<rparr>) (get_record s d) else get_record s d)"
  unfolding save_error_def Let_def record_simps by (simp add: get_record_def split: option.split)

lemma increment_error_count_record:
  assumes "increment_error_count dep s = (s', n)"
  shows "get_record s' d = (if d = dep then map_option (\<lambda>r. r\<lparr>dr_errors := dr_errors r + 1\<rparr>) (get_record s d) else get_record s d)"
    and "n = (case get_record s dep of None \<Rightarrow> 0 | Some r \<Rightarrow> dr_errors r + 1)"
proof -
  have s': "s' = update_row dep (\<lambda>r. r\<lparr>dr_errors := dr_errors r + 1\<rparr>) s" "n = get_error_count s' dep"
    using assms by (auto simp: increment_error_count_def Let_def)
  show "get_record s' d = (if d = dep then map_option (\<lambda>r. r\<lparr>dr_errors := dr_errors r + 1\<rparr>) (get_record s d) else get_record s d)"
    by (simp add: s' record_simps)
  then show "n = (case get_record s dep of None \<Rightarrow> 0 | Some r \<Rightarrow> dr_errors r + 1)"
    unfolding s'(2) get_error_count_def get_record_def [symmetric] by (simp add: s'(1) record_simps split: option.split)
qed

definition status_change :: "string \<Rightarrow> string \<Rightarrow> timestamp \<Rightarrow> deployment_record \<Rightarrow> deployment_record" where
  "status_change status reason now r = (let r = r\<lparr>dr_status := status, dr_stop_reason := reason\<rparr> in
     if status = ''approved'' then r\<lparr>dr_approved_at := Some now\<rparr>
     else if status = ''running'' then r\<lparr>dr_started_at := Some now\<rparr>
     else if status \<in> {''stopped'', ''paused'', ''error''} then r\<lparr>dr_stopped_at := Some now\<rparr>
     else r)"

lemma update_status_eq:
  "status \<in> set valid_statuses \<Longrightarrow> update_status dep status reason now s = Inr (update_row dep (status_change status reason now) s)"
  by (simp add: update_status_def status_change_def [abs_def] Let_def)

lemma status_change_simps [simp]:
  "dr_status (status_change status reason now r) = status"
  "dr_errors (status_change status reason now r) = dr_errors r"
  "dr_last_processed (status_change status reason now r) = dr_last_processed r"
  "dr_gate_verdict (status_change status reason now r) = dr_gate_verdict r"
  "dr_approved_at (status_change status reason now r) = (if status = ''approved'' then Some now else dr_approved_at r)"
  by (simp_all add: status_change_def Let_def)

lemma st_records_append_locked:
  "append_events_locked now evs s = Inr (s', n) \<Longrightarrow> st_records s' = st_records s"
proof -
  have one: "append_one now ev (s, k) = Inr (s', k') \<Longrightarrow> st_records s' = st_records s" for ev s k s' k'
    by (auto simp: append_one_def Let_def)
  have "rfold (append_one now) evs (s, k) = Inr (s', n) \<Longrightarrow> st_records s' = st_records s" for k
  proof (induction evs arbitrary: s k)
    case (Cons ev evs)
    then show ?case using one by fastforce
  qed simp
  then show "append_events_locked now evs s = Inr (s', n) \<Longrightarrow> st_records s' = st_records s"
    unfolding append_events_locked_def .
qed

definition processed :: "date \<Rightarrow> deployment_record \<Rightarrow> deployment_record" where
  "processed d r = r\<lparr>dr_last_processed := Some d\<rparr>"

lemma st_records_update_row:
  "st_records (update_row dep f s) = (case map_of (st_records s) dep of None \<Rightarrow> st_records s | Some r \<Rightarrow> dset (st_records s) dep (f r))"
  by (simp add: update_row_def split: option.split)

lemma save_snapshot_records:
  assumes "save_snapshot_with_events now dep d result evs reports blob s = (s', r)"
  shows "st_records s' = (case r of Inl e \<Rightarrow> st_records s | Inr _ \<Rightarrow> st_records (update_row dep (processed d) s))"
proof (cases r)
  case (Inl e)
  then show ?thesis using assms by (auto simp: save_snapshot_with_events_def transact_def split: sum.splits prod.splits)
next
  case (Inr u)
  then obtain s1 n where 1: "append_events_locked now evs s = Inr (s1, n)"
    and 2: "write_snapshot_locked dep d result blob (upsert_reports now dep reports s1) = Inr s'"
    using assms by (auto simp: save_snapshot_with_events_def transact_def split: sum.splits prod.splits)
  from 2 have "st_records s' = st_records (update_row dep (processed d) s1)"
    by (auto simp: write_snapshot_locked_def upsert_reports_def processed_def [abs_def] st_records_update_row split: option.split)
  then show ?thesis using Inr st_records_append_locked [OF 1] by (simp add: st_records_update_row split: option.split)
qed

lemma get_record_cong: "st_records s = st_records s' \<Longrightarrow> get_record s = get_record s'"
  by (rule ext) (simp add: get_record_def)

section \<open>One deployment of a tick\<close>

definition settled :: "date \<Rightarrow> string list option \<Rightarrow> string \<Rightarrow> 's scheduler \<Rightarrow> bool" where
  "settled d markets dep sc \<longleftrightarrow> (case map_of (sc_engines sc) dep of None \<Rightarrow> True
     | Some eg \<Rightarrow> \<not> in_scope markets eg \<or> skips d dep eg sc)"

lemma tick_one_settled: "settled d markets dep sc \<Longrightarrow> tick_one rt tks d markets dep (rs, sc) = (rs, sc)"
  by (auto simp: settled_def tick_one_def split: option.splits)

lemma dkeys_dset_known: "map_of d k = Some v \<Longrightarrow> map fst (dset d k w) = map fst d"
  by (induction d) (auto split: if_splits)

lemma dkeys_update_row [simp]: "map fst (st_records (update_row dep f s)) = map fst (st_records s)"
  by (simp add: st_records_update_row dkeys_dset_known split: option.split)

definition succeeded :: "date \<Rightarrow> deployment_record \<Rightarrow> deployment_record" where
  "succeeded d r = r\<lparr>dr_last_processed := Some d, dr_errors := 0\<rparr>"

definition stumbled :: "date \<Rightarrow> deployment_record \<Rightarrow> deployment_record" where
  "stumbled d r = r\<lparr>dr_last_processed := Some d, dr_errors := dr_errors r + 1\<rparr>"

lemma execute_and_save_cases:
  assumes "execute_and_save rt tk d dep eg sc = (res, sc')" and "get_record (sc_store sc) dep = Some r"
  obtains (saved) day en where "res = Inr day" "sc_engines sc' = dset (sc_engines sc) dep (eg\<lparr>eg_state := en\<rparr>)"
      "sc_paused sc' = sc_paused sc" "get_record (sc_store sc') = (get_record (sc_store sc))(dep \<mapsto> succeeded d r)"
      "map fst (st_records (sc_store sc')) = map fst (st_records (sc_store sc))"
  | (raised) e en where "res = Inl e" "sc_engines sc' = dset (sc_engines sc) dep (eg\<lparr>eg_state := en\<rparr>)"
      "sc_paused sc' = sc_paused sc" "st_records (sc_store sc') = st_records (sc_store sc)"
proof -
  obtain res1 en where ex: "execute_day (eg_env eg) (tk_clock tk) d (eg_state eg) = (res1, en)" by force
  let ?sc1 = "put_engine dep (eg\<lparr>eg_state := en\<rparr>) sc"
  show thesis
  proof (cases res1)
    case (Inl e)
    then show thesis using assms(1) ex by (intro raised) (auto simp: execute_and_save_def Let_def put_engine_def)
  next
    case (Inr day)
    obtain st r1 where sv: "save_snapshot_with_events (tk_write tk) dep d (result_payload tk day) (tick_events tk dep d day) []
        (rt_pickle rt (pe_strategy en)) (sc_store ?sc1) = (st, r1)" by force
    show thesis
    proof (cases r1)
      case (Inl e)
      then have "res = Inl e" "sc' = ?sc1\<lparr>sc_store := st\<rparr>" using assms(1) ex Inr sv by (auto simp: execute_and_save_def Let_def)
      moreover have "st_records st = st_records (sc_store sc)" using save_snapshot_records [OF sv] Inl by (simp add: put_engine_def)
      ultimately show thesis by (intro raised) (auto simp: put_engine_def)
    next
      case (Inr u)
      then have res: "res = Inr day" "sc' = ?sc1\<lparr>sc_store := reset_error_count dep st\<rparr>"
        using assms(1) ex \<open>res1 = Inr day\<close> sv by (auto simp: execute_and_save_def Let_def)
      have st: "st_records st = st_records (update_row dep (processed d) (sc_store sc))"
        using save_snapshot_records [OF sv] Inr by (simp add: put_engine_def)
      have rec: "get_record (sc_store sc') = (get_record (sc_store sc))(dep \<mapsto> succeeded d r)"
      proof
        fix d'
        show "get_record (sc_store sc') d' = ((get_record (sc_store sc))(dep \<mapsto> succeeded d r)) d'"
          using assms(2) by (simp add: res record_simps get_record_cong [OF st] succeeded_def processed_def)
      qed
      have "map fst (st_records (sc_store sc')) = map fst (st_records (sc_store sc))"
        by (simp add: res(2) reset_error_count_def st)
      then show thesis using res rec by (intro saved) (auto simp: put_engine_def)
    qed
  qed
qed

lemma record_failure_effect:
  assumes "get_record (sc_store sc) dep = Some r" and "n = dr_errors r + 1"
  shows "get_record (sc_store (record_failure rt now d dep e sc)) = (get_record (sc_store sc))(dep \<mapsto>
      (if max_consecutive_errors \<le> n then status_change ''error'' (rt_stop_reason rt n e) now (stumbled d r) else stumbled d r))"
    and "sc_engines (record_failure rt now d dep e sc) = (if max_consecutive_errors \<le> n then dpop (sc_engines sc) dep else sc_engines sc)"
    and "sc_paused (record_failure rt now d dep e sc) = (if max_consecutive_errors \<le> n then discard dep (sc_paused sc) else sc_paused sc)"
    and "map fst (st_records (sc_store (record_failure rt now d dep e sc))) = map fst (st_records (sc_store sc))"
proof -
  define s1 where "s1 = save_error dep d (rt_error_text rt e) (sc_store sc)"
  define s2 where "s2 = fst (increment_error_count dep s1)"
  have n: "increment_error_count dep s1 = (s2, n)"
  proof -
    have r1: "get_record s1 dep = Some (processed d r)" by (simp add: s1_def record_simps assms(1) processed_def)
    have "snd (increment_error_count dep s1) = n"
      using increment_error_count_record(2) [of dep s1 "fst (increment_error_count dep s1)" "snd (increment_error_count dep s1)"]
      by (simp add: r1 assms(2) processed_def)
    then show ?thesis unfolding s2_def by (metis prod.collapse)
  qed
  have rec: "get_record s2 = (get_record (sc_store sc))(dep \<mapsto> stumbled d r)"
  proof
    fix d'
    show "get_record s2 d' = ((get_record (sc_store sc))(dep \<mapsto> stumbled d r)) d'"
      using assms(1) by (simp add: increment_error_count_record(1) [OF n] s1_def record_simps stumbled_def)
  qed
  have keys: "map fst (st_records s2) = map fst (st_records (sc_store sc))"
    by (simp add: s2_def s1_def increment_error_count_def save_error_def Let_def split: option.split)
  have eq: "record_failure rt now d dep e sc = (let sc1 = sc\<lparr>sc_store := s2\<rparr> in
      if max_consecutive_errors \<le> n
      then sc1\<lparr>sc_store := update_row dep (status_change ''error'' (rt_stop_reason rt n e) now) s2,
        sc_engines := dpop (sc_engines sc) dep, sc_paused := discard dep (sc_paused sc)\<rparr>
      else sc1)"
    by (simp add: record_failure_def n [unfolded s1_def] set_status_def update_status_eq valid_statuses_def Let_def)
  show "get_record (sc_store (record_failure rt now d dep e sc)) = (get_record (sc_store sc))(dep \<mapsto>
      (if max_consecutive_errors \<le> n then status_change ''error'' (rt_stop_reason rt n e) now (stumbled d r) else stumbled d r))"
    by (rule ext) (simp add: eq Let_def record_simps rec)
  show "sc_engines (record_failure rt now d dep e sc) = (if max_consecutive_errors \<le> n then dpop (sc_engines sc) dep else sc_engines sc)"
    "sc_paused (record_failure rt now d dep e sc) = (if max_consecutive_errors \<le> n then discard dep (sc_paused sc) else sc_paused sc)"
    "map fst (st_records (sc_store (record_failure rt now d dep e sc))) = map fst (st_records (sc_store sc))"
    by (simp_all add: eq Let_def keys)
qed

text \<open>What one deployment's turn does: nothing, a saved day, or a failure, which is counted and at the third in a row
  ends the deployment.\<close>

lemma tick_one_cases:
  assumes "tick_one rt tks d markets dep (rs, sc) = (rs', sc')"
  obtains (skipped) "rs' = rs" "sc' = sc" "settled d markets dep sc"
  | (saved) eg r day en where "\<not> settled d markets dep sc" "map_of (sc_engines sc) dep = Some eg" "get_record (sc_store sc) dep = Some r"
      "rs' = rs @ [(dep, day)]" "sc_engines sc' = dset (sc_engines sc) dep (eg\<lparr>eg_state := en\<rparr>)" "sc_paused sc' = sc_paused sc"
      "get_record (sc_store sc') = (get_record (sc_store sc))(dep \<mapsto> succeeded d r)"
      "map fst (st_records (sc_store sc')) = map fst (st_records (sc_store sc))"
  | (failed) eg r en where "\<not> settled d markets dep sc" "map_of (sc_engines sc) dep = Some eg" "get_record (sc_store sc) dep = Some r"
      "rs' = rs" "dr_errors r + 1 < max_consecutive_errors"
      "sc_engines sc' = dset (sc_engines sc) dep (eg\<lparr>eg_state := en\<rparr>)" "sc_paused sc' = sc_paused sc"
      "get_record (sc_store sc') = (get_record (sc_store sc))(dep \<mapsto> stumbled d r)"
      "map fst (st_records (sc_store sc')) = map fst (st_records (sc_store sc))"
  | (ended) eg r en reason now where "\<not> settled d markets dep sc" "map_of (sc_engines sc) dep = Some eg" "get_record (sc_store sc) dep = Some r"
      "rs' = rs" "max_consecutive_errors \<le> dr_errors r + 1"
      "sc_engines sc' = dpop (dset (sc_engines sc) dep (eg\<lparr>eg_state := en\<rparr>)) dep" "sc_paused sc' = discard dep (sc_paused sc)"
      "get_record (sc_store sc') = (get_record (sc_store sc))(dep \<mapsto> status_change ''error'' reason now (stumbled d r))"
      "map fst (st_records (sc_store sc')) = map fst (st_records (sc_store sc))"
proof (cases "settled d markets dep sc")
  case True
  then show thesis using assms by (intro skipped) (simp_all add: tick_one_settled)
next
  case False
  then obtain eg where eg: "map_of (sc_engines sc) dep = Some eg" "in_scope markets eg" "\<not> skips d dep eg sc"
    by (auto simp: settled_def split: option.splits)
  then obtain r where r: "get_record (sc_store sc) dep = Some r" by (auto simp: skips_def)
  obtain res sc1 where ex: "execute_and_save rt (tks dep) d dep eg sc = (res, sc1)" by force
  show thesis
  proof (cases rule: execute_and_save_cases [OF ex r])
    case (1 day en)
    then show thesis using assms eg ex r False by (intro saved [of eg r day en]) (auto simp: tick_one_def)
  next
    case (2 e en)
    let ?now = "tk_write (tks dep)"
    have r1: "get_record (sc_store sc1) dep = Some r" using r by (simp add: get_record_cong [OF 2(4)])
    have eqs: "rs' = rs" "sc' = record_failure rt ?now d dep e sc1" using assms eg ex 2 by (auto simp: tick_one_def)
    note fx = record_failure_effect [OF r1 refl, of rt ?now d e]
    show thesis
    proof (cases "max_consecutive_errors \<le> dr_errors r + 1")
      case True
      then show thesis using False eg r eqs fx 2 get_record_cong [OF 2(4)]
        by (intro ended [of eg r en "rt_stop_reason rt (dr_errors r + 1) e" ?now]) auto
    next
      case small: False
      then show thesis using False eg r eqs fx 2 get_record_cong [OF 2(4)] by (intro failed [of eg r en]) auto
    qed
  qed
qed

section \<open>Idempotence\<close>

lemma settled_after: "tick_one rt tks d markets dep (rs, sc) = (rs', sc') \<Longrightarrow> settled d markets dep sc'"
proof (cases rule: tick_one_cases, assumption)
qed (auto simp: settled_def skips_def get_last_processed_date_def get_record_def [symmetric] succeeded_def stumbled_def in_scope_def)

lemma settled_other:
  assumes "tick_one rt tks d markets dep (rs, sc) = (rs', sc')" and "settled d markets dep' sc"
  shows "settled d markets dep' sc'"
proof (cases "dep' = dep")
  case True
  then show ?thesis using settled_after [OF assms(1)] by simp
next
  case False
  from assms(1) have "map_of (sc_engines sc') dep' = map_of (sc_engines sc) dep'"
    and "get_record (sc_store sc') dep' = get_record (sc_store sc) dep'" and "dep' \<in> set (sc_paused sc') \<longleftrightarrow> dep' \<in> set (sc_paused sc)"
    using False by (cases rule: tick_one_cases; auto simp: discard_def)+
  then show ?thesis using assms(2)
    by (auto simp: settled_def skips_def get_last_processed_date_def get_record_def [symmetric] split: option.splits)
qed

lemma fold_tick_settled:
  assumes "fold (tick_one rt tks d markets) deps (rs, sc) = (rs', sc')" and "dep \<in> set deps \<or> settled d markets dep sc"
  shows "settled d markets dep sc'"
  using assms
proof (induction deps arbitrary: rs sc)
  case (Cons x deps)
  obtain rs1 sc1 where one: "tick_one rt tks d markets x (rs, sc) = (rs1, sc1)" by force
  then show ?case using Cons.prems settled_after [OF one] settled_other [OF one] by (intro Cons.IH [of rs1 sc1]) auto
qed auto

lemma fold_tick_nothing:
  "(\<And>dep. dep \<in> set deps \<Longrightarrow> settled d markets dep sc) \<Longrightarrow> fold (tick_one rt tks d markets) deps (rs, sc) = (rs, sc)"
  by (induction deps) (simp_all add: tick_one_settled)

lemma tick_one_unloaded:
  "tick_one rt tks d markets dep (rs, sc) = (rs', sc') \<Longrightarrow> map_of (sc_engines sc) x = None \<Longrightarrow> map_of (sc_engines sc') x = None"
  by (cases rule: tick_one_cases, assumption) auto

lemma fold_tick_unloaded:
  "fold (tick_one rt tks d markets) deps (rs, sc) = (rs', sc') \<Longrightarrow> map_of (sc_engines sc) x = None \<Longrightarrow> map_of (sc_engines sc') x = None"
proof (induction deps arbitrary: rs sc)
  case (Cons y deps)
  obtain rs1 sc1 where one: "tick_one rt tks d markets y (rs, sc) = (rs1, sc1)" by force
  have rest: "fold (tick_one rt tks d markets) deps (rs1, sc1) = (rs', sc')" using Cons.prems(1) one by simp
  show ?case by (rule Cons.IH [OF rest tick_one_unloaded [OF one Cons.prems(2)]])
qed simp

text \<open>C30: A tick is idempotent.  After a tick for a date and a set of markets, another tick for the same date and
  markets, whatever the clocks say and whether the deployments succeeded or failed, executes nothing and leaves the
  scheduler and its store exactly as they are.\<close>

theorem tick_idempotent:
  assumes "tick rt zone_today tks d markets sc = (Inr results, sc1)"
  shows "snd (tick rt zone_today' tks' d markets sc1) = sc1
    \<and> (future_date zone_today' d markets sc1 \<or> fst (tick rt zone_today' tks' d markets sc1) = Inr [])"
proof -
  have first: "fold (tick_one rt tks d markets) (dkeys (sc_engines sc)) ([], sc) = (results, sc1)"
    using assms by (auto simp: tick_def split: if_splits prod.splits)
  have "settled d markets dep sc1" if "dep \<in> set (dkeys (sc_engines sc1))" for dep
  proof (rule fold_tick_settled [OF first])
    have "map_of (sc_engines sc) dep \<noteq> None" using fold_tick_unloaded [OF first] that by (metis map_of_eq_None_iff set_map)
    then show "dep \<in> set (dkeys (sc_engines sc)) \<or> settled d markets dep sc" by (simp add: map_of_eq_None_iff)
  qed
  then have "fold (tick_one rt tks' d markets) (dkeys (sc_engines sc1)) ([], sc1) = ([], sc1)" by (rule fold_tick_nothing)
  then show ?thesis by (simp add: tick_def)
qed

text \<open>A deployment of one symbol with a bar of the day, on a day that is not a rebalance day.\<close>

definition sample_bar :: ohlc_bar where
  "sample_bar = \<lparr>ba_time = midnight (Date 1 3 3), ba_open = Fin 10, ba_high = Fin 11, ba_low = Fin 9, ba_close = Fin 10,
     ba_adj_close = Fin 10, ba_volume = Fin 500\<rparr>"

definition sample_live_spec :: spec where
  "sample_live_spec = \<lparr>sp_strategy_name = ''TopN'', sp_strategy_params_json = [], sp_symbols = [''A''],
     sp_market = ''cn_stock'', sp_freq = ''weekly'', sp_broker_type = ''paper'', sp_shadow_broker_type = [],
     sp_t_plus_1 = True, sp_price_limit_pct = 0, sp_lot_size = 100, sp_buy_commission_rate = 0,
     sp_sell_commission_rate = 0, sp_stamp_tax_rate = 0, sp_slippage_rate = 0, sp_min_commission = 0, sp_optimizer = [],
     sp_optimizer_params_json = [], sp_risk_control = False, sp_risk_params_json = [], sp_rebal_weekday = None,
     sp_initial_cash = 1000, sp_spec_id = ''s''\<rparr>"

definition sample_env :: "unit engine_env" where
  "sample_env = \<lparr>ee_spec = sample_live_spec, ee_deployment_id = ''d'', ee_json = \<lparr>jt_dumps = (\<lambda>x. []), jt_loads = (\<lambda>s. Inr (JObj []))\<rparr>,
     ee_kline = (\<lambda>s m a b. Inr [sample_bar]), ee_lookback_days = (\<lambda>u. 2),
     ee_generate_weights = (\<lambda>u h d w r. (Inr (Some [(''A'', 1 / 2)]), u)), ee_optimize = None,
     ee_note_text = (\<lambda>n. ''note''), ee_stale_text = (\<lambda>a b. ''stale''), ee_calendar = [Date 1 3 2, Date 1 3 3, Date 1 3 4],
     ee_sha = (\<lambda>s. s), ee_eig = (\<lambda>m. None), ee_sqrt = (\<lambda>x. x), ee_broker = (\<lambda>q. Inl NotModelled),
     ee_broker_kind = ''paper'', ee_environ = []\<rparr>"

definition sample_runtime :: "unit runtime" where
  "sample_runtime = \<lparr>rt_json = \<lparr>jt_dumps = (\<lambda>x. []), jt_loads = (\<lambda>s. Inr (JObj []))\<rparr>, rt_sha = (\<lambda>s. s), rt_env = (\<lambda>sp d. sample_env), rt_strategy = (\<lambda>sp. Inr ()),
     rt_pickle = (\<lambda>u. Some ''u''), rt_unpickle = (\<lambda>s. Some ()), rt_class = (\<lambda>u. ''TopN''), rt_schema_version = (\<lambda>u. None),
     rt_dunder_version = (\<lambda>u. None), rt_error_text = (\<lambda>e. ''error''), rt_stop_reason = (\<lambda>n e. ''failed''),
     rt_restore_reason = ''restore''\<rparr>"

definition sample_record :: deployment_record where
  "sample_record = \<lparr>dr_spec_id = ''s'', dr_name = ''n'', dr_status = ''running'', dr_stop_reason = [],
     dr_source_run_id = None, dr_code_commit = None, dr_gate_verdict = None, dr_last_processed = None, dr_errors = 1,
     dr_created_at = 0, dr_approved_at = Some 1, dr_started_at = Some 2, dr_stopped_at = None\<rparr>"

definition sample_scheduler :: "unit scheduler" where
  "sample_scheduler = \<lparr>sc_store = empty_store\<lparr>st_records := [(''d'', sample_record)]\<rparr>,
     sc_engines = [(''d'', \<lparr>eg_env = sample_env, eg_state = (new_engine sample_env () None)\<lparr>pe_holdings := [(''A'', 100)]\<rparr>\<rparr>)],
     sc_paused = []\<rparr>"

definition sample_readings :: "string \<Rightarrow> tick_readings" where
  "sample_readings dep = \<lparr>tk_clock = (\<lambda>n. 7), tk_now = 5, tk_elapsed = 1, tk_write = 9\<rparr>"

definition sample_tick :: "(unit scheduler, (string \<times> day_result) list) act" where
  "sample_tick = tick sample_runtime (\<lambda>z. Date 1 3 3) sample_readings (Date 1 3 3) None"

lemma sample_tick_runs:
  "map_prod (map_sum id (map (\<lambda>(dep, r). (dep, dy_equity r, dy_rebalanced r)))) (\<lambda>sc. map (e_type) (st_events (sc_store sc))) (sample_tick sample_scheduler)
     = (Inr [(''d'', 2000, False)], [MARKET_BAR_RECORDED, MARKET_SNAPSHOT, SNAPSHOT_SAVED, TICK_COMPLETED])"
  by code_simp

theorem tick_idempotent_witness:
  "\<exists>results sc1. sample_tick sample_scheduler = (Inr results, sc1) \<and> map fst results = [''d''] \<and> sample_tick sc1 = (Inr [], sc1)"
proof -
  obtain res sc1 where t: "sample_tick sample_scheduler = (res, sc1)" by force
  then obtain results where r: "res = Inr results" "map (\<lambda>(dep, r). (dep, dy_equity r, dy_rebalanced r)) results = [(''d'', 2000, False)]"
    using sample_tick_runs by (cases res) auto
  have "\<not> future_date (\<lambda>z. Date 1 3 3) (Date 1 3 3) None sc1" by (auto simp: future_date_def market_today_def list_ex_iff)
  moreover have "snd (sample_tick sc1) = sc1 \<and> (future_date (\<lambda>z. Date 1 3 3) (Date 1 3 3) None sc1 \<or> fst (sample_tick sc1) = Inr [])"
    unfolding sample_tick_def by (rule tick_idempotent) (use t r in \<open>simp add: sample_tick_def\<close>)
  ultimately have "sample_tick sc1 = (Inr [], sc1)" by (metis prod.collapse)
  moreover have "map fst results = [''d'']" using r(2) by auto
  ultimately show ?thesis using t r by (intro exI [of _ results] exI [of _ sc1]) simp
qed

end
