(* ===== verification/Gates.thy ===== *)
theory Gates
  imports Deployment_Spec
begin

text \<open>
  The promotion gates: \<open>ez/agent/gates.py\<close> for research runs and \<open>ez/live/deploy_gate.py\<close> for deployments.  A
  gate evaluates its rules on stored metrics and passes when every rule does.  The message of a rule is a text
  made from the rule and its subject, given as a parameter.
\<close>

section \<open>Verdicts\<close>

record 'v gate_reason =
  gr_rule :: string
  gr_passed :: bool
  gr_value :: 'v
  gr_threshold :: flt
  gr_message :: string

record 'v gate_verdict =
  gv_passed :: bool
  gv_reasons :: "'v gate_reason list"

definition failed_reasons :: "'v gate_verdict \<Rightarrow> 'v gate_reason list" where
  "failed_reasons v = filter (\<lambda>r. \<not> gr_passed r) (gv_reasons v)"

definition summary :: "'v gate_verdict \<Rightarrow> string" where
  "summary v = (if gv_passed v then ''PASS'' else ''FAIL'') @ '' ('' @ nat_str (length (filter gr_passed (gv_reasons v)))
     @ ''/'' @ nat_str (length (gv_reasons v)) @ '' rules passed)''"

section \<open>Research gate\<close>

record gate_config =
  gc_min_sharpe :: flt
  gc_max_drawdown :: flt
  gc_min_trades :: int
  gc_max_p_value :: flt
  gc_max_overfitting_score :: flt
  gc_require_wfo :: bool

definition default_gate_config :: gate_config where
  "default_gate_config = \<lparr>gc_min_sharpe = 5 / 10, gc_max_drawdown = 3 / 10, gc_min_trades = 10,
     gc_max_p_value = 5 / 100, gc_max_overfitting_score = 5 / 10, gc_require_wfo = True\<rparr>"

text \<open>What the gate reads of a run: its status, the metrics and the p-value of the backtest, the overfitting score
  of the walk-forward validation.\<close>

record run_result =
  rr_status :: string
  rr_backtest :: "((string, pfloat) dict \<times> pfloat) option"
  rr_walk_forward :: "pfloat option"

definition backtest_rules ::
  "(string \<Rightarrow> pfloat \<Rightarrow> string) \<Rightarrow> gate_config \<Rightarrow> (string, pfloat) dict \<Rightarrow> pfloat \<Rightarrow> pfloat gate_reason list res" where
  "backtest_rules msg cfg metrics p =
     (let sharpe = dget_or metrics ''sharpe_ratio'' (Fin 0);
          dd = pf_abs (dget_or metrics ''max_drawdown'' (Fin (-1)));
          trades = dget_or metrics ''trade_count'' (Fin 0)
      in if \<not> is_finite trades then Inl (if trades = NaN then ValueError else NotModelled)
         else Inr
           [\<lparr>gr_rule = ''min_sharpe'', gr_passed = pf_le (Fin (gc_min_sharpe cfg)) sharpe, gr_value = sharpe,
              gr_threshold = gc_min_sharpe cfg, gr_message = msg ''min_sharpe'' sharpe\<rparr>,
            \<lparr>gr_rule = ''max_drawdown'', gr_passed = pf_le dd (Fin (gc_max_drawdown cfg)), gr_value = dd,
              gr_threshold = gc_max_drawdown cfg, gr_message = msg ''max_drawdown'' dd\<rparr>,
            \<lparr>gr_rule = ''min_trades'', gr_passed = pf_le (Fin (of_int (gc_min_trades cfg))) trades, gr_value = trades,
              gr_threshold = of_int (gc_min_trades cfg), gr_message = msg ''min_trades'' trades\<rparr>,
            \<lparr>gr_rule = ''significance'', gr_passed = pf_le p (Fin (gc_max_p_value cfg)), gr_value = p,
              gr_threshold = gc_max_p_value cfg, gr_message = msg ''significance'' p\<rparr>])"

definition wfo_rules :: "(string \<Rightarrow> pfloat \<Rightarrow> string) \<Rightarrow> gate_config \<Rightarrow> pfloat option \<Rightarrow> pfloat gate_reason list" where
  "wfo_rules msg cfg walk =
     (if \<not> gc_require_wfo cfg then []
      else case walk of
        None \<Rightarrow> [\<lparr>gr_rule = ''wfo_required'', gr_passed = False, gr_value = Fin 0, gr_threshold = 0,
                   gr_message = msg ''wfo_required'' (Fin 0)\<rparr>]
      | Some ofs \<Rightarrow> [\<lparr>gr_rule = ''max_overfitting'', gr_passed = pf_le ofs (Fin (gc_max_overfitting_score cfg)),
                       gr_value = ofs, gr_threshold = gc_max_overfitting_score cfg, gr_message = msg ''max_overfitting'' ofs\<rparr>])"

definition research_gate ::
  "(string \<Rightarrow> pfloat \<Rightarrow> string) \<Rightarrow> gate_config \<Rightarrow> run_result \<Rightarrow> pfloat gate_verdict res" where
  "research_gate msg cfg r =
     (if rr_status r \<noteq> ''completed''
      then Inr \<lparr>gv_passed = False, gv_reasons = [\<lparr>gr_rule = ''run_status'', gr_passed = False, gr_value = Fin 0,
        gr_threshold = 0, gr_message = msg ''run_status'' (Fin 0)\<rparr>]\<rparr>
      else rbind (case rr_backtest r of None \<Rightarrow> Inr [] | Some (metrics, p) \<Rightarrow> backtest_rules msg cfg metrics p) (\<lambda>rs.
        let rs = rs @ wfo_rules msg cfg (rr_walk_forward r)
        in Inr \<lparr>gv_passed = (rs \<noteq> [] \<and> list_all gr_passed rs), gv_reasons = rs\<rparr>))"

section \<open>Deployment gate\<close>

record deploy_gate_config =
  dg_min_sharpe :: flt
  dg_max_drawdown :: flt
  dg_min_trades :: int
  dg_max_p_value :: flt
  dg_max_overfitting_score :: flt
  dg_min_backtest_days :: int
  dg_require_wfo :: bool
  dg_min_symbols :: int
  dg_max_concentration :: flt

definition default_deploy_gate_config :: deploy_gate_config where
  "default_deploy_gate_config = \<lparr>dg_min_sharpe = 5 / 10, dg_max_drawdown = 25 / 100, dg_min_trades = 20,
     dg_max_p_value = 5 / 100, dg_max_overfitting_score = 3 / 10, dg_min_backtest_days = 504, dg_require_wfo = True,
     dg_min_symbols = 5, dg_max_concentration = 4 / 10\<rparr>"

text \<open>\<open>run.get(key)\<close> with a default, where a text is JSON; a text that does not parse is the default.\<close>

definition parse_json_field :: "json_text \<Rightarrow> payload \<Rightarrow> string \<Rightarrow> json \<Rightarrow> json res" where
  "parse_json_field L run key dflt = (case jget run key JNull of
     JNull \<Rightarrow> Inr dflt
   | JStr s \<Rightarrow> (case jt_loads L s of Inr j \<Rightarrow> Inr j | Inl e \<Rightarrow> if e \<in> {ValueError, TypeError} then Inr dflt else Inl e)
   | j \<Rightarrow> Inr j)"

text \<open>A value that is compared with a number.\<close>

fun number :: "json \<Rightarrow> flt option" where
  "number (JBool b) = Some (if b then 1 else 0)"
| "number (JInt i) = Some (of_int i)"
| "number (JFloat x) = Some x"
| "number _ = None"

definition number_res :: "json \<Rightarrow> flt res" where
  "number_res j = (case number j of None \<Rightarrow> Inl TypeError | Some x \<Rightarrow> Inr x)"

definition dict_res :: "json \<Rightarrow> payload res" where
  "dict_res j = (case as_dict j of None \<Rightarrow> Inl AttributeError | Some d \<Rightarrow> Inr d)"

text \<open>\<open>len(x)\<close>\<close>

fun size_of :: "json \<Rightarrow> nat res" where
  "size_of (JList xs) = Inr (length xs)"
| "size_of (JObj d) = Inr (length d)"
| "size_of (JStr s) = Inr (length s)"
| "size_of _ = Inl TypeError"

text \<open>The weights of a rebalance entry, which holds them under \<open>weights\<close> or is itself the dictionary.\<close>

definition entry_weights :: "json \<Rightarrow> flt list" where
  "entry_weights e = (case as_dict e of None \<Rightarrow> []
     | Some d \<Rightarrow> (case as_dict (jget d ''weights'' e) of None \<Rightarrow> []
         | Some w \<Rightarrow> List.map_filter (\<lambda>(s, v). number v) w))"

definition max_weight :: "json list \<Rightarrow> flt" where
  "max_weight es = fold (\<lambda>e m. let vals = entry_weights e in if vals = [] then m else max m (Max (set vals))) es 0"

definition compute_max_concentration :: "json \<Rightarrow> flt res" where
  "compute_max_concentration j = rbind (py_list j) (\<lambda>es.
     let m = max_weight es in Inr (if \<not> truthy j \<or> m = 0 then 1 else m))"

definition gate_reason_of :: "(string \<Rightarrow> json \<Rightarrow> string) \<Rightarrow> string \<Rightarrow> bool \<Rightarrow> json \<Rightarrow> flt \<Rightarrow> json gate_reason" where
  "gate_reason_of msg rule passed value threshold = \<lparr>gr_rule = rule, gr_passed = passed, gr_value = value,
     gr_threshold = threshold, gr_message = msg rule value\<rparr>"

definition at_least :: "(string \<Rightarrow> json \<Rightarrow> string) \<Rightarrow> string \<Rightarrow> json \<Rightarrow> flt \<Rightarrow> json gate_reason res" where
  "at_least msg rule value threshold =
     rbind (number_res value) (\<lambda>x. Inr (gate_reason_of msg rule (threshold \<le> x) value threshold))"

definition at_most :: "(string \<Rightarrow> json \<Rightarrow> string) \<Rightarrow> string \<Rightarrow> json \<Rightarrow> flt \<Rightarrow> json gate_reason res" where
  "at_most msg rule value threshold =
     rbind (number_res value) (\<lambda>x. Inr (gate_reason_of msg rule (x \<le> threshold) value threshold))"

definition abs_json :: "json \<Rightarrow> json res" where
  "abs_json j = (case j of JInt i \<Rightarrow> Inr (JInt \<bar>i\<bar>) | JFloat x \<Rightarrow> Inr (JFloat \<bar>x\<bar>)
     | JBool b \<Rightarrow> Inr (JInt (if b then 1 else 0)) | _ \<Rightarrow> Inl TypeError)"

definition valid_gate_freqs :: "string list" where
  "valid_gate_freqs = [''daily'', ''weekly'', ''monthly'', ''quarterly'']"

definition trade_count_of :: "payload \<Rightarrow> payload \<Rightarrow> json" where
  "trade_count_of run metrics = (if dhas metrics ''trade_count'' then jget metrics ''trade_count'' JNull
     else jget metrics ''total_trades'' (jget run ''trade_count'' (JInt 0)))"

text \<open>The rules on the metrics of the source run.\<close>

definition research_rules ::
  "(string \<Rightarrow> json \<Rightarrow> string) \<Rightarrow> deploy_gate_config \<Rightarrow> payload \<Rightarrow> payload \<Rightarrow> json gate_reason list res" where
  "research_rules msg cfg run metrics =
     rbind (at_least msg ''min_sharpe'' (jget metrics ''sharpe_ratio'' (JInt 0)) (dg_min_sharpe cfg)) (\<lambda>r1.
     rbind (abs_json (jget metrics ''max_drawdown'' (JFloat (-1)))) (\<lambda>dd.
     rbind (at_most msg ''max_drawdown'' dd (dg_max_drawdown cfg)) (\<lambda>r2.
     rbind (at_least msg ''min_trades'' (trade_count_of run metrics) (of_int (dg_min_trades cfg))) (\<lambda>r3.
       Inr [r1, r2, r3]))))"

definition walk_forward_rules ::
  "(string \<Rightarrow> json \<Rightarrow> string) \<Rightarrow> deploy_gate_config \<Rightarrow> json \<Rightarrow> json \<Rightarrow> json gate_reason list res" where
  "walk_forward_rules msg cfg p_value overfit =
     rbind (at_most msg ''max_p_value'' p_value (dg_max_p_value cfg)) (\<lambda>r1.
     rbind (at_most msg ''max_overfitting_score'' overfit (dg_max_overfitting_score cfg)) (\<lambda>r2. Inr [r1, r2]))"

definition deploy_rules ::
  "(string \<Rightarrow> json \<Rightarrow> string) \<Rightarrow> deploy_gate_config \<Rightarrow> spec \<Rightarrow> nat \<Rightarrow> flt \<Rightarrow> json gate_reason list" where
  "deploy_rules msg cfg sp n_days max_w =
     [gate_reason_of msg ''min_backtest_days'' (dg_min_backtest_days cfg \<le> int n_days) (JInt (int n_days)) (of_int (dg_min_backtest_days cfg)),
      gate_reason_of msg ''min_symbols'' (dg_min_symbols cfg \<le> int (length (sp_symbols sp))) (JInt (int (length (sp_symbols sp))))
        (of_int (dg_min_symbols cfg)),
      gate_reason_of msg ''max_concentration'' (max_w \<le> dg_max_concentration cfg) (JFloat max_w) (dg_max_concentration cfg)]"

definition wfo_reason ::
  "(string \<Rightarrow> json \<Rightarrow> string) \<Rightarrow> deploy_gate_config \<Rightarrow> json \<Rightarrow> json \<Rightarrow> json gate_reason list res" where
  "wfo_reason msg cfg p_value overfit =
     (if \<not> dg_require_wfo cfg then Inr []
      else rbind (number_res p_value) (\<lambda>p. rbind (number_res overfit) (\<lambda>o'.
        let has_wfo = (p < 1 \<and> o' < 1) in Inr [gate_reason_of msg ''require_wfo'' has_wfo (JInt (if has_wfo then 1 else 0)) 1])))"

definition evaluate ::
  "json_text \<Rightarrow> (string \<Rightarrow> json \<Rightarrow> string) \<Rightarrow> deploy_gate_config \<Rightarrow> spec \<Rightarrow> string \<Rightarrow> payload option \<Rightarrow> json gate_verdict res" where
  "evaluate L msg cfg sp run_id run_row = (case run_row of
     None \<Rightarrow> Inr \<lparr>gv_passed = False, gv_reasons = [gate_reason_of (\<lambda>r v. msg r (JStr run_id)) ''source_run_exists'' False (JInt 0) 1]\<rparr>
   | Some run \<Rightarrow>
       if run = [] then Inr \<lparr>gv_passed = False, gv_reasons = [gate_reason_of (\<lambda>r v. msg r (JStr run_id)) ''source_run_exists'' False (JInt 0) 1]\<rparr>
       else
       rbind (rbind (parse_json_field L run ''metrics'' (JObj [])) dict_res) (\<lambda>metrics.
       rbind (research_rules msg cfg run metrics) (\<lambda>research.
       rbind (rbind (parse_json_field L run ''wf_metrics'' (JObj [])) dict_res) (\<lambda>wfm.
       let p_value = jget wfm ''p_value'' (JFloat 1); overfit = jget wfm ''overfitting_score'' (JFloat 1) in
       rbind (walk_forward_rules msg cfg p_value overfit) (\<lambda>walks.
       rbind (rbind (parse_json_field L run ''dates'' (JList [])) size_of) (\<lambda>n_days.
       rbind (rbind (parse_json_field L run ''rebalance_weights'' (JList [])) compute_max_concentration) (\<lambda>max_w.
       rbind (wfo_reason msg cfg p_value overfit) (\<lambda>wfo.
         let rs = research @ walks @ deploy_rules msg cfg sp n_days max_w @ wfo
               @ [gate_reason_of (\<lambda>r v. msg r (JStr (sp_freq sp))) ''freq_valid'' (sp_freq sp \<in> set valid_gate_freqs) (JInt 0) 0]
         in Inr \<lparr>gv_passed = list_all gr_passed rs, gv_reasons = rs\<rparr>))))))))"

section \<open>What a passed gate guarantees\<close>

lemma at_least_Inr: "at_least msg rule v t = Inr r \<Longrightarrow> \<exists>x. number v = Some x \<and> gr_passed r = (t \<le> x)"
  by (auto simp: at_least_def number_res_def gate_reason_of_def split: option.splits)

lemma at_most_Inr: "at_most msg rule v t = Inr r \<Longrightarrow> \<exists>x. number v = Some x \<and> gr_passed r = (x \<le> t)"
  by (auto simp: at_most_def number_res_def gate_reason_of_def split: option.splits)

lemma abs_json_number: "abs_json j = Inr d \<Longrightarrow> number d = map_option abs (number j) \<and> number j \<noteq> None"
  by (auto simp: abs_json_def split: json.splits)

lemma research_rules_pass:
  assumes "research_rules msg cfg run metrics = Inr rs" "list_all gr_passed rs"
  obtains sharpe dd trades where "number (jget metrics ''sharpe_ratio'' (JInt 0)) = Some sharpe" "dg_min_sharpe cfg \<le> sharpe"
    "number (jget metrics ''max_drawdown'' (JFloat (-1))) = Some dd" "\<bar>dd\<bar> \<le> dg_max_drawdown cfg"
    "number (trade_count_of run metrics) = Some trades" "of_int (dg_min_trades cfg) \<le> trades"
proof -
  obtain r1 d r2 r3 where r: "at_least msg ''min_sharpe'' (jget metrics ''sharpe_ratio'' (JInt 0)) (dg_min_sharpe cfg) = Inr r1"
    "abs_json (jget metrics ''max_drawdown'' (JFloat (-1))) = Inr d" "at_most msg ''max_drawdown'' d (dg_max_drawdown cfg) = Inr r2"
    "at_least msg ''min_trades'' (trade_count_of run metrics) (of_int (dg_min_trades cfg)) = Inr r3" "rs = [r1, r2, r3]"
    using assms(1) by (auto simp: research_rules_def)
  from at_least_Inr [OF r(1)] at_most_Inr [OF r(3)] at_least_Inr [OF r(4)] abs_json_number [OF r(2)] that assms(2) r(5)
  show thesis by auto
qed

lemma walk_forward_rules_pass:
  assumes "walk_forward_rules msg cfg p_value overfit = Inr rs" "list_all gr_passed rs"
  obtains p ov where "number p_value = Some p" "p \<le> dg_max_p_value cfg" "number overfit = Some ov" "ov \<le> dg_max_overfitting_score cfg"
  using assms by (auto simp: walk_forward_rules_def dest!: at_most_Inr)

lemma max_weight_bounds:
  "(\<forall>e \<in> set es. \<forall>w \<in> set (entry_weights e). w \<le> max_weight es) \<and> 0 \<le> max_weight es
    \<and> (0 < max_weight es \<longrightarrow> (\<exists>e \<in> set es. max_weight es \<in> set (entry_weights e)))"
proof (induction es rule: rev_induct)
  case (snoc e es)
  have step: "max_weight (es @ [e]) = (if entry_weights e = [] then max_weight es else max (max_weight es) (Max (set (entry_weights e))))"
    by (simp add: max_weight_def Let_def)
  show ?case
  proof (cases "entry_weights e = []")
    case True
    then show ?thesis using snoc by (auto simp: step)
  next
    case False
    then have M: "Max (set (entry_weights e)) \<in> set (entry_weights e)" "\<And>w. w \<in> set (entry_weights e) \<Longrightarrow> w \<le> Max (set (entry_weights e))"
      by simp_all
    have eq: "max_weight (es @ [e]) = max (max_weight es) (Max (set (entry_weights e)))" using False by (simp add: step)
    have "\<forall>a \<in> set (es @ [e]). \<forall>w \<in> set (entry_weights a). w \<le> max_weight (es @ [e])"
      unfolding eq using snoc M(2) by (auto intro: max.coboundedI1 max.coboundedI2)
    moreover have "0 \<le> max_weight (es @ [e])" unfolding eq using snoc by (auto intro: max.coboundedI1)
    moreover have "0 < max_weight (es @ [e]) \<longrightarrow> (\<exists>a \<in> set (es @ [e]). max_weight (es @ [e]) \<in> set (entry_weights a))"
    proof (cases "max_weight es \<le> Max (set (entry_weights e))")
      case True
      then show ?thesis unfolding eq using M(1) by (simp add: max_absorb2)
    next
      case False
      then have "max (max_weight es) (Max (set (entry_weights e))) = max_weight es" by simp
      then show ?thesis unfolding eq using snoc by auto
    qed
    ultimately show ?thesis by blast
  qed
qed (simp add: max_weight_def)

lemma concentration_bound:
  assumes "compute_max_concentration j = Inr m" "m \<le> t" "t < 1"
  obtains es where "py_list j = Inr es" "\<forall>e \<in> set es. \<forall>w \<in> set (entry_weights e). w \<le> t"
    "\<exists>e \<in> set es. \<exists>w \<in> set (entry_weights e). 0 < w"
proof -
  obtain es where es: "py_list j = Inr es" and m: "m = max_weight es" "max_weight es \<noteq> 0"
    using assms by (auto simp: compute_max_concentration_def Let_def split: if_splits)
  from max_weight_bounds [of es] assms(2) m have "\<forall>e \<in> set es. \<forall>w \<in> set (entry_weights e). w \<le> t" by force
  moreover from max_weight_bounds [of es] m have "\<exists>e \<in> set es. \<exists>w \<in> set (entry_weights e). 0 < w" by (metis order_le_less)
  ultimately show thesis using that es by blast
qed

lemma dict_res_Inr: "dict_res j = Inr d \<longleftrightarrow> j = JObj d"
  by (cases j) (auto simp: dict_res_def)

lemma jget_number: "number (jget d k dflt) = Some x \<Longrightarrow> number dflt \<noteq> Some x \<Longrightarrow> number (jget d k JNull) = Some x"
  by (auto simp: jget_def dget_or_def split: option.splits)

text \<open>C29: A deployment gate that passes guarantees what it checks.  The source run exists; its Sharpe ratio, drawdown,
  trade count, p-value and overfitting score are stored numbers within the limits, so a missing metric never passes; the
  specification has at least five symbols and a valid frequency; there are at least 504 backtest days; and over the whole
  rebalance history, in either of its formats, no weight is above 40 percent and some weight is positive.\<close>

theorem deploy_gate_sound:
  assumes "evaluate L msg default_deploy_gate_config sp run_id row = Inr v" and "gv_passed v"
  shows "\<exists>run md wd sharpe dd trades p ov dates days j es. row = Some run
    \<and> parse_json_field L run ''metrics'' (JObj []) = Inr (JObj md)
    \<and> number (jget md ''sharpe_ratio'' JNull) = Some sharpe \<and> 1 / 2 \<le> sharpe
    \<and> number (jget md ''max_drawdown'' JNull) = Some dd \<and> \<bar>dd\<bar> \<le> 1 / 4
    \<and> number (trade_count_of run md) = Some trades \<and> 20 \<le> trades
    \<and> parse_json_field L run ''wf_metrics'' (JObj []) = Inr (JObj wd)
    \<and> number (jget wd ''p_value'' JNull) = Some p \<and> p \<le> 1 / 20
    \<and> number (jget wd ''overfitting_score'' JNull) = Some ov \<and> ov \<le> 3 / 10
    \<and> parse_json_field L run ''dates'' (JList []) = Inr dates \<and> size_of dates = Inr days \<and> 504 \<le> days
    \<and> 5 \<le> length (sp_symbols sp) \<and> sp_freq sp \<in> set valid_gate_freqs
    \<and> parse_json_field L run ''rebalance_weights'' (JList []) = Inr j \<and> py_list j = Inr es
    \<and> (\<forall>e \<in> set es. \<forall>w \<in> set (entry_weights e). w \<le> 2 / 5) \<and> (\<exists>e \<in> set es. \<exists>w \<in> set (entry_weights e). 0 < w)"
proof -
  have run: "\<exists>run. row = Some run \<and> run \<noteq> []"
    using assms by (auto simp: evaluate_def gate_reason_of_def split: option.splits if_splits)
  then obtain run where row: "row = Some run" "run \<noteq> []" by blast
  obtain md where md: "parse_json_field L run ''metrics'' (JObj []) = Inr (JObj md)"
    using assms(1) by (auto simp: evaluate_def row dict_res_Inr)
  obtain wd where wd: "parse_json_field L run ''wf_metrics'' (JObj []) = Inr (JObj wd)"
    using assms(1) by (auto simp: evaluate_def row dict_res_Inr)
  obtain dates days where dates: "parse_json_field L run ''dates'' (JList []) = Inr dates" "size_of dates = Inr days"
    using assms(1) by (auto simp: evaluate_def row Let_def)
  obtain j m where j: "parse_json_field L run ''rebalance_weights'' (JList []) = Inr j" "compute_max_concentration j = Inr m"
    using assms(1) by (auto simp: evaluate_def row Let_def)
  obtain r1 r2 r3 where r: "research_rules msg default_deploy_gate_config run md = Inr r1"
    "walk_forward_rules msg default_deploy_gate_config (jget wd ''p_value'' (JFloat 1)) (jget wd ''overfitting_score'' (JFloat 1)) = Inr r2"
    "gv_passed v = list_all gr_passed (r1 @ r2 @ deploy_rules msg default_deploy_gate_config sp days m @ r3
       @ [gate_reason_of (\<lambda>r v. msg r (JStr (sp_freq sp))) ''freq_valid'' (sp_freq sp \<in> set valid_gate_freqs) (JInt 0) 0])"
    using assms(1) by (auto simp: evaluate_def row Let_def md wd dates j dict_res_def)
  have pass: "list_all gr_passed r1" "list_all gr_passed r2" "504 \<le> days" "5 \<le> length (sp_symbols sp)" "m \<le> 2 / 5"
    "sp_freq sp \<in> set valid_gate_freqs"
    using assms(2) r(3) by (auto simp: deploy_rules_def gate_reason_of_def default_deploy_gate_config_def)
  obtain sharpe dd trades where x: "number (jget md ''sharpe_ratio'' (JInt 0)) = Some sharpe" "1 / 2 \<le> sharpe"
    "number (jget md ''max_drawdown'' (JFloat (-1))) = Some dd" "\<bar>dd\<bar> \<le> 1 / 4" "number (trade_count_of run md) = Some trades" "20 \<le> trades"
    by (rule research_rules_pass [OF r(1) pass(1)]) (auto simp: default_deploy_gate_config_def)
  obtain p ov where y: "number (jget wd ''p_value'' (JFloat 1)) = Some p" "p \<le> 1 / 20"
    "number (jget wd ''overfitting_score'' (JFloat 1)) = Some ov" "ov \<le> 3 / 10"
    by (rule walk_forward_rules_pass [OF r(2) pass(2)]) (auto simp: default_deploy_gate_config_def)
  obtain es where es: "py_list j = Inr es" "\<forall>e \<in> set es. \<forall>w \<in> set (entry_weights e). w \<le> 2 / 5"
    "\<exists>e \<in> set es. \<exists>w \<in> set (entry_weights e). 0 < w"
    by (rule concentration_bound [OF j(2) pass(5)]) auto
  have "number (jget md ''sharpe_ratio'' JNull) = Some sharpe" "number (jget md ''max_drawdown'' JNull) = Some dd"
    "number (jget wd ''p_value'' JNull) = Some p" "number (jget wd ''overfitting_score'' JNull) = Some ov"
    using x y by (auto intro!: jget_number)
  then show ?thesis using row md wd dates j(1) pass(3,4,6) x y es by blast
qed


definition sample_row :: payload where
  "sample_row = [(''metrics'', JObj [(''sharpe_ratio'', JFloat (6 / 5)), (''max_drawdown'', JFloat (- 1 / 10)), (''trade_count'', JInt 40)]),
     (''wf_metrics'', JObj [(''p_value'', JFloat (1 / 100)), (''overfitting_score'', JFloat (1 / 5))]),
     (''dates'', JList (replicate 504 JNull)),
     (''rebalance_weights'', JList [JObj [(''date'', JStr ''2024-01-02''), (''weights'', JObj [(''A'', JFloat (2 / 5)), (''B'', JFloat (1 / 5))])],
        JObj [(''A'', JFloat (1 / 10))]])]"

definition gate_spec :: spec where
  "gate_spec = \<lparr>sp_strategy_name = ''TopN'', sp_strategy_params_json = [], sp_symbols = [''A'', ''B'', ''C'', ''D'', ''E''],
     sp_market = ''cn_stock'', sp_freq = ''weekly'', sp_broker_type = ''paper'', sp_shadow_broker_type = [],
     sp_t_plus_1 = True, sp_price_limit_pct = 0, sp_lot_size = 100, sp_buy_commission_rate = 0,
     sp_sell_commission_rate = 0, sp_stamp_tax_rate = 0, sp_slippage_rate = 0, sp_min_commission = 0, sp_optimizer = [],
     sp_optimizer_params_json = [], sp_risk_control = False, sp_risk_params_json = [], sp_rebal_weekday = None,
     sp_initial_cash = 1000, sp_spec_id = ''s''\<rparr>"

lemma sample_row_passes:
  "evaluate sample_text (\<lambda>r v. r) default_deploy_gate_config gate_spec ''r'' (Some sample_row) = Inr v \<Longrightarrow> gv_passed v"
  by (auto simp: evaluate_def sample_row_def parse_json_field_def jget_def dget_or_def dhas_def dict_res_def research_rules_def
      at_least_def at_most_def number_res_def abs_json_def trade_count_of_def walk_forward_rules_def
      compute_max_concentration_def max_weight_def entry_weights_def map_filter_simps wfo_reason_def deploy_rules_def
      gate_reason_of_def default_deploy_gate_config_def gate_spec_def valid_gate_freqs_def Let_def)

lemma sample_row_evaluates:
  "\<exists>v. evaluate sample_text (\<lambda>r v. r) default_deploy_gate_config gate_spec ''r'' (Some sample_row) = Inr v"
  by (auto simp: evaluate_def sample_row_def parse_json_field_def jget_def dget_or_def dhas_def dict_res_def research_rules_def
      at_least_def at_most_def number_res_def abs_json_def trade_count_of_def walk_forward_rules_def
      compute_max_concentration_def max_weight_def entry_weights_def map_filter_simps wfo_reason_def deploy_rules_def
      gate_reason_of_def default_deploy_gate_config_def gate_spec_def valid_gate_freqs_def Let_def)

theorem deploy_gate_sound_witness:
  "\<exists>v j es. evaluate sample_text (\<lambda>r v. r) default_deploy_gate_config gate_spec ''r'' (Some sample_row) = Inr v \<and> gv_passed v
     \<and> parse_json_field sample_text sample_row ''rebalance_weights'' (JList []) = Inr j \<and> py_list j = Inr es
     \<and> list_all (\<lambda>e. list_all (\<lambda>w. w \<le> 2 / 5) (entry_weights e)) es \<and> list_ex (\<lambda>e. list_ex (\<lambda>w. 0 < w) (entry_weights e)) es"
proof -
  obtain v where v: "evaluate sample_text (\<lambda>r v. r) default_deploy_gate_config gate_spec ''r'' (Some sample_row) = Inr v"
    using sample_row_evaluates by blast
  from deploy_gate_sound [OF this sample_row_passes [OF this]] show ?thesis
    using v sample_row_passes [OF v] unfolding list_all_iff list_ex_iff by (metis option.inject)
qed

text \<open>A stored metric that is null, as the portfolio store writes a number that is not finite, is no verdict but
  an exception.\<close>

lemma null_metric_raises:
  assumes "row = Some run" "run \<noteq> []" "parse_json_field L run ''metrics'' (JObj []) = Inr (JObj md)"
    and "map_of md ''sharpe_ratio'' = Some JNull"
  shows "evaluate L msg cfg sp run_id row = Inl TypeError"
  using assms by (simp add: evaluate_def dict_res_def research_rules_def at_least_def number_res_def jget_def dget_or_def)

text \<open>Without a backtest the research gate checks the overfitting score only.\<close>

lemma research_gate_without_backtest:
  "rr_status r = ''completed'' \<Longrightarrow> rr_backtest r = None \<Longrightarrow> rr_walk_forward r = Some (Fin ofs) \<Longrightarrow> ofs \<le> 1 / 2
    \<Longrightarrow> map_sum id gv_passed (research_gate msg default_gate_config r) = Inr True"
  by (simp add: research_gate_def wfo_rules_def default_gate_config_def Let_def)

end
