(* ===== verification/Deployment_Api.thy ===== *)
theory Deployment_Api
  imports Gates Deployment_Store
begin

text \<open>
  The requests of \<open>ez/api/routes/live.py\<close> that create and approve deployments, with the construction of a
  specification from a stored backtest run in \<open>ez/api/_live_helpers.py\<close>, and the configuration that
  \<open>ez/api/routes/portfolio.py\<close> stores with a run.
\<close>

section \<open>Specification of a run\<close>

text \<open>A response with a status code, or an exception that is not handled.\<close>

datatype api_error = Http nat | Raised py_error

type_synonym 'a api = "api_error + 'a"

definition api_of :: "'a res \<Rightarrow> 'a api" where
  "api_of r = (case r of Inl e \<Rightarrow> Inl (Raised e) | Inr x \<Rightarrow> Inr x)"

fun abind_api :: "'a api \<Rightarrow> ('a \<Rightarrow> 'b api) \<Rightarrow> 'b api" where
  "abind_api (Inl e) f = Inl e"
| "abind_api (Inr x) f = f x"

lemma abind_api_Inr [simp]: "abind_api m f = Inr y \<longleftrightarrow> (\<exists>x. m = Inr x \<and> f x = Inr y)"
  by (cases m) auto

lemma abind_api_cong [fundef_cong]: "m = m' \<Longrightarrow> (\<And>x. m' = Inr x \<Longrightarrow> f x = g x) \<Longrightarrow> abind_api m f = abind_api m' g"
  by (cases m') auto

text \<open>\<open>a == b\<close>: numbers by value, dictionaries without their order.\<close>

function json_eq :: "json \<Rightarrow> json \<Rightarrow> bool" where
  "json_eq a b = (case (number a, number b) of
     (Some x, Some y) \<Rightarrow> x = y
   | (Some x, None) \<Rightarrow> False
   | (None, Some y) \<Rightarrow> False
   | (None, None) \<Rightarrow> (case (a, b) of
       (JNull, JNull) \<Rightarrow> True
     | (JStr s, JStr t) \<Rightarrow> s = t
     | (JList xs, JList ys) \<Rightarrow> length xs = length ys \<and> list_all (\<lambda>(x, y). json_eq x y) (zip xs ys)
     | (JObj d, JObj d') \<Rightarrow> length d = length d'
         \<and> list_all (\<lambda>(k, v). case map_of d' k of None \<Rightarrow> False | Some w \<Rightarrow> json_eq v w) d
     | _ \<Rightarrow> False))"
  by pat_completeness auto

lemma size_in_zip: "(x, y) \<in> set (zip xs ys) \<Longrightarrow> size x < Suc (size_list size xs)"
  by (induction xs ys rule: list_induct2') auto

lemma size_in_dict: "(k, v) \<in> set d \<Longrightarrow> size v < Suc (size_list (size_prod (\<lambda>x. 0) size) d)"
  by (induction d) auto

termination json_eq
  by (relation "measure (size \<circ> fst)") (auto intro: size_in_zip size_in_dict)

declare json_eq.simps [simp del]

text \<open>\<open>config.get(key) or {}\<close>, an empty dictionary when the value is something else.\<close>

definition bucket :: "payload \<Rightarrow> string \<Rightarrow> payload" where
  "bucket config key = (case as_dict (jget config key JNull) of None \<Rightarrow> [] | Some d \<Rightarrow> d)"

text \<open>A parameter bucket against its older form: different contents are refused, the older one fills in.\<close>

definition conflicting :: "json \<Rightarrow> payload \<Rightarrow> bool" where
  "conflicting legacy new \<longleftrightarrow> (case as_dict legacy of None \<Rightarrow> False | Some d \<Rightarrow> new \<noteq> [] \<and> \<not> json_eq (JObj d) (JObj new))"

definition or_legacy :: "json \<Rightarrow> payload \<Rightarrow> payload" where
  "or_legacy legacy new = (case as_dict legacy of None \<Rightarrow> new | Some d \<Rightarrow> if new = [] then d else new)"

text \<open>\<open>_field\<close>: the bucket, then the configuration, then the fallback, then the default of the market.\<close>

definition field_or :: "payload \<Rightarrow> payload \<Rightarrow> string \<Rightarrow> json \<Rightarrow> json \<Rightarrow> json" where
  "field_or config bkt key fallback dflt =
     (if jget bkt key JNull \<noteq> JNull then jget bkt key JNull
      else if jget config key JNull \<noteq> JNull then jget config key JNull
      else if fallback \<noteq> JNull then fallback else dflt)"

text \<open>\<open>run.get(key) or empty\<close>, parsed when it is a text.\<close>

definition run_field :: "json_text \<Rightarrow> payload \<Rightarrow> string \<Rightarrow> json \<Rightarrow> json res" where
  "run_field L run key blank = (case py_or (jget run key JNull) blank of JStr s \<Rightarrow> jt_loads L s | j \<Rightarrow> Inr j)"

definition float_json :: "json \<Rightarrow> json res" where
  "float_json j = rbind (py_float j) (\<lambda>x. Inr (JFloat x))"

definition int_json :: "json \<Rightarrow> json res" where
  "int_json j = rbind (py_int j) (\<lambda>x. Inr (JInt x))"

definition spec_args_of_run ::
  "payload \<Rightarrow> json \<Rightarrow> json list \<Rightarrow> payload \<Rightarrow> payload \<Rightarrow> payload \<Rightarrow> payload \<Rightarrow> spec_args res" where
  "spec_args_of_run run params symbs config cost opt risk =
     rbind (text_of (jget config ''market'' (JStr ''cn_stock''))) (\<lambda>market.
     rbind (text_of (jget config ''freq'' (JStr ''daily''))) (\<lambda>freq.
     rbind (text_of (jget run ''strategy_name'' (JStr []))) (\<lambda>name.
     rbind (py_str (py_or (jget config ''broker_type'' (JStr ''paper'')) (JStr ''paper''))) (\<lambda>broker.
     rbind (py_str (py_or (jget config ''shadow_broker_type'' (JStr [])) (JStr []))) (\<lambda>shadow.
     let is_cn = (market = ''cn_stock'') in
     rbind (float_json (field_or config cost ''limit_pct'' (jget config ''price_limit_pct'' JNull) (JFloat (if is_cn then 1 / 10 else 0)))) (\<lambda>limit_pct.
     rbind (int_json (field_or config cost ''lot_size'' JNull (JInt (if is_cn then 100 else 1)))) (\<lambda>lot.
     rbind (float_json (field_or config cost ''buy_commission_rate'' JNull (JFloat (8 / 100000)))) (\<lambda>buy.
     rbind (float_json (field_or config cost ''sell_commission_rate'' JNull (JFloat (8 / 100000)))) (\<lambda>sell.
     rbind (float_json (field_or config cost ''stamp_tax_rate'' JNull (JFloat (if is_cn then 5 / 10000 else 0)))) (\<lambda>stamp.
     rbind (float_json (field_or config cost ''slippage_rate'' JNull (JFloat (1 / 1000)))) (\<lambda>slip.
     rbind (float_json (field_or config cost ''min_commission'' JNull (JFloat 0))) (\<lambda>min_comm.
     rbind (py_str (py_or (field_or config opt ''kind'' (jget config ''optimizer'' JNull) (JStr [])) (JStr []))) (\<lambda>kind.
     rbind (float_json (jget run ''initial_cash'' (JFloat 1000000))) (\<lambda>init.
     rbind (rmap text_of symbs) (\<lambda>symbs.
       Inr \<lparr>sa_strategy_name = name, sa_strategy_params = params, sa_symbols = symbs, sa_market = market, sa_freq = freq,
         sa_broker_type = broker, sa_shadow_broker_type = shadow,
         sa_t_plus_1 = JBool (truthy (field_or config config ''t_plus_1'' JNull (JBool is_cn))),
         sa_price_limit_pct = limit_pct, sa_lot_size = lot, sa_buy_commission_rate = buy, sa_sell_commission_rate = sell,
         sa_stamp_tax_rate = stamp, sa_slippage_rate = slip, sa_min_commission = min_comm, sa_optimizer = kind,
         sa_optimizer_params = (if opt = [] then JNull else JObj opt),
         sa_risk_control = JBool (truthy (field_or config risk ''enabled'' (jget config ''risk_control'' JNull) (JBool False))),
         sa_risk_params = (if risk = [] then JNull else JObj risk),
         sa_rebal_weekday = jget config ''rebal_weekday'' JNull, sa_initial_cash = init\<rparr>)))))))))))))))"

definition build_spec_from_run :: "json_text \<Rightarrow> (string \<Rightarrow> string) \<Rightarrow> payload \<Rightarrow> spec api" where
  "build_spec_from_run L sha run =
     abind_api (api_of (rbind (run_field L run ''config'' (JObj [])) dict_res)) (\<lambda>config.
     abind_api (api_of (run_field L run ''strategy_params'' (JObj []))) (\<lambda>params.
     abind_api (api_of (rbind (run_field L run ''symbols'' (JList [])) py_list)) (\<lambda>symbs.
     let opt = bucket config ''_optimizer''; risk = bucket config ''_risk'';
         legacy_opt = jget config ''optimizer_params'' JNull; legacy_risk = jget config ''risk_params'' JNull
     in if conflicting legacy_opt opt \<or> conflicting legacy_risk risk then Inl (Http 422)
        else api_of (rbind (spec_args_of_run run params symbs config (bucket config ''_cost'')
          (or_legacy legacy_opt opt) (or_legacy legacy_risk risk)) (new_spec L sha)))))"

section \<open>Creation and approval\<close>

definition new_record :: "string \<Rightarrow> string \<Rightarrow> string \<Rightarrow> string \<Rightarrow> timestamp \<Rightarrow> deployment_record" where
  "new_record spec_id name run_id commit now = \<lparr>dr_spec_id = spec_id, dr_name = name, dr_status = ''pending'',
     dr_stop_reason = [], dr_source_run_id = Some run_id, dr_code_commit = Some commit, dr_gate_verdict = None,
     dr_last_processed = None, dr_errors = 0, dr_created_at = now, dr_approved_at = None, dr_started_at = None,
     dr_stopped_at = None\<rparr>"

text \<open>\<open>POST /deploy\<close>: an exception while the specification is built is a bad request, except a response.\<close>

definition bad_request :: "'a api \<Rightarrow> 'a api" where
  "bad_request r = (case r of Inl (Raised e) \<Rightarrow> if e = NotModelled then r else Inl (Http 400) | _ \<Rightarrow> r)"

definition create_deployment ::
  "json_text \<Rightarrow> (string \<Rightarrow> string) \<Rightarrow> (string \<Rightarrow> payload option) \<Rightarrow> string \<Rightarrow> string \<Rightarrow> string \<Rightarrow> string \<Rightarrow> timestamp
    \<Rightarrow> store \<Rightarrow> store \<times> (string \<times> string) api" where
  "create_deployment L sha get_run dep commit run_id name now st = (case get_run run_id of
     None \<Rightarrow> (st, Inl (Http 404))
   | Some run \<Rightarrow>
       if run = [] then (st, Inl (Http 404))
       else (case bad_request (build_spec_from_run L sha run) of
           Inl e \<Rightarrow> (st, Inl e)
         | Inr sp \<Rightarrow>
             let st1 = save_spec (sp_spec_id sp) (to_json L sp) st in
             (case save_record dep (new_record (sp_spec_id sp) name run_id commit now) st1 of
                Inl e \<Rightarrow> (st1, Inl (Raised e))
              | Inr st2 \<Rightarrow> (st2, Inr (dep, sp_spec_id sp)))))"

definition reason_data :: "json gate_reason \<Rightarrow> json" where
  "reason_data r = JObj [(''rule'', JStr (gr_rule r)), (''passed'', JBool (gr_passed r)), (''value'', gr_value r),
     (''threshold'', JFloat (gr_threshold r)), (''message'', JStr (gr_message r))]"

definition verdict_data :: "json gate_verdict \<Rightarrow> json" where
  "verdict_data v = JObj [(''passed'', JBool (gv_passed v)), (''summary'', JStr (summary v)),
     (''reasons'', JList (map reason_data (gv_reasons v)))]"

text \<open>\<open>POST /deployments/{id}/approve\<close>: only a pending deployment, and only when the gate passes; a verdict is
  stored either way.\<close>

definition approve_deployment ::
  "json_text \<Rightarrow> (string \<Rightarrow> string) \<Rightarrow> (json \<Rightarrow> string) \<Rightarrow> (string \<Rightarrow> json \<Rightarrow> string) \<Rightarrow> (string \<Rightarrow> payload option)
    \<Rightarrow> string \<Rightarrow> timestamp \<Rightarrow> store \<Rightarrow> store \<times> json gate_verdict api" where
  "approve_deployment L sha dumps msg get_run dep now st = (case get_record st dep of
     None \<Rightarrow> (st, Inl (Http 404))
   | Some r \<Rightarrow>
       if dr_status r \<noteq> ''pending'' then (st, Inl (Http 400))
       else (case get_spec st (dr_spec_id r) of
           None \<Rightarrow> (st, Inl (Http 500))
         | Some text \<Rightarrow>
             (case rbind (from_json L sha text) (\<lambda>sp. let run_id = (case dr_source_run_id r of None \<Rightarrow> [] | Some i \<Rightarrow> i)
                 in evaluate L msg default_deploy_gate_config sp run_id (get_run run_id)) of
                Inl e \<Rightarrow> (st, Inl (Raised e))
              | Inr v \<Rightarrow>
                  if gv_passed v
                  then (case update_status dep ''approved'' [] now st of
                      Inl e \<Rightarrow> (st, Inl (Raised e))
                    | Inr st1 \<Rightarrow> (update_gate_verdict dep (dumps (verdict_data v)) st1, Inr v))
                  else (update_gate_verdict dep (dumps (verdict_data v)) st, Inl (Http 400)))))"

section \<open>The configuration stored with a run\<close>

record run_request =
  rq_market :: string
  rq_freq :: string
  rq_rebal_weekday :: "int option"
  rq_buy_commission_rate :: flt
  rq_sell_commission_rate :: flt
  rq_min_commission :: flt
  rq_stamp_tax_rate :: flt
  rq_slippage_rate :: flt
  rq_lot_size :: int
  rq_limit_pct :: flt
  rq_benchmark_symbol :: string
  rq_optimizer :: string
  rq_risk_aversion :: flt
  rq_max_weight :: flt
  rq_max_industry_weight :: flt
  rq_cov_lookback :: int
  rq_risk_control :: bool
  rq_max_drawdown :: flt
  rq_drawdown_reduce :: flt
  rq_drawdown_recovery :: flt
  rq_max_turnover :: flt
  rq_index_benchmark :: string
  rq_max_tracking_error :: flt

definition risk_bucket :: "run_request \<Rightarrow> payload" where
  "risk_bucket q = [(''enabled'', JBool (rq_risk_control q)), (''max_drawdown'', JFloat (rq_max_drawdown q)),
     (''drawdown_reduce'', JFloat (rq_drawdown_reduce q)), (''drawdown_recovery'', JFloat (rq_drawdown_recovery q)),
     (''max_turnover'', JFloat (rq_max_turnover q))]"

definition cost_bucket :: "run_request \<Rightarrow> payload" where
  "cost_bucket q = [(''buy_commission_rate'', JFloat (rq_buy_commission_rate q)),
     (''sell_commission_rate'', JFloat (rq_sell_commission_rate q)), (''min_commission'', JFloat (rq_min_commission q)),
     (''stamp_tax_rate'', JFloat (rq_stamp_tax_rate q)), (''slippage_rate'', JFloat (rq_slippage_rate q)),
     (''lot_size'', JInt (rq_lot_size q)), (''limit_pct'', JFloat (rq_limit_pct q)),
     (''benchmark'', JStr (rq_benchmark_symbol q))]"

definition optimizer_bucket :: "run_request \<Rightarrow> payload" where
  "optimizer_bucket q = [(''kind'', JStr (rq_optimizer q)), (''risk_aversion'', JFloat (rq_risk_aversion q)),
     (''max_weight'', JFloat (rq_max_weight q)), (''max_industry_weight'', JFloat (rq_max_industry_weight q)),
     (''cov_lookback'', JInt (rq_cov_lookback q))]"

definition run_config :: "json \<Rightarrow> run_request \<Rightarrow> payload" where
  "run_config data_hash q = [(''market'', JStr (rq_market q)), (''freq'', JStr (rq_freq q)),
     (''rebal_weekday'', case rq_rebal_weekday q of None \<Rightarrow> JNull | Some n \<Rightarrow> JInt n),
     (''_cost'', JObj (cost_bucket q)), (''_optimizer'', JObj (optimizer_bucket q)), (''_risk'', JObj (risk_bucket q)),
     (''_index'', JObj [(''benchmark'', JStr (rq_index_benchmark q)), (''max_tracking_error'', JFloat (rq_max_tracking_error q))]),
     (''_data_hash'', data_hash)]"

end
