(* ===== verification/Lifecycle.thy ===== *)
theory Lifecycle
  imports Tick Deployment_Api
begin

text \<open>
  The life of a deployment over all the operations that change it: creation and approval (\<open>ez/api/routes/live.py\<close>),
  start, pause, resume, stop, ticks and restarts of the process (\<open>ez/live/scheduler.py\<close>).
\<close>

section \<open>Reachable states\<close>

definition new_scheduler :: "'s scheduler" where
  "new_scheduler = \<lparr>sc_store = empty_store, sc_engines = [], sc_paused = []\<rparr>"

text \<open>What a new process holds: the store, no engines.\<close>

definition rebooted :: "'s scheduler \<Rightarrow> 's scheduler" where
  "rebooted sc = sc\<lparr>sc_engines := [], sc_paused := []\<rparr>"

definition api_create ::
  "'s runtime \<Rightarrow> (string \<Rightarrow> payload option) \<Rightarrow> string \<Rightarrow> string \<Rightarrow> string \<Rightarrow> string \<Rightarrow> timestamp \<Rightarrow> 's scheduler \<Rightarrow> 's scheduler" where
  "api_create rt get_run dep commit run_id name now sc =
     sc\<lparr>sc_store := fst (create_deployment (rt_json rt) (rt_sha rt) get_run dep commit run_id name now (sc_store sc))\<rparr>"

definition api_approve ::
  "'s runtime \<Rightarrow> (json \<Rightarrow> string) \<Rightarrow> (string \<Rightarrow> json \<Rightarrow> string) \<Rightarrow> (string \<Rightarrow> payload option) \<Rightarrow> string \<Rightarrow> timestamp
    \<Rightarrow> 's scheduler \<Rightarrow> 's scheduler" where
  "api_approve rt dumps msg get_run dep now sc =
     sc\<lparr>sc_store := fst (approve_deployment (rt_json rt) (rt_sha rt) dumps msg get_run dep now (sc_store sc))\<rparr>"

text \<open>The requests and events that reach the live system, in any order and with any arguments and clock readings.\<close>

inductive live :: "'s runtime \<Rightarrow> (json \<Rightarrow> string) \<Rightarrow> 's scheduler \<Rightarrow> bool" for rt dumps where
  begins: "live rt dumps new_scheduler"
| creates: "live rt dumps sc \<Longrightarrow> live rt dumps (api_create rt get_run dep commit run_id name now sc)"
| approves: "live rt dumps sc \<Longrightarrow> live rt dumps (api_approve rt dumps msg get_run dep now sc)"
| starts: "live rt dumps sc \<Longrightarrow> live rt dumps (snd (start_deployment rt now dep sc))"
| pauses: "live rt dumps sc \<Longrightarrow> live rt dumps (snd (pause_deployment now dep sc))"
| resumes: "live rt dumps sc \<Longrightarrow> live rt dumps (snd (resume_deployment rt now dep sc))"
| stops: "live rt dumps sc \<Longrightarrow> live rt dumps (snd (stop_deployment today now dep reason liq sc))"
| ticks: "live rt dumps sc \<Longrightarrow> live rt dumps (snd (tick rt zone_today tks d markets sc))"
| restarts: "live rt dumps sc \<Longrightarrow> live rt dumps (snd (resume_all rt now (rebooted sc)))"

section \<open>The invariant\<close>

text \<open>The gate has passed on the stored specification of the deployment, and its verdict is on record.\<close>

definition approved_by :: "'s runtime \<Rightarrow> (json \<Rightarrow> string) \<Rightarrow> store \<Rightarrow> deployment_record \<Rightarrow> spec \<Rightarrow> bool" where
  "approved_by rt dumps st r sp \<longleftrightarrow> (\<exists>text. get_spec st (dr_spec_id r) = Some text \<and> from_json (rt_json rt) (rt_sha rt) text = Inr sp)
     \<and> (\<exists>msg run_id row v. evaluate (rt_json rt) msg default_deploy_gate_config sp run_id row = Inr v \<and> gv_passed v
         \<and> dr_gate_verdict r = Some (dumps (verdict_data v)))"

definition record_ok :: "'s runtime \<Rightarrow> (json \<Rightarrow> string) \<Rightarrow> store \<Rightarrow> deployment_record \<Rightarrow> bool" where
  "record_ok rt dumps st r \<longleftrightarrow> dr_status r \<in> set valid_statuses \<and> 0 \<le> dr_errors r
     \<and> (dr_status r \<in> {''running'', ''paused''} \<longrightarrow> dr_errors r < max_consecutive_errors)
     \<and> (dr_status r \<in> {''pending'', ''approved''} \<longrightarrow> dr_errors r = 0 \<and> dr_last_processed r = None)
     \<and> (dr_status r \<noteq> ''pending'' \<longrightarrow> dr_approved_at r \<noteq> None \<and> (\<exists>sp. approved_by rt dumps st r sp))"

text \<open>An engine runs the stored specification of its deployment.\<close>

definition runs_spec :: "'s runtime \<Rightarrow> store \<Rightarrow> string \<Rightarrow> deployment_record \<Rightarrow> 's live_engine \<Rightarrow> bool" where
  "runs_spec rt st dep r eg \<longleftrightarrow> (\<exists>text sp. get_spec st (dr_spec_id r) = Some text
     \<and> from_json (rt_json rt) (rt_sha rt) text = Inr sp \<and> eg_env eg = rt_env rt sp dep)"

definition active_status :: "'s scheduler \<Rightarrow> string \<Rightarrow> string" where
  "active_status sc dep = (if dep \<in> set (sc_paused sc) then ''paused'' else ''running'')"

definition sched_ok :: "'s runtime \<Rightarrow> (json \<Rightarrow> string) \<Rightarrow> 's scheduler \<Rightarrow> bool" where
  "sched_ok rt dumps sc \<longleftrightarrow> dict_ok (st_records (sc_store sc))
     \<and> (\<forall>dep r. get_record (sc_store sc) dep = Some r \<longrightarrow> record_ok rt dumps (sc_store sc) r)
     \<and> (\<forall>dep eg. map_of (sc_engines sc) dep = Some eg \<longrightarrow>
          (\<exists>r. get_record (sc_store sc) dep = Some r \<and> dr_status r = active_status sc dep \<and> runs_spec rt (sc_store sc) dep r eg))
     \<and> (\<forall>dep \<in> set (sc_paused sc). map_of (sc_engines sc) dep \<noteq> None)"

lemma sched_okE:
  assumes "sched_ok rt dumps sc"
  shows "dict_ok (st_records (sc_store sc))"
    and "get_record (sc_store sc) dep = Some r \<Longrightarrow> record_ok rt dumps (sc_store sc) r"
    and "map_of (sc_engines sc) dep = Some eg \<Longrightarrow> \<exists>r. get_record (sc_store sc) dep = Some r \<and> dr_status r = active_status sc dep \<and> runs_spec rt (sc_store sc) dep r eg"
    and "dep \<in> set (sc_paused sc) \<Longrightarrow> map_of (sc_engines sc) dep \<noteq> None"
  using assms unfolding sched_ok_def by blast+

lemma runs_spec_cong: "st_specs st = st_specs st' \<Longrightarrow> dr_spec_id r = dr_spec_id r' \<Longrightarrow> runs_spec rt st dep r eg = runs_spec rt st' dep r' eg"
  by (simp add: runs_spec_def get_spec_def)

lemma record_ok_cong: "st_specs st = st_specs st' \<Longrightarrow> record_ok rt dumps st r = record_ok rt dumps st' r"
  by (simp add: record_ok_def approved_by_def get_spec_def)

text \<open>A step that changes one deployment.\<close>

lemma sched_ok_update:
  assumes ok: "sched_ok rt dumps sc"
    and rec: "get_record (sc_store sc') = (get_record (sc_store sc))(dep \<mapsto> r')"
    and keys: "map fst (st_records (sc_store sc')) = map fst (st_records (sc_store sc))"
    and specs: "st_specs (sc_store sc') = st_specs (sc_store sc)"
    and r': "record_ok rt dumps (sc_store sc) r'"
    and eng: "\<And>x. x \<noteq> dep \<Longrightarrow> map_of (sc_engines sc') x = map_of (sc_engines sc) x"
    and pau: "\<And>x. x \<noteq> dep \<Longrightarrow> x \<in> set (sc_paused sc') \<longleftrightarrow> x \<in> set (sc_paused sc)"
    and dep1: "dep \<in> set (sc_paused sc') \<Longrightarrow> map_of (sc_engines sc') dep \<noteq> None"
    and dep2: "\<And>eg. map_of (sc_engines sc') dep = Some eg \<Longrightarrow> dr_status r' = active_status sc' dep \<and> runs_spec rt (sc_store sc) dep r' eg"
  shows "sched_ok rt dumps sc'"
  unfolding sched_ok_def
proof (intro conjI allI ballI impI)
  show "dict_ok (st_records (sc_store sc'))" using sched_okE(1) [OF ok] by (simp add: dict_ok_def keys)
next
  fix x r
  assume "get_record (sc_store sc') x = Some r"
  then show "record_ok rt dumps (sc_store sc') r"
    using r' sched_okE(2) [OF ok, of x r] unfolding record_ok_cong [OF specs] rec by (simp split: if_splits)
next
  fix x eg
  assume e: "map_of (sc_engines sc') x = Some eg"
  show "\<exists>r. get_record (sc_store sc') x = Some r \<and> dr_status r = active_status sc' x \<and> runs_spec rt (sc_store sc') x r eg"
  proof (cases "x = dep")
    case True
    then show ?thesis using dep2 [of eg] e rec unfolding runs_spec_cong [OF specs refl] by auto
  next
    case False
    then have "active_status sc' x = active_status sc x" by (simp add: active_status_def pau)
    then show ?thesis using sched_okE(3) [OF ok, of x eg] e eng [OF False] rec False unfolding runs_spec_cong [OF specs refl] by auto
  qed
next
  fix x
  assume "x \<in> set (sc_paused sc')"
  then show "map_of (sc_engines sc') x \<noteq> None"
    using dep1 sched_okE(4) [OF ok, of x] eng [of x] pau [of x] by (cases "x = dep") auto
qed

lemma build_engine_runs_spec:
  "build_engine rt st dep = Inr eg \<Longrightarrow> \<exists>r. get_record st dep = Some r \<and> runs_spec rt st dep r eg"
  by (auto simp: build_engine_def load_spec_def runs_spec_def split: option.splits if_splits prod.splits)

section \<open>Specifications are never rewritten\<close>

lemma st_specs_update_row [simp]: "st_specs (update_row dep f s) = st_specs s"
  by (simp add: update_row_def split: option.split)

lemma st_specs_append_locked: "append_events_locked now evs s = Inr (s', n) \<Longrightarrow> st_specs s' = st_specs s"
proof -
  have one: "append_one now ev (s, k) = Inr (s', k') \<Longrightarrow> st_specs s' = st_specs s" for ev s k s' k'
    by (auto simp: append_one_def Let_def)
  have "rfold (append_one now) evs (s, k) = Inr (s', n) \<Longrightarrow> st_specs s' = st_specs s" for k
  proof (induction evs arbitrary: s k)
    case (Cons ev evs)
    then show ?case using one by fastforce
  qed simp
  then show "append_events_locked now evs s = Inr (s', n) \<Longrightarrow> st_specs s' = st_specs s"
    unfolding append_events_locked_def .
qed

lemma save_snapshot_specs:
  assumes "save_snapshot_with_events now dep d result evs reports blob s = (s', r)"
  shows "st_specs s' = st_specs s"
proof (cases r)
  case (Inl e)
  then show ?thesis using assms by (auto simp: save_snapshot_with_events_def transact_def split: sum.splits prod.splits)
next
  case (Inr u)
  then obtain s1 n where 1: "append_events_locked now evs s = Inr (s1, n)"
    and 2: "write_snapshot_locked dep d result blob (upsert_reports now dep reports s1) = Inr s'"
    using assms by (auto simp: save_snapshot_with_events_def transact_def split: sum.splits prod.splits)
  from 2 have "st_specs s' = st_specs s1" by (auto simp: write_snapshot_locked_def upsert_reports_def)
  then show ?thesis using st_specs_append_locked [OF 1] by simp
qed

lemma st_specs_set_status [simp]: "st_specs (sc_store (snd (set_status dep status reason now sc))) = st_specs (sc_store sc)"
  by (simp add: set_status_def update_status_def split: sum.split)

lemma st_specs_execute: "st_specs (sc_store (snd (execute_and_save rt tk d dep eg sc))) = st_specs (sc_store sc)"
  by (auto simp: execute_and_save_def Let_def put_engine_def reset_error_count_def split: prod.splits sum.splits dest: save_snapshot_specs)

lemma st_specs_failure: "st_specs (sc_store (record_failure rt now d dep e sc)) = st_specs (sc_store sc)"
  by (simp add: record_failure_def Let_def case_prod_beta increment_error_count_def save_error_def split: option.split)

lemma st_specs_tick_one: "tick_one rt tks d markets dep (rs, sc) = (rs', sc') \<Longrightarrow> st_specs (sc_store sc') = st_specs (sc_store sc)"
proof -
  assume t: "tick_one rt tks d markets dep (rs, sc) = (rs', sc')"
  have "st_specs (sc_store (snd (execute_and_save rt (tks dep) d dep eg sc))) = st_specs (sc_store sc)" for eg by (rule st_specs_execute)
  then show ?thesis using t
    by (auto simp: tick_one_def st_specs_failure split: option.splits if_splits prod.splits sum.splits) (metis snd_conv)+
qed

section \<open>Every operation keeps the invariant\<close>

lemma set_status_effect:
  assumes "status \<in> set valid_statuses" "get_record (sc_store sc) dep = Some r"
  shows "set_status dep status reason now sc = (Inr (), snd (set_status dep status reason now sc))"
    and "get_record (sc_store (snd (set_status dep status reason now sc))) = (get_record (sc_store sc))(dep \<mapsto> status_change status reason now r)"
    and "map fst (st_records (sc_store (snd (set_status dep status reason now sc)))) = map fst (st_records (sc_store sc))"
    and "sc_engines (snd (set_status dep status reason now sc)) = sc_engines sc"
    and "sc_paused (snd (set_status dep status reason now sc)) = sc_paused sc"
  using assms by (auto simp: set_status_def update_status_eq record_simps)

lemma dr_spec_id_simps [simp]:
  "dr_spec_id (status_change status reason now r) = dr_spec_id r" "dr_spec_id (succeeded d r) = dr_spec_id r"
  "dr_spec_id (stumbled d r) = dr_spec_id r" "dr_spec_id (processed d r) = dr_spec_id r"
  by (simp_all add: status_change_def succeeded_def stumbled_def processed_def Let_def)

lemma moved_simps [simp]:
  "dr_status (succeeded d r) = dr_status r" "dr_status (stumbled d r) = dr_status r" "dr_status (processed d r) = dr_status r"
  "dr_errors (succeeded d r) = 0" "dr_errors (stumbled d r) = dr_errors r + 1" "dr_errors (processed d r) = dr_errors r"
  "dr_approved_at (succeeded d r) = dr_approved_at r" "dr_approved_at (stumbled d r) = dr_approved_at r"
  "dr_approved_at (processed d r) = dr_approved_at r" "dr_gate_verdict (succeeded d r) = dr_gate_verdict r"
  "dr_gate_verdict (stumbled d r) = dr_gate_verdict r" "dr_gate_verdict (processed d r) = dr_gate_verdict r"
  by (simp_all add: succeeded_def stumbled_def processed_def)

lemma approved_by_cong:
  "dr_spec_id r = dr_spec_id r' \<Longrightarrow> dr_gate_verdict r = dr_gate_verdict r' \<Longrightarrow> approved_by rt dumps st r = approved_by rt dumps st r'"
  by (simp add: approved_by_def fun_eq_iff)

lemma approved_by_simps [simp]:
  "approved_by rt dumps st (status_change status reason now r) = approved_by rt dumps st r"
  "approved_by rt dumps st (succeeded d r) = approved_by rt dumps st r"
  "approved_by rt dumps st (stumbled d r) = approved_by rt dumps st r"
  "approved_by rt dumps st (processed d r) = approved_by rt dumps st r"
  by (rule approved_by_cong; simp)+

lemma record_ok_succeeded: "record_ok rt dumps st r \<Longrightarrow> dr_status r \<notin> {''pending'', ''approved''} \<Longrightarrow> record_ok rt dumps st (succeeded d r)"
  by (simp add: record_ok_def max_consecutive_errors_def)

lemma record_ok_stumbled:
  "record_ok rt dumps st r \<Longrightarrow> dr_status r \<notin> {''pending'', ''approved''} \<Longrightarrow> dr_errors r + 1 < max_consecutive_errors
    \<Longrightarrow> record_ok rt dumps st (stumbled d r)"
  by (simp add: record_ok_def)

lemma record_ok_ended:
  "record_ok rt dumps st r \<Longrightarrow> dr_status r \<notin> {''pending'', ''approved''} \<Longrightarrow> record_ok rt dumps st (status_change ''error'' reason now (stumbled d r))"
  by (simp add: record_ok_def valid_statuses_def)

lemma record_ok_left:
  "record_ok rt dumps st r \<Longrightarrow> dr_status r \<noteq> ''pending'' \<Longrightarrow> status = ''error'' \<or> status = ''stopped''
    \<Longrightarrow> record_ok rt dumps st (status_change status reason now r)"
  by (elim disjE) (simp_all add: record_ok_def valid_statuses_def)

lemma record_ok_activated:
  "record_ok rt dumps st r \<Longrightarrow> dr_status r \<in> {''approved'', ''running'', ''paused''} \<Longrightarrow> status = ''running'' \<or> status = ''paused''
    \<Longrightarrow> record_ok rt dumps st (status_change status reason now r)"
  by (elim disjE) (auto simp: record_ok_def valid_statuses_def max_consecutive_errors_def)

lemma tick_one_ok:
  assumes ok: "sched_ok rt dumps sc" and t: "tick_one rt tks d markets dep (rs, sc) = (rs', sc')"
  shows "sched_ok rt dumps sc'"
proof -
  note specs = st_specs_tick_one [OF t]
  have active: "dr_status r = ''running''" "dep \<notin> set (sc_paused sc)" "runs_spec rt (sc_store sc) dep r eg"
    if "\<not> settled d markets dep sc" "map_of (sc_engines sc) dep = Some eg" "get_record (sc_store sc) dep = Some r" for eg r
    using that sched_okE(3) [OF ok that(2)] by (auto simp: settled_def skips_def active_status_def)
  from t show ?thesis
  proof (cases rule: tick_one_cases)
    case skipped
    then show ?thesis using ok by simp
  next
    case (saved eg r day en)
    note a = active [OF saved(1-3)]
    show ?thesis
      by (rule sched_ok_update [OF ok saved(7,8) specs record_ok_succeeded [OF sched_okE(2) [OF ok saved(3)]]])
        (use saved a in \<open>auto simp: active_status_def runs_spec_def succeeded_def\<close>)
  next
    case (failed eg r en)
    note a = active [OF failed(1-3)]
    show ?thesis
      by (rule sched_ok_update [OF ok failed(8,9) specs record_ok_stumbled [OF sched_okE(2) [OF ok failed(3)]]])
        (use failed a in \<open>auto simp: active_status_def runs_spec_def stumbled_def\<close>)
  next
    case (ended eg r en reason now)
    note a = active [OF ended(1-3)]
    show ?thesis
      by (rule sched_ok_update [OF ok ended(8,9) specs record_ok_ended [OF sched_okE(2) [OF ok ended(3)]]])
        (use ended a in \<open>auto simp: active_status_def discard_def\<close>)
  qed
qed

lemma fold_tick_ok:
  "sched_ok rt dumps sc \<Longrightarrow> fold (tick_one rt tks d markets) deps (rs, sc) = (rs', sc') \<Longrightarrow> sched_ok rt dumps sc'"
proof (induction deps arbitrary: rs sc)
  case (Cons x deps)
  obtain rs1 sc1 where one: "tick_one rt tks d markets x (rs, sc) = (rs1, sc1)" by force
  then show ?case using Cons.IH [OF tick_one_ok [OF Cons.prems(1) one]] Cons.prems(2) by simp
qed simp

lemma tick_ok: "sched_ok rt dumps sc \<Longrightarrow> sched_ok rt dumps (snd (tick rt zone_today tks d markets sc))"
  by (auto simp: tick_def fold_tick_ok split: prod.split)

lemma start_engine_eq:
  "start_engine rt dep sc = (case build_engine rt (sc_store sc) dep of Inl e \<Rightarrow> (Inl e, sc)
     | Inr eg \<Rightarrow> (Inr (), sc\<lparr>sc_engines := dset (sc_engines sc) dep eg\<rparr>))"
  by (simp add: start_engine_def abind_def alift_def amodify_def split: sum.split)

lemma sched_ok_empty [simp]: "sched_ok rt dumps new_scheduler"
  by (simp add: sched_ok_def new_scheduler_def empty_store_def get_record_def)

text \<open>A status that goes with the engine and the paused marker of the deployment.\<close>

lemma activate_ok:
  assumes ok: "sched_ok rt dumps sc" and r: "get_record (sc_store sc) dep = Some r"
    and was: "dr_status r \<in> {''approved'', ''running'', ''paused''}"
    and sc1: "sc_store sc1 = sc_store sc" "\<And>x. x \<noteq> dep \<Longrightarrow> map_of (sc_engines sc1) x = map_of (sc_engines sc) x"
    and eg: "map_of (sc_engines sc1) dep = Some eg" "runs_spec rt (sc_store sc) dep r eg"
    and sc2: "sc2 = (snd (set_status dep status reason now sc1))\<lparr>sc_paused := ps\<rparr>"
    and ps: "\<And>x. x \<noteq> dep \<Longrightarrow> x \<in> set ps \<longleftrightarrow> x \<in> set (sc_paused sc)" "status = (if dep \<in> set ps then ''paused'' else ''running'')"
  shows "sched_ok rt dumps sc2"
proof -
  have valid: "status \<in> set valid_statuses" using ps(2) by (auto simp: valid_statuses_def)
  have r1: "get_record (sc_store sc1) dep = Some r" using r sc1(1) by simp
  note fx = set_status_effect [OF valid r1, where reason = reason and now = now]
  show ?thesis
  proof (rule sched_ok_update [OF ok, of sc2 dep "status_change status reason now r"])
    show "get_record (sc_store sc2) = (get_record (sc_store sc))(dep \<mapsto> status_change status reason now r)"
      "map fst (st_records (sc_store sc2)) = map fst (st_records (sc_store sc))"
      using fx(2,3) sc1(1) by (simp_all add: sc2)
    show "st_specs (sc_store sc2) = st_specs (sc_store sc)" using sc1(1) by (simp add: sc2)
    have "status = ''running'' \<or> status = ''paused''" using ps(2) by auto
    then show "record_ok rt dumps (sc_store sc) (status_change status reason now r)"
      by (rule record_ok_activated [OF sched_okE(2) [OF ok r] was])
    show "map_of (sc_engines sc2) x = map_of (sc_engines sc) x" if "x \<noteq> dep" for x
      using that fx(4) sc1(2) by (simp add: sc2)
    show "x \<in> set (sc_paused sc2) \<longleftrightarrow> x \<in> set (sc_paused sc)" if "x \<noteq> dep" for x using that ps(1) by (simp add: sc2)
    show "map_of (sc_engines sc2) dep \<noteq> None" using fx(4) eg(1) by (simp add: sc2)
    show "dr_status (status_change status reason now r) = active_status sc2 dep
        \<and> runs_spec rt (sc_store sc) dep (status_change status reason now r) eg'" if "map_of (sc_engines sc2) dep = Some eg'" for eg'
      using that fx(4) eg ps(2) by (auto simp: sc2 active_status_def runs_spec_def)
  qed
qed

lemma status_isE: "status_is sc dep st \<Longrightarrow> (\<And>r. get_record (sc_store sc) dep = Some r \<Longrightarrow> dr_status r = st \<Longrightarrow> P) \<Longrightarrow> P"
  by (auto simp: status_is_def split: option.splits)

lemma start_ok:
  assumes ok: "sched_ok rt dumps sc"
  shows "sched_ok rt dumps (snd (start_deployment rt now dep sc))"
proof (cases "status_is sc dep ''approved''")
  case False
  then show ?thesis using ok by (simp add: start_deployment_def)
next
  case True
  then obtain r where r: "get_record (sc_store sc) dep = Some r" "dr_status r = ''approved''" by (rule status_isE)
  show ?thesis
  proof (cases "build_engine rt (sc_store sc) dep")
    case (Inl e)
    then show ?thesis using ok True by (simp add: start_deployment_def start_engine_eq abind_def)
  next
    case (Inr eg)
    let ?sc1 = "sc\<lparr>sc_engines := dset (sc_engines sc) dep eg\<rparr>"
    have valid: "''running'' \<in> set valid_statuses" by (simp add: valid_statuses_def)
    have r1: "get_record (sc_store ?sc1) dep = Some r" using r by simp
    note fx = set_status_effect [OF valid r1, where reason = "[]" and now = now]
    have notp: "dep \<notin> set (sc_paused sc)"
    proof
      assume p: "dep \<in> set (sc_paused sc)"
      then obtain eg0 where "map_of (sc_engines sc) dep = Some eg0" using sched_okE(4) [OF ok] by blast
      from sched_okE(3) [OF ok this] r show False by (auto simp: active_status_def split: if_splits)
    qed
    have "snd (start_deployment rt now dep sc) = (snd (set_status dep ''running'' [] now ?sc1))\<lparr>sc_paused := sc_paused sc\<rparr>"
      using True Inr fx(1,5) by (cases "set_status dep ''running'' [] now ?sc1") (simp add: start_deployment_def start_engine_eq abind_def or_cleanup_def)
    moreover have "runs_spec rt (sc_store sc) dep r eg" using build_engine_runs_spec [OF Inr] r(1) by auto
    ultimately show ?thesis
      by (intro activate_ok [OF ok r(1), where ?sc1.0 = ?sc1 and eg = eg and ps = "sc_paused sc" and status = "''running''"]) (use r notp in auto)
  qed
qed

lemma pause_ok:
  assumes ok: "sched_ok rt dumps sc"
  shows "sched_ok rt dumps (snd (pause_deployment now dep sc))"
proof (cases "dhas (sc_engines sc) dep")
  case False
  then show ?thesis using ok by (simp add: pause_deployment_def)
next
  case True
  then obtain eg where eg: "map_of (sc_engines sc) dep = Some eg" by (auto simp: dhas_def)
  from sched_okE(3) [OF ok eg] obtain r where r: "get_record (sc_store sc) dep = Some r" "dr_status r = active_status sc dep"
    "runs_spec rt (sc_store sc) dep r eg" by blast
  have valid: "''paused'' \<in> set valid_statuses" by (simp add: valid_statuses_def)
  note fx = set_status_effect [OF valid r(1), where reason = "[]" and now = now]
  have "snd (pause_deployment now dep sc) = (snd (set_status dep ''paused'' [] now sc))\<lparr>sc_paused := add_to_set dep (sc_paused sc)\<rparr>"
    using True fx(1,5) by (cases "set_status dep ''paused'' [] now sc") (simp add: pause_deployment_def abind_def amodify_def)
  then show ?thesis
    by (intro activate_ok [OF ok r(1), where ?sc1.0 = sc and eg = eg and ps = "add_to_set dep (sc_paused sc)" and status = "''paused''"])
      (use r eg in \<open>auto simp: active_status_def add_to_set_def\<close>)
qed

lemma resume_ok:
  assumes ok: "sched_ok rt dumps sc"
  shows "sched_ok rt dumps (snd (resume_deployment rt now dep sc))"
proof (cases "status_is sc dep ''paused''")
  case False
  then show ?thesis using ok by (simp add: resume_deployment_def)
next
  case True
  then obtain r where r: "get_record (sc_store sc) dep = Some r" "dr_status r = ''paused''" by (rule status_isE)
  have valid: "''running'' \<in> set valid_statuses" by (simp add: valid_statuses_def)
  show ?thesis
  proof (cases "map_of (sc_engines sc) dep")
    case (Some eg)
    from sched_okE(3) [OF ok Some] r have run: "runs_spec rt (sc_store sc) dep r eg" by auto
    note fx = set_status_effect [OF valid r(1), where reason = "[]" and now = now]
    have "snd (resume_deployment rt now dep sc) = (snd (set_status dep ''running'' [] now sc))\<lparr>sc_paused := discard dep (sc_paused sc)\<rparr>"
      using True Some fx(1,5) by (cases "set_status dep ''running'' [] now sc") (simp add: resume_deployment_def abind_def amodify_def dhas_def)
    then show ?thesis
      by (intro activate_ok [OF ok r(1), where ?sc1.0 = sc and eg = eg and ps = "discard dep (sc_paused sc)" and status = "''running''"])
        (use r Some run in \<open>auto simp: discard_def\<close>)
  next
    case None
    show ?thesis
    proof (cases "build_engine rt (sc_store sc) dep")
      case (Inl e)
      then show ?thesis using ok True None by (simp add: resume_deployment_def start_engine_eq abind_def dhas_def)
    next
      case (Inr eg)
      let ?sc1 = "sc\<lparr>sc_engines := dset (sc_engines sc) dep eg\<rparr>"
      have r1: "get_record (sc_store ?sc1) dep = Some r" using r by simp
      note fx = set_status_effect [OF valid r1, where reason = "[]" and now = now]
      have "snd (resume_deployment rt now dep sc) = (snd (set_status dep ''running'' [] now ?sc1))\<lparr>sc_paused := discard dep (sc_paused sc)\<rparr>"
        using True Inr None fx(1,5) by (cases "set_status dep ''running'' [] now ?sc1")
          (simp add: resume_deployment_def start_engine_eq abind_def amodify_def or_cleanup_def dhas_def)
      moreover have "runs_spec rt (sc_store sc) dep r eg" using build_engine_runs_spec [OF Inr] r(1) by auto
      ultimately show ?thesis
        by (intro activate_ok [OF ok r(1), where ?sc1.0 = ?sc1 and eg = eg and ps = "discard dep (sc_paused sc)" and status = "''running''"])
          (use r in \<open>auto simp: discard_def\<close>)
    qed
  qed
qed

lemma liquidate_effect:
  fixes today :: date and now :: timestamp
  assumes r: "get_record (sc_store sc) dep = Some r"
  defines "sc' \<equiv> liquidate today now dep sc"
  shows "\<exists>r'. get_record (sc_store sc') = (get_record (sc_store sc))(dep \<mapsto> r') \<and> r' \<in> {r, processed today r}"
    and "map fst (st_records (sc_store sc')) = map fst (st_records (sc_store sc))"
    and "st_specs (sc_store sc') = st_specs (sc_store sc)"
    and "x \<noteq> dep \<Longrightarrow> map_of (sc_engines sc') x = map_of (sc_engines sc) x"
    and "sc_paused sc' = sc_paused sc"
proof -
  have "((\<exists>r'. get_record (sc_store sc') = (get_record (sc_store sc))(dep \<mapsto> r') \<and> r' \<in> {r, processed today r})
      \<and> map fst (st_records (sc_store sc')) = map fst (st_records (sc_store sc))
      \<and> st_specs (sc_store sc') = st_specs (sc_store sc) \<and> (\<forall>x. x \<noteq> dep \<longrightarrow> map_of (sc_engines sc') x = map_of (sc_engines sc) x)
      \<and> sc_paused sc' = sc_paused sc)"
  proof -
    have same: "\<exists>r'. get_record (sc_store sc) = (get_record (sc_store sc))(dep \<mapsto> r') \<and> r' \<in> {r, processed today r}"
      by (rule exI [of _ r]) (use r in auto)
    show ?thesis
    proof (cases "map_of (sc_engines sc) dep")
      case None
      then show ?thesis using same by (simp add: sc'_def liquidate_def)
    next
      case (Some eg)
      define eg1 where "eg1 = eg\<lparr>eg_state := snd (mark_to_market (pe_last_prices (eg_state eg)) (eg_state eg))\<rparr>"
      show ?thesis
      proof (cases "pe_holdings (eg_state eg) = []")
        case True
        then show ?thesis using same Some by (simp add: sc'_def liquidate_def)
      next
        case held: False
        show ?thesis
        proof (cases "ee_broker (eg_env eg1) (liquidation_request today eg1)")
          case (Inl e)
          then have "sc' = sc\<lparr>sc_engines := dset (sc_engines sc) dep eg1\<rparr>"
            using Some held by (simp add: sc'_def liquidate_def eg1_def Let_def)
          then show ?thesis using same by simp
        next
          case (Inr b)
          obtain st res where sv: "save_snapshot_with_events now dep today
              (liquidation_result today (pe_last_prices (eg_state eg1)) b) [] [] None (sc_store sc) = (st, res)" by force
          have eq: "sc_store sc' = st" "sc_paused sc' = sc_paused sc" "\<exists>eg2. sc_engines sc' = dset (sc_engines sc) dep eg2"
            using Some held Inr sv by (auto simp: sc'_def liquidate_def eg1_def Let_def)
          have recs: "st_records st = (case res of Inl e \<Rightarrow> st_records (sc_store sc) | Inr u \<Rightarrow> st_records (update_row dep (processed today) (sc_store sc)))"
            by (rule save_snapshot_records [OF sv])
          have "\<exists>r'. get_record st = (get_record (sc_store sc))(dep \<mapsto> r') \<and> r' \<in> {r, processed today r}"
          proof (cases res)
            case (Inl e)
            then show ?thesis using same recs by (simp add: get_record_cong [of st "sc_store sc"])
          next
            case (Inr u)
            have "get_record st = (get_record (sc_store sc))(dep \<mapsto> processed today r)"
              unfolding get_record_cong [OF recs [unfolded Inr sum.case]] by (rule ext) (simp add: record_simps r)
            then show ?thesis by auto
          qed
          moreover have "map fst (st_records st) = map fst (st_records (sc_store sc))" using recs by (cases res) simp_all
          ultimately show ?thesis using eq save_snapshot_specs [OF sv] by auto
        qed
      qed
    qed
  qed
  then show "\<exists>r'. get_record (sc_store sc') = (get_record (sc_store sc))(dep \<mapsto> r') \<and> r' \<in> {r, processed today r}"
    "map fst (st_records (sc_store sc')) = map fst (st_records (sc_store sc))" "st_specs (sc_store sc') = st_specs (sc_store sc)"
    "x \<noteq> dep \<Longrightarrow> map_of (sc_engines sc') x = map_of (sc_engines sc) x" "sc_paused sc' = sc_paused sc"
    by blast+
qed

lemma stop_ok:
  assumes ok: "sched_ok rt dumps sc"
  shows "sched_ok rt dumps (snd (stop_deployment today now dep reason liq sc))"
proof (cases "get_record (sc_store sc) dep = None \<or> status_is sc dep ''stopped'' \<or> status_is sc dep ''pending''")
  case True
  then show ?thesis using ok by (simp add: stop_deployment_def)
next
  case False
  then obtain r where r: "get_record (sc_store sc) dep = Some r" "dr_status r \<noteq> ''pending''" by (auto simp: status_is_def)
  define sc1 where "sc1 = (if liq then liquidate today now dep sc else sc)"
  have "get_record (sc_store sc) = (get_record (sc_store sc))(dep \<mapsto> r)" using r(1) by auto
  then have "\<exists>r1. get_record (sc_store sc1) = (get_record (sc_store sc))(dep \<mapsto> r1) \<and> r1 \<in> {r, processed today r}"
    using liquidate_effect(1) [OF r(1), where today = today and now = now] by (cases liq) (simp add: sc1_def, auto simp: sc1_def)
  then obtain r1 where r1: "get_record (sc_store sc1) = (get_record (sc_store sc))(dep \<mapsto> r1)" "r1 \<in> {r, processed today r}" by blast
  have same: "map fst (st_records (sc_store sc1)) = map fst (st_records (sc_store sc))" "st_specs (sc_store sc1) = st_specs (sc_store sc)"
    "sc_paused sc1 = sc_paused sc" "x \<noteq> dep \<Longrightarrow> map_of (sc_engines sc1) x = map_of (sc_engines sc) x" for x
    using liquidate_effect(2-5) [OF r(1), where today = today and now = now] by (cases liq; simp add: sc1_def)+
  have valid: "''stopped'' \<in> set valid_statuses" by (simp add: valid_statuses_def)
  have rec: "get_record (sc_store sc1) dep = Some r1" using r1(1) by simp
  note fx = set_status_effect [OF valid rec, where reason = reason and now = now]
  let ?sc2 = "snd (set_status dep ''stopped'' reason now sc1)"
  have eq: "snd (stop_deployment today now dep reason liq sc)
      = ?sc2\<lparr>sc_engines := dpop (sc_engines ?sc2) dep, sc_paused := discard dep (sc_paused ?sc2)\<rparr>"
    using False fx(1) by (cases "set_status dep ''stopped'' reason now sc1") (auto simp: stop_deployment_def abind_def amodify_def sc1_def [symmetric])
  have rok: "record_ok rt dumps (sc_store sc) (status_change ''stopped'' reason now r1)"
  proof -
    have "record_ok rt dumps (sc_store sc) (status_change ''stopped'' reason now r)"
      by (rule record_ok_left [OF sched_okE(2) [OF ok r(1)] r(2)]) simp
    then show ?thesis using r1(2) by (auto simp: record_ok_def)
  qed
  show ?thesis unfolding eq
    by (rule sched_ok_update [OF ok _ _ _ rok, of _ dep]) (use fx r1(1) same in \<open>simp_all add: discard_def\<close>)
qed

lemma restore_one_ok:
  assumes ok: "sched_ok rt dumps sc" and r: "get_record (sc_store sc) dep = Some r" "dr_status r = ''running''"
    and fresh: "map_of (sc_engines sc) dep = None" "sc_paused sc = []" and one: "restore_one rt now dep (n, sc) = (n', sc')"
  shows "sched_ok rt dumps sc' \<and> sc_paused sc' = [] \<and> (\<forall>x. x \<noteq> dep \<longrightarrow> map_of (sc_engines sc') x = map_of (sc_engines sc) x)
    \<and> (\<forall>x. x \<noteq> dep \<longrightarrow> get_record (sc_store sc') x = get_record (sc_store sc) x)"
proof (cases "build_engine rt (sc_store sc) dep")
  case (Inl e)
  have valid: "''error'' \<in> set valid_statuses" by (simp add: valid_statuses_def)
  note fx = set_status_effect [OF valid r(1), where reason = "rt_restore_reason rt" and now = now]
  have sc': "sc' = snd (set_status dep ''error'' (rt_restore_reason rt) now sc)"
    using one Inl by (simp add: restore_one_def start_engine_eq)
  have rok: "record_ok rt dumps (sc_store sc) (status_change ''error'' (rt_restore_reason rt) now r)"
    by (rule record_ok_left [OF sched_okE(2) [OF ok r(1)]]) (use r in auto)
  have "sched_ok rt dumps sc'" unfolding sc'
    by (rule sched_ok_update [OF ok fx(2,3) _ rok]) (use fx fresh in simp_all)
  then show ?thesis using fx fresh by (simp add: sc')
next
  case (Inr eg)
  have sc': "sc' = sc\<lparr>sc_engines := dset (sc_engines sc) dep eg\<rparr>" using one Inr by (simp add: restore_one_def start_engine_eq)
  have "runs_spec rt (sc_store sc) dep r eg" using build_engine_runs_spec [OF Inr] r(1) by auto
  then have "sched_ok rt dumps sc'" unfolding sc'
    by (intro sched_ok_update [OF ok _ _ _ sched_okE(2) [OF ok r(1)], of _ dep])
      (use r fresh in \<open>simp_all add: active_status_def fun_upd_idem\<close>)
  then show ?thesis using fresh by (simp add: sc')
qed

lemma restore_fold_ok:
  assumes "sched_ok rt dumps sc" "distinct (map fst ds)" "sc_paused sc = []"
    and "\<forall>dep \<in> set (map fst ds). map_of (sc_engines sc) dep = None \<and> (\<exists>r. get_record (sc_store sc) dep = Some r \<and> dr_status r = ''running'')"
  shows "sched_ok rt dumps (snd (fold (\<lambda>(dep, r). restore_one rt now dep) ds (n, sc)))"
  using assms
proof (induction ds arbitrary: n sc)
  case (Cons dr ds)
  obtain dep r0 where dr: "dr = (dep, r0)" by force
  obtain n1 sc1 where one: "restore_one rt now dep (n, sc) = (n1, sc1)" by force
  obtain r where r: "get_record (sc_store sc) dep = Some r" "dr_status r = ''running''" "map_of (sc_engines sc) dep = None"
    using Cons.prems(4) by (auto simp: dr)
  note ok1 = restore_one_ok [OF Cons.prems(1) r Cons.prems(3) one]
  have "sched_ok rt dumps (snd (fold (\<lambda>(dep, r). restore_one rt now dep) ds (n1, sc1)))"
  proof (rule Cons.IH)
    show "\<forall>x \<in> set (map fst ds). map_of (sc_engines sc1) x = None \<and> (\<exists>r. get_record (sc_store sc1) x = Some r \<and> dr_status r = ''running'')"
    proof
      fix x
      assume x: "x \<in> set (map fst ds)"
      then have "x \<noteq> dep" using Cons.prems(2) by (auto simp: dr)
      then show "map_of (sc_engines sc1) x = None \<and> (\<exists>r. get_record (sc_store sc1) x = Some r \<and> dr_status r = ''running'')"
        using ok1 bspec [OF Cons.prems(4), of x] x by (simp add: dr)
    qed
  qed (use ok1 Cons.prems in \<open>auto simp: dr\<close>)
  then show ?case using one by (simp add: dr)
qed simp

lemma distinct_keys_list: "dict_ok d \<Longrightarrow> distinct (map fst (sort_key f (filter P d)))"
proof -
  assume "dict_ok d"
  then have "distinct (map fst (filter P d))" using dict_ok_filter [of d P] by (simp add: dict_ok_def)
  moreover have "mset (map fst (sort_key f (filter P d))) = mset (map fst (filter P d))" by simp
  ultimately show ?thesis using mset_eq_imp_distinct_iff by blast
qed

lemma resume_all_ok:
  assumes ok: "sched_ok rt dumps sc"
  shows "sched_ok rt dumps (snd (resume_all rt now (rebooted sc)))"
  unfolding resume_all_def
proof (rule restore_fold_ok)
  show "sched_ok rt dumps (rebooted sc)" using ok by (auto simp: sched_ok_def rebooted_def)
  have d: "dict_ok (st_records (sc_store sc))" by (rule sched_okE(1) [OF ok])
  then show "distinct (map fst (list_deployments (sc_store (rebooted sc)) (Some ''running'')))"
    by (simp add: list_deployments_def rebooted_def distinct_keys_list)
  show "\<forall>dep \<in> set (map fst (list_deployments (sc_store (rebooted sc)) (Some ''running''))).
      map_of (sc_engines (rebooted sc)) dep = None \<and> (\<exists>r. get_record (sc_store (rebooted sc)) dep = Some r \<and> dr_status r = ''running'')"
    using d by (auto simp: list_deployments_def rebooted_def get_record_def dict_ok_map_of_iff)
qed (simp add: rebooted_def)

lemma more_specs:
  assumes "\<And>i t. get_spec st i = Some t \<Longrightarrow> get_spec st' i = Some t"
  shows "record_ok rt dumps st r \<Longrightarrow> record_ok rt dumps st' r" and "runs_spec rt st dep r eg \<Longrightarrow> runs_spec rt st' dep r eg"
  using assms by (auto simp: record_ok_def approved_by_def runs_spec_def) blast+

lemma create_ok:
  assumes ok: "sched_ok rt dumps sc"
  shows "sched_ok rt dumps (api_create rt get_run dep commit run_id name now sc)"
proof -
  define st where "st = sc_store sc"
  obtain st' res where c: "create_deployment (rt_json rt) (rt_sha rt) get_run dep commit run_id name now st = (st', res)" by force
  have cases: "st' = st \<or> (\<exists>i t. st' = save_spec i t st) \<or> (\<exists>i t r. get_record st dep = None \<and>
      st' = (save_spec i t st)\<lparr>st_records := dset (st_records (save_spec i t st)) dep r\<rparr> \<and> dr_status r = ''pending'' \<and> dr_errors r = 0 \<and> dr_last_processed r = None)"
  proof -
    have save: "save_record dep (new_record i name run_id commit now) s1 = Inr s2 \<Longrightarrow> st_records s1 = st_records st \<Longrightarrow>
        get_record st dep = None \<and> (\<exists>r. s2 = s1\<lparr>st_records := dset (st_records s1) dep r\<rparr> \<and> dr_status r = ''pending'' \<and> dr_errors r = 0
          \<and> dr_last_processed r = None)" for i s1 s2
      by (auto simp: save_record_def new_record_def dhas_def get_record_def split: if_splits)
    have recs: "st_records (save_spec i t st) = st_records st" for i t by (simp add: save_spec_def)
    show ?thesis
    proof (cases "get_run run_id")
      case None
      then show ?thesis using c by (simp add: create_deployment_def)
    next
      case (Some run)
      show ?thesis
      proof (cases "run = []")
        case True
        then show ?thesis using c Some by (simp add: create_deployment_def)
      next
        case False
        show ?thesis
        proof (cases "bad_request (build_spec_from_run (rt_json rt) (rt_sha rt) run)")
          case (Inl e)
          then show ?thesis using c Some False by (simp add: create_deployment_def)
        next
          case (Inr sp)
          let ?st1 = "save_spec (sp_spec_id sp) (to_json (rt_json rt) sp) st"
          show ?thesis
          proof (cases "save_record dep (new_record (sp_spec_id sp) name run_id commit now) ?st1")
            case (Inl e)
            then show ?thesis using c Some False Inr by (auto simp: create_deployment_def Let_def)
          next
            case (Inr st2)
            then have "st' = st2" using c Some False \<open>bad_request _ = Inr sp\<close> by (simp add: create_deployment_def Let_def)
            then show ?thesis using save [OF Inr recs] by blast
          qed
        qed
      qed
    qed
  qed
  have kept: "get_spec st i = Some t \<Longrightarrow> get_spec (save_spec j u st) i = Some t" for i t j u
    by (auto simp: save_spec_def get_spec_def dhas_def)
  have rec_kept: "record_ok rt dumps st r \<Longrightarrow> record_ok rt dumps (save_spec j u st) r" for r j u
    by (rule more_specs(1) [OF kept])
  have runs_kept: "runs_spec rt st x r eg \<Longrightarrow> runs_spec rt (save_spec j u st) x r eg" for x r eg j u
    by (rule more_specs(2) [OF kept])
  have recs: "get_record (save_spec j u st) = get_record st" "st_records (save_spec j u st) = st_records st" for j u
    by (simp_all add: save_spec_def get_record_def fun_eq_iff)
  have saved: "sched_ok rt dumps (sc\<lparr>sc_store := save_spec j u st\<rparr>)" for j u
    unfolding sched_ok_def
  proof (intro conjI allI ballI impI)
    show "record_ok rt dumps (sc_store (sc\<lparr>sc_store := save_spec j u st\<rparr>)) r"
      if "get_record (sc_store (sc\<lparr>sc_store := save_spec j u st\<rparr>)) x = Some r" for x r
      using rec_kept sched_okE(2) [OF ok, of x r] that by (simp add: recs flip: st_def)
    show "\<exists>r. get_record (sc_store (sc\<lparr>sc_store := save_spec j u st\<rparr>)) x = Some r
        \<and> dr_status r = active_status (sc\<lparr>sc_store := save_spec j u st\<rparr>) x \<and> runs_spec rt (sc_store (sc\<lparr>sc_store := save_spec j u st\<rparr>)) x r eg"
      if "map_of (sc_engines (sc\<lparr>sc_store := save_spec j u st\<rparr>)) x = Some eg" for x eg
    proof -
      from sched_okE(3) [OF ok, of x eg] that obtain r where "get_record st x = Some r" "dr_status r = active_status sc x" "runs_spec rt st x r eg"
        by (auto simp: st_def)
      then show ?thesis using runs_kept by (simp add: recs active_status_def)
    qed
  qed (use sched_okE(1,4) [OF ok] in \<open>simp_all add: recs flip: st_def\<close>)
  have fresh: "sched_ok rt dumps (sc\<lparr>sc_store := s1\<lparr>st_records := dset (st_records s1) dep r\<rparr>\<rparr>)"
    if s1: "sched_ok rt dumps (sc\<lparr>sc_store := s1\<rparr>)" "get_record s1 dep = None" and r: "dr_status r = ''pending''" "dr_errors r = 0" "dr_last_processed r = None"
    for s1 r
    unfolding sched_ok_def
  proof (intro conjI allI ballI impI)
    let ?s2 = "s1\<lparr>st_records := dset (st_records s1) dep r\<rparr>"
    have rec: "get_record ?s2 x = (if x = dep then Some r else get_record s1 x)" for x by (simp add: get_record_def)
    have specs: "st_specs ?s2 = st_specs s1" by simp
    show "dict_ok (st_records (sc_store (sc\<lparr>sc_store := ?s2\<rparr>)))" using sched_okE(1) [OF s1(1)] by simp
    show "record_ok rt dumps (sc_store (sc\<lparr>sc_store := ?s2\<rparr>)) q" if "get_record (sc_store (sc\<lparr>sc_store := ?s2\<rparr>)) x = Some q" for x q
    proof (cases "x = dep")
      case True
      then show ?thesis using that r by (simp add: rec record_ok_def valid_statuses_def)
    next
      case False
      then show ?thesis using that sched_okE(2) [OF s1(1), of x q] unfolding rec record_ok_cong [OF specs] by (simp add: rec record_ok_cong [OF specs])
    qed
    show "\<exists>q. get_record (sc_store (sc\<lparr>sc_store := ?s2\<rparr>)) x = Some q \<and> dr_status q = active_status (sc\<lparr>sc_store := ?s2\<rparr>) x
        \<and> runs_spec rt (sc_store (sc\<lparr>sc_store := ?s2\<rparr>)) x q eg" if "map_of (sc_engines (sc\<lparr>sc_store := ?s2\<rparr>)) x = Some eg" for x eg
    proof -
      from sched_okE(3) [OF s1(1), of x eg] that obtain q where q: "get_record s1 x = Some q" "dr_status q = active_status sc x" "runs_spec rt s1 x q eg"
        by (auto simp: active_status_def)
      then have "x \<noteq> dep" using s1(2) by auto
      then show ?thesis using q by (simp add: rec active_status_def runs_spec_cong [OF specs refl])
    qed
  qed (use sched_okE(4) [OF s1(1)] in simp)
  from cases consider "st' = st" | i t where "st' = save_spec i t st"
    | i t r where "get_record st dep = None" "st' = (save_spec i t st)\<lparr>st_records := dset (st_records (save_spec i t st)) dep r\<rparr>"
        "dr_status r = ''pending''" "dr_errors r = 0" "dr_last_processed r = None" by blast
  then show ?thesis
  proof cases
    case 1
    then show ?thesis using ok c by (simp add: api_create_def st_def)
  next
    case 2
    then show ?thesis using saved c by (simp add: api_create_def st_def)
  next
    case (3 i t r)
    then show ?thesis using fresh [OF saved _ 3(3-5)] c by (simp add: api_create_def st_def recs [unfolded st_def])
  qed
qed

lemma approve_ok:
  assumes ok: "sched_ok rt dumps sc"
  shows "sched_ok rt dumps (api_approve rt dumps msg get_run dep now sc)"
proof -
  define st where "st = sc_store sc"
  obtain st' res where c: "approve_deployment (rt_json rt) (rt_sha rt) dumps msg get_run dep now st = (st', res)" by force
  have eq: "api_approve rt dumps msg get_run dep now sc = sc\<lparr>sc_store := st'\<rparr>" using c by (simp add: api_approve_def st_def)
  show ?thesis
  proof (cases "st' = st")
    case True
    then show ?thesis using ok by (simp add: eq st_def)
  next
    case changed: False
    obtain r where r: "get_record st dep = Some r" "dr_status r = ''pending''"
      using c changed by (auto simp: approve_deployment_def split: option.splits if_splits)
    obtain body where body: "get_spec st (dr_spec_id r) = Some body"
      using c changed r by (auto simp: approve_deployment_def split: option.splits)
    define run_id where "run_id = (case dr_source_run_id r of None \<Rightarrow> [] | Some i \<Rightarrow> i)"
    obtain sp v where sp: "from_json (rt_json rt) (rt_sha rt) body = Inr sp"
      and v: "evaluate (rt_json rt) msg default_deploy_gate_config sp run_id (get_run run_id) = Inr v"
      using c changed r body by (auto simp: approve_deployment_def Let_def run_id_def [symmetric] split: sum.splits)
    define r' where "r' = (if gv_passed v then status_change ''approved'' [] now r else r)\<lparr>dr_gate_verdict := Some (dumps (verdict_data v))\<rparr>"
    define s1 where "s1 = (if gv_passed v then update_row dep (status_change ''approved'' [] now) st else st)"
    have st': "st' = update_gate_verdict dep (dumps (verdict_data v)) s1"
      using c r body sp v by (auto simp: approve_deployment_def Let_def run_id_def [symmetric] s1_def update_status_eq valid_statuses_def split: if_splits)
    have rec: "get_record st' = (get_record st)(dep \<mapsto> r')"
      by (rule ext) (simp add: st' s1_def record_simps r r'_def)
    have "record_ok rt dumps st r" using sched_okE(2) [OF ok] r(1) by (simp add: st_def)
    then have rok: "record_ok rt dumps st r'"
      using r(2) body sp v by (auto simp: record_ok_def r'_def valid_statuses_def approved_by_def)
    have unloaded: "map_of (sc_engines sc) dep = None"
      using sched_okE(3) [OF ok, of dep] r by (cases "map_of (sc_engines sc) dep") (auto simp: st_def active_status_def split: if_splits)
    show ?thesis unfolding eq
    proof (rule sched_ok_update [OF ok _ _ _ rok [unfolded st_def]])
      show "get_record (sc_store (sc\<lparr>sc_store := st'\<rparr>)) = (get_record (sc_store sc))(dep \<mapsto> r')" using rec by (simp add: st_def)
      show "map fst (st_records (sc_store (sc\<lparr>sc_store := st'\<rparr>))) = map fst (st_records (sc_store sc))"
        "st_specs (sc_store (sc\<lparr>sc_store := st'\<rparr>)) = st_specs (sc_store sc)"
        by (simp_all add: st' update_gate_verdict_def s1_def st_def)
      show "map_of (sc_engines (sc\<lparr>sc_store := st'\<rparr>)) dep \<noteq> None" if "dep \<in> set (sc_paused (sc\<lparr>sc_store := st'\<rparr>))"
        using that sched_okE(4) [OF ok] by simp
    qed (use unloaded in simp_all)
  qed
qed

lemma live_ok: "live rt dumps sc \<Longrightarrow> sched_ok rt dumps sc"
  by (induction rule: live.induct)
    (simp_all add: create_ok approve_ok start_ok pause_ok resume_ok stop_ok tick_ok resume_all_ok)

section \<open>Properties\<close>

text \<open>C31: The life cycle of deployments.  Whatever requests, ticks and restarts happen in whatever order: there is one
  record per deployment; a deployment that has left the state pending was approved, and the gate passed on its stored
  specification with the recorded verdict; a running or paused deployment has fewer than three consecutive errors; a
  deployment that was never started has processed no day; and an engine is loaded only for a running deployment, or for a
  paused one that is marked as paused, and runs the stored specification.\<close>

theorem lifecycle_invariant:
  assumes "live rt dumps sc"
  shows "dict_ok (st_records (sc_store sc))
    \<and> (case get_record (sc_store sc) dep of
         None \<Rightarrow> map_of (sc_engines sc) dep = None \<and> dep \<notin> set (sc_paused sc)
       | Some r \<Rightarrow> record_ok rt dumps (sc_store sc) r
           \<and> (case map_of (sc_engines sc) dep of
                None \<Rightarrow> dep \<notin> set (sc_paused sc)
              | Some eg \<Rightarrow> dr_status r = active_status sc dep \<and> runs_spec rt (sc_store sc) dep r eg))"
proof -
  note ok = sched_okE [OF live_ok [OF assms]]
  show ?thesis
  proof (cases "get_record (sc_store sc) dep")
    case None
    then have "map_of (sc_engines sc) dep = None" using ok(3) [of dep] by (cases "map_of (sc_engines sc) dep") auto
    then show ?thesis using None ok(1) ok(4) [of dep] by auto
  next
    case (Some r)
    then show ?thesis using ok(1) ok(2) [OF Some] ok(3) [of dep] ok(4) [of dep]
      by (cases "map_of (sc_engines sc) dep") auto
  qed
qed

lemma fold_tick_executed:
  assumes "fold (tick_one rt tks d markets) deps (rs, sc) = (rs', sc')" "(dep, bd) \<in> set rs'"
  shows "(dep, bd) \<in> set rs \<or> \<not> settled d markets dep sc"
  using assms
proof (induction deps arbitrary: rs sc)
  case (Cons x deps)
  obtain rs1 sc1 where one: "tick_one rt tks d markets x (rs, sc) = (rs1, sc1)" by force
  have rest: "fold (tick_one rt tks d markets) deps (rs1, sc1) = (rs', sc')" using Cons.prems(1) one by simp
  from Cons.IH [OF rest Cons.prems(2)] show ?case
  proof
    assume new: "(dep, bd) \<in> set rs1"
    from one show ?thesis by (cases rule: tick_one_cases) (use new in auto)
  next
    assume "\<not> settled d markets dep sc1"
    then show ?thesis using settled_other [OF one] by blast
  qed
qed simp

text \<open>C32: Nothing trades before the gate.  In a state that the live system can reach, a tick executes a day only for a
  deployment that is running, was approved, whose recorded verdict is that of a gate that passed on the very specification
  its engine trades, on a trading day of its calendar that is later than every day processed before.\<close>

theorem trading_needs_passed_gate:
  assumes "live rt dumps sc" and "tick rt zone_today tks d markets sc = (Inr results, sc')" and "(dep, bd) \<in> set results"
  shows "\<exists>r sp eg. get_record (sc_store sc) dep = Some r \<and> dr_status r = ''running'' \<and> dr_approved_at r \<noteq> None
    \<and> approved_by rt dumps (sc_store sc) r sp \<and> map_of (sc_engines sc) dep = Some eg \<and> eg_env eg = rt_env rt sp dep
    \<and> is_trading_day (ee_calendar (eg_env eg)) d
    \<and> (case dr_last_processed r of None \<Rightarrow> True | Some l \<Rightarrow> l < d)"
proof -
  have "fold (tick_one rt tks d markets) (dkeys (sc_engines sc)) ([], sc) = (results, sc')"
    using assms(2) by (auto simp: tick_def split: if_splits prod.splits)
  from fold_tick_executed [OF this assms(3)] have "\<not> settled d markets dep sc" by simp
  then obtain eg r where eg: "map_of (sc_engines sc) dep = Some eg" and r: "get_record (sc_store sc) dep = Some r"
    "dep \<notin> set (sc_paused sc)" "is_trading_day (ee_calendar (eg_env eg)) d"
    "case dr_last_processed r of None \<Rightarrow> True | Some l \<Rightarrow> l < d"
    by (auto simp: settled_def skips_def get_last_processed_date_def get_record_def not_le split: option.splits)
  note ok = sched_okE [OF live_ok [OF assms(1)]]
  from ok(3) [OF eg] r have run: "dr_status r = ''running''" "runs_spec rt (sc_store sc) dep r eg" by (auto simp: active_status_def)
  from ok(2) [OF r(1)] run(1) obtain sp where sp: "dr_approved_at r \<noteq> None" "approved_by rt dumps (sc_store sc) r sp"
    by (auto simp: record_ok_def)
  then have "eg_env eg = rt_env rt sp dep" using run(2) by (auto simp: runs_spec_def approved_by_def)
  then show ?thesis using eg r run sp by blast
qed

text \<open>A deployment that is created, approved and started, with no market data.\<close>

fun load_live :: "string \<Rightarrow> json res" where
  "load_live [] = Inr (JObj [(''strategy_name'', JStr ''TopN''), (''strategy_params'', JObj []),
     (''symbols'', JList (map (\<lambda>s. JStr s) [''A'', ''B'', ''C'', ''D'', ''E''])), (''market'', JStr ''cn_stock''), (''freq'', JStr ''weekly''),
     (''optimizer_params'', JObj []), (''risk_params'', JObj [])])"
| "load_live (c # s) = Inr (JList (replicate 504 JNull))"

definition live_text :: json_text where
  "live_text = \<lparr>jt_dumps = (\<lambda>x. []), jt_loads = load_live\<rparr>"

definition live_runtime :: "unit runtime" where
  "live_runtime = sample_runtime\<lparr>rt_json := live_text, rt_sha := (\<lambda>s. ''s''), rt_env := (\<lambda>sp dep. sample_env\<lparr>ee_spec := sp, ee_kline := (\<lambda>s m a b. Inl ValueError)\<rparr>)\<rparr>"

definition live_run :: payload where
  "live_run = [(''metrics'', JObj [(''sharpe_ratio'', JFloat (6 / 5)), (''max_drawdown'', JFloat (- 1 / 10)), (''trade_count'', JInt 40)]),
     (''wf_metrics'', JObj [(''p_value'', JFloat (1 / 100)), (''overfitting_score'', JFloat (1 / 5))]), (''dates'', JStr ''t''),
     (''rebalance_weights'', JList [JObj [(''A'', JFloat (1 / 10))]]), (''config'', JObj [(''market'', JStr ''cn_stock''), (''freq'', JStr ''weekly'')]), (''strategy_name'', JStr ''TopN''),
     (''symbols'', JList (map (\<lambda>s. JStr s) [''A'', ''B'', ''C'', ''D'', ''E'']))]"

definition live_created :: "unit scheduler" where
  "live_created = api_create live_runtime (\<lambda>i. Some live_run) ''d'' [] ''r'' ''n'' 1 new_scheduler"

definition live_approved :: "unit scheduler" where
  "live_approved = api_approve live_runtime (\<lambda>j. ''verdict'') (\<lambda>r v. r) (\<lambda>i. Some live_run) ''d'' 2 live_created"

definition live_started :: "unit scheduler" where
  "live_started = snd (start_deployment live_runtime 3 ''d'' live_approved)"

lemma live_started_live: "live live_runtime (\<lambda>j. ''verdict'') live_started"
  unfolding live_started_def live_approved_def live_created_def by (intro live.starts live.approves live.creates live.begins)

definition standing :: "unit scheduler \<Rightarrow> (string \<times> string) list \<times> string list" where
  "standing sc = (map (\<lambda>(dep, r). (dep, dr_status r)) (st_records (sc_store sc)), map fst (sc_engines sc))"

lemma live_started_loaded: "standing live_started = ([(''d'', ''running'')], [''d''])"
  by code_simp

theorem lifecycle_invariant_witness:
  "\<exists>r eg. get_record (sc_store live_started) ''d'' = Some r \<and> dr_status r = ''running''
     \<and> record_ok live_runtime (\<lambda>j. ''verdict'') (sc_store live_started) r \<and> map_of (sc_engines live_started) ''d'' = Some eg
     \<and> runs_spec live_runtime (sc_store live_started) ''d'' r eg"
proof -
  obtain r where r: "get_record (sc_store live_started) ''d'' = Some r" "dr_status r = ''running''"
    using live_started_loaded by (auto simp: standing_def get_record_def map_eq_Cons_conv)
  obtain eg where eg: "map_of (sc_engines live_started) ''d'' = Some eg"
    using live_started_loaded by (auto simp: standing_def map_eq_Cons_conv)
  show ?thesis using lifecycle_invariant [OF live_started_live, of "''d''"] r eg by auto
qed

lemma live_ticks:
  "map_sum id (map fst) (fst (tick live_runtime (\<lambda>z. Date 1 3 3) sample_readings (Date 1 3 3) None live_started)) = Inr [''d'']"
  by code_simp

theorem trading_needs_passed_gate_witness:
  "\<exists>r sp. get_record (sc_store live_started) ''d'' = Some r \<and> dr_status r = ''running''
     \<and> approved_by live_runtime (\<lambda>j. ''verdict'') (sc_store live_started) r sp"
proof -
  obtain res sc' where t: "tick live_runtime (\<lambda>z. Date 1 3 3) sample_readings (Date 1 3 3) None live_started = (res, sc')" by force
  with live_ticks obtain results where res: "res = Inr results" "map fst results = [''d'']" by (cases res) auto
  then obtain bd where "(''d'', bd) \<in> set results" by (auto simp: map_eq_Cons_conv)
  from trading_needs_passed_gate [OF live_started_live t [unfolded res] this] show ?thesis by blast
qed

end
