(* ===== verification/Run_Deployment.thy ===== *)
theory Run_Deployment
  imports Deployment_Api Scheduler
begin

text \<open>
  What a deployment inherits from the backtest run it is made from: the trading rules arrive, the drawdown limits
  of the risk manager do not.  The stored configuration is that of \<open>ez/api/routes/portfolio.py\<close>, the backtest's own risk
  manager that of \<open>ez/api/_portfolio_helpers.py\<close>.
\<close>

definition backtest_risk_manager :: "run_request \<Rightarrow> risk_manager option" where
  "backtest_risk_manager q = (if rq_risk_control q
     then Some (new_risk_manager \<lparr>rc_max_drawdown_threshold = rq_max_drawdown q, rc_drawdown_reduce_ratio = rq_drawdown_reduce q,
       rc_drawdown_recovery_ratio = rq_drawdown_recovery q, rc_max_turnover = rq_max_turnover q\<rparr>)
     else None)"

lemma run_config_get [simp]:
  "jget (run_config h q) ''market'' v = JStr (rq_market q)" "jget (run_config h q) ''freq'' v = JStr (rq_freq q)"
  "jget (run_config h q) ''risk_params'' JNull = JNull" "jget (run_config h q) ''optimizer_params'' JNull = JNull"
  "jget (run_config h q) ''broker_type'' v = v" "jget (run_config h q) ''shadow_broker_type'' v = v"
  "jget (run_config h q) ''t_plus_1'' v = v" "jget (run_config h q) ''price_limit_pct'' v = v"
  "jget (run_config h q) ''optimizer'' v = v" "jget (run_config h q) ''risk_control'' v = v"
  "jget (run_config h q) ''rebal_weekday'' v = (case rq_rebal_weekday q of None \<Rightarrow> JNull | Some n \<Rightarrow> JInt n)"
  "bucket (run_config h q) ''_cost'' = cost_bucket q" "bucket (run_config h q) ''_optimizer'' = optimizer_bucket q"
  "bucket (run_config h q) ''_risk'' = risk_bucket q"
  by (simp_all add: jget_def dget_or_def run_config_def bucket_def)

lemma buckets_field [simp]:
  "field_or c (cost_bucket q) ''lot_size'' a b = JInt (rq_lot_size q)"
  "field_or c (cost_bucket q) ''limit_pct'' a b = JFloat (rq_limit_pct q)"
  "field_or c (cost_bucket q) ''buy_commission_rate'' a b = JFloat (rq_buy_commission_rate q)"
  "field_or c (cost_bucket q) ''sell_commission_rate'' a b = JFloat (rq_sell_commission_rate q)"
  "field_or c (cost_bucket q) ''stamp_tax_rate'' a b = JFloat (rq_stamp_tax_rate q)"
  "field_or c (cost_bucket q) ''slippage_rate'' a b = JFloat (rq_slippage_rate q)"
  "field_or c (cost_bucket q) ''min_commission'' a b = JFloat (rq_min_commission q)"
  "field_or c (optimizer_bucket q) ''kind'' a b = JStr (rq_optimizer q)"
  "field_or c (risk_bucket q) ''enabled'' a b = JBool (rq_risk_control q)"
  "field_or (run_config h q) (run_config h q) ''t_plus_1'' JNull b = b"
  by (simp_all add: field_or_def cost_bucket_def optimizer_bucket_def risk_bucket_def) (simp_all add: jget_def dget_or_def)

text \<open>The arguments that the specification is built from.\<close>

lemma built_from_run:
  assumes "run_field L run ''config'' (JObj []) = Inr (JObj (run_config h q))" and "build_spec_from_run L sha run = Inr sp"
  obtains a where "new_spec L sha a = Inr sp" "sa_market a = rq_market q" "sa_freq a = rq_freq q" "sa_lot_size a = JInt (rq_lot_size q)"
    "sa_price_limit_pct a = JFloat (rq_limit_pct q)" "sa_buy_commission_rate a = JFloat (rq_buy_commission_rate q)"
    "sa_sell_commission_rate a = JFloat (rq_sell_commission_rate q)" "sa_stamp_tax_rate a = JFloat (rq_stamp_tax_rate q)"
    "sa_slippage_rate a = JFloat (rq_slippage_rate q)" "sa_min_commission a = JFloat (rq_min_commission q)"
    "sa_t_plus_1 a = JBool (rq_market q = ''cn_stock'')" "sa_optimizer a = rq_optimizer q" "sa_risk_control a = JBool (rq_risk_control q)"
    "sa_rebal_weekday a = (case rq_rebal_weekday q of None \<Rightarrow> JNull | Some n \<Rightarrow> JInt n)" "sa_broker_type a = ''paper''"
    "sa_shadow_broker_type a = []" "sa_risk_params a = JObj (risk_bucket q)"
proof -
  have cfg: "api_of (rbind (run_field L run ''config'' (JObj [])) dict_res) = Inr (run_config h q)"
    using assms(1) by (simp add: api_of_def dict_res_def)
  have ne: "risk_bucket q \<noteq> []" "optimizer_bucket q \<noteq> []" by (simp_all add: risk_bucket_def optimizer_bucket_def)
  obtain params symbs where "api_of (rbind (spec_args_of_run run params symbs (run_config h q) (cost_bucket q)
      (or_legacy JNull (optimizer_bucket q)) (or_legacy JNull (risk_bucket q))) (new_spec L sha)) = Inr sp"
    using assms(2) cfg by (auto simp: build_spec_from_run_def Let_def split: if_splits)
  then obtain a where a: "spec_args_of_run run params symbs (run_config h q) (cost_bucket q) (optimizer_bucket q) (risk_bucket q) = Inr a"
    "new_spec L sha a = Inr sp"
    by (auto simp: api_of_def or_legacy_def split: sum.splits)
  show thesis by (rule that [of a]) (use a ne in \<open>auto simp: spec_args_of_run_def Let_def float_json_def int_json_def py_or_def split: if_splits\<close>)
qed

text \<open>C33: A deployment trades under the rules of its backtest.  For a run stored with its request, the specification that is
  built from it has the request's market, frequency, rebalance weekday, lot size, price limit, commissions, stamp tax,
  slippage, minimum commission, optimizer and risk switch, trades on the paper broker, and has the T+1 rule exactly on
  the mainland market; a run of another market without A-share costs never yields a specification that the scheduler refuses.\<close>

theorem deployed_run_keeps_rules:
  assumes "run_field L run ''config'' (JObj []) = Inr (JObj (run_config h q))" and "build_spec_from_run L sha run = Inr sp"
  shows "sp_market sp = rq_market q \<and> sp_freq sp = rq_freq q \<and> sp_rebal_weekday sp = rq_rebal_weekday q
    \<and> sp_lot_size sp = rq_lot_size q \<and> sp_price_limit_pct sp = rq_limit_pct q
    \<and> spec_costs sp = \<lparr>buy_commission_rate = rq_buy_commission_rate q, sell_commission_rate = rq_sell_commission_rate q,
         min_commission = rq_min_commission q, stamp_tax_rate = rq_stamp_tax_rate q, slippage_rate = rq_slippage_rate q\<rparr>
    \<and> sp_optimizer sp = rq_optimizer q \<and> sp_risk_control sp = rq_risk_control q \<and> paper_only sp
    \<and> (sp_t_plus_1 sp \<longleftrightarrow> rq_market q = ''cn_stock'')
    \<and> (rq_market q \<noteq> ''cn_stock'' \<and> rq_lot_size q \<le> 1 \<and> rq_limit_pct q \<le> 0 \<and> rq_stamp_tax_rate q \<le> 0
         \<longrightarrow> historical_non_cn_market_rule_mismatches sp = [])"
proof -
  obtain a where a: "new_spec L sha a = Inr sp" "sa_market a = rq_market q" "sa_freq a = rq_freq q" "sa_lot_size a = JInt (rq_lot_size q)"
    "sa_price_limit_pct a = JFloat (rq_limit_pct q)" "sa_buy_commission_rate a = JFloat (rq_buy_commission_rate q)"
    "sa_sell_commission_rate a = JFloat (rq_sell_commission_rate q)" "sa_stamp_tax_rate a = JFloat (rq_stamp_tax_rate q)"
    "sa_slippage_rate a = JFloat (rq_slippage_rate q)" "sa_min_commission a = JFloat (rq_min_commission q)"
    "sa_t_plus_1 a = JBool (rq_market q = ''cn_stock'')" "sa_optimizer a = rq_optimizer q" "sa_risk_control a = JBool (rq_risk_control q)"
    "sa_rebal_weekday a = (case rq_rebal_weekday q of None \<Rightarrow> JNull | Some n \<Rightarrow> JInt n)" "sa_broker_type a = ''paper''"
    "sa_shadow_broker_type a = []"
    by (rule built_from_run [OF assms])
  have "sp_market sp = rq_market q \<and> sp_freq sp = rq_freq q \<and> sp_rebal_weekday sp = rq_rebal_weekday q
    \<and> sp_lot_size sp = rq_lot_size q \<and> sp_price_limit_pct sp = rq_limit_pct q \<and> sp_buy_commission_rate sp = rq_buy_commission_rate q
    \<and> sp_sell_commission_rate sp = rq_sell_commission_rate q \<and> sp_min_commission sp = rq_min_commission q
    \<and> sp_stamp_tax_rate sp = rq_stamp_tax_rate q \<and> sp_slippage_rate sp = rq_slippage_rate q
    \<and> sp_optimizer sp = rq_optimizer q \<and> sp_risk_control sp = rq_risk_control q \<and> sp_broker_type sp = ''paper''
    \<and> sp_shadow_broker_type sp = [] \<and> (sp_t_plus_1 sp \<longleftrightarrow> rq_market q = ''cn_stock'')"
    using a by (auto simp: new_spec_def Let_def str_default_def split: option.splits)
  then show ?thesis by (auto simp: spec_costs_def paper_only_def historical_non_cn_market_rule_mismatches_def)
qed

text \<open>C34: A deployment does not inherit the drawdown limits of its backtest.  The run stores them under the keys
  \<open>max_drawdown\<close>, \<open>drawdown_reduce\<close> and \<open>drawdown_recovery\<close>, the scheduler reads others: whatever the request asks
  for, the engine's risk manager has the default limits of 20, 50 and 10 percent and only the turnover limit of the
  request, while the backtest's has the limits of the request.\<close>

theorem deployed_drawdown_limits_ignored:
  assumes "run_field L run ''config'' (JObj []) = Inr (JObj (run_config h q))" and "build_spec_from_run L sha run = Inr sp"
    and "rq_risk_control q" and "reads_back L (JObj (risk_bucket q))" and "rt_strategy rt sp = Inr strategy" and "rt_json rt = L"
  shows "map_sum id snd (instantiate rt sp)
      = Inr (Some (new_risk_manager (default_risk_manager_config\<lparr>rc_max_turnover := rq_max_turnover q\<rparr>)))
    \<and> map_option (\<lambda>m. rc_max_drawdown_threshold (rm_config m)) (backtest_risk_manager q) = Some (rq_max_drawdown q)"
proof -
  obtain a where a: "new_spec L sha a = Inr sp" "sa_risk_params a = JObj (risk_bucket q)" "sa_risk_control a = JBool (rq_risk_control q)"
    by (rule built_from_run [OF assms(1,2)])
  have "py_or (JObj (risk_bucket q)) (JObj []) = JObj (risk_bucket q)" by (simp add: py_or_def risk_bucket_def)
  then have body: "sp_risk_params_json sp = canonical_text L (JObj (risk_bucket q))" and on: "sp_risk_control sp"
    using a assms(3) by (auto simp: new_spec_def Let_def)
  have flat: "sort_json (JObj (risk_bucket q)) = JObj (sort_key fst (risk_bucket q))"
    by (rule flat_sort) (simp add: risk_bucket_def)
  have get: "jget (sort_key fst (risk_bucket q)) k v = jget (risk_bucket q) k v" for k v
    by (simp add: jget_def dget_or_def map_of_sort_key risk_bucket_def)
  have "create_risk_manager L sp = Inr (new_risk_manager (default_risk_manager_config\<lparr>rc_max_turnover := rq_max_turnover q\<rparr>))"
    using assms(4) unfolding create_risk_manager_def risk_params_def body reads_back_def flat
    by (simp add: get del: rbind_Inr_iff)
      (simp add: risk_bucket_def jget_def dget_or_def default_risk_manager_config_def del: rbind_Inr_iff)
  then show ?thesis using on assms by (simp add: instantiate_def backtest_risk_manager_def) (simp add: new_risk_manager_def)
qed

definition us_request :: run_request where
  "us_request = \<lparr>rq_market = ''us_stock'', rq_freq = ''weekly'', rq_rebal_weekday = Some 2, rq_buy_commission_rate = 0,
     rq_sell_commission_rate = 0, rq_min_commission = 1, rq_stamp_tax_rate = 0, rq_slippage_rate = 1 / 1000, rq_lot_size = 1,
     rq_limit_pct = 0, rq_benchmark_symbol = [], rq_optimizer = ''none'', rq_risk_aversion = 1, rq_max_weight = 1 / 10,
     rq_max_industry_weight = 3 / 10, rq_cov_lookback = 60, rq_risk_control = True, rq_max_drawdown = 5 / 100,
     rq_drawdown_reduce = 1 / 4, rq_drawdown_recovery = 1 / 50, rq_max_turnover = 3 / 10, rq_index_benchmark = [],
     rq_max_tracking_error = 5 / 100\<rparr>"

definition us_run :: payload where
  "us_run = [(''strategy_name'', JStr ''TopN''), (''symbols'', JList [JStr ''SPY'', JStr ''QQQ'']), (''config'', JObj (run_config JNull us_request))]"

definition us_text :: json_text where
  "us_text = \<lparr>jt_dumps = (\<lambda>x. []), jt_loads = (\<lambda>s. Inr (sort_json (JObj (risk_bucket us_request))))\<rparr>"

definition sample_us :: "json_text \<Rightarrow> unit runtime" where
  "sample_us L = \<lparr>rt_json = L, rt_sha = (\<lambda>s. ''id''), rt_env = (\<lambda>sp dep. undefined), rt_strategy = (\<lambda>sp. Inr ()),
     rt_pickle = (\<lambda>u. None), rt_unpickle = (\<lambda>s. None), rt_class = (\<lambda>u. []), rt_schema_version = (\<lambda>u. None),
     rt_dunder_version = (\<lambda>u. None), rt_error_text = (\<lambda>e. []), rt_stop_reason = (\<lambda>n e. []), rt_restore_reason = []\<rparr>"

lemma us_run_config: "run_field L us_run ''config'' (JObj []) = Inr (JObj (run_config JNull us_request))"
  by (simp add: run_field_def us_run_def jget_def dget_or_def py_or_def run_config_def)

lemma us_run_built: "\<not> isl (build_spec_from_run us_text (\<lambda>s. ''id'') us_run)"
  by code_simp

theorem deployed_run_keeps_rules_witness:
  "\<exists>sp. build_spec_from_run us_text (\<lambda>s. ''id'') us_run = Inr sp \<and> sp_market sp = ''us_stock'' \<and> \<not> sp_t_plus_1 sp
     \<and> sp_rebal_weekday sp = Some 2 \<and> historical_non_cn_market_rule_mismatches sp = []"
proof -
  obtain sp where sp: "build_spec_from_run us_text (\<lambda>s. ''id'') us_run = Inr sp"
    using us_run_built by (cases "build_spec_from_run us_text (\<lambda>s. ''id'') us_run") simp_all
  from deployed_run_keeps_rules [OF us_run_config sp] sp show ?thesis by (simp add: us_request_def)
qed

theorem deployed_drawdown_limits_ignored_witness:
  "\<exists>sp. build_spec_from_run us_text (\<lambda>s. ''id'') us_run = Inr sp
     \<and> map_sum id (map_option (\<lambda>m. rc_max_drawdown_threshold (rm_config m)) \<circ> snd) (instantiate (sample_us us_text) sp) = Inr (Some (1 / 5))
     \<and> map_option (\<lambda>m. rc_max_drawdown_threshold (rm_config m)) (backtest_risk_manager us_request) = Some (1 / 20)"
proof -
  obtain sp where sp: "build_spec_from_run us_text (\<lambda>s. ''id'') us_run = Inr sp"
    using us_run_built by (cases "build_spec_from_run us_text (\<lambda>s. ''id'') us_run") simp_all
  have c: "rq_risk_control us_request" "reads_back us_text (JObj (risk_bucket us_request))"
    by (simp_all add: us_request_def reads_back_def us_text_def)
  from deployed_drawdown_limits_ignored [OF us_run_config sp c, of "sample_us us_text" "()"]
  show ?thesis using sp
    by (cases "instantiate (sample_us us_text) sp")
      (simp_all add: sample_us_def us_request_def new_risk_manager_def default_risk_manager_config_def)
qed

end
