(* ===== verification/Portfolio_Data.thy ===== *)
theory Portfolio_Data
  imports Trading_Calendar
begin

text \<open>
  What a portfolio backtest reads: the price frames and the universe (\<open>ez/portfolio/universe.py\<close>), and the weight
  allocators (\<open>ez/portfolio/allocator.py\<close>).  A cell of a frame is a number or NaN (\<open>None\<close>); infinite cells are
  outside the model.
\<close>

section \<open>Frames\<close>

record frame_row =
  fw_date :: date
  fw_open :: "flt option"
  fw_high :: "flt option"
  fw_low :: "flt option"
  fw_close :: "flt option"
  fw_adj_close :: "flt option"
  fw_volume :: "flt option"

text \<open>A frame may lack the columns \<open>adj_close\<close> and \<open>open\<close>.\<close>

record price_frame =
  fr_has_adj :: bool
  fr_has_open :: bool
  fr_rows :: "frame_row list"

type_synonym frames = "(string, price_frame) dict"
type_synonym weights = "(string, flt) dict"

definition slice_rows :: "date \<Rightarrow> int \<Rightarrow> frame_row list \<Rightarrow> frame_row list" where
  "slice_rows target lookback rows =
     (let past = filter (\<lambda>r. fw_date r < target) rows in
      if lookback < int (length past)
      then drop (if 0 < lookback then length past - nat lookback else nat (- lookback)) past else past)"

definition slice_universe_data :: "frames \<Rightarrow> date \<Rightarrow> int \<Rightarrow> frames" where
  "slice_universe_data data target lookback =
     filter (\<lambda>(s, f). fr_rows f \<noteq> [])
       (map (\<lambda>(s, f). (s, f\<lparr>fr_rows := slice_rows target lookback (fr_rows f)\<rparr>)) data)"

section \<open>The universe\<close>

record universe =
  un_symbols :: "string list"
  un_ipo_min_days :: int
  un_delist_dates :: "(string, date) dict"
  un_ipo_dates :: "(string, date) dict"

text \<open>\<open>list(dict.fromkeys(symbols))\<close> keeps the first occurrences.\<close>

definition first_occurrences :: "'a list \<Rightarrow> 'a list" where
  "first_occurrences xs = rev (remdups (rev xs))"

definition new_universe :: "string list \<Rightarrow> int \<Rightarrow> (string, date) dict \<Rightarrow> (string, date) dict \<Rightarrow> universe" where
  "new_universe symbs ipo_min delist ipo = \<lparr>un_symbols = first_occurrences symbs, un_ipo_min_days = ipo_min,
     un_delist_dates = delist, un_ipo_dates = ipo\<rparr>"

definition listed_at :: "universe \<Rightarrow> date \<Rightarrow> string \<Rightarrow> bool" where
  "listed_at u d s \<longleftrightarrow>
     (case map_of (un_delist_dates u) s of Some x \<Rightarrow> d \<le> x | None \<Rightarrow> True)
     \<and> (case map_of (un_ipo_dates u) s of Some x \<Rightarrow> un_ipo_min_days u \<le> to_ordinal d - to_ordinal x | None \<Rightarrow> True)"

definition tradeable_at :: "universe \<Rightarrow> date \<Rightarrow> string list" where
  "tradeable_at u d = filter (listed_at u d) (un_symbols u)"

section \<open>Allocators\<close>

datatype allocator =
    Equal_Weight
  | Max_Weight flt
  | Risk_Parity "(string, flt) dict"

definition equal_weight_allocate :: "weights \<Rightarrow> weights" where
  "equal_weight_allocate raw = (let selected = filter (\<lambda>(k, v). 0 < v) raw in
     map (\<lambda>(k, v). (k, 1 / of_nat (length selected))) selected)"

definition alloc_dust :: flt where
  "alloc_dust = 1 / 10 ^ 10"

text \<open>One pass of the clipping loop; the caller stops at no excess.\<close>

definition clip_excess :: "flt \<Rightarrow> weights \<Rightarrow> flt" where
  "clip_excess cap w = sum_list (map (\<lambda>(k, v). if cap < v then v - cap else 0) w)"

definition clip_under :: "flt \<Rightarrow> weights \<Rightarrow> flt" where
  "clip_under cap w = sum_list (map (\<lambda>(k, v). if cap < v then 0 else v) w)"

definition clip_pass :: "flt \<Rightarrow> weights \<Rightarrow> weights" where
  "clip_pass cap w = map (\<lambda>(k, v). (k, if cap < v then cap
     else if 0 < clip_under cap w then v + clip_excess cap w * (v / clip_under cap w) else v)) w"

definition clipped :: "flt \<Rightarrow> weights \<Rightarrow> weights" where
  "clipped cap w = map (\<lambda>(k, v). (k, min v cap)) w"

fun clip_loop :: "nat \<Rightarrow> flt \<Rightarrow> weights \<Rightarrow> weights" where
  "clip_loop 0 cap w = w"
| "clip_loop (Suc n) cap w =
     (if clip_excess cap w \<le> alloc_dust \<or> \<not> list_ex (\<lambda>(k, v). v \<le> cap) w then clipped cap w
      else clip_loop n cap (clip_pass cap w))"

definition max_weight_allocate :: "flt \<Rightarrow> weights \<Rightarrow> weights" where
  "max_weight_allocate cap raw =
     (let w = map (\<lambda>(k, v). (k, max 0 v)) raw; tot = sum_list (dvals w) in
      if raw = [] \<or> tot \<le> 0 then []
      else filter (\<lambda>(k, v). alloc_dust < v) (clip_loop 10 cap (map (\<lambda>(k, v). (k, v / tot)) w)))"

text \<open>The selected symbols form a set; they are listed in the order of the request.\<close>

definition risk_parity_allocate :: "(string, flt) dict \<Rightarrow> weights \<Rightarrow> weights" where
  "risk_parity_allocate vols raw =
     (let inv = map (\<lambda>(s, v). (s, 1 / max (dget_or vols s (1 / 5)) (1 / 10 ^ 8))) (filter (\<lambda>(k, v). 0 < v) raw);
          tot = sum_list (dvals inv)
      in if inv = [] \<or> tot \<le> 0 then [] else map (\<lambda>(k, v). (k, v / tot)) inv)"

fun allocate_weights :: "allocator \<Rightarrow> weights \<Rightarrow> weights" where
  "allocate_weights Equal_Weight raw = equal_weight_allocate raw"
| "allocate_weights (Max_Weight cap) raw = max_weight_allocate cap raw"
| "allocate_weights (Risk_Parity vols) raw = risk_parity_allocate vols raw"

section \<open>The contract of the allocators\<close>

lemma sum_list_const [simp]: "sum_list (map (\<lambda>x. c :: flt) xs) = of_nat (length xs) * c"
  by (induction xs) (simp_all add: algebra_simps)

lemma equal_weight_sum: "sum_list (dvals (equal_weight_allocate raw)) \<le> 1"
  by (cases "length (filter (\<lambda>x. 0 < snd x) raw) = 0") (simp_all add: equal_weight_allocate_def Let_def comp_def case_prod_beta')

lemma clip_pass_sum:
  "sum_list (dvals (clip_pass cap w)) = sum_list (dvals w) - (if 0 < clip_under cap w then 0 else clip_excess cap w)"
proof -
  have 1: "sum_list (dvals w) = clip_under cap w + clip_excess cap w + sum_list (map (\<lambda>(k, v). if cap < v then cap else 0) w)"
    unfolding clip_under_def clip_excess_def by (induction w) (auto simp: algebra_simps)
  have 2: "sum_list (map (\<lambda>(k, v). if cap < v then cap else v + e * (v / u)) w)
      = sum_list (map (\<lambda>(k, v). if cap < v then cap else 0) w) + clip_under cap w + e * (clip_under cap w / u)" for e u :: flt
    unfolding clip_under_def by (induction w) (auto simp: algebra_simps add_divide_distrib)
  have 3: "sum_list (map (\<lambda>(k, v). if cap < v then cap else v) w)
      = sum_list (map (\<lambda>(k, v). if cap < v then cap else 0) w) + clip_under cap w"
    unfolding clip_under_def by (induction w) (auto simp: algebra_simps)
  show ?thesis
  proof (cases "0 < clip_under cap w")
    case True
    then have "clip_pass cap w = map (\<lambda>(k, v). (k, if cap < v then cap else v + clip_excess cap w * (v / clip_under cap w))) w"
      by (auto simp: clip_pass_def)
    then show ?thesis using 1 2 [of "clip_excess cap w" "clip_under cap w"] True by (simp add: comp_def case_prod_beta')
  next
    case False
    then have "clip_pass cap w = map (\<lambda>(k, v). (k, if cap < v then cap else v)) w" by (auto simp: clip_pass_def)
    then show ?thesis using 1 3 False by (simp add: comp_def case_prod_beta')
  qed
qed

definition long_only_weights :: "weights \<Rightarrow> bool" where
  "long_only_weights w \<longleftrightarrow> (\<forall>v \<in> set (dvals w). 0 \<le> v)"

lemma clip_excess_nonneg: "0 \<le> clip_excess cap w"
  unfolding clip_excess_def by (rule sum_list_nonneg) (auto split: prod.splits)

lemma clip_pass_long: "long_only_weights w \<Longrightarrow> 0 \<le> cap \<Longrightarrow> long_only_weights (clip_pass cap w)"
  using clip_excess_nonneg [of cap w] by (auto simp: long_only_weights_def clip_pass_def)

lemma clipped_long: "long_only_weights w \<Longrightarrow> 0 \<le> cap \<Longrightarrow> long_only_weights (clipped cap w) \<and> sum_list (dvals (clipped cap w)) \<le> sum_list (dvals w)"
  by (auto simp: long_only_weights_def clipped_def comp_def case_prod_beta' intro!: sum_list_mono)

lemma clip_loop_contract:
  "long_only_weights w \<Longrightarrow> 0 \<le> cap \<Longrightarrow> long_only_weights (clip_loop n cap w) \<and> sum_list (dvals (clip_loop n cap w)) \<le> sum_list (dvals w)
    \<and> dkeys (clip_loop n cap w) = dkeys w"
proof (induction n arbitrary: w)
  case (Suc n)
  have "sum_list (dvals (clip_pass cap w)) \<le> sum_list (dvals w)" using clip_excess_nonneg [of cap w] by (simp add: clip_pass_sum)
  then show ?case using Suc.IH [OF clip_pass_long [OF Suc.prems] Suc.prems(2)] clipped_long [OF Suc.prems]
    by (auto simp: clip_pass_def clipped_def comp_def case_prod_beta')
qed simp

lemma sum_filter_weights_le: "long_only_weights w \<Longrightarrow> sum_list (dvals (filter P w)) \<le> sum_list (dvals w)"
  by (induction w) (auto simp: long_only_weights_def add_increasing)

lemma normalized_sum:
  fixes w :: weights
  assumes "0 < sum_list (dvals w)"
  shows "sum_list (dvals (map (\<lambda>(k, v). (k, v / sum_list (dvals w))) w)) = 1"
proof -
  have "sum_list (dvals (map (\<lambda>(k, v). (k, v / t)) w)) = sum_list (dvals w) / t" for t :: flt
    by (induction w) (auto simp: add_divide_distrib)
  then show ?thesis using assms by simp
qed

lemma max_weight_contract:
  assumes "0 \<le> cap"
  shows "long_only_weights (max_weight_allocate cap raw) \<and> sum_list (dvals (max_weight_allocate cap raw)) \<le> 1
    \<and> set (dkeys (max_weight_allocate cap raw)) \<subseteq> set (dkeys raw)"
proof -
  define w where "w = map (\<lambda>(k, v). (k, max 0 v)) (raw :: weights)"
  define u where "u = map (\<lambda>(k, v). (k, v / sum_list (dvals w))) w"
  show ?thesis
  proof (cases "raw = [] \<or> sum_list (dvals w) \<le> 0")
    case False
    have "long_only_weights w" by (auto simp: long_only_weights_def w_def)
    then have u: "long_only_weights u" "sum_list (dvals u) = 1" "dkeys u = dkeys raw"
      using False normalized_sum [of w] by (auto simp: long_only_weights_def u_def w_def comp_def case_prod_beta')
    have "max_weight_allocate cap raw = filter (\<lambda>(k, v). alloc_dust < v) (clip_loop 10 cap u)"
      unfolding max_weight_allocate_def Let_def w_def [symmetric] u_def [symmetric] using False by simp
    moreover define l where "l = clip_loop 10 cap u"
    ultimately have m: "max_weight_allocate cap raw = filter (\<lambda>(k, v). alloc_dust < v) l" by simp
    have l: "long_only_weights l" "sum_list (dvals l) \<le> 1" "dkeys l = dkeys raw"
      using clip_loop_contract [OF u(1) assms, of 10] u by (simp_all add: l_def)
    have "long_only_weights (filter P l)" "set (dkeys (filter P l)) \<subseteq> set (dkeys l)" for P using l(1) by (auto simp: long_only_weights_def)
    then show ?thesis using l sum_filter_weights_le [OF l(1)] unfolding m by (metis order_trans)
  qed (auto simp: max_weight_allocate_def w_def long_only_weights_def)
qed

lemma risk_parity_contract:
  "long_only_weights (risk_parity_allocate vols raw) \<and> sum_list (dvals (risk_parity_allocate vols raw)) \<le> 1
    \<and> set (dkeys (risk_parity_allocate vols raw)) \<subseteq> set (dkeys raw)"
proof -
  define inv where "inv = map (\<lambda>(s, v). (s, 1 / max (dget_or vols s (1 / 5)) (1 / 10 ^ 8))) (filter (\<lambda>(k, v). 0 < v) (raw :: weights))"
  show ?thesis
  proof (cases "inv = [] \<or> sum_list (dvals inv) \<le> 0")
    case False
    have "long_only_weights inv" by (auto simp: long_only_weights_def inv_def le_max_iff_disj)
    moreover have "set (dkeys inv) \<subseteq> set (dkeys raw)" by (force simp: inv_def)
    moreover have "risk_parity_allocate vols raw = map (\<lambda>(k, v). (k, v / sum_list (dvals inv))) inv"
      using False by (simp add: risk_parity_allocate_def inv_def Let_def)
    ultimately show ?thesis using False normalized_sum [of inv] by (force simp: long_only_weights_def)
  qed (auto simp: risk_parity_allocate_def inv_def Let_def long_only_weights_def)
qed
text \<open>Whatever the strategy asks for, an allocator returns non-negative weights of requested symbols that add up to at
  most one.\<close>

lemma allocator_contract:
  assumes "\<And>cap. a = Max_Weight cap \<Longrightarrow> 0 \<le> cap"
  shows "long_only_weights (allocate_weights a raw)" "sum_list (dvals (allocate_weights a raw)) \<le> 1"
    "set (dkeys (allocate_weights a raw)) \<subseteq> set (dkeys raw)"
proof -
  have "long_only_weights (equal_weight_allocate raw)" "set (dkeys (equal_weight_allocate raw)) \<subseteq> set (dkeys raw)"
    by (force simp: equal_weight_allocate_def long_only_weights_def Let_def)+
  note eq = this
  have "long_only_weights (allocate_weights a raw) \<and> sum_list (dvals (allocate_weights a raw)) \<le> 1
      \<and> set (dkeys (allocate_weights a raw)) \<subseteq> set (dkeys raw)"
  proof (cases a)
    case Equal_Weight
    then show ?thesis using eq equal_weight_sum by simp
  next
    case (Max_Weight cap)
    show ?thesis using max_weight_contract [OF assms [OF Max_Weight], of raw] unfolding Max_Weight allocate_weights.simps .
  next
    case (Risk_Parity vols)
    show ?thesis unfolding Risk_Parity allocate_weights.simps by (rule risk_parity_contract)
  qed
  then show "long_only_weights (allocate_weights a raw)" "sum_list (dvals (allocate_weights a raw)) \<le> 1"
    "set (dkeys (allocate_weights a raw)) \<subseteq> set (dkeys raw)" by blast+
qed

end
