(* ===== verification/Portfolio_Engine.thy ===== *)
theory Portfolio_Engine
  imports Portfolio_Data Execution Risk_Manager
begin

text \<open>
  \<open>ez/portfolio/engine.py\<close>: the portfolio backtest, day by day.  The strategy is a state machine given as a parameter,
  the optimizer a function of the day and the frames it is given; the calendar, the trade execution, the circuit breaker
  and the turnover limit are the modelled ones.
\<close>

section \<open>Prices\<close>

record price_row =
  pw_date :: date
  pw_adj :: "flt option"
  pw_raw :: "flt option"
  pw_open :: "flt option"

type_synonym tables = "(string, price_row list) dict"

definition price_row_of :: "price_frame \<Rightarrow> frame_row \<Rightarrow> price_row" where
  "price_row_of f r = \<lparr>pw_date = fw_date r, pw_adj = (if fr_has_adj f then fw_adj_close r else fw_close r),
     pw_raw = fw_close r, pw_open = (if fr_has_open f then fw_open r else fw_close r)\<rparr>"

definition price_table :: "price_frame \<Rightarrow> price_row list" where
  "price_table f = sort_key pw_date (map (price_row_of f) (fr_rows f))"

definition price_tables :: "frames \<Rightarrow> tables" where
  "price_tables data = map (\<lambda>(s, f). (s, price_table f)) data"

text \<open>The rows up to the index that \<open>bisect_right\<close> and \<open>bisect_left\<close> find in a sorted table.\<close>

definition row_until :: "date \<Rightarrow> price_row list \<Rightarrow> price_row option" where
  "row_until d rows = (let xs = takeWhile (\<lambda>r. pw_date r \<le> d) rows in if xs = [] then None else Some (last xs))"

definition row_before :: "date \<Rightarrow> price_row list \<Rightarrow> price_row option" where
  "row_before d rows = (let xs = takeWhile (\<lambda>r. pw_date r < d) rows in if xs = [] then None else Some (last xs))"

definition adj_or_raw :: "price_row \<Rightarrow> flt option" where
  "adj_or_raw r = (case pw_adj r of Some x \<Rightarrow> Some x | None \<Rightarrow> pw_raw r)"

text \<open>One entry per symbol of a table that has a value.\<close>

definition table_values :: "(string \<Rightarrow> price_row list \<Rightarrow> flt option) \<Rightarrow> tables \<Rightarrow> (string, flt) dict" where
  "table_values f tabs = List.map_filter (\<lambda>(s, rows). map_option (Pair s) (f s rows)) tabs"

definition price_on :: "date \<Rightarrow> (string, flt) dict \<Rightarrow> string \<Rightarrow> price_row list \<Rightarrow> flt option" where
  "price_on d prev_prices s rows = (case Option.bind (row_until d rows) adj_or_raw of
     Some x \<Rightarrow> Some x | None \<Rightarrow> map_of prev_prices s)"

definition raw_on :: "date \<Rightarrow> price_row list \<Rightarrow> flt option" where
  "raw_on d rows = Option.bind (row_until d rows) pw_raw"

definition has_date :: "date \<Rightarrow> price_row list \<Rightarrow> bool" where
  "has_date d rows = list_ex (\<lambda>r. pw_date r = d) rows"

text \<open>The adjusted opening price of the day.\<close>

definition open_on :: "date \<Rightarrow> price_row list \<Rightarrow> flt option" where
  "open_on d rows = (if \<not> has_date d rows then None else case row_until d rows of
     None \<Rightarrow> None
   | Some r \<Rightarrow> (case (pw_open r, pw_raw r, pw_adj r) of
       (None, _, _) \<Rightarrow> None
     | (Some op, Some raw, Some adj) \<Rightarrow> Some (if 0 < raw then op * (adj / raw) else op)
     | (Some op, _, _) \<Rightarrow> Some op))"

record day_view =
  dv_prices :: "(string, flt) dict"
  dv_raw_close :: "(string, flt) dict"
  dv_has_bar :: "string list"
  dv_exec :: "(string, flt) dict"

text \<open>The symbols form a set; they are listed in the order of the tables.\<close>

definition day_view_of :: "bool \<Rightarrow> tables \<Rightarrow> string list \<Rightarrow> (string, flt) dict \<Rightarrow> date \<Rightarrow> day_view" where
  "day_view_of use_open tabs symbs prev_prices d =
     (let quoted = filter (\<lambda>(s, rows). s \<in> set symbs) tabs in
      \<lparr>dv_prices = table_values (price_on d prev_prices) quoted,
       dv_raw_close = table_values (\<lambda>s. raw_on d) quoted,
       dv_has_bar = map fst (filter (\<lambda>(s, rows). has_date d rows \<and> raw_on d rows \<noteq> None) quoted),
       dv_exec = (if use_open then table_values (\<lambda>s. open_on d) quoted else [])\<rparr>)"

section \<open>State and environment\<close>

record portfolio_trade =
  pt_date :: date
  pt_symbol :: string
  pt_side :: string
  pt_shares :: int
  pt_price :: flt
  pt_cost :: flt
  pt_liquidation :: bool

datatype backtest_event =
    Risk_Event risk_note
  | Realized_Turnover (ev_turnover: flt) (ev_limit: flt)

record 's book =
  bk_cash :: flt
  bk_holdings :: "(string, int) dict"
  bk_prev_weights :: weights
  bk_prev_returns :: "(string, flt) dict"
  bk_prev_prices :: "(string, flt) dict"
  bk_prev_raw_close :: "(string, flt) dict"
  bk_strategy :: 's
  bk_risk_manager :: "risk_manager option"
  bk_equity_curve :: "flt list"
  bk_dates :: "date list"
  bk_weights_history :: "weights list"
  bk_trades :: "portfolio_trade list"
  bk_rebalance_dates :: "date list"
  bk_rebalance_weights :: "weights list"
  bk_risk_events :: "(date \<times> backtest_event) list"

record 's backtest_env =
  be_data :: frames
  be_universe :: universe
  be_calendar :: calendar
  be_freq :: string
  be_rebal_weekday :: "int option"
  be_initial_cash :: flt
  be_costs :: cost_model
  be_lot_size :: int
  be_limit_pct :: flt
  be_t_plus_1 :: bool
  be_use_open_price :: bool
  be_skip_terminal_liquidation :: bool
  be_strict_lookback :: bool
  be_benchmark_symbol :: string
  be_kernel :: "kernel option"
  be_lookback_days :: "'s \<Rightarrow> int"
  be_warmup_periods :: "'s \<Rightarrow> int list"
  be_generate_weights :: "'s \<Rightarrow> frames \<Rightarrow> date \<Rightarrow> weights \<Rightarrow> (string, flt) dict \<Rightarrow> (weights option \<times> 's) res"
  be_optimize :: "(date \<Rightarrow> frames \<Rightarrow> weights \<Rightarrow> weights res) option"
  be_allocator :: "allocator option"

text \<open>A lookback shorter than the longest warm-up of a factor raises in strict mode (and is logged otherwise).\<close>

definition check_lookback :: "'s backtest_env \<Rightarrow> 's \<Rightarrow> unit res" where
  "check_lookback env strategy =
     (let warmups = filter (\<lambda>w. w \<noteq> 0) (be_warmup_periods env strategy) in
      if warmups \<noteq> [] \<and> be_lookback_days env strategy < Max (set warmups) \<and> be_strict_lookback env
      then Inl ValueError else Inr ())"

definition new_book :: "'s backtest_env \<Rightarrow> 's \<Rightarrow> risk_manager option \<Rightarrow> (string, flt) dict \<Rightarrow> (string, flt) dict \<Rightarrow> 's book" where
  "new_book env strategy rm prices raw = \<lparr>bk_cash = be_initial_cash env, bk_holdings = [], bk_prev_weights = [],
     bk_prev_returns = [], bk_prev_prices = prices, bk_prev_raw_close = raw, bk_strategy = strategy,
     bk_risk_manager = rm, bk_equity_curve = [], bk_dates = [], bk_weights_history = [], bk_trades = [],
     bk_rebalance_dates = [], bk_rebalance_weights = [], bk_risk_events = []\<rparr>"

definition initial_book :: "'s backtest_env \<Rightarrow> tables \<Rightarrow> date list \<Rightarrow> 's \<Rightarrow> risk_manager option \<Rightarrow> 's book" where
  "initial_book env tabs days strategy rm = (case days of
     [] \<Rightarrow> new_book env strategy rm [] []
   | d # _ \<Rightarrow> new_book env strategy rm
       (table_values (\<lambda>s rows. Option.bind (row_before d rows) adj_or_raw) tabs)
       (table_values (\<lambda>s rows. Option.bind (row_before d rows) pw_raw) tabs))"

section \<open>Valuation\<close>

definition position_value :: "(string, int) dict \<Rightarrow> (string, flt) dict \<Rightarrow> flt" where
  "position_value hs prices = sum_list (map (\<lambda>(s, n). of_int n * dget_or prices s 0) hs)"

definition equity_of :: "(string, flt) dict \<Rightarrow> 's book \<Rightarrow> flt" where
  "equity_of prices b = bk_cash b + position_value (bk_holdings b) prices"

definition held_weights :: "(string, int) dict \<Rightarrow> (string, flt) dict \<Rightarrow> flt \<Rightarrow> weights" where
  "held_weights hs prices equity =
     List.map_filter (\<lambda>(s, n). map_option (\<lambda>p. (s, of_int n * p / equity)) (map_of prices s)) hs"

definition daily_weights :: "(string, int) dict \<Rightarrow> (string, flt) dict \<Rightarrow> flt \<Rightarrow> weights" where
  "daily_weights hs prices equity = List.map_filter (\<lambda>(s, n). case map_of prices s of
     Some p \<Rightarrow> if 0 < n \<and> 0 < p then Some (s, of_int n * p / equity) else None | None \<Rightarrow> None) hs"

definition daily_returns :: "(string, int) dict \<Rightarrow> (string, flt) dict \<Rightarrow> (string, flt) dict \<Rightarrow> (string, flt) dict" where
  "daily_returns hs prices prev_prices = List.map_filter (\<lambda>(s, n). case (map_of prices s, map_of prev_prices s) of
     (Some p, Some old) \<Rightarrow> if 0 < old then Some (s, (p - old) / old) else None | _ \<Rightarrow> None) hs"

section \<open>The daily drawdown check\<close>

definition at_limit_down :: "flt \<Rightarrow> (string, flt) dict \<Rightarrow> (string, flt) dict \<Rightarrow> string \<Rightarrow> bool" where
  "at_limit_down limit raw prev_raw s \<longleftrightarrow> 0 < limit \<and> (case (map_of raw s, map_of prev_raw s) of
     (Some rc, Some prev) \<Rightarrow> (if 0 < prev then (rc - prev) / prev else 0) \<le> - limit + 1 / 1000000
   | _ \<Rightarrow> False)"

definition sale :: "cost_model \<Rightarrow> date \<Rightarrow> string \<Rightarrow> int \<Rightarrow> flt \<Rightarrow> bool \<Rightarrow> portfolio_trade \<times> flt" where
  "sale cm d s n p liq =
     (let price = p * (1 - slippage_rate cm); amount = of_int n * price;
          comm = compute_commission amount (sell_commission_rate cm) (min_commission cm);
          stamp = amount * stamp_tax_rate cm
      in (\<lparr>pt_date = d, pt_symbol = s, pt_side = ''sell'', pt_shares = n, pt_price = price, pt_cost = comm + stamp,
           pt_liquidation = liq\<rparr>, amount - comm - stamp))"

definition emergency_sale_leg :: "'s backtest_env \<Rightarrow> day_view \<Rightarrow> date \<Rightarrow> flt \<Rightarrow> string \<Rightarrow> 's book \<Rightarrow> 's book res" where
  "emergency_sale_leg env view d scale s b =
     (let held = dget_or (bk_holdings b) s 0 in
      rbind (lot_round (of_int held * scale) (be_lot_size env)) (\<lambda>target.
        case map_of (dv_prices view) s of
          None \<Rightarrow> Inr b
        | Some p \<Rightarrow>
            if held \<le> target \<or> s \<notin> set (dv_has_bar view)
              \<or> at_limit_down (be_limit_pct env) (dv_raw_close view) (bk_prev_raw_close b) s then Inr b
            else let (t, proceeds) = sale (be_costs env) d s (held - target) p False in
              Inr (b\<lparr>bk_cash := bk_cash b + proceeds,
                bk_holdings := (if target = 0 then dpop (bk_holdings b) s else dset (bk_holdings b) s target),
                bk_trades := bk_trades b @ [t]\<rparr>)))"

definition reweigh_book :: "(string, flt) dict \<Rightarrow> 's book \<Rightarrow> 's book" where
  "reweigh_book prices b = (if 0 < equity_of prices b
     then b\<lparr>bk_prev_weights := held_weights (bk_holdings b) prices (equity_of prices b)\<rparr> else b)"

definition emergency_sale :: "'s backtest_env \<Rightarrow> day_view \<Rightarrow> date \<Rightarrow> flt \<Rightarrow> 's book \<Rightarrow> 's book res" where
  "emergency_sale env view d scale b =
     rbind (rfold (emergency_sale_leg env view d scale) (dkeys (bk_holdings b)) b) (\<lambda>b1. Inr (reweigh_book (dv_prices view) b1))"

definition drawdown_step :: "'s backtest_env \<Rightarrow> day_view \<Rightarrow> date \<Rightarrow> bool \<Rightarrow> 's book \<Rightarrow> (flt \<times> 's book) res" where
  "drawdown_step env view d rebalancing b = (case bk_risk_manager b of
     None \<Rightarrow> Inr (1, b)
   | Some m \<Rightarrow> (case check_drawdown (equity_of (dv_prices view) b) m of ((scale, nt), m') \<Rightarrow>
       let b1 = b\<lparr>bk_risk_manager := Some m', bk_risk_events := bk_risk_events b @ map (\<lambda>n. (d, Risk_Event n)) (case nt of None \<Rightarrow> [] | Some n \<Rightarrow> [n])\<rparr>
       in if scale < 1 \<and> nt \<noteq> None \<and> \<not> rebalancing
          then rbind (emergency_sale env view d scale b1) (\<lambda>b2. Inr (scale, b2))
          else Inr (scale, b1)))"

section \<open>The rebalance_book\<close>

definition visible_frames :: "'s backtest_env \<Rightarrow> date \<Rightarrow> 's book \<Rightarrow> frames" where
  "visible_frames env d b = filter (\<lambda>(s, f). s \<in> set (tradeable_at (be_universe env) d))
     (slice_universe_data (be_data env) d (be_lookback_days env (bk_strategy b)))"

definition propose :: "'s backtest_env \<Rightarrow> date \<Rightarrow> 's book \<Rightarrow> (weights option \<times> 's) res" where
  "propose env d b = be_generate_weights env (bk_strategy b) (visible_frames env d b) d (bk_prev_weights b) (bk_prev_returns b)"

definition shape_proposal :: "'s backtest_env \<Rightarrow> date \<Rightarrow> frames \<Rightarrow> weights \<Rightarrow> weights res" where
  "shape_proposal env d visible raw = (case be_optimize env of
     Some f \<Rightarrow> f d visible raw
   | None \<Rightarrow> Inr (case be_allocator env of Some a \<Rightarrow> allocate_weights a raw | None \<Rightarrow> raw))"

definition clip_weights :: "weights \<Rightarrow> weights" where
  "clip_weights raw = (let ws = map (\<lambda>(k, v). (k, max 0 v)) (filter (\<lambda>(k, v). 0 < v) raw); tot = sum_list (dvals ws)
     in if 1 < tot then map (\<lambda>(k, v). (k, v / tot)) ws else ws)"

definition limit_turnover :: "date \<Rightarrow> weights \<Rightarrow> 's book \<Rightarrow> weights \<times> 's book" where
  "limit_turnover d ws b = (case bk_risk_manager b of
     None \<Rightarrow> (ws, b)
   | Some m \<Rightarrow> (case check_turnover ws (bk_prev_weights b) m of (ws', nt) \<Rightarrow>
       (ws', b\<lparr>bk_risk_events := bk_risk_events b @ map (\<lambda>n. (d, Risk_Event n)) (case nt of None \<Rightarrow> [] | Some n \<Rightarrow> [n])\<rparr>)))"

definition trade_of :: "date \<Rightarrow> trade_result \<Rightarrow> portfolio_trade" where
  "trade_of d t = \<lparr>pt_date = d, pt_symbol = tr_symbol t, pt_side = tr_side t, pt_shares = tr_shares t, pt_price = tr_price t,
     pt_cost = tr_cost t, pt_liquidation = False\<rparr>"

definition traded :: "string \<Rightarrow> trade_result list \<Rightarrow> flt" where
  "traded side ts = sum_list (map (\<lambda>t. of_int (tr_shares t) * tr_price t) (filter (\<lambda>t. tr_side t = side) ts))"

definition turnover_events :: "date \<Rightarrow> flt \<Rightarrow> trade_result list \<Rightarrow> risk_manager option \<Rightarrow> (date \<times> backtest_event) list" where
  "turnover_events d pre_trade_equity ts rm = (case rm of
     None \<Rightarrow> []
   | Some m \<Rightarrow> let realized = max (traded ''buy'' ts) (traded ''sell'' ts) / pre_trade_equity; limit = rc_max_turnover (rm_config m)
       in if 0 < pre_trade_equity \<and> limit + 1 / 1000000 < realized then [(d, Realized_Turnover realized limit)] else [])"

definition exec_inputs_of :: "'s backtest_env \<Rightarrow> day_view \<Rightarrow> 's book \<Rightarrow> exec_inputs" where
  "exec_inputs_of env view b = \<lparr>xi_equity = equity_of (dv_prices view) b,
     xi_prices = (if be_use_open_price env \<and> dv_exec view \<noteq> [] then dv_exec view else dv_prices view),
     xi_raw_close = dv_raw_close view, xi_prev_raw_close = bk_prev_raw_close b, xi_has_bar = dv_has_bar view,
     xi_costs = be_costs env, xi_lot_size = be_lot_size env, xi_limit_pct = be_limit_pct env, xi_t_plus_1 = be_t_plus_1 env\<rparr>"

definition rebalance_book :: "'s backtest_env \<Rightarrow> day_view \<Rightarrow> date \<Rightarrow> flt \<Rightarrow> weights \<Rightarrow> 's book \<Rightarrow> 's book res" where
  "rebalance_book env view d scale raw b =
     rbind (shape_proposal env d (visible_frames env d b) raw) (\<lambda>shaped.
     case limit_turnover d shaped b of (limited, b1) \<Rightarrow>
       let ws = clip_weights (if scale < 1 then map (\<lambda>(s, w). (s, w * scale)) limited else limited);
           pre = equity_of (dv_prices view) b1
       in rbind (execute_portfolio_trades (be_kernel env) (exec_inputs_of env view b1) ws (bk_holdings b1) (bk_cash b1) []) (\<lambda>st.
         let b2 = b1\<lparr>bk_cash := xs_cash st, bk_holdings := xs_holdings st,
               bk_trades := bk_trades b1 @ map (trade_of d) (xs_trades st),
               bk_risk_events := bk_risk_events b1 @ turnover_events d pre (xs_trades st) (bk_risk_manager b1),
               bk_rebalance_dates := bk_rebalance_dates b1 @ [d], bk_rebalance_weights := bk_rebalance_weights b1 @ [ws]\<rparr>
         in Inr (reweigh_book (dv_prices view) (b2\<lparr>bk_prev_weights := []\<rparr>))))"

section \<open>The day\<close>

text \<open>The books of the day are checked and recorded.\<close>

definition close_backtest_day :: "day_view \<Rightarrow> date \<Rightarrow> 's book \<Rightarrow> 's book res" where
  "close_backtest_day view d b =
     (let prices = dv_prices view; equity = equity_of prices b in
      if bk_cash b < - eps_fund \<or> equity \<le> 0 then Inl AccountingError
      else Inr (b\<lparr>bk_prev_returns := daily_returns (bk_holdings b) prices (bk_prev_prices b),
        bk_equity_curve := bk_equity_curve b @ [equity], bk_dates := bk_dates b @ [d],
        bk_weights_history := bk_weights_history b @ [daily_weights (bk_holdings b) prices equity],
        bk_prev_prices := prices, bk_prev_raw_close := dv_raw_close view\<rparr>))"

definition decide_day :: "'s backtest_env \<Rightarrow> day_view \<Rightarrow> date \<Rightarrow> flt \<Rightarrow> 's book \<Rightarrow> 's book res" where
  "decide_day env view d scale b = rbind (propose env d b) (\<lambda>(raw, strategy).
     case raw of
       None \<Rightarrow> Inr (reweigh_book (dv_prices view) (b\<lparr>bk_strategy := strategy\<rparr>))
     | Some ws \<Rightarrow> rebalance_book env view d scale ws (b\<lparr>bk_strategy := strategy\<rparr>))"

definition backtest_day :: "'s backtest_env \<Rightarrow> tables \<Rightarrow> date list \<Rightarrow> date \<Rightarrow> 's book \<Rightarrow> 's book res" where
  "backtest_day env tabs rebal_dates d b =
     (let view = day_view_of (be_use_open_price env) tabs (dkeys (bk_holdings b) @ tradeable_at (be_universe env) d) (bk_prev_prices b) d
      in rbind (drawdown_step env view d (d \<in> set rebal_dates) b) (\<lambda>(scale, b1).
         rbind (if d \<in> set rebal_dates then decide_day env view d scale b1 else Inr b1) (close_backtest_day view d)))"

section \<open>The run\<close>

definition liquidation_leg :: "'s backtest_env \<Rightarrow> date \<Rightarrow> string \<times> int \<Rightarrow> 's book \<Rightarrow> 's book" where
  "liquidation_leg env d sn b = (case sn of (s, n) \<Rightarrow>
     if n \<le> 0 then b else case map_of (bk_prev_prices b) s of
       None \<Rightarrow> b
     | Some p \<Rightarrow> let (t, proceeds) = sale (be_costs env) d s n p True in
         b\<lparr>bk_cash := bk_cash b + proceeds, bk_trades := bk_trades b @ [t]\<rparr>)"

text \<open>The terminal liquidation: on the day after the last one, at the last prices; a holding without a price is dropped.\<close>

definition liquidate_all :: "'s backtest_env \<Rightarrow> date list \<Rightarrow> 's book \<Rightarrow> 's book res" where
  "liquidate_all env days b =
     (if bk_holdings b = [] \<or> bk_prev_prices b = [] \<or> days = [] \<or> be_skip_terminal_liquidation env then Inr b
      else let d = add_days (last days) 1;
               b1 = fold (liquidation_leg env d) (bk_holdings b) b;
               b2 = b1\<lparr>bk_holdings := []\<rparr>
           in if length (bk_trades b1) = length (bk_trades b) then Inr b2
              else if bk_cash b2 < - eps_fund then Inl AccountingError
              else Inr (b2\<lparr>bk_equity_curve := bk_equity_curve b2 @ [bk_cash b2], bk_dates := bk_dates b2 @ [d],
                bk_weights_history := bk_weights_history b2 @ [[]]\<rparr>))"

text \<open>Buy and hold of the benchmark; a frame without rows raises an index error.\<close>

definition bench_price :: "price_row list \<Rightarrow> date \<Rightarrow> flt" where
  "bench_price rows d = (case adj_or_raw (case row_until d rows of Some r \<Rightarrow> r | None \<Rightarrow> hd rows) of Some p \<Rightarrow> p | None \<Rightarrow> 0)"

definition benchmark_curve :: "'s backtest_env \<Rightarrow> tables \<Rightarrow> date list \<Rightarrow> flt list res" where
  "benchmark_curve env tabs dates =
     (let flat = replicate (length dates) (be_initial_cash env) in
      case (be_benchmark_symbol env \<noteq> [] \<and> dates \<noteq> [], map_of tabs (be_benchmark_symbol env)) of
        (True, Some rows) \<Rightarrow>
          if rows = [] then Inl NotModelled
          else let first_price = bench_price rows (hd dates) in
            if 0 < first_price
            then Inr (fold (\<lambda>d curve. let p = bench_price rows d in curve @ [if 0 < p then be_initial_cash env * p / first_price
                   else if curve = [] then be_initial_cash env else last curve]) dates [])
            else Inr flat
      | _ \<Rightarrow> Inr flat)"

definition run_days :: "'s backtest_env \<Rightarrow> date list \<Rightarrow> date list \<Rightarrow> 's book \<Rightarrow> 's book res" where
  "run_days env rebal_dates days b = rfold (backtest_day env (price_tables (be_data env)) rebal_dates) days b"

definition run_portfolio_backtest :: "'s backtest_env \<Rightarrow> date \<Rightarrow> date \<Rightarrow> 's \<Rightarrow> risk_manager option \<Rightarrow> ('s book \<times> flt list) res" where
  "run_portfolio_backtest env start_day end_day strategy rm =
     rbind (check_lookback env strategy) (\<lambda>_.
     let days = trading_days_between (be_calendar env) start_day end_day; tabs = price_tables (be_data env) in
     rbind (rebalance_dates (be_calendar env) start_day end_day (be_freq env) (be_rebal_weekday env)) (\<lambda>rebal_days.
     rbind (run_days env rebal_days days (initial_book env tabs days strategy rm)) (\<lambda>b.
     rbind (liquidate_all env days b) (\<lambda>b1.
     rbind (benchmark_curve env tabs (bk_dates b1)) (\<lambda>bench. Inr (b1, bench))))))"

end
