(* ===== verification/Portfolio_Accounts.thy ===== *)
theory Portfolio_Accounts
  imports Portfolio_Engine
begin

text \<open>
  The books of the portfolio backtest: every change of the money and of the positions is a recorded trade, and with
  sound costs the account is never overdrawn, short or leveraged.
\<close>

section \<open>Trades as flows\<close>

definition trade_money :: "portfolio_trade \<Rightarrow> flt" where
  "trade_money t = (if pt_side t = ''buy'' then - (of_int (pt_shares t) * pt_price t + pt_cost t)
     else of_int (pt_shares t) * pt_price t - pt_cost t)"

definition trade_units :: "string \<Rightarrow> portfolio_trade \<Rightarrow> int" where
  "trade_units s t = (if pt_symbol t \<noteq> s then 0 else if pt_side t = ''buy'' then pt_shares t else - pt_shares t)"

definition money_of :: "portfolio_trade list \<Rightarrow> flt" where
  "money_of ts = sum_list (map trade_money ts)"

definition units_of :: "string \<Rightarrow> portfolio_trade list \<Rightarrow> int" where
  "units_of s ts = sum_list (map (trade_units s) ts)"

lemma flows_append [simp]:
  "money_of (xs @ ys) = money_of xs + money_of ys" "units_of s (xs @ ys) = units_of s xs + units_of s ys"
  "money_of [] = 0" "units_of s [] = 0" "money_of [t] = trade_money t" "units_of s [t] = trade_units s t"
  by (simp_all add: money_of_def units_of_def)

lemma sale_flows:
  assumes "sale cm d s n p liq = (t, proceeds)"
  shows "trade_money t = proceeds" "trade_units u t = (if u = s then - n else 0)" "pt_liquidation t = liq" "pt_side t = ''sell''"
  using assms by (auto simp: sale_def Let_def trade_money_def trade_units_def algebra_simps)

definition accounted :: "flt \<Rightarrow> 's book \<Rightarrow> bool" where
  "accounted init b \<longleftrightarrow> bk_cash b = init + money_of (bk_trades b) \<and> (\<forall>s. dget_or (bk_holdings b) s 0 = units_of s (bk_trades b))"

text \<open>What is untouched between the opening and the close of a day.\<close>

definition same_records :: "'s book \<Rightarrow> 's book \<Rightarrow> bool" where
  "same_records b b' \<longleftrightarrow> bk_equity_curve b' = bk_equity_curve b \<and> bk_dates b' = bk_dates b
     \<and> bk_weights_history b' = bk_weights_history b \<and> bk_prev_prices b' = bk_prev_prices b
     \<and> bk_prev_raw_close b' = bk_prev_raw_close b"

lemma same_records_refl [simp]: "same_records b b"
  by (simp add: same_records_def)

lemma same_records_trans: "same_records a b \<Longrightarrow> same_records b c \<Longrightarrow> same_records a c"
  by (simp add: same_records_def)

lemma reweigh_frame [simp]:
  "bk_cash (reweigh_book p b) = bk_cash b" "bk_holdings (reweigh_book p b) = bk_holdings b" "bk_trades (reweigh_book p b) = bk_trades b"
  "same_records b (reweigh_book p b)" "bk_risk_manager (reweigh_book p b) = bk_risk_manager b"
  by (simp_all add: reweigh_book_def same_records_def)

lemma emergency_leg_cases:
  assumes "emergency_sale_leg env view d scale s b = Inr b'"
  obtains (keep) "b' = b"
  | (sell) target p t proceeds where "lot_round (of_int (dget_or (bk_holdings b) s 0) * scale) (be_lot_size env) = Inr target"
      "target < dget_or (bk_holdings b) s 0" "map_of (dv_prices view) s = Some p" "s \<in> set (dv_has_bar view)"
      "\<not> at_limit_down (be_limit_pct env) (dv_raw_close view) (bk_prev_raw_close b) s"
      "sale (be_costs env) d s (dget_or (bk_holdings b) s 0 - target) p False = (t, proceeds)"
      "b' = b\<lparr>bk_cash := bk_cash b + proceeds,
         bk_holdings := (if target = 0 then dpop (bk_holdings b) s else dset (bk_holdings b) s target), bk_trades := bk_trades b @ [t]\<rparr>"
proof -
  obtain target where l: "lot_round (of_int (dget_or (bk_holdings b) s 0) * scale) (be_lot_size env) = Inr target"
    using assms by (auto simp: emergency_sale_leg_def Let_def)
  show thesis
  proof (cases "\<exists>p. map_of (dv_prices view) s = Some p \<and> target < dget_or (bk_holdings b) s 0 \<and> s \<in> set (dv_has_bar view)
      \<and> \<not> at_limit_down (be_limit_pct env) (dv_raw_close view) (bk_prev_raw_close b) s")
    case True
    then obtain p where p: "map_of (dv_prices view) s = Some p" "target < dget_or (bk_holdings b) s 0" "s \<in> set (dv_has_bar view)"
      "\<not> at_limit_down (be_limit_pct env) (dv_raw_close view) (bk_prev_raw_close b) s" by blast
    obtain t proceeds where sl: "sale (be_costs env) d s (dget_or (bk_holdings b) s 0 - target) p False = (t, proceeds)"
      by (metis surj_pair)
    show thesis by (rule sell [OF l p(2) p(1) p(3,4) sl]) (use assms l p sl in \<open>simp add: emergency_sale_leg_def Let_def\<close>)
  next
    case False
    then show thesis using assms l keep by (auto simp: emergency_sale_leg_def Let_def split: option.splits if_splits)
  qed
qed

lemma emergency_leg_books:
  assumes "emergency_sale_leg env view d scale s b = Inr b'"
  shows "accounted init b \<Longrightarrow> accounted init b'" "same_records b b'"
  using assms by (cases rule: emergency_leg_cases; auto simp: accounted_def same_records_def dict_simps sale_flows)+

lemma emergency_sale_books:
  assumes "emergency_sale env view d scale b = Inr b'"
  shows "accounted init b \<longrightarrow> accounted init b'" "same_records b b'"
proof -
  obtain b1 where run: "rfold (emergency_sale_leg env view d scale) (dkeys (bk_holdings b)) b = Inr b1"
    and b': "b' = reweigh_book (dv_prices view) b1"
    using assms by (auto simp: emergency_sale_def)
  have "(accounted init b \<longrightarrow> accounted init b1) \<and> same_records b b1"
    by (rule rfold_invariant [OF run]) (auto dest: emergency_leg_books intro: same_records_trans)
  then show "accounted init b \<longrightarrow> accounted init b'" "same_records b b'"
    using same_records_trans [of b b1 b'] by (auto simp: b' accounted_def)
qed

lemma drawdown_step_cases:
  assumes "drawdown_step env view d reb b = Inr (scale, b')"
  obtains (none) "bk_risk_manager b = None" "scale = 1" "b' = b"
  | (checked) m m' nt es where "bk_risk_manager b = Some m" "check_drawdown (equity_of (dv_prices view) b) m = ((scale, nt), m')"
      "b' = b\<lparr>bk_risk_manager := Some m', bk_risk_events := es\<rparr>"
  | (breached) m m' nt es where "bk_risk_manager b = Some m" "check_drawdown (equity_of (dv_prices view) b) m = ((scale, nt), m')"
      "scale < 1" "emergency_sale env view d scale (b\<lparr>bk_risk_manager := Some m', bk_risk_events := es\<rparr>) = Inr b'"
proof (cases "bk_risk_manager b")
  case None
  have "scale = 1" "b' = b" using assms unfolding drawdown_step_def None by simp_all
  then show thesis by (rule none [OF None])
next
  case (Some m)
  obtain sc nt m' where c: "check_drawdown (equity_of (dv_prices view) b) m = ((sc, nt), m')" by (metis surj_pair)
  define es where "es = bk_risk_events b @ map (\<lambda>n. (d, Risk_Event n)) (case nt of None \<Rightarrow> [] | Some n \<Rightarrow> [n])"
  have step: "drawdown_step env view d reb b = (if sc < 1 \<and> nt \<noteq> None \<and> \<not> reb
      then rbind (emergency_sale env view d sc (b\<lparr>bk_risk_manager := Some m', bk_risk_events := es\<rparr>)) (\<lambda>b2. Inr (sc, b2))
      else Inr (sc, b\<lparr>bk_risk_manager := Some m', bk_risk_events := es\<rparr>))"
    unfolding drawdown_step_def Let_def Some option.case c prod.case es_def ..
  show thesis
  proof (cases "sc < 1 \<and> nt \<noteq> None \<and> \<not> reb")
    case True
    have "sc = scale \<and> emergency_sale env view d sc (b\<lparr>bk_risk_manager := Some m', bk_risk_events := es\<rparr>) = Inr b'"
      using assms unfolding step if_P [OF True] rbind_Inr_iff by blast
    then show thesis using c True breached [OF Some] by blast
  next
    case False
    have "sc = scale \<and> b' = b\<lparr>bk_risk_manager := Some m', bk_risk_events := es\<rparr>"
      using assms unfolding step if_not_P [OF False] by blast
    then show thesis using c checked [OF Some] by blast
  qed
qed

lemma drawdown_step_books:
  assumes "drawdown_step env view d reb b = Inr (scale, b')"
  shows "accounted init b \<longrightarrow> accounted init b'" "same_records b b'"
proof -
  have frame: "accounted init (b\<lparr>bk_risk_manager := m, bk_risk_events := e\<rparr>) = accounted init b"
    "same_records b (b\<lparr>bk_risk_manager := m, bk_risk_events := e\<rparr>)" for m e
    by (simp_all add: accounted_def same_records_def)
  from assms have "(accounted init b \<longrightarrow> accounted init b') \<and> same_records b b'"
  proof (cases rule: drawdown_step_cases)
    case (breached m m' nt es)
    from emergency_sale_books [OF this(4)] frame same_records_trans show ?thesis by blast
  qed (use frame in simp_all)
  then show "accounted init b \<longrightarrow> accounted init b'" "same_records b b'" by blast+
qed

lemma trade_of_flows:
  assumes "\<forall>t \<in> set ts. trade_ok inp t"
  shows "money_of (map (trade_of d) ts) = sum_list (map cash_flow ts)" "units_of s (map (trade_of d) ts) = flow_of s ts"
  using assms
  by (induction ts) (auto simp: money_of_def units_of_def trade_money_def trade_units_def trade_of_def cash_flow_def flow_of_def
      share_flow_def trade_ok_def)

definition python_path :: "'s backtest_env \<Rightarrow> bool" where
  "python_path env \<longleftrightarrow> be_kernel env = None \<or> 0 < be_limit_pct env"

lemma rebalance_cases:
  assumes "rebalance_book env view d scale raw b = Inr b'" and "python_path env"
  obtains ws b1 st where "execute_python (exec_inputs_of env view b1) ws (bk_holdings b) (bk_cash b) [] = Inr st"
    "\<And>k v. (k, v) \<in> set ws \<Longrightarrow> 0 \<le> v"
    "bk_cash b1 = bk_cash b" "bk_holdings b1 = bk_holdings b" "bk_prev_raw_close b1 = bk_prev_raw_close b"
    "bk_cash b' = xs_cash st" "bk_holdings b' = xs_holdings st" "bk_trades b' = bk_trades b @ map (trade_of d) (xs_trades st)"
    "bk_risk_manager b' = bk_risk_manager b" "same_records b b'"
proof -
  obtain shaped where sh: "shape_proposal env d (visible_frames env d b) raw = Inr shaped"
    using assms(1) by (auto simp: rebalance_book_def)
  obtain limited b1 where lim: "limit_turnover d shaped b = (limited, b1)" by (metis surj_pair)
  define ws where "ws = clip_weights (if scale < 1 then map (\<lambda>(s, w). (s, w * scale)) limited else limited)"
  obtain st where st: "execute_python (exec_inputs_of env view b1) ws (bk_holdings b1) (bk_cash b1) [] = Inr st"
    and b': "b' = reweigh_book (dv_prices view) (b1\<lparr>bk_cash := xs_cash st, bk_holdings := xs_holdings st,
        bk_trades := bk_trades b1 @ map (trade_of d) (xs_trades st),
        bk_risk_events := bk_risk_events b1 @ turnover_events d (equity_of (dv_prices view) b1) (xs_trades st) (bk_risk_manager b1),
        bk_rebalance_dates := bk_rebalance_dates b1 @ [d], bk_rebalance_weights := bk_rebalance_weights b1 @ [ws], bk_prev_weights := []\<rparr>)"
    using assms sh lim execute_without_kernel [of "be_kernel env" "exec_inputs_of env view b1"]
    by (auto simp: rebalance_book_def Let_def ws_def python_path_def exec_inputs_of_def)
  have b1: "bk_cash b1 = bk_cash b" "bk_holdings b1 = bk_holdings b" "bk_trades b1 = bk_trades b" "bk_risk_manager b1 = bk_risk_manager b"
    "bk_prev_raw_close b1 = bk_prev_raw_close b" "same_records b b1"
    using lim by (auto simp: limit_turnover_def same_records_def split: option.splits prod.splits)
  have "0 \<le> v" if "(k, v) \<in> set ws" for k v
    using that by (auto simp: ws_def clip_weights_def Let_def split: if_splits)
  moreover have "same_records b b'" using b1(6) unfolding b' by (simp add: same_records_def reweigh_book_def)
  ultimately show thesis using that [of b1 ws st] st b1 by (simp add: b')
qed

lemma rebalance_books:
  assumes "rebalance_book env view d scale raw b = Inr b'" and "python_path env"
  shows "accounted init b \<longrightarrow> accounted init b'" "same_records b b'"
proof -
  obtain ws b1 st where r: "execute_python (exec_inputs_of env view b1) ws (bk_holdings b) (bk_cash b) [] = Inr st"
    "bk_cash b' = xs_cash st" "bk_holdings b' = xs_holdings st" "bk_trades b' = bk_trades b @ map (trade_of d) (xs_trades st)"
    "same_records b b'"
    using rebalance_cases [OF assms] by metis
  obtain targets where "rfold (exec_leg (exec_inputs_of env view b1) targets) (leg_order (bk_holdings b) targets)
      (start_state (bk_holdings b) (bk_cash b) []) = Inr st"
    using r(1) by (rule execute_python_cases)
  from balanced_run [OF this] have bal: "balanced (exec_inputs_of env view b1) (bk_holdings b) (bk_cash b) st" .
  have "\<forall>t \<in> set (xs_trades st). trade_ok (exec_inputs_of env view b1) t" using bal by (simp add: balanced_def)
  from trade_of_flows [OF this] show "accounted init b \<longrightarrow> accounted init b'"
    using bal r by (simp add: accounted_def balanced_def)
  show "same_records b b'" by (rule r)
qed

lemma decide_day_books:
  assumes "decide_day env view d scale b = Inr b'" and "python_path env"
  shows "accounted init b \<longrightarrow> accounted init b'" "same_records b b'"
proof -
  have frame: "accounted init (b\<lparr>bk_strategy := x\<rparr>) = accounted init b" "same_records (b\<lparr>bk_strategy := x\<rparr>) c = same_records b c" for x c
    by (simp_all add: accounted_def same_records_def)
  obtain raw x where r: "(case raw of None \<Rightarrow> Inr (reweigh_book (dv_prices view) (b\<lparr>bk_strategy := x\<rparr>))
      | Some ws \<Rightarrow> rebalance_book env view d scale ws (b\<lparr>bk_strategy := x\<rparr>)) = Inr b'"
    using assms(1) unfolding decide_day_def rbind_Inr_iff by (clarsimp split del: option.split)
  have "(accounted init b \<longrightarrow> accounted init b') \<and> same_records b b'"
  proof (cases raw)
    case None
    then have "b' = reweigh_book (dv_prices view) (b\<lparr>bk_strategy := x\<rparr>)" using r by simp
    then show ?thesis using reweigh_frame(4) [of "b\<lparr>bk_strategy := x\<rparr>" "dv_prices view", unfolded frame] by (simp add: accounted_def)
  next
    case (Some ws)
    then have "rebalance_book env view d scale ws (b\<lparr>bk_strategy := x\<rparr>) = Inr b'" using r by simp
    from rebalance_books [OF this assms(2)] frame show ?thesis by simp
  qed
  then show "accounted init b \<longrightarrow> accounted init b'" "same_records b b'" by blast+
qed

text \<open>The close of a day.\<close>

lemma close_day_cases:
  assumes "close_backtest_day view d b = Inr b'"
  shows "bk_cash b' = bk_cash b" "bk_holdings b' = bk_holdings b" "bk_trades b' = bk_trades b" "bk_risk_manager b' = bk_risk_manager b"
    "bk_prev_prices b' = dv_prices view" "- eps_fund \<le> bk_cash b'" "0 < equity_of (bk_prev_prices b') b'"
    "bk_dates b' = bk_dates b @ [d]" "bk_equity_curve b' = bk_equity_curve b @ [equity_of (bk_prev_prices b') b']"
    "bk_weights_history b' = bk_weights_history b @ [daily_weights (bk_holdings b') (bk_prev_prices b') (equity_of (bk_prev_prices b') b')]"
  using assms by (auto simp: close_backtest_day_def Let_def equity_of_def split: if_splits)

definition day_recorded :: "date \<Rightarrow> 's book \<Rightarrow> 's book \<Rightarrow> bool" where
  "day_recorded d b b' \<longleftrightarrow> (let equity = equity_of (bk_prev_prices b') b' in
     bk_dates b' = bk_dates b @ [d] \<and> bk_equity_curve b' = bk_equity_curve b @ [equity] \<and> 0 < equity \<and> - eps_fund \<le> bk_cash b'
     \<and> bk_weights_history b' = bk_weights_history b @ [daily_weights (bk_holdings b') (bk_prev_prices b') equity])"

lemma backtest_day_parts:
  assumes "backtest_day env tabs rebal d b = Inr b'"
  obtains view scale b1 b2 where
    "view = day_view_of (be_use_open_price env) tabs (dkeys (bk_holdings b) @ tradeable_at (be_universe env) d) (bk_prev_prices b) d"
    "drawdown_step env view d (d \<in> set rebal) b = Inr (scale, b1)"
    "(if d \<in> set rebal then decide_day env view d scale b1 else Inr b1) = Inr b2" "close_backtest_day view d b2 = Inr b'"
  using assms that by (auto simp: backtest_day_def Let_def)

lemma backtest_day_books:
  assumes "backtest_day env tabs rebal d b = Inr b'" and "python_path env"
  shows "accounted init b \<longrightarrow> accounted init b'" "day_recorded d b b'"
proof -
  obtain view scale b1 b2 where p: "drawdown_step env view d (d \<in> set rebal) b = Inr (scale, b1)"
    "(if d \<in> set rebal then decide_day env view d scale b1 else Inr b1) = Inr b2" "close_backtest_day view d b2 = Inr b'"
    using assms(1) by (rule backtest_day_parts)
  have 2: "accounted init b1 \<longrightarrow> accounted init b2" "same_records b1 b2"
    using p(2) decide_day_books [OF _ assms(2)] by (auto split: if_splits)
  show "accounted init b \<longrightarrow> accounted init b'"
    using drawdown_step_books(1) [OF p(1)] 2(1) close_day_cases(1-3) [OF p(3)] by (simp add: accounted_def)
  have "same_records b b2" using drawdown_step_books(2) [OF p(1)] 2(2) same_records_trans by blast
  then show "day_recorded d b b'" using close_day_cases [OF p(3)] by (simp add: day_recorded_def same_records_def Let_def)
qed

text \<open>The records of a run over some days.\<close>

definition recorded :: "date list \<Rightarrow> 's book \<Rightarrow> bool" where
  "recorded days b \<longleftrightarrow> bk_dates b = days \<and> length (bk_equity_curve b) = length days \<and> length (bk_weights_history b) = length days
     \<and> list_all (\<lambda>e. 0 < e) (bk_equity_curve b)
     \<and> (days \<noteq> [] \<longrightarrow> last (bk_equity_curve b) = equity_of (bk_prev_prices b) b \<and> - eps_fund \<le> bk_cash b)"

lemma run_days_books:
  assumes "run_days env rebal days b = Inr b'" and "python_path env" and "accounted init b" and "recorded past b"
  shows "accounted init b' \<and> recorded (past @ days) b'"
  using assms(1,3,4) unfolding run_days_def
proof (induction days arbitrary: b past)
  case (Cons d days)
  obtain b1 where day: "backtest_day env (price_tables (be_data env)) rebal d b = Inr b1"
    and rest: "rfold (backtest_day env (price_tables (be_data env)) rebal) days b1 = Inr b'"
    using Cons.prems(1) by auto
  have "accounted init b1" "recorded (past @ [d]) b1"
    using backtest_day_books [OF day assms(2)] Cons.prems(2,3) by (auto simp: recorded_def day_recorded_def Let_def)
  from Cons.IH [OF rest this] show ?case by simp
qed simp

lemma initial_book_ok:
  "accounted (be_initial_cash env) (initial_book env tabs days strategy rm)" "recorded [] (initial_book env tabs days strategy rm)"
  by (auto simp: initial_book_def new_book_def accounted_def recorded_def split: list.split)

section \<open>Solvency\<close>

definition table_positive :: "price_row list \<Rightarrow> bool" where
  "table_positive rows \<longleftrightarrow>
     list_all (\<lambda>r. list_all (\<lambda>x. case x of Some y \<Rightarrow> 0 < y | None \<Rightarrow> True) [pw_adj r, pw_raw r, pw_open r]) rows"

definition frames_positive :: "frames \<Rightarrow> bool" where
  "frames_positive data \<longleftrightarrow> list_all (\<lambda>(s, f). table_positive (map (price_row_of f) (fr_rows f))) data"

lemma table_positive_row:
  "table_positive rows \<Longrightarrow> r \<in> set rows \<Longrightarrow> pw_adj r = Some x \<or> pw_raw r = Some x \<or> pw_open r = Some x \<Longrightarrow> 0 < x"
  by (auto simp: table_positive_def list_all_iff)

lemma tables_positive: "frames_positive data \<Longrightarrow> (s, rows) \<in> set (price_tables data) \<Longrightarrow> table_positive rows"
  by (fastforce simp: frames_positive_def price_tables_def price_table_def table_positive_def list_all_iff)

lemma row_in:
  "row_until d rows = Some r \<Longrightarrow> r \<in> set rows" "row_before d rows = Some r \<Longrightarrow> r \<in> set rows"
  by (auto simp: row_until_def row_before_def Let_def split: if_splits dest: last_in_set set_takeWhileD)

lemma adj_or_raw_positive: "table_positive rows \<Longrightarrow> r \<in> set rows \<Longrightarrow> adj_or_raw r = Some x \<Longrightarrow> 0 < x"
  by (auto simp: adj_or_raw_def split: option.splits intro: table_positive_row)

lemma table_values_ok:
  assumes "\<And>s rows x. (s, rows) \<in> set tabs \<Longrightarrow> f s rows = Some x \<Longrightarrow> 0 < x"
  shows "prices_ok (table_values f tabs)"
  unfolding prices_ok_def table_values_def map_filter_def using assms by (auto dest!: map_of_SomeD)

definition tables_ok :: "tables \<Rightarrow> bool" where
  "tables_ok tabs \<longleftrightarrow> (\<forall>(s, rows) \<in> set tabs. table_positive rows)"

lemma day_view_ok:
  assumes "tables_ok tabs" and "prices_ok prev"
  shows "prices_ok (dv_prices (day_view_of u tabs symbs prev d))" "prices_ok (dv_exec (day_view_of u tabs symbs prev d))"
proof -
  have pos: "table_positive rows" if "(s, rows) \<in> set (filter (\<lambda>(s, rows). s \<in> set symbs) tabs)" for s rows
    using that assms(1) by (auto simp: tables_ok_def)
  have price: "0 < x" if "table_positive rows" "price_on d prev s rows = Some x" for s rows x
    using that assms(2) by (auto simp: price_on_def prices_ok_def split: option.splits Option.bind_splits
        dest: row_in intro: adj_or_raw_positive)
  have op: "0 < x" if tp: "table_positive rows" and on: "open_on d rows = Some x" for rows x
  proof -
    obtain r y where r: "r \<in> set rows" "pw_open r = Some y" "x = y \<or> (\<exists>raw adj. pw_raw r = Some raw \<and> pw_adj r = Some adj \<and> x = y * (adj / raw))"
      using on by (auto simp: open_on_def split: option.splits if_splits dest: row_in)
    then show ?thesis using table_positive_row [OF tp r(1)] by (auto intro!: mult_pos_pos divide_pos_pos)
  qed
  show "prices_ok (dv_prices (day_view_of u tabs symbs prev d))" "prices_ok (dv_exec (day_view_of u tabs symbs prev d))"
    by (auto simp: day_view_of_def Let_def intro!: table_values_ok intro: price [OF pos] op [OF pos]) (simp_all add: prices_ok_def)
qed

definition long_holdings :: "(string, int) dict \<Rightarrow> bool" where
  "long_holdings hs \<longleftrightarrow> dict_ok hs \<and> (\<forall>s. 0 \<le> dget_or hs s 0)"

lemma long_holdings_mem: "long_holdings hs \<Longrightarrow> (s, n) \<in> set hs \<Longrightarrow> 0 \<le> n"
  unfolding long_holdings_def dget_or_def by (metis dict_ok_map_of_iff option.case(2))

lemma position_value_nonneg:
  assumes "long_holdings hs" and "prices_ok prices"
  shows "0 \<le> position_value hs prices"
  unfolding position_value_def
proof (rule sum_list_nonneg)
  have "0 \<le> dget_or prices s 0" for s using assms(2) by (auto simp: prices_ok_def dget_or_def less_imp_le split: option.split)
  then show "0 \<le> x" if "x \<in> set (map (\<lambda>(s, n). of_int n * dget_or prices s 0) hs)" for x
    using that long_holdings_mem [OF assms(1)] by auto
qed

definition sound_costs :: "cost_model \<Rightarrow> bool" where
  "sound_costs cm \<longleftrightarrow> costs_ok cm \<and> min_commission cm = 0"

lemma sale_proceeds:
  assumes "sale cm d s n p liq = (t, proceeds)" and "sound_costs cm" and "0 \<le> n" and "0 < p"
  shows "0 \<le> proceeds"
proof -
  define amount where "amount = of_int n * (p * (1 - slippage_rate cm))"
  have a: "0 \<le> amount" using assms(2-4) by (simp add: amount_def sound_costs_def costs_ok_def)
  have "compute_commission amount (sell_commission_rate cm) (min_commission cm) \<le> amount * sell_commission_rate cm"
    using commission_bound [OF a, of "sell_commission_rate cm" "min_commission cm"] assms(2) by (simp add: sound_costs_def costs_ok_def)
  moreover have "amount * (sell_commission_rate cm + stamp_tax_rate cm) \<le> amount * 1"
    using a assms(2) by (intro mult_left_mono) (auto simp: sound_costs_def costs_ok_def)
  ultimately show ?thesis using assms(1) by (auto simp: sale_def Let_def amount_def [symmetric] distrib_left)
qed

definition solvent_book :: "'s book \<Rightarrow> bool" where
  "solvent_book b \<longleftrightarrow> 0 \<le> bk_cash b \<and> long_holdings (bk_holdings b)
     \<and> (\<forall>m. bk_risk_manager b = Some m \<longrightarrow> 0 \<le> rc_drawdown_reduce_ratio (rm_config m))"

lemma solvent_frame [simp]:
  "solvent_book (b\<lparr>bk_strategy := x\<rparr>) = solvent_book b" "solvent_book (reweigh_book prices b) = solvent_book b"
  by (simp_all add: solvent_book_def)

lemma lot_round_nonneg: "0 \<le> x \<Longrightarrow> 0 < lot \<Longrightarrow> lot_round x lot = Inr n \<Longrightarrow> 0 \<le> n"
  by (auto simp: lot_round_def floor_div_nonneg)

lemma emergency_leg_solvent:
  assumes "emergency_sale_leg env view d scale s b = Inr b'" and "solvent_book b" and "sound_costs (be_costs env)" and "0 < be_lot_size env"
    and "prices_ok (dv_prices view)" and "0 \<le> scale"
  shows "solvent_book b'"
  using assms(1)
proof (cases rule: emergency_leg_cases)
  case (sell target p t proceeds)
  have h: "0 \<le> dget_or (bk_holdings b) u 0" for u using assms(2) by (simp add: solvent_book_def long_holdings_def)
  have "0 \<le> target" using lot_round_nonneg [OF _ assms(4) sell(1)] h assms(6) by simp
  moreover have "0 \<le> proceeds" using sale_proceeds [OF sell(6) assms(3)] sell(2,3) assms(5) by (simp add: prices_ok_def)
  ultimately show ?thesis using assms(2) h by (auto simp: sell(7) solvent_book_def long_holdings_def dict_simps)
qed (use assms(2) in simp)

lemma drawdown_step_solvent:
  assumes "drawdown_step env view d reb b = Inr (scale, b')" and "solvent_book b" and "sound_costs (be_costs env)" and "0 < be_lot_size env"
    and "prices_ok (dv_prices view)"
  shows "solvent_book b'"
  using assms(1)
proof (cases rule: drawdown_step_cases)
  case none
  then show ?thesis using assms(2) by simp
next
  case (checked m m' nt es)
  then show ?thesis using assms(2) check_drawdown_frame(1) [OF checked(2)] by (simp add: solvent_book_def)
next
  case (breached m m' nt es)
  let ?b1 = "b\<lparr>bk_risk_manager := Some m', bk_risk_events := es\<rparr>"
  have s1: "solvent_book ?b1" using assms(2) check_drawdown_frame(1) [OF breached(2)] breached(1) by (simp add: solvent_book_def)
  have "scale = rc_drawdown_reduce_ratio (rm_config m) \<or> scale = 1"
    using breached(2) by (auto simp: check_drawdown_def Let_def split: if_splits)
  then have "0 \<le> scale" using assms(2) breached(1) by (auto simp: solvent_book_def)
  moreover obtain b2 where "rfold (emergency_sale_leg env view d scale) (dkeys (bk_holdings ?b1)) ?b1 = Inr b2" and "b' = reweigh_book (dv_prices view) b2"
    using breached(4) by (auto simp: emergency_sale_def)
  ultimately show ?thesis using s1 emergency_leg_solvent [OF _ _ assms(3,4,5)] rfold_invariant [where P = solvent_book] by (metis solvent_frame(2))
qed

lemma target_shares_nonneg:
  assumes "target_shares_of equity prices lot ws = Inr ts" and "0 \<le> equity" and "0 < lot" and "\<And>k v. (k, v) \<in> set ws \<Longrightarrow> 0 \<le> v"
  shows "0 \<le> dget_or ts s 0"
  using assms(1,4)
proof (induction ws arbitrary: ts)
  case (Cons p ws)
  obtain k w where p: "p = (k, w)" by (cases p)
  have w: "0 \<le> w" using Cons.prems(2) [of k w] p by simp
  have IH: "target_shares_of equity prices lot ws = Inr ts' \<Longrightarrow> 0 \<le> dget_or ts' s 0" for ts'
    using Cons.IH Cons.prems(2) by (metis list.set_intros(2))
  show ?case
  proof (cases "\<exists>x. map_of prices k = Some x \<and> 0 < x")
    case False
    then show ?thesis using Cons.prems(1) IH by (auto simp: p split: option.splits if_splits)
  next
    case True
    then obtain x n ts' where "0 < x" "lot_round (equity * w / x) lot = Inr n"
        "target_shares_of equity prices lot ws = Inr ts'" "ts = (k, n) # ts'"
      using Cons.prems(1) by (auto simp: p split: if_splits)
    moreover have "0 \<le> equity * w / x" if "0 < x" for x using that assms(2) w by simp
    ultimately have "0 \<le> n" using lot_round_nonneg [OF _ assms(3)] by blast
    then show ?thesis using IH \<open>ts = (k, n) # ts'\<close> \<open>target_shares_of equity prices lot ws = Inr ts'\<close> by (simp add: dget_or_def)
  qed
qed simp

lemma exec_leg_dict_ok: "exec_leg inp targets symb st = Inr st' \<Longrightarrow> dict_ok (xs_holdings st) \<Longrightarrow> dict_ok (xs_holdings st')"
  by (auto elim!: exec_leg_cases)

lemma execute_python_solvent:
  assumes "execute_python inp ws hs csh sold = Inr st" and "long_holdings hs" and "0 \<le> csh" and "0 \<le> xi_equity inp"
    and "sound_costs (xi_costs inp)" and "prices_ok (xi_prices inp)" and "0 < xi_lot_size inp" and "\<And>k v. (k, v) \<in> set ws \<Longrightarrow> 0 \<le> v"
  shows "0 \<le> xs_cash st \<and> long_holdings (xs_holdings st)"
proof -
  have c: "costs_ok (xi_costs inp)" "min_commission (xi_costs inp) = 0" using assms(5) by (simp_all add: sound_costs_def)
  obtain targets where t: "target_shares_of (xi_equity inp) (xi_prices inp) (xi_lot_size inp) ws = Inr targets"
    and run: "rfold (exec_leg inp targets) (leg_order hs targets) (start_state hs csh sold) = Inr st"
    using assms(1) by (rule execute_python_cases)
  have "0 \<le> xs_cash st"
    by (rule rfold_invariant [OF run, where P = "\<lambda>st. 0 \<le> xs_cash st"])
       (use leg_solvent [OF _ c(1) assms(6,7)] c(2) assms(3) in auto)
  have "dict_ok (xs_holdings st)"
    by (rule rfold_invariant [OF run, where P = "\<lambda>st. dict_ok (xs_holdings st)"])
       (use exec_leg_dict_ok assms(2) in \<open>auto simp: long_holdings_def\<close>)
  have "0 \<le> dget_or targets s 0" for s using assms(8) by (rule target_shares_nonneg [OF t assms(4,7)])
  moreover have "0 \<le> dget_or hs s 0" for s using assms(2) by (simp add: long_holdings_def)
  moreover have "min (dget_or hs s 0) (dget_or targets s 0) \<le> dget_or (xs_holdings st) s 0" for s
    using run_towards_target [OF run leg_order_distinct c(1) assms(7), of s] by (auto simp: Let_def)
  ultimately have "0 \<le> dget_or (xs_holdings st) s 0" for s by (metis min_def order_trans)
  with \<open>0 \<le> xs_cash st\<close> \<open>dict_ok (xs_holdings st)\<close> show ?thesis by (simp add: long_holdings_def)
qed

text \<open>Whether a day is profitable or not, it ends without debts and short positions.\<close>

definition sound_env :: "'s backtest_env \<Rightarrow> bool" where
  "sound_env env \<longleftrightarrow> sound_costs (be_costs env) \<and> 0 < be_lot_size env \<and> python_path env \<and> frames_positive (be_data env)"

lemma rebalance_solvent:
  assumes "rebalance_book env view d scale raw b = Inr b'" and "solvent_book b" and "sound_env env" and "prices_ok (dv_prices view)" "prices_ok (dv_exec view)"
  shows "solvent_book b'"
proof -
  obtain ws b1 st where r: "execute_python (exec_inputs_of env view b1) ws (bk_holdings b) (bk_cash b) [] = Inr st"
    "\<And>k v. (k, v) \<in> set ws \<Longrightarrow> 0 \<le> v" "bk_cash b1 = bk_cash b" "bk_holdings b1 = bk_holdings b"
    "bk_cash b' = xs_cash st" "bk_holdings b' = xs_holdings st" "bk_risk_manager b' = bk_risk_manager b"
    using rebalance_cases [OF assms(1)] assms(3) unfolding sound_env_def by metis
  have "0 \<le> equity_of (dv_prices view) b1"
    using position_value_nonneg [of "bk_holdings b" "dv_prices view"] assms(2,4) r(3,4) by (simp add: equity_of_def solvent_book_def)
  then have "0 \<le> xs_cash st \<and> long_holdings (xs_holdings st)"
    using assms by (intro execute_python_solvent [OF r(1)]) (auto simp: solvent_book_def sound_env_def exec_inputs_of_def r(2))
  then show ?thesis using assms(2) r by (simp add: solvent_book_def)
qed

lemma decide_day_solvent:
  assumes "decide_day env view d scale b = Inr b'" and "solvent_book b" and "sound_env env" and "prices_ok (dv_prices view)" "prices_ok (dv_exec view)"
  shows "solvent_book b'"
proof -
  obtain raw x where r: "(case raw of None \<Rightarrow> Inr (reweigh_book (dv_prices view) (b\<lparr>bk_strategy := x\<rparr>))
      | Some ws \<Rightarrow> rebalance_book env view d scale ws (b\<lparr>bk_strategy := x\<rparr>)) = Inr b'"
    using assms(1) unfolding decide_day_def rbind_Inr_iff by (clarsimp split del: option.split)
  show ?thesis
  proof (cases raw)
    case None
    then have "b' = reweigh_book (dv_prices view) (b\<lparr>bk_strategy := x\<rparr>)" using r by simp
    then show ?thesis using assms(2) by simp
  next
    case (Some ws)
    then have "rebalance_book env view d scale ws (b\<lparr>bk_strategy := x\<rparr>) = Inr b'" using r by simp
    from rebalance_solvent [OF this _ assms(3-5)] assms(2) show ?thesis by simp
  qed
qed

lemma backtest_day_solvent:
  assumes "backtest_day env tabs rebal d b = Inr b'" and "solvent_book b" and "prices_ok (bk_prev_prices b)" and "sound_env env" and "tables_ok tabs"
  shows "solvent_book b' \<and> prices_ok (bk_prev_prices b')"
proof -
  obtain view scale b1 b2 where p:
    "view = day_view_of (be_use_open_price env) tabs (dkeys (bk_holdings b) @ tradeable_at (be_universe env) d) (bk_prev_prices b) d"
    "drawdown_step env view d (d \<in> set rebal) b = Inr (scale, b1)"
    "(if d \<in> set rebal then decide_day env view d scale b1 else Inr b1) = Inr b2" "close_backtest_day view d b2 = Inr b'"
    using assms(1) by (rule backtest_day_parts)
  have v: "prices_ok (dv_prices view)" "prices_ok (dv_exec view)" using day_view_ok [OF assms(5,3)] by (simp_all add: p(1))
  have "solvent_book b1" using drawdown_step_solvent [OF p(2) assms(2)] v(1) assms(4) by (simp add: sound_env_def)
  then have "solvent_book b2" using p(3) decide_day_solvent [OF _ _ assms(4) v] by (auto split: if_splits)
  then show ?thesis using close_day_cases [OF p(4)] v(1) by (simp add: solvent_book_def)
qed

lemma daily_weights_bounds:
  assumes "long_holdings hs" and "prices_ok prices" and "0 \<le> csh" and "equity = csh + position_value hs prices" and "0 < equity"
  shows "list_all (\<lambda>(s, w). 0 < w) (daily_weights hs prices equity) \<and> sum_list (dvals (daily_weights hs prices equity)) \<le> 1"
proof -
  have "list_all (\<lambda>(s, w). 0 < w) (daily_weights hs prices equity)"
    using assms(5) by (auto simp: daily_weights_def list_all_iff map_filter_def split: option.splits if_splits)
  moreover have "sum_list (dvals (daily_weights hs prices equity)) \<le> position_value hs prices / equity"
  proof -
    have "\<forall>(s, n) \<in> set hs. 0 \<le> n" using long_holdings_mem [OF assms(1)] by auto
    then show ?thesis
    proof (induction hs)
      case (Cons sn hs)
      obtain s n where sn: "sn = (s, n)" by (cases sn)
      have "0 \<le> n" "sum_list (dvals (daily_weights hs prices equity)) \<le> position_value hs prices / equity" using Cons by (auto simp: sn)
      moreover have "0 \<le> dget_or prices s 0" using assms(2) by (auto simp: prices_ok_def dget_or_def less_imp_le split: option.split)
      ultimately show ?case
        using assms(5) by (auto simp: sn daily_weights_def position_value_def List.map_filter_simps dget_or_def add_divide_distrib
            add_increasing split: option.splits)
    qed (simp add: daily_weights_def position_value_def List.map_filter_simps)
  qed
  moreover have "position_value hs prices / equity \<le> 1" using assms(3,4,5) by simp
  ultimately show ?thesis by linarith
qed

section \<open>The terminal liquidation\<close>

lemma liquidation_leg_cases:
  obtains (keep) "liquidation_leg env d (s, n) b = b"
  | (sell) t p proceeds where "0 < n" "map_of (bk_prev_prices b) s = Some p" "sale (be_costs env) d s n p True = (t, proceeds)"
      "liquidation_leg env d (s, n) b = b\<lparr>bk_cash := bk_cash b + proceeds, bk_trades := bk_trades b @ [t]\<rparr>"
proof (cases "0 < n \<and> (\<exists>p. map_of (bk_prev_prices b) s = Some p)")
  case True
  then obtain p where p: "0 < n" "map_of (bk_prev_prices b) s = Some p" by blast
  obtain t proceeds where sl: "sale (be_costs env) d s n p True = (t, proceeds)" by (metis surj_pair)
  show thesis by (rule sell [OF p sl]) (use p sl in \<open>simp add: liquidation_leg_def\<close>)
next
  case False
  then show thesis using keep by (auto simp: liquidation_leg_def split: option.split)
qed

lemma liquidation_books:
  assumes "b' = fold (liquidation_leg env d) hs b" and "bk_cash b = init + money_of (bk_trades b)"
  shows "bk_cash b' = init + money_of (bk_trades b') \<and> same_records b b'"
  using assms
proof (induction hs arbitrary: b)
  case (Cons sn hs)
  obtain s n where sn: "sn = (s, n)" by (cases sn)
  let ?b1 = "liquidation_leg env d (s, n) b"
  have "bk_cash ?b1 = init + money_of (bk_trades ?b1) \<and> same_records b ?b1"
    using Cons.prems(2) by (cases rule: liquidation_leg_cases [of env d s n b]) (auto simp: same_records_def sale_flows)
  then show ?case using Cons.IH [of ?b1] Cons.prems(1) same_records_trans by (auto simp: sn)
qed simp

lemma liquidation_solvent:
  assumes "sound_costs (be_costs env)" and "prices_ok (bk_prev_prices b)" and "0 \<le> bk_cash b"
  shows "0 \<le> bk_cash (fold (liquidation_leg env d) hs b)"
  using assms(2,3)
proof (induction hs arbitrary: b)
  case (Cons sn hs)
  obtain s n where sn: "sn = (s, n)" by (cases sn)
  let ?b1 = "liquidation_leg env d (s, n) b"
  have "bk_prev_prices ?b1 = bk_prev_prices b \<and> 0 \<le> bk_cash ?b1"
  proof (cases rule: liquidation_leg_cases [of env d s n b])
    case (sell t p proceeds)
    then have "0 \<le> proceeds" using sale_proceeds [OF sell(3) assms(1)] Cons.prems(1) by (simp add: prices_ok_def)
    then show ?thesis using sell(4) Cons.prems(2) by simp
  qed (use Cons.prems(2) in simp)
  then show ?case using Cons.IH [of ?b1] Cons.prems by (simp add: sn)
qed simp

lemma liquidate_all_cases:
  assumes "liquidate_all env days b = Inr b'" and "accounted init b" and "recorded days b"
  obtains (none) "b' = b" "be_skip_terminal_liquidation env \<or> bk_holdings b = [] \<or> bk_prev_prices b = [] \<or> days = []"
  | (dropped) "bk_holdings b' = []" "bk_cash b' = init + money_of (bk_trades b')" "same_records b b'" "bk_cash b' = bk_cash b"
      "\<not> be_skip_terminal_liquidation env" "days \<noteq> []"
  | (sold) d where "bk_holdings b' = []" "bk_cash b' = init + money_of (bk_trades b')" "- eps_fund \<le> bk_cash b'" "d = add_days (last days) 1"
      "bk_dates b' = days @ [d]" "bk_equity_curve b' = bk_equity_curve b @ [bk_cash b']"
      "bk_weights_history b' = bk_weights_history b @ [[]]" "bk_cash b' = bk_cash (fold (liquidation_leg env d) (bk_holdings b) b)"
      "\<not> be_skip_terminal_liquidation env" "days \<noteq> []"
proof (cases "bk_holdings b = [] \<or> bk_prev_prices b = [] \<or> days = [] \<or> be_skip_terminal_liquidation env")
  case True
  then have "b' = b" using assms(1) by (simp add: liquidate_all_def)
  then show thesis using True none by blast
next
  case False
  define d where "d = add_days (last days) 1"
  define b1 where "b1 = fold (liquidation_leg env d) (bk_holdings b) b"
  have b1: "bk_cash b1 = init + money_of (bk_trades b1)" "same_records b b1"
    using liquidation_books [OF b1_def] assms(2) by (simp_all add: accounted_def)
  have cash_kept: "bk_cash (fold (liquidation_leg env d) hs c) = bk_cash c"
    if "length (bk_trades (fold (liquidation_leg env d) hs c)) = length (bk_trades c)" for hs and c :: "'a book"
  proof -
    have "length (bk_trades c) \<le> length (bk_trades (fold (liquidation_leg env d) hs c))
        \<and> (length (bk_trades (fold (liquidation_leg env d) hs c)) = length (bk_trades c) \<longrightarrow> bk_cash (fold (liquidation_leg env d) hs c) = bk_cash c)"
    proof (induction hs arbitrary: c)
      case (Cons sn hs)
      obtain s n where sn: "sn = (s, n)" by (cases sn)
      show ?case
        by (cases rule: liquidation_leg_cases [of env d s n c]) (use Cons.IH [of "liquidation_leg env d (s, n) c"] in \<open>auto simp: sn\<close>)
    qed simp
    then show ?thesis using that by simp
  qed
  show thesis
  proof (cases "length (bk_trades b1) = length (bk_trades b)")
    case True
    then have "b' = b1\<lparr>bk_holdings := []\<rparr>" using assms(1) False by (simp add: liquidate_all_def b1_def d_def Let_def)
    moreover have "bk_cash b1 = bk_cash b" using True cash_kept by (simp add: b1_def)
    ultimately show thesis using False b1 dropped by (simp add: same_records_def)
  next
    case False2: False
    then have "- eps_fund \<le> bk_cash b1" "b' = b1\<lparr>bk_holdings := [], bk_equity_curve := bk_equity_curve b1 @ [bk_cash b1],
        bk_dates := bk_dates b1 @ [d], bk_weights_history := bk_weights_history b1 @ [[]]\<rparr>"
      using assms(1) False by (auto simp: liquidate_all_def b1_def d_def Let_def split: if_splits)
    then show thesis using False b1 assms(3) sold [OF _ _ _ d_def] by (simp add: same_records_def recorded_def b1_def)
  qed
qed

lemma bench_length:
  assumes "benchmark_curve env tabs dates = Inr bench"
  shows "length bench = length dates"
proof -
  have "length (fold (\<lambda>d curve. curve @ [f d curve]) dates c) = length c + length dates" for f and c :: "flt list"
    by (induction dates arbitrary: c) auto
  then show ?thesis using assms by (auto simp: benchmark_curve_def Let_def split: option.splits if_splits bool.splits)
qed

section \<open>Properties\<close>

text \<open>C3: The books of a portfolio backtest balance.  The final cash is the initial cash plus the money of the recorded
  trades; every day of the range has one entry of the equity curve, the weights and the benchmark, with a positive
  equity; after the terminal liquidation one more entry, of the next day, holds the realized cash and no position is
  left; without it every position is the sum of its recorded trades and the last equity is cash plus positions.\<close>

theorem portfolio_books_balance:
  assumes "run_portfolio_backtest env start_day end_day strategy rm = Inr (b, bench)" and "python_path env"
  shows "bk_cash b = be_initial_cash env + money_of (bk_trades b)
    \<and> length (bk_equity_curve b) = length (bk_dates b) \<and> length (bk_weights_history b) = length (bk_dates b) \<and> length bench = length (bk_dates b)
    \<and> (let days = trading_days_between (be_calendar env) start_day end_day; n = length days in
        take n (bk_dates b) = days \<and> list_all (\<lambda>e. 0 < e) (take n (bk_equity_curve b))
        \<and> (bk_dates b = days \<or> bk_dates b = days @ [add_days (last days) 1] \<and> bk_holdings b = [] \<and> last (bk_equity_curve b) = bk_cash b)
        \<and> (be_skip_terminal_liquidation env \<and> days \<noteq> [] \<longrightarrow> (\<forall>s. dget_or (bk_holdings b) s 0 = units_of s (bk_trades b))
            \<and> last (bk_equity_curve b) = equity_of (bk_prev_prices b) b))"
proof -
  define days where "days = trading_days_between (be_calendar env) start_day end_day"
  obtain rebal b0 where run: "run_days env rebal days (initial_book env (price_tables (be_data env)) days strategy rm) = Inr b0"
    and liq: "liquidate_all env days b0 = Inr b" and bench: "benchmark_curve env (price_tables (be_data env)) (bk_dates b) = Inr bench"
    using assms(1) by (auto simp: run_portfolio_backtest_def Let_def days_def)
  have acc: "accounted (be_initial_cash env) b0" "recorded days b0"
    using run_days_books [OF run assms(2) initial_book_ok] by simp_all
  have len: "length bench = length (bk_dates b)" by (rule bench_length [OF bench])
  from liq acc show ?thesis
  proof (cases rule: liquidate_all_cases)
    case none
    then show ?thesis using acc len unfolding Let_def days_def [symmetric] by (simp add: accounted_def recorded_def)
  next
    case dropped
    then show ?thesis using acc len unfolding Let_def days_def [symmetric] by (simp add: same_records_def recorded_def)
  next
    case (sold d)
    then show ?thesis using acc len unfolding Let_def days_def [symmetric] by (simp add: recorded_def)
  qed
qed


definition sample_frames :: frames where
  "sample_frames = [(''A'', \<lparr>fr_has_adj = False, fr_has_open = False, fr_rows =
     map (\<lambda>(k, x). \<lparr>fw_date = Date 2024 1 k, fw_open = None, fw_high = None, fw_low = None, fw_close = Some x,
       fw_adj_close = None, fw_volume = None\<rparr>) [(2, 10), (3, 10), (4, 11)]\<rparr>)]"

fun sample_strategy :: "unit \<Rightarrow> frames \<Rightarrow> date \<Rightarrow> weights \<Rightarrow> (string, flt) dict \<Rightarrow> (weights option \<times> unit) res" where
  "sample_strategy x fs d ws rs = Inr (Some (if fs = [] then [] else [(''A'', 1 / 2)]), x)"

definition portfolio_sample_env :: "unit backtest_env" where
  "portfolio_sample_env = \<lparr>be_data = sample_frames, be_universe = new_universe [''A''] 60 [] [],
     be_calendar = [Date 2024 1 2, Date 2024 1 3, Date 2024 1 4], be_freq = ''daily'', be_rebal_weekday = None,
     be_initial_cash = 10000, be_costs = default_cost_model, be_lot_size = 100, be_limit_pct = 1 / 5, be_t_plus_1 = True,
     be_use_open_price = False, be_skip_terminal_liquidation = False, be_strict_lookback = False, be_benchmark_symbol = [],
     be_kernel = None, be_lookback_days = (\<lambda>_. 20), be_warmup_periods = (\<lambda>_. []), be_generate_weights = sample_strategy,
     be_optimize = None, be_allocator = None\<rparr>"

definition sample_backtest :: "(unit book \<times> flt list) res" where
  "sample_backtest = run_portfolio_backtest portfolio_sample_env (Date 2024 1 2) (Date 2024 1 4) () None"

lemma sample_backtest_ok: "\<exists>b bench. sample_backtest = Inr (b, bench) \<and> map pt_shares (bk_trades b) = [500, 100, 400]"
proof -
  have "\<exists>y. sample_backtest = Inr y \<and> map pt_shares (bk_trades (fst y)) = [500, 100, 400]"
    by (rule observe) code_simp
  then show ?thesis by (metis prod.collapse)
qed

lemma sample_env_sound: "sound_env portfolio_sample_env"
proof -
  have "sound_costs (be_costs portfolio_sample_env)" "0 < be_lot_size portfolio_sample_env" "frames_positive (be_data portfolio_sample_env)" by code_simp+
  then show ?thesis by (simp add: sound_env_def python_path_def) (simp add: portfolio_sample_env_def)
qed

theorem portfolio_books_balance_witness:
  "\<exists>b bench. sample_backtest = Inr (b, bench) \<and> length (bk_trades b) = 3 \<and> bk_cash b = 10000 + money_of (bk_trades b)"
proof -
  obtain b bench where r: "sample_backtest = Inr (b, bench)" "map pt_shares (bk_trades b) = [500, 100, 400]" using sample_backtest_ok by (elim exE conjE) (rule that)
  have "be_initial_cash portfolio_sample_env = 10000" by (simp add: portfolio_sample_env_def)
  moreover have "length (bk_trades b) = 3" using arg_cong [OF r(2), of length] by simp
  ultimately show ?thesis
    using portfolio_books_balance [OF r(1) [unfolded sample_backtest_def]] sample_env_sound r(1) by (auto simp: sound_env_def)
qed


end
