(* ===== verification/Portfolio_Lookahead.thy ===== *)
theory Portfolio_Lookahead
  imports Portfolio_Accounts
begin

text \<open>
  What a portfolio backtest can know: a day depends on the prices up to that day, and the proposal of the strategy on
  the prices before it.
\<close>

section \<open>Frames that agree\<close>

definition agree :: "(date \<Rightarrow> bool) \<Rightarrow> frames \<Rightarrow> frames \<Rightarrow> bool" where
  "agree P data data' \<longleftrightarrow> list_all2 (\<lambda>(s, f) (s', f'). s' = s \<and> fr_has_adj f' = fr_has_adj f \<and> fr_has_open f' = fr_has_open f
     \<and> filter (\<lambda>r. P (fw_date r)) (fr_rows f') = filter (\<lambda>r. P (fw_date r)) (fr_rows f)) data data'"

lemma filter_weaken:
  assumes "filter P xs = filter P ys" and "\<And>x. Q x \<Longrightarrow> P x"
  shows "filter Q xs = filter Q ys"
proof -
  have "filter Q zs = filter Q (filter P zs)" for zs using assms(2) by (induction zs) auto
  then show ?thesis using assms(1) by metis
qed

lemma agree_weaken:
  assumes "agree P data data'" and "\<And>x. Q x \<Longrightarrow> P x"
  shows "agree Q data data'"
  using assms(1) unfolding agree_def
  by (rule list_all2_mono) (use assms(2) in \<open>auto intro: filter_weaken [where P = "\<lambda>r. P (fw_date r)"]\<close>)

lemma frame_rows_eq:
  "fr_has_adj f' = fr_has_adj f \<Longrightarrow> fr_has_open f' = fr_has_open f \<Longrightarrow> f'\<lparr>fr_rows := x\<rparr> = (f :: price_frame)\<lparr>fr_rows := x\<rparr>"
  by (cases f; cases f') simp

lemma slice_rows_agree:
  assumes "filter (\<lambda>r. fw_date r < d) rows' = filter (\<lambda>r. fw_date r < d) rows"
  shows "slice_rows d lb rows' = slice_rows d lb rows"
  unfolding slice_rows_def assms ..

lemma slice_agree:
  assumes "agree (\<lambda>x. x < d) data data'"
  shows "slice_universe_data data' d lb = slice_universe_data data d lb"
proof -
  have "map (\<lambda>(s, f). (s, f\<lparr>fr_rows := slice_rows d lb (fr_rows f)\<rparr>)) data' = map (\<lambda>(s, f). (s, f\<lparr>fr_rows := slice_rows d lb (fr_rows f)\<rparr>)) data"
    using assms unfolding agree_def
  proof (induction rule: list_all2_induct)
    case (Cons x xs y ys)
    obtain s f f' where x: "x = (s, f)" "y = (s, f')" using Cons.hyps(1) by (cases x; cases y) simp
    have rows: "slice_rows d lb (fr_rows f') = slice_rows d lb (fr_rows f)" using Cons.hyps(1) by (intro slice_rows_agree) (simp add: x)
    have "f'\<lparr>fr_rows := z\<rparr> = f\<lparr>fr_rows := z\<rparr>" for z using Cons.hyps(1) by (intro frame_rows_eq) (simp_all add: x)
    then show ?case using Cons.IH rows by (simp add: x)
  qed simp
  then show ?thesis by (simp add: slice_universe_data_def)
qed

section \<open>Tables that agree\<close>

lemma takeWhile_filter:
  assumes "sorted (map k xs)" and "\<And>x y. x \<le> y \<Longrightarrow> P y \<Longrightarrow> P x"
  shows "takeWhile (\<lambda>x. P (k x)) xs = filter (\<lambda>x. P (k x)) (xs :: 'a list)"
  using assms(1)
proof (induction xs)
  case (Cons a xs)
  show ?case
  proof (cases "P (k a)")
    case False
    then have "\<not> P (k x)" if "x \<in> set xs" for x using Cons.prems assms(2) [of "k a" "k x"] that by auto
    then have "filter (\<lambda>x. P (k x)) xs = []" by (simp add: filter_empty_conv)
    then show ?thesis using False by simp
  qed (use Cons in simp)
qed simp

lemma takeWhile_sorted:
  fixes d :: "'a :: linorder"
  assumes "sorted (map k xs)"
  shows "takeWhile (\<lambda>x. k x \<le> d) xs = filter (\<lambda>x. k x \<le> d) xs" "takeWhile (\<lambda>x. k x < d) xs = filter (\<lambda>x. k x < d) xs"
  using takeWhile_filter [OF assms, of "\<lambda>x. x \<le> d"] takeWhile_filter [OF assms, of "\<lambda>x. x < d"] by auto

lemma filter_table:
  assumes "filter (\<lambda>r. P (fw_date r)) (fr_rows f') = filter (\<lambda>r. P (fw_date r)) (fr_rows f)"
    and "fr_has_adj f' = fr_has_adj f" and "fr_has_open f' = fr_has_open f"
  shows "filter (\<lambda>r. P (pw_date r)) (price_table f') = filter (\<lambda>r. P (pw_date r)) (price_table f)"
proof -
  have "filter (\<lambda>r. P (pw_date r)) (price_table g) = sort_key pw_date (map (price_row_of g) (filter (\<lambda>r. P (fw_date r)) (fr_rows g)))" for g
    by (simp add: price_table_def filter_sort filter_map comp_def price_row_of_def)
  moreover have "price_row_of f' = price_row_of f" using assms(2,3) by (simp add: price_row_of_def fun_eq_iff)
  ultimately show ?thesis using assms(1) by simp
qed

definition same_tables :: "date \<Rightarrow> tables \<Rightarrow> tables \<Rightarrow> bool" where
  "same_tables d tabs tabs' \<longleftrightarrow> list_all2 (\<lambda>(s, r) (s', r'). s' = s \<and> row_until d r' = row_until d r \<and> row_before d r' = row_before d r
     \<and> has_date d r' = has_date d r) tabs tabs'"

lemma agree_tables:
  assumes "agree (\<lambda>x. x \<le> d) data data'"
  shows "same_tables d (price_tables data) (price_tables data')"
proof -
  have "row_until d (price_table f') = row_until d (price_table f) \<and> row_before d (price_table f') = row_before d (price_table f)
      \<and> has_date d (price_table f') = has_date d (price_table f)"
    if a: "filter (\<lambda>r. fw_date r \<le> d) (fr_rows f') = filter (\<lambda>r. fw_date r \<le> d) (fr_rows f)"
      "fr_has_adj f' = fr_has_adj f" "fr_has_open f' = fr_has_open f" for f f'
  proof -
    have le: "filter (\<lambda>r. pw_date r \<le> d) (price_table f') = filter (\<lambda>r. pw_date r \<le> d) (price_table f)"
      by (rule filter_table [OF a])
    have lt: "filter (\<lambda>r. pw_date r < d) (price_table f') = filter (\<lambda>r. pw_date r < d) (price_table f)"
      by (rule filter_weaken [OF le]) simp
    have "filter (\<lambda>r. pw_date r = d) (price_table f') = filter (\<lambda>r. pw_date r = d) (price_table f)"
      by (rule filter_weaken [OF le]) simp
    then have "has_date d (price_table f') = has_date d (price_table f)"
      unfolding has_date_def list_ex_iff by (metis (mono_tags, lifting) mem_Collect_eq set_filter)
    moreover have "sorted (map pw_date (price_table g))" for g by (simp add: price_table_def)
    ultimately show ?thesis using le lt by (simp add: row_until_def row_before_def takeWhile_sorted)
  qed
  then show ?thesis using assms unfolding agree_def same_tables_def price_tables_def
    by (simp add: list.rel_map) (elim list_all2_mono, auto)
qed

lemma table_values_same:
  assumes "list_all2 (\<lambda>(s, r) (s', r'). s' = s \<and> f s r' = f s r) tabs tabs'"
  shows "table_values f tabs' = table_values f tabs"
  using assms unfolding table_values_def
proof (induction rule: list_all2_induct)
  case (Cons x xs y ys)
  obtain s r r' where x: "x = (s, r)" "y = (s, r')" using Cons.hyps(1) by (cases x; cases y) simp
  have "f s r' = f s r" using Cons.hyps(1) by (simp add: x)
  then show ?case using Cons.IH by (cases "f s r") (simp_all add: x List.map_filter_simps)
qed simp

lemma filter_same:
  assumes "list_all2 (\<lambda>(s, r) (s', r'). s' = s \<and> Q s r r') tabs tabs'"
  shows "list_all2 (\<lambda>(s, r) (s', r'). s' = s \<and> Q s r r') (filter (\<lambda>(s, r). P s) tabs) (filter (\<lambda>(s, r). P s) tabs')"
  using assms by (induction rule: list_all2_induct) auto

lemma day_view_same:
  assumes "same_tables d tabs tabs'"
  shows "day_view_of u tabs' symbs prev d = day_view_of u tabs symbs prev d"
proof -
  define q where "q = filter (\<lambda>(s, rows). s \<in> set symbs) tabs"
  define q' where "q' = filter (\<lambda>(s, rows). s \<in> set symbs) tabs'"
  have q: "same_tables d q q'"
    using filter_same [OF assms [unfolded same_tables_def]] by (simp add: same_tables_def q_def q'_def)
  have v: "table_values f q' = table_values f q"
    if "\<And>s r r'. row_until d r' = row_until d r \<Longrightarrow> has_date d r' = has_date d r \<Longrightarrow> f s r' = f s r" for f :: "string \<Rightarrow> price_row list \<Rightarrow> flt option"
  proof (rule table_values_same, rule list_all2_mono [OF q [unfolded same_tables_def]])
    fix x y :: "string \<times> price_row list"
    assume "(case x of (s, r) \<Rightarrow> \<lambda>(s', r'). s' = s \<and> row_until d r' = row_until d r \<and> row_before d r' = row_before d r \<and> has_date d r' = has_date d r) y"
    then obtain s r r' where x: "x = (s, r)" "y = (s, r')" "row_until d r' = row_until d r" "has_date d r' = has_date d r"
      by (cases x; cases y) auto
    have "f s r' = f s r" by (rule that [OF x(3,4)])
    then show "(case x of (s, r) \<Rightarrow> \<lambda>(s', r'). s' = s \<and> f s r' = f s r) y" by (simp add: x)
  qed
  have "map fst (filter (\<lambda>(s, rows). has_date d rows \<and> raw_on d rows \<noteq> None) q') = map fst (filter (\<lambda>(s, rows). has_date d rows \<and> raw_on d rows \<noteq> None) q)"
    using q unfolding same_tables_def
  proof (induction rule: list_all2_induct)
    case (Cons x xs y ys)
    obtain s r r' where x: "x = (s, r)" "y = (s, r')" using Cons.hyps(1) by (cases x; cases y) simp
    have "has_date d r' = has_date d r" "raw_on d r' = raw_on d r" using Cons.hyps(1) by (simp_all add: x raw_on_def)
    then show ?case using Cons.IH by (simp add: x)
  qed simp
  moreover have "table_values (price_on d prev) q' = table_values (price_on d prev) q" by (rule v) (simp add: price_on_def)
  moreover have "table_values (\<lambda>s. raw_on d) q' = table_values (\<lambda>s. raw_on d) q" by (rule v) (simp add: raw_on_def)
  moreover have "table_values (\<lambda>s. open_on d) q' = table_values (\<lambda>s. open_on d) q" by (rule v) (simp add: open_on_def)
  ultimately show ?thesis by (simp add: day_view_of_def Let_def q_def [symmetric] q'_def [symmetric])
qed

section \<open>A day with other data\<close>

lemma other_data_fields:
  "be_universe (env\<lparr>be_data := data'\<rparr>) = be_universe env"
  "be_lot_size (env\<lparr>be_data := data'\<rparr>) = be_lot_size env"
  "be_limit_pct (env\<lparr>be_data := data'\<rparr>) = be_limit_pct env"
  "be_costs (env\<lparr>be_data := data'\<rparr>) = be_costs env"
  "be_optimize (env\<lparr>be_data := data'\<rparr>) = be_optimize env"
  "be_allocator (env\<lparr>be_data := data'\<rparr>) = be_allocator env"
  "be_use_open_price (env\<lparr>be_data := data'\<rparr>) = be_use_open_price env"
  "be_t_plus_1 (env\<lparr>be_data := data'\<rparr>) = be_t_plus_1 env"
  by simp_all

lemma other_data_simps [simp]:
  "emergency_sale_leg (env\<lparr>be_data := data'\<rparr>) view d scale s b = emergency_sale_leg env view d scale s b"
  "shape_proposal (env\<lparr>be_data := data'\<rparr>) d fs raw = shape_proposal env d fs raw"
  "exec_inputs_of (env\<lparr>be_data := data'\<rparr>) view b = exec_inputs_of env view b"
  unfolding emergency_sale_leg_def shape_proposal_def exec_inputs_of_def other_data_fields by (rule refl)+

lemma drawdown_step_other [simp]: "drawdown_step (env\<lparr>be_data := data'\<rparr>) view d reb b = drawdown_step env view d reb b"
proof -
  have "emergency_sale_leg (env\<lparr>be_data := data'\<rparr>) view d scale = emergency_sale_leg env view d scale" for scale by (intro ext) simp
  then have eq: "emergency_sale (env\<lparr>be_data := data'\<rparr>) view d = emergency_sale env view d" by (intro ext) (simp add: emergency_sale_def)
  show ?thesis unfolding drawdown_step_def eq by (rule refl)
qed

lemma visible_same:
  assumes "agree (\<lambda>x. x < d) (be_data env) data'"
  shows "visible_frames (env\<lparr>be_data := data'\<rparr>) d b = visible_frames env d b"
  using slice_agree [OF assms] by (simp add: visible_frames_def)

lemma backtest_day_same:
  assumes "agree (\<lambda>x. x \<le> d) (be_data env) data'"
  shows "backtest_day (env\<lparr>be_data := data'\<rparr>) (price_tables data') rebal d b = backtest_day env (price_tables (be_data env)) rebal d b"
proof -
  have "agree (\<lambda>x. x < d) (be_data env) data'" using assms by (rule agree_weaken) simp
  note vis = visible_same [OF this]
  have dec: "decide_day (env\<lparr>be_data := data'\<rparr>) view d scale c = decide_day env view d scale c" for view scale c
  proof -
    have "be_generate_weights (env\<lparr>be_data := data'\<rparr>) = be_generate_weights env" "be_kernel (env\<lparr>be_data := data'\<rparr>) = be_kernel env"
      by simp_all
    note eqs = this
    show ?thesis unfolding decide_day_def propose_def rebalance_book_def vis eqs other_data_simps by (rule refl)
  qed
  show ?thesis
    unfolding backtest_day_def other_data_fields drawdown_step_other day_view_same [OF agree_tables [OF assms]] dec by (rule refl)
qed

lemma initial_book_same:
  assumes "agree (\<lambda>x. x \<le> d) (be_data env) data'" and "d \<in> set days" and "sorted days"
  shows "initial_book (env\<lparr>be_data := data'\<rparr>) (price_tables data') days strategy rm = initial_book env (price_tables (be_data env)) days strategy rm"
proof (cases days)
  case (Cons e ds)
  then have "agree (\<lambda>x. x \<le> e) (be_data env) data'" using assms by (intro agree_weaken [OF assms(1)]) auto
  from agree_tables [OF this] have st: "same_tables e (price_tables (be_data env)) (price_tables data')" .
  have "table_values (\<lambda>s rows. Option.bind (row_before e rows) f) (price_tables data') = table_values (\<lambda>s rows. Option.bind (row_before e rows) f) (price_tables (be_data env))" for f
    by (rule table_values_same, rule list_all2_mono [OF st [unfolded same_tables_def]]) (auto split: prod.splits)
  then show ?thesis by (simp add: initial_book_def new_book_def Cons)
qed (use assms(2) in simp)

lemma run_days_same:
  assumes "agree (\<lambda>x. x \<le> d) (be_data env) data'" and "list_all (\<lambda>x. x \<le> d) days"
  shows "run_days (env\<lparr>be_data := data'\<rparr>) rebal days b = run_days env rebal days b"
  using assms(2) unfolding run_days_def
proof (induction days arbitrary: b)
  case (Cons e days)
  have "agree (\<lambda>x. x \<le> e) (be_data env) data'" using Cons.prems by (intro agree_weaken [OF assms(1)]) auto
  from backtest_day_same [OF this] show ?case using Cons by (auto intro!: rbind_cong)
qed simp

section \<open>Properties\<close>

text \<open>C2: No lookahead.  If two sets of frames agree on every row up to day \<open>d\<close>, then the backtest of any trading days up to
  \<open>d\<close> is the same on both: equity, weights, trades, rebalances, risk events and the state carried on.  The strategy sees
  even less: when the frames agree on the rows before a day, its proposal for that day is the same.\<close>

theorem portfolio_no_lookahead:
  assumes "agree (\<lambda>x. x \<le> d) (be_data env) data'" and "days \<noteq> []" and "sorted days" and "last days \<le> d"
  shows "run_days (env\<lparr>be_data := data'\<rparr>) rebal days (initial_book (env\<lparr>be_data := data'\<rparr>) (price_tables data') days strategy rm)
      = run_days env rebal days (initial_book env (price_tables (be_data env)) days strategy rm)
    \<and> (\<forall>e b other. agree (\<lambda>x. x < e) (be_data env) other \<longrightarrow> propose (env\<lparr>be_data := other\<rparr>) e b = propose env e b)"
proof -
  have le: "x \<le> d" if "x \<in> set days" for x
  proof -
    obtain i where "i < length days" "x = days ! i" using \<open>x \<in> set days\<close> by (metis in_set_conv_nth)
    then have "x \<le> last days" using assms(2,3) by (simp add: last_conv_nth sorted_nth_mono)
    then show ?thesis using assms(4) by simp
  qed
  have last_agree: "agree (\<lambda>x. x \<le> last days) (be_data env) data'" using assms(4) by (intro agree_weaken [OF assms(1)]) auto
  have "run_days (env\<lparr>be_data := data'\<rparr>) rebal days b = run_days env rebal days b" for b
    by (rule run_days_same [OF assms(1)]) (simp add: le list_all_iff)
  moreover have "propose (env\<lparr>be_data := other\<rparr>) e b = propose env e b" if "agree (\<lambda>x. x < e) (be_data env) other" for e b other
    using visible_same [OF that] by (simp add: propose_def)
  ultimately show ?thesis
    using initial_book_same [OF last_agree last_in_set [OF assms(2)] assms(3)] by auto
qed

text \<open>The price of the last sample day is revised.\<close>

definition revised_frames :: frames where
  "revised_frames = map (\<lambda>(s, f). (s, f\<lparr>fr_rows := map (\<lambda>r. if fw_date r = Date 2024 1 4 then r\<lparr>fw_close := Some 7\<rparr> else r) (fr_rows f)\<rparr>)) sample_frames"

theorem portfolio_no_lookahead_witness:
  "map_sum id bk_equity_curve (run_days (portfolio_sample_env\<lparr>be_data := revised_frames\<rparr>) [Date 2024 1 2, Date 2024 1 3] [Date 2024 1 2, Date 2024 1 3]
      (initial_book (portfolio_sample_env\<lparr>be_data := revised_frames\<rparr>) (price_tables revised_frames) [Date 2024 1 2, Date 2024 1 3] () None))
    = Inr [10000, 24986499 / 2500]
   \<and> price_tables revised_frames \<noteq> price_tables (be_data portfolio_sample_env)"
proof -
  have data: "be_data portfolio_sample_env = sample_frames" by (simp add: portfolio_sample_env_def)
  have a: "agree (\<lambda>x. x \<le> Date 2024 1 3) (be_data portfolio_sample_env) revised_frames" unfolding data by code_simp
  have s: "sorted [Date 2024 1 2, Date 2024 1 3]" "last [Date 2024 1 2, Date 2024 1 3] \<le> Date 2024 1 3" by code_simp+
  have run: "map_sum id bk_equity_curve (run_days portfolio_sample_env [Date 2024 1 2, Date 2024 1 3] [Date 2024 1 2, Date 2024 1 3]
      (initial_book portfolio_sample_env (price_tables (be_data portfolio_sample_env)) [Date 2024 1 2, Date 2024 1 3] () None)) = Inr [10000, 24986499 / 2500]"
    by code_simp
  have "map_of (map (\<lambda>(s, rows). (s, map pw_raw rows)) (price_tables revised_frames)) ''A'' = Some [Some 10, Some 10, Some 7]" by code_simp
  moreover have "map_of (map (\<lambda>(s, rows). (s, map pw_raw rows)) (price_tables (be_data portfolio_sample_env))) ''A'' = Some [Some 10, Some 10, Some 11]" by code_simp
  ultimately have "price_tables revised_frames \<noteq> price_tables (be_data portfolio_sample_env)" by auto
  then show ?thesis
    using portfolio_no_lookahead [OF a _ s, of "[Date 2024 1 2, Date 2024 1 3]" "()" None] run by simp
qed

text \<open>Trading at the opening price does look ahead: the order size comes from the equity at the close of the same day.  Two
  markets that agree until the opening of a day, and differ in its close, execute different sales at the same open.\<close>

definition gap_frames :: "flt \<Rightarrow> frames" where
  "gap_frames x = [(''A'', \<lparr>fr_has_adj = False, fr_has_open = True, fr_rows =
     map (\<lambda>(k, op, cl). \<lparr>fw_date = Date 2024 1 k, fw_open = Some op, fw_high = None, fw_low = None, fw_close = Some cl,
       fw_adj_close = None, fw_volume = None\<rparr>) [(2, 10, 10), (3, 10, 10), (4, 10, x)]\<rparr>)]"

definition open_trades :: "flt \<Rightarrow> (string \<times> int \<times> flt) list res" where
  "open_trades x = map_sum id (\<lambda>(b, bench). map (\<lambda>t. (pt_side t, pt_shares t, pt_price t)) (bk_trades b))
     (run_portfolio_backtest (portfolio_sample_env\<lparr>be_data := gap_frames x, be_use_open_price := True, be_skip_terminal_liquidation := True\<rparr>)
       (Date 2024 1 2) (Date 2024 1 4) () None)"

theorem open_execution_sees_close:
  "agree (\<lambda>x. x < Date 2024 1 4) (gap_frames 10) (gap_frames 12)
   \<and> map_option (map fw_open \<circ> fr_rows) (map_of (gap_frames 10) ''A'') = map_option (map fw_open \<circ> fr_rows) (map_of (gap_frames 12) ''A'')
   \<and> open_trades 10 = Inr [(''buy'', 500, 1001 / 100), (''sell'', 100, 999 / 100)]
   \<and> open_trades 12 = Inr [(''buy'', 500, 1001 / 100)]"
proof (intro conjI)
  show "agree (\<lambda>x. x < Date 2024 1 4) (gap_frames 10) (gap_frames 12)" by code_simp
  show "map_option (map fw_open \<circ> fr_rows) (map_of (gap_frames 10) ''A'') = map_option (map fw_open \<circ> fr_rows) (map_of (gap_frames 12) ''A'')"
    by code_simp
  show "open_trades 10 = Inr [(''buy'', 500, 1001 / 100), (''sell'', 100, 999 / 100)]" by code_simp
  show "open_trades 12 = Inr [(''buy'', 500, 1001 / 100)]" by code_simp
qed

end
