(* ===== verification/Portfolio_Metrics.thy ===== *)
theory Portfolio_Metrics
  imports Portfolio_Lookahead Paper_Engine
begin

text \<open>
  The performance figures of both backtests: the end of \<open>run_portfolio_backtest\<close> (\<open>ez/portfolio/engine.py\<close>) and the
  calculator of the single-stock engine (\<open>ez/backtest/metrics.py\<close>).  The square root and the power with a fractional
  exponent are parameters.
\<close>

record performance =
  pf_total_return :: flt
  pf_annualized_return :: flt
  pf_annualized_volatility :: flt
  pf_sharpe_ratio :: flt
  pf_sortino_ratio :: flt
  pf_max_drawdown :: flt
  pf_max_drawdown_duration :: nat
  pf_benchmark_return :: flt
  pf_alpha :: flt
  pf_beta :: flt

record engine_figures = performance +
  pm_trade_count :: nat
  pm_turnover_per_rebalance :: flt
  pm_n_rebalances :: nat
  pm_concentration_hhi :: flt

definition metric_threshold :: flt where
  "metric_threshold = 1 / 10 ^ 10"

definition daily_risk_free :: flt where
  "daily_risk_free = (3 / 100) / 252"

fun running_max :: "flt \<Rightarrow> flt list \<Rightarrow> flt list" where
  "running_max m [] = []"
| "running_max m (x # xs) = max m x # running_max (max m x) xs"

definition cummax :: "flt list \<Rightarrow> flt list" where
  "cummax xs = (case xs of [] \<Rightarrow> [] | x # _ \<Rightarrow> running_max x xs)"

definition std :: "(flt \<Rightarrow> flt) \<Rightarrow> flt list \<Rightarrow> flt" where
  "std sqrt_fn xs = sqrt_fn (sample_cov xs xs)"

definition ratio_to :: "(flt \<Rightarrow> flt) \<Rightarrow> flt \<Rightarrow> flt list \<Rightarrow> flt" where
  "ratio_to sqrt_fn deviation xs = (if metric_threshold < deviation then mean_of xs / deviation * sqrt_fn 252 else 0)"

section \<open>The portfolio engine\<close>

definition diff_returns :: "flt list \<Rightarrow> flt list" where
  "diff_returns xs = map2 (\<lambda>p c. (c - p) / p) xs (tl xs)"

fun drawdown_run :: "nat \<Rightarrow> nat \<Rightarrow> flt list \<Rightarrow> nat" where
  "drawdown_run dur longest [] = longest"
| "drawdown_run dur longest (x # xs) =
     (if x < 0 then drawdown_run (dur + 1) (max longest (dur + 1)) xs else drawdown_run 0 longest xs)"

definition engine_performance :: "(flt \<Rightarrow> flt) \<Rightarrow> (flt \<Rightarrow> flt \<Rightarrow> flt) \<Rightarrow> flt list \<Rightarrow> flt list \<Rightarrow> performance" where
  "engine_performance sqrt_fn pow eq bench =
     (let returns = diff_returns eq; n = length returns; n_years = of_nat n / 252;
          total_ret = last eq / hd eq - 1;
          excess = map (\<lambda>r. r - daily_risk_free) returns;
          excess_std = (if 1 < length excess then std sqrt_fn excess else 0);
          drawdown = map2 (\<lambda>e m. e / m - 1) eq (cummax eq);
          downside_dev = (if 0 < length excess then sqrt_fn (mean_of (map (\<lambda>x. (min x 0) ^ 2) excess)) else 0);
          bench_returns = diff_returns bench;
          bench_ret = (if 0 < hd bench then last bench / hd bench - 1 else 0);
          excess_b = map (\<lambda>r. r - daily_risk_free) bench_returns;
          var_b = sample_cov excess_b excess_b;
          varied = (1 < length bench_returns \<and> metric_threshold < std sqrt_fn bench_returns);
          beta = (if 0 < var_b then sample_cov excess excess_b / var_b else 0);
          same = (length bench = length eq)
      in \<lparr>pf_total_return = total_ret,
          pf_annualized_return = (if 0 < n_years then pow (1 + total_ret) (1 / max n_years (1 / 100)) - 1 else 0),
          pf_annualized_volatility = (if 1 < n then std sqrt_fn returns * sqrt_fn 252 else 0),
          pf_sharpe_ratio = ratio_to sqrt_fn excess_std excess, pf_sortino_ratio = ratio_to sqrt_fn downside_dev excess,
          pf_max_drawdown = Min (set drawdown), pf_max_drawdown_duration = drawdown_run 0 0 drawdown,
          pf_benchmark_return = (if same then bench_ret else 0),
          pf_alpha = (if same \<and> varied then (mean_of excess - beta * mean_of excess_b) * 252 else 0),
          pf_beta = (if same \<and> varied then beta else 0)\<rparr>)"

definition concentrations :: "weights list \<Rightarrow> flt list" where
  "concentrations ws = List.map_filter (\<lambda>w. let vs = filter (\<lambda>v. 0 < v) (dvals w) in
     if vs = [] then None else Some (sum_list (map (\<lambda>v. v ^ 2) vs))) ws"

definition engine_metrics :: "(flt \<Rightarrow> flt) \<Rightarrow> (flt \<Rightarrow> flt \<Rightarrow> flt) \<Rightarrow> 's book \<Rightarrow> flt list \<Rightarrow> engine_figures option" where
  "engine_metrics sqrt_fn pow b bench =
     (let eq = bk_equity_curve b; n_rebal = max (length (bk_rebalance_dates b)) 1;
          volume = sum_list (map (\<lambda>t. of_int (pt_shares t) * pt_price t) (filter (\<lambda>t. \<not> pt_liquidation t) (bk_trades b)));
          hhi = concentrations (bk_weights_history b)
      in if length eq \<le> 1 then None
         else Some (performance.extend (engine_performance sqrt_fn pow eq bench)
           (engine_figures.fields (length (bk_trades b))
             (if 0 < mean_of eq then volume / mean_of eq / of_nat n_rebal else 0) n_rebal
             (if hhi = [] then 0 else mean_of hhi))))"

section \<open>The calculator of the single-stock engine\<close>

definition pct_returns :: "flt list \<Rightarrow> flt list" where
  "pct_returns xs = map2 (\<lambda>p c. c / p - 1) xs (tl xs)"

text \<open>\<open>(~in_drawdown).cumsum()\<close> numbers the groups; a group is a bar outside a drawdown and the drawdown after it.\<close>

fun group_ids :: "nat \<Rightarrow> bool list \<Rightarrow> nat list" where
  "group_ids g [] = []"
| "group_ids g (x # xs) = (if x then g else Suc g) # group_ids (if x then g else Suc g) xs"

definition group_duration :: "nat \<Rightarrow> nat list \<Rightarrow> bool list \<Rightarrow> nat" where
  "group_duration g ids flags = length (filter (\<lambda>(h, x). h = g \<and> x) (zip ids flags))"

definition drawdown_duration :: "flt list \<Rightarrow> nat" where
  "drawdown_duration drawdown =
     (let flags = map (\<lambda>x. x < 0) drawdown; ids = group_ids 0 flags in
      if list_ex (\<lambda>x. x) flags then Max ((\<lambda>g. group_duration g ids flags) ` set ids) else 0)"

definition compute_metrics :: "(flt \<Rightarrow> flt) \<Rightarrow> (flt \<Rightarrow> flt \<Rightarrow> flt) \<Rightarrow> flt list \<Rightarrow> flt list \<Rightarrow> performance" where
  "compute_metrics sqrt_fn pow eq bench =
     (let returns = pct_returns eq; bench_returns = pct_returns bench; n = length returns;
          total_return = last eq / hd eq - 1;
          years = (if 0 < n then of_nat n / 252 else 1);
          excess = map (\<lambda>r. r - daily_risk_free) returns;
          excess_std = (if 2 \<le> n then std sqrt_fn excess else 0);
          downside_dev = sqrt_fn (mean_of (map (\<lambda>x. (min x 0) ^ 2) excess));
          drawdown = map2 (\<lambda>e m. (e - m) / m) eq (cummax eq);
          common = zip returns bench_returns;
          excess_s = map (\<lambda>(s, b). s - daily_risk_free) common;
          excess_b = map (\<lambda>(s, b). b - daily_risk_free) common;
          varied = (1 < length common \<and> metric_threshold < std sqrt_fn (map snd common));
          beta = sample_cov excess_s excess_b / sample_cov excess_b excess_b
      in \<lparr>pf_total_return = total_return,
          pf_annualized_return = (if total_return \<le> - 1 then - 1 else if 0 < years then pow (1 + total_return) (1 / years) - 1 else 0),
          pf_annualized_volatility = (if 2 \<le> n then std sqrt_fn returns * sqrt_fn 252 else 0),
          pf_sharpe_ratio = ratio_to sqrt_fn excess_std excess, pf_sortino_ratio = ratio_to sqrt_fn downside_dev excess,
          pf_max_drawdown = Min (set drawdown), pf_max_drawdown_duration = drawdown_duration drawdown,
          pf_benchmark_return = last bench / hd bench - 1,
          pf_alpha = (if varied then (mean_of excess_s - beta * mean_of excess_b) * 252 else 0),
          pf_beta = (if varied then beta else 0)\<rparr>)"

section \<open>The two agree\<close>

lemma returns_agree:
  assumes "list_all (\<lambda>x. 0 < x) xs"
  shows "pct_returns xs = diff_returns xs"
proof -
  have "x \<noteq> 0" if "(x, y) \<in> set (zip xs (tl xs))" for x y
    using assms set_zip_leftD [OF that] by (auto simp: list_all_iff)
  then show ?thesis unfolding pct_returns_def diff_returns_def by (auto simp: diff_divide_distrib)
qed

lemma length_running_max [simp]: "length (running_max m xs) = length xs"
  by (induction xs arbitrary: m) auto

lemma running_max_positive: "0 < m \<Longrightarrow> x \<in> set (running_max m xs) \<Longrightarrow> 0 < x"
proof (induction xs arbitrary: m)
  case (Cons a xs)
  have "0 < max m a" using Cons.prems(1) by (simp add: less_max_iff_disj)
  then show ?case using Cons by auto
qed simp

lemma drawdowns_agree:
  assumes "list_all (\<lambda>x. 0 < x) xs"
  shows "map2 (\<lambda>e m. (e - m) / m) xs (cummax xs) = map2 (\<lambda>e m. e / m - 1) xs (cummax xs)"
proof -
  have "m \<noteq> 0" if "(e, m) \<in> set (zip xs (cummax xs))" for e m
    using assms set_zip_rightD [OF that] running_max_positive [of "hd xs" m xs] by (cases xs) (auto simp: cummax_def)
  then show ?thesis by (auto simp: diff_divide_distrib)
qed

lemma group_ids_ge: "h \<in> set (group_ids g xs) \<Longrightarrow> g \<le> h"
  by (induction xs arbitrary: g) (auto split: if_splits, fastforce)

text \<open>The longest run of the loop is the largest group; the current run belongs to the current group.\<close>

lemma drawdown_run_le:
  assumes "dur \<le> longest"
  shows "drawdown_run dur longest xs \<le> k \<longleftrightarrow> longest \<le> k
    \<and> (\<forall>h \<in> set (group_ids g (map (\<lambda>x. x < 0) xs)). group_duration h (group_ids g (map (\<lambda>x. x < 0) xs)) (map (\<lambda>x. x < 0) xs)
        + (if h = g then dur else 0) \<le> k)"
  using assms
proof (induction xs arbitrary: g dur longest)
  case (Cons x xs)
  define fs where "fs = map (\<lambda>x. x < 0) xs"
  define cnt where "cnt g' h = group_duration h (group_ids g' fs) fs" for g' h
  have zero: "cnt g' h = 0" if "h \<notin> set (group_ids g' fs)" for g' h
    using that by (auto simp: cnt_def group_duration_def filter_empty_conv dest: set_zip_leftD)
  show ?case
  proof (cases "x < 0")
    case True
    have IH: "drawdown_run dur longest (x # xs) \<le> k \<longleftrightarrow> longest \<le> k \<and> dur + 1 \<le> k
        \<and> (\<forall>h \<in> set (group_ids g fs). cnt g h + (if h = g then dur + 1 else 0) \<le> k)"
      using True Cons.IH [of "dur + 1" "max longest (dur + 1)" g] by (simp add: cnt_def fs_def)
    have cnts: "group_duration h (group_ids g (True # fs)) (True # fs) = cnt g h + (if h = g then 1 else 0)" for h
      by (simp add: group_duration_def cnt_def)
    have "(\<forall>h \<in> set (group_ids g (True # fs)). cnt g h + (if h = g then 1 else 0) + (if h = g then dur else 0) \<le> k) \<longleftrightarrow>
        cnt g g + 1 + dur \<le> k \<and> (\<forall>h \<in> set (group_ids g fs). cnt g h + (if h = g then dur + 1 else 0) \<le> k)"
      by auto
    moreover have "dur + 1 \<le> k \<and> (\<forall>h \<in> set (group_ids g fs). cnt g h + (if h = g then dur + 1 else 0) \<le> k)
        \<longleftrightarrow> cnt g g + 1 + dur \<le> k \<and> (\<forall>h \<in> set (group_ids g fs). cnt g h + (if h = g then dur + 1 else 0) \<le> k)"
      using zero [of g g] by (cases "g \<in> set (group_ids g fs)") auto
    ultimately show ?thesis using IH True unfolding list.map fs_def [symmetric] by (simp only: cnts)
  next
    case False
    have IH: "drawdown_run dur longest (x # xs) \<le> k \<longleftrightarrow> longest \<le> k \<and> (\<forall>h \<in> set (group_ids (Suc g) fs). cnt (Suc g) h \<le> k)"
      using False Cons.IH [of 0 longest "Suc g"] by (simp add: cnt_def fs_def)
    have "group_duration h (group_ids g (False # fs)) (False # fs) = cnt (Suc g) h" for h
      by (simp add: group_duration_def cnt_def)
    moreover have "h \<noteq> g" if "h \<in> set (group_ids (Suc g) fs)" for h using group_ids_ge [OF that] by simp
    ultimately show ?thesis using IH False zero [of "Suc g" "Suc g"] unfolding list.map fs_def [symmetric]
      by (cases "Suc g \<in> set (group_ids (Suc g) fs)") auto
  qed
qed simp

lemma drawdown_durations_agree: "drawdown_duration ds = drawdown_run 0 0 ds"
proof -
  define fs where "fs = map (\<lambda>x. x < 0) ds"
  define cnt where "cnt h = group_duration h (group_ids 0 fs) fs" for h
  have le: "drawdown_run 0 0 ds \<le> k \<longleftrightarrow> (\<forall>h \<in> set (group_ids 0 fs). cnt h \<le> k)" for k
    using drawdown_run_le [of 0 0 ds k 0] by (simp add: fs_def cnt_def)
  show ?thesis
  proof (cases "list_ex (\<lambda>x. x) fs")
    case True
    have ne: "cnt ` set (group_ids 0 fs) \<noteq> {}" using True by (cases fs) auto
    have "drawdown_run 0 0 ds \<le> k \<longleftrightarrow> Max (cnt ` set (group_ids 0 fs)) \<le> k" for k using le ne by simp
    then have "drawdown_run 0 0 ds = Max (cnt ` set (group_ids 0 fs))" by (metis order_antisym order_refl)
    then show ?thesis using True by (simp add: drawdown_duration_def Let_def fs_def [symmetric] cnt_def)
  next
    case False
    then have "cnt h = 0" for h by (auto simp: cnt_def group_duration_def filter_empty_conv list_ex_iff dest: set_zip_rightD)
    then have "drawdown_run 0 0 ds = 0" using le [of 0] by simp
    then show ?thesis using False by (simp add: drawdown_duration_def Let_def fs_def [symmetric])
  qed
qed

lemma sample_cov_nonneg: "0 \<le> sample_cov xs xs"
proof -
  have "map2 (\<lambda>x y. (x - c) * (y - c)) xs xs = map (\<lambda>x. (x - c) ^ 2) xs" for c by (induction xs) (auto simp: power2_eq_square)
  then show ?thesis unfolding sample_cov_def by (auto intro!: divide_nonneg_nonneg sum_list_nonneg)
qed

text \<open>C36: The two engines report the same figures for the same curves: on positive equity and benchmark curves of the same
  length, with at least three returns, the figures of the portfolio engine are the ones of the single-stock calculator,
  including the longest drawdown, which one counts in a loop and the other by grouping.\<close>

theorem engines_report_alike:
  assumes "list_all (\<lambda>x. 0 < x) eq" and "list_all (\<lambda>x. 0 < x) bench" and "length bench = length eq" and "4 \<le> length eq"
    and "sqrt_fn 0 = 0"
  shows "engine_performance sqrt_fn pow eq bench = compute_metrics sqrt_fn pow eq bench"
proof -
  define rs where "rs = diff_returns eq"
  define bs where "bs = diff_returns bench"
  have len: "length rs = length eq - 1" "length bs = length eq - 1" using assms(3) by (simp_all add: rs_def bs_def diff_returns_def)
  have ret: "pct_returns eq = rs" "pct_returns bench = bs" using returns_agree assms(1,2) by (simp_all add: rs_def bs_def)
  have common: "map snd (zip rs bs) = bs" "map (\<lambda>(s, b). s - c) (zip rs bs) = map (\<lambda>r. r - c) rs" "map (\<lambda>(s, b). b - c) (zip rs bs) = map (\<lambda>r. r - c) bs" for c
    using len by (auto simp: list_eq_iff_nth_eq)
  have "eq \<noteq> []" "bench \<noteq> []" using assms(3,4) by auto
  then have pos: "0 < hd eq" "0 < last eq" "0 < hd bench" using assms(1,2) by (auto simp: list_all_iff)
  have tot: "\<not> last eq / hd eq - 1 \<le> - 1" using pos by (simp add: not_le)
  have years: "max (of_nat (length rs) / 252) (1 / 100) = (of_nat (length rs) / 252 :: flt)" "0 < (of_nat (length rs) / 252 :: flt)"
    using assms(4) len by (auto simp: max_def field_simps)
  have var: "metric_threshold < std sqrt_fn bs \<Longrightarrow> 0 < sample_cov bs bs"
    using sample_cov_nonneg [of bs] assms(5) by (auto simp: std_def metric_threshold_def order_less_le)
  have shift: "sample_cov (map (\<lambda>r. r - c) bs) (map (\<lambda>r. r - c) bs) = sample_cov bs bs" for c
  proof -
    have "sum_list (map (\<lambda>r. r - c) bs) = sum_list bs - of_nat (length bs) * c" by (induction bs) (auto simp: algebra_simps)
    then have mean: "mean_of (map (\<lambda>r. r - c) bs) = mean_of bs - c" using len assms(4) by (auto simp: mean_of_def diff_divide_distrib)
    have "(r - c) - (m - c) = r - m" for r m :: flt by simp
    then show ?thesis unfolding sample_cov_def mean by (simp add: zip_map_map case_prod_beta' comp_def)
  qed
  show ?thesis
    unfolding engine_performance_def compute_metrics_def Let_def ret rs_def [symmetric] bs_def [symmetric] common
      drawdowns_agree [OF assms(1)] drawdown_durations_agree shift
    using tot years len pos assms(3,4) var by (auto simp: Suc_le_eq numeral_2_eq_2)
qed

theorem engines_report_alike_witness:
  "pf_max_drawdown_duration (engine_performance (\<lambda>x. x) (\<lambda>x y. x) [100, 90, 80, 110, 100] [50, 50, 50, 50, 50]) = 2
   \<and> compute_metrics (\<lambda>x. x) (\<lambda>x y. x) [100, 90, 80, 110, 100] [50, 50, 50, 50, 50]
     = engine_performance (\<lambda>x. x) (\<lambda>x y. x) [100, 90, 80, 110, 100] [50, 50, 50, 50, 50]"
proof -
  have "engine_performance (\<lambda>x. x) (\<lambda>x y. x) [100, 90, 80, 110, 100] [50, 50, 50, 50, 50]
      = compute_metrics (\<lambda>x. x) (\<lambda>x y. x) [100, 90, 80, 110, 100] [50, 50, 50, 50, 50]"
    by (rule engines_report_alike) simp_all
  moreover have "pf_max_drawdown_duration (engine_performance (\<lambda>x. x) (\<lambda>x y. x) [100, 90, 80, 110, 100] [50, 50, 50, 50, 50]) = 2"
    by code_simp
  ultimately show ?thesis by simp
qed

end
