(* ===== verification/Walk_Forward.thy ===== *)
theory Walk_Forward
  imports Portfolio_Metrics
begin

text \<open>
  Walk-forward validation: \<open>ez/portfolio/walk_forward.py\<close> for portfolios, \<open>ez/backtest/walk_forward.py\<close> for one stock.
  The trading days are cut into windows, each window into an in-sample and an out-of-sample part; every part runs on a
  fresh strategy.  The engine of the single-stock validator is an argument of its constructor and of the model.
\<close>

section \<open>Windows\<close>

text \<open>\<open>int(window * train_ratio)\<close> of a non-negative product.\<close>

definition train_size :: "flt \<Rightarrow> nat \<Rightarrow> nat" where
  "train_size ratio width = nat \<lfloor>of_nat width * ratio\<rfloor>"

text \<open>Start of the window, end of its training part, end of the window.\<close>

definition window :: "nat \<Rightarrow> nat \<Rightarrow> flt \<Rightarrow> nat \<Rightarrow> nat \<times> nat \<times> nat" where
  "window n splits ratio i =
     (let a = i * n div splits; z = (i + 1) * n div splits in (a, a + train_size ratio (z - a), z))"

definition check_splits :: "int \<Rightarrow> flt \<Rightarrow> nat \<Rightarrow> nat \<Rightarrow> unit res" where
  "check_splits n_splits ratio n min_test =
     (let min_window = n div nat n_splits in
      if n_splits < 2 \<or> \<not> (0 < ratio \<and> ratio < 1) \<or> min_window - train_size ratio min_window < min_test
      then Inl ValueError else Inr ())"

text \<open>\<open>xs[i]\<close>: a negative index counts from the end.\<close>

definition py_nth :: "'a list \<Rightarrow> int \<Rightarrow> 'a res" where
  "py_nth xs i = (let k = (if i < 0 then int (length xs) + i else i) in
     if 0 \<le> k \<and> k < int (length xs) then Inr (xs ! nat k) else Inl NotModelled)"

text \<open>First and last day of both parts of a window; a window whose training part reaches the end is skipped.\<close>

definition fold_period :: "date list \<Rightarrow> nat \<times> nat \<times> nat \<Rightarrow> ((date \<times> date) \<times> (date \<times> date)) option res" where
  "fold_period days w = (case w of (a, m, z) \<Rightarrow>
     if length days \<le> m then Inr None
     else rbind (py_nth days (int a)) (\<lambda>train_start. rbind (py_nth days (int m - 1)) (\<lambda>train_end.
          rbind (py_nth days (int m)) (\<lambda>test_start. rbind (py_nth days (int z - 1)) (\<lambda>test_end.
            Inr (Some ((train_start, train_end), (test_start, test_end))))))))"

section \<open>Portfolios\<close>

record wf_state =
  wf_is_sharpes :: "flt list"
  wf_oos_sharpes :: "flt list"
  wf_is_returns :: "flt list"
  wf_oos_returns :: "flt list"
  wf_oos_equity_curve :: "flt list"
  wf_oos_dates :: "date list"
  wf_risk_events :: "((date \<times> backtest_event) \<times> string \<times> nat) list"
  wf_chain_value :: flt

record wf_result =
  wr_n_splits :: int
  wr_folds :: wf_state
  wr_degradation :: flt
  wr_overfitting_score :: flt
  wr_oos_metrics :: "(flt \<times> flt) option"

text \<open>The options that the validator does not pass on have their defaults.\<close>

definition fold_env :: "'s backtest_env \<Rightarrow> 's backtest_env" where
  "fold_env env = env\<lparr>be_use_open_price := False, be_skip_terminal_liquidation := False, be_allocator := None\<rparr>"

definition run_fold :: "(flt \<Rightarrow> flt) \<Rightarrow> (flt \<Rightarrow> flt \<Rightarrow> flt) \<Rightarrow> 's backtest_env \<Rightarrow> 's \<Rightarrow> risk_manager option \<Rightarrow> date \<times> date
    \<Rightarrow> ('s book \<times> flt \<times> flt) res" where
  "run_fold sqrt_fn pow env strategy rm period =
     rbind (run_portfolio_backtest (fold_env env) (fst period) (snd period) strategy rm) (\<lambda>(b, bench).
       Inr (b, case engine_metrics sqrt_fn pow b bench of
         None \<Rightarrow> (0, 0) | Some m \<Rightarrow> (pf_sharpe_ratio m, pf_total_return m)))"

definition chain_curve :: "flt \<Rightarrow> flt list \<Rightarrow> flt list" where
  "chain_curve chain curve = (case curve of [] \<Rightarrow> [] | x # _ \<Rightarrow> if 0 < x then map (\<lambda>e. chain * e / x) curve else [])"

definition run_split :: "(flt \<Rightarrow> flt) \<Rightarrow> (flt \<Rightarrow> flt \<Rightarrow> flt) \<Rightarrow> 's backtest_env \<Rightarrow> 's \<Rightarrow> risk_manager option \<Rightarrow> date list \<Rightarrow> int \<Rightarrow> flt
    \<Rightarrow> nat \<Rightarrow> wf_state \<Rightarrow> wf_state res" where
  "run_split sqrt_fn pow env strategy rm days n_splits ratio i st =
     rbind (fold_period days (window (length days) (nat n_splits) ratio i)) (\<lambda>p. case p of
       None \<Rightarrow> Inr st
     | Some (is_period, oos_period) \<Rightarrow>
         rbind (run_fold sqrt_fn pow env strategy rm is_period) (\<lambda>(ib, is_sharpe, is_ret).
         rbind (run_fold sqrt_fn pow env strategy rm oos_period) (\<lambda>(ob, oos_sharpe, oos_ret).
           let chained = chain_curve (wf_chain_value st) (bk_equity_curve ob) in
           Inr \<lparr>wf_is_sharpes = wf_is_sharpes st @ [is_sharpe], wf_oos_sharpes = wf_oos_sharpes st @ [oos_sharpe],
             wf_is_returns = wf_is_returns st @ [is_ret], wf_oos_returns = wf_oos_returns st @ [oos_ret],
             wf_oos_equity_curve = wf_oos_equity_curve st @ chained,
             wf_oos_dates = wf_oos_dates st @ (if chained = [] then [] else bk_dates ob),
             wf_risk_events = wf_risk_events st @ map (\<lambda>e. (e, ''IS'', i)) (bk_risk_events ib) @ map (\<lambda>e. (e, ''OOS'', i)) (bk_risk_events ob),
             wf_chain_value = (if chained = [] then wf_chain_value st else last chained)\<rparr>)))"

definition degradation_of :: "flt list \<Rightarrow> flt list \<Rightarrow> flt" where
  "degradation_of is_sharpes oos_sharpes = (let is_mean = mean_of is_sharpes in
     if metric_threshold < \<bar>is_mean\<bar> then (is_mean - mean_of oos_sharpes) / \<bar>is_mean\<bar> else 0)"

definition oos_summary :: "(flt \<Rightarrow> flt) \<Rightarrow> (flt \<Rightarrow> flt \<Rightarrow> flt) \<Rightarrow> wf_state \<Rightarrow> flt \<times> flt" where
  "oos_summary sqrt_fn pow st = (let curve = wf_oos_equity_curve st in
     (if 1 < length curve then pf_sharpe_ratio (compute_metrics sqrt_fn pow curve (replicate (length curve) (hd curve)))
      else mean_of (wf_oos_sharpes st),
      prod_list (map (\<lambda>r. 1 + r) (wf_oos_returns st)) - 1))"

definition portfolio_walk_forward :: "(flt \<Rightarrow> flt) \<Rightarrow> (flt \<Rightarrow> flt \<Rightarrow> flt) \<Rightarrow> 's backtest_env \<Rightarrow> 's \<Rightarrow> risk_manager option
    \<Rightarrow> date \<Rightarrow> date \<Rightarrow> int \<Rightarrow> flt \<Rightarrow> wf_result res" where
  "portfolio_walk_forward sqrt_fn pow env strategy rm start_day end_day n_splits ratio =
     (let days = trading_days_between (be_calendar env) start_day end_day in
      rbind (check_splits n_splits ratio (length days) 20) (\<lambda>_.
      rbind (rfold (run_split sqrt_fn pow env strategy rm days n_splits ratio) [0..<nat n_splits]
        \<lparr>wf_is_sharpes = [], wf_oos_sharpes = [], wf_is_returns = [], wf_oos_returns = [], wf_oos_equity_curve = [],
          wf_oos_dates = [], wf_risk_events = [], wf_chain_value = be_initial_cash env\<rparr>) (\<lambda>st.
      let degr = (if wf_is_sharpes st = [] then 0 else degradation_of (wf_is_sharpes st) (wf_oos_sharpes st)) in
      Inr \<lparr>wr_n_splits = n_splits, wr_folds = st, wr_degradation = degr, wr_overfitting_score = max 0 degr,
        wr_oos_metrics = (if wf_is_sharpes st = [] then None else Some (oos_summary sqrt_fn pow st))\<rparr>)))"

section \<open>One stock\<close>

text \<open>The engine maps rows to an equity curve and a Sharpe ratio.\<close>

definition chain_returns :: "flt list \<Rightarrow> flt list \<Rightarrow> flt list" where
  "chain_returns curve chained = fold (\<lambda>r c. c @ [last c * (1 + r)]) (pct_returns curve) chained"

definition validate_split :: "('row list \<Rightarrow> (flt list \<times> flt) res) \<Rightarrow> 'row list \<Rightarrow> nat \<Rightarrow> flt \<Rightarrow> nat
    \<Rightarrow> (flt list list \<times> flt list \<times> flt list) \<Rightarrow> (flt list list \<times> flt list \<times> flt list) res" where
  "validate_split engine data splits ratio i acc = (case window (length data) splits ratio i of (a, m, z) \<Rightarrow>
     let train = take (m - a) (drop a data); test = take (z - m) (drop m data) in
     if length test < 10 then Inr acc
     else rbind (engine train) (\<lambda>(is_curve, is_sharpe). rbind (engine test) (\<lambda>(oos_curve, oos_sharpe).
       case acc of (curves, is_sharpes, oos_sharpes) \<Rightarrow> Inr (curves @ [oos_curve], is_sharpes @ [is_sharpe], oos_sharpes @ [oos_sharpe]))))"

record validation =
  vd_oos_equities :: "flt list list"
  vd_oos_equity :: "flt list"
  vd_oos_metrics :: "performance option"
  vd_degradation :: flt
  vd_overfitting_score :: flt

definition validate :: "(flt \<Rightarrow> flt) \<Rightarrow> (flt \<Rightarrow> flt \<Rightarrow> flt) \<Rightarrow> ('row list \<Rightarrow> (flt list \<times> flt) res) \<Rightarrow> nat list \<Rightarrow> 'row list \<Rightarrow> int \<Rightarrow> flt \<Rightarrow> flt
    \<Rightarrow> validation res" where
  "validate sqrt_fn pow engine warmups data n_splits ratio capital =
     rbind (check_splits n_splits ratio (length data) (fold max warmups 0 + 10)) (\<lambda>_.
     rbind (rfold (validate_split engine data (nat n_splits) ratio) [0..<nat n_splits] ([], [], [])) (\<lambda>(curves, is_sharpes, oos_sharpes).
       let oos = fold (\<lambda>c chained. if length c < 2 then chained else chain_returns c chained) curves [capital];
           is_mean = (if is_sharpes = [] then 0 else mean_of is_sharpes);
           oos_mean = (if oos_sharpes = [] then 0 else mean_of oos_sharpes);
           degr = (if metric_threshold < \<bar>is_mean\<bar> then (is_mean - oos_mean) / \<bar>is_mean\<bar> else 0)
       in Inr \<lparr>vd_oos_equities = curves, vd_oos_equity = oos,
            vd_oos_metrics = (if 1 < length oos then Some (compute_metrics sqrt_fn pow oos (replicate (length oos) (hd oos))) else None),
            vd_degradation = degr, vd_overfitting_score = max 0 degr\<rparr>))"

section \<open>The windows tile the range\<close>

lemma window_bounds:
  assumes "check_splits n_splits ratio n k = Inr ()" and "0 < k" and "i < nat n_splits" and "window n (nat n_splits) ratio i = (a, m, z)"
  shows "a \<le> m" "m < z" "z \<le> n" "1 \<le> train_size ratio (n div nat n_splits) \<Longrightarrow> a < m"
proof -
  define s where "s = nat n_splits"
  have s: "2 \<le> s" "0 < ratio" "ratio < 1" "k \<le> n div s - train_size ratio (n div s)"
    using assms(1) by (auto simp: check_splits_def Let_def s_def split: if_splits)
  have a: "a = i * n div s" "z = (i + 1) * n div s" "m = a + train_size ratio (z - a)"
    using assms(4) by (auto simp: window_def Let_def s_def)
  have "(x div s + y div s) * s \<le> x + y" for x y
    unfolding add_mult_distrib by (intro add_mono div_times_less_eq_dividend)
  then have "i * n div s + n div s \<le> (i * n + n) div s" using s(1) by (simp add: less_eq_div_iff_mult_less_eq)
  then have w: "n div s \<le> z - a" by (simp add: a algebra_simps)
  have ws: "0 < n div s" using s(4) assms(2) by linarith
  define l where "l = z - a"
  have "0 < l" using w ws by (simp add: l_def)
  then have "of_nat l * ratio < of_nat l * 1" using s(3) by (intro mult_strict_left_mono) auto
  then have "of_nat (z - a) * ratio < of_nat (z - a)" by (simp only: l_def mult_1_right)
  then have "train_size ratio (z - a) < z - a" unfolding train_size_def
    using s(2) by (metis floor_less_iff nat_less_iff of_int_of_nat_eq zero_le_floor mult_nonneg_nonneg of_nat_0_le_iff less_imp_le)
  then show "a \<le> m" "m < z" by (simp_all add: a(3))
  have "(i + 1) * n \<le> s * n" using assms(3) by (intro mult_right_mono) (auto simp: s_def)
  then have "(i + 1) * n div s \<le> s * n div s" by (rule div_le_mono)
  then show "z \<le> n" using s(1) by (simp add: a)
  show "a < m" if t: "1 \<le> train_size ratio (n div nat n_splits)"
  proof -
    have "train_size ratio (n div s) \<le> train_size ratio (z - a)"
      unfolding train_size_def using w s(2) by (intro nat_mono floor_mono mult_right_mono) auto
    then show ?thesis using t by (simp add: a(3) s_def)
  qed
qed

lemma slice_between:
  assumes "sorted_wrt (<) (xs :: 'a :: linorder list)" and "i \<le> j" and "j < length xs"
  shows "filter (\<lambda>x. xs ! i \<le> x \<and> x \<le> xs ! j) xs = take (Suc j - i) (drop i xs)"
proof -
  let ?P = "\<lambda>x. xs ! i \<le> x \<and> x \<le> xs ! j"
  have lt: "xs ! k < xs ! l" if "k < l" "l < length xs" for k l using assms(1) that by (simp add: sorted_wrt_iff_nth_less)
  have split: "xs = take i xs @ take (Suc j - i) (drop i xs) @ drop (Suc j) xs"
    using assms(2) by (metis (no_types, lifting) append_take_drop_id drop_drop le_SucI le_add_diff_inverse2)
  have "\<not> ?P x" if "x \<in> set (take i xs)" for x
    using that lt assms(2,3) by (fastforce simp: in_set_conv_nth)
  then have 1: "filter ?P (take i xs) = []" by (simp add: filter_empty_conv)
  have "\<not> ?P x" if x: "x \<in> set (drop (Suc j) xs)" for x
  proof -
    obtain k where "k < length xs - Suc j" "x = xs ! (Suc j + k)" using x by (auto simp: in_set_conv_nth)
    then show ?thesis using lt [of j "Suc j + k"] by (simp add: not_le)
  qed
  then have 3: "filter ?P (drop (Suc j) xs) = []" by (simp add: filter_empty_conv)
  have "?P x" if x: "x \<in> set (take (Suc j - i) (drop i xs))" for x
  proof -
    obtain k where k: "k < Suc j - i" "x = xs ! (i + k)" using x assms(3) by (auto simp: in_set_conv_nth)
    have "xs ! i \<le> xs ! (i + k)" "xs ! (i + k) \<le> xs ! j"
      using lt [of i "i + k"] lt [of "i + k" j] k(1) assms(3) by (cases "k = 0"; cases "i + k = j"; force)+
    then show ?thesis using k by simp
  qed
  then have 2: "filter ?P (take (Suc j - i) (drop i xs)) = take (Suc j - i) (drop i xs)" by (simp add: filter_id_conv)
  show ?thesis by (subst (3) split) (simp add: 1 2 3 del: append_take_drop_id)
qed

lemma between_slice:
  assumes "sorted_wrt (<) cal" and "days = trading_days_between cal a b" and "i \<le> j" and "j < length days"
  shows "trading_days_between cal (days ! i) (days ! j) = take (Suc j - i) (drop i days)"
proof -
  have sd: "sorted_wrt (<) days" using assms(1) by (simp add: assms(2) trading_days_between_def sorted_wrt_filter)
  have "days ! i \<in> set days" "days ! j \<in> set days" using assms(3,4) by simp_all
  then have "a \<le> days ! i" "days ! j \<le> b" unfolding assms(2) trading_days_between_def by simp_all
  then have "filter (\<lambda>x. days ! i \<le> x \<and> x \<le> days ! j) cal = filter (\<lambda>x. days ! i \<le> x \<and> x \<le> days ! j) (filter (\<lambda>d. a \<le> d \<and> d \<le> b) cal)"
    unfolding filter_filter by (intro filter_cong refl) auto
  then show ?thesis using slice_between [OF sd assms(3,4)] by (simp add: trading_days_between_def assms(2))
qed

lemma windows_tile:
  assumes "0 < s"
  shows "concat (map (\<lambda>i. take ((i + 1) * length xs div s - i * length xs div s) (drop (i * length xs div s) xs)) [0..<k]) = take (k * length xs div s) xs"
proof (induction k)
  case (Suc k)
  have "k * length xs div s \<le> (k + 1) * length xs div s" by (intro div_le_mono) simp
  then have "take ((k + 1) * length xs div s) xs = take (k * length xs div s) xs
      @ take ((k + 1) * length xs div s - k * length xs div s) (drop (k * length xs div s) xs)"
    by (metis le_add_diff_inverse take_add)
  then show ?case using Suc by simp
qed simp

definition period_days :: "calendar \<Rightarrow> ((date \<times> date) \<times> (date \<times> date)) option \<Rightarrow> date list" where
  "period_days cal p = (case p of None \<Rightarrow> []
     | Some ((a, b), (c, d)) \<Rightarrow> trading_days_between cal a b @ trading_days_between cal c d)"

definition ordered_period :: "(date \<times> date) \<times> (date \<times> date) \<Rightarrow> bool" where
  "ordered_period p \<longleftrightarrow> fst (fst p) \<le> snd (fst p) \<and> snd (fst p) < fst (snd p) \<and> fst (snd p) \<le> snd (snd p)"

lemma py_nth_in: "0 \<le> i \<Longrightarrow> i < int (length xs) \<Longrightarrow> py_nth xs i = Inr (xs ! nat i)"
  by (simp add: py_nth_def Let_def)

text \<open>C37: The folds of a walk-forward validation tile the range: when the checks pass and the training part of the
  shortest window has a day, every fold has an in-sample and an out-of-sample period, both not empty, the in-sample days
  before the out-of-sample days, and the days of all folds, in order, are exactly the trading days, each once; so no
  out-of-sample day has been used for training in its fold or any other.\<close>

theorem folds_tile_range:
  assumes "check_splits n_splits ratio (length days) 20 = Inr ()" and "sorted_wrt (<) cal" and "days = trading_days_between cal a b"
    and "1 \<le> train_size ratio (length days div nat n_splits)"
  shows "\<exists>ps. map (\<lambda>i. fold_period days (window (length days) (nat n_splits) ratio i)) [0..<nat n_splits] = map (Inr \<circ> Some) ps
    \<and> concat (map (period_days cal \<circ> Some) ps) = days
    \<and> list_all ordered_period ps"
proof -
  define n where "n = length days"
  define s where "s = nat n_splits"
  have s: "0 < s" using assms(1) by (auto simp: check_splits_def Let_def s_def split: if_splits)
  have sd: "sorted_wrt (<) days" using assms(2) by (simp add: assms(3) trading_days_between_def sorted_wrt_filter)
  have lt: "days ! k < days ! l" if "k < l" "l < n" for k l using sd that by (simp add: sorted_wrt_iff_nth_less n_def)
  define p where "p i = (case window n s ratio i of (a, m, z) \<Rightarrow> ((days ! a, days ! (m - 1)), (days ! m, days ! (z - 1))))" for i
  have fold: "fold_period days (window n s ratio i) = Inr (Some (p i))
      \<and> period_days cal (Some (p i)) = take ((i + 1) * n div s - i * n div s) (drop (i * n div s) days)
      \<and> ordered_period (p i)" if i: "i < s" for i
  proof -
    obtain a' m z where w: "window n s ratio i = (a', m, z)" by (metis surj_pair)
    have b: "a' < m" "m < z" "z \<le> n"
      using window_bounds [OF assms(1) _ _ w [unfolded n_def s_def]] i assms(4) by (simp_all add: s_def n_def)
    have az: "a' = i * n div s" "z = (i + 1) * n div s" using w by (simp_all add: window_def Let_def)
    have pi: "p i = ((days ! a', days ! (m - 1)), (days ! m, days ! (z - 1)))" by (simp add: p_def w)
    have "fold_period days (a', m, z) = Inr (Some (p i))"
      using b unfolding fold_period_def pi by (simp add: py_nth_in n_def nat_diff_distrib')
    moreover have "period_days cal (Some (p i)) = take (z - a') (drop a' days)"
    proof -
      have "trading_days_between cal (days ! a') (days ! (m - 1)) = take (m - a') (drop a' days)"
        using between_slice [OF assms(2,3), of a' "m - 1"] b by (simp add: n_def)
      moreover have "trading_days_between cal (days ! m) (days ! (z - 1)) = take (z - m) (drop m days)"
        using between_slice [OF assms(2,3), of m "z - 1"] b by (simp add: n_def)
      moreover have "take (z - a') (drop a' days) = take (m - a') (drop a' days) @ take (z - m) (drop m days)"
        using b take_add [of "m - a'" "z - m" "drop a' days"] by simp
      ultimately show ?thesis by (simp add: period_days_def pi)
    qed
    moreover have "days ! a' \<le> days ! (m - 1)" "days ! (m - 1) < days ! m" "days ! m \<le> days ! (z - 1)"
      using lt [of a' "m - 1"] lt [of "m - 1" m] lt [of m "z - 1"] b by (cases "a' = m - 1"; cases "m = z - 1"; force)+
    ultimately show ?thesis using w az by (simp add: pi ordered_period_def)
  qed
  define ps where "ps = map p [0..<s]"
  have "map (\<lambda>i. fold_period days (window n s ratio i)) [0..<s] = map (Inr \<circ> Some) ps"
    using fold by (auto simp: ps_def)
  moreover have "map (period_days cal \<circ> Some) ps = map (\<lambda>i. take ((i + 1) * n div s - i * n div s) (drop (i * n div s) days)) [0..<s]"
    using fold by (auto simp: ps_def)
  then have "concat (map (period_days cal \<circ> Some) ps) = days"
    using windows_tile [OF s, of days s] s by (simp add: n_def)
  moreover have "list_all ordered_period ps"
    unfolding ps_def list.pred_map list_all_iff comp_def using fold by simp
  ultimately show ?thesis unfolding n_def s_def by blast
qed

definition sample_days :: "date list" where
  "sample_days = map (\<lambda>k. Date 2024 (1 + k div 28) (1 + k mod 28)) [0..<60]"

theorem folds_tile_range_witness:
  "fold_period sample_days (window 60 2 (1 / 4) 0) = Inr (Some ((Date 2024 1 1, Date 2024 1 7), (Date 2024 1 8, Date 2024 2 2)))
   \<and> (\<exists>ps. map (\<lambda>i. fold_period sample_days (window 60 2 (1 / 4) i)) [0..<2] = map (Inr \<circ> Some) ps
       \<and> concat (map (period_days sample_days \<circ> Some) ps) = sample_days)"
proof -
  have len: "length sample_days = 60" by (simp add: sample_days_def)
  have c: "check_splits 2 (1 / 4) (length sample_days) 20 = Inr ()" unfolding len by code_simp
  have s: "sorted_wrt (<) sample_days" by code_simp
  have d: "sample_days = trading_days_between sample_days (Date 2024 1 1) (Date 2024 3 28)" by code_simp
  have t: "1 \<le> train_size (1 / 4) (length sample_days div nat 2)" unfolding len by code_simp
  have "fold_period sample_days (window 60 2 (1 / 4) 0) = Inr (Some ((Date 2024 1 1, Date 2024 1 7), (Date 2024 1 8, Date 2024 2 2)))" by code_simp
  then show ?thesis using folds_tile_range [OF c s d t] by (auto simp: len)
qed

text \<open>C38: A training fraction that the checks accept may leave the training part of the first window without a day.  Then the
  index of its last day is \<open>-1\<close>, the last trading day of the whole range: the in-sample run of the first fold covers
  every trading day, all out-of-sample days included.\<close>

theorem empty_training_sees_everything:
  assumes "check_splits n_splits ratio (length days) 20 = Inr ()" and "train_size ratio (length days div nat n_splits) = 0"
    and "sorted_wrt (<) cal" and "days = trading_days_between cal a b"
  shows "\<exists>oos. fold_period days (window (length days) (nat n_splits) ratio 0) = Inr (Some ((hd days, last days), oos))
    \<and> trading_days_between cal (hd days) (last days) = days"
proof -
  obtain x m z where w: "window (length days) (nat n_splits) ratio 0 = (x, m, z)" by (metis surj_pair)
  have s: "0 < nat n_splits" using assms(1) by (auto simp: check_splits_def Let_def split: if_splits)
  have b: "m < z" "z \<le> length days" using window_bounds [OF assms(1) _ s w] by simp_all
  have m: "x = 0" "m = 0" using w assms(2) by (simp_all add: window_def Let_def)
  have ne: "days \<noteq> []" using b by auto
  have "py_nth days (- 1) = Inr (last days)" using ne by (simp add: py_nth_def Let_def last_conv_nth nat_diff_distrib Suc_le_eq)
  moreover have "py_nth days 0 = Inr (hd days)" using ne by (simp add: py_nth_def Let_def hd_conv_nth)
  moreover obtain y where "py_nth days (int z - 1) = Inr y" using b py_nth_in [of "int z - 1" days] by auto
  ultimately have "\<exists>oos. fold_period days (window (length days) (nat n_splits) ratio 0) = Inr (Some ((hd days, last days), oos))"
    unfolding w m using ne by (simp add: fold_period_def)
  moreover have "trading_days_between cal (hd days) (last days) = days"
    using between_slice [OF assms(3,4), of 0 "length days - 1"] ne by (simp add: hd_conv_nth last_conv_nth)
  ultimately show ?thesis by blast
qed

theorem empty_training_sees_everything_witness:
  "check_splits 2 (1 / 100) (length sample_days) 20 = Inr ()
   \<and> (\<exists>oos. fold_period sample_days (window 60 2 (1 / 100) 0) = Inr (Some ((Date 2024 1 1, Date 2024 3 4), oos)))"
proof -
  have len: "length sample_days = 60" by (simp add: sample_days_def)
  have c: "check_splits 2 (1 / 100) (length sample_days) 20 = Inr ()" unfolding len by code_simp
  have s: "sorted_wrt (<) sample_days" by code_simp
  have d: "sample_days = trading_days_between sample_days (Date 2024 1 1) (Date 2024 3 28)" by code_simp
  have t: "train_size (1 / 100) (length sample_days div nat 2) = 0" unfolding len by code_simp
  have "hd sample_days = Date 2024 1 1" "last sample_days = Date 2024 3 4" by code_simp+
  then show ?thesis using empty_training_sees_everything [OF c t s d] c by (simp add: len)
qed

end
