(* ===== verification/Reconcile.thy ===== *)
theory Reconcile
  imports Broker_Links Paper_Broker
begin

text \<open>
  \<open>ez/live/qmt/reconcile.py\<close>: the comparisons of the local books with what a broker reports about account, open orders,
  positions and trades.  Orders, links and trades are the dictionaries that the code receives.
\<close>

section \<open>Account\<close>

record account_snapshot =
  as_broker_type :: string
  as_as_of :: timestamp
  as_cash :: flt
  as_total_asset :: flt
  as_positions :: "(string, int) dict"
  as_open_orders :: "payload list"
  as_fills :: "payload list"
  as_account_id :: string

record position_drift =
  pd_symbol :: string
  pd_local_shares :: int
  pd_broker_shares :: int
  pd_share_delta :: int
  pd_notional_delta :: flt

record reconciliation =
  rc_broker_type :: string
  rc_compared_at :: timestamp
  rc_status :: string
  rc_cash_delta :: flt
  rc_total_asset_delta :: flt
  rc_max_notional_drift :: flt
  rc_position_drifts :: "position_drift list"

definition position_delta :: "(string, int) dict \<Rightarrow> (string, int) dict \<Rightarrow> (string, flt) dict \<Rightarrow> string \<Rightarrow> position_drift" where
  "position_delta hold broker prices s =
     (let local = dget_or hold s 0; remote = dget_or broker s 0 in
      \<lparr>pd_symbol = s, pd_local_shares = local, pd_broker_shares = remote, pd_share_delta = remote - local,
        pd_notional_delta = of_int (remote - local) * dget_or prices s 0\<rparr>)"

definition reconcile_broker_snapshot ::
  "flt \<Rightarrow> (string, int) dict \<Rightarrow> flt \<Rightarrow> (string, flt) dict \<Rightarrow> account_snapshot \<Rightarrow> flt \<Rightarrow> flt \<Rightarrow> int \<Rightarrow> reconciliation" where
  "reconcile_broker_snapshot local_cash hold local_equity prices snap cash_tol notional_tol share_tol =
     (let deltas = map (position_delta hold (as_positions snap) prices) (sorted_union (dkeys hold) (dkeys (as_positions snap)));
          drifts = filter (\<lambda>p. share_tol < \<bar>pd_share_delta p\<bar> \<or> notional_tol < \<bar>pd_notional_delta p\<bar>) deltas;
          broker_value = sum_list (map (\<lambda>(s, n). of_int n * dget_or prices s 0) (as_positions snap));
          cash_delta = as_cash snap - local_cash
      in \<lparr>rc_broker_type = as_broker_type snap, rc_compared_at = as_as_of snap,
          rc_status = (if cash_tol < \<bar>cash_delta\<bar> \<or> drifts \<noteq> [] then ''drift'' else ''ok''),
          rc_cash_delta = cash_delta, rc_total_asset_delta = as_cash snap + broker_value - local_equity,
          rc_max_notional_drift = fold (\<lambda>p m. max m \<bar>pd_notional_delta p\<bar>) deltas 0, rc_position_drifts = drifts\<rparr>)"

section \<open>Positions\<close>

definition reported_symbol :: "payload \<Rightarrow> string res" where
  "reported_symbol d = first_stripped d [''symbol'', ''stock_code'']"

fun broker_type_from_positions :: "payload list \<Rightarrow> string \<Rightarrow> string res" where
  "broker_type_from_positions [] fallback = Inr fallback"
| "broker_type_from_positions (p # ps) fallback =
     rbind (str_field p ''broker_type'') (\<lambda>t. if str_strip t \<noteq> [] then Inr (str_strip t) else broker_type_from_positions ps fallback)"

text \<open>The volume is compared; the usable, frozen and transit volumes are only converted.\<close>

definition add_position :: "payload \<Rightarrow> (string, int) dict \<Rightarrow> (string, int) dict res" where
  "add_position p d =
     rbind (reported_symbol p) (\<lambda>s.
     if s = [] then Inr d
     else rbind (int_field p ''volume'') (\<lambda>volume.
       rbind (py_int (py_or (jget p ''can_use_volume'' (jget p ''available_volume'' (JInt volume))) (JInt 0))) (\<lambda>_.
       rbind (int_field p ''frozen_volume'') (\<lambda>_. rbind (int_field p ''on_road_volume'') (\<lambda>_. Inr (dset d s volume))))))"

definition reconcile_broker_positions ::
  "(string, int) dict \<Rightarrow> payload list \<Rightarrow> int \<Rightarrow> string \<Rightarrow> timestamp \<Rightarrow> reconciliation res" where
  "reconcile_broker_positions hold positions share_tol broker_type compared_at =
     rbind (broker_type_from_positions positions broker_type) (\<lambda>bt.
     rbind (rfold add_position positions []) (\<lambda>broker.
       let drifts = filter (\<lambda>p. share_tol < \<bar>pd_share_delta p\<bar>)
             (map (position_delta hold broker []) (sorted_union (dkeys hold) (dkeys broker)))
       in Inr \<lparr>rc_broker_type = bt, rc_compared_at = compared_at, rc_status = (if drifts = [] then ''ok'' else ''drift''),
            rc_cash_delta = 0, rc_total_asset_delta = 0, rc_max_notional_drift = 0, rc_position_drifts = drifts\<rparr>))"

section \<open>Open orders\<close>

record order_drift =
  od_order_key :: string
  od_symbol :: string
  od_local_status :: string
  od_broker_status :: string
  od_reason :: string

record order_reconciliation =
  or_broker_type :: string
  or_compared_at :: timestamp
  or_status :: string
  or_local_open_order_count :: nat
  or_broker_open_order_count :: nat
  or_missing_local_orders :: "order_drift list"
  or_missing_broker_orders :: "order_drift list"
  or_status_drifts :: "order_drift list"

definition order_key :: "payload \<Rightarrow> string res" where
  "order_key d = rbind (str_field d ''broker_order_id'') (\<lambda>b. if b \<noteq> [] then Inr b else str_field d ''client_order_id'')"

definition comparable_open_status :: "string \<Rightarrow> string" where
  "comparable_open_status s = (let n = normalize_status s in
     if n = ''reported_cancel_pending'' then ''reported''
     else if n = ''partially_filled_cancel_pending'' then ''partially_filled'' else n)"

text \<open>The latest report of every order id, by status rank and then by time.\<close>

type_synonym latest_reports = "(string, execution_report \<times> string) dict"

definition supersedes :: "execution_report \<times> string \<Rightarrow> execution_report \<times> string \<Rightarrow> bool" where
  "supersedes new old \<longleftrightarrow> broker_order_status_rank (snd old) < broker_order_status_rank (snd new)
     \<or> broker_order_status_rank (snd new) = broker_order_status_rank (snd old) \<and> xr_as_of (fst old) \<le> xr_as_of (fst new)"

definition add_report :: "execution_report \<Rightarrow> latest_reports \<Rightarrow> latest_reports" where
  "add_report r d =
     (let entry = (r, normalize_broker_order_status (xr_status r) (xr_filled_shares r) (xr_remaining_shares r));
          b = str_strip (xr_broker_order_id r); c = str_strip (xr_client_order_id r);
          ks = filter (\<lambda>k. k \<noteq> []) (if c = b then [b] else [b, c])
      in fold (\<lambda>k d. case map_of d k of
           None \<Rightarrow> dset d k entry
         | Some old \<Rightarrow> if supersedes entry old then dset d k entry else d) ks d)"

text \<open>\<open>if value and not d.get(key): d[key] = value\<close>\<close>

definition fill_in :: "string \<Rightarrow> string \<Rightarrow> payload \<Rightarrow> payload" where
  "fill_in k v d = (if v \<noteq> [] \<and> \<not> truthy (jget d k JNull) then dset d k (JStr v) else d)"

definition fill_ids :: "execution_report \<Rightarrow> payload \<Rightarrow> payload" where
  "fill_ids r d = fill_in ''symbol'' (xr_symbol r) (fill_in ''broker_order_id'' (xr_broker_order_id r)
     (fill_in ''client_order_id'' (xr_client_order_id r) d))"

definition broker_order :: "latest_reports \<Rightarrow> payload \<Rightarrow> payload option res" where
  "broker_order latest raw =
     rbind (order_key raw) (\<lambda>k.
     let d = (case map_of latest k of None \<Rightarrow> raw | Some (r, status) \<Rightarrow> fill_ids r (dset raw ''status'' (JStr status))) in
     rbind (str_field d ''status'') (\<lambda>status. rbind (int_field d ''filled_shares'') (\<lambda>filled. rbind (int_field d ''remaining_shares'') (\<lambda>remaining.
       let n = normalize_broker_order_status status filled remaining in
       Inr (if broker_order_status_is_terminal n then None else Some (dset d ''status'' (JStr n)))))))"

definition local_link :: "latest_reports \<Rightarrow> payload \<Rightarrow> payload option res" where
  "local_link latest raw =
     rbind (order_key raw) (\<lambda>k.
     let d = (case map_of latest k of None \<Rightarrow> raw
           | Some (r, status) \<Rightarrow> dset (dset (dset (fill_ids r raw) ''latest_report_id'' (JStr (xr_report_id r)))
               ''last_report_ts'' (JInt (xr_as_of r))) ''latest_status'' (JStr status)) in
     rbind (str_field d ''latest_status'') (\<lambda>status.
       let n = normalize_status status in
       Inr (if broker_order_status_is_terminal n then None else Some (dset d ''latest_status'' (JStr n)))))"

text \<open>The open ones under their keys; later ones replace earlier ones.\<close>

definition keyed :: "payload option list \<Rightarrow> (string, payload) dict res" where
  "keyed ds = rbind (rmap (\<lambda>d. rbind (order_key d) (\<lambda>k. Inr (k, d))) (List.map_filter id ds))
     (\<lambda>ps. Inr (dict_of (filter (\<lambda>(k, d). k \<noteq> []) ps)))"

definition missing_orders :: "(string, payload) dict \<Rightarrow> (string, payload) dict \<Rightarrow> (string \<Rightarrow> payload \<Rightarrow> order_drift res) \<Rightarrow> order_drift list res" where
  "missing_orders here there f = rmap (\<lambda>(k, d). f k d) (filter (\<lambda>(k, d). \<not> dhas there k) here)"

definition missing_local :: "string \<Rightarrow> payload \<Rightarrow> order_drift res" where
  "missing_local k d = rbind (str_field d ''symbol'') (\<lambda>s. rbind (str_field d ''status'') (\<lambda>st. Inr
     \<lparr>od_order_key = k, od_symbol = s, od_local_status = ''missing'', od_broker_status = st, od_reason = ''broker_open_order_missing_local_link''\<rparr>))"

definition missing_broker :: "string \<Rightarrow> payload \<Rightarrow> order_drift res" where
  "missing_broker k d = rbind (str_field d ''symbol'') (\<lambda>s. rbind (str_field d ''latest_status'') (\<lambda>st. Inr
     \<lparr>od_order_key = k, od_symbol = s, od_local_status = st, od_broker_status = ''missing'', od_reason = ''local_open_link_missing_broker_order''\<rparr>))"

definition status_drift :: "(string, payload) dict \<Rightarrow> (string, payload) dict \<Rightarrow> string \<Rightarrow> order_drift option res" where
  "status_drift locals brokers k = (case (map_of locals k, map_of brokers k) of
     (Some l, Some b) \<Rightarrow>
       rbind (str_field l ''latest_status'') (\<lambda>ls. rbind (str_field b ''status'') (\<lambda>bs.
         let x = comparable_open_status ls; y = comparable_open_status bs in
         if x \<noteq> [] \<and> y \<noteq> [] \<and> x \<noteq> y
         then rbind (py_str (py_or (jget b ''symbol'' (JStr [])) (py_or (jget l ''symbol'' (JStr [])) (JStr [])))) (\<lambda>s. Inr (Some
           \<lparr>od_order_key = k, od_symbol = s, od_local_status = x, od_broker_status = y, od_reason = ''order_status_mismatch''\<rparr>))
         else Inr None))
   | _ \<Rightarrow> Inr None)"

definition reconcile_broker_orders :: "account_snapshot \<Rightarrow> payload list \<Rightarrow> execution_report list \<Rightarrow> order_reconciliation res" where
  "reconcile_broker_orders snap links reports =
     (let latest = fold add_report reports [] in
      rbind (rmap (broker_order latest) (as_open_orders snap)) (\<lambda>orders.
      rbind (rmap (local_link latest) links) (\<lambda>open_links.
      rbind (keyed orders) (\<lambda>brokers. rbind (keyed open_links) (\<lambda>locals.
      rbind (missing_orders brokers locals missing_local) (\<lambda>no_local.
      rbind (missing_orders locals brokers missing_broker) (\<lambda>no_broker.
      rbind (rmap (status_drift locals brokers) (sort (filter (dhas brokers) (dkeys locals)))) (\<lambda>ds.
        let drifts = List.map_filter id ds in
        Inr \<lparr>or_broker_type = as_broker_type snap, or_compared_at = as_as_of snap,
          or_status = (if no_local \<noteq> [] \<or> no_broker \<noteq> [] \<or> drifts \<noteq> [] then ''drift'' else ''ok''),
          or_local_open_order_count = length locals, or_broker_open_order_count = length brokers,
          or_missing_local_orders = no_local, or_missing_broker_orders = no_broker, or_status_drifts = drifts\<rparr>))))))))"

section \<open>Trades\<close>

record trade_drift =
  dr_broker_trade_id :: string
  dr_symbol :: string
  dr_side :: string
  dr_broker_volume :: int
  dr_local_volume :: int
  dr_volume_delta :: int
  dr_reason :: string

record trade_bucket =
  tb_shares :: int
  tb_notional :: flt
  tb_traded_ids :: "string list"

record trade_reconciliation =
  tc_broker_type :: string
  tc_compared_at :: timestamp
  tc_status :: string
  tc_business_date :: date
  tc_broker_trade_count :: nat
  tc_local_trade_count :: nat
  tc_trade_drifts :: "trade_drift list"

type_synonym buckets = "(string \<times> string, trade_bucket) dict"

definition normalize_trade_side :: "json \<Rightarrow> string res" where
  "normalize_trade_side raw = rbind (py_str (py_or raw (JStr []))) (\<lambda>s.
     let side = str_lower (str_strip s) in
     Inr (if side \<in> {''buy'', ''b'', ''23'', ''long''} then ''buy''
          else if side \<in> {''sell'', ''s'', ''24'', ''short''} then ''sell'' else side))"

text \<open>A trade that counts: its bucket, its shares, its price and its id.\<close>

definition read_shares :: "payload \<Rightarrow> int res" where
  "read_shares t = py_int (py_or (jget t ''shares'' (jget t ''traded_volume'' (JInt 0))) (JInt 0))"

definition counted_key :: "payload \<Rightarrow> ((string \<times> string) \<times> int) option res" where
  "counted_key t =
     rbind (reported_symbol t) (\<lambda>s. if s = [] then Inr None
     else rbind (normalize_trade_side (jget t ''side'' JNull)) (\<lambda>side. if side \<noteq> ''buy'' \<and> side \<noteq> ''sell'' then Inr None
     else rbind (read_shares t) (\<lambda>n. Inr (if n \<le> 0 then None else Some ((s, side), n)))))"

definition read_trade :: "payload \<Rightarrow> ((string \<times> string) \<times> int \<times> flt \<times> string) option res" where
  "read_trade t = rbind (counted_key t) (\<lambda>c. case c of
     None \<Rightarrow> Inr None
   | Some (key, n) \<Rightarrow>
       rbind (py_float (py_or (jget t ''price'' (jget t ''traded_price'' (JFloat 0))) (JFloat 0))) (\<lambda>price.
       rbind (first_str t [''traded_id'', ''broker_trade_id'']) (\<lambda>tid. Inr (Some (key, n, price, tid)))))"

definition add_trade :: "(string \<times> string) \<times> int \<times> flt \<times> string \<Rightarrow> buckets \<Rightarrow> buckets" where
  "add_trade t d = (case t of (key, n, price, tid) \<Rightarrow>
     let b = dget_or d key \<lparr>tb_shares = 0, tb_notional = 0, tb_traded_ids = []\<rparr> in
     dset d key \<lparr>tb_shares = tb_shares b + n, tb_notional = tb_notional b + price * of_int n,
       tb_traded_ids = tb_traded_ids b @ (if tid = [] then [] else [tid])\<rparr>)"

definition aggregate :: "payload list \<Rightarrow> buckets res" where
  "aggregate trades = rfold (\<lambda>t d. rbind (read_trade t) (\<lambda>x. Inr (case x of None \<Rightarrow> d | Some y \<Rightarrow> add_trade y d))) trades []"

definition trade_count :: "payload list \<Rightarrow> nat res" where
  "trade_count trades = rbind (rmap counted_key trades) (\<lambda>ks. Inr (length (filter (\<lambda>k. k \<noteq> None) ks)))"

definition first_id :: "trade_bucket \<Rightarrow> string" where
  "first_id b = (case tb_traded_ids b of [] \<Rightarrow> [] | x # _ \<Rightarrow> x)"

definition vwap :: "trade_bucket \<Rightarrow> flt" where
  "vwap b = tb_notional b / of_int (if tb_shares b = 0 then 1 else tb_shares b)"

definition bucket_drift :: "flt \<Rightarrow> int \<Rightarrow> buckets \<Rightarrow> buckets \<Rightarrow> string \<times> string \<Rightarrow> trade_drift option" where
  "bucket_drift price_tol share_tol brokers locals key =
     (let mk = (\<lambda>tid bv lv delta reason. Some \<lparr>dr_broker_trade_id = tid, dr_symbol = fst key, dr_side = snd key, dr_broker_volume = bv,
            dr_local_volume = lv, dr_volume_delta = delta, dr_reason = reason\<rparr>)
      in case (map_of brokers key, map_of locals key) of
        (None, None) \<Rightarrow> None
      | (None, Some l) \<Rightarrow> mk [] 0 (tb_shares l) (- tb_shares l) ''missing_broker''
      | (Some b, None) \<Rightarrow> mk (first_id b) (tb_shares b) 0 (tb_shares b) ''missing_local''
      | (Some b, Some l) \<Rightarrow>
          if share_tol < \<bar>tb_shares b - tb_shares l\<bar>
          then mk (first_id b) (tb_shares b) (tb_shares l) (tb_shares b - tb_shares l) ''volume_mismatch''
          else if price_tol < \<bar>vwap b - vwap l\<bar> then mk (first_id b) (tb_shares b) (tb_shares l) 0 ''price_mismatch''
          else None)"

definition reconcile_broker_trades ::
  "payload list \<Rightarrow> payload list \<Rightarrow> date \<Rightarrow> string \<Rightarrow> flt \<Rightarrow> int \<Rightarrow> timestamp \<Rightarrow> trade_reconciliation res" where
  "reconcile_broker_trades local_trades broker_trades business_date broker_type price_tol share_tol compared_at =
     rbind (aggregate broker_trades) (\<lambda>brokers. rbind (aggregate local_trades) (\<lambda>locals.
     rbind (trade_count broker_trades) (\<lambda>bn. rbind (trade_count local_trades) (\<lambda>ln.
       let drifts = List.map_filter (bucket_drift price_tol share_tol brokers locals) (sorted_union (dkeys brokers) (dkeys locals)) in
       Inr \<lparr>tc_broker_type = broker_type, tc_compared_at = compared_at, tc_status = (if drifts = [] then ''ok'' else ''drift''),
         tc_business_date = business_date, tc_broker_trade_count = bn, tc_local_trade_count = ln, tc_trade_drifts = drifts\<rparr>))))"

section \<open>What an agreement means\<close>

text \<open>An account that reconciles within the default share tolerance holds, for every symbol, exactly the shares the broker
  reports, its cash is within the cash tolerance, and the broker's total is off by at most the cash tolerance plus the
  error of the local equity; and an account that differs in one share of any symbol is reported.\<close>

theorem account_reconciled:
  assumes "0 \<le> notional_tol" and "dict_ok (as_positions snap)" and "dict_ok hold"
    and "r = reconcile_broker_snapshot local_cash hold equity prices snap cash_tol notional_tol 0"
  shows "(rc_status r = ''ok'' \<longleftrightarrow> \<bar>as_cash snap - local_cash\<bar> \<le> cash_tol \<and> (\<forall>s. dget_or (as_positions snap) s 0 = dget_or hold s 0))
    \<and> (rc_status r = ''ok'' \<longrightarrow> rc_position_drifts r = [] \<and> rc_max_notional_drift r = 0
        \<and> \<bar>rc_total_asset_delta r\<bar> \<le> cash_tol + \<bar>local_cash + sum_list (map (\<lambda>(s, n). of_int n * dget_or prices s 0) hold) - equity\<bar>)"
proof -
  define P where "P p \<longleftrightarrow> 0 < \<bar>pd_share_delta p\<bar> \<or> notional_tol < \<bar>pd_notional_delta p\<bar>" for p :: position_drift
  define xs where "xs = sorted_union (dkeys hold) (dkeys (as_positions snap))"
  define f where "f = position_delta hold (as_positions snap) prices"
  have drift: "rc_position_drifts r = filter P (map f xs)"
    and status: "rc_status r = (if cash_tol < \<bar>as_cash snap - local_cash\<bar> \<or> filter P (map f xs) \<noteq> [] then ''drift'' else ''ok'')"
    and maxd: "rc_max_notional_drift r = fold (\<lambda>p m. max m \<bar>pd_notional_delta p\<bar>) (map f xs) 0"
    unfolding assms(4) reconcile_broker_snapshot_def Let_def P_def xs_def f_def by simp_all
  have fP: "P (f s) \<longleftrightarrow> dget_or (as_positions snap) s 0 \<noteq> dget_or hold s 0" for s
    using assms(1) by (auto simp: P_def f_def position_delta_def Let_def)
  have outside: "dget_or (as_positions snap) s 0 = dget_or hold s 0" if "s \<notin> set xs" for s
    using that by (auto simp: xs_def dget_or_def split: option.split dest: map_of_in_keys)
  have same: "filter P (map f xs) = [] \<longleftrightarrow> (\<forall>s. dget_or (as_positions snap) s 0 = dget_or hold s 0)"
    using fP outside by (auto simp: filter_empty_conv)
  have sums: "sum_list (map (\<lambda>(s, n). of_int n * dget_or prices s 0) (as_positions snap)) = sum_list (map (\<lambda>(s, n). of_int n * dget_or prices s 0) hold)"
    if eq: "\<forall>s. dget_or (as_positions snap) s 0 = dget_or hold s 0"
  proof -
    have key_sum: "sum_list (map (\<lambda>(s, n). of_int n * dget_or prices s 0) d) = (\<Sum>s \<in> set xs. of_int (dget_or d s 0) * dget_or prices s 0)"
      if ok: "dict_ok d" and sub: "set (dkeys d) \<subseteq> set xs" for d :: "(string, int) dict"
    proof -
      have "sum_list (map (\<lambda>(s, n). of_int n * dget_or prices s 0) d) = sum_list (map (\<lambda>s. of_int (dget_or d s 0) * dget_or prices s 0) (dkeys d))"
        using ok by (intro arg_cong [where f = sum_list]) (auto simp: dget_or_def dict_ok_def)
      also have "\<dots> = (\<Sum>s \<in> set (dkeys d). of_int (dget_or d s 0) * dget_or prices s 0)"
        using ok unfolding dict_ok_def by (rule sum_list_distinct_conv_sum_set)
      also have "\<dots> = (\<Sum>s \<in> set xs. of_int (dget_or d s 0) * dget_or prices s 0)"
        using sub by (intro sum.mono_neutral_left) (auto simp: dget_or_def split: option.split dest: map_of_in_keys)
      finally show ?thesis .
    qed
    show ?thesis using key_sum [OF assms(2)] key_sum [OF assms(3)] eq by (simp add: xs_def)
  qed
  have max0: "fold (\<lambda>p m. max m \<bar>pd_notional_delta p\<bar>) ps 0 = 0" if "\<forall>p \<in> set ps. pd_notional_delta p = 0" for ps
    using that by (induction ps) auto
  show ?thesis
  proof (intro conjI impI)
    show "rc_status r = ''ok'' \<longleftrightarrow> \<bar>as_cash snap - local_cash\<bar> \<le> cash_tol \<and> (\<forall>s. dget_or (as_positions snap) s 0 = dget_or hold s 0)"
      using status same by (simp add: not_less)
    assume ok: "rc_status r = ''ok''"
    then have c: "\<bar>as_cash snap - local_cash\<bar> \<le> cash_tol" and e: "filter P (map f xs) = []"
      using status by (auto split: if_splits)
    then show "rc_position_drifts r = []" by (simp add: drift)
    have eq: "\<forall>s. dget_or (as_positions snap) s 0 = dget_or hold s 0" using e same by blast
    show "rc_max_notional_drift r = 0" unfolding maxd by (rule max0) (simp add: f_def position_delta_def Let_def eq)
    show "\<bar>rc_total_asset_delta r\<bar> \<le> cash_tol + \<bar>local_cash + sum_list (map (\<lambda>(s, n). of_int n * dget_or prices s 0) hold) - equity\<bar>"
      using c sums [OF eq] by (simp add: assms(4) reconcile_broker_snapshot_def Let_def)
  qed
qed

theorem account_reconciled_witness:
  "rc_status (reconcile_broker_snapshot 100 [(''A'', 300)] 3100 [(''A'', 10)]
      \<lparr>as_broker_type = ''qmt'', as_as_of = 0, as_cash = 100, as_total_asset = 3100, as_positions = [(''A'', 300)], as_open_orders = [], as_fills = [], as_account_id = []\<rparr> 1 100 0) = ''ok''
   \<and> rc_status (reconcile_broker_snapshot 100 [(''A'', 300)] 3100 [(''A'', 10)]
      \<lparr>as_broker_type = ''qmt'', as_as_of = 0, as_cash = 100, as_total_asset = 3100, as_positions = [(''A'', 299)], as_open_orders = [], as_fills = [], as_account_id = []\<rparr> 1 100 0) \<noteq> ''ok''"
proof -
  let ?s = "\<lambda>n. \<lparr>as_broker_type = ''qmt'', as_as_of = 0, as_cash = 100, as_total_asset = 3100, as_positions = [(''A'', n :: int)], as_open_orders = [], as_fills = [], as_account_id = []\<rparr>"
  have d: "dict_ok (as_positions (?s n))" "dict_ok [(''A'', 300 :: int)]" "(0 :: flt) \<le> 100" for n by (simp_all add: dict_ok_def)
  have "(\<forall>s. dget_or [(''A'', n)] s 0 = dget_or [(''A'', 300)] s 0) \<longleftrightarrow> n = (300 :: int)" for n by (auto simp: dget_or_def split: if_splits)
  then show ?thesis using account_reconciled [OF d(3) d(1) d(2) refl, THEN conjunct1] by simp
qed

section \<open>Trades by their totals\<close>

type_synonym counted = "(string \<times> string) \<times> int \<times> flt \<times> string"

definition read_trades :: "payload list \<Rightarrow> counted list res" where
  "read_trades trades = rbind (rmap read_trade trades) (\<lambda>xs. Inr (List.map_filter id xs))"

definition volume_of :: "string \<times> string \<Rightarrow> counted list \<Rightarrow> int" where
  "volume_of key ts = sum_list (map (\<lambda>(k, n, p, i). if k = key then n else 0) ts)"

definition value_of :: "string \<times> string \<Rightarrow> counted list \<Rightarrow> flt" where
  "value_of key ts = sum_list (map (\<lambda>(k, n, p, i). if k = key then p * of_int n else 0) ts)"

lemma aggregate_reads: "aggregate trades = rbind (read_trades trades) (\<lambda>ts. Inr (fold add_trade ts []))"
proof -
  have "rfold (\<lambda>t d. rbind (read_trade t) (\<lambda>x. Inr (case x of None \<Rightarrow> d | Some y \<Rightarrow> add_trade y d))) trades d
      = rbind (rmap read_trade trades) (\<lambda>xs. Inr (fold add_trade (List.map_filter id xs) d))" for d
  proof (induction trades arbitrary: d)
    case (Cons t trades)
    show ?case
    proof (cases "read_trade t")
      case (Inr x)
      then show ?thesis using Cons.IH
        by (cases "rmap read_trade trades"; cases x) (simp_all add: List.map_filter_simps)
    qed simp
  qed (simp add: List.map_filter_simps)
  then show ?thesis by (cases "rmap read_trade trades") (simp_all add: aggregate_def read_trades_def)
qed

lemma add_trade_get:
  "map_of (add_trade (k, n, p, i) d) key = (if key = k then Some \<lparr>tb_shares = (case map_of d k of None \<Rightarrow> 0 | Some b \<Rightarrow> tb_shares b) + n,
      tb_notional = (case map_of d k of None \<Rightarrow> 0 | Some b \<Rightarrow> tb_notional b) + p * of_int n,
      tb_traded_ids = (case map_of d k of None \<Rightarrow> [] | Some b \<Rightarrow> tb_traded_ids b) @ (if i = [] then [] else [i])\<rparr> else map_of d key)"
  by (auto simp: add_trade_def Let_def dget_or_def split: option.split)

lemma bucket_totals:
  "(map_of (fold add_trade ts d) key = None \<longleftrightarrow> map_of d key = None \<and> key \<notin> fst ` set ts)
    \<and> (\<forall>b. map_of (fold add_trade ts d) key = Some b \<longrightarrow>
        tb_shares b = (case map_of d key of None \<Rightarrow> 0 | Some c \<Rightarrow> tb_shares c) + volume_of key ts
        \<and> tb_notional b = (case map_of d key of None \<Rightarrow> 0 | Some c \<Rightarrow> tb_notional c) + value_of key ts)"
proof (induction ts arbitrary: d)
  case (Cons t ts)
  obtain k n p i where t: "t = (k, n, p, i)" by (cases t)
  show ?case using Cons.IH [of "add_trade (k, n, p, i) d"]
    by (auto simp: t add_trade_get volume_of_def value_of_def algebra_simps split: option.splits if_splits)
qed (auto simp: volume_of_def value_of_def)

lemma read_positive: "read_trade t = Inr (Some (key, n, p, i)) \<Longrightarrow> 0 < n"
  by (auto simp: read_trade_def counted_key_def split: option.splits if_splits)

lemma reads_positive:
  assumes "read_trades trades = Inr ts" and "(key, n, p, i) \<in> set ts"
  shows "0 < n"
proof -
  obtain xs where "rmap read_trade trades = Inr xs" "Some (key, n, p, i) \<in> set xs"
    using assms by (auto simp: read_trades_def List.map_filter_def)
  then obtain t where "read_trade t = Inr (Some (key, n, p, i))"
    unfolding rmap_Inr_iff list_all2_conv_all_nth by (metis in_set_conv_nth)
  then show ?thesis by (rule read_positive)
qed

lemma volume_positive:
  assumes "\<And>k n p i. (k, n, p, i) \<in> set ts \<Longrightarrow> 0 < n"
  shows "0 \<le> volume_of key ts \<and> (0 < volume_of key ts \<longleftrightarrow> key \<in> fst ` set ts)"
  using assms
proof (induction ts)
  case (Cons t ts)
  obtain k n p i where t: "t = (k, n, p, i)" by (cases t)
  have n: "0 < n" using Cons.prems [of k n p i] by (simp add: t)
  have IH: "0 \<le> volume_of key ts" "0 < volume_of key ts \<longleftrightarrow> key \<in> fst ` set ts"
    using Cons.IH Cons.prems by (metis list.set_intros(2))+
  have eq: "volume_of key (t # ts) = (if k = key then n else 0) + volume_of key ts" by (simp add: volume_of_def t)
  show ?case unfolding eq using IH n by (auto simp: t)
qed (simp add: volume_of_def)

lemma reads_count:
  assumes "read_trades trades = Inr ts"
  shows "trade_count trades = Inr (length ts)"
proof -
  obtain xs where xs: "rmap read_trade trades = Inr xs" "ts = List.map_filter id xs" using assms by (auto simp: read_trades_def)
  have "rmap counted_key trades = Inr (map (map_option (\<lambda>(key, n, p, i). (key, n))) xs)"
    using xs(1)
  proof (induction trades arbitrary: xs)
    case (Cons t trades)
    then obtain y ys where y: "read_trade t = Inr y" "rmap read_trade trades = Inr ys" "xs = y # ys" by auto
    have "counted_key t = Inr (map_option (\<lambda>(key, n, p, i). (key, n)) y)"
      using y(1) by (cases "counted_key t") (auto simp: read_trade_def split: option.splits)
    then show ?case using Cons.IH [OF y(2)] y(3) by (cases y) (auto split: prod.splits)
  qed simp
  moreover have "length (filter (\<lambda>k. k \<noteq> None) (map (map_option g) xs)) = length (List.map_filter id xs)" for g :: "counted \<Rightarrow> (string \<times> string) \<times> int"
    by (induction xs) (auto simp: List.map_filter_simps simp del: not_None_eq split: option.split)
  ultimately show ?thesis by (simp add: trade_count_def xs(2))
qed

text \<open>C39: The reconciliation of the trades of a day is a comparison of totals: however the broker slices and orders its fills, the
  two sides agree exactly if, for every symbol and side, both have traded or neither, the traded volumes differ by at most
  the share tolerance and the average prices by at most the price tolerance.\<close>

theorem trades_reconciled_by_totals:
  assumes "reconcile_broker_trades local_trades broker_trades business_date broker_type price_tol share_tol compared_at = Inr r"
    and "read_trades local_trades = Inr ls" and "read_trades broker_trades = Inr bs" and "0 \<le> share_tol"
  shows "(tc_status r = ''ok'' \<longleftrightarrow> (\<forall>key. (0 < volume_of key bs \<longleftrightarrow> 0 < volume_of key ls) \<and> \<bar>volume_of key bs - volume_of key ls\<bar> \<le> share_tol
        \<and> (0 < volume_of key bs \<longrightarrow> \<bar>value_of key bs / of_int (volume_of key bs) - value_of key ls / of_int (volume_of key ls)\<bar> \<le> price_tol)))
    \<and> tc_broker_trade_count r = length bs \<and> tc_local_trade_count r = length ls"
proof -
  define B where "B = fold add_trade bs []"
  define L where "L = fold add_trade ls []"
  have agg: "aggregate broker_trades = Inr B" "aggregate local_trades = Inr L"
    by (simp_all add: aggregate_reads assms(2,3) B_def L_def)
  have r: "tc_status r = (if List.map_filter (bucket_drift price_tol share_tol B L) (sorted_union (dkeys B) (dkeys L)) = [] then ''ok'' else ''drift'')"
    "tc_broker_trade_count r = length bs" "tc_local_trade_count r = length ls"
    using assms(1) by (auto simp: reconcile_broker_trades_def agg reads_count [OF assms(2)] reads_count [OF assms(3)] Let_def)
  have "0 \<le> volume_of key bs \<and> (0 < volume_of key bs \<longleftrightarrow> key \<in> fst ` set bs)" for key
    by (rule volume_positive, rule reads_positive [OF assms(3)])
  then have nb: "0 \<le> volume_of key bs" "0 < volume_of key bs \<longleftrightarrow> key \<in> fst ` set bs" for key by blast+
  have "0 \<le> volume_of key ls \<and> (0 < volume_of key ls \<longleftrightarrow> key \<in> fst ` set ls)" for key
    by (rule volume_positive, rule reads_positive [OF assms(2)])
  then have nl: "0 \<le> volume_of key ls" "0 < volume_of key ls \<longleftrightarrow> key \<in> fst ` set ls" for key by blast+
  have mb: "map_of B key = None \<longleftrightarrow> \<not> 0 < volume_of key bs" "map_of B key = Some b \<Longrightarrow> tb_shares b = volume_of key bs \<and> tb_notional b = value_of key bs"
    and ml: "map_of L key = None \<longleftrightarrow> \<not> 0 < volume_of key ls" "map_of L key = Some b \<Longrightarrow> tb_shares b = volume_of key ls \<and> tb_notional b = value_of key ls" for key b
    using bucket_totals [of bs "[]" key] bucket_totals [of ls "[]" key] nb(2) nl(2) by (auto simp: B_def L_def)
  have drift: "bucket_drift price_tol share_tol B L key = None \<longleftrightarrow>
      (0 < volume_of key bs \<longleftrightarrow> 0 < volume_of key ls) \<and> \<bar>volume_of key bs - volume_of key ls\<bar> \<le> share_tol
        \<and> (0 < volume_of key bs \<longrightarrow> \<bar>value_of key bs / of_int (volume_of key bs) - value_of key ls / of_int (volume_of key ls)\<bar> \<le> price_tol)" for key
  proof -
    consider "map_of B key = None" "map_of L key = None" | l where "map_of B key = None" "map_of L key = Some l"
      | b where "map_of B key = Some b" "map_of L key = None" | b l where "map_of B key = Some b" "map_of L key = Some l"
      by (cases "map_of B key"; cases "map_of L key") auto
    then show ?thesis
    proof cases
      case 1
      then have "volume_of key bs = 0" "volume_of key ls = 0" using mb(1) ml(1) nb(1) nl(1) by (metis order_le_less)+
      then show ?thesis using 1 assms(4) by (simp add: bucket_drift_def)
    next
      case (2 l)
      then have "\<not> 0 < volume_of key bs" "0 < volume_of key ls" using mb(1) ml(1) by (metis option.distinct(1))+
      then show ?thesis using 2 by (simp add: bucket_drift_def)
    next
      case (3 b)
      then have "0 < volume_of key bs" "\<not> 0 < volume_of key ls" using mb(1) ml(1) by (metis option.distinct(1))+
      then show ?thesis using 3 by (simp add: bucket_drift_def)
    next
      case (4 b l)
      then have "0 < volume_of key bs" "0 < volume_of key ls" using mb(1) ml(1) by (metis option.distinct(1))+
      then show ?thesis using 4 mb(2) [OF 4(1)] ml(2) [OF 4(2)] by (simp add: bucket_drift_def vwap_def not_less)
    qed
  qed
  have none: "List.map_filter f xs = [] \<longleftrightarrow> (\<forall>x \<in> set xs. f x = None)" for f :: "string \<times> string \<Rightarrow> trade_drift option" and xs
    by (auto simp: List.map_filter_def filter_empty_conv)
  have outside: "bucket_drift price_tol share_tol B L key = None" if "key \<notin> set (dkeys B) \<union> set (dkeys L)" for key
  proof -
    have "map_of B key = None" "map_of L key = None" using that by (auto simp: map_of_eq_None_iff)
    then show ?thesis by (simp add: bucket_drift_def)
  qed
  have "tc_status r = ''ok'' \<longleftrightarrow> (\<forall>key \<in> set (dkeys B) \<union> set (dkeys L). bucket_drift price_tol share_tol B L key = None)"
    unfolding r(1) none set_sorted_union by simp
  then have "tc_status r = ''ok'' \<longleftrightarrow> (\<forall>key. bucket_drift price_tol share_tol B L key = None)" using outside by blast
  then show ?thesis using drift r(2,3) by simp
qed

text \<open>One local fill against two broker fills of the same volume and average price.\<close>

definition fill_payload :: "string \<Rightarrow> int \<Rightarrow> flt \<Rightarrow> payload" where
  "fill_payload side n p = [(''symbol'', JStr ''A''), (''side'', JStr side), (''shares'', JInt n), (''price'', JFloat p), (''traded_id'', JStr ''t'')]"

theorem trades_reconciled_by_totals_witness:
  "map_sum id tc_status (reconcile_broker_trades [fill_payload ''buy'' 300 (102 / 10)] [fill_payload ''23'' 100 10, fill_payload ''B'' 200 (103 / 10)]
      (Date 2024 1 2) ''qmt'' (1 / 100) 0 0) = Inr ''ok''
   \<and> \<bar>value_of (''A'', ''buy'') [((''A'', ''buy''), 100, 10, ''t''), ((''A'', ''buy''), 200, 103 / 10, ''t'')] / 300 - 102 / 10\<bar> \<le> (1 / 100 :: flt)"
proof -
  let ?l = "[fill_payload ''buy'' 300 (102 / 10)]" and ?b = "[fill_payload ''23'' 100 10, fill_payload ''B'' 200 (103 / 10)]"
  have l: "read_trades ?l = Inr [((''A'', ''buy''), 300, 102 / 10, ''t'')]" by code_simp
  have b: "read_trades ?b = Inr [((''A'', ''buy''), 100, 10, ''t''), ((''A'', ''buy''), 200, 103 / 10, ''t'')]" by code_simp
  have st: "map_sum id tc_status (reconcile_broker_trades ?l ?b (Date 2024 1 2) ''qmt'' (1 / 100) 0 0) = Inr ''ok''" by code_simp
  obtain r where r: "reconcile_broker_trades ?l ?b (Date 2024 1 2) ''qmt'' (1 / 100) 0 0 = Inr r" "tc_status r = ''ok''"
    using observe [OF st] by (elim exE conjE) (rule that)
  note totals = trades_reconciled_by_totals [OF r(1) l b order_refl, THEN conjunct1, THEN iffD1, OF r(2), THEN spec, of "(''A'', ''buy'')"]
  have v: "volume_of (''A'', ''buy'') [((''A'', ''buy''), 100, 10, ''t''), ((''A'', ''buy''), 200, 103 / 10, ''t'')] = 300"
    "volume_of (''A'', ''buy'') [((''A'', ''buy''), 300, 102 / 10, ''t'')] = 300"
    "value_of (''A'', ''buy'') [((''A'', ''buy''), 300, 102 / 10, ''t'')] = 3060"
    by (simp_all add: volume_of_def value_of_def)
  from totals [unfolded v] st show ?thesis by (intro conjI) simp_all
qed

end
