(* ===== verification/Submit_Gates.thy ===== *)
theory Submit_Gates
  imports Live_Utils Broker_Links Paper_Broker
begin

text \<open>
  The decisions of \<open>ez/live/qmt/broker.py\<close> that stand between a deployment and real orders: the submit policy and
  its preflight, the reconcile hard gate, the readiness of the broker session, the submit gate, the release
  gate, and the real broker with its own switch.  Every decision is fail-closed by blockers: a list of reasons
  that must be empty.
\<close>

section \<open>Policy and preflight\<close>

record submit_policy =
  po_enabled :: bool
  po_allowed_account_ids :: "string list"
  po_max_total_asset :: "flt option"
  po_max_initial_cash :: "flt option"

definition opt_number :: "json \<Rightarrow> flt option res" where
  "opt_number j = (if j = JNull then Inr None else rbind (py_float j) (\<lambda>x. Inr (Some x)))"

text \<open>A single account is a text; of a list the entries with a text are kept; anything else is no restriction.\<close>

definition allowed_accounts :: "json \<Rightarrow> string list res" where
  "allowed_accounts j = (case j of
     JStr s \<Rightarrow> Inr (if s = [] then [] else [s])
   | JList xs \<Rightarrow> rbind (rmap py_str xs) (\<lambda>ss. Inr (filter (\<lambda>s. s \<noteq> []) ss))
   | _ \<Rightarrow> Inr [])"

definition raw_submit_policy :: "json \<Rightarrow> payload" where
  "raw_submit_policy params = (case as_dict params of None \<Rightarrow> []
     | Some d \<Rightarrow> (case as_dict (jget d ''qmt_real_submit_policy'' JNull) of None \<Rightarrow> [] | Some raw \<Rightarrow> raw))"

definition build_qmt_real_submit_policy :: "json \<Rightarrow> submit_policy res" where
  "build_qmt_real_submit_policy params =
     (let raw = raw_submit_policy params in
      rbind (allowed_accounts (py_or (jget raw ''allowed_account_ids'' JNull) (JList []))) (\<lambda>ids.
      rbind (opt_number (jget raw ''max_total_asset'' JNull)) (\<lambda>asset.
      rbind (opt_number (jget raw ''max_initial_cash'' JNull)) (\<lambda>csh.
        Inr \<lparr>po_enabled = truthy (jget raw ''enabled'' (JBool False)), po_allowed_account_ids = ids,
          po_max_total_asset = asset, po_max_initial_cash = csh\<rparr>))))"

definition policy_to_dict :: "submit_policy \<Rightarrow> payload" where
  "policy_to_dict p = [(''enabled'', JBool (po_enabled p)),
     (''allowed_account_ids'', JList (map JStr (po_allowed_account_ids p))),
     (''max_total_asset'', case po_max_total_asset p of None \<Rightarrow> JNull | Some x \<Rightarrow> JFloat x),
     (''max_initial_cash'', case po_max_initial_cash p of None \<Rightarrow> JNull | Some x \<Rightarrow> JFloat x)]"

definition cap_blockers :: "string \<Rightarrow> string \<Rightarrow> flt option \<Rightarrow> flt option \<Rightarrow> string list" where
  "cap_blockers unavailable exceeded cap value = (case cap of None \<Rightarrow> []
     | Some c \<Rightarrow> (case value of None \<Rightarrow> [unavailable] | Some x \<Rightarrow> if c < x then [exceeded] else []))"

definition evaluate_preflight :: "submit_policy \<Rightarrow> string option \<Rightarrow> flt option \<Rightarrow> flt option \<Rightarrow> bool \<times> string list" where
  "evaluate_preflight p account_id total_asset initial_cash =
     (let blockers = (if po_enabled p then [] else [''real_submit_policy_disabled''])
        @ (if po_allowed_account_ids p = [] then []
           else if account_id = None \<or> account_id = Some [] then [''broker_account_id_unavailable'']
           else if the account_id \<in> set (po_allowed_account_ids p) then [] else [''account_not_whitelisted''])
        @ cap_blockers ''broker_total_asset_unavailable'' ''total_asset_above_policy_cap'' (po_max_total_asset p) total_asset
        @ cap_blockers ''deployment_initial_cash_unavailable'' ''initial_cash_above_policy_cap'' (po_max_initial_cash p) initial_cash
      in (blockers = [], blockers))"

section \<open>Reconcile hard gate\<close>

text \<open>\<open>str(d.get(k, "") or "") or None\<close>\<close>

definition opt_str_field :: "payload \<Rightarrow> string \<Rightarrow> string option res" where
  "opt_str_field d k = rbind (str_field d k) (\<lambda>s. Inr (if s = [] then None else Some s))"

definition reconcile_status_of :: "payload option \<Rightarrow> string option res" where
  "reconcile_status_of r = (case r of None \<Rightarrow> Inr None
     | Some d \<Rightarrow> rbind (opt_str_field d ''status'') (\<lambda>s. Inr (map_option str_lower s)))"

definition status_json :: "string option \<Rightarrow> json" where
  "status_json s = (case s of None \<Rightarrow> JNull | Some t \<Rightarrow> JStr t)"

text \<open>One reconcile path: its blockers for its status.\<close>

definition reconcile_blockers :: "string \<Rightarrow> bool \<Rightarrow> string option \<Rightarrow> string list" where
  "reconcile_blockers label blocks status =
     (if blocks \<and> status \<noteq> Some ''ok''
      then [label @ ''_'' @ (case status of None \<Rightarrow> ''unavailable'' | Some t \<Rightarrow> t)] else [])"

definition first_date :: "payload option list \<Rightarrow> string res" where
  "first_date rs = (case find (\<lambda>r. case r of None \<Rightarrow> False | Some d \<Rightarrow> truthy (jget d ''date'' JNull)) rs of
     Some (Some d) \<Rightarrow> py_str (jget d ''date'' JNull) | _ \<Rightarrow> Inr [])"

definition build_qmt_reconcile_hard_gate ::
  "payload option \<Rightarrow> payload option \<Rightarrow> payload option \<Rightarrow> payload option \<Rightarrow> string \<Rightarrow> string \<Rightarrow> payload option res" where
  "build_qmt_reconcile_hard_gate account order position trade broker_type account_id =
     (if broker_type \<noteq> ''qmt'' then Inr None
      else rbind (reconcile_status_of account) (\<lambda>sa. rbind (reconcile_status_of order) (\<lambda>so.
        rbind (reconcile_status_of position) (\<lambda>sp. rbind (reconcile_status_of trade) (\<lambda>st.
        rbind (first_date [account, order, position, trade]) (\<lambda>dt.
          let blockers = reconcile_blockers ''broker_reconcile'' True sa
                @ reconcile_blockers ''broker_order_reconcile'' True so
                @ reconcile_blockers ''position_reconcile'' (position \<noteq> None) sp
                @ reconcile_blockers ''trade_reconcile'' (trade \<noteq> None) st;
              open = (blockers = [])
          in Inr (Some ([(''date'', JStr dt), (''event'', JStr ''qmt_reconcile_hard_gate''),
               (''status'', JStr (if open then ''open'' else ''blocked'')), (''broker_type'', JStr broker_type),
               (''message'', JStr (if open then ''QMT reconcile checks passed.'' else ''QMT reconcile checks failed; fail closed.'')),
               (''blockers'', JList (map JStr blockers)),
               (''details'', JObj [(''broker_reconcile_status'', status_json sa), (''broker_order_reconcile_status'', status_json so),
                  (''position_reconcile_status'', status_json sp), (''trade_reconcile_status'', status_json st)])]
             @ (if account_id = [] then [] else [(''account_id'', JStr account_id)])))))))))"

section \<open>Session readiness\<close>

text \<open>Where a runtime event comes from: a dictionary, an event of the deployment log or an event of the broker.\<close>

datatype runtime_source = NoEvent | DictEvent payload | LogEvent event | BrokerEvent string payload

definition runtime_kind_in :: "payload \<Rightarrow> string option res" where
  "runtime_kind_in d = opt_str_field d ''runtime_kind''"

fun runtime_kind :: "runtime_source \<Rightarrow> string option res" where
  "runtime_kind NoEvent = Inr None"
| "runtime_kind (DictEvent d) = (case as_dict (jget d ''payload'' JNull) of None \<Rightarrow> Inr None | Some pl \<Rightarrow> runtime_kind_in pl)"
| "runtime_kind (LogEvent e) = runtime_kind_in (e_payload e)"
| "runtime_kind (BrokerEvent kind pl) = (if kind \<noteq> [] then Inr (Some kind) else runtime_kind_in pl)"

definition nested_payload :: "payload \<Rightarrow> payload" where
  "nested_payload pl = (case as_dict (jget pl ''payload'' JNull) of None \<Rightarrow> pl | Some d \<Rightarrow> d)"

fun runtime_payload :: "runtime_source \<Rightarrow> payload" where
  "runtime_payload NoEvent = []"
| "runtime_payload (DictEvent d) = (case as_dict (jget d ''payload'' JNull) of None \<Rightarrow> [] | Some pl \<Rightarrow> nested_payload pl)"
| "runtime_payload (LogEvent e) = nested_payload (e_payload e)"
| "runtime_payload (BrokerEvent kind pl) = nested_payload pl"

text \<open>\<open>a or b\<close> on events: an event object is true, an empty dictionary is not.\<close>

definition source_or :: "runtime_source \<Rightarrow> runtime_source \<Rightarrow> runtime_source" where
  "source_or a b = (case a of NoEvent \<Rightarrow> b | DictEvent d \<Rightarrow> if d = [] then b else a | _ \<Rightarrow> a)"

record readiness =
  rd_status :: string
  rd_ready_for_shadow_sync :: bool
  rd_ready_for_real_submit :: bool
  rd_real_submit_enabled :: bool
  rd_account_sync_mode :: "string option"
  rd_asset_callback_freshness :: "string option"
  rd_consumer_status :: "string option"
  rd_session_runtime_kind :: "string option"
  rd_session_runtime_status :: "string option"
  rd_account_reconcile_status :: "string option"
  rd_order_reconcile_status :: "string option"
  rd_blockers :: "string list"
  rd_real_submit_blockers :: "string list"

definition unhealthy_kinds :: "string list" where
  "unhealthy_kinds = [''disconnected'', ''session_connect_failed'', ''session_subscribe_failed'',
     ''session_reconnect_started'', ''session_reconnect_failed'', ''session_resubscribe_failed'',
     ''session_reconnect_deferred'']"

definition session_blockers :: "runtime_source \<Rightarrow> string option \<Rightarrow> string option \<Rightarrow> string list" where
  "session_blockers session kind status =
     (if session = NoEvent then [''session_runtime_missing'']
      else if (case kind of None \<Rightarrow> False | Some k \<Rightarrow> k \<in> set unhealthy_kinds) then [''session_unhealthy'']
      else if status = Some ''disconnected'' then [''session_unhealthy''] else [])"

definition consumer_blockers :: "runtime_source \<Rightarrow> string option \<Rightarrow> string list" where
  "consumer_blockers consumer status =
     (if consumer = NoEvent then [''consumer_runtime_missing'']
      else if status \<notin> {None, Some [], Some ''running''} then [''consumer_not_running''] else [])"

definition callback_blockers :: "string option \<Rightarrow> string option \<Rightarrow> string list" where
  "callback_blockers mode freshness =
     (if mode = Some ''callback_preferred'' then [] else [''callback_account_not_preferred''])
     @ (if freshness = Some ''fresh'' then [] else [''callback_asset_not_fresh''])"

definition or_if :: "bool \<Rightarrow> string option \<Rightarrow> string \<Rightarrow> string option" where
  "or_if b x dflt = (if b \<and> x = None then Some dflt else x)"

definition build_qmt_readiness_summary ::
  "runtime_source \<Rightarrow> runtime_source \<Rightarrow> runtime_source \<Rightarrow> payload option \<Rightarrow> payload option \<Rightarrow> submit_policy option \<Rightarrow> readiness res" where
  "build_qmt_readiness_summary session consumer consumer_state reconcile order_reconcile policy =
     rbind (runtime_kind session) (\<lambda>kind.
     rbind (opt_str_field (runtime_payload session) ''status'') (\<lambda>status.
     let cp = runtime_payload (source_or consumer_state consumer) in
     rbind (opt_str_field cp ''consumer_status'') (\<lambda>cstatus.
     rbind (opt_str_field cp ''account_sync_mode'') (\<lambda>mode.
     rbind (opt_str_field cp ''asset_callback_freshness'') (\<lambda>freshness.
     rbind (case reconcile of None \<Rightarrow> Inr None | Some d \<Rightarrow> opt_str_field d ''status'') (\<lambda>rstatus.
     rbind (case order_reconcile of None \<Rightarrow> Inr None | Some d \<Rightarrow> opt_str_field d ''status'') (\<lambda>ostatus.
       let mode = or_if (consumer \<noteq> NoEvent) mode ''query_fallback'';
           freshness = or_if (consumer \<noteq> NoEvent) freshness ''unavailable'';
           blockers = session_blockers session kind status @ consumer_blockers consumer cstatus @ callback_blockers mode freshness;
           enabled = (case policy of None \<Rightarrow> False | Some p \<Rightarrow> po_enabled p)
       in Inr \<lparr>rd_status = (if blockers = [] then ''ready'' else ''degraded''), rd_ready_for_shadow_sync = (blockers = []),
            rd_ready_for_real_submit = (blockers = [] \<and> enabled), rd_real_submit_enabled = enabled,
            rd_account_sync_mode = mode, rd_asset_callback_freshness = freshness, rd_consumer_status = cstatus,
            rd_session_runtime_kind = kind, rd_session_runtime_status = status, rd_account_reconcile_status = rstatus,
            rd_order_reconcile_status = ostatus, rd_blockers = blockers,
            rd_real_submit_blockers = (if enabled then blockers else ''shadow_mode_only'' # blockers)\<rparr>)))))))"

section \<open>Submit gate\<close>

record submit_gate =
  sg_status :: string
  sg_can_submit_now :: bool
  sg_mode :: string
  sg_blockers :: "string list"
  sg_ready_for_shadow_sync :: bool
  sg_ready_for_real_submit :: bool
  sg_preflight_ok :: bool
  sg_policy :: payload
  sg_account_id :: "string option"
  sg_total_asset :: "flt option"
  sg_initial_cash :: "flt option"
  sg_message :: "string option"
  sg_hard_gate :: "payload option"

text \<open>\<open>dict.fromkeys(xs)\<close>: the first occurrence of every item.\<close>

definition from_keys :: "'a list \<Rightarrow> 'a list" where
  "from_keys xs = rev (remdups (rev xs))"

definition disabled_policy :: submit_policy where
  "disabled_policy = \<lparr>po_enabled = False, po_allowed_account_ids = [], po_max_total_asset = None, po_max_initial_cash = None\<rparr>"

definition base_gate ::
  "readiness option \<Rightarrow> submit_policy \<Rightarrow> string option \<Rightarrow> flt option \<Rightarrow> flt option \<Rightarrow> submit_gate" where
  "base_gate rd p account_id total_asset initial_cash =
     (let (ok, preflight) = evaluate_preflight p account_id total_asset initial_cash;
          gate = (\<lambda>status can mode blockers shadow real. \<lparr>sg_status = status, sg_can_submit_now = can, sg_mode = mode,
            sg_blockers = blockers, sg_ready_for_shadow_sync = shadow, sg_ready_for_real_submit = real,
            sg_preflight_ok = ok, sg_policy = policy_to_dict p, sg_account_id = account_id, sg_total_asset = total_asset,
            sg_initial_cash = initial_cash, sg_message = None, sg_hard_gate = None\<rparr>)
      in case rd of
           None \<Rightarrow> gate ''unavailable'' False ''unknown'' (''qmt_readiness_unavailable'' # preflight) False False
         | Some r \<Rightarrow>
             (let shadow = rd_ready_for_shadow_sync r; real = rd_ready_for_real_submit r;
                  all = from_keys (rd_real_submit_blockers r @ preflight)
              in if \<not> rd_real_submit_enabled r then gate ''shadow_only'' False ''shadow_only'' all shadow real
                 else if real then gate ''open'' ok ''real_submit'' preflight shadow real
                 else gate ''blocked'' False ''real_submit'' all shadow real))"

text \<open>The texts of \<open>hard_gate.get("blockers") or []\<close>.\<close>

definition gate_texts :: "payload \<Rightarrow> string list res" where
  "gate_texts d = rbind (py_list (py_or (jget d ''blockers'' JNull) (JList []))) (\<lambda>xs.
     rbind (rmap (\<lambda>v. py_str (py_or v (JStr []))) xs) (\<lambda>ss. Inr (filter (\<lambda>s. s \<noteq> []) ss)))"

definition lower_status :: "payload \<Rightarrow> string res" where
  "lower_status d = rbind (str_field d ''status'') (\<lambda>s. Inr (str_lower s))"

definition build_qmt_submit_gate_decision ::
  "readiness option \<Rightarrow> submit_policy option \<Rightarrow> string option \<Rightarrow> flt option \<Rightarrow> flt option \<Rightarrow> payload option \<Rightarrow> submit_gate res" where
  "build_qmt_submit_gate_decision rd policy account_id total_asset initial_cash hard_gate =
     (let p = (case policy of None \<Rightarrow> disabled_policy | Some p \<Rightarrow> p); g = base_gate rd p account_id total_asset initial_cash in
      case hard_gate of None \<Rightarrow> Inr g
      | Some h \<Rightarrow> rbind (lower_status h) (\<lambda>status.
          if status \<noteq> ''blocked'' then Inr g
          else rbind (gate_texts h) (\<lambda>texts. rbind (opt_str_field h ''message'') (\<lambda>message.
            Inr (g\<lparr>sg_status := ''blocked'', sg_can_submit_now := False, sg_blockers := from_keys (sg_blockers g @ texts),
              sg_message := (case message of None \<Rightarrow> sg_message g | Some t \<Rightarrow> Some t), sg_hard_gate := Some h\<rparr>)))))"

definition opt_json :: "('a \<Rightarrow> json) \<Rightarrow> 'a option \<Rightarrow> json" where
  "opt_json f x = (case x of None \<Rightarrow> JNull | Some v \<Rightarrow> f v)"

definition submit_gate_to_dict :: "submit_gate \<Rightarrow> payload" where
  "submit_gate_to_dict g = [(''status'', JStr (sg_status g)), (''can_submit_now'', JBool (sg_can_submit_now g)),
     (''mode'', JStr (sg_mode g)), (''blockers'', JList (map JStr (sg_blockers g))),
     (''ready_for_shadow_sync'', JBool (sg_ready_for_shadow_sync g)), (''ready_for_real_submit'', JBool (sg_ready_for_real_submit g)),
     (''preflight_ok'', JBool (sg_preflight_ok g)), (''policy'', JObj (sg_policy g)),
     (''account_id'', opt_json JStr (sg_account_id g)), (''total_asset'', opt_json JFloat (sg_total_asset g)),
     (''initial_cash'', opt_json JFloat (sg_initial_cash g)), (''message'', opt_json JStr (sg_message g)),
     (''hard_gate'', opt_json JObj (sg_hard_gate g))]"

section \<open>Release gate\<close>

record release_gate =
  rg_status :: string
  rg_eligible_for_release_candidate :: bool
  rg_eligible_for_real_submit :: bool
  rg_blockers :: "string list"
  rg_deployment_status :: string
  rg_deploy_gate_passed :: "bool option"
  rg_submit_gate_status :: "string option"
  rg_submit_gate_preflight_ok :: "bool option"
  rg_submit_gate_can_submit_now :: "bool option"

definition verdict_passed :: "payload option \<Rightarrow> bool option" where
  "verdict_passed v = (case v of None \<Rightarrow> None
     | Some d \<Rightarrow> if dhas d ''passed'' then Some (truthy (jget d ''passed'' JNull)) else None)"

definition verdict_blockers :: "bool option \<Rightarrow> string list" where
  "verdict_blockers v = (case v of None \<Rightarrow> [''deploy_gate_not_recorded''] | Some b \<Rightarrow> if b then [] else [''deploy_gate_failed''])"

definition submit_status_blockers :: "string option \<Rightarrow> string list" where
  "submit_status_blockers s =
     (if s \<in> {None, Some [], Some ''unavailable''} then [''qmt_submit_gate_unavailable'']
      else if s = Some ''shadow_only'' then [''qmt_submit_gate_shadow_only'']
      else if s \<noteq> Some ''open'' then [''qmt_submit_gate_blocked''] else [])"

definition add_new :: "'a list \<Rightarrow> 'a \<Rightarrow> 'a list" where
  "add_new xs x = (if x \<in> set xs then xs else xs @ [x])"

definition build_qmt_release_gate_decision ::
  "string \<Rightarrow> payload option \<Rightarrow> payload option \<Rightarrow> payload option \<Rightarrow> release_gate res" where
  "build_qmt_release_gate_decision deployment_status verdict submit hard_gate =
     (let passed = verdict_passed verdict;
          b1 = verdict_blockers passed
            @ (if deployment_status \<in> {''approved'', ''running'', ''paused''} then [] else [''deployment_not_approved''])
      in rbind (case submit of None \<Rightarrow> Inr None | Some d \<Rightarrow> opt_str_field d ''status'') (\<lambda>status.
         let preflight = map_option (\<lambda>d. truthy (jget d ''preflight_ok'' JNull)) submit;
             can = map_option (\<lambda>d. truthy (jget d ''can_submit_now'' JNull)) submit;
             b2 = b1 @ (if submit = None then [''qmt_submit_gate_unavailable'']
               else submit_status_blockers status @ (if preflight = Some True then [] else [''qmt_preflight_not_ok'']))
         in rbind (case hard_gate of None \<Rightarrow> Inr False | Some h \<Rightarrow> rbind (lower_status h) (\<lambda>s. Inr (s \<noteq> ''open''))) (\<lambda>hard.
            rbind (if hard then gate_texts (the hard_gate) else Inr []) (\<lambda>texts.
              let b3 = (if hard then foldl add_new b2 (''qmt_reconcile_hard_gate_blocked'' # texts) else b2);
                  candidate = (b3 = [] \<and> \<not> hard)
              in Inr \<lparr>rg_status = (if candidate then ''candidate'' else ''blocked''),
                   rg_eligible_for_release_candidate = candidate,
                   rg_eligible_for_real_submit = (candidate \<and> can = Some True \<and> \<not> hard),
                   rg_blockers = b3, rg_deployment_status = deployment_status, rg_deploy_gate_passed = passed,
                   rg_submit_gate_status = status, rg_submit_gate_preflight_ok = preflight,
                   rg_submit_gate_can_submit_now = can\<rparr>))))"

definition release_gate_to_dict :: "release_gate \<Rightarrow> payload" where
  "release_gate_to_dict g = [(''status'', JStr (rg_status g)),
     (''eligible_for_release_candidate'', JBool (rg_eligible_for_release_candidate g)),
     (''eligible_for_real_submit'', JBool (rg_eligible_for_real_submit g)),
     (''blockers'', JList (map JStr (rg_blockers g))), (''deployment_status'', JStr (rg_deployment_status g)),
     (''deploy_gate_passed'', opt_json JBool (rg_deploy_gate_passed g)),
     (''submit_gate_status'', opt_json JStr (rg_submit_gate_status g)),
     (''submit_gate_preflight_ok'', opt_json JBool (rg_submit_gate_preflight_ok g)),
     (''submit_gate_can_submit_now'', opt_json JBool (rg_submit_gate_can_submit_now g))]"

section \<open>The real broker\<close>

text \<open>The switch of the broker: closed unless a caller opens it with an open decision.\<close>

record qmt_broker =
  qb_account_id :: string
  qb_gate_open :: bool
  qb_gate_decision :: "payload option"

definition new_qmt_broker :: "string \<Rightarrow> qmt_broker" where
  "new_qmt_broker account_id = \<lparr>qb_account_id = account_id, qb_gate_open = False, qb_gate_decision = None\<rparr>"

definition open_submit_gate :: "json \<Rightarrow> qmt_broker \<Rightarrow> qmt_broker res" where
  "open_submit_gate decision b = (case as_dict decision of
     None \<Rightarrow> Inl ValueError
   | Some d \<Rightarrow> rbind (lower_status d) (\<lambda>status.
       if status \<noteq> ''open'' \<or> \<not> truthy (jget d ''can_submit_now'' JNull) then Inl RuntimeError
       else Inr (b\<lparr>qb_gate_open := True, qb_gate_decision := Some d\<rparr>)))"

definition close_submit_gate :: "qmt_broker \<Rightarrow> qmt_broker" where
  "close_submit_gate b = b\<lparr>qb_gate_open := False, qb_gate_decision := None\<rparr>"

text \<open>The client of the broker session: submitting an order, and, where the client has it, the description of the last
  acknowledgement.\<close>

record submission =
  su_symbol :: string
  su_side :: string
  su_shares :: int
  su_price :: flt
  su_strategy_name :: string
  su_order_remark :: string

record 'c qmt_client =
  cl_submit :: "submission \<Rightarrow> 'c \<Rightarrow> 'c \<times> json res"
  cl_describe :: "('c \<Rightarrow> json \<Rightarrow> json res) option"

definition extract_broker_order_id :: "json \<Rightarrow> string res" where
  "extract_broker_order_id raw = py_str (py_or
     (case as_dict raw of None \<Rightarrow> JStr [] | Some d \<Rightarrow> get_field d [''order_sysid'', ''entrust_no'', ''order_id'', ''m_nOrderID''] (JStr []))
     (JStr []))"

definition extract_submit_ack :: "json \<Rightarrow> (string \<times> string) res" where
  "extract_submit_ack raw = (case raw of
     JBool b \<Rightarrow> Inr ([], [])
   | JInt i \<Rightarrow> Inr (int_str i, [])
   | JFloat x \<Rightarrow> (if x = of_int \<lfloor>x\<rfloor> then Inr (int_str \<lfloor>x\<rfloor>, []) else Inl NotModelled)
   | JStr s \<Rightarrow> Inr (str_strip s, [])
   | _ \<Rightarrow> rbind (extract_broker_order_id raw) (\<lambda>i.
       rbind (py_str (py_or (case as_dict raw of None \<Rightarrow> JStr [] | Some d \<Rightarrow> get_field d [''seq'', ''request_id'', ''submit_id''] (JStr []))
         (JStr []))) (\<lambda>s.
         Inr (if str_strip s = [] then str_strip i else str_strip s, str_strip i))))"

definition described_ack :: "'c qmt_client \<Rightarrow> 'c \<Rightarrow> json \<Rightarrow> (string \<times> string) res" where
  "described_ack cl c result = (case cl_describe cl of None \<Rightarrow> Inr ([], [])
     | Some describe \<Rightarrow> rbind (describe c result) (\<lambda>ack. case as_dict ack of None \<Rightarrow> Inr ([], [])
       | Some d \<Rightarrow> rbind (str_field d ''broker_submit_id'') (\<lambda>s. rbind (str_field d ''broker_order_id'') (\<lambda>i.
           Inr (str_strip s, str_strip i)))))"

definition submitted_report :: "date \<Rightarrow> order \<Rightarrow> flt \<Rightarrow> string \<Rightarrow> string \<Rightarrow> order_report" where
  "submitted_report d ord price submit_id order_id =
     \<lparr>rp_order_id = o_order_id ord, rp_client_order_id = o_client_order_id ord, rp_deployment_id = o_deployment_id ord,
      rp_symbol = o_symbol ord, rp_side = o_side ord, rp_requested_shares = o_shares ord, rp_filled_shares = 0,
      rp_remaining_shares = o_shares ord, rp_status = normalize_broker_order_status ''submitted'' 0 0, rp_price = price,
      rp_amount = 0, rp_commission = 0, rp_stamp_tax = 0, rp_cost = 0, rp_business_date = d,
      rp_broker_order_id = order_id, rp_broker_submit_id = submit_id\<rparr>"

text \<open>One order: the checks, the call of the client, the report.  What the client did stays done.\<close>

definition submit_one ::
  "'c qmt_client \<Rightarrow> string \<Rightarrow> date \<Rightarrow> (string, flt) dict \<Rightarrow> order \<Rightarrow> 'c \<Rightarrow> 'c \<times> order_report res" where
  "submit_one cl account_id d prices ord c =
     (let side = str_lower (str_strip (o_side ord)); price = dget_or prices (o_symbol ord) 0 in
      if side \<noteq> ''buy'' \<and> side \<noteq> ''sell'' then (c, Inl ValueError)
      else if price \<le> 0 then (c, Inl RuntimeError)
      else (let (c1, result) = cl_submit cl \<lparr>su_symbol = o_symbol ord, su_side = side, su_shares = o_shares ord, su_price = price,
              su_strategy_name = (if o_deployment_id ord = [] then account_id else o_deployment_id ord),
              su_order_remark = o_client_order_id ord\<rparr> c
            in (c1, rbind result (\<lambda>result.
                 if qmt_request_failed_immediately result then Inl RuntimeError
                 else rbind (described_ack cl c1 result) (\<lambda>(submit_id, order_id).
                   rbind (if submit_id = [] \<and> order_id = [] then extract_submit_ack result else Inr (submit_id, order_id))
                     (\<lambda>(submit_id, order_id). Inr (submitted_report d ord price submit_id order_id)))))))"

fun submit_all ::
  "'c qmt_client \<Rightarrow> string \<Rightarrow> date \<Rightarrow> (string, flt) dict \<Rightarrow> order list \<Rightarrow> 'c \<Rightarrow> 'c \<times> order_report list res" where
  "submit_all cl account_id d prices [] c = (c, Inr [])"
| "submit_all cl account_id d prices (ord # ords) c =
     (case submit_one cl account_id d prices ord c of
        (c1, Inl e) \<Rightarrow> (c1, Inl e)
      | (c1, Inr r) \<Rightarrow> (case submit_all cl account_id d prices ords c1 of (c2, rs) \<Rightarrow> (c2, rbind rs (\<lambda>rs. Inr (r # rs)))))"

definition real_execute_target_weights ::
  "'c qmt_client \<Rightarrow> qmt_broker \<Rightarrow> exec_request \<Rightarrow> 'c \<Rightarrow> 'c \<times> broker_result res" where
  "real_execute_target_weights cl b q c =
     (if \<not> qb_gate_open b then (c, Inl RuntimeError)
      else case submit_all cl (qb_account_id b) (q_business_date q) (xi_prices (q_inputs q)) (q_requested_orders q) c of
        (c1, rs) \<Rightarrow> (c1, rbind rs (\<lambda>rs. Inr \<lparr>br_fills = [], br_order_reports = rs, br_holdings = q_holdings q,
          br_cash = q_cash q, br_trade_volume = 0\<rparr>)))"

text \<open>The shadow broker never executes.\<close>

definition shadow_execute_target_weights :: "exec_request \<Rightarrow> broker_result res" where
  "shadow_execute_target_weights q = Inl NotImplementedError"

section \<open>What an open decision means\<close>

definition under_cap :: "flt option \<Rightarrow> flt option \<Rightarrow> bool" where
  "under_cap cap value = (case cap of None \<Rightarrow> True | Some c \<Rightarrow> (case value of None \<Rightarrow> False | Some x \<Rightarrow> x \<le> c))"

definition permits :: "submit_policy \<Rightarrow> string option \<Rightarrow> flt option \<Rightarrow> flt option \<Rightarrow> bool" where
  "permits p account_id total_asset initial_cash \<longleftrightarrow> po_enabled p
     \<and> (po_allowed_account_ids p = [] \<or> (\<exists>a \<in> set (po_allowed_account_ids p). a \<noteq> [] \<and> account_id = Some a))
     \<and> under_cap (po_max_total_asset p) total_asset \<and> under_cap (po_max_initial_cash p) initial_cash"

lemma cap_blockers_Nil_iff [simp]: "cap_blockers u x cap value = [] \<longleftrightarrow> under_cap cap value"
  by (auto simp: cap_blockers_def under_cap_def split: option.splits)

lemma preflight_iff [simp]: "fst (evaluate_preflight p a x y) \<longleftrightarrow> permits p a x y"
  by (auto simp: evaluate_preflight_def permits_def Let_def)

definition live_session :: "runtime_source \<Rightarrow> bool" where
  "live_session e \<longleftrightarrow> e \<noteq> NoEvent \<and> (\<forall>k. runtime_kind e = Inr (Some k) \<longrightarrow> k \<notin> set unhealthy_kinds)
     \<and> opt_str_field (runtime_payload e) ''status'' \<noteq> Inr (Some ''disconnected'')"

lemma session_blockers_Nil_iff:
  assumes "runtime_kind e = Inr kind" and "opt_str_field (runtime_payload e) ''status'' = Inr status"
  shows "session_blockers e kind status = [] \<longleftrightarrow> live_session e"
  using assms by (auto simp: session_blockers_def live_session_def split: option.splits)

text \<open>The consumer of the session reports that it prefers callbacks and that its asset callback is fresh.\<close>

definition fresh_consumer :: "runtime_source \<Rightarrow> runtime_source \<Rightarrow> bool" where
  "fresh_consumer consumer state \<longleftrightarrow> consumer \<noteq> NoEvent
     \<and> (let cp = runtime_payload (source_or state consumer) in
        opt_str_field cp ''consumer_status'' \<in> {Inr None, Inr (Some ''running'')}
        \<and> opt_str_field cp ''account_sync_mode'' = Inr (Some ''callback_preferred'')
        \<and> opt_str_field cp ''asset_callback_freshness'' = Inr (Some ''fresh''))"

lemma opt_str_field_not_empty [simp]: "opt_str_field d k \<noteq> Inr (Some [])"
  by (auto simp: opt_str_field_def)

lemma readiness_iff:
  assumes "build_qmt_readiness_summary session consumer state rc orc policy = Inr r"
  shows "rd_ready_for_real_submit r \<longleftrightarrow> live_session session \<and> fresh_consumer consumer state
           \<and> (\<exists>p. policy = Some p \<and> po_enabled p)"
    and "rd_real_submit_enabled r \<longleftrightarrow> (\<exists>p. policy = Some p \<and> po_enabled p)"
proof -
  let ?cp = "runtime_payload (source_or state consumer)"
  obtain kind status cs mode fr where r: "runtime_kind session = Inr kind" "opt_str_field (runtime_payload session) ''status'' = Inr status"
    "opt_str_field ?cp ''consumer_status'' = Inr cs" "opt_str_field ?cp ''account_sync_mode'' = Inr mode"
    "opt_str_field ?cp ''asset_callback_freshness'' = Inr fr"
    and en: "rd_real_submit_enabled r = (case policy of None \<Rightarrow> False | Some p \<Rightarrow> po_enabled p)"
    and rd: "rd_ready_for_real_submit r = (session_blockers session kind status = [] \<and> consumer_blockers consumer cs = []
      \<and> callback_blockers (or_if (consumer \<noteq> NoEvent) mode ''query_fallback'') (or_if (consumer \<noteq> NoEvent) fr ''unavailable'') = []
      \<and> rd_real_submit_enabled r)"
    using assms by (auto simp: build_qmt_readiness_summary_def Let_def)
  have "cs \<noteq> Some []" using r(3) opt_str_field_not_empty by metis
  then have c: "consumer_blockers consumer cs = [] \<and> callback_blockers (or_if (consumer \<noteq> NoEvent) mode ''query_fallback'')
      (or_if (consumer \<noteq> NoEvent) fr ''unavailable'') = [] \<longleftrightarrow> fresh_consumer consumer state"
    using r(3-5) by (auto simp: consumer_blockers_def callback_blockers_def or_if_def fresh_consumer_def Let_def)
  show "rd_real_submit_enabled r \<longleftrightarrow> (\<exists>p. policy = Some p \<and> po_enabled p)"
    by (simp add: en split: option.splits)
  then show "rd_ready_for_real_submit r \<longleftrightarrow> live_session session \<and> fresh_consumer consumer state
      \<and> (\<exists>p. policy = Some p \<and> po_enabled p)"
    unfolding rd session_blockers_Nil_iff [OF r(1,2)] using c by blast
qed

text \<open>The submit gate lets an order through exactly when the session is ready, the policy permits and no hard gate blocks.\<close>

lemma base_gate_can_submit:
  "sg_can_submit_now (base_gate rd p a x y) \<longleftrightarrow>
     (\<exists>r. rd = Some r \<and> rd_real_submit_enabled r \<and> rd_ready_for_real_submit r) \<and> permits p a x y"
  using preflight_iff [of p a x y]
  by (cases "evaluate_preflight p a x y") (auto simp: base_gate_def Let_def split: option.splits)

lemma base_gate_open_status:
  "sg_can_submit_now (base_gate rd p a x y) \<Longrightarrow> sg_status (base_gate rd p a x y) = ''open'' \<and> sg_preflight_ok (base_gate rd p a x y)"
  by (auto simp: base_gate_def Let_def split: option.splits prod.splits if_splits)

definition blocking :: "payload option \<Rightarrow> bool" where
  "blocking h \<longleftrightarrow> (\<exists>d. h = Some d \<and> lower_status d = Inr ''blocked'')"

lemma submit_gate_iff:
  assumes "build_qmt_submit_gate_decision rd (Some p) a x y h = Inr g"
  shows "sg_can_submit_now g \<longleftrightarrow>
     (\<exists>r. rd = Some r \<and> rd_real_submit_enabled r \<and> rd_ready_for_real_submit r) \<and> permits p a x y \<and> \<not> blocking h"
    and "sg_can_submit_now g \<Longrightarrow> sg_status g = ''open'' \<and> sg_preflight_ok g"
proof -
  have "(g = base_gate rd p a x y \<and> \<not> blocking h) \<or> (\<not> sg_can_submit_now g \<and> blocking h)"
  proof (cases h)
    case None
    then show ?thesis using assms by (simp add: build_qmt_submit_gate_decision_def blocking_def Let_def)
  next
    case (Some d)
    show ?thesis
    proof (cases "lower_status d = Inr ''blocked''")
      case True
      then have "\<not> sg_can_submit_now g"
        using assms Some by (clarsimp simp add: build_qmt_submit_gate_decision_def Let_def)
      then show ?thesis using True Some by (simp add: blocking_def)
    next
      case False
      then have "g = base_gate rd p a x y"
        using assms Some by (cases "lower_status d") (simp_all add: build_qmt_submit_gate_decision_def Let_def)
      then show ?thesis using False Some by (simp add: blocking_def)
    qed
  qed
  then show "sg_can_submit_now g \<longleftrightarrow>
      (\<exists>r. rd = Some r \<and> rd_real_submit_enabled r \<and> rd_ready_for_real_submit r) \<and> permits p a x y \<and> \<not> blocking h"
    and "sg_can_submit_now g \<Longrightarrow> sg_status g = ''open'' \<and> sg_preflight_ok g"
    using base_gate_can_submit [of rd p a x y] base_gate_open_status [of rd p a x y] by blast+
qed

lemma verdict_blockers_Nil_iff [simp]: "verdict_blockers v = [] \<longleftrightarrow> v = Some True"
  by (auto simp: verdict_blockers_def split: option.splits)

lemma submit_status_blockers_Nil_iff [simp]: "submit_status_blockers s = [] \<longleftrightarrow> s = Some ''open''"
  by (auto simp: submit_status_blockers_def)

lemma add_new_not_Nil [simp]: "add_new xs x \<noteq> []"
  by (auto simp: add_new_def)

lemma foldl_add_new_not_Nil: "xs \<noteq> [] \<Longrightarrow> foldl add_new xs ys \<noteq> []"
  by (induction ys arbitrary: xs) auto

lemma release_gate_sound:
  assumes "build_qmt_release_gate_decision st verdict submit h = Inr g" and "rg_eligible_for_real_submit g"
  shows "verdict_passed verdict = Some True \<and> st \<in> {''approved'', ''running'', ''paused''}
     \<and> (\<exists>d. submit = Some d \<and> opt_str_field d ''status'' = Inr (Some ''open'')
          \<and> truthy (jget d ''preflight_ok'' JNull) \<and> truthy (jget d ''can_submit_now'' JNull))
     \<and> (\<forall>d. h = Some d \<longrightarrow> lower_status d = Inr ''open'')"
proof -
  let ?hard = "case h of None \<Rightarrow> Inr False | Some h \<Rightarrow> rbind (lower_status h) (\<lambda>s. Inr (s \<noteq> ''open''))"
  let ?b1 = "verdict_blockers (verdict_passed verdict)
    @ (if st \<in> {''approved'', ''running'', ''paused''} then [] else [''deployment_not_approved''])"
  obtain status where status: "(case submit of None \<Rightarrow> Inr None | Some d \<Rightarrow> opt_str_field d ''status'') = Inr status"
    using assms(1) unfolding build_qmt_release_gate_decision_def Let_def rbind_Inr_iff by (elim exE conjE) (rule that)
  obtain hard where hard: "?hard = Inr hard"
    using assms(1) unfolding build_qmt_release_gate_decision_def Let_def rbind_Inr_iff by (elim exE conjE) (rule that)
  let ?b2 = "?b1 @ (if submit = None then [''qmt_submit_gate_unavailable'']
      else submit_status_blockers status @ (if map_option (\<lambda>d. truthy (jget d ''preflight_ok'' JNull)) submit = Some True
        then [] else [''qmt_preflight_not_ok'']))"
  let ?can = "map_option (\<lambda>d. truthy (jget d ''can_submit_now'' JNull)) submit"
  have "\<exists>texts. rg_eligible_for_real_submit g = ((((if hard then foldl add_new ?b2 (''qmt_reconcile_hard_gate_blocked'' # texts)
      else ?b2) = []) \<and> \<not> hard) \<and> ?can = Some True \<and> \<not> hard)"
    using assms(1) unfolding build_qmt_release_gate_decision_def Let_def status hard rbind.simps rbind_Inr_iff sum.inject
    by (elim exE conjE, hypsubst, intro exI, simp only: release_gate.select_convs)
  then have not_hard: "\<not> hard" and b: "?b2 = []" and can: "?can = Some True"
    using assms(2) by (elim exE, simp split: if_splits)+
  have v: "verdict_passed verdict = Some True" and st: "st \<in> {''approved'', ''running'', ''paused''}"
    using b by (simp_all split: if_splits)
  obtain d where d: "submit = Some d" "submit_status_blockers status = []" "truthy (jget d ''preflight_ok'' JNull)"
    using b by (cases submit) (simp_all split: if_splits)
  have "opt_str_field d ''status'' = Inr (Some ''open'')" using status d by simp
  moreover have "truthy (jget d ''can_submit_now'' JNull)" using can d(1) by simp
  moreover have "\<forall>d. h = Some d \<longrightarrow> lower_status d = Inr ''open''" using hard not_hard by auto
  ultimately show ?thesis using v st d(1,3) by blast
qed

text \<open>The hard gate is open exactly when the account and the orders agree and no supplied comparison disagrees.\<close>

lemma reconcile_blockers_Nil_iff [simp]: "reconcile_blockers l b s = [] \<longleftrightarrow> (b \<longrightarrow> s = Some ''ok'')"
  by (simp add: reconcile_blockers_def)

lemma hard_gate_open_iff:
  assumes "build_qmt_reconcile_hard_gate account order position trade bt aid = Inr (Some d)"
  shows "map_of d ''status'' = Some (JStr (if reconcile_status_of account = Inr (Some ''ok'') \<and> reconcile_status_of order = Inr (Some ''ok'')
       \<and> (position \<noteq> None \<longrightarrow> reconcile_status_of position = Inr (Some ''ok''))
       \<and> (trade \<noteq> None \<longrightarrow> reconcile_status_of trade = Inr (Some ''ok'')) then ''open'' else ''blocked''))"
proof -
  have bt: "bt = ''qmt''" using assms by (simp add: build_qmt_reconcile_hard_gate_def split: if_splits)
  obtain sa where sa: "reconcile_status_of account = Inr sa" 
    using assms unfolding build_qmt_reconcile_hard_gate_def bt by (cases "reconcile_status_of account") simp_all
  obtain so where so: "reconcile_status_of order = Inr so" 
    using assms unfolding build_qmt_reconcile_hard_gate_def bt by (cases "reconcile_status_of order") (simp_all add: sa)
  obtain sp where sp: "reconcile_status_of position = Inr sp" 
    using assms unfolding build_qmt_reconcile_hard_gate_def bt by (cases "reconcile_status_of position") (simp_all add: sa so)
  obtain st where st: "reconcile_status_of trade = Inr st" 
    using assms unfolding build_qmt_reconcile_hard_gate_def bt by (cases "reconcile_status_of trade") (simp_all add: sa so sp)
  obtain dt where dt: "first_date [account, order, position, trade] = Inr dt"
    using assms unfolding build_qmt_reconcile_hard_gate_def bt
    by (cases "first_date [account, order, position, trade]") (simp_all add: sa so sp st)
  show ?thesis
    using assms unfolding build_qmt_reconcile_hard_gate_def bt sa so sp st dt by (auto simp add: Let_def)
qed

end
