(* ===== verification/Runtime_Projection.thy ===== *)
theory Runtime_Projection
  imports Submit_Gates Deployment_Store Deployment_Spec
begin

text \<open>
  \<open>ez/live/qmt/_projection.py\<close>: what the log of a deployment says about its broker session, condensed into the
  projection that holds the submit gate and the release gate; and the part of \<open>Scheduler.tick\<close> that reads the
  projection, opens the switch of the broker for one day and closes it again.  The clock reading is an argument.
\<close>

section \<open>Accounts of events\<close>

definition parse_gate_verdict :: "json_text \<Rightarrow> string option \<Rightarrow> payload option res" where
  "parse_gate_verdict L raw =
     (if raw = None \<or> raw = Some [] then Inr None
      else case jt_loads L (the raw) of Inl e \<Rightarrow> (if e = ValueError then Inr None else Inl e) | Inr j \<Rightarrow> Inr (as_dict j))"

definition opt_dict :: "json \<Rightarrow> payload" where
  "opt_dict j = (case as_dict j of None \<Rightarrow> [] | Some d \<Rightarrow> d)"

text \<open>The account of the risk parameters: of the real broker, otherwise of the shadow broker.\<close>

definition extract_qmt_account_id :: "json \<Rightarrow> string res" where
  "extract_qmt_account_id params = (case as_dict params of None \<Rightarrow> Inr []
     | Some d \<Rightarrow>
         (let real = opt_dict (jget d ''qmt_real_broker_config'' JNull); shadow = opt_dict (jget d ''shadow_broker_config'' JNull)
          in if truthy (jget real ''account_id'' JNull) then str_field real ''account_id'' else str_field shadow ''account_id''))"

definition runtime_event_account_id :: "event \<Rightarrow> string res" where
  "runtime_event_account_id e = (case as_dict (jget (e_payload e) ''payload'' JNull) of None \<Rightarrow> Inr []
     | Some d \<Rightarrow> str_field d ''account_id'')"

definition account_event_account_id :: "event \<Rightarrow> string res" where
  "account_event_account_id e = str_field (e_payload e) ''account_id''"

text \<open>The first event of the account; without one, the first event that names no account.\<close>

fun first_of_account :: "(event \<Rightarrow> bool res) \<Rightarrow> (event \<Rightarrow> string res) \<Rightarrow> string \<Rightarrow> event option \<Rightarrow> event list \<Rightarrow> event option res" where
  "first_of_account accept account_of account unscoped [] = Inr unscoped"
| "first_of_account accept account_of account unscoped (e # es) =
     rbind (accept e) (\<lambda>ok.
       if \<not> ok then first_of_account accept account_of account unscoped es
       else rbind (account_of e) (\<lambda>a.
         if a = account then Inr (Some e)
         else first_of_account accept account_of account (if a = [] \<and> unscoped = None then Some e else unscoped) es))"

definition kind_accepted :: "string option \<Rightarrow> string option \<Rightarrow> string list \<Rightarrow> event \<Rightarrow> bool res" where
  "kind_accepted kind pre kinds e = rbind (str_field (e_payload e) ''runtime_kind'') (\<lambda>k.
     Inr ((case kind of None \<Rightarrow> True | Some k' \<Rightarrow> k = k') \<and> (case pre of None \<Rightarrow> True | Some p \<Rightarrow> take (length p) k = p)
       \<and> (kinds = [] \<or> k \<in> set kinds)))"

definition latest_runtime_event_for_account ::
  "store \<Rightarrow> string \<Rightarrow> string \<Rightarrow> string option \<Rightarrow> string option \<Rightarrow> string list \<Rightarrow> event option res" where
  "latest_runtime_event_for_account s dep account kind pre kinds =
     (if account = [] then get_latest_runtime_event s dep kind pre kinds
      else first_of_account (kind_accepted kind pre kinds) runtime_event_account_id account None
        (get_recent_events s dep BROKER_RUNTIME_RECORDED 200))"

definition latest_account_event_for_account :: "store \<Rightarrow> string \<Rightarrow> string \<Rightarrow> event option res" where
  "latest_account_event_for_account s dep account =
     (if account = [] then Inr (get_latest_event s dep BROKER_ACCOUNT_RECORDED)
      else first_of_account (\<lambda>e. Inr True) account_event_account_id account None
        (get_recent_events s dep BROKER_ACCOUNT_RECORDED 50))"

section \<open>The projection\<close>

definition session_runtime_kinds :: "string list" where
  "session_runtime_kinds = [''session_bootstrap_started'', ''session_started'', ''session_connected'', ''session_subscribed'',
     ''session_reconnect_started'', ''session_reconnected'', ''session_resubscribed'', ''session_connect_failed'',
     ''session_subscribe_failed'', ''session_reconnect_failed'', ''session_resubscribe_failed'',
     ''session_reconnect_deferred'', ''disconnected'']"

definition source_of :: "event option \<Rightarrow> runtime_source" where
  "source_of e = (case e of None \<Rightarrow> NoEvent | Some x \<Rightarrow> LogEvent x)"

text \<open>The names of the reconcile events: those of the real broker when the deployment trades through it.\<close>

definition reconcile_name :: "spec \<Rightarrow> string \<Rightarrow> string" where
  "reconcile_name sp base = (if str_lower (sp_broker_type sp) = ''qmt'' then ''real_'' @ base else base)"

record session_view =
  sv_runtime :: "event option"
  sv_session :: "event option"
  sv_owner :: "event option"
  sv_consumer :: "event option"
  sv_consumer_state :: "event option"
  sv_account :: "event option"
  sv_reconcile :: "payload option"
  sv_order_reconcile :: "payload option"
  sv_position_reconcile :: "payload option"
  sv_trade_reconcile :: "payload option"
  sv_hard_gate :: "payload option"

definition view_session :: "store \<Rightarrow> string \<Rightarrow> spec \<Rightarrow> string \<Rightarrow> session_view res" where
  "view_session s dep sp account =
     (let latest = latest_runtime_event_for_account s dep account; risk = (\<lambda>n. get_latest_risk_event s dep (reconcile_name sp n)) in
      rbind (latest None None []) (\<lambda>any.
      rbind (latest None None session_runtime_kinds) (\<lambda>session.
      rbind (latest None (Some ''session_owner_'') []) (\<lambda>owner.
      rbind (latest None (Some ''session_consumer_'') []) (\<lambda>consumer.
      rbind (latest (Some ''session_consumer_state'') None []) (\<lambda>state.
      rbind (latest_account_event_for_account s dep account) (\<lambda>acct.
        Inr \<lparr>sv_runtime = any, sv_session = session, sv_owner = owner, sv_consumer = consumer, sv_consumer_state = state,
          sv_account = acct, sv_reconcile = risk ''broker_reconcile'', sv_order_reconcile = risk ''broker_order_reconcile'',
          sv_position_reconcile = risk ''position_reconcile'', sv_trade_reconcile = risk ''trade_reconcile'',
          sv_hard_gate = risk ''qmt_reconcile_hard_gate''\<rparr>)))))))"

definition total_asset_of :: "event option \<Rightarrow> flt option res" where
  "total_asset_of e = (case e of None \<Rightarrow> Inr None | Some x \<Rightarrow> opt_number (jget (e_payload x) ''total_asset'' JNull))"

text \<open>The decisions of the projection: readiness, submit gate and release gate.\<close>

definition projected_gates ::
  "json_text \<Rightarrow> deployment_record \<Rightarrow> spec \<Rightarrow> string \<Rightarrow> session_view \<Rightarrow> (readiness \<times> submit_gate \<times> release_gate) res" where
  "projected_gates L r sp account v =
     rbind (total_asset_of (sv_account v)) (\<lambda>asset.
     rbind (risk_params L sp) (\<lambda>params. rbind (build_qmt_real_submit_policy params) (\<lambda>policy.
     rbind (build_qmt_readiness_summary (source_of (sv_session v)) (source_of (sv_consumer v)) (source_of (sv_consumer_state v))
       (sv_reconcile v) (sv_order_reconcile v) (if sp_broker_type sp = ''qmt'' then Some policy else None)) (\<lambda>rd.
     rbind (build_qmt_submit_gate_decision (Some rd) (Some policy) (if account = [] then None else Some account) asset
       (Some (sp_initial_cash sp)) (sv_hard_gate v)) (\<lambda>sg.
     rbind (parse_gate_verdict L (dr_gate_verdict r)) (\<lambda>verdict.
     rbind (build_qmt_release_gate_decision (dr_status r) verdict (Some (submit_gate_to_dict sg @ [(''source'', JStr ''runtime'')])) None) (\<lambda>rg.
       Inr (rd, sg, rg))))))))"

definition event_json :: "event option \<Rightarrow> json" where
  "event_json e = (case e of None \<Rightarrow> JNull | Some x \<Rightarrow> JObj [(''event_id'', JStr (e_event_id x)),
     (''deployment_id'', JStr (e_deployment_id x)), (''event_type'', JStr (event_type_value (e_type x))),
     (''event_ts'', JStr (iso_datetime (e_ts x))), (''client_order_id'', JStr (e_client_order_id x)), (''payload'', JObj (e_payload x))])"

definition readiness_to_dict :: "readiness \<Rightarrow> payload" where
  "readiness_to_dict r = [(''status'', JStr (rd_status r)), (''ready_for_shadow_sync'', JBool (rd_ready_for_shadow_sync r)),
     (''ready_for_real_submit'', JBool (rd_ready_for_real_submit r)), (''real_submit_enabled'', JBool (rd_real_submit_enabled r)),
     (''account_sync_mode'', status_json (rd_account_sync_mode r)),
     (''asset_callback_freshness'', status_json (rd_asset_callback_freshness r)),
     (''consumer_status'', status_json (rd_consumer_status r)), (''session_runtime_kind'', status_json (rd_session_runtime_kind r)),
     (''session_runtime_status'', status_json (rd_session_runtime_status r)),
     (''account_reconcile_status'', status_json (rd_account_reconcile_status r)),
     (''order_reconcile_status'', status_json (rd_order_reconcile_status r)),
     (''blockers'', JList (map JStr (rd_blockers r))), (''real_submit_blockers'', JList (map JStr (rd_real_submit_blockers r)))]"

definition kind_and_status :: "event option \<Rightarrow> (string option \<times> string option) res" where
  "kind_and_status e = (case e of None \<Rightarrow> Inr (None, None)
     | Some x \<Rightarrow> rbind (opt_str_field (e_payload x) ''runtime_kind'') (\<lambda>k.
         rbind (case as_dict (py_or (jget (e_payload x) ''payload'' JNull) (JObj [])) of None \<Rightarrow> Inr None
           | Some d \<Rightarrow> opt_str_field d ''status'') (\<lambda>s. Inr (k, s))))"

definition dict_status :: "payload option \<Rightarrow> string option res" where
  "dict_status d = (case d of None \<Rightarrow> Inr None | Some x \<Rightarrow> opt_str_field x ''status'')"

definition blocker_texts :: "payload \<Rightarrow> string list res" where
  "blocker_texts d = rbind (py_list (py_or (jget d ''blockers'' JNull) (JList []))) (\<lambda>xs.
     rbind (rmap py_str xs) (\<lambda>ss. Inr (filter (\<lambda>s. s \<noteq> []) ss)))"

record gate_statuses =
  gs_reconcile :: "string option"
  gs_order :: "string option"
  gs_position :: "string option"
  gs_trade :: "string option"
  gs_hard_gate :: "string option"
  gs_hard_blockers :: "string list"

definition gate_statuses_of :: "session_view \<Rightarrow> gate_statuses res" where
  "gate_statuses_of v =
     rbind (case sv_hard_gate v of None \<Rightarrow> Inr [] | Some h \<Rightarrow> blocker_texts h) (\<lambda>hb.
     rbind (dict_status (sv_reconcile v)) (\<lambda>s1. rbind (dict_status (sv_order_reconcile v)) (\<lambda>s2.
     rbind (dict_status (sv_position_reconcile v)) (\<lambda>s3. rbind (dict_status (sv_trade_reconcile v)) (\<lambda>s4.
     rbind (dict_status (sv_hard_gate v)) (\<lambda>s5.
       Inr \<lparr>gs_reconcile = s1, gs_order = s2, gs_position = s3, gs_trade = s4, gs_hard_gate = s5, gs_hard_blockers = hb\<rparr>))))))"

definition projection_dict ::
  "timestamp \<Rightarrow> string \<Rightarrow> deployment_record \<Rightarrow> string \<Rightarrow> session_view \<Rightarrow> readiness \<Rightarrow> submit_gate \<Rightarrow> release_gate
    \<Rightarrow> string option \<times> string option \<Rightarrow> string option \<times> string option \<Rightarrow> gate_statuses \<Rightarrow> payload" where
  "projection_dict now dep r account v rd sg rg rt st gs =
     [(''deployment_id'', JStr dep), (''broker_type'', JStr ''qmt''),
      (''target_account_id'', if account = [] then JNull else JStr account), (''deployment_status'', JStr (dr_status r)),
      (''projection_source'', JStr ''runtime''), (''projection_ts'', JStr (iso_datetime now)),
      (''latest_broker_account'', event_json (sv_account v)), (''latest_runtime_event'', event_json (sv_runtime v)),
      (''latest_session_runtime'', event_json (sv_session v)), (''latest_session_owner_runtime'', event_json (sv_owner v)),
      (''latest_session_consumer_runtime'', event_json (sv_consumer v)),
      (''latest_session_consumer_state_runtime'', event_json (sv_consumer_state v)),
      (''latest_callback_account_mode'', status_json (rd_account_sync_mode rd)),
      (''latest_callback_account_freshness'', status_json (rd_asset_callback_freshness rd)),
      (''latest_reconcile'', opt_json JObj (sv_reconcile v)), (''latest_order_reconcile'', opt_json JObj (sv_order_reconcile v)),
      (''latest_position_reconcile'', opt_json JObj (sv_position_reconcile v)),
      (''latest_trade_reconcile'', opt_json JObj (sv_trade_reconcile v)), (''latest_qmt_hard_gate'', opt_json JObj (sv_hard_gate v)),
      (''broker_reconcile_status'', status_json (gs_reconcile gs)), (''broker_order_reconcile_status'', status_json (gs_order gs)),
      (''position_reconcile_status'', status_json (gs_position gs)), (''trade_reconcile_status'', status_json (gs_trade gs)),
      (''broker_runtime_kind'', status_json (fst rt)), (''broker_runtime_status'', status_json (snd rt)),
      (''broker_session_runtime_kind'', status_json (fst st)), (''broker_session_runtime_status'', status_json (snd st)),
      (''qmt_hard_gate_status'', status_json (gs_hard_gate gs)), (''qmt_hard_gate_blockers'', JList (map JStr (gs_hard_blockers gs))),
      (''qmt_readiness'', JObj (readiness_to_dict rd)),
      (''qmt_submit_gate'', JObj (submit_gate_to_dict sg @ [(''source'', JStr ''runtime'')])),
      (''qmt_release_gate'', JObj (release_gate_to_dict rg @ [(''source'', JStr ''runtime'')]))]"

definition build_qmt_runtime_projection ::
  "json_text \<Rightarrow> timestamp \<Rightarrow> store \<Rightarrow> string \<Rightarrow> deployment_record \<Rightarrow> spec option \<Rightarrow> payload option res" where
  "build_qmt_runtime_projection L now s dep r spec = (case spec of None \<Rightarrow> Inr None
     | Some sp \<Rightarrow>
       if sp_broker_type sp \<noteq> ''qmt'' \<and> sp_shadow_broker_type sp \<noteq> ''qmt'' then Inr None
       else rbind (risk_params L sp) (\<lambda>params. rbind (extract_qmt_account_id params) (\<lambda>account.
         rbind (view_session s dep sp account) (\<lambda>v.
         rbind (projected_gates L r sp account v) (\<lambda>(rd, sg, rg).
         rbind (kind_and_status (sv_runtime v)) (\<lambda>rt. rbind (kind_and_status (sv_session v)) (\<lambda>st.
         rbind (gate_statuses_of v) (\<lambda>gs. Inr (Some (projection_dict now dep r account v rd sg rg rt st gs))))))))))"

definition persist_qmt_runtime_projection ::
  "json_text \<Rightarrow> timestamp \<Rightarrow> string \<Rightarrow> deployment_record \<Rightarrow> spec option \<Rightarrow> store \<Rightarrow> (store \<times> payload option) res" where
  "persist_qmt_runtime_projection L now dep r sp s =
     rbind (build_qmt_runtime_projection L now s dep r sp) (\<lambda>p.
       Inr (case p of None \<Rightarrow> s | Some d \<Rightarrow> upsert_broker_state_projection now dep ''qmt'' (Some d) s, p))"

section \<open>One guarded day\<close>

text \<open>The check of the scheduler, with the reason it gives.\<close>

definition opt_payload :: "payload \<Rightarrow> string \<Rightarrow> payload option" where
  "opt_payload d k = as_dict (jget d k JNull)"

definition or_blocked :: "string \<Rightarrow> string" where
  "or_blocked s = (if s = [] then ''blocked'' else s)"

definition qmt_real_submit_gate_open :: "store \<Rightarrow> string \<Rightarrow> (bool \<times> string) res" where
  "qmt_real_submit_gate_open s dep = (case get_broker_state_projection s dep (Some ''qmt'') of
     None \<Rightarrow> Inr (False, ''qmt_runtime_projection_unavailable'')
   | Some p \<Rightarrow> (case opt_payload p ''qmt_submit_gate'' of
       None \<Rightarrow> Inr (False, ''qmt_submit_gate_unavailable'')
     | Some sg \<Rightarrow> rbind (lower_status sg) (\<lambda>st.
         if st \<noteq> ''open'' then Inr (False, ''qmt_submit_gate_'' @ or_blocked st)
         else if \<not> truthy (jget sg ''can_submit_now'' JNull) then Inr (False, ''qmt_submit_gate_cannot_submit_now'')
         else (case opt_payload p ''qmt_release_gate'' of
           None \<Rightarrow> Inr (False, ''qmt_release_gate_unavailable'')
         | Some rg \<Rightarrow> rbind (lower_status rg) (\<lambda>rt.
             if rt \<noteq> ''candidate'' then Inr (False, ''qmt_release_gate_'' @ or_blocked rt)
             else if \<not> truthy (jget rg ''eligible_for_real_submit'' JNull) then Inr (False, ''qmt_release_gate_not_eligible'')
             else Inr (True, ''qmt_submit_gate_open''))))))"

text \<open>What the broker is opened with: the submit gate of the projection.\<close>

definition submit_decision :: "store \<Rightarrow> string \<Rightarrow> json" where
  "submit_decision s dep =
     py_or (jget (case get_broker_state_projection s dep (Some ''qmt'') of None \<Rightarrow> [] | Some p \<Rightarrow> p) ''qmt_submit_gate'' JNull)
       (JObj [(''status'', JStr ''open''), (''can_submit_now'', JBool True), (''source'', JStr ''runtime'')])"

text \<open>The guarded part of a day: the check, the opening, the day itself with the broker, and the closing in every case.\<close>

definition guarded_day :: "store \<Rightarrow> string \<Rightarrow> (qmt_broker \<Rightarrow> 'c \<Rightarrow> 'c \<times> 'r res) \<Rightarrow> qmt_broker \<Rightarrow> 'c \<Rightarrow> qmt_broker \<times> 'c \<times> 'r res" where
  "guarded_day s dep run b c = (case qmt_real_submit_gate_open s dep of
     Inl e \<Rightarrow> (b, c, Inl e)
   | Inr (ok, reason) \<Rightarrow>
       if \<not> ok then (b, c, Inl RuntimeError)
       else (case open_submit_gate (submit_decision s dep) b of
           Inl e \<Rightarrow> (b, c, Inl e)
         | Inr b1 \<Rightarrow> (let (c1, r) = run b1 c in (close_submit_gate b1, c1, r))))"

section \<open>Real orders need every gate\<close>

lemma guarded_day_cases:
  assumes "guarded_day s dep run b c = (b', c', r)" and "\<not> qb_gate_open b"
  shows "\<not> qb_gate_open b'"
    and "c' \<noteq> c \<Longrightarrow> \<exists>reason. qmt_real_submit_gate_open s dep = Inr (True, reason)"
proof -
  consider (stay) "b' = b" "c' = c" | (ran) b1 reason where "b' = close_submit_gate b1" "qmt_real_submit_gate_open s dep = Inr (True, reason)"
    using assms(1) by (auto simp: guarded_day_def Let_def split: sum.splits if_splits prod.splits)
  then show "\<not> qb_gate_open b'" and "c' \<noteq> c \<Longrightarrow> \<exists>reason. qmt_real_submit_gate_open s dep = Inr (True, reason)"
    using assms(2) by (cases; auto simp: close_submit_gate_def)+
qed

lemma submit_gate_open_reads:
  assumes "qmt_real_submit_gate_open s dep = Inr (True, reason)"
  obtains p sg rg where "get_broker_state_projection s dep (Some ''qmt'') = Some p"
    "opt_payload p ''qmt_submit_gate'' = Some sg" "truthy (jget sg ''can_submit_now'' JNull)"
    "opt_payload p ''qmt_release_gate'' = Some rg" "truthy (jget rg ''eligible_for_real_submit'' JNull)"
  using assms by (auto simp: qmt_real_submit_gate_open_def split: option.splits if_splits)

lemma submit_gate_fields [simp]:
  "jget (submit_gate_to_dict g @ d) ''can_submit_now'' x = JBool (sg_can_submit_now g)"
  "jget (submit_gate_to_dict g) ''can_submit_now'' x = JBool (sg_can_submit_now g)"
  by (simp_all add: submit_gate_to_dict_def jget_def dget_or_def)

lemma release_gate_fields [simp]:
  "jget (release_gate_to_dict g @ d) ''eligible_for_real_submit'' x = JBool (rg_eligible_for_real_submit g)"
  by (simp add: release_gate_to_dict_def jget_def dget_or_def)

lemma projection_dict_gates:
  "opt_payload (projection_dict now dep r account v rd sg rg rt st gs) ''qmt_submit_gate'' = Some (submit_gate_to_dict sg @ [(''source'', JStr ''runtime'')])"
  "opt_payload (projection_dict now dep r account v rd sg rg rt st gs) ''qmt_release_gate'' = Some (release_gate_to_dict rg @ [(''source'', JStr ''runtime'')])"
  by (simp_all add: projection_dict_def opt_payload_def jget_def dget_or_def)

lemma projection_gates:
  assumes "build_qmt_runtime_projection L now s dep r spec = Inr (Some p)"
  obtains sp params account v rd sg rg where "spec = Some sp" "risk_params L sp = Inr params"
    "extract_qmt_account_id params = Inr account" "view_session s dep sp account = Inr v"
    "projected_gates L r sp account v = Inr (rd, sg, rg)"
    "opt_payload p ''qmt_submit_gate'' = Some (submit_gate_to_dict sg @ [(''source'', JStr ''runtime'')])"
    "opt_payload p ''qmt_release_gate'' = Some (release_gate_to_dict rg @ [(''source'', JStr ''runtime'')])"
proof -
  obtain sp where sp: "spec = Some sp" using assms by (cases spec) (simp_all add: build_qmt_runtime_projection_def)
  have q: "\<not> (sp_broker_type sp \<noteq> ''qmt'' \<and> sp_shadow_broker_type sp \<noteq> ''qmt'')"
    using assms by (intro notI) (simp add: build_qmt_runtime_projection_def sp)
  note a = assms [unfolded build_qmt_runtime_projection_def sp option.case if_not_P [OF q]]
  obtain params account v t where a1: "risk_params L sp = Inr params" "extract_qmt_account_id params = Inr account"
    "view_session s dep sp account = Inr v" "projected_gates L r sp account v = Inr t"
    using a unfolding rbind_Inr_iff by (elim exE conjE) (rule that)
  obtain rd sg rg where t: "t = (rd, sg, rg)" by (cases t)
  obtain rt st gs where p: "p = projection_dict now dep r account v rd sg rg rt st gs"
    using a a1 by (auto simp: t)
  show thesis using that [OF sp a1(1,2,3)] a1(4) projection_dict_gates by (simp add: t p)
qed

text \<open>C4: Real orders need every gate.  When the runtime projection of a deployment that trades through the real broker has
  been persisted and the day runs behind it, the switch of the broker is closed afterwards whatever happens, and if
  anything reached the client of the broker then: the submit policy of the deployment is enabled, allows its account and
  caps its assets and its initial cash; the log holds a session event of that account that is not a failure or a
  disconnection and a consumer that prefers callbacks and is fresh; the latest hard gate does not block; the
  deployment is approved, running or paused; and its recorded deployment verdict passed.\<close>

theorem real_orders_need_open_gates:
  assumes "persist_qmt_runtime_projection L now dep r (Some sp) s0 = Inr (s, pr)" and "sp_broker_type sp = ''qmt''"
    and "guarded_day s dep (\<lambda>b. real_execute_target_weights cl b q) b c = (b', c', res)" and "\<not> qb_gate_open b"
  shows "\<not> qb_gate_open b'
    \<and> (c' \<noteq> c \<longrightarrow> (\<exists>params account policy v asset verdict.
        risk_params L sp = Inr params \<and> extract_qmt_account_id params = Inr account
        \<and> build_qmt_real_submit_policy params = Inr policy \<and> view_session s0 dep sp account = Inr v
        \<and> total_asset_of (sv_account v) = Inr asset
        \<and> permits policy (if account = [] then None else Some account) asset (Some (sp_initial_cash sp))
        \<and> live_session (source_of (sv_session v)) \<and> fresh_consumer (source_of (sv_consumer v)) (source_of (sv_consumer_state v))
        \<and> \<not> blocking (sv_hard_gate v)
        \<and> dr_status r \<in> {''approved'', ''running'', ''paused''}
        \<and> parse_gate_verdict L (dr_gate_verdict r) = Inr (Some verdict) \<and> truthy (jget verdict ''passed'' JNull)))"
proof (intro conjI impI)
  show "\<not> qb_gate_open b'" by (rule guarded_day_cases(1) [OF assms(3,4)])
  assume "c' \<noteq> c"
  then obtain reason where gate: "qmt_real_submit_gate_open s dep = Inr (True, reason)"
    using guarded_day_cases(2) [OF assms(3,4)] by blast
  obtain p where build: "build_qmt_runtime_projection L now s0 dep r (Some sp) = Inr (Some p)"
    and s: "s = upsert_broker_state_projection now dep ''qmt'' (Some p) s0"
    using assms(1,2) by (auto simp: persist_qmt_runtime_projection_def build_qmt_runtime_projection_def)
  have p: "get_broker_state_projection s dep (Some ''qmt'') = Some p"
    by (simp add: s get_broker_state_projection_def upsert_broker_state_projection_def)
  obtain params account v rd sg rg where g: "risk_params L sp = Inr params" "extract_qmt_account_id params = Inr account"
    "view_session s0 dep sp account = Inr v" "projected_gates L r sp account v = Inr (rd, sg, rg)"
    "opt_payload p ''qmt_submit_gate'' = Some (submit_gate_to_dict sg @ [(''source'', JStr ''runtime'')])"
    "opt_payload p ''qmt_release_gate'' = Some (release_gate_to_dict rg @ [(''source'', JStr ''runtime'')])"
    using projection_gates [OF build] by (metis option.inject)
  have can: "sg_can_submit_now sg" and eligible: "rg_eligible_for_real_submit rg"
  proof -
    obtain p' sg' rg' where o: "get_broker_state_projection s dep (Some ''qmt'') = Some p'"
      "opt_payload p' ''qmt_submit_gate'' = Some sg'" "truthy (jget sg' ''can_submit_now'' JNull)"
      "opt_payload p' ''qmt_release_gate'' = Some rg'" "truthy (jget rg' ''eligible_for_real_submit'' JNull)"
      by (rule submit_gate_open_reads [OF gate])
    have p': "p' = p" using o(1) p by simp
    have "sg' = submit_gate_to_dict sg @ [(''source'', JStr ''runtime'')]" using o(2) g(5) unfolding p' by simp
    then show "sg_can_submit_now sg" using o(3) by simp
    have "rg' = release_gate_to_dict rg @ [(''source'', JStr ''runtime'')]" using o(4) g(6) unfolding p' by simp
    then show "rg_eligible_for_real_submit rg" using o(5) by simp
  qed
  obtain asset policy verdict where d: "total_asset_of (sv_account v) = Inr asset" "build_qmt_real_submit_policy params = Inr policy"
    "build_qmt_readiness_summary (source_of (sv_session v)) (source_of (sv_consumer v)) (source_of (sv_consumer_state v))
       (sv_reconcile v) (sv_order_reconcile v) (Some policy) = Inr rd"
    "build_qmt_submit_gate_decision (Some rd) (Some policy) (if account = [] then None else Some account) asset
       (Some (sp_initial_cash sp)) (sv_hard_gate v) = Inr sg"
    "parse_gate_verdict L (dr_gate_verdict r) = Inr verdict"
    "build_qmt_release_gate_decision (dr_status r) verdict (Some (submit_gate_to_dict sg @ [(''source'', JStr ''runtime'')])) None = Inr rg"
    using g(4) unfolding projected_gates_def g(1) rbind.simps if_P [OF assms(2)] rbind_Inr_iff sum.inject prod.inject
    by (elim exE conjE, intro that; (simp only:)?)
  have sub: "rd_ready_for_real_submit rd" "permits policy (if account = [] then None else Some account) asset (Some (sp_initial_cash sp))"
    "\<not> blocking (sv_hard_gate v)"
    using submit_gate_iff(1) [OF d(4)] can by auto
  have rel: "verdict_passed verdict = Some True" "dr_status r \<in> {''approved'', ''running'', ''paused''}"
    using release_gate_sound [OF d(6) eligible] by blast+
  obtain w where "verdict = Some w" "truthy (jget w ''passed'' JNull)"
    using rel(1) by (auto simp: verdict_passed_def split: option.splits if_splits)
  then show "\<exists>params account policy v asset verdict.
        risk_params L sp = Inr params \<and> extract_qmt_account_id params = Inr account
        \<and> build_qmt_real_submit_policy params = Inr policy \<and> view_session s0 dep sp account = Inr v
        \<and> total_asset_of (sv_account v) = Inr asset
        \<and> permits policy (if account = [] then None else Some account) asset (Some (sp_initial_cash sp))
        \<and> live_session (source_of (sv_session v)) \<and> fresh_consumer (source_of (sv_consumer v)) (source_of (sv_consumer_state v))
        \<and> \<not> blocking (sv_hard_gate v)
        \<and> dr_status r \<in> {''approved'', ''running'', ''paused''}
        \<and> parse_gate_verdict L (dr_gate_verdict r) = Inr (Some verdict) \<and> truthy (jget verdict ''passed'' JNull)"
    using g(1,2,3) d(1,2,5) sub readiness_iff(1) [OF d(3)] rel(2) by blast
qed

definition sample_loads :: json_text where
  "sample_loads = \<lparr>jt_dumps = (\<lambda>x. []), jt_loads = (\<lambda>t.
     if t = ''P'' then Inr (JObj [(''qmt_real_submit_policy'', JObj [(''enabled'', JBool True), (''allowed_account_ids'', JList [JStr ''acct''])]),
        (''qmt_real_broker_config'', JObj [(''account_id'', JStr ''acct'')])])
     else if t = ''V'' then Inr (JObj [(''passed'', JBool True)]) else Inl ValueError)\<rparr>"

definition qmt_spec :: spec where
  "qmt_spec = \<lparr>sp_strategy_name = ''S'', sp_strategy_params_json = [], sp_symbols = [''A''], sp_market = ''cn_stock'', sp_freq = ''daily'',
     sp_broker_type = ''qmt'', sp_shadow_broker_type = ''qmt'', sp_t_plus_1 = True, sp_price_limit_pct = 0, sp_lot_size = 100,
     sp_buy_commission_rate = 0, sp_sell_commission_rate = 0, sp_stamp_tax_rate = 0, sp_slippage_rate = 0, sp_min_commission = 0,
     sp_optimizer = [], sp_optimizer_params_json = [], sp_risk_control = False, sp_risk_params_json = ''P'', sp_rebal_weekday = None,
     sp_initial_cash = 1000, sp_spec_id = ''id''\<rparr>"

definition qmt_record :: deployment_record where
  "qmt_record = \<lparr>dr_spec_id = ''id'', dr_name = ''n'', dr_status = ''running'', dr_stop_reason = [], dr_source_run_id = None,
     dr_code_commit = None, dr_gate_verdict = Some ''V'', dr_last_processed = None, dr_errors = 0, dr_created_at = 0,
     dr_approved_at = None, dr_started_at = None, dr_stopped_at = None\<rparr>"

definition runtime_sample :: "string \<Rightarrow> timestamp \<Rightarrow> payload \<Rightarrow> event" where
  "runtime_sample kind t pl = make_broker_runtime_event ''d'' kind ''qmt'' kind t [] (Some ((''account_id'', JStr ''acct'') # pl))"

definition qmt_store :: store where
  "qmt_store = empty_store\<lparr>st_events := [runtime_sample ''session_connected'' 1 [(''status'', JStr ''connected'')],
     runtime_sample ''session_consumer_started'' 2 [(''consumer_status'', JStr ''running''),
       (''account_sync_mode'', JStr ''callback_preferred''), (''asset_callback_freshness'', JStr ''fresh'')]]\<rparr>"

definition qmt_order :: order where
  "qmt_order = \<lparr>o_order_id = ''o'', o_client_order_id = ''o'', o_deployment_id = ''d'', o_symbol = ''A'', o_side = ''buy'', o_shares = 100,
     o_business_date = Date 2024 1 2, o_requested_shares = 100, o_remaining_shares = 100, o_status = NEW, o_rejected_reason = [],
     o_rejected_message = [], o_rejected_details = []\<rparr>"

definition qmt_request :: exec_request where
  "qmt_request = \<lparr>q_business_date = Date 2024 1 2, q_target_weights = [], q_holdings = [], q_cash = 1000,
     q_inputs = \<lparr>xi_equity = 1000, xi_prices = [(''A'', 10)], xi_raw_close = [], xi_prev_raw_close = [], xi_has_bar = [''A''],
       xi_costs = \<lparr>buy_commission_rate = 0, sell_commission_rate = 0, min_commission = 0, stamp_tax_rate = 0, slippage_rate = 0\<rparr>,
       xi_lot_size = 100, xi_limit_pct = 0, xi_t_plus_1 = True\<rparr>,
     q_requested_orders = [qmt_order], q_execution_slices = 1\<rparr>"

text \<open>A client that keeps what it is sent and answers with a running number.\<close>

definition recording_client :: "submission list qmt_client" where
  "recording_client = \<lparr>cl_submit = (\<lambda>x log. (log @ [x], Inr (JInt (int (length log) + 1)))), cl_describe = None\<rparr>"

definition sample_persisted :: "(store \<times> payload option) res" where
  "sample_persisted = persist_qmt_runtime_projection sample_loads 3 ''d'' qmt_record (Some qmt_spec) qmt_store"

definition sample_day :: "(qmt_broker \<times> submission list \<times> broker_result res) res" where
  "sample_day = rbind sample_persisted (\<lambda>(s, pr).
     Inr (guarded_day s ''d'' (\<lambda>b. real_execute_target_weights recording_client b qmt_request) (new_qmt_broker ''acct'') []))"

theorem real_orders_need_open_gates_witness:
  "\<exists>v. view_session qmt_store ''d'' qmt_spec ''acct'' = Inr v \<and> live_session (source_of (sv_session v)) \<and> \<not> blocking (sv_hard_gate v)"
proof -
  have "map_sum id (\<lambda>(b, c, r). (qb_gate_open b, map su_shares c)) sample_day = Inr (False, [100])" by code_simp
  then have day: "map_sum id (\<lambda>(b, c, r). (qb_gate_open b, map su_shares c)) sample_day = Inr (False, [100])" .
  have "\<exists>x. sample_persisted = Inr x"
  proof (cases sample_persisted)
    case (Inl e)
    have e: "sample_day = Inl e" unfolding sample_day_def Inl by (rule rbind.simps(1))
    show ?thesis using day unfolding e map_sum.simps by (simp only: sum.distinct)
  next
    case (Inr x)
    then show ?thesis by blast
  qed
  then obtain s pr where p: "sample_persisted = Inr (s, pr)" by auto
  obtain b c r where g: "guarded_day s ''d'' (\<lambda>b. real_execute_target_weights recording_client b qmt_request) (new_qmt_broker ''acct'') [] = (b, c, r)"
    by (rule prod_cases3)
  have c: "map su_shares c = [100]"
    using day unfolding sample_day_def p rbind.simps prod.case g by simp
  have "c \<noteq> []" using c by auto
  then obtain params account policy v asset verdict where x: "risk_params sample_loads qmt_spec = Inr params"
    "extract_qmt_account_id params = Inr account" "view_session qmt_store ''d'' qmt_spec account = Inr v"
    "live_session (source_of (sv_session v))" "\<not> blocking (sv_hard_gate v)"
    using real_orders_need_open_gates [OF p [unfolded sample_persisted_def] _ g, THEN conjunct2]
    by (auto simp: qmt_spec_def new_qmt_broker_def)
  have "rbind (risk_params sample_loads qmt_spec) extract_qmt_account_id = Inr ''acct''" by code_simp
  then have "account = ''acct''" using x(1,2) by simp
  then show ?thesis using x(3-5) by blast
qed

end
