(* ===== verification/Broker_Sync.thy ===== *)
theory Broker_Sync
  imports Scheduler Reconcile Runtime_Projection
begin

text \<open>
  How the state of a broker enters the log: the bundles that a broker reports, the comparisons with the local books as
  risk events, the events of a synchronisation and the two synchronisations of \<open>ez/live/scheduler.py\<close>, of a shadow
  broker and of the real one, with the helpers in \<open>ez/live/_broker_pump.py\<close> and \<open>ez/live/_snapshot_collectors.py\<close>.
  A broker is given by what it returns; the text of an exception and the clock readings are arguments.
\<close>

section \<open>Bundles and books\<close>

record broker_runtime_event =
  re_event_id :: string
  re_broker_type :: string
  re_as_of :: timestamp
  re_event_kind :: string
  re_payload :: payload

text \<open>A report as the broker delivers it carries the raw row it came from.\<close>

record broker_report = execution_report +
  xr_raw_payload :: "payload option"

record sync_bundle =
  sb_snapshot :: "account_snapshot option"
  sb_execution_reports :: "broker_report list"
  sb_runtime_events :: "broker_runtime_event list"
  sb_cursor_state :: "payload option"

text \<open>What the engine knows: cash, holdings, its trades, its last prices and its equity at them.\<close>

record local_books =
  lb_cash :: flt
  lb_holdings :: "(string, int) dict"
  lb_trades :: "payload list"
  lb_prices :: "(string, flt) dict"
  lb_equity :: flt

definition broker_positions_from_snapshot :: "account_snapshot \<Rightarrow> payload list" where
  "broker_positions_from_snapshot snap = map (\<lambda>(s, n). [(''symbol'', JStr s), (''volume'', JInt n), (''can_use_volume'', JInt n),
     (''frozen_volume'', JInt 0), (''on_road_volume'', JInt 0)]) (filter (\<lambda>(s, n). s \<noteq> []) (as_positions snap))"

definition broker_trades_from_snapshot :: "account_snapshot \<Rightarrow> payload list res" where
  "broker_trades_from_snapshot snap = rmap (\<lambda>f.
     rbind (first_str f [''traded_id'', ''broker_trade_id'', ''broker_order_id'']) (\<lambda>tid.
     rbind (str_field f ''symbol'') (\<lambda>s. rbind (str_field f ''side'') (\<lambda>side.
     rbind (int_field f ''shares'') (\<lambda>n. rbind (float_field f ''price'') (\<lambda>p.
       Inr [(''traded_id'', JStr tid), (''symbol'', JStr s), (''side'', JStr side), (''shares'', JInt n), (''price'', JFloat p)])))))) (as_fills snap)"

text \<open>Every trade the engine has made, of whatever day.\<close>

definition local_trades_from_engine :: "local_books \<Rightarrow> date \<Rightarrow> payload list" where
  "local_trades_from_engine b d = lb_trades b"

section \<open>Comparisons as risk events\<close>

text \<open>The entry for the account, which only events of the real broker carry: an absent account is null.\<close>

definition account_entry :: "bool \<Rightarrow> string \<Rightarrow> payload" where
  "account_entry owner account = (if owner then [(''account_id'', if account = [] then JNull else JStr account)] else [])"

definition event_name :: "bool \<Rightarrow> string \<Rightarrow> string" where
  "event_name owner base = (if owner then ''real_'' @ base else base)"

definition plain_event :: "bool \<Rightarrow> date \<Rightarrow> string \<Rightarrow> string \<Rightarrow> string \<Rightarrow> string \<Rightarrow> string \<Rightarrow> payload" where
  "plain_event owner d base status bt account message =
     [(''date'', JStr (isoformat d)), (''event'', JStr (event_name owner base)), (''status'', JStr status), (''broker_type'', JStr bt)]
     @ account_entry owner account @ [(''message'', JStr message)]"

definition no_snapshot :: "bool \<Rightarrow> string" where
  "no_snapshot owner = (if owner then ''Real QMT broker did not return an account snapshot.''
     else ''Shadow broker did not return an account snapshot.'')"

definition drift_json :: "position_drift \<Rightarrow> payload" where
  "drift_json p = [(''symbol'', JStr (pd_symbol p)), (''local_shares'', JInt (pd_local_shares p)),
     (''broker_shares'', JInt (pd_broker_shares p)), (''share_delta'', JInt (pd_share_delta p))]"

definition order_drift_json :: "order_drift \<Rightarrow> json" where
  "order_drift_json p = JObj [(''order_key'', JStr (od_order_key p)), (''symbol'', JStr (od_symbol p)),
     (''local_status'', JStr (od_local_status p)), (''broker_status'', JStr (od_broker_status p)), (''reason'', JStr (od_reason p))]"

definition serialize_position_reconcile :: "date \<Rightarrow> string \<Rightarrow> string \<Rightarrow> reconciliation \<Rightarrow> string \<Rightarrow> payload" where
  "serialize_position_reconcile d bt name r account =
     [(''date'', JStr (isoformat d)), (''event'', JStr name), (''status'', JStr (rc_status r)),
      (''broker_type'', JStr (if rc_broker_type r = [] then bt else rc_broker_type r)),
      (''message'', JStr (if rc_status r = ''ok'' then ''Broker positions match local holdings within tolerance.''
         else ''Broker positions drift from local holdings.'')),
      (''details'', JObj [(''compared_at'', JStr (iso_datetime (rc_compared_at r))),
         (''position_drifts'', JList (map (\<lambda>p. JObj (drift_json p)) (rc_position_drifts r)))])]
     @ (if account = [] then [] else [(''account_id'', JStr account)])"

definition trade_drift_json :: "trade_drift \<Rightarrow> json" where
  "trade_drift_json p = JObj [(''broker_trade_id'', JStr (dr_broker_trade_id p)), (''symbol'', JStr (dr_symbol p)),
     (''side'', JStr (dr_side p)), (''broker_volume'', JInt (dr_broker_volume p)), (''local_volume'', JInt (dr_local_volume p)),
     (''volume_delta'', JInt (dr_volume_delta p)), (''reason'', JStr (dr_reason p))]"

definition serialize_trade_reconcile :: "date \<Rightarrow> string \<Rightarrow> string \<Rightarrow> trade_reconciliation \<Rightarrow> string \<Rightarrow> payload" where
  "serialize_trade_reconcile d bt name r account =
     [(''date'', JStr (isoformat d)), (''event'', JStr name), (''status'', JStr (tc_status r)),
      (''broker_type'', JStr (if tc_broker_type r = [] then bt else tc_broker_type r)),
      (''message'', JStr (if tc_status r = ''ok'' then ''Broker trades match local fills within tolerance.''
         else ''Broker trades drift from local fills.'')),
      (''details'', JObj [(''compared_at'', JStr (iso_datetime (tc_compared_at r))),
         (''business_date'', JStr (isoformat (tc_business_date r))), (''broker_trade_count'', JInt (int (tc_broker_trade_count r))),
         (''local_trade_count'', JInt (int (tc_local_trade_count r))),
         (''trade_drifts'', JList (map trade_drift_json (tc_trade_drifts r)))])]
     @ (if account = [] then [] else [(''account_id'', JStr account)])"

definition account_event :: "bool \<Rightarrow> date \<Rightarrow> string \<Rightarrow> reconciliation \<Rightarrow> payload" where
  "account_event owner d account r =
     plain_event owner d ''broker_reconcile'' (rc_status r) (rc_broker_type r) account
       (if rc_status r = ''ok'' then ''Broker snapshot matches local ledger within tolerance.''
        else ''Broker snapshot drift exceeds configured tolerances.'')
     @ [(''details'', JObj [(''compared_at'', JStr (iso_datetime (rc_compared_at r))), (''cash_delta'', JFloat (rc_cash_delta r)),
         (''total_asset_delta'', JFloat (rc_total_asset_delta r)), (''max_notional_drift'', JFloat (rc_max_notional_drift r)),
         (''position_drifts'', JList (map (\<lambda>p. JObj (drift_json p @ [(''notional_delta'', JFloat (pd_notional_delta p))]))
            (rc_position_drifts r)))])]"

definition orders_event :: "bool \<Rightarrow> date \<Rightarrow> string \<Rightarrow> order_reconciliation \<Rightarrow> payload" where
  "orders_event owner d account r =
     plain_event owner d ''broker_order_reconcile'' (or_status r) (or_broker_type r) account
       (if or_status r = ''ok'' then ''Broker open orders match local broker-order links.''
        else ''Broker open orders drift from local broker-order links.'')
     @ [(''details'', JObj [(''compared_at'', JStr (iso_datetime (or_compared_at r))),
         (''local_open_order_count'', JInt (int (or_local_open_order_count r))),
         (''broker_open_order_count'', JInt (int (or_broker_open_order_count r))),
         (''missing_local_orders'', JList (map order_drift_json (or_missing_local_orders r))),
         (''missing_broker_orders'', JList (map order_drift_json (or_missing_broker_orders r))),
         (''status_drifts'', JList (map order_drift_json (or_status_drifts r)))])]"

section \<open>Reports and links\<close>

text \<open>The link table of the broker with the reports of the bundle on top.\<close>

definition link_dict :: "link_key \<times> link \<Rightarrow> payload" where
  "link_dict kl = (case kl of ((d, b, c), l) \<Rightarrow> [(''deployment_id'', JStr d), (''broker_type'', JStr b), (''client_order_id'', JStr c),
     (''broker_order_id'', JStr (bl_broker_order_id l)), (''symbol'', JStr (bl_symbol l)), (''account_id'', JStr (bl_account_id l)),
     (''latest_report_id'', JStr (bl_report_id l)), (''latest_status'', JStr (bl_status l)),
     (''last_report_ts'', case bl_report_ts l of None \<Rightarrow> JNull | Some t \<Rightarrow> JInt t)])"

definition reported_status :: "'a execution_report_scheme \<Rightarrow> string" where
  "reported_status r = normalize_broker_order_status (xr_status r) (xr_filled_shares r) (xr_remaining_shares r)"

definition report_advances :: "'a execution_report_scheme \<Rightarrow> payload \<Rightarrow> bool res" where
  "report_advances r existing = (case jget existing ''last_report_ts'' JNull of
     JInt t \<Rightarrow> rbind (str_field existing ''latest_status'') (\<lambda>s.
       let a = broker_order_status_rank (reported_status r); b = broker_order_status_rank s in
       Inr (b < a \<or> a = b \<and> t \<le> xr_as_of r))
   | _ \<Rightarrow> Inr True)"

definition merge_report :: "string \<Rightarrow> string \<Rightarrow> 'a execution_report_scheme \<Rightarrow> (string, payload) dict \<Rightarrow> (string, payload) dict res" where
  "merge_report dep bt r links = (let c = xr_client_order_id r in
     if c = [] then Inr links
     else rbind (case map_of links c of None \<Rightarrow> Inr True | Some l \<Rightarrow> report_advances r l) (\<lambda>advance.
       Inr (if advance then dset links c [(''deployment_id'', JStr dep), (''broker_type'', JStr bt), (''client_order_id'', JStr c),
           (''broker_order_id'', JStr (xr_broker_order_id r)), (''symbol'', JStr (xr_symbol r)),
           (''latest_report_id'', JStr (xr_report_id r)), (''latest_status'', JStr (reported_status r)),
           (''last_report_ts'', JInt (xr_as_of r))] else links)))"

definition merge_local_broker_order_links :: "store \<Rightarrow> string \<Rightarrow> string \<Rightarrow> broker_report list \<Rightarrow> payload list res" where
  "merge_local_broker_order_links s dep bt reports =
     (let rows = filter (\<lambda>((d, b, c), l). c \<noteq> []) (list_broker_order_links (st_links s) dep (Some bt)) in
      rbind (rfold (merge_report dep bt) reports (dict_of (map (\<lambda>kl. (snd (snd (fst kl)), link_dict kl)) rows))) (\<lambda>d. Inr (dvals d)))"

text \<open>Which client order a report belongs to.  Open links of the same broker order are candidates for a week, closed ones
  for duplicate confirmations; two candidates of a kind decide nothing.\<close>

definition week :: int where
  "week = 7 * 86400 * 1000000"

datatype link_use = Skip | Open_Link | Closed_Link

definition link_use_of :: "'a execution_report_scheme \<Rightarrow> string \<Rightarrow> link_key \<times> link \<Rightarrow> link_use" where
  "link_use_of r status kl = (case kl of ((d, b, c), l) \<Rightarrow>
     let account = str_strip (xr_account_id r); la = str_strip (bl_account_id l); symb = str_strip (xr_symbol r); ls = str_strip (bl_symbol l) in
     if str_strip c = [] then Skip
     else if account \<noteq> [] \<and> la \<noteq> [] \<and> account \<noteq> la then Skip
     else if ls \<noteq> [] \<and> symb \<noteq> [] \<and> ls \<noteq> symb then Skip
     else (case bl_report_ts l of None \<Rightarrow> Skip
       | Some t \<Rightarrow>
           if \<not> broker_order_status_is_terminal (normalize_status (bl_status l))
           then (if xr_as_of r < t \<or> week < xr_as_of r - t then Skip else Open_Link)
           else if t < xr_as_of r \<and> \<not> broker_order_status_is_terminal status then Skip
           else if week < \<bar>xr_as_of r - t\<bar> then Skip else Closed_Link))"

fun reusable_loop :: "(link_key \<times> link \<Rightarrow> link_use) \<Rightarrow> string list \<Rightarrow> string list \<Rightarrow> (link_key \<times> link) list \<Rightarrow> string" where
  "reusable_loop use opens closeds [] = (case opens of [c] \<Rightarrow> c | [] \<Rightarrow> (case closeds of [c] \<Rightarrow> c | _ \<Rightarrow> []) | _ \<Rightarrow> [])"
| "reusable_loop use opens closeds (kl # kls) =
     (let c = str_strip (snd (snd (fst kl))) in
      case use kl of
        Skip \<Rightarrow> reusable_loop use opens closeds kls
      | Open_Link \<Rightarrow> if opens = [] then reusable_loop use [c] closeds kls else []
      | Closed_Link \<Rightarrow> if closeds = [] then reusable_loop use opens [c] kls else [])"

definition find_reusable_client_order_id :: "store \<Rightarrow> string \<Rightarrow> broker_report \<Rightarrow> string" where
  "find_reusable_client_order_id s dep r =
     (if xr_broker_order_id r = [] then []
      else reusable_loop (link_use_of r (reported_status r)) [] []
        (list_links_by_broker_order_id (st_links s) dep (xr_broker_type r) (xr_broker_order_id r) (str_strip (xr_account_id r))))"

definition resolve_client_order_id :: "(string \<Rightarrow> string) \<Rightarrow> store \<Rightarrow> string \<Rightarrow> broker_report \<Rightarrow> string res" where
  "resolve_client_order_id sha s dep r =
     (let reusable = find_reusable_client_order_id s dep r;
          made = (\<lambda>boid. make_shadow_broker_client_order_id sha dep (xr_broker_type r) boid (xr_report_id r) None [] [])
      in if reusable \<noteq> [] then Inr reusable
         else if xr_client_order_id r \<noteq> [] then Inr (xr_client_order_id r)
         else rbind (str_field (case xr_raw_payload r of None \<Rightarrow> [] | Some p \<Rightarrow> p) ''order_id'') (\<lambda>raw.
           let legacy = str_strip raw in
           Inr (if legacy = [] \<or> legacy = xr_broker_order_id r then made (xr_broker_order_id r)
                else if get_broker_order_link (st_links s) dep (xr_broker_type r) (made legacy) \<noteq> None then made legacy
                else made (xr_broker_order_id r))))"

definition normalize_broker_execution_reports :: "(string \<Rightarrow> string) \<Rightarrow> store \<Rightarrow> string \<Rightarrow> broker_report list \<Rightarrow> broker_report list res" where
  "normalize_broker_execution_reports sha s dep reports =
     rmap (\<lambda>r. rbind (resolve_client_order_id sha s dep r) (\<lambda>c. Inr (r\<lparr>xr_client_order_id := c\<rparr>))) reports"

section \<open>Comparing with the books\<close>

text \<open>The snapshot that was delivered, or the one asked for; with it the comparisons of account and open orders.\<close>

definition compare_snapshot ::
  "bool \<Rightarrow> string \<Rightarrow> string \<Rightarrow> date \<Rightarrow> local_books \<Rightarrow> broker_report list \<Rightarrow> store \<Rightarrow> string \<Rightarrow> account_snapshot
    \<Rightarrow> (account_snapshot option \<times> payload option \<times> payload option) res" where
  "compare_snapshot owner bt account d b reports s dep snap =
     (let a = (if as_account_id snap = [] then account else as_account_id snap);
          r = reconcile_broker_snapshot (lb_cash b) (lb_holdings b) (lb_equity b) (lb_prices b) snap 1 100 0
      in rbind (merge_local_broker_order_links s dep bt reports) (\<lambda>links.
         rbind (reconcile_broker_orders snap links (map execution_report.truncate reports)) (\<lambda>o_r.
           Inr (Some snap, Some (account_event owner d a r), Some (orders_event owner d a o_r)))))"

definition collect_snapshot_context ::
  "bool \<Rightarrow> (py_error \<Rightarrow> string) \<Rightarrow> string \<Rightarrow> string \<Rightarrow> date \<Rightarrow> local_books \<Rightarrow> broker_report list \<Rightarrow> store \<Rightarrow> string
    \<Rightarrow> account_snapshot option \<Rightarrow> account_snapshot option res \<Rightarrow> account_snapshot option \<times> payload option \<times> payload option" where
  "collect_snapshot_context owner msg bt account d b reports s dep given fetch =
     (case rbind (case given of Some x \<Rightarrow> Inr (Some x) | None \<Rightarrow> fetch) (\<lambda>snap. case snap of
          None \<Rightarrow> Inr (None, Some (plain_event owner d ''broker_reconcile'' ''unavailable'' bt account (no_snapshot owner)), None)
        | Some x \<Rightarrow> compare_snapshot owner bt account d b reports s dep x) of
        Inr t \<Rightarrow> t
      | Inl e \<Rightarrow> (None, Some (plain_event owner d ''broker_reconcile'' ''error'' bt account (msg e)), None))"

definition collect_position_reconcile ::
  "bool \<Rightarrow> (py_error \<Rightarrow> string) \<Rightarrow> string \<Rightarrow> string \<Rightarrow> date \<Rightarrow> local_books \<Rightarrow> account_snapshot option \<Rightarrow> payload" where
  "collect_position_reconcile owner msg bt account d b snap = (case snap of
     None \<Rightarrow> plain_event owner d ''position_reconcile'' ''unavailable'' bt account (no_snapshot owner)
   | Some x \<Rightarrow> (let a = (if as_account_id x = [] then account else as_account_id x) in
       case reconcile_broker_positions (lb_holdings b) (broker_positions_from_snapshot x) 0 bt (as_as_of x) of
         Inl e \<Rightarrow> plain_event owner d ''position_reconcile'' ''error'' bt a (msg e)
       | Inr r \<Rightarrow> serialize_position_reconcile d bt (event_name owner ''position_reconcile'') r (if owner then a else [])))"

definition collect_trade_reconcile ::
  "bool \<Rightarrow> (py_error \<Rightarrow> string) \<Rightarrow> string \<Rightarrow> string \<Rightarrow> date \<Rightarrow> local_books \<Rightarrow> account_snapshot option \<Rightarrow> payload" where
  "collect_trade_reconcile owner msg bt account d b snap = (case snap of
     None \<Rightarrow> plain_event owner d ''trade_reconcile'' ''unavailable'' bt account (no_snapshot owner)
   | Some x \<Rightarrow> (let a = (if as_account_id x = [] then account else as_account_id x) in
       case rbind (broker_trades_from_snapshot x) (\<lambda>ts.
           reconcile_broker_trades (local_trades_from_engine b d) ts d bt (1 / 100) 0 (as_as_of x)) of
         Inl e \<Rightarrow> plain_event owner d ''trade_reconcile'' ''error'' bt a (msg e)
       | Inr r \<Rightarrow> serialize_trade_reconcile d bt (event_name owner ''trade_reconcile'') r (if owner then a else [])))"

section \<open>Events of a synchronisation\<close>

definition account_snapshot_event :: "string \<Rightarrow> account_snapshot \<Rightarrow> event" where
  "account_snapshot_event dep x = make_broker_account_event dep (as_broker_type x) (as_as_of x) (as_account_id x) (as_cash x)
     (as_total_asset x) (as_positions x) (map JObj (as_open_orders x)) (int (length (as_fills x)))"

definition build_shadow_execution_report_events :: "(string \<Rightarrow> string) \<Rightarrow> string \<Rightarrow> broker_report list \<Rightarrow> event list" where
  "build_shadow_execution_report_events sha dep = map (\<lambda>r. make_broker_execution_event sha dep (xr_report_id r) (xr_broker_type r)
     (xr_as_of r) (xr_client_order_id r) (xr_broker_order_id r) (xr_symbol r) (xr_side r) (xr_status r) (xr_filled_shares r)
     (xr_remaining_shares r) (xr_avg_price r) (xr_message r) (xr_raw_payload r) (xr_account_id r))"

definition build_shadow_runtime_events :: "string \<Rightarrow> broker_runtime_event list \<Rightarrow> event list" where
  "build_shadow_runtime_events dep = map (\<lambda>e. make_broker_runtime_event dep (re_event_id e) (re_broker_type e) (re_event_kind e)
     (re_as_of e) [] (Some (re_payload e)))"

definition build_shadow_risk_events :: "string \<Rightarrow> date \<Rightarrow> timestamp \<Rightarrow> payload option list \<Rightarrow> event list" where
  "build_shadow_risk_events dep d now evs =
     map (\<lambda>(i, ev). make_risk_event dep d (int i) ev now) (enumerate 0 (List.map_filter id evs))"

definition build_shadow_sync_events ::
  "(string \<Rightarrow> string) \<Rightarrow> string \<Rightarrow> date \<Rightarrow> timestamp \<Rightarrow> account_snapshot option \<Rightarrow> broker_report list \<Rightarrow> broker_runtime_event list
    \<Rightarrow> payload option list \<Rightarrow> payload option \<Rightarrow> event list" where
  "build_shadow_sync_events sha dep d now snap reports runtime reconciles hard_gate =
     (let post = (case snap of None \<Rightarrow> [] | Some x \<Rightarrow> [account_snapshot_event dep x])
        @ build_shadow_runtime_events dep runtime @ build_shadow_execution_report_events sha dep reports
        @ build_shadow_risk_events dep d now reconciles
      in sequence_runtime_events now [] [] (post @ (case hard_gate of None \<Rightarrow> []
           | Some h \<Rightarrow> [make_risk_event dep d (int (length (filter (\<lambda>e. e_type e = RISK_RECORDED) post))) h now])))"

text \<open>The event of a comparison with the real broker: its id is made of the day, the name, the broker, the account and the
  time of the comparison, where there is one.\<close>

definition compared_at_of :: "payload \<Rightarrow> date \<Rightarrow> string res" where
  "compared_at_of ev d =
     rbind (case as_dict (jget ev ''details'' JNull) of None \<Rightarrow> Inr [] | Some x \<Rightarrow> str_field x ''compared_at'') (\<lambda>t.
       if t \<noteq> [] then Inr t else py_str (py_or (jget ev ''date'' (JStr [])) (JStr (isoformat d))))"

definition or_text :: "string \<Rightarrow> string \<Rightarrow> string" where
  "or_text s dflt = (if s = [] then dflt else s)"

definition build_runtime_reconcile_event :: "string \<Rightarrow> date \<Rightarrow> timestamp \<Rightarrow> payload \<Rightarrow> event res" where
  "build_runtime_reconcile_event dep d now ev =
     rbind (str_field ev ''event'') (\<lambda>name. rbind (str_field ev ''broker_type'') (\<lambda>bt. rbind (str_field ev ''account_id'') (\<lambda>account.
     rbind (compared_at_of ev d) (\<lambda>cmp.
       let coid = dep @ '':'' @ isoformat d @ '':runtime-risk:'' @ or_text name ''risk_event'' @ '':'' @ or_text bt ''unknown'' @ '':''
             @ or_text account ''unknown'' @ '':'' @ cmp
       in Inr \<lparr>e_event_id = make_event_id coid RISK_RECORDED, e_deployment_id = dep, e_type = RISK_RECORDED, e_ts = now,
            e_client_order_id = coid, e_payload = [(''business_date'', JStr (isoformat d)), (''risk_event'', JObj ev)]\<rparr>))))"

definition timestamp_date :: "timestamp \<Rightarrow> date" where
  "timestamp_date t = ord2ymd (nat t div 86400000000 + 1)"

definition derive_shadow_business_date :: "account_snapshot option \<Rightarrow> broker_report list \<Rightarrow> broker_runtime_event list \<Rightarrow> timestamp \<Rightarrow> date" where
  "derive_shadow_business_date snap reports events now = timestamp_date (case snap of
     Some x \<Rightarrow> as_as_of x
   | None \<Rightarrow> (let ts = map xr_as_of reports @ map re_as_of events in if ts = [] then now else Max (set ts)))"

section \<open>Cursors\<close>

definition update_all :: "payload \<Rightarrow> payload \<Rightarrow> payload" where
  "update_all d new = fold (\<lambda>(k, v) d. dset d k v) new d"

definition get_qmt_sync_cursor_scope :: "payload option \<Rightarrow> string \<Rightarrow> payload option" where
  "get_qmt_sync_cursor_scope cursor role = (case cursor of None \<Rightarrow> None
     | Some c \<Rightarrow> (case as_dict (jget c role JNull) of Some d \<Rightarrow> Some d | None \<Rightarrow> if role = ''shadow'' then Some c else None))"

text \<open>\<open>int(extras.get("v") or 1)\<close> with the default for what is not a number.\<close>

definition cursor_version :: "payload \<Rightarrow> int res" where
  "cursor_version extras = int_or (py_or (jget extras ''v'' JNull) (JInt 1)) 1"

definition merge_qmt_sync_cursor_scope :: "payload \<Rightarrow> string \<Rightarrow> payload \<Rightarrow> payload res" where
  "merge_qmt_sync_cursor_scope existing role cursor =
     (let shadow = as_dict (jget existing ''shadow'' JNull); own = as_dict (jget existing ''real_owner'' JNull);
          scoped = (shadow \<noteq> None \<or> own \<noteq> None);
          sc = (if scoped then (case shadow of None \<Rightarrow> [] | Some x \<Rightarrow> x) else existing);
          oc = (if scoped then (case own of None \<Rightarrow> [] | Some x \<Rightarrow> x) else []);
          extras = (if scoped then filter (\<lambda>(k, v). k \<noteq> ''shadow'' \<and> k \<noteq> ''real_owner'') existing else []);
          sc = (if role = ''shadow'' then update_all sc cursor else sc);
          oc = (if role = ''shadow'' then oc else update_all oc cursor)
      in if role = ''shadow'' \<and> oc = [] \<and> \<not> scoped then Inr sc
         else rbind (cursor_version extras) (\<lambda>v.
           Inr (filter (\<lambda>(k, x). k \<noteq> ''v'') extras @ [(''v'', JInt v), (''shadow'', JObj sc)]
             @ (if oc = [] then [] else [(''real_owner'', JObj oc)]))))"

definition persist_cursor :: "timestamp \<Rightarrow> string \<Rightarrow> string \<Rightarrow> string \<Rightarrow> payload option \<Rightarrow> store \<Rightarrow> store res" where
  "persist_cursor now dep bt role cursor s = (case cursor of None \<Rightarrow> Inr s
     | Some c \<Rightarrow>
         (let existing = (case get_broker_sync_cursor s dep bt of None \<Rightarrow> [] | Some x \<Rightarrow> x) in
          rbind (if role = ''real_owner'' \<or> bt = ''qmt'' then merge_qmt_sync_cursor_scope existing role c
             else Inr (update_all existing c)) (\<lambda>m. Inr (upsert_broker_sync_cursor now dep bt (Some m) s))))"

section \<open>The two synchronisations\<close>

text \<open>A broker in a synchronisation: its type, what it reports, and the snapshot it gives when asked again.\<close>

record sync_broker =
  sy_type :: string
  sy_bundle :: "sync_bundle res"
  sy_fetch :: "account_snapshot option res"

record sync_env =
  en_json :: json_text
  en_sha :: "string \<Rightarrow> string"
  en_error_text :: "py_error \<Rightarrow> string"
  en_now :: timestamp

definition no_bundle :: sync_bundle where
  "no_bundle = \<lparr>sb_snapshot = None, sb_execution_reports = [], sb_runtime_events = [], sb_cursor_state = None\<rparr>"

text \<open>A broker that raises delivers nothing.\<close>

definition collected_bundle :: "sync_env \<Rightarrow> store \<Rightarrow> string \<Rightarrow> sync_broker \<Rightarrow> sync_bundle" where
  "collected_bundle en s dep br =
     (case rbind (sy_bundle br) (\<lambda>b. rbind (normalize_broker_execution_reports (en_sha en) s dep (sb_execution_reports b)) (\<lambda>rs.
        Inr (b\<lparr>sb_execution_reports := rs\<rparr>))) of Inl e \<Rightarrow> no_bundle | Inr b \<Rightarrow> b)"

text \<open>The hard gate of the real broker, under its own name and for the account that the comparisons name.\<close>

definition resolved_account :: "payload option list \<Rightarrow> string \<Rightarrow> json" where
  "resolved_account rs account = foldr (\<lambda>r j. py_or (case r of None \<Rightarrow> JNull | Some d \<Rightarrow> jget d ''account_id'' JNull) j) rs
     (if account = [] then JNull else JStr account)"

definition real_hard_gate :: "payload option \<Rightarrow> payload option \<Rightarrow> payload \<Rightarrow> payload \<Rightarrow> string \<Rightarrow> payload res" where
  "real_hard_gate acct orders positions traded account =
     rbind (build_qmt_reconcile_hard_gate acct orders (Some positions) (Some traded) ''qmt'' []) (\<lambda>h.
       Inr (dset (dset (the h) ''event'' (JStr ''real_qmt_reconcile_hard_gate''))
         ''account_id'' (resolved_account [acct, orders, Some positions, Some traded] account)))"

definition owner_risk_events ::
  "sync_env \<Rightarrow> string \<Rightarrow> string \<Rightarrow> local_books \<Rightarrow> sync_broker \<Rightarrow> sync_bundle \<Rightarrow> account_snapshot option \<Rightarrow> store \<Rightarrow> event list res" where
  "owner_risk_events en dep account b br sb given s =
     (let d = derive_shadow_business_date (sb_snapshot sb) (sb_execution_reports sb) (sb_runtime_events sb) (en_now en);
          (snap, acct, orders) = collect_snapshot_context True (en_error_text en) (sy_type br) account d b (sb_execution_reports sb) s dep
            given (sy_fetch br);
          positions = collect_position_reconcile True (en_error_text en) (sy_type br) account d b given;
          traded = collect_trade_reconcile True (en_error_text en) (sy_type br) account d b given
      in rbind (real_hard_gate acct orders positions traded account) (\<lambda>h.
           rmap (build_runtime_reconcile_event dep d (en_now en)) (List.map_filter id [acct, orders, Some positions, Some traded, Some h])))"

definition append_real_qmt_owner_events ::
  "sync_env \<Rightarrow> string \<Rightarrow> spec \<Rightarrow> local_books \<Rightarrow> sync_broker \<Rightarrow> store \<Rightarrow> store \<times> unit res" where
  "append_real_qmt_owner_events en dep sp b br s =
     (if str_lower (sy_type br) \<noteq> ''qmt'' then (s, Inr ())
      else let sb = collected_bundle en s dep br;
               evs = build_shadow_execution_report_events (en_sha en) dep (sb_execution_reports sb)
                 @ build_shadow_runtime_events dep (sb_runtime_events sb)
                 @ (case sb_snapshot sb of None \<Rightarrow> [] | Some x \<Rightarrow> if sp_broker_type sp = ''qmt'' then [account_snapshot_event dep x] else [])
           in case (if str_lower (sp_broker_type sp) \<noteq> ''qmt'' then Inr []
                else rbind (risk_params (en_json en) sp) (\<lambda>params. rbind (extract_qmt_account_id params) (\<lambda>account.
                  owner_risk_events en dep account b br sb (if sp_broker_type sp = ''qmt'' then sb_snapshot sb else None) s))) of
               Inl e \<Rightarrow> (s, Inl e)
             | Inr risk \<Rightarrow> (case append_events (en_now en) (evs @ risk) s of
                 (s1, Inl e) \<Rightarrow> (s1, Inl e)
               | (s1, Inr n) \<Rightarrow> (case persist_cursor (en_now en) dep (sy_type br) ''real_owner'' (sb_cursor_state sb) s1 of
                   Inl e \<Rightarrow> (s1, Inl e) | Inr s2 \<Rightarrow> (s2, Inr ()))))"

text \<open>\<open>_pump_broker_state_locked\<close>: the shadow broker, then the real one, the cursor and the projection.\<close>

definition shadow_sync :: "sync_env \<Rightarrow> string \<Rightarrow> local_books \<Rightarrow> sync_broker \<Rightarrow> sync_bundle \<Rightarrow> store \<Rightarrow> store \<times> unit res" where
  "shadow_sync en dep b br sb s =
     (let d = derive_shadow_business_date (sb_snapshot sb) (sb_execution_reports sb) (sb_runtime_events sb) (en_now en);
          (snap, acct, orders) = collect_snapshot_context False (en_error_text en) (sy_type br) [] d b (sb_execution_reports sb) s dep
            (sb_snapshot sb) (sy_fetch br);
          positions = collect_position_reconcile False (en_error_text en) (sy_type br) [] d b snap;
          traded = collect_trade_reconcile False (en_error_text en) (sy_type br) [] d b snap
      in case build_qmt_reconcile_hard_gate acct orders (Some positions) (Some traded) (sy_type br) [] of
           Inl e \<Rightarrow> (s, Inl e)
         | Inr h \<Rightarrow> save_broker_sync_result (en_now en) dep
             (build_shadow_sync_events (en_sha en) dep d (en_now en) snap (sb_execution_reports sb) (sb_runtime_events sb)
               [acct, orders, Some positions, Some traded] h)
             (map execution_report.truncate (sb_execution_reports sb)) s)"

definition pump_broker_state ::
  "sync_env \<Rightarrow> string \<Rightarrow> deployment_record \<Rightarrow> spec \<Rightarrow> local_books \<Rightarrow> sync_broker option \<Rightarrow> sync_broker \<Rightarrow> store \<Rightarrow> store \<times> payload option res" where
  "pump_broker_state en dep r sp b shadow br s = (case shadow of
     None \<Rightarrow> (s, Inl ValueError)
   | Some sh \<Rightarrow>
       (let sb = collected_bundle en s dep sh in
        case shadow_sync en dep b sh sb s of
          (s1, Inl e) \<Rightarrow> (s1, Inl e)
        | (s1, Inr _) \<Rightarrow> (case append_real_qmt_owner_events en dep sp b br s1 of
            (s2, Inl e) \<Rightarrow> (s2, Inl e)
          | (s2, Inr _) \<Rightarrow> (case persist_cursor (en_now en) dep (sy_type sh) ''shadow'' (sb_cursor_state sb) s2 of
              Inl e \<Rightarrow> (s2, Inl e)
            | Inr s3 \<Rightarrow> (case persist_qmt_runtime_projection (en_json en) (en_now en) dep r (Some sp) s3 of
                Inl e \<Rightarrow> (s3, Inl e) | Inr (s4, p) \<Rightarrow> (s4, Inr p))))))"

section \<open>One hard gate a day\<close>

lemma recorded_risk_event_ignored:
  assumes "e_type e = RISK_RECORDED" and "e_event_id e \<in> set (map e_event_id (st_events s))"
  shows "append_events now [e] s = (s, Inr 0)"
proof -
  have "link_update evs now e ls = Inr ls" for evs ls
    by (simp add: link_update_def runtime_event_is_order_submit_ack_def runtime_event_is_cancel_submit_ack_def
      runtime_event_is_cancel_failed_def assms(1) Let_def)
  then show ?thesis
    using assms(2) by (simp add: append_events_def append_events_locked_def append_one_def transact_def Let_def)
qed

text \<open>What the event of a hard gate takes over from the comparison of the account.\<close>

lemma hard_gate_fields:
  assumes "build_qmt_reconcile_hard_gate account orders positions traded ''qmt'' aid = Inr h"
    and "first_date [account, orders, positions, traded] = Inr dt"
  shows "map_of (the h) ''broker_type'' = Some (JStr ''qmt'')" "map_of (the h) ''date'' = Some (JStr dt)"
    "\<exists>s1 s2 s3 s4. map_of (the h) ''details'' = Some (JObj [(''broker_reconcile_status'', s1), (''broker_order_reconcile_status'', s2),
       (''position_reconcile_status'', s3), (''trade_reconcile_status'', s4)])"
proof -
  obtain sa so sp st where "reconcile_status_of account = Inr sa" "reconcile_status_of orders = Inr so"
      "reconcile_status_of positions = Inr sp" "reconcile_status_of traded = Inr st"
    using assms(1) unfolding build_qmt_reconcile_hard_gate_def rbind_Inr_iff not_True_eq_False if_False simp_thms(6)
    by (elim exE conjE) (rule that)
  note eqs = this
  show "map_of (the h) ''broker_type'' = Some (JStr ''qmt'')" "map_of (the h) ''date'' = Some (JStr dt)"
    "\<exists>s1 s2 s3 s4. map_of (the h) ''details'' = Some (JObj [(''broker_reconcile_status'', s1), (''broker_order_reconcile_status'', s2),
       (''position_reconcile_status'', s3), (''trade_reconcile_status'', s4)])"
    using assms(1) unfolding build_qmt_reconcile_hard_gate_def eqs assms(2) by (auto simp: Let_def)
qed

lemma real_hard_gate_fields:
  assumes "real_hard_gate (Some a) orders positions traded x = Inr g"
    and "map_of a ''date'' = Some (JStr dt)" and "dt \<noteq> []" and "map_of a ''account_id'' = Some (JStr account)" and "account \<noteq> []"
  shows "map_of g ''event'' = Some (JStr ''real_qmt_reconcile_hard_gate'')" "map_of g ''broker_type'' = Some (JStr ''qmt'')"
    "map_of g ''account_id'' = Some (JStr account)" "map_of g ''date'' = Some (JStr dt)"
    "\<exists>s1 s2 s3 s4. map_of g ''details'' = Some (JObj [(''broker_reconcile_status'', s1), (''broker_order_reconcile_status'', s2),
       (''position_reconcile_status'', s3), (''trade_reconcile_status'', s4)])"
proof -
  obtain h where h: "build_qmt_reconcile_hard_gate (Some a) orders (Some positions) (Some traded) ''qmt'' [] = Inr h"
    and g: "g = dset (dset (the h) ''event'' (JStr ''real_qmt_reconcile_hard_gate'')) ''account_id'' (JStr account)"
    using assms(1) by (auto simp: real_hard_gate_def resolved_account_def jget_def dget_or_def py_or_def assms(4,5))
  have "first_date [Some a, orders, Some positions, Some traded] = Inr dt"
    using assms(2,3) by (simp add: first_date_def jget_def dget_or_def)
  note f = hard_gate_fields [OF h this]
  show "map_of g ''event'' = Some (JStr ''real_qmt_reconcile_hard_gate'')" "map_of g ''broker_type'' = Some (JStr ''qmt'')"
    "map_of g ''account_id'' = Some (JStr account)" "map_of g ''date'' = Some (JStr dt)"
    "\<exists>s1 s2 s3 s4. map_of g ''details'' = Some (JObj [(''broker_reconcile_status'', s1), (''broker_order_reconcile_status'', s2),
       (''position_reconcile_status'', s3), (''trade_reconcile_status'', s4)])"
    using f by (simp_all add: g)
qed

lemma hard_gate_event:
  assumes "real_hard_gate (Some a) orders positions traded x = Inr g"
    and "map_of a ''date'' = Some (JStr dt)" and "dt \<noteq> []" and "map_of a ''account_id'' = Some (JStr account)" and "account \<noteq> []"
    and "build_runtime_reconcile_event dep d now g = Inr e"
  shows "e_type e = RISK_RECORDED"
    and "e_event_id e = make_event_id (dep @ '':'' @ isoformat d @ '':runtime-risk:'' @ ''real_qmt_reconcile_hard_gate'' @ '':'' @ ''qmt'' @ '':'' @ account @ '':'' @ dt) RISK_RECORDED"
proof -
  note f = real_hard_gate_fields [OF assms(1-5)]
  obtain s1 s2 s3 s4 where det: "jget g ''details'' JNull = JObj [(''broker_reconcile_status'', s1), (''broker_order_reconcile_status'', s2),
       (''position_reconcile_status'', s3), (''trade_reconcile_status'', s4)]"
    using f(5) by (auto simp: jget_def dget_or_def)
  have "str_field [(''broker_reconcile_status'', s1), (''broker_order_reconcile_status'', s2),
       (''position_reconcile_status'', s3), (''trade_reconcile_status'', s4)] ''compared_at'' = Inr []"
    by (rule str_field_None) simp
  moreover have "jget g ''date'' (JStr []) = JStr dt" by (simp add: jget_def dget_or_def f(4))
  ultimately have c: "compared_at_of g d = Inr dt"
    using assms(3) by (simp add: compared_at_of_def det py_or_def)
  have t: "or_text account ''unknown'' = account" "or_text ''qmt'' ''unknown'' = ''qmt''"
    "or_text ''real_qmt_reconcile_hard_gate'' ''risk_event'' = ''real_qmt_reconcile_hard_gate''"
    by (simp_all add: or_text_def assms(5))
  note e = assms(6) [unfolded build_runtime_reconcile_event_def str_field_JStr [OF f(1)] str_field_JStr [OF f(2)] str_field_JStr [OF f(3)]
    c rbind.simps Let_def t sum.inject, symmetric]
  show "e_type e = RISK_RECORDED" unfolding e by (simp only: event.select_convs)
  show "e_event_id e = make_event_id (dep @ '':'' @ isoformat d @ '':runtime-risk:'' @ ''real_qmt_reconcile_hard_gate'' @ '':'' @ ''qmt'' @ '':'' @ account @ '':'' @ dt) RISK_RECORDED"
    unfolding e by (simp only: event.select_convs)
qed

text \<open>C40: The hard gate of a day cannot be replaced.  Once the hard gate of the real broker has been recorded for a day and an
  account, the event of any later hard gate of that day and account is ignored by the store, whatever the later
  comparison of the account, the orders, the positions and the trades found: the store does not change, and the latest
  hard gate that the projection reads is still the first one.\<close>

theorem hard_gate_frozen_for_the_day:
  assumes "real_hard_gate (Some a1) orders1 positions1 traded1 x1 = Inr g1"
    and "real_hard_gate (Some a2) orders2 positions2 traded2 x2 = Inr g2"
    and "\<forall>a \<in> {a1, a2}. map_of a ''date'' = Some (JStr (isoformat d)) \<and> map_of a ''account_id'' = Some (JStr account)"
    and "account \<noteq> []"
    and "build_runtime_reconcile_event dep d now1 g1 = Inr e1" and "build_runtime_reconcile_event dep d now2 g2 = Inr e2"
    and "e1 \<in> set (st_events s)"
  shows "append_events now [e2] s = (s, Inr 0)
    \<and> get_latest_risk_event (fst (append_events now [e2] s)) dep ''real_qmt_reconcile_hard_gate''
      = get_latest_risk_event s dep ''real_qmt_reconcile_hard_gate''"
proof -
  have ne: "isoformat d \<noteq> []" using length_isoformat [of d] by (metis list.size(3) zero_neq_numeral)
  have "e_event_id e2 = e_event_id e1" and t: "e_type e2 = RISK_RECORDED"
    using hard_gate_event [OF assms(1) _ ne _ assms(4,5)] hard_gate_event [OF assms(2) _ ne _ assms(4,6)] assms(3) by simp_all
  then have "append_events now [e2] s = (s, Inr 0)"
    using assms(7) by (intro recorded_risk_event_ignored) auto
  then show ?thesis by simp
qed

text \<open>In the morning everything agrees; at noon the position of a symbol does not.\<close>

definition gate_comparison :: "string \<Rightarrow> payload" where
  "gate_comparison base = plain_event True (Date 2024 1 2) base ''ok'' ''qmt'' ''acct'' []"

definition morning_gate :: "payload res" where
  "morning_gate = real_hard_gate (Some (gate_comparison ''broker_reconcile'')) (Some (gate_comparison ''broker_order_reconcile''))
     (gate_comparison ''position_reconcile'') (gate_comparison ''trade_reconcile'') ''acct''"

definition noon_gate :: "payload res" where
  "noon_gate = real_hard_gate (Some (gate_comparison ''broker_reconcile'')) (Some (gate_comparison ''broker_order_reconcile''))
     (dset (gate_comparison ''position_reconcile'') ''status'' (JStr ''drift'')) (gate_comparison ''trade_reconcile'') ''acct''"

definition gate_event :: "payload res \<Rightarrow> timestamp \<Rightarrow> event res" where
  "gate_event g t = rbind g (build_runtime_reconcile_event ''d'' (Date 2024 1 2) t)"

theorem hard_gate_frozen_for_the_day_witness:
  "\<exists>g1 g2 e1 e2. morning_gate = Inr g1 \<and> noon_gate = Inr g2 \<and> map_of g1 ''status'' = Some (JStr ''open'')
     \<and> map_of g2 ''status'' = Some (JStr ''blocked'') \<and> gate_event morning_gate 1 = Inr e1 \<and> gate_event noon_gate 2 = Inr e2
     \<and> append_events 3 [e2] (empty_store\<lparr>st_events := [e1]\<rparr>) = (empty_store\<lparr>st_events := [e1]\<rparr>, Inr 0)"
proof -
  have m: "map_sum id (\<lambda>g. map_of g ''status'') morning_gate = Inr (Some (JStr ''open''))"
    and n: "map_sum id (\<lambda>g. map_of g ''status'') noon_gate = Inr (Some (JStr ''blocked''))"
    and me: "map_sum id e_type (gate_event morning_gate 1) = Inr RISK_RECORDED"
    and ne: "map_sum id e_type (gate_event noon_gate 2) = Inr RISK_RECORDED" by code_simp+
  obtain g1 where g1: "morning_gate = Inr g1" "map_of g1 ''status'' = Some (JStr ''open'')" using observe [OF m] by blast
  obtain g2 where g2: "noon_gate = Inr g2" "map_of g2 ''status'' = Some (JStr ''blocked'')" using observe [OF n] by blast
  obtain e1 where e1: "gate_event morning_gate 1 = Inr e1" using observe [OF me] by blast
  obtain e2 where e2: "gate_event noon_gate 2 = Inr e2" using observe [OF ne] by blast
  let ?a = "gate_comparison ''broker_reconcile''"
  have a: "\<forall>a \<in> {?a, ?a}. map_of a ''date'' = Some (JStr (isoformat (Date 2024 1 2))) \<and> map_of a ''account_id'' = Some (JStr ''acct'')"
    by (simp add: gate_comparison_def plain_event_def account_entry_def)
  have "append_events 3 [e2] (empty_store\<lparr>st_events := [e1]\<rparr>) = (empty_store\<lparr>st_events := [e1]\<rparr>, Inr 0)"
    by (rule hard_gate_frozen_for_the_day [OF g1(1) [unfolded morning_gate_def] g2(1) [unfolded noon_gate_def] a _
          e1 [unfolded gate_event_def g1(1) rbind.simps] e2 [unfolded gate_event_def g2(1) rbind.simps], THEN conjunct1]) simp_all
  then show ?thesis using g1 g2 e1 e2 by blast
qed

end
