(* ===== verification/Spec2Isabelle.thy ===== *)
theory Spec2Isabelle
  imports Paper_Rebalance Backtest_Paths Backtest_Account Link_Lifecycle Risk_Manager Trading_Calendar Deployment_Spec Lifecycle Run_Deployment Walk_Forward Broker_Sync
begin

text \<open>
  OpenTrading (\<open>src/ez\<close>) backtests portfolio strategies and trades them live.  A backtest run passes a promotion gate,
  becomes an immutable deployment specification and is approved; a scheduler then runs one day after the other: a
  paper engine turns the proposal of the strategy into target weights, an order management system turns weights into
  screened orders, a broker fills them, and every step is an event of a log from which the account is replayed after a
  restart.  Real orders pass further gates on the state of the broker session.  This development models that chain as
  functions on explicit state.

  \<^bold>\<open>Foundations.\<close>
  \<^item> \<open>Prelude\<close>, \<open>PyValue\<close>, \<open>Live_Utils\<close> (\<open>ez/live/_utils.py\<close>): dictionaries in insertion order, errors, lot rounding; JSON
    values with the conversions of Python, strings, dates; the small readers of the live modules.

  \<^bold>\<open>Orders, log and account.\<close>
  \<^item> \<open>Order_Events\<close> (\<open>ez/live/events.py\<close>): events, orders, fills, ids and the broker status lifecycle, which is shown to
    move forward only.
  \<^item> \<open>Ledger\<close> (\<open>ledger.py\<close>): replay of the log; its result depends on the set of events alone, money moves with fills
    only, order statuses never go back.
  \<^item> \<open>Execution\<close> (\<open>ez/portfolio/execution.py\<close>), \<open>Paper_Broker\<close> (\<open>broker.py\<close>, \<open>paper_broker.py\<close>): weights to trades under
    lots, costs, price limits and T+1, and their slicing into fills; conservation, solvency and progress.
  \<^item> \<open>Capital_Policy\<close>, \<open>Risk\<close> (\<open>capital_policy.py\<close>, \<open>risk.py\<close>): the screens before an order, with the kill switch.
  \<^item> \<open>Weight_Projection\<close>, \<open>Allocation\<close> (\<open>optimizer_allocator.py\<close>, \<open>allocation.py\<close>): the constrained allocators and their bounds.
  \<^item> \<open>OMS\<close>, \<open>OMS_Replay\<close>, \<open>Paper_Rebalance\<close> (\<open>oms.py\<close>): one rebalance.  Locale \<open>rebalance_broker\<close> states what the OMS
    expects of a broker and the paper broker interprets it; the main refinement is that replaying the events of a
    rebalance reproduces the account it returns.

  \<^bold>\<open>Backtests.\<close>
  \<^item> \<open>Matcher\<close>, \<open>Backtest_Engine\<close>, \<open>Backtest_Paths\<close>, \<open>Backtest_Account\<close> (\<open>ez/core\<close>, \<open>ez/backtest/engine.py\<close>): the
    single-stock engine; the compiled loop equals the Python loop, no look-ahead, solvency, trade records.
  \<^item> \<open>Trading_Calendar\<close>, \<open>Risk_Manager\<close> (\<open>ez/portfolio/calendar.py\<close>, \<open>risk_manager.py\<close>): rebalance dates and the drawdown breaker.
  \<^item> \<open>Portfolio_Data\<close>, \<open>Portfolio_Engine\<close>, \<open>Portfolio_Accounts\<close>, \<open>Portfolio_Lookahead\<close>, \<open>Portfolio_Metrics\<close>
    (\<open>ez/portfolio/universe.py\<close>, \<open>allocator.py\<close>, \<open>engine.py\<close>, \<open>ez/backtest/metrics.py\<close>): the portfolio engine day by day;
    the books balance, nothing is borrowed, no day depends on later data, the report agrees with the other calculator.
  \<^item> \<open>Walk_Forward\<close> (\<open>walk_forward.py\<close> of both packages): folds and the chained out-of-sample curve.

  \<^bold>\<open>Deployments.\<close>
  \<^item> \<open>Deployment_Spec\<close>, \<open>Gates\<close>, \<open>Deployment_Api\<close>, \<open>Run_Deployment\<close> (\<open>deployment_spec.py\<close>, \<open>deploy_gate.py\<close>,
    \<open>ez/agent/gates.py\<close>, \<open>ez/api\<close>): the specification of a run, the gates, and what survives from run to deployment.
  \<^item> \<open>Broker_Links\<close>, \<open>Deployment_Store\<close>, \<open>Deployment_Log\<close>, \<open>Link_Lifecycle\<close> (\<open>_broker_order_links.py\<close>,
    \<open>deployment_store.py\<close>): the tables as dictionaries, transactions, reachable stores and what no write undoes.
  \<^item> \<open>Paper_Engine\<close>, \<open>Recovery\<close>, \<open>Scheduler\<close>, \<open>Tick\<close>, \<open>Lifecycle\<close> (\<open>paper_engine.py\<close>, \<open>scheduler.py\<close>,
    \<open>_snapshot_collectors.py\<close>): a trading day, restart, start/pause/resume/stop, the daily tick; an inductive step
    relation over the scheduler with its invariant, and that only what passed the gate trades.
  \<^item> \<open>Reconcile\<close> (\<open>ez/live/qmt/reconcile.py\<close>), \<open>Submit_Gates\<close> (\<open>ez/live/qmt/broker.py\<close>), \<open>Runtime_Projection\<close>
    (\<open>ez/live/qmt/_projection.py\<close>), \<open>Broker_Sync\<close> (\<open>_broker_pump.py\<close>, \<open>_snapshot_collectors.py\<close>, \<open>scheduler.py\<close>): the
    broker's books against the local ones, the decisions that let real orders through, the way both enter the log, and
    that nothing reaches the broker unless every decision allows it; but a hard gate, once recorded, stands for the day.

  \<^bold>\<open>Conventions.\<close>  Floats are exact rationals: the theorems speak of the algorithm and not of rounding, and the
  tolerances of the code are kept; where the code tests for NaN or infinity the type \<open>pfloat\<close> or an option is used.
  Timestamps are integers of microseconds.  A raised exception is \<open>Inl\<close> of its class; a conversion whose text the model
  does not know is \<open>Inl NotModelled\<close>.  Clock, hash, JSON text, square root, power, eigenvalues, compiled kernels, strategies,
  optimizers, providers and broker clients are arguments of the definitions that use them.  Loops of the source are
  structural recursion or folds; where a loop has a bound in the source (the ten passes of a clip, the slices of
  an order) the bound is the source's, so there is no fuel that could run out.

  \<^bold>\<open>Not modelled.\<close>  Locks, threads and asyncio: operations are atomic, as the per-deployment lock makes them.  The
  session owner, callback bridge and host of QMT, because they are driven by a proprietary client that is not in the
  repository: a broker is what it reports.  Network clients, SQL schemas and migrations, data caches, language
  models, the sandbox, HTTP routes beyond those named, machine learning, statistical tests with random numbers,
  scipy optimizers and the front end.  IEEE rounding.
\<close>

end
